(* ===== verification/Js_Prelude.thy ===== *)
theory Js_Prelude imports Main "HOL-Library.AList" "HOL-Library.Sublist" "HOL-Library.Word" begin

text \<open>
  What the JavaScript sources use of their language, shared by every component:
  \<^item> \<open>Map\<close> objects as association lists in insertion order (\<open>map_of\<close> looks up,
    \<open>AList.update\<close> is \<open>set\<close>: it keeps the position of a key that is there and appends a
    new one, as JavaScript does; \<open>AList.delete\<close> is \<open>delete\<close>), \<open>Set\<close> objects as lists
    without repetition;
  \<^item> strings as \<open>string\<close>: the UTF-8 bytes of the text, one \<open>char\<close> each, so that the byte
    length the code asks of \<open>TextEncoder\<close> is \<open>length\<close>; splitting, joining and prefixes at
    ASCII characters do not depend on that choice;
  \<^item> numbers as \<open>int\<close>; \<open>js_u32\<close> is the operator \<open>>>> 0\<close>;
  \<^item> canonical relative paths: the strings \<open>js_join ''/'' ps\<close> for a list of proper segments.
\<close>

section \<open>Collections of lemmas\<close>

named_theorems path_intros \<open>facts that a path is canonical\<close>
named_theorems state_simps \<open>how an update of the runtime acts on a predicate of it\<close>

section \<open>Numbers\<close>

definition js_u32 :: "int \<Rightarrow> int" where
  "js_u32 x = x mod 4294967296"

definition max_safe_integer :: int where
  "max_safe_integer = 9007199254740991"

lemma js_u32_range [simp]: "0 \<le> js_u32 x" "js_u32 x < 4294967296"
  by (simp_all add: js_u32_def)

lemma js_u32_id: "0 \<le> x \<Longrightarrow> x < 4294967296 \<Longrightarrow> js_u32 x = x"
  by (simp add: js_u32_def)

section \<open>Maps and sets\<close>

abbreviation map_keys :: "('k \<times> 'v) list \<Rightarrow> 'k list" where
  "map_keys m \<equiv> map fst m"

definition map_has :: "('k \<times> 'v) list \<Rightarrow> 'k \<Rightarrow> bool" where
  "map_has m k \<longleftrightarrow> map_of m k \<noteq> None"

lemma map_has_iff: "map_has m k \<longleftrightarrow> k \<in> fst ` set m"
  by (simp add: map_has_def map_of_eq_None_iff)

lemma map_has_code [code]: "map_has m k \<longleftrightarrow> List.member (map fst m) k"
  by (auto simp: map_has_iff)

definition set_add :: "'a \<Rightarrow> 'a list \<Rightarrow> 'a list" where
  "set_add x xs = (if x \<in> set xs then xs else xs @ [x])"

lemma set_set_add [simp]: "set (set_add x xs) = insert x (set xs)"
  by (auto simp: set_add_def)

lemma distinct_set_add [simp]: "distinct xs \<Longrightarrow> distinct (set_add x xs)"
  by (simp add: set_add_def)

lemma map_of_update [simp]:
  "map_of (AList.update k v m) = (map_of m)(k \<mapsto> v)"
  by (rule update_conv')

lemma map_of_delete [simp]:
  "map_of (AList.delete k m) = (map_of m)(k := None)"
  by (rule delete_conv')

lemma keys_update [simp]:
  "fst ` set (AList.update k v m) = insert k (fst ` set m)"
  by (metis (no_types) dom_fun_upd dom_map_of_conv_image_fst map_of_update option.distinct(1))

lemma keys_delete [simp]: "fst ` set (AList.delete k m) = fst ` set m - {k}"
  by (auto simp: AList.delete_eq)

lemma distinct_keys_update [simp]:
  "distinct (map_keys m) \<Longrightarrow> distinct (map_keys (AList.update k v m))"
  by (rule distinct_update)

lemma distinct_keys_delete [simp]:
  "distinct (map_keys m) \<Longrightarrow> distinct (map_keys (AList.delete k m))"
  by (rule distinct_delete)

lemma update_new: "k \<notin> fst ` set m \<Longrightarrow> AList.update k v m = m @ [(k, v)]"
  by (induction m) auto

lemma map_of_map_values: "map_of (map (\<lambda>(k, v). (k, f v)) m) k = map_option f (map_of m k)"
  by (induction m) auto

lemma in_set_map_of: "distinct (map_keys m) \<Longrightarrow> (k, v) \<in> set m \<longleftrightarrow> map_of m k = Some v"
  by (simp add: map_of_eq_Some_iff)

section \<open>Strings\<close>

fun js_split :: "char \<Rightarrow> string \<Rightarrow> string list" where
  "js_split c [] = [[]]"
| "js_split c (x # xs) =
     (if x = c then [] # js_split c xs
      else (case js_split c xs of [] \<Rightarrow> [[x]] | p # ps \<Rightarrow> (x # p) # ps))"

fun js_join :: "string \<Rightarrow> string list \<Rightarrow> string" where
  "js_join s [] = []"
| "js_join s [p] = p"
| "js_join s (p # q # ps) = p @ s @ js_join s (q # ps)"

definition last_index_of :: "char \<Rightarrow> string \<Rightarrow> int" where
  "last_index_of c s =
     (if c \<in> set s then int (length s - 1 - length (takeWhile (\<lambda>x. x \<noteq> c) (rev s))) else -1)"

lemma js_split_nonempty [simp]: "js_split c s \<noteq> []"
  by (induction s) (auto split: list.splits)

lemma js_split_no_sep: "p \<in> set (js_split c s) \<Longrightarrow> c \<notin> set p"
  by (induction s arbitrary: p) (auto split: if_splits list.splits)

lemma js_split_chars: "p \<in> set (js_split c s) \<Longrightarrow> set p \<subseteq> set s"
  by (induction s arbitrary: p) (fastforce split: if_splits list.splits)+

lemma js_split_single: "c \<notin> set s \<Longrightarrow> js_split c s = [s]"
  by (induction s) auto

lemma js_split_append: "c \<notin> set p \<Longrightarrow> js_split c (p @ c # s) = p # js_split c s"
  by (induction p) auto

lemma js_split_append2: "js_split c (p @ c # s) = js_split c p @ js_split c s"
proof (induction p)
  case (Cons x p)
  then show ?case by (cases "js_split c p") auto
qed simp

lemma js_split_join:
  "ps \<noteq> [] \<Longrightarrow> (\<And>p. p \<in> set ps \<Longrightarrow> c \<notin> set p) \<Longrightarrow> js_split c (js_join [c] ps) = ps"
proof (induction ps)
  case (Cons p ps)
  then show ?case
    by (cases ps) (simp_all add: js_split_single js_split_append)
qed simp

lemma js_join_split: "js_join [c] (js_split c s) = s"
proof (induction s)
  case (Cons x xs)
  obtain p ps where "js_split c xs = p # ps"
    by (cases "js_split c xs") auto
  with Cons show ?case
    by (cases ps) auto
qed simp

lemma js_join_append:
  "ps \<noteq> [] \<Longrightarrow> qs \<noteq> [] \<Longrightarrow> js_join s (ps @ qs) = js_join s ps @ s @ js_join s qs"
proof (induction ps)
  case (Cons p ps)
  show ?case
  proof (cases ps)
    case Nil
    with Cons.prems show ?thesis by (cases qs) auto
  next
    case (Cons q rest)
    with Cons.IH Cons.prems show ?thesis by simp
  qed
qed simp

lemma last_index_of_none [simp]: "c \<notin> set s \<Longrightarrow> last_index_of c s = -1"
  by (simp add: last_index_of_def)

lemma last_index_of_append:
  "c \<notin> set n \<Longrightarrow> last_index_of c (p @ c # n) = int (length p)"
  by (simp add: last_index_of_def takeWhile_append takeWhile_eq_all_conv [THEN iffD2])

end
