(* ===== verification/Wasi_Abi.thy ===== *)
theory Wasi_Abi imports Js_Prelude begin

text \<open>
  The constants of \<open>apps/web/src/wasi-module.js\<close> that the guest sees (error numbers, file
  types, open flags, rights) and the pure checks on guest arguments. A guest integer is the
  JavaScript number or \<open>BigInt\<close> the engine passes: an \<open>int\<close>, signed for \<open>i32\<close> and \<open>i64\<close>
  parameters. Bitwise operators on it are those of two's complement, which \<open>AND\<close>, \<open>OR\<close> and
  \<open>NOT\<close> on \<open>int\<close> are too.
\<close>

unbundle bit_operations_syntax

section \<open>Error numbers, descriptors, types and flags\<close>

abbreviation (input) ERRNO_SUCCESS :: int where "ERRNO_SUCCESS \<equiv> 0"
abbreviation (input) ERRNO_ACCESS :: int where "ERRNO_ACCESS \<equiv> 2"
abbreviation (input) ERRNO_AGAIN :: int where "ERRNO_AGAIN \<equiv> 6"
abbreviation (input) ERRNO_BADF :: int where "ERRNO_BADF \<equiv> 8"
abbreviation (input) ERRNO_CHILD :: int where "ERRNO_CHILD \<equiv> 12"
abbreviation (input) ERRNO_EXIST :: int where "ERRNO_EXIST \<equiv> 20"
abbreviation (input) ERRNO_FAULT :: int where "ERRNO_FAULT \<equiv> 21"
abbreviation (input) ERRNO_INVAL :: int where "ERRNO_INVAL \<equiv> 28"
abbreviation (input) ERRNO_ISDIR :: int where "ERRNO_ISDIR \<equiv> 31"
abbreviation (input) ERRNO_NOENT :: int where "ERRNO_NOENT \<equiv> 44"
abbreviation (input) ERRNO_NOTDIR :: int where "ERRNO_NOTDIR \<equiv> 54"
abbreviation (input) ERRNO_NOTEMPTY :: int where "ERRNO_NOTEMPTY \<equiv> 55"
abbreviation (input) ERRNO_NOTSUP :: int where "ERRNO_NOTSUP \<equiv> 58"
abbreviation (input) ERRNO_OVERFLOW :: int where "ERRNO_OVERFLOW \<equiv> 61"
abbreviation (input) ERRNO_PIPE :: int where "ERRNO_PIPE \<equiv> 64"
abbreviation (input) ERRNO_RANGE :: int where "ERRNO_RANGE \<equiv> 68"
abbreviation (input) ERRNO_NOTCAPABLE :: int where "ERRNO_NOTCAPABLE \<equiv> 76"

abbreviation (input) STDIN_FD :: int where "STDIN_FD \<equiv> 0"
abbreviation (input) STDOUT_FD :: int where "STDOUT_FD \<equiv> 1"
abbreviation (input) STDERR_FD :: int where "STDERR_FD \<equiv> 2"
abbreviation (input) WORKSPACE_FD :: int where "WORKSPACE_FD \<equiv> 3"
abbreviation (input) TMP_FD :: int where "TMP_FD \<equiv> 4"
abbreviation (input) FIRST_FILE_FD :: int where "FIRST_FILE_FD \<equiv> 5"

abbreviation (input) FILETYPE_CHARACTER_DEVICE :: int where "FILETYPE_CHARACTER_DEVICE \<equiv> 2"
abbreviation (input) FILETYPE_DIRECTORY :: int where "FILETYPE_DIRECTORY \<equiv> 3"
abbreviation (input) FILETYPE_REGULAR_FILE :: int where "FILETYPE_REGULAR_FILE \<equiv> 4"

abbreviation (input) OFLAGS_CREAT :: int where "OFLAGS_CREAT \<equiv> 1"
abbreviation (input) OFLAGS_DIRECTORY :: int where "OFLAGS_DIRECTORY \<equiv> 2"
abbreviation (input) OFLAGS_EXCL :: int where "OFLAGS_EXCL \<equiv> 4"
abbreviation (input) OFLAGS_TRUNC :: int where "OFLAGS_TRUNC \<equiv> 8"
abbreviation (input) LOOKUP_SYMLINK_FOLLOW :: int where "LOOKUP_SYMLINK_FOLLOW \<equiv> 1"
abbreviation (input) FDFLAGS_APPEND :: int where "FDFLAGS_APPEND \<equiv> 1"
abbreviation (input) FDFLAGSEXT_CLOEXEC :: int where "FDFLAGSEXT_CLOEXEC \<equiv> 1"
abbreviation (input) FDFLAGSEXT_MASK :: int where "FDFLAGSEXT_MASK \<equiv> 1"

abbreviation (input) PIPE_BUFFER_LIMIT :: int where "PIPE_BUFFER_LIMIT \<equiv> 1048576"

definition WORKSPACE_PREOPEN_PATH :: string where "WORKSPACE_PREOPEN_PATH = ''/workspace''"
definition TMP_PREOPEN_PATH :: string where "TMP_PREOPEN_PATH = ''/tmp''"
definition PACKAGE_ROOT_PREOPEN_PATH :: string where "PACKAGE_ROOT_PREOPEN_PATH = ''/''"

section \<open>Rights\<close>

abbreviation (input) RIGHT_FD_DATASYNC :: int where "RIGHT_FD_DATASYNC \<equiv> 1"
abbreviation (input) RIGHT_FD_READ :: int where "RIGHT_FD_READ \<equiv> 2"
abbreviation (input) RIGHT_FD_SEEK :: int where "RIGHT_FD_SEEK \<equiv> 4"
abbreviation (input) RIGHT_FD_FDSTAT_SET_FLAGS :: int where "RIGHT_FD_FDSTAT_SET_FLAGS \<equiv> 8"
abbreviation (input) RIGHT_FD_SYNC :: int where "RIGHT_FD_SYNC \<equiv> 16"
abbreviation (input) RIGHT_FD_TELL :: int where "RIGHT_FD_TELL \<equiv> 32"
abbreviation (input) RIGHT_FD_WRITE :: int where "RIGHT_FD_WRITE \<equiv> 64"
abbreviation (input) RIGHT_FD_ADVISE :: int where "RIGHT_FD_ADVISE \<equiv> 128"
abbreviation (input) RIGHT_FD_ALLOCATE :: int where "RIGHT_FD_ALLOCATE \<equiv> 256"
abbreviation (input) RIGHT_PATH_CREATE_DIRECTORY :: int where "RIGHT_PATH_CREATE_DIRECTORY \<equiv> 512"
abbreviation (input) RIGHT_PATH_CREATE_FILE :: int where "RIGHT_PATH_CREATE_FILE \<equiv> 1024"
abbreviation (input) RIGHT_PATH_OPEN :: int where "RIGHT_PATH_OPEN \<equiv> 8192"
abbreviation (input) RIGHT_FD_READDIR :: int where "RIGHT_FD_READDIR \<equiv> 16384"
abbreviation (input) RIGHT_PATH_RENAME_SOURCE :: int where "RIGHT_PATH_RENAME_SOURCE \<equiv> 65536"
abbreviation (input) RIGHT_PATH_RENAME_TARGET :: int where "RIGHT_PATH_RENAME_TARGET \<equiv> 131072"
abbreviation (input) RIGHT_PATH_FILESTAT_GET :: int where "RIGHT_PATH_FILESTAT_GET \<equiv> 262144"
abbreviation (input) RIGHT_PATH_FILESTAT_SET_SIZE :: int where "RIGHT_PATH_FILESTAT_SET_SIZE \<equiv> 524288"
abbreviation (input) RIGHT_PATH_FILESTAT_SET_TIMES :: int where "RIGHT_PATH_FILESTAT_SET_TIMES \<equiv> 1048576"
abbreviation (input) RIGHT_FD_FILESTAT_GET :: int where "RIGHT_FD_FILESTAT_GET \<equiv> 2097152"
abbreviation (input) RIGHT_FD_FILESTAT_SET_SIZE :: int where "RIGHT_FD_FILESTAT_SET_SIZE \<equiv> 4194304"
abbreviation (input) RIGHT_FD_FILESTAT_SET_TIMES :: int where "RIGHT_FD_FILESTAT_SET_TIMES \<equiv> 8388608"
abbreviation (input) RIGHT_PATH_REMOVE_DIRECTORY :: int where "RIGHT_PATH_REMOVE_DIRECTORY \<equiv> 33554432"
abbreviation (input) RIGHT_PATH_UNLINK_FILE :: int where "RIGHT_PATH_UNLINK_FILE \<equiv> 67108864"

definition STDIN_RIGHTS :: int where
  "STDIN_RIGHTS = RIGHT_FD_READ OR RIGHT_FD_FDSTAT_SET_FLAGS"

definition STDOUT_RIGHTS :: int where
  "STDOUT_RIGHTS = RIGHT_FD_WRITE OR RIGHT_FD_FDSTAT_SET_FLAGS"

definition WORKSPACE_RIGHTS :: int where
  "WORKSPACE_RIGHTS =
     RIGHT_FD_READDIR OR RIGHT_PATH_OPEN OR RIGHT_PATH_FILESTAT_GET OR RIGHT_FD_FILESTAT_GET"

definition TMP_RIGHTS :: int where
  "TMP_RIGHTS =
     RIGHT_FD_READDIR OR RIGHT_PATH_OPEN OR RIGHT_PATH_FILESTAT_GET OR
     RIGHT_PATH_FILESTAT_SET_TIMES OR RIGHT_PATH_CREATE_FILE OR RIGHT_PATH_CREATE_DIRECTORY OR
     RIGHT_PATH_UNLINK_FILE OR RIGHT_PATH_REMOVE_DIRECTORY OR RIGHT_PATH_RENAME_SOURCE OR
     RIGHT_PATH_RENAME_TARGET OR RIGHT_FD_FILESTAT_GET"

definition REGULAR_FILE_RIGHTS :: int where
  "REGULAR_FILE_RIGHTS =
     RIGHT_FD_READ OR RIGHT_FD_SEEK OR RIGHT_FD_FDSTAT_SET_FLAGS OR RIGHT_FD_TELL OR
     RIGHT_FD_ADVISE OR RIGHT_FD_FILESTAT_GET"

definition SCRATCH_FILE_RIGHTS :: int where
  "SCRATCH_FILE_RIGHTS =
     REGULAR_FILE_RIGHTS OR RIGHT_FD_WRITE OR RIGHT_FD_DATASYNC OR RIGHT_FD_SYNC OR
     RIGHT_FD_ALLOCATE OR RIGHT_FD_FILESTAT_SET_SIZE OR RIGHT_FD_FILESTAT_SET_TIMES"

definition WRITABLE_WORKSPACE_RIGHTS :: int where
  "WRITABLE_WORKSPACE_RIGHTS =
     WORKSPACE_RIGHTS OR RIGHT_PATH_FILESTAT_SET_TIMES OR RIGHT_PATH_CREATE_FILE OR
     RIGHT_PATH_CREATE_DIRECTORY OR RIGHT_PATH_UNLINK_FILE OR RIGHT_PATH_REMOVE_DIRECTORY OR
     RIGHT_PATH_RENAME_SOURCE OR RIGHT_PATH_RENAME_TARGET"

definition WRITE_RIGHTS :: int where
  "WRITE_RIGHTS =
     RIGHT_FD_DATASYNC OR RIGHT_FD_SYNC OR RIGHT_FD_WRITE OR RIGHT_FD_ALLOCATE OR
     RIGHT_PATH_CREATE_DIRECTORY OR RIGHT_PATH_CREATE_FILE OR RIGHT_PATH_FILESTAT_SET_SIZE OR
     RIGHT_PATH_FILESTAT_SET_TIMES OR RIGHT_PATH_RENAME_SOURCE OR RIGHT_PATH_RENAME_TARGET OR
     RIGHT_FD_FILESTAT_SET_SIZE OR RIGHT_FD_FILESTAT_SET_TIMES OR
     RIGHT_PATH_REMOVE_DIRECTORY OR RIGHT_PATH_UNLINK_FILE"

definition PIPE_BASE_RIGHTS :: int where
  "PIPE_BASE_RIGHTS = RIGHT_FD_FDSTAT_SET_FLAGS OR RIGHT_FD_FILESTAT_GET"

definition PIPE_READ_RIGHTS :: int where
  "PIPE_READ_RIGHTS = PIPE_BASE_RIGHTS OR RIGHT_FD_READ"

definition PIPE_WRITE_RIGHTS :: int where
  "PIPE_WRITE_RIGHTS = PIPE_BASE_RIGHTS OR RIGHT_FD_WRITE"

lemmas rights_defs =
  STDIN_RIGHTS_def STDOUT_RIGHTS_def WORKSPACE_RIGHTS_def TMP_RIGHTS_def REGULAR_FILE_RIGHTS_def
  SCRATCH_FILE_RIGHTS_def WRITABLE_WORKSPACE_RIGHTS_def WRITE_RIGHTS_def PIPE_BASE_RIGHTS_def
  PIPE_READ_RIGHTS_def PIPE_WRITE_RIGHTS_def

definition allowsRights :: "int \<Rightarrow> int \<Rightarrow> bool" where
  "allowsRights requested allowed \<longleftrightarrow> requested AND NOT allowed = 0"

definition requestsWriteRights :: "int \<Rightarrow> bool" where
  "requestsWriteRights rights \<longleftrightarrow> rights AND WRITE_RIGHTS \<noteq> 0"

definition pathOpenRequiresWorkspace :: "int \<Rightarrow> int \<Rightarrow> int \<Rightarrow> int \<Rightarrow> bool" where
  "pathOpenRequiresWorkspace oflags rightsBase rightsInheriting fdflags \<longleftrightarrow>
     oflags AND (OFLAGS_CREAT OR OFLAGS_EXCL OR OFLAGS_TRUNC) \<noteq> 0 \<or>
     fdflags AND FDFLAGS_APPEND \<noteq> 0 \<or>
     requestsWriteRights rightsBase \<or> requestsWriteRights rightsInheriting"

lemma allowsRights_bits: "allowsRights r a \<longleftrightarrow> (\<forall>n. bit r n \<longrightarrow> bit a n)"
  by (simp add: allowsRights_def bit_eq_iff bit_and_iff bit_not_iff)

lemma allowsRights_refl [simp]: "allowsRights r r"
  by (simp add: allowsRights_bits)

lemma allowsRights_trans: "allowsRights r a \<Longrightarrow> allowsRights a b \<Longrightarrow> allowsRights r b"
  by (auto simp: allowsRights_bits)

lemma allowsRights_and [simp]: "allowsRights (r AND a) a" "allowsRights (a AND r) a"
  by (auto simp: allowsRights_bits bit_and_iff)

lemma allowsRights_zero [simp]: "allowsRights 0 a"
  by (simp add: allowsRights_bits)

lemma allowsRights_mask: "allowsRights r a \<Longrightarrow> a AND m = 0 \<Longrightarrow> r AND m = 0"
  by (auto simp: allowsRights_bits bit_eq_iff bit_and_iff)

section \<open>Checks on guest arguments\<close>

text \<open>
  The code returns \<open>{errno}\<close> or \<open>{size}\<close>, \<open>{value}\<close>, \<open>{offset}\<close> objects: a sum, \<open>Inl\<close> the
  error number. \<open>resolveFileRange\<close> returns \<open>{size: null}\<close> for an empty range and
  \<open>{length, end}\<close> otherwise, so its value is an optional pair.
\<close>

definition checkedMemoryRange :: "int \<Rightarrow> int \<Rightarrow> int \<Rightarrow> int option" where
  "checkedMemoryRange start len memoryLength =
     (if \<bar>start\<bar> > max_safe_integer \<or> \<bar>len\<bar> > max_safe_integer then None
      else let e = start + len in
        if start < 0 \<or> len < 0 \<or> e > memoryLength then None else Some e)"

definition isSupportedClock :: "int \<Rightarrow> bool" where
  "isSupportedClock clockId \<longleftrightarrow> clockId = 0 \<or> clockId = 1"

definition isSupportedAdvice :: "int \<Rightarrow> bool" where
  "isSupportedAdvice advice \<longleftrightarrow> 0 \<le> advice \<and> advice \<le> 5"

definition isSupportedFilestatSetTimesFlags :: "int \<Rightarrow> bool" where
  "isSupportedFilestatSetTimesFlags flags \<longleftrightarrow>
     (if flags AND NOT 15 \<noteq> 0 then False
      else if flags AND 1 \<noteq> 0 \<and> flags AND 2 \<noteq> 0 then False
      else \<not> (flags AND 4 \<noteq> 0 \<and> flags AND 8 \<noteq> 0))"

definition isDynamicFileFdNumber :: "int \<Rightarrow> bool" where
  "isDynamicFileFdNumber fd \<longleftrightarrow> fd \<ge> FIRST_FILE_FD"

definition isStdioFd :: "int \<Rightarrow> bool" where
  "isStdioFd fd \<longleftrightarrow> fd = STDIN_FD \<or> fd = STDOUT_FD \<or> fd = STDERR_FD"

definition stdioRights :: "int \<Rightarrow> int option" where
  "stdioRights fd =
     (if fd = STDIN_FD then Some STDIN_RIGHTS
      else if fd = STDOUT_FD \<or> fd = STDERR_FD then Some STDOUT_RIGHTS
      else None)"

definition preopenPathOf :: "int \<Rightarrow> string option" where
  "preopenPathOf fd =
     (if fd = WORKSPACE_FD then Some WORKSPACE_PREOPEN_PATH
      else if fd = TMP_FD then Some TMP_PREOPEN_PATH
      else None)"

definition resolveFileSize :: "int \<Rightarrow> int + int" where
  "resolveFileSize sz =
     (if sz < 0 then Inl ERRNO_INVAL
      else if sz > max_safe_integer then Inl ERRNO_OVERFLOW
      else Inr sz)"

definition resolveFileRange :: "int \<Rightarrow> int \<Rightarrow> int + (int \<times> int) option" where
  "resolveFileRange offset len =
     (if offset < 0 \<or> len < 0 then Inl ERRNO_INVAL
      else if offset > max_safe_integer \<or> len > max_safe_integer then Inl ERRNO_OVERFLOW
      else if len = 0 then Inr None
      else if offset + len > max_safe_integer then Inl ERRNO_OVERFLOW
      else Inr (Some (len, offset + len)))"

text \<open>
  For an empty range \<open>range.length\<close> is \<open>undefined\<close>, which is not \<open>0\<close>, so the code goes on to
  \<open>Number(range.end)\<close>, which is \<open>NaN\<close>. The caller's test \<open>allocation.size > byteLength\<close> is false
  for \<open>NaN\<close> as it would be skipped for \<open>null\<close>, so \<open>None\<close> stands for that \<open>NaN\<close>.
\<close>

definition resolveFileAllocation :: "int \<Rightarrow> int \<Rightarrow> int + int option" where
  "resolveFileAllocation offset len =
     (case resolveFileRange offset len of
        Inl e \<Rightarrow> Inl e
      | Inr None \<Rightarrow> Inr None
      | Inr (Some (l, e)) \<Rightarrow> Inr (if l = 0 then None else Some e))"

definition readdirStartIndex :: "int \<Rightarrow> int option" where
  "readdirStartIndex cookie =
     (if cookie < 0 \<or> cookie > max_safe_integer then None else Some cookie)"

definition boolByte :: "bool \<Rightarrow> int" where
  "boolByte b = (if b then 1 else 0)"

lemma checkedMemoryRange_Some:
  "checkedMemoryRange st len n = Some e \<Longrightarrow> 0 \<le> st \<and> 0 \<le> len \<and> e = st + len \<and> e \<le> n"
  by (auto simp: checkedMemoryRange_def Let_def split: if_splits)

lemma checkedMemoryRange_iff:
  "n \<le> max_safe_integer \<Longrightarrow>
   checkedMemoryRange st len n \<noteq> None \<longleftrightarrow> 0 \<le> st \<and> 0 \<le> len \<and> st + len \<le> n"
  by (auto simp: checkedMemoryRange_def Let_def)

lemma resolveFileSize_Inr: "resolveFileSize z = Inr n \<longleftrightarrow> n = z \<and> 0 \<le> z \<and> z \<le> max_safe_integer"
  by (auto simp: resolveFileSize_def)

lemma resolveFileRange_Inr:
  "resolveFileRange off len = Inr r \<Longrightarrow>
   0 \<le> off \<and> 0 \<le> len \<and> off + len \<le> max_safe_integer \<and>
   r = (if len = 0 then None else Some (len, off + len))"
  by (auto simp: resolveFileRange_def split: if_splits)

lemma resolveFileAllocation_Inr:
  "resolveFileAllocation off len = Inr (Some n) \<Longrightarrow>
   0 \<le> off \<and> 0 < len \<and> n = off + len \<and> n \<le> max_safe_integer"
  by (auto simp: resolveFileAllocation_def dest!: resolveFileRange_Inr
      split: sum.splits option.splits if_splits)

end
