(* ===== verification/Wasi_Path.thy ===== *)
theory Wasi_Path imports Wasi_Abi begin

text \<open>
  Path strings: the functions of \<open>apps/web/src/wasi-module.js\<close> that turn a guest path into a
  path relative to a mount (\<open>normalizeWasiPath\<close> to \<open>rootVirtualMountPath\<close>) or into the runtime's
  working directory (\<open>resolveWasiVirtualPath\<close>). The lemmas: whatever they return is canonical
  (proper segments only, no \<open>.\<close>, no \<open>..\<close>, no NUL, no leading slash), so no guest path leaves
  its mount; and a string prefix test on canonical paths is the prefix order on segments.
\<close>

section \<open>Canonical paths\<close>

definition seg_ok :: "string \<Rightarrow> bool" where
  "seg_ok p \<longleftrightarrow> p \<noteq> [] \<and> p \<noteq> ''.'' \<and> p \<noteq> ''..'' \<and> CHR ''/'' \<notin> set p \<and> CHR 0x00 \<notin> set p"

definition segs :: "string \<Rightarrow> string list" where
  "segs path = (if path = [] then [] else js_split (CHR ''/'') path)"

definition unsegs :: "string list \<Rightarrow> string" where
  "unsegs ps = js_join ''/'' ps"

definition canonical :: "string \<Rightarrow> bool" where
  "canonical path \<longleftrightarrow> list_all seg_ok (segs path)"

definition canonical_abs :: "string \<Rightarrow> bool" where
  "canonical_abs path \<longleftrightarrow> (\<exists>p. path = CHR ''/'' # p \<and> canonical p)"

lemma unsegs_simps [simp]:
  "unsegs [] = []" "unsegs [p] = p" "unsegs (p # q # ps) = p @ ''/'' @ unsegs (q # ps)"
  by (simp_all add: unsegs_def)

lemma unsegs_append: "ps \<noteq> [] \<Longrightarrow> qs \<noteq> [] \<Longrightarrow> unsegs (ps @ qs) = unsegs ps @ ''/'' @ unsegs qs"
  by (simp add: unsegs_def js_join_append)

lemma unsegs_segs [simp]: "unsegs (segs path) = path"
  by (simp add: segs_def unsegs_def js_join_split)

lemma unsegs_nonempty: "list_all seg_ok ps \<Longrightarrow> ps \<noteq> [] \<Longrightarrow> unsegs ps \<noteq> []"
  by (cases ps rule: remdups_adj.cases) (auto simp: seg_ok_def)

lemma segs_unsegs [simp]: "list_all seg_ok ps \<Longrightarrow> segs (unsegs ps) = ps"
proof (cases "ps = []")
  case False
  moreover assume "list_all seg_ok ps"
  ultimately show ?thesis
    using unsegs_nonempty [of ps] js_split_join [of ps "CHR ''/''"]
    by (auto simp: segs_def unsegs_def seg_ok_def list_all_iff)
qed (simp add: segs_def)

lemma canonical_unsegs [simp, path_intros]: "list_all seg_ok ps \<Longrightarrow> canonical (unsegs ps)"
  by (simp add: canonical_def)

lemma canonical_Nil [simp, path_intros]: "canonical []"
  by (simp add: canonical_def segs_def)

lemma canonical_cases:
  assumes "canonical path"
  obtains ps where "list_all seg_ok ps" "path = unsegs ps"
  using assms by (metis canonical_def unsegs_segs)

lemma segs_Nil [simp]: "segs [] = []"
  by (simp add: segs_def)

lemma segs_eq_Nil [simp]: "segs p = [] \<longleftrightarrow> p = []"
  by (simp add: segs_def)

lemma canonical_inj: "segs p = segs q \<longleftrightarrow> p = q"
  by (metis unsegs_segs)

lemma canonical_hd: "canonical p \<Longrightarrow> p = c # q \<Longrightarrow> c \<noteq> CHR ''/''"
  by (auto simp: canonical_def segs_def seg_ok_def)

lemma canonical_no_nul: "canonical p \<Longrightarrow> CHR 0x00 \<notin> set p"
proof -
  have *: "list_all seg_ok ps \<Longrightarrow> CHR 0x00 \<notin> set (unsegs ps)" for ps
    by (induction ps rule: induct_list012) (auto simp: seg_ok_def)
  assume "canonical p"
  then show ?thesis by (auto elim: canonical_cases dest: *)
qed

section \<open>Joining, prefixes and parents of canonical paths\<close>

definition path_join :: "string \<Rightarrow> string \<Rightarrow> string" where
  "path_join base n = (if base \<noteq> [] then base @ ''/'' @ n else n)"

lemma segs_append:
  "list_all seg_ok ps \<Longrightarrow> list_all seg_ok qs \<Longrightarrow> segs (unsegs (ps @ qs)) = ps @ qs"
  by simp

lemma path_join_segs:
  "canonical b \<Longrightarrow> canonical n \<Longrightarrow> n \<noteq> [] \<Longrightarrow> path_join b n = unsegs (segs b @ segs n)"
  by (cases "b = []") (simp_all add: path_join_def unsegs_append)

lemma canonical_path_join [path_intros]:
  "canonical b \<Longrightarrow> canonical n \<Longrightarrow> n \<noteq> [] \<Longrightarrow> canonical (path_join b n)"
  by (simp add: path_join_segs) (simp add: canonical_def)

lemma segs_path_join:
  "canonical b \<Longrightarrow> canonical n \<Longrightarrow> n \<noteq> [] \<Longrightarrow> segs (path_join b n) = segs b @ segs n"
  by (simp add: path_join_segs) (simp add: canonical_def)

lemma append_eq_at_slash:
  "CHR ''/'' \<notin> set a \<Longrightarrow> CHR ''/'' \<notin> set b \<Longrightarrow>
   a @ CHR ''/'' # xs = b @ CHR ''/'' # ys \<longleftrightarrow> a = b \<and> xs = ys"
proof (induction a arbitrary: b)
  case Nil
  then show ?case by (cases b) auto
next
  case (Cons x a)
  then show ?case by (cases b) auto
qed

lemma prefix_at_slash:
  assumes "CHR ''/'' \<notin> set a" "CHR ''/'' \<notin> set b"
  shows "prefix (a @ CHR ''/'' # xs) (b @ CHR ''/'' # ys) \<longleftrightarrow> a = b \<and> prefix xs ys"
proof
  assume "prefix (a @ CHR ''/'' # xs) (b @ CHR ''/'' # ys)"
  then obtain zs where "b @ CHR ''/'' # ys = a @ CHR ''/'' # (xs @ zs)"
    by (auto simp: prefix_def)
  then show "a = b \<and> prefix xs ys"
    using append_eq_at_slash [OF assms(2,1)] by auto
qed (use append_eq_at_slash [OF assms] in \<open>auto simp: prefix_def\<close>)

lemma prefix_slash_unsegs:
  "list_all seg_ok ps \<Longrightarrow> list_all seg_ok qs \<Longrightarrow> ps \<noteq> [] \<Longrightarrow>
   prefix (unsegs ps @ ''/'') (unsegs qs) \<longleftrightarrow> strict_prefix ps qs"
proof (induction ps arbitrary: qs)
  case (Cons p ps)
  note ok = Cons.prems
  show ?case
  proof (cases qs)
    case Nil
    then show ?thesis by simp
  next
    case (Cons q qs')
    have nq: "CHR ''/'' \<notin> set q" and np: "CHR ''/'' \<notin> set p"
      using ok Cons by (auto simp: seg_ok_def)
    show ?thesis
    proof (cases qs')
      case Nil
      have "\<not> prefix (unsegs (p # ps) @ ''/'') q"
        using nq by (auto simp: prefix_def)
      then show ?thesis using Nil \<open>qs = q # qs'\<close> by (auto simp: strict_prefix_def prefix_Cons)
    next
      case (Cons r rs)
      have qs: "unsegs qs = q @ CHR ''/'' # unsegs (r # rs)"
        using \<open>qs = q # qs'\<close> Cons by simp
      show ?thesis
      proof (cases ps)
        case Nil
        have "prefix (p @ ''/'') (q @ CHR ''/'' # unsegs (r # rs)) \<longleftrightarrow> p = q"
          using prefix_at_slash [OF np nq, of "[]"] by simp
        then show ?thesis
          using Nil qs \<open>qs = q # qs'\<close> Cons by (auto simp: strict_prefix_def)
      next
        case (Cons p' ps')
        have "prefix (unsegs (p # ps) @ ''/'') (unsegs qs) \<longleftrightarrow>
              p = q \<and> prefix (unsegs ps @ ''/'') (unsegs (r # rs))"
          using prefix_at_slash [OF np nq, of "unsegs ps @ ''/''"] qs Cons by simp
        also have "\<dots> \<longleftrightarrow> p = q \<and> strict_prefix ps (r # rs)"
          using Cons.IH [of "r # rs"] ok \<open>qs = q # qs'\<close> \<open>qs' = r # rs\<close> Cons by auto
        finally show ?thesis
          using \<open>qs = q # qs'\<close> \<open>qs' = r # rs\<close> by (auto simp: strict_prefix_def)
      qed
    qed
  qed
qed simp

lemma prefix_slash_iff:
  "canonical p \<Longrightarrow> canonical q \<Longrightarrow> p \<noteq> [] \<Longrightarrow>
   prefix (p @ ''/'') q \<longleftrightarrow> strict_prefix (segs p) (segs q)"
  using prefix_slash_unsegs [of "segs p" "segs q"] by (simp add: canonical_def)

lemma parent_of_snoc:
  "list_all seg_ok (ps @ [p]) \<Longrightarrow>
   last_index_of (CHR ''/'') (unsegs (ps @ [p])) =
     (if ps = [] then -1 else int (length (unsegs ps)))"
  by (auto simp: unsegs_append last_index_of_append seg_ok_def)

lemma canonical_snoc_cases:
  assumes "canonical path" "path \<noteq> []"
  obtains ps p where "list_all seg_ok (ps @ [p])" "path = unsegs (ps @ [p])"
  using assms by (metis canonical_def rev_exhaust segs_eq_Nil unsegs_segs)

section \<open>Guest paths relative to a directory\<close>

fun relative_segments :: "string list \<Rightarrow> string list option" where
  "relative_segments [] = Some []"
| "relative_segments (s # ss) =
     (if s = [] \<or> s = ''.'' then relative_segments ss
      else if s = ''..'' then None
      else map_option ((#) s) (relative_segments ss))"

definition normalizeRelativeWasiPath :: "string \<Rightarrow> string option" where
  "normalizeRelativeWasiPath path =
     (if path = [] \<or> CHR 0x00 \<in> set path then None
      else case relative_segments (js_split (CHR ''/'') path) of
        None \<Rightarrow> None
      | Some ss \<Rightarrow> if ss \<noteq> [] then Some (js_join ''/'' ss) else None)"

definition normalizeWasiPath :: "string \<Rightarrow> string option" where
  "normalizeWasiPath path =
     (if path = ''.'' then Some []
      else if prefix ''/'' path then None
      else normalizeRelativeWasiPath path)"

definition normalizeWasiLookupPath :: "string \<Rightarrow> string option" where
  "normalizeWasiLookupPath path = (if path = ''.'' then Some [] else normalizeWasiPath path)"

definition resolveScratchPath :: "string \<Rightarrow> string \<Rightarrow> bool \<Rightarrow> int + string" where
  "resolveScratchPath basePath pathValue lookup =
     (case (if lookup then normalizeWasiLookupPath else normalizeWasiPath) pathValue of
        None \<Rightarrow> Inl ERRNO_NOTCAPABLE
      | Some normalized \<Rightarrow>
          if normalized = [] then Inr basePath
          else Inr (if basePath \<noteq> [] then basePath @ ''/'' @ normalized else normalized))"

definition mountedRelativePath :: "string \<Rightarrow> string \<Rightarrow> string option" where
  "mountedRelativePath path mountPath =
     (if path = mountPath \<or> path = mountPath @ ''%'' then Some []
      else if prefix (mountPath @ ''/'') path then Some (drop (length mountPath + 1) path)
      else if prefix (mountPath @ ''%/'') path then Some (drop (length mountPath + 2) path)
      else None)"

definition resolveMountedPath :: "string \<Rightarrow> string \<Rightarrow> string \<Rightarrow> bool \<Rightarrow> bool \<Rightarrow> int + string" where
  "resolveMountedPath basePath pathValue mountPath allowAbsolute lookup =
     (case (if allowAbsolute then mountedRelativePath pathValue mountPath else None) of
        Some rel \<Rightarrow> resolveScratchPath [] (if rel = [] then ''.'' else rel) lookup
      | None \<Rightarrow>
          if prefix ''/'' pathValue then Inl ERRNO_NOTCAPABLE
          else resolveScratchPath basePath pathValue lookup)"

definition strip_slashes :: "string \<Rightarrow> string" where
  "strip_slashes path = dropWhile (\<lambda>c. c = CHR ''/'') path"

definition resolvePackageRootPath :: "string \<Rightarrow> string \<Rightarrow> int + string" where
  "resolvePackageRootPath basePath pathValue =
     resolveScratchPath basePath
       (if basePath = [] \<and> prefix ''/'' pathValue then strip_slashes pathValue else pathValue) True"

datatype mount = Workspace | Scratch | PackageRoot

definition rootVirtualMountPath :: "string \<Rightarrow> string \<Rightarrow> (int + mount \<times> string) option" where
  "rootVirtualMountPath basePath pathValue =
     (if basePath \<noteq> [] then None
      else
        let path = (if prefix ''/'' pathValue then strip_slashes pathValue else pathValue) in
        case normalizeWasiLookupPath path of
          None \<Rightarrow> Some (Inl ERRNO_NOTCAPABLE)
        | Some normalized \<Rightarrow>
            (case mountedRelativePath normalized ''workspace'' of
               Some workspacePath \<Rightarrow> Some (Inr (Workspace, workspacePath))
             | None \<Rightarrow>
                 (case mountedRelativePath normalized ''tmp'' of
                    Some scratchPath \<Rightarrow> Some (Inr (Scratch, scratchPath))
                  | None \<Rightarrow> None)))"

definition normalizePackageFilePath :: "string \<Rightarrow> string option" where
  "normalizePackageFilePath path =
     (if path = WORKSPACE_PREOPEN_PATH then None
      else
        let path' = (if prefix (WORKSPACE_PREOPEN_PATH @ ''/'') path
                     then drop (length WORKSPACE_PREOPEN_PATH + 1) path else path) in
        if prefix ''/'' path' then None else normalizeRelativeWasiPath path')"

section \<open>The working directory\<close>

definition absolutePathSegments :: "string \<Rightarrow> string list" where
  "absolutePathSegments path =
     filter (\<lambda>s. s \<noteq> [])
       (js_split (CHR ''/'') (if prefix ''/'' path then path else WORKSPACE_PREOPEN_PATH))"

fun virtual_segments :: "string list \<Rightarrow> string list \<Rightarrow> int + string list" where
  "virtual_segments segments [] = Inr segments"
| "virtual_segments segments (s # ss) =
     (if s = [] \<or> s = ''.'' then virtual_segments segments ss
      else if s = ''..'' then
        (if segments = [] then Inl ERRNO_NOTCAPABLE
         else virtual_segments (butlast segments) ss)
      else virtual_segments (segments @ [s]) ss)"

definition resolveWasiVirtualPath :: "string \<Rightarrow> string \<Rightarrow> int + string" where
  "resolveWasiVirtualPath cwd path =
     (if CHR 0x00 \<in> set path then Inl ERRNO_INVAL
      else if path = [] then Inl ERRNO_NOENT
      else
        (case virtual_segments
                (if prefix ''/'' path then []
                 else absolutePathSegments (if cwd \<noteq> [] then cwd else WORKSPACE_PREOPEN_PATH))
                (js_split (CHR ''/'') path) of
           Inl e \<Rightarrow> Inl e
         | Inr ss \<Rightarrow>
             Inr (if ss = [] then PACKAGE_ROOT_PREOPEN_PATH
                  else PACKAGE_ROOT_PREOPEN_PATH @ js_join ''/'' ss)))"

definition normalizeRuntimeCwd :: "string option \<Rightarrow> string" where
  "normalizeRuntimeCwd v =
     (case resolveWasiVirtualPath WORKSPACE_PREOPEN_PATH
             (case v of None \<Rightarrow> WORKSPACE_PREOPEN_PATH | Some p \<Rightarrow> p) of
        Inl e \<Rightarrow> WORKSPACE_PREOPEN_PATH
      | Inr p \<Rightarrow> p)"

section \<open>What the path functions return is canonical\<close>

lemma relative_segments_ok:
  "relative_segments ss = Some rs \<Longrightarrow>
   (\<And>x. x \<in> set ss \<Longrightarrow> CHR ''/'' \<notin> set x \<and> CHR 0x00 \<notin> set x) \<Longrightarrow> list_all seg_ok rs"
  by (induction ss arbitrary: rs) (auto simp: seg_ok_def split: if_splits)

lemma relative_segments_id: "list_all seg_ok ss \<Longrightarrow> relative_segments ss = Some ss"
  by (induction ss) (auto simp: seg_ok_def)

lemma normalizeRelativeWasiPath_ok:
  assumes "normalizeRelativeWasiPath path = Some q"
  shows "canonical q" "q \<noteq> []"
proof -
  from assms obtain ss where nul: "CHR 0x00 \<notin> set path"
    and rs: "relative_segments (js_split (CHR ''/'') path) = Some ss"
    and ne: "ss \<noteq> []" and q: "q = unsegs ss"
    by (auto simp: normalizeRelativeWasiPath_def unsegs_def split: if_splits option.splits)
  have "list_all seg_ok ss"
    by (rule relative_segments_ok [OF rs]) (use nul js_split_no_sep js_split_chars in blast)
  with ne q show "canonical q" "q \<noteq> []"
    by (auto dest: unsegs_nonempty)
qed

lemma normalizeRelativeWasiPath_id:
  "canonical q \<Longrightarrow> q \<noteq> [] \<Longrightarrow> normalizeRelativeWasiPath q = Some q"
  by (auto simp: normalizeRelativeWasiPath_def canonical_no_nul canonical_def segs_def
      relative_segments_id js_join_split)

lemma normalizeWasiPath_ok: "normalizeWasiPath path = Some q \<Longrightarrow> canonical q"
  by (auto simp: normalizeWasiPath_def dest: normalizeRelativeWasiPath_ok split: if_splits)

lemma normalizeWasiLookupPath_eq [simp]: "normalizeWasiLookupPath = normalizeWasiPath"
  by (auto simp: normalizeWasiLookupPath_def normalizeWasiPath_def)

lemma resolveScratchPath_Inr:
  "resolveScratchPath b p lk = Inr v \<Longrightarrow>
   \<exists>n. canonical n \<and> v = (if n = [] then b else path_join b n)"
  by (fastforce simp: resolveScratchPath_def path_join_def split: option.splits if_splits
      dest: normalizeWasiPath_ok)

lemma resolveScratchPath_ok:
  assumes "resolveScratchPath b p lk = Inr v" and b: "canonical b"
  shows "canonical v" "prefix (segs b) (segs v)"
  using resolveScratchPath_Inr [OF assms(1)] b
  by (auto simp: segs_path_join canonical_path_join)

lemma canonical_slash_suffix:
  "canonical (p @ ''/'' @ q) \<Longrightarrow> CHR ''/'' \<notin> set p \<Longrightarrow> canonical q"
  by (cases "q = []") (auto simp: canonical_def segs_def js_split_append split: if_splits)

lemma mountedRelativePath_Some:
  assumes "mountedRelativePath p m = Some v"
  shows "v = [] \<or> p = m @ ''/'' @ v \<or> p = m @ ''%/'' @ v"
proof -
  have 1: "prefix (m @ ''/'') p \<Longrightarrow> p = m @ ''/'' @ drop (length m + 1) p"
    by (auto simp: prefix_def)
  have 2: "prefix (m @ ''%/'') p \<Longrightarrow> p = m @ ''%/'' @ drop (length m + 2) p"
    by (auto simp: prefix_def)
  from assms 1 2 show ?thesis
    by (auto simp only: mountedRelativePath_def split: if_splits)
qed

lemma mountedRelativePath_canonical:
  assumes "mountedRelativePath p m = Some v" "canonical p" "CHR ''/'' \<notin> set m"
  shows "canonical v"
  using mountedRelativePath_Some [OF assms(1)] assms(2,3)
    canonical_slash_suffix [of m v] canonical_slash_suffix [of "m @ ''%''" v]
  by auto

lemma rootVirtualMountPath_ok:
  assumes "rootVirtualMountPath b p = Some (Inr (m, v))"
  shows "canonical v" "b = []" "m = Workspace \<or> m = Scratch"
  using assms
  by (auto simp: rootVirtualMountPath_def Let_def split: if_splits option.splits
      dest!: normalizeWasiPath_ok intro: mountedRelativePath_canonical)

lemma resolvePackageRootPath_ok:
  assumes "resolvePackageRootPath b p = Inr v" "canonical b"
  shows "canonical v" "prefix (segs b) (segs v)"
  using assms resolveScratchPath_ok by (auto simp: resolvePackageRootPath_def)

lemma resolveMountedPath_canonical:
  "resolveMountedPath b guest mnt absolute lk = Inr v \<Longrightarrow> canonical b \<Longrightarrow> canonical v"
  by (auto simp: resolveMountedPath_def split: option.splits if_splits dest: resolveScratchPath_ok)

text \<open>
  C2: confinement of mounted paths. A guest path that \<open>resolveMountedPath\<close> accepts becomes a
  canonical path at or below the directory descriptor it is relative to, unless absolute paths
  are allowed and it starts with the mount point (or \<open>mount%\<close>); then it is canonical all the same.
\<close>

theorem resolveMountedPath_confined:
  assumes "resolveMountedPath base guest mnt allowAbsolute lookup = Inr v"
    and "canonical base"
  shows "canonical v \<and>
    (prefix (segs base) (segs v) \<or> allowAbsolute \<and> mountedRelativePath guest mnt \<noteq> None)"
  using assms
  by (auto simp: resolveMountedPath_def split: option.splits if_splits
      dest: resolveScratchPath_ok)

theorem resolveMountedPath_confined_witness:
  "canonical ''src/lib/a.c'' \<and>
   (prefix (segs ''src'') (segs ''src/lib/a.c'') \<or>
    False \<and> mountedRelativePath ''./lib//a.c'' ''/tmp'' \<noteq> None)"
proof (rule resolveMountedPath_confined [where lookup = True])
  show "resolveMountedPath ''src'' ''./lib//a.c'' ''/tmp'' False True = Inr ''src/lib/a.c''"
    by (simp add: resolveMountedPath_def resolveScratchPath_def normalizeWasiPath_def
        normalizeRelativeWasiPath_def)
  show "canonical ''src''"
    by (simp add: canonical_def segs_def seg_ok_def)
qed

lemma relative_segments_dotdot: "''..'' \<in> set ss \<Longrightarrow> relative_segments ss = None"
  by (induction ss) auto

lemma resolveScratchPath_dotdot:
  "''..'' \<in> set (js_split (CHR ''/'') p) \<Longrightarrow> resolveScratchPath b p lk = Inl ERRNO_NOTCAPABLE"
  by (auto simp: resolveScratchPath_def normalizeWasiPath_def normalizeRelativeWasiPath_def
      relative_segments_dotdot split: option.splits)

text \<open>
  No traversal. A guest path with a \<open>..\<close> segment anywhere is refused with \<open>ENOTCAPABLE\<close>
  by both mounts, for every base directory and option.
\<close>

theorem resolveMountedPath_dotdot:
  assumes "''..'' \<in> set (js_split (CHR ''/'') guest)"
    and "mnt = WORKSPACE_PREOPEN_PATH \<or> mnt = TMP_PREOPEN_PATH"
  shows "resolveMountedPath base guest mnt allowAbsolute lookup = Inl ERRNO_NOTCAPABLE"
proof -
  have rel: "''..'' \<in> set (js_split (CHR ''/'') v) \<and> v \<noteq> []"
    if v: "mountedRelativePath guest mnt = Some v" for v
  proof -
    have "v = [] \<longrightarrow> guest = mnt \<or> guest = mnt @ ''%'' \<or> guest = mnt @ ''/'' \<or> guest = mnt @ ''%/''"
      using v by (auto simp: mountedRelativePath_def prefix_def split: if_splits)
    with mountedRelativePath_Some [OF v] assms show ?thesis
      by (auto simp: WORKSPACE_PREOPEN_PATH_def TMP_PREOPEN_PATH_def split: list.splits)
  qed
  then show ?thesis
    using assms(1)
    by (auto simp: resolveMountedPath_def resolveScratchPath_dotdot split: option.splits)
qed

theorem resolveMountedPath_dotdot_witness:
  "resolveMountedPath ''src'' ''/workspace/a/../../etc'' WORKSPACE_PREOPEN_PATH True False
     = Inl ERRNO_NOTCAPABLE"
  by (rule resolveMountedPath_dotdot) simp_all

section \<open>The working directory stays canonical\<close>

lemma virtual_segments_ok:
  "virtual_segments acc ss = Inr r \<Longrightarrow> list_all seg_ok acc \<Longrightarrow>
   (\<And>x. x \<in> set ss \<Longrightarrow> CHR ''/'' \<notin> set x \<and> CHR 0x00 \<notin> set x) \<Longrightarrow> list_all seg_ok r"
proof (induction acc ss rule: virtual_segments.induct)
  case (2 acc s ss)
  have "list_all seg_ok (butlast acc)"
    using "2.prems"(2) by (auto simp: list_all_iff dest: in_set_butlastD)
  moreover have "s \<noteq> [] \<Longrightarrow> s \<noteq> ''.'' \<Longrightarrow> s \<noteq> ''..'' \<Longrightarrow> seg_ok s"
    using "2.prems"(3) [of s] by (simp add: seg_ok_def)
  ultimately show ?case
    using "2.IH" "2.prems" by (simp split: if_splits)
qed simp

lemma virtual_segments_append:
  "list_all seg_ok ss \<Longrightarrow> virtual_segments acc (ss @ rest) = virtual_segments (acc @ ss) rest"
  by (induction ss arbitrary: acc) (auto simp: seg_ok_def)

lemma absolutePathSegments_canonical:
  assumes "canonical q"
  shows "absolutePathSegments (CHR ''/'' # q) = segs q"
proof (cases "q = []")
  case True
  then show ?thesis by (simp add: absolutePathSegments_def)
next
  case False
  with assms have "\<forall>x\<in>set (js_split (CHR ''/'') q). x \<noteq> []"
    by (auto simp: canonical_def segs_def list_all_iff seg_ok_def)
  with False show ?thesis
    by (simp add: absolutePathSegments_def segs_def)
qed

lemma canonical_abs_code [code]:
  "canonical_abs path \<longleftrightarrow> (case path of [] \<Rightarrow> False | c # p \<Rightarrow> c = CHR ''/'' \<and> canonical p)"
  by (auto simp: canonical_abs_def split: list.split)

lemma canonical_abs_root [simp]: "canonical_abs ''/''"
  by (simp add: canonical_abs_def)

lemma absolutePathSegments_ok:
  "canonical_abs cwd \<Longrightarrow> list_all seg_ok (absolutePathSegments cwd)"
  by (auto simp: canonical_abs_def absolutePathSegments_canonical) (simp add: canonical_def)

lemma virtual_path_canonical:
  assumes "resolveWasiVirtualPath cwd guest = Inr w"
    and "canonical_abs cwd \<or> prefix ''/'' guest"
  shows "canonical_abs w"
proof -
  let ?start = "if prefix ''/'' guest then []
    else absolutePathSegments (if cwd \<noteq> [] then cwd else WORKSPACE_PREOPEN_PATH)"
  from assms(1) obtain ss where nul: "CHR 0x00 \<notin> set guest"
    and vs: "virtual_segments ?start (js_split (CHR ''/'') guest) = Inr ss"
    and w: "w = CHR ''/'' # unsegs ss"
    by (auto simp: resolveWasiVirtualPath_def PACKAGE_ROOT_PREOPEN_PATH_def unsegs_def
        split: if_splits sum.splits)
  have start: "list_all seg_ok ?start"
    using assms(2) by (auto simp: absolutePathSegments_ok canonical_abs_def)
  have "list_all seg_ok ss"
    by (rule virtual_segments_ok [OF vs start]) (use nul js_split_no_sep js_split_chars in blast)
  with w show ?thesis by (auto simp: canonical_abs_def)
qed

text \<open>
  C28: the working directory is canonical. From a canonical absolute directory (or for an
  absolute guest path, from anywhere) every path \<open>resolveWasiVirtualPath\<close> accepts is again a
  canonical absolute path.
\<close>

theorem resolveWasiVirtualPath_canonical:
  assumes "resolveWasiVirtualPath cwd guest = Inr w"
    and "canonical_abs cwd \<or> prefix ''/'' guest"
  shows "canonical_abs w"
  using assms by (rule virtual_path_canonical)

theorem resolveWasiVirtualPath_canonical_witness: "canonical_abs ''/workspace/b''"
proof (rule resolveWasiVirtualPath_canonical)
  show "resolveWasiVirtualPath ''/workspace/a'' ''.././b'' = Inr ''/workspace/b''"
    by (simp add: resolveWasiVirtualPath_def absolutePathSegments_def
        PACKAGE_ROOT_PREOPEN_PATH_def)
  show "canonical_abs ''/workspace/a'' \<or> prefix ''/'' ''.././b''"
    by (simp add: canonical_abs_def canonical_def segs_def seg_ok_def)
qed

text \<open>
  Relative \<open>chdir\<close> is absolute \<open>chdir\<close>. Resolving a relative guest path in a canonical
  working directory is resolving the two joined by a slash, with the same errors.
\<close>

theorem resolveWasiVirtualPath_relative:
  assumes "canonical_abs cwd" "guest \<noteq> []" "\<not> prefix ''/'' guest"
  shows "resolveWasiVirtualPath cwd guest = resolveWasiVirtualPath any (cwd @ ''/'' @ guest)"
proof -
  from assms(1) obtain q where cwd: "cwd = CHR ''/'' # q" and q: "canonical q"
    by (auto simp: canonical_abs_def)
  have "virtual_segments [] (js_split (CHR ''/'') (cwd @ ''/'' @ guest)) =
        virtual_segments (segs q) (js_split (CHR ''/'') guest)"
    using virtual_segments_append [of "segs q" "[]"] q
    by (cases "q = []") (simp_all add: cwd js_split_append2 canonical_def segs_def)
  then show ?thesis
    using assms q canonical_no_nul [OF q]
    by (simp add: resolveWasiVirtualPath_def cwd absolutePathSegments_canonical)
qed

theorem resolveWasiVirtualPath_relative_witness:
  "resolveWasiVirtualPath ''/tmp'' ''..'' = resolveWasiVirtualPath [] (''/tmp'' @ ''/'' @ ''..'')"
  by (rule resolveWasiVirtualPath_relative)
    (simp_all add: canonical_abs_def canonical_def segs_def seg_ok_def)

end
