(* ===== verification/Utf8.thy ===== *)
theory Utf8 imports Js_Prelude begin

text \<open>
  \<open>decodeText\<close> and \<open>encodeText\<close> of \<open>apps/web/src/wasi-module.js\<close>, which are \<open>TextDecoder\<close> and
  \<open>TextEncoder\<close>: the UTF-8 decoder of the WHATWG Encoding Standard as a state machine (a
  malformed sequence becomes U+FFFD, the byte that breaks it is looked at again, a leading byte
  order mark is dropped). A decoded string is kept as the UTF-8 bytes of its text. Proved: text
  that is the encoding of Unicode scalar values decodes to itself.
\<close>

type_synonym byte = "8 word"

section \<open>Bytes and characters\<close>

definition byte_of_char :: "char \<Rightarrow> byte" where
  "byte_of_char c = word_of_nat (of_char c)"

definition char_of_byte :: "byte \<Rightarrow> char" where
  "char_of_byte b = char_of (unat b)"

lemma of_char_less [simp]: "(of_char c :: nat) < 256"
  by (cases c) simp

lemma unat_byte_of_char [simp]: "unat (byte_of_char c) = of_char c"
  by (simp add: byte_of_char_def unat_of_nat)

lemma char_of_byte_of_char [simp]: "char_of_byte (byte_of_char c) = c"
  by (simp add: char_of_byte_def)

lemma unat_byte_less [simp]: "unat (b :: byte) < 256"
  using unsigned_less [of b, where ?'a = nat] by simp

lemma byte_of_char_of_byte [simp]: "byte_of_char (char_of_byte b) = b"
  by (simp add: char_of_byte_def byte_of_char_def)

definition encodeText :: "string \<Rightarrow> byte list" where
  "encodeText s = map byte_of_char s"

lemma length_encodeText [simp]: "length (encodeText s) = length s"
  by (simp add: encodeText_def)

section \<open>The decoder\<close>

text \<open>\<open>Pending n lo hi bs\<close>: \<open>n\<close> bytes are missing, the next one in \<open>lo..hi\<close>, \<open>bs\<close> were read.\<close>

datatype utf8_state = Ground | Pending nat nat nat "nat list"

definition replacement :: "nat list" where
  "replacement = [239, 191, 189]"

definition utf8_start :: "nat \<Rightarrow> utf8_state \<times> nat list" where
  "utf8_start b =
     (if b < 128 then (Ground, [b])
      else if 194 \<le> b \<and> b \<le> 223 then (Pending 1 128 191 [b], [])
      else if b = 224 then (Pending 2 160 191 [b], [])
      else if b = 237 then (Pending 2 128 159 [b], [])
      else if 225 \<le> b \<and> b \<le> 239 then (Pending 2 128 191 [b], [])
      else if b = 240 then (Pending 3 144 191 [b], [])
      else if b = 244 then (Pending 3 128 143 [b], [])
      else if 241 \<le> b \<and> b \<le> 243 then (Pending 3 128 191 [b], [])
      else (Ground, replacement))"

fun utf8_step :: "utf8_state \<Rightarrow> nat \<Rightarrow> utf8_state \<times> nat list" where
  "utf8_step Ground b = utf8_start b"
| "utf8_step (Pending n lo hi bs) b =
     (if lo \<le> b \<and> b \<le> hi then
        (if n = 1 then (Ground, bs @ [b]) else (Pending (n - 1) 128 191 (bs @ [b]), []))
      else (case utf8_start b of (st, out) \<Rightarrow> (st, replacement @ out)))"

fun utf8_run :: "utf8_state \<Rightarrow> nat list \<Rightarrow> nat list" where
  "utf8_run Ground [] = []"
| "utf8_run (Pending n lo hi bs) [] = replacement"
| "utf8_run st (b # rest) = (case utf8_step st b of (st', out) \<Rightarrow> out @ utf8_run st' rest)"

definition decodeText :: "byte list \<Rightarrow> string" where
  "decodeText bs =
     (let ns = map unat bs in
      map char_of (utf8_run Ground (if take 3 ns = [239, 187, 191] then drop 3 ns else ns)))"

lemma utf8_run_Cons:
  "utf8_step st b = (st', out) \<Longrightarrow> utf8_run st (b # rest) = out @ utf8_run st' rest"
  by (cases st) simp_all

declare utf8_run.simps(3) [simp del]

section \<open>Well-formed text decodes to itself\<close>

definition scalar_value :: "nat \<Rightarrow> bool" where
  "scalar_value c \<longleftrightarrow> c < 55296 \<or> 57344 \<le> c \<and> c < 1114112"

definition utf8_encode :: "nat \<Rightarrow> nat list" where
  "utf8_encode c =
     (if c < 128 then [c]
      else if c < 2048 then [192 + c div 64, 128 + c mod 64]
      else if c < 65536 then [224 + c div 4096, 128 + c div 64 mod 64, 128 + c mod 64]
      else [240 + c div 262144, 128 + c div 4096 mod 64, 128 + c div 64 mod 64, 128 + c mod 64])"

lemma utf8_finish:
  "lo \<le> b \<Longrightarrow> b \<le> hi \<Longrightarrow> utf8_run (Pending 1 lo hi bs) (b # rest) = (bs @ [b]) @ utf8_run Ground rest"
  by (subst utf8_run_Cons [where st' = Ground and out = "bs @ [b]"]) simp_all

lemma utf8_continue:
  "lo \<le> b \<Longrightarrow> b \<le> hi \<Longrightarrow> n \<noteq> 1 \<Longrightarrow>
   utf8_run (Pending n lo hi bs) (b # rest) = utf8_run (Pending (n - 1) 128 191 (bs @ [b])) rest"
  by (subst utf8_run_Cons [where st' = "Pending (n - 1) 128 191 (bs @ [b])" and out = "[]"]) simp_all

lemma utf8_open:
  "utf8_start b = (st, out) \<Longrightarrow> utf8_run Ground (b # rest) = out @ utf8_run st rest"
  by (rule utf8_run_Cons) simp

lemma utf8_two:
  assumes "194 \<le> a" "a \<le> 223" "128 \<le> b" "b \<le> 191"
  shows "utf8_run Ground (a # b # rest) = a # b # utf8_run Ground rest"
  using assms by (simp add: utf8_open [where st = "Pending 1 128 191 [a]" and out = "[]"]
      utf8_start_def utf8_finish [simplified])

lemma utf8_three:
  assumes "224 \<le> a" "a \<le> 239" "128 \<le> b" "b \<le> 191" "128 \<le> c" "c \<le> 191"
    and "a = 224 \<Longrightarrow> 160 \<le> b" and "a = 237 \<Longrightarrow> b \<le> 159"
  shows "utf8_run Ground (a # b # c # rest) = a # b # c # utf8_run Ground rest"
proof -
  obtain lo hi where "utf8_start a = (Pending 2 lo hi [a], [])" "lo \<le> b" "b \<le> hi"
    by (rule that [of "if a = 224 then 160 else 128" "if a = 237 then 159 else 191"])
      (use assms in \<open>auto simp: utf8_start_def\<close>)
  with assms show ?thesis
    by (simp add: utf8_open utf8_continue utf8_finish [simplified])
qed

lemma utf8_four:
  assumes "240 \<le> a" "a \<le> 244" "128 \<le> b" "b \<le> 191" "128 \<le> c" "c \<le> 191" "128 \<le> d" "d \<le> 191"
    and "a = 240 \<Longrightarrow> 144 \<le> b" and "a = 244 \<Longrightarrow> b \<le> 143"
  shows "utf8_run Ground (a # b # c # d # rest) = a # b # c # d # utf8_run Ground rest"
proof -
  obtain lo hi where "utf8_start a = (Pending 3 lo hi [a], [])" "lo \<le> b" "b \<le> hi"
    by (rule that [of "if a = 240 then 144 else 128" "if a = 244 then 143 else 191"])
      (use assms in \<open>auto simp: utf8_start_def\<close>)
  with assms show ?thesis
    by (simp add: utf8_open utf8_continue utf8_finish [simplified])
qed

lemma utf8_run_encode:
  assumes "scalar_value c"
  shows "utf8_run Ground (utf8_encode c @ rest) = utf8_encode c @ utf8_run Ground rest"
proof -
  define q y a x p w where defs: "q = c div 64" "y = c mod 64" "a = q div 64" "x = q mod 64"
    "p = a div 64" "w = a mod 64"
  have num: "c = 64 * q + y" "y < 64" "q = 64 * a + x" "x < 64" "a = 64 * p + w" "w < 64"
    by (simp_all add: defs)
  have enc: "utf8_encode c =
     (if c < 128 then [c]
      else if c < 2048 then [192 + q, 128 + y]
      else if c < 65536 then [224 + a, 128 + x, 128 + y]
      else [240 + p, 128 + w, 128 + x, 128 + y])"
    by (simp add: utf8_encode_def defs div_mult2_eq [symmetric])
  note sv = assms [unfolded scalar_value_def]
  consider "c < 128" | "128 \<le> c" "c < 2048" | "2048 \<le> c" "c < 65536" | "65536 \<le> c" "c < 1114112"
    using sv by linarith
  then show ?thesis
  proof cases
    case 1
    then show ?thesis
      by (simp add: enc utf8_open [where st = Ground and out = "[c]"] utf8_start_def)
  next
    case 2
    with num have "194 \<le> 192 + q" "192 + q \<le> 223" "128 + y \<le> 191"
      by linarith+
    with 2 show ?thesis by (simp add: enc utf8_two)
  next
    case 3
    with num sv have "224 + a \<le> 239" "128 + x \<le> 191" "128 + y \<le> 191"
      "a = 0 \<longrightarrow> 160 \<le> 128 + x" "a = 13 \<longrightarrow> 128 + x \<le> 159"
      by linarith+
    with 3 show ?thesis by (simp add: enc utf8_three)
  next
    case 4
    with num have "240 + p \<le> 244" "128 + w \<le> 191" "128 + x \<le> 191" "128 + y \<le> 191"
      "p = 0 \<longrightarrow> 144 \<le> 128 + w" "p = 4 \<longrightarrow> 128 + w \<le> 143"
      by linarith+
    with 4 show ?thesis by (simp add: enc utf8_four)
  qed
qed

lemma utf8_run_encodes:
  "list_all scalar_value cs \<Longrightarrow>
   utf8_run Ground (concat (map utf8_encode cs)) = concat (map utf8_encode cs)"
  by (induction cs) (simp_all add: utf8_run_encode)

section \<open>Decoded text is well formed\<close>

text \<open>\<open>st\<close> is the state after the bytes it has kept.\<close>

definition utf8_reads :: "utf8_state \<Rightarrow> bool" where
  "utf8_reads st \<longleftrightarrow> (case st of Ground \<Rightarrow> True
     | Pending n lo hi bs \<Rightarrow> \<forall>r. utf8_run Ground (bs @ r) = utf8_run st r)"

lemma utf8_run_replacement [simp]:
  "utf8_run Ground (replacement @ ns) = replacement @ utf8_run Ground ns"
  by (simp add: replacement_def utf8_three)

lemma utf8_run_replacement_nil [simp]: "utf8_run Ground replacement = replacement"
  using utf8_run_replacement [of "[]"] by simp

lemma utf8_start_cases:
  obtains (ascii) "b < 128" "utf8_start b = (Ground, [b])"
  | (more) n lo hi where "utf8_start b = (Pending n lo hi [b], [])"
  | (bad) "utf8_start b = (Ground, replacement)"
proof -
  have "b < 128 \<and> utf8_start b = (Ground, [b]) \<or>
    (\<exists>n lo hi. utf8_start b = (Pending n lo hi [b], [])) \<or> utf8_start b = (Ground, replacement)"
    by (simp add: utf8_start_def)
  then show ?thesis using ascii more bad by blast
qed

lemma utf8_start_reads: "utf8_start b = (st, out) \<Longrightarrow> utf8_reads st"
  by (cases b rule: utf8_start_cases) (auto simp: utf8_reads_def utf8_open)

lemma utf8_run_fixpoint:
  "utf8_reads st \<Longrightarrow> utf8_run Ground (utf8_run st ns) = utf8_run st ns"
proof (induction ns arbitrary: st)
  case Nil
  then show ?case by (cases st) simp_all
next
  case (Cons b ns)
  have start: "utf8_run Ground (out @ utf8_run st' ns) = out @ utf8_run st' ns"
    if "utf8_start b = (st', out)" for st' out
    using that Cons.IH [of st'] utf8_start_reads [OF that]
    by (cases b rule: utf8_start_cases)
      (auto simp: utf8_open [where st = Ground and out = "[b]"] utf8_reads_def)
  show ?case
  proof (cases st)
    case Ground
    then show ?thesis
      using start by (cases "utf8_start b") (simp add: utf8_open)
  next
    case (Pending n lo hi bs)
    with Cons.prems have reads: "utf8_run Ground (bs @ r) = utf8_run (Pending n lo hi bs) r" for r
      by (simp add: utf8_reads_def)
    consider (whole) "lo \<le> b" "b \<le> hi" "n = 1" | (part) "lo \<le> b" "b \<le> hi" "n \<noteq> 1"
      | (broken) "\<not> (lo \<le> b \<and> b \<le> hi)" by blast
    then show ?thesis
    proof cases
      case whole
      then show ?thesis
        using Pending Cons.IH [of Ground] reads [of "b # utf8_run Ground ns"]
        by (simp add: utf8_finish [simplified] utf8_reads_def)
    next
      case part
      then have "utf8_reads (Pending (n - 1) 128 191 (bs @ [b]))"
        unfolding utf8_reads_def using reads [of "b # r" for r] by (simp add: utf8_continue)
      with part show ?thesis
        using Pending Cons.IH by (simp add: utf8_continue)
    next
      case broken
      obtain st' out where st': "utf8_start b = (st', out)" by fastforce
      with broken have step: "utf8_step (Pending n lo hi bs) b = (st', replacement @ out)" by auto
      then show ?thesis
        using Pending start [OF st'] by (simp add: utf8_run_Cons [OF step] del: utf8_step.simps)
    qed
  qed
qed

definition utf8_bytes :: "utf8_state \<Rightarrow> bool" where
  "utf8_bytes st \<longleftrightarrow> (case st of Ground \<Rightarrow> True | Pending n lo hi bs \<Rightarrow> \<forall>b\<in>set bs. b < 256)"

lemma utf8_step_bytes:
  "utf8_step st b = (st', out) \<Longrightarrow> b < 256 \<Longrightarrow> utf8_bytes st \<Longrightarrow>
   utf8_bytes st' \<and> (\<forall>n\<in>set out. n < 256)"
  by (cases st; cases b rule: utf8_start_cases)
    (auto simp: utf8_bytes_def replacement_def split: if_splits)

lemma utf8_run_less:
  "utf8_bytes st \<Longrightarrow> \<forall>n\<in>set ns. n < 256 \<Longrightarrow> \<forall>n\<in>set (utf8_run st ns). n < 256"
proof (induction ns arbitrary: st)
  case Nil
  then show ?case by (cases st) (simp_all add: replacement_def)
next
  case (Cons b ns)
  obtain st' out where step: "utf8_step st b = (st', out)" by fastforce
  with Cons utf8_step_bytes [OF step] show ?case by (auto simp: utf8_run_Cons)
qed

section \<open>Text and its bytes\<close>

definition byte_order_mark :: string where
  "byte_order_mark = map char_of [239 :: nat, 187, 191]"

lemma unat_encodeText: "map unat (encodeText s) = map of_char s"
  by (simp add: encodeText_def)

lemma decode_plain:
  assumes "take 3 ns \<noteq> [239, 187, 191]" "\<forall>n\<in>set ns. n < 256"
  shows "decodeText (map word_of_nat ns) = map char_of (utf8_run Ground ns)"
proof -
  have "map unat (map word_of_nat ns :: byte list) = ns"
    using assms(2) by (intro nth_equalityI) (auto simp: unat_of_nat)
  with assms(1) show ?thesis by (simp add: decodeText_def Let_def del: map_map)
qed

lemma utf8_encode_less: "scalar_value c \<Longrightarrow> n \<in> set (utf8_encode c) \<Longrightarrow> n < 256"
  by (auto simp: utf8_encode_def scalar_value_def split: if_splits)

text \<open>The bytes of a text of Unicode scalar values decode to that text, byte for byte, unless
  it starts with a byte order mark, which \<open>TextDecoder\<close> drops.\<close>

theorem decodeText_wellformed:
  assumes "list_all scalar_value cs"
    and "take 3 (concat (map utf8_encode cs)) \<noteq> [239, 187, 191]"
  shows "decodeText (map word_of_nat (concat (map utf8_encode cs))) =
         map char_of (concat (map utf8_encode cs))"
proof -
  have "\<forall>n\<in>set (concat (map utf8_encode cs)). n < 256"
    using assms(1) utf8_encode_less by (auto simp: list_all_iff)
  with assms show ?thesis by (simp add: decode_plain utf8_run_encodes)
qed

theorem decodeText_wellformed_witness:
  "decodeText (map word_of_nat (concat (map utf8_encode [97, 233, 8364, 128512]))) =
   map char_of (concat (map utf8_encode [97, 233, 8364, 128512]))"
  by (rule decodeText_wellformed) (simp_all add: scalar_value_def utf8_encode_def)

text \<open>Text that came out of the decoder (whatever bytes the guest passed) goes through
  \<open>encodeText\<close> and \<open>decodeText\<close> unchanged, unless it starts with a byte order mark. So a path
  the guest named once is found again under the bytes the host reports for it.\<close>

theorem decodeText_stable:
  assumes "s = decodeText bs" and "take 3 s \<noteq> byte_order_mark"
  shows "decodeText (encodeText s) = s"
proof -
  obtain ns where ns: "s = map char_of (utf8_run Ground ns)" "\<forall>n\<in>set ns. n < 256"
    using assms(1) by (fastforce simp: decodeText_def Let_def dest: in_set_dropD split: if_splits)
  have codes: "map of_char s = utf8_run Ground ns"
    using ns utf8_run_less [of Ground ns]
    by (auto simp: utf8_bytes_def o_def intro!: map_idI)
  have "take 3 s = map char_of (take 3 (map of_char s :: nat list))"
    by (simp add: take_map)
  with assms(2) have "take 3 (map of_char s) \<noteq> [239, 187, 191 :: nat]"
    unfolding byte_order_mark_def by metis
  then have "decodeText (encodeText s) = map char_of (utf8_run Ground (map of_char s :: nat list))"
    by (simp add: decodeText_def Let_def unat_encodeText)
  also have "\<dots> = s"
    using codes utf8_run_fixpoint [of Ground ns] ns(1) by (simp add: utf8_reads_def)
  finally show ?thesis .
qed

theorem decodeText_stable_witness:
  "decodeText (encodeText (decodeText [0x61, 0xC3, 0x28, 0xF0, 0x9F])) =
   decodeText [0x61, 0xC3, 0x28, 0xF0, 0x9F]"
  by (rule decodeText_stable [OF refl])
    (simp add: decodeText_def byte_order_mark_def utf8_run_Cons utf8_start_def replacement_def)

end
