(* ===== verification/Guest_Memory.thy ===== *)
theory Guest_Memory imports Utf8 begin

text \<open>
  The guest's linear memory as \<open>apps/web/src/wasi-module.js\<close> uses it: \<open>new Uint8Array(buffer)\<close> and
  \<open>new DataView(buffer)\<close>. An access outside the buffer is a \<open>RangeError\<close>, here \<open>None\<close>. Pointers are
  the signed \<open>i32\<close> values the engine passes, so a pointer of 2 GiB or more arrives negative; \<open>slice\<close>
  and \<open>subarray\<close> count a negative index from the end, as JavaScript does.

  The locale \<open>byte_store\<close> states the laws of a store that is read and written by byte strings; the
  little-endian integer accesses are derived in it once and used at the guest's memory.
\<close>

section \<open>Little-endian integers\<close>

fun le_bytes :: "nat \<Rightarrow> int \<Rightarrow> byte list" where
  "le_bytes 0 v = []"
| "le_bytes (Suc n) v = word_of_int v # le_bytes n (v div 256)"

fun le_value :: "byte list \<Rightarrow> int" where
  "le_value [] = 0"
| "le_value (b # bs) = uint b + 256 * le_value bs"

lemma length_le_bytes [simp]: "length (le_bytes n v) = n"
  by (induction n arbitrary: v) simp_all

lemma le_value_le_bytes: "le_value (le_bytes n v) = v mod 256 ^ n"
proof (induction n arbitrary: v)
  case (Suc n)
  have "v mod (256 * 256 ^ n) = 256 * (v div 256 mod 256 ^ n) + v mod 256"
    by (rule zmod_zmult2_eq) simp
  with Suc show ?case by (simp add: unsigned_of_int take_bit_eq_mod)
qed simp

lemma le_value_range: "0 \<le> le_value bs \<and> le_value bs < 256 ^ length bs"
proof (induction bs)
  case (Cons b bs)
  have "0 \<le> uint b" "uint b < 256"
    using uint_lt2p [of b] by simp_all
  with Cons show ?case by simp
qed simp

lemma le_bytes_le_value: "le_bytes (length bs) (le_value bs) = bs"
proof (induction bs)
  case (Cons b bs)
  have "0 \<le> uint b" "uint b < 256"
    using uint_lt2p [of b] by simp_all
  then have "(uint b + 256 * le_value bs) div 256 = le_value bs"
    by simp
  moreover have "(word_of_int (uint b + 256 * le_value bs) :: byte) = word_of_int (uint b)"
    by (simp only: word_of_int_eq_iff) (simp add: take_bit_eq_mod)
  ultimately show ?case using Cons by simp
qed simp

section \<open>Stores of bytes\<close>

locale byte_store =
  fixes peek :: "'m \<Rightarrow> int \<Rightarrow> nat \<Rightarrow> byte list option"
    and poke :: "'m \<Rightarrow> int \<Rightarrow> byte list \<Rightarrow> 'm option"
    and capacity :: "'m \<Rightarrow> int"
  assumes read_bounds: "peek m p n \<noteq> None \<longleftrightarrow> 0 \<le> p \<and> p + int n \<le> capacity m"
    and write_bounds: "poke m p bs \<noteq> None \<longleftrightarrow> 0 \<le> p \<and> p + int (length bs) \<le> capacity m"
    and write_capacity: "poke m p bs = Some m' \<Longrightarrow> capacity m' = capacity m"
    and read_written: "poke m p bs = Some m' \<Longrightarrow> peek m' p (length bs) = Some bs"
    and read_frame:
      "poke m p bs = Some m' \<Longrightarrow> q + int n \<le> p \<or> p + int (length bs) \<le> q \<Longrightarrow>
       peek m' q n = peek m q n"
begin

definition read_int :: "'m \<Rightarrow> int \<Rightarrow> nat \<Rightarrow> int option" where
  "read_int m p n = map_option le_value (peek m p n)"

definition write_int :: "'m \<Rightarrow> int \<Rightarrow> nat \<Rightarrow> int \<Rightarrow> 'm option" where
  "write_int m p n v = poke m p (le_bytes n v)"

lemma write_int_bounds: "write_int m p n v \<noteq> None \<longleftrightarrow> 0 \<le> p \<and> p + int n \<le> capacity m"
  using write_bounds [of m p "le_bytes n v"] by (simp add: write_int_def)

lemma read_int_written:
  "write_int m p n v = Some m' \<Longrightarrow> read_int m' p n = Some (v mod 256 ^ n)"
  using read_written [of m p "le_bytes n v" m']
  by (simp add: write_int_def read_int_def le_value_le_bytes)

lemma read_int_frame:
  "write_int m p n v = Some m' \<Longrightarrow> q + int k \<le> p \<or> p + int n \<le> q \<Longrightarrow>
   read_int m' q k = read_int m q k"
  using read_frame [of m p "le_bytes n v" m' q k] by (simp add: write_int_def read_int_def)

lemma write_int_capacity: "write_int m p n v = Some m' \<Longrightarrow> capacity m' = capacity m"
  unfolding write_int_def by (rule write_capacity)

lemma two_ints:
  assumes "write_int m p n v = Some m1" "write_int m1 q k w = Some m2"
    and "p + int n \<le> q \<or> q + int k \<le> p"
  shows "read_int m2 p n = Some (v mod 256 ^ n)" "read_int m2 q k = Some (w mod 256 ^ k)"
  using read_int_frame [OF assms(2), of p n] read_int_written [OF assms(1)]
    read_int_written [OF assms(2)] assms(3) by auto

end

section \<open>The linear memory\<close>

record mem =
  mem_size :: int
  mem_at :: "int \<Rightarrow> byte"

definition mem_load :: "mem \<Rightarrow> int \<Rightarrow> nat \<Rightarrow> byte list" where
  "mem_load m p n = map (\<lambda>i. mem_at m (p + int i)) [0..<n]"

definition mem_store :: "mem \<Rightarrow> int \<Rightarrow> byte list \<Rightarrow> mem" where
  "mem_store m p bs =
     m\<lparr>mem_at := \<lambda>a. if p \<le> a \<and> a < p + int (length bs) then bs ! nat (a - p) else mem_at m a\<rparr>"

definition get_bytes :: "mem \<Rightarrow> int \<Rightarrow> nat \<Rightarrow> byte list option" where
  "get_bytes m p n = (if 0 \<le> p \<and> p + int n \<le> mem_size m then Some (mem_load m p n) else None)"

definition set_bytes :: "mem \<Rightarrow> int \<Rightarrow> byte list \<Rightarrow> mem option" where
  "set_bytes m p bs =
     (if 0 \<le> p \<and> p + int (length bs) \<le> mem_size m then Some (mem_store m p bs) else None)"

definition js_index :: "int \<Rightarrow> int \<Rightarrow> int" where
  "js_index len i = (if i < 0 then max (len + i) 0 else min i len)"

definition mem_slice :: "mem \<Rightarrow> int \<Rightarrow> int \<Rightarrow> byte list" where
  "mem_slice m st en =
     (let a = js_index (mem_size m) st; b = js_index (mem_size m) en in mem_load m a (nat (b - a)))"

definition js_slice :: "'a list \<Rightarrow> int \<Rightarrow> int \<Rightarrow> 'a list" where
  "js_slice xs st en =
     (let a = js_index (int (length xs)) st; b = js_index (int (length xs)) en
      in take (nat (b - a)) (drop (nat a) xs))"

lemma length_mem_load [simp]: "length (mem_load m p n) = n"
  by (simp add: mem_load_def)

lemma mem_size_store [simp]: "mem_size (mem_store m p bs) = mem_size m"
  by (simp add: mem_store_def)

lemma mem_load_store [simp]: "mem_load (mem_store m p bs) p (length bs) = bs"
  by (rule nth_equalityI) (simp_all add: mem_load_def mem_store_def)

lemma mem_load_frame:
  "q + int n \<le> p \<or> p + int (length bs) \<le> q \<Longrightarrow> mem_load (mem_store m p bs) q n = mem_load m q n"
  by (auto simp: mem_load_def mem_store_def)

lemma mem_load_append: "mem_load m p (n + k) = mem_load m p n @ mem_load m (p + int n) k"
  by (rule nth_equalityI) (auto simp: mem_load_def nth_append)

lemma mem_store_append:
  "mem_store (mem_store m p xs) (p + int (length xs)) ys = mem_store m p (xs @ ys)"
proof (cases m)
  case (fields sz f)
  have "nat (a - p) - length xs = nat (a - (p + int (length xs)))" for a
    by linarith
  then have "(\<lambda>a. if p + int (length xs) \<le> a \<and> a < p + int (length xs) + int (length ys)
      then ys ! nat (a - (p + int (length xs)))
      else if p \<le> a \<and> a < p + int (length xs) then xs ! nat (a - p) else f a) =
    (\<lambda>a. if p \<le> a \<and> a < p + int (length (xs @ ys)) then (xs @ ys) ! nat (a - p) else f a)"
    by (intro ext) (auto simp: nth_append)
  with fields show ?thesis by (simp add: mem_store_def cong: if_cong)
qed

lemma mem_store_nil [simp]: "mem_store m p [] = m"
proof -
  have "(\<lambda>a. if p \<le> a \<and> a < p then [] ! nat (a - p) else mem_at m a) = mem_at m"
    by (intro ext) auto
  then show ?thesis by (simp add: mem_store_def)
qed

interpretation guest: byte_store get_bytes set_bytes mem_size
  by unfold_locales
    (auto simp: get_bytes_def set_bytes_def mem_load_frame split: if_splits)

end
