(* ===== verification/Wasi_Tree.thy ===== *)
theory Wasi_Tree imports Wasi_Path Guest_Memory "HOL-Library.List_Lexorder" "HOL-Library.Multiset" begin

text \<open>
  The directory trees of \<open>apps/web/src/wasi-module.js\<close>: a map from paths to file records and a set
  of directory paths, both flat, with the tree structure read off the path strings. Here are the
  functions shared by the three mounts (\<open>direntBytes\<close> to \<open>scratchParentStatus\<close>, lines 6075 to
  6269) and the path rewriting of a directory rename. Proved: on a well-formed tree
  \<open>directoryEntries\<close> lists every child once, with its type, in JavaScript's string order; the
  pages of \<open>fd_readdir\<close> are the bytes of that listing; rewriting the paths of a renamed directory
  is injective and keeps the tree well formed.
\<close>

section \<open>File records and trees\<close>

record file_record =
  r_bytes :: "byte list"
  r_path :: "string option"
  r_fallback :: bool
  r_mtime :: "int option"

type_synonym record_store = "nat \<Rightarrow> file_record"
type_synonym file_map = "(string \<times> nat) list"

datatype stat = Stat (st_filetype: int) (st_size: int)

definition pathHasChildren :: "file_map \<Rightarrow> string list \<Rightarrow> string \<Rightarrow> bool" where
  "pathHasChildren files dirs path =
     (let pre = path @ ''/'' in
      list_ex (\<lambda>dir. prefix pre dir) dirs \<or> list_ex (\<lambda>filePath. prefix pre filePath) (map_keys files))"

definition replacePathPrefix :: "string \<Rightarrow> string \<Rightarrow> string \<Rightarrow> string" where
  "replacePathPrefix path sourcePath targetPath =
     (if path = sourcePath then targetPath else targetPath @ drop (length sourcePath) path)"

definition statPath :: "record_store \<Rightarrow> file_map \<Rightarrow> string list \<Rightarrow> string \<Rightarrow> int + stat" where
  "statPath recs files dirs path =
     (if path \<in> set dirs \<or> pathHasChildren files dirs path then Inr (Stat FILETYPE_DIRECTORY 0)
      else (case map_of files path of
              None \<Rightarrow> Inl ERRNO_NOENT
            | Some file \<Rightarrow> Inr (Stat FILETYPE_REGULAR_FILE (int (length (r_bytes (recs file)))))))"

text \<open>\<open>scratchParentStatus\<close> returns \<open>{}\<close> or \<open>{errno}\<close>: \<open>None\<close> or \<open>Some errno\<close>.\<close>

definition scratchParentStatus :: "file_map \<Rightarrow> string list \<Rightarrow> string \<Rightarrow> int option" where
  "scratchParentStatus files dirs path =
     (let separator = last_index_of (CHR ''/'') path in
      if separator < 0 then None
      else let parent = take (nat separator) path in
        if map_has files parent then Some ERRNO_NOTDIR
        else if parent \<notin> set dirs then Some ERRNO_NOENT
        else None)"

section \<open>Directory listings\<close>

text \<open>
  \<open>compareStrings\<close> orders strings by UTF-16 code units. On UTF-8 bytes that is the order of the
  bytes once the lead bytes of the supplementary planes (\<open>F0..F4\<close>, surrogates in UTF-16) are put
  before those of \<open>U+E000..U+FFFF\<close> (\<open>EE\<close>, \<open>EF\<close>).
\<close>

definition utf16_weight :: "char \<Rightarrow> nat" where
  "utf16_weight c =
     (let b = of_char c in
      if 240 \<le> b \<and> b \<le> 244 then b - 2 else if b = 238 \<or> b = 239 then b + 5 else b)"

definition string_order_key :: "string \<Rightarrow> nat list" where
  "string_order_key s = map utf16_weight s"

definition compareStrings :: "string \<Rightarrow> string \<Rightarrow> int" where
  "compareStrings left right =
     (if string_order_key left < string_order_key right then -1
      else if string_order_key left > string_order_key right then 1
      else 0)"

definition list_dir :: "string \<Rightarrow> (string \<times> int) list \<Rightarrow> string \<Rightarrow> (string \<times> int) list" where
  "list_dir pre entries dir =
     (if dir = [] \<or> \<not> prefix pre dir then entries
      else let rest = drop (length pre) dir in
        if rest = [] then entries
        else AList.update (hd (js_split (CHR ''/'') rest)) FILETYPE_DIRECTORY entries)"

definition list_file :: "string \<Rightarrow> (string \<times> int) list \<Rightarrow> string \<Rightarrow> (string \<times> int) list" where
  "list_file pre entries path =
     (if \<not> prefix pre path then entries
      else let parts = js_split (CHR ''/'') (drop (length pre) path); n = hd parts in
        if n = [] then entries
        else if tl parts \<noteq> [] then AList.update n FILETYPE_DIRECTORY entries
        else if \<not> map_has entries n then AList.update n FILETYPE_REGULAR_FILE entries
        else entries)"

definition directoryEntries :: "file_map \<Rightarrow> string list \<Rightarrow> string \<Rightarrow> (string \<times> int) list" where
  "directoryEntries files dirs path =
     (let pre = (if path \<noteq> [] then path @ ''/'' else []) in
      sort_key (\<lambda>e. string_order_key (fst e))
        (foldl (list_file pre) (foldl (list_dir pre) [] dirs) (map_keys files)))"

definition direntBytes :: "string \<times> int \<Rightarrow> int \<Rightarrow> byte list" where
  "direntBytes entry nextCookie =
     le_bytes 8 nextCookie @ le_bytes 8 nextCookie @ le_bytes 4 (int (length (fst entry))) @
     [word_of_int (snd entry), 0, 0, 0]"

definition copyPartial :: "byte list \<Rightarrow> byte list \<Rightarrow> nat \<Rightarrow> nat \<times> byte list" where
  "copyPartial source target offset =
     (let writable = min (int (length source)) (int (length target) - int offset) in
      if writable \<le> 0 then (0, target)
      else let n = nat writable in
        (n, take offset target @ take n source @ drop (offset + n) target))"

text \<open>The loop of \<open>fdReaddir\<close> over the entries from the cookie on; \<open>output\<close> is the guest buffer.\<close>

fun readdir_fill ::
  "(string \<times> int) list \<Rightarrow> int \<Rightarrow> byte list \<Rightarrow> nat \<Rightarrow> nat \<times> byte list" where
  "readdir_fill [] index output used = (used, output)"
| "readdir_fill (entry # rest) index output used =
     (let dirent = direntBytes entry (index + 1);
          (wroteDirent, output) = copyPartial dirent output used;
          used = used + wroteDirent in
      if wroteDirent \<noteq> length dirent then (used, output)
      else let name = encodeText (fst entry);
               (wroteName, output) = copyPartial name output used;
               used = used + wroteName in
        if wroteName \<noteq> length name then (used, output)
        else readdir_fill rest (index + 1) output used)"

section \<open>Well-formed trees\<close>

definition tree_ok :: "file_map \<Rightarrow> string list \<Rightarrow> bool" where
  "tree_ok files dirs \<longleftrightarrow>
     distinct (map_keys files) \<and> distinct dirs \<and>
     list_all (\<lambda>p. p \<noteq> [] \<and> canonical p) (map_keys files) \<and> list_all canonical dirs \<and>
     list_all (\<lambda>p. p \<notin> set dirs \<and> \<not> pathHasChildren files dirs p) (map_keys files)"

lemma pathHasChildren_iff:
  "pathHasChildren files dirs p \<longleftrightarrow>
   (\<exists>q\<in>set dirs \<union> fst ` set files. prefix (p @ ''/'') q)"
  by (auto simp: pathHasChildren_def Let_def list_ex_iff)

lemma tree_okI:
  assumes "distinct (map_keys files)" "distinct dirs"
    and "\<And>p. p \<in> fst ` set files \<Longrightarrow> p \<noteq> [] \<and> canonical p" "\<And>d. d \<in> set dirs \<Longrightarrow> canonical d"
    and "\<And>p. p \<in> fst ` set files \<Longrightarrow> p \<notin> set dirs \<and> \<not> pathHasChildren files dirs p"
  shows "tree_ok files dirs"
  using assms by (simp add: tree_ok_def list_all_iff)

lemma tree_okD:
  assumes "tree_ok files dirs"
  shows "distinct (map_keys files)" "distinct dirs"
    and "p \<in> fst ` set files \<Longrightarrow> p \<noteq> []" "p \<in> fst ` set files \<Longrightarrow> canonical p"
    and "d \<in> set dirs \<Longrightarrow> canonical d"
    and "p \<in> fst ` set files \<Longrightarrow> p \<notin> set dirs"
    and "p \<in> fst ` set files \<Longrightarrow> \<not> pathHasChildren files dirs p"
  using assms by (auto simp: tree_ok_def list_all_iff)

lemma tree_ok_canonical:
  "tree_ok files dirs \<Longrightarrow> q \<in> set dirs \<union> fst ` set files \<Longrightarrow> canonical q"
  using tree_okD(4,5) by blast

lemma no_children_of_root:
  assumes "tree_ok files dirs"
  shows "\<not> pathHasChildren files dirs []"
proof
  assume "pathHasChildren files dirs []"
  then obtain q where "q \<in> set dirs \<union> fst ` set files" "prefix ''/'' q"
    by (auto simp: pathHasChildren_iff)
  with assms tree_ok_canonical canonical_hd show False
    by (fastforce simp: prefix_def)
qed

lemma pathHasChildren_segs:
  assumes "tree_ok files dirs" "canonical p" "p \<noteq> []"
  shows "pathHasChildren files dirs p \<longleftrightarrow>
         (\<exists>q\<in>set dirs \<union> fst ` set files. strict_prefix (segs p) (segs q))"
  using assms tree_ok_canonical [OF assms(1)] prefix_slash_iff [OF assms(2) _ assms(3)]
  unfolding pathHasChildren_iff by blast

text \<open>The directory that \<open>scratchParentStatus\<close> accepts: the root, or the parent as an entry.\<close>

lemma scratchParentStatus_None:
  assumes "canonical path" "path \<noteq> []" "scratchParentStatus files dirs path = None"
  shows "butlast (segs path) = [] \<or>
         (unsegs (butlast (segs path)) \<in> set dirs \<and> \<not> map_has files (unsegs (butlast (segs path))))"
proof -
  obtain ps p where ok: "list_all seg_ok (ps @ [p])" and path: "path = unsegs (ps @ [p])"
    using canonical_snoc_cases [OF assms(1,2)] .
  have "segs path = ps @ [p]" using ok path by (simp add: segs_unsegs del: list_all_append)
  then show ?thesis
    using assms(3) ok path
    by (auto simp: scratchParentStatus_def Let_def parent_of_snoc unsegs_append split: if_splits)
qed

lemma no_file_above:
  assumes tree: "tree_ok files dirs" and path: "canonical path" "path \<noteq> []"
    and parent: "scratchParentStatus files dirs path = None"
    and fl: "p \<in> fst ` set files"
  shows "\<not> strict_prefix (segs p) (segs path)"
proof
  assume above: "strict_prefix (segs p) (segs path)"
  note p = tree_okD(3,4) [OF tree fl]
  define q where "q = unsegs (butlast (segs path))"
  have "prefix (segs p) (butlast (segs path))"
    using above by (metis append_butlast_last_id prefix_bot.extremum_strict prefix_snoc
        strict_prefix_def)
  moreover have "segs p \<noteq> []" using p by simp
  ultimately have ne: "butlast (segs path) \<noteq> []" by auto
  with scratchParentStatus_None [OF path parent] have q: "q \<in> set dirs" "\<not> map_has files q"
    by (auto simp: q_def)
  have "segs q = butlast (segs path)"
    using path by (simp add: q_def canonical_def list_all_iff in_set_butlastD segs_unsegs)
  with \<open>prefix (segs p) (butlast (segs path))\<close> have "segs p = segs q \<or> strict_prefix (segs p) (segs q)"
    by (auto simp: strict_prefix_def)
  then show False
  proof
    assume "segs p = segs q"
    then show False using q fl by (simp add: canonical_inj map_has_iff)
  next
    assume "strict_prefix (segs p) (segs q)"
    then have "pathHasChildren files dirs p"
      using q pathHasChildren_segs [OF tree p(2,1)] by blast
    then show False using tree_okD(7) [OF tree fl] by simp
  qed
qed

lemma tree_ok_add_file:
  assumes tree: "tree_ok files dirs" and path: "canonical path" "path \<noteq> []"
    and parent: "scratchParentStatus files dirs path = None"
    and "path \<notin> set dirs" "\<not> pathHasChildren files dirs path"
  shows "tree_ok (AList.update path f files) dirs"
proof (rule tree_okI)
  fix p assume p: "p \<in> fst ` set (AList.update path f files)"
  then have p': "p \<noteq> []" "canonical p" "p \<notin> set dirs" "\<not> pathHasChildren files dirs p"
    using path assms(5,6) tree_okD(3,4,6,7) [OF tree, of p] by auto
  moreover have "\<not> prefix (p @ ''/'') path"
    using p p' path no_file_above [OF tree path parent] prefix_slash_iff [OF p'(2) path(1) p'(1)] by auto
  ultimately show "p \<noteq> [] \<and> canonical p"
    "p \<notin> set dirs \<and> \<not> pathHasChildren (AList.update path f files) dirs p"
    by (auto simp: pathHasChildren_iff)
qed (use tree_okD(1,2,5) [OF tree] in auto)

lemma tree_ok_add_dir:
  assumes tree: "tree_ok files dirs" and path: "canonical path" "path \<noteq> []"
    and parent: "scratchParentStatus files dirs path = None" and "\<not> map_has files path"
  shows "tree_ok files (set_add path dirs)"
proof (rule tree_okI)
  fix p assume p: "p \<in> fst ` set files"
  then have "\<not> prefix (p @ ''/'') path"
    using path no_file_above [OF tree path parent p] prefix_slash_iff [OF _ path(1)]
      tree_okD(3,4) [OF tree p] by simp
  moreover have "p \<noteq> path" using p assms(5) by (auto simp: map_has_iff)
  ultimately show "p \<notin> set (set_add path dirs) \<and> \<not> pathHasChildren files (set_add path dirs) p"
    using tree_okD(6,7) [OF tree p] by (auto simp: pathHasChildren_iff)
qed (use tree_okD(1-5) [OF tree] path in auto)

lemma tree_ok_subset:
  assumes tree: "tree_ok files dirs"
    and "distinct (map_keys files')" "fst ` set files' \<subseteq> fst ` set files"
    and "distinct dirs'" "set dirs' \<subseteq> set dirs"
  shows "tree_ok files' dirs'"
proof (rule tree_okI)
  fix p assume "p \<in> fst ` set files'"
  then have p: "p \<in> fst ` set files" using assms(3) by blast
  show "p \<noteq> [] \<and> canonical p" using tree_okD(3,4) [OF tree p] by blast
  show "p \<notin> set dirs' \<and> \<not> pathHasChildren files' dirs' p"
    using tree_okD(6,7) [OF tree p] assms(3,5) unfolding pathHasChildren_iff by blast
qed (use assms tree_okD(5) [OF tree] in auto)

lemma tree_ok_delete_file: "tree_ok files dirs \<Longrightarrow> tree_ok (AList.delete path files) dirs"
  using tree_ok_subset [of files dirs "AList.delete path files" dirs] tree_okD(1,2) [of files dirs]
  by auto

lemma tree_ok_delete_dir: "tree_ok files dirs \<Longrightarrow> tree_ok files (removeAll path dirs)"
  using tree_ok_subset [of files dirs files "removeAll path dirs"] tree_okD(1,2) [of files dirs]
  by (auto simp: distinct_removeAll)

section \<open>Renaming a directory\<close>

text \<open>
  The two loops shared by \<open>renameScratchDirectory\<close> and \<open>renameWorkspaceDirectory\<close>: every entry at
  or below the source moves, into a new \<open>Set\<close> and a new \<open>Map\<close>.
\<close>

definition at_or_below :: "string \<Rightarrow> string \<Rightarrow> bool" where
  "at_or_below sourcePath path \<longleftrightarrow> path = sourcePath \<or> prefix (sourcePath @ ''/'') path"

definition moved_path :: "string \<Rightarrow> string \<Rightarrow> string \<Rightarrow> string" where
  "moved_path sourcePath targetPath path =
     (if at_or_below sourcePath path then replacePathPrefix path sourcePath targetPath else path)"

definition moved_dirs :: "string \<Rightarrow> string \<Rightarrow> string list \<Rightarrow> string list" where
  "moved_dirs sourcePath targetPath dirs =
     foldl (\<lambda>acc dir. set_add (moved_path sourcePath targetPath dir) acc) [] dirs"

definition moved_files :: "string \<Rightarrow> string \<Rightarrow> file_map \<Rightarrow> file_map" where
  "moved_files sourcePath targetPath files =
     foldl (\<lambda>acc (path, file). AList.update (moved_path sourcePath targetPath path) file acc) [] files"

lemma at_or_below_segs:
  "canonical src \<Longrightarrow> src \<noteq> [] \<Longrightarrow> canonical p \<Longrightarrow> at_or_below src p \<longleftrightarrow> prefix (segs src) (segs p)"
  by (auto simp: at_or_below_def prefix_slash_iff strict_prefix_def canonical_inj)

lemma segs_moved_path:
  assumes "canonical src" "src \<noteq> []" "canonical tgt" "tgt \<noteq> []" "canonical p"
  shows "segs (moved_path src tgt p) =
         (if prefix (segs src) (segs p) then segs tgt @ drop (length (segs src)) (segs p) else segs p)"
proof (cases "prefix (segs src) (segs p)")
  case True
  then obtain qs where qs: "segs p = segs src @ qs" by (auto simp: prefix_def)
  have ok: "list_all seg_ok (segs src)" "list_all seg_ok (segs tgt)" "list_all seg_ok qs"
    using assms qs by (auto simp: canonical_def)
  show ?thesis
  proof (cases "qs = []")
    case True
    then have "p = src" using qs by (simp add: canonical_inj)
    then show ?thesis by (simp add: moved_path_def at_or_below_def replacePathPrefix_def)
  next
    case False
    then have p: "p = src @ ''/'' @ unsegs qs"
      using qs assms(2) by (metis segs_eq_Nil unsegs_append unsegs_segs)
    then have "moved_path src tgt p = tgt @ ''/'' @ unsegs qs"
      by (simp add: moved_path_def at_or_below_def replacePathPrefix_def)
    also have "\<dots> = unsegs (segs tgt @ qs)"
      using False assms(4) by (simp add: unsegs_append)
    finally show ?thesis using ok qs by (simp add: segs_unsegs)
  qed
next
  case False
  then show ?thesis
    using assms at_or_below_segs [of src p] by (simp add: moved_path_def)
qed

lemma canonical_moved_path [path_intros]:
  assumes "canonical src" "src \<noteq> []" "canonical tgt" "tgt \<noteq> []" "canonical p"
  shows "canonical (moved_path src tgt p)"
  using assms segs_moved_path [OF assms] unfolding canonical_def
  by (auto simp: list_all_iff dest: in_set_dropD)

text \<open>
  \<open>rename_ok\<close> is what the callers have checked: neither end is the root, nothing is at the target
  but an empty directory, the target is not inside the source and not under a file.
\<close>

definition rename_ok :: "file_map \<Rightarrow> string list \<Rightarrow> string \<Rightarrow> string \<Rightarrow> bool" where
  "rename_ok files dirs src tgt \<longleftrightarrow>
     tree_ok files dirs \<and> canonical src \<and> src \<noteq> [] \<and> canonical tgt \<and> tgt \<noteq> [] \<and>
     tgt \<notin> set (map_keys files) \<and> \<not> pathHasChildren files dirs tgt \<and>
     src \<noteq> tgt \<and> \<not> prefix (src @ ''/'') tgt \<and>
     list_all (\<lambda>p. \<not> prefix (p @ ''/'') tgt) (map_keys files)"

abbreviation (input) rename_names :: "file_map \<Rightarrow> string list \<Rightarrow> string \<Rightarrow> string set" where
  "rename_names files dirs tgt \<equiv> (set dirs - {tgt}) \<union> fst ` set files"

lemma rename_names_ok:
  assumes "rename_ok files dirs src tgt" "p \<in> rename_names files dirs tgt"
  shows "canonical p" "\<not> prefix (segs tgt) (segs p)"
    and "segs (moved_path src tgt p) =
      (if prefix (segs src) (segs p) then segs tgt @ drop (length (segs src)) (segs p) else segs p)"
proof -
  note ok = assms(1) [unfolded rename_ok_def]
  show c: "canonical p" using ok assms(2) tree_ok_canonical by blast
  have "p \<noteq> tgt" using ok assms(2) by auto
  then show "\<not> prefix (segs tgt) (segs p)"
    using ok assms(2) pathHasChildren_segs [of files dirs tgt]
    by (auto simp: strict_prefix_def canonical_inj)
  show "segs (moved_path src tgt p) =
      (if prefix (segs src) (segs p) then segs tgt @ drop (length (segs src)) (segs p) else segs p)"
    using segs_moved_path [of src tgt p] ok c by blast
qed

lemma moved_below:
  assumes rn: "rename_ok files dirs src tgt"
    and p: "p \<in> rename_names files dirs tgt" and q: "q \<in> rename_names files dirs tgt"
    and top: "\<not> strict_prefix (segs p) (segs tgt)"
  shows "prefix (segs (moved_path src tgt p)) (segs (moved_path src tgt q)) \<longleftrightarrow>
         prefix (segs p) (segs q) \<and> (prefix (segs src) (segs q) \<longrightarrow> prefix (segs src) (segs p))"
proof -
  note segs_p = rename_names_ok(2,3) [OF rn p] and segs_q = rename_names_ok(2,3) [OF rn q]
  show ?thesis
  proof (cases "prefix (segs src) (segs p)")
    case True
    then obtain ps where ps: "segs p = segs src @ ps" by (auto simp: prefix_def)
    show ?thesis
    proof (cases "prefix (segs src) (segs q)")
      case True
      then obtain qs where "segs q = segs src @ qs" by (auto simp: prefix_def)
      with ps show ?thesis using segs_p segs_q by simp
    next
      case False
      then have "\<not> prefix (segs p) (segs q)"
        using ps by (metis append_prefixD)
      moreover have "\<not> prefix (segs tgt @ ps) (segs q)"
        using segs_q by (metis append_prefixD)
      ultimately show ?thesis using False ps segs_p segs_q by simp
    qed
  next
    case False
    show ?thesis
    proof (cases "prefix (segs src) (segs q)")
      case True
      have "\<not> prefix (segs p) (segs tgt @ rest)" for rest
        using segs_p top by (auto simp: prefix_append strict_prefix_def)
      with True False show ?thesis using segs_p segs_q by simp
    next
      case False
      with \<open>\<not> prefix (segs src) (segs p)\<close> show ?thesis using segs_p segs_q by simp
    qed
  qed
qed

lemma moved_inj:
  assumes rn: "rename_ok files dirs src tgt"
  shows "inj_on (moved_path src tgt) (rename_names files dirs tgt)"
proof (rule inj_onI)
  fix p q
  assume pq: "p \<in> rename_names files dirs tgt" "q \<in> rename_names files dirs tgt"
    and eq: "moved_path src tgt p = moved_path src tgt q"
  note segs_p = rename_names_ok(2,3) [OF rn pq(1)] and segs_q = rename_names_ok(2,3) [OF rn pq(2)]
  have "segs p = segs q"
    using segs_p segs_q eq by (auto simp: prefix_def split: if_splits; metis)
  then show "p = q" by (simp add: canonical_inj)
qed

lemma foldl_set_add:
  "inj_on f (set xs \<union> set ys) \<Longrightarrow> distinct (ys @ xs) \<Longrightarrow>
   foldl (\<lambda>acc x. set_add (f x) acc) (map f ys) xs = map f (ys @ xs)"
proof (induction xs arbitrary: ys)
  case (Cons x xs)
  then have "set_add (f x) (map f ys) = map f (ys @ [x])"
    by (auto simp: set_add_def inj_on_def)
  with Cons.IH [of "ys @ [x]"] Cons.prems show ?case by (simp add: Un_commute insert_commute)
qed simp

lemma foldl_update:
  "inj_on f (fst ` set xs \<union> fst ` set ys) \<Longrightarrow> distinct (map_keys ys @ map_keys xs) \<Longrightarrow>
   foldl (\<lambda>acc (p, v). AList.update (f p) v acc) (map (apfst f) ys) xs =
   map (apfst f) (ys @ xs)"
proof (induction xs arbitrary: ys)
  case (Cons x xs)
  have "fst x \<notin> fst ` set ys" using Cons.prems(2) by auto
  then have "f (fst x) \<notin> f ` fst ` set ys"
    by (subst inj_on_image_mem_iff [OF Cons.prems(1)]) auto
  then have new: "f (fst x) \<notin> fst ` set (map (apfst f) ys)"
    by (simp add: image_image)
  have "AList.update (f (fst x)) (snd x) (map (apfst f) ys) = map (apfst f) (ys @ [x])"
    by (subst update_new [OF new]) (simp add: apfst_def map_prod_def case_prod_beta)
  moreover have "inj_on f (fst ` set xs \<union> fst ` set (ys @ [x]))"
    using Cons.prems(1) by (rule inj_on_subset) auto
  moreover have "distinct (map_keys (ys @ [x]) @ map_keys xs)"
    using Cons.prems(2) by simp
  ultimately show ?case using Cons.IH [of "ys @ [x]"] by (simp add: case_prod_beta)
qed simp

lemma moved_dirs_eq:
  assumes rn: "rename_ok files dirs src tgt"
  shows "moved_dirs src tgt (removeAll tgt dirs) = map (moved_path src tgt) (removeAll tgt dirs)"
proof -
  have "inj_on (moved_path src tgt) (set (removeAll tgt dirs))"
    using moved_inj [OF rn] by (rule inj_on_subset) auto
  moreover have "distinct (removeAll tgt dirs)"
    using rn tree_okD(2) by (auto simp: rename_ok_def distinct_removeAll)
  ultimately show ?thesis
    using foldl_set_add [of "moved_path src tgt" "removeAll tgt dirs" "[]"] by (simp add: moved_dirs_def)
qed

lemma moved_files_eq:
  assumes rn: "rename_ok files dirs src tgt"
  shows "moved_files src tgt files = map (apfst (moved_path src tgt)) files"
proof -
  have "inj_on (moved_path src tgt) (fst ` set files)"
    using moved_inj [OF rn] by (rule inj_on_subset) auto
  moreover have "distinct (map_keys files)"
    using rn tree_okD(1) by (auto simp: rename_ok_def)
  ultimately show ?thesis
    using foldl_update [of "moved_path src tgt" files "[]"] by (simp add: moved_files_def)
qed

lemma tree_ok_rename:
  assumes rn: "rename_ok files dirs src tgt"
  shows "tree_ok (moved_files src tgt files) (moved_dirs src tgt (removeAll tgt dirs))"
proof -
  note ok = rn [unfolded rename_ok_def]
  have tree: "tree_ok files dirs" using ok by blast
  let ?mv = "moved_path src tgt" and ?names = "rename_names files dirs tgt"
  let ?files = "moved_files src tgt files" and ?dirs = "moved_dirs src tgt (removeAll tgt dirs)"
  have fs: "map_keys ?files = map ?mv (map_keys files)"
    by (simp add: moved_files_eq [OF rn])
  have keys: "fst ` set ?files = ?mv ` (fst ` set files)"
    using arg_cong [OF fs, of set] by (simp add: image_image)
  have ds: "set ?dirs = ?mv ` (set dirs - {tgt})"
    by (simp add: moved_dirs_eq [OF rn])
  have canon: "canonical (?mv p) \<and> ?mv p \<noteq> []" if "p \<in> ?names" "p \<noteq> []" for p
    using rename_names_ok [OF rn that(1)] that ok canonical_moved_path [of src tgt p]
    by (metis append_is_Nil_conv segs_eq_Nil)
  have root: "?mv [] = []" if "[] \<in> ?names"
    using rename_names_ok(3) [OF rn that] ok by simp
  show ?thesis
  proof (rule tree_okI)
    show "distinct (map_keys ?files)"
      unfolding fs distinct_map [of ?mv] using tree_okD(1) [OF tree] moved_inj [OF rn]
      by (auto intro: inj_on_subset)
    show "distinct ?dirs"
      unfolding moved_dirs_eq [OF rn] distinct_map [of ?mv] using tree_okD(2) [OF tree] moved_inj [OF rn]
      by (auto intro: inj_on_subset simp: distinct_removeAll)
    fix d assume "d \<in> set ?dirs"
    then obtain q where "q \<in> ?names" "d = ?mv q" using ds by blast
    then show "canonical d" using canon [of q] root by (cases "q = []") simp_all
  next
    fix p assume "p \<in> fst ` set ?files"
    then obtain p0 where p0: "p0 \<in> fst ` set files" "p = ?mv p0" using keys by auto
    then have pn: "p0 \<in> ?names" and p_ne: "p0 \<noteq> []" using tree_okD(3) [OF tree] by auto
    show c: "p \<noteq> [] \<and> canonical p" using canon pn p_ne p0 by simp
    have "\<not> prefix (p0 @ ''/'') tgt"
      using ok p0(1) unfolding list_all_iff set_map by blast
    then have top: "\<not> strict_prefix (segs p0) (segs tgt)"
      using ok prefix_slash_iff [OF rename_names_ok(1) [OF rn pn] _ p_ne, of tgt] by blast
    have "p \<noteq> ?mv q \<and> \<not> prefix (p @ ''/'') (?mv q)" if q: "q \<in> ?names" "q \<noteq> p0" for q
    proof -
      have "p \<noteq> ?mv q" using inj_onD [OF moved_inj [OF rn], of p0 q] pn q p0(2) by metis
      moreover have "\<not> prefix (segs p0) (segs q)"
        using pathHasChildren_segs [OF tree rename_names_ok(1) [OF rn pn] p_ne]
          tree_okD(7) [OF tree p0(1)] q by (auto simp: strict_prefix_def canonical_inj)
      moreover have "canonical (?mv q)"
        using q(1) canon [of q] root by (cases "q = []") simp_all
      ultimately show ?thesis
        using moved_below [OF rn pn q(1) top] c p0(2)
        by (auto simp: prefix_slash_iff strict_prefix_def)
    qed
    note other = this
    have "p0 \<notin> set dirs" using tree_okD(6) [OF tree p0(1)] .
    then have "p \<notin> set ?dirs" using ds other by auto
    moreover have "\<not> pathHasChildren ?files ?dirs p"
    proof
      assume "pathHasChildren ?files ?dirs p"
      then obtain q where q: "q \<in> ?names" "prefix (p @ ''/'') (?mv q)"
        unfolding pathHasChildren_iff ds keys by blast
      with other have "q = p0" by blast
      with q p0 show False by (auto simp: prefix_def)
    qed
    ultimately show "p \<notin> set ?dirs \<and> \<not> pathHasChildren ?files ?dirs p" by blast
  qed
qed

section \<open>A listing agrees with \<open>statPath\<close>\<close>

lemma child_split:
  assumes p: "canonical p" and q: "canonical q" and pre: "pre = (if p \<noteq> [] then p @ ''/'' else [])"
  shows "q \<noteq> [] \<and> prefix pre q \<longleftrightarrow> strict_prefix (segs p) (segs q)"
    and "segs q = segs p @ n # rest \<Longrightarrow> js_split (CHR ''/'') (drop (length pre) q) = n # rest"
proof -
  show "q \<noteq> [] \<and> prefix pre q \<longleftrightarrow> strict_prefix (segs p) (segs q)"
    using prefix_slash_iff [OF p q] pre
    by (cases "p = []"; cases "q = []") (auto simp: strict_prefix_def eq_commute [of "[]"])
  assume eq: "segs q = segs p @ n # rest"
  then have "list_all seg_ok (n # rest)" using q by (simp add: canonical_def)
  then have "js_split (CHR ''/'') (unsegs (n # rest)) = n # rest"
    by (metis list.distinct(1) segs_def segs_unsegs unsegs_nonempty)
  moreover have "drop (length pre) q = unsegs (n # rest)"
    using eq pre unsegs_append [of "segs p" "n # rest"]
    by (metis append_Nil append_assoc append_eq_conv_conj list.distinct(1) list.size(3) drop0
        segs_eq_Nil unsegs_segs)
  ultimately show "js_split (CHR ''/'') (drop (length pre) q) = n # rest" by simp
qed

lemma strict_prefix_split:
  assumes "strict_prefix xs ys"
  obtains n rest where "ys = xs @ n # rest"
  using assms by (metis prefix_def strict_prefix_def append.right_neutral list.exhaust)

lemma list_dir_canonical:
  assumes p: "canonical p" and q: "canonical q" and pre: "pre = (if p \<noteq> [] then p @ ''/'' else [])"
  shows "list_dir pre es q =
    (if strict_prefix (segs p) (segs q)
     then AList.update (segs q ! length (segs p)) FILETYPE_DIRECTORY es else es)"
proof (cases "strict_prefix (segs p) (segs q)")
  case True
  then obtain n rest where eq: "segs q = segs p @ n # rest" by (rule strict_prefix_split)
  note split = child_split(2) [OF p q pre eq]
  then have "drop (length pre) q \<noteq> []"
    using eq q by (auto simp: canonical_def seg_ok_def)
  then show ?thesis
    using True split eq child_split(1) [OF p q pre] by (auto simp: list_dir_def Let_def)
next
  case False
  then show ?thesis using child_split(1) [OF p q pre] by (auto simp: list_dir_def)
qed

lemma list_file_canonical:
  assumes p: "canonical p" and q: "canonical q" "q \<noteq> []"
    and pre: "pre = (if p \<noteq> [] then p @ ''/'' else [])"
  shows "list_file pre es q =
    (if strict_prefix (segs p) (segs q)
     then let n = segs q ! length (segs p) in
       if length (segs q) > length (segs p) + 1 then AList.update n FILETYPE_DIRECTORY es
       else if map_has es n then es else AList.update n FILETYPE_REGULAR_FILE es
     else es)"
proof (cases "strict_prefix (segs p) (segs q)")
  case True
  then obtain n rest where eq: "segs q = segs p @ n # rest" by (rule strict_prefix_split)
  note split = child_split(2) [OF p q(1) pre eq]
  moreover have "n \<noteq> []" using eq q by (auto simp: canonical_def seg_ok_def)
  ultimately show ?thesis
    using True eq child_split(1) [OF p q(1) pre] by (auto simp: list_file_def Let_def)
next
  case False
  then show ?thesis using child_split(1) [OF p q(1) pre] q by (auto simp: list_file_def)
qed

lemma prefix_child:
  "prefix (xs @ [n]) ys \<longleftrightarrow> strict_prefix xs ys \<and> ys ! length xs = n"
  by (auto simp: prefix_def elim: strict_prefix_split) 
    (metis append.right_neutral append_eq_append_conv list.distinct(1) prefixI strict_prefix_def)+

lemma strict_prefix_child:
  "strict_prefix (xs @ [n]) ys \<longleftrightarrow>
   strict_prefix xs ys \<and> ys ! length xs = n \<and> length ys > length xs + 1"
proof
  assume "strict_prefix (xs @ [n]) ys"
  then obtain m rest where "ys = (xs @ [n]) @ m # rest" by (rule strict_prefix_split)
  then show "strict_prefix xs ys \<and> ys ! length xs = n \<and> length ys > length xs + 1"
    by (simp add: strict_prefix_def nth_append)
next
  assume "strict_prefix xs ys \<and> ys ! length xs = n \<and> length ys > length xs + 1"
  then show "strict_prefix (xs @ [n]) ys"
    by (auto simp: prefix_child strict_prefix_def [of "xs @ [n]"] dest: arg_cong [where f = length])
qed

lemma map_of_list_dirs:
  assumes "canonical p" "pre = (if p \<noteq> [] then p @ ''/'' else [])" "list_all canonical ds"
  shows "map_of (foldl (list_dir pre) es ds) n =
    (if \<exists>q\<in>set ds. prefix (segs p @ [n]) (segs q) then Some FILETYPE_DIRECTORY else map_of es n)"
  using assms(3)
  by (induction ds arbitrary: es) (auto simp: list_dir_canonical [OF assms(1) _ assms(2)] prefix_child)

lemma map_of_list_file:
  assumes p: "canonical p" and q: "canonical q" "q \<noteq> []"
    and pre: "pre = (if p \<noteq> [] then p @ ''/'' else [])"
  shows "map_of (list_file pre es q) n =
    (if strict_prefix (segs p @ [n]) (segs q) then Some FILETYPE_DIRECTORY
     else if map_of es n \<noteq> None then map_of es n
     else if segs q = segs p @ [n] then Some FILETYPE_REGULAR_FILE else None)"
proof (cases "strict_prefix (segs p) (segs q)")
  case True
  then obtain m rest where "segs q = segs p @ m # rest" by (rule strict_prefix_split)
  with True show ?thesis
    by (cases "rest = []")
      (auto simp: list_file_canonical [OF p q pre] strict_prefix_child Let_def map_has_def)
next
  case False
  then show ?thesis
    by (auto simp: list_file_canonical [OF p q pre] strict_prefix_child) (simp add: strict_prefix_def)
qed

lemma map_of_list_files:
  assumes "canonical p" "pre = (if p \<noteq> [] then p @ ''/'' else [])"
    and "list_all (\<lambda>q. q \<noteq> [] \<and> canonical q) qs"
  shows "map_of (foldl (list_file pre) es qs) n =
    (if \<exists>q\<in>set qs. strict_prefix (segs p @ [n]) (segs q) then Some FILETYPE_DIRECTORY
     else if map_of es n \<noteq> None then map_of es n
     else if \<exists>q\<in>set qs. segs q = segs p @ [n] then Some FILETYPE_REGULAR_FILE else None)"
  using assms(3)
proof (induction qs arbitrary: es)
  case (Cons q qs)
  then have q: "canonical q" "q \<noteq> []" by auto
  show ?case
    using Cons.IH [of "list_file pre es q"] Cons.prems
    by (simp add: map_of_list_file [OF assms(1) q assms(2)])
qed simp

lemma distinct_list_dirs:
  "distinct (map_keys es) \<Longrightarrow> distinct (map_keys (foldl (list_dir pre) es ds))"
  by (induction ds arbitrary: es) (simp_all add: list_dir_def Let_def)

lemma distinct_list_files:
  "distinct (map_keys es) \<Longrightarrow> distinct (map_keys (foldl (list_file pre) es qs))"
  by (induction qs arbitrary: es) (simp_all add: list_file_def Let_def)

lemma distinct_sort_key:
  assumes "distinct (map_keys es)"
  shows "distinct (map_keys (sort_key k es))"
proof -
  have "mset (map_keys (sort_key k es)) = mset (map_keys es)" by simp
  then show ?thesis using assms mset_eq_imp_distinct_iff by blast
qed

lemma map_of_sort_key:
  assumes "distinct (map_keys es)"
  shows "map_of (sort_key k es) = map_of es"
  using assms distinct_sort_key [OF assms, of k] by (metis map_of_inject_set set_sort)

lemma distinct_directoryEntries: "distinct (map_keys (directoryEntries files dirs p))"
  unfolding directoryEntries_def Let_def
  by (intro distinct_sort_key distinct_list_files distinct_list_dirs) simp

lemma map_of_directoryEntries:
  assumes tree: "tree_ok files dirs" and p: "canonical p"
  shows "map_of (directoryEntries files dirs p) n =
    (if (\<exists>q\<in>set dirs. prefix (segs p @ [n]) (segs q)) \<or>
        (\<exists>q\<in>fst ` set files. strict_prefix (segs p @ [n]) (segs q)) then Some FILETYPE_DIRECTORY
     else if \<exists>q\<in>fst ` set files. segs q = segs p @ [n] then Some FILETYPE_REGULAR_FILE else None)"
proof -
  define pre where "pre = (if p \<noteq> [] then p @ ''/'' else [])"
  have "list_all canonical dirs" "list_all (\<lambda>q. q \<noteq> [] \<and> canonical q) (map_keys files)"
    using tree by (auto simp: tree_ok_def)
  moreover have "map_of (directoryEntries files dirs p) =
      map_of (foldl (list_file pre) (foldl (list_dir pre) [] dirs) (map_keys files))"
    unfolding directoryEntries_def Let_def pre_def
    by (intro map_of_sort_key distinct_list_files distinct_list_dirs) simp
  ultimately show ?thesis
    by (simp add: map_of_list_files [OF p pre_def] map_of_list_dirs [OF p pre_def])
qed

lemma segs_child: "canonical p \<Longrightarrow> seg_ok n \<Longrightarrow> segs (path_join p n) = segs p @ [n]"
  using segs_path_join [of p n] segs_unsegs [of "[n]"] canonical_unsegs [of "[n]"]
  by (auto simp: seg_ok_def)

lemma canonical_child: "canonical p \<Longrightarrow> seg_ok n \<Longrightarrow> canonical (path_join p n)"
  using segs_child [of p n] by (simp add: canonical_def)

text \<open>C29: a directory listing and \<open>statPath\<close> agree: on a well-formed tree the entry of every
  possible child name has the type that \<open>statPath\<close> reports for the child's path, and there is no
  entry exactly when \<open>statPath\<close> fails.\<close>

theorem directoryEntries_statPath:
  assumes tree: "tree_ok files dirs" and p: "canonical p" and n: "seg_ok n"
  shows "map_of (directoryEntries files dirs p) n =
    (case statPath recs files dirs (path_join p n) of
       Inl e \<Rightarrow> None | Inr st \<Rightarrow> Some (st_filetype st))"
proof -
  let ?c = "path_join p n"
  have c: "canonical ?c" "?c \<noteq> []" "segs ?c = segs p @ [n]"
    using canonical_child [OF p n] segs_child [OF p n] by (auto simp flip: segs_eq_Nil)
  have eq: "segs q = segs p @ [n] \<longleftrightarrow> q = ?c" for q
    using canonical_inj [of q ?c] c(3) by simp
  have or_eq: "prefix (segs p @ [n]) (segs q) \<longleftrightarrow> q = ?c \<or> strict_prefix (segs p @ [n]) (segs q)" for q
    using eq [of q] unfolding strict_prefix_def by (cases "segs q = segs p @ [n]") simp_all
  have "(\<exists>q\<in>set dirs. prefix (segs p @ [n]) (segs q)) \<longleftrightarrow>
      ?c \<in> set dirs \<or> (\<exists>q\<in>set dirs. strict_prefix (segs p @ [n]) (segs q))"
    unfolding or_eq by blast
  then have "(\<exists>q\<in>set dirs. prefix (segs p @ [n]) (segs q)) \<or>
        (\<exists>q\<in>fst ` set files. strict_prefix (segs p @ [n]) (segs q)) \<longleftrightarrow>
        ?c \<in> set dirs \<or> pathHasChildren files dirs ?c"
    unfolding pathHasChildren_segs [OF tree c(1,2)] c(3) by (simp only: bex_Un disj_assoc)
  moreover have "(\<exists>q\<in>fst ` set files. segs q = segs p @ [n]) \<longleftrightarrow> ?c \<in> fst ` set files"
    unfolding eq by metis
  ultimately show ?thesis
    unfolding map_of_directoryEntries [OF tree p]
    using map_of_eq_None_iff [of files ?c] by (cases "map_of files ?c") (simp_all add: statPath_def)
qed

theorem directoryEntries_statPath_witness:
  "map_of (directoryEntries [(''a/b'', 0), (''c'', 1)] [''d''] []) ''a'' = Some FILETYPE_DIRECTORY"
proof -
  have "tree_ok [(''a/b'', 0), (''c'', 1)] [''d'']"
    by (simp add: tree_ok_def pathHasChildren_def canonical_def segs_def seg_ok_def)
  from directoryEntries_statPath [OF this, of "[]" "''a''" "\<lambda>_. \<lparr>r_bytes = [], r_path = None, r_fallback = False, r_mtime = None\<rparr>"]
  show ?thesis
    by (simp add: seg_ok_def statPath_def pathHasChildren_def path_join_def)
qed

lemma utf16_weight_inj: "inj utf16_weight"
proof (rule injI)
  fix c d :: char
  assume "utf16_weight c = utf16_weight d"
  moreover have "a = b" if "(if 240 \<le> a \<and> a \<le> 244 then a - 2 else if a = 238 \<or> a = 239 then a + 5 else a) =
      (if 240 \<le> b \<and> b \<le> 244 then b - 2 else if b = 238 \<or> b = 239 then b + 5 else b)" for a b :: nat
    using that by (auto split: if_splits)
  ultimately have "of_char c = (of_char d :: nat)"
    unfolding utf16_weight_def Let_def by blast
  then show "c = d" by simp
qed

lemma string_order_key_inj: "string_order_key s = string_order_key t \<longleftrightarrow> s = t"
  unfolding string_order_key_def by (rule inj_map_eq_map [OF utf16_weight_inj])

lemma compareStrings_zero: "compareStrings s t = 0 \<longleftrightarrow> s = t"
  by (auto simp: compareStrings_def string_order_key_inj [symmetric])

lemma directoryEntries_name:
  assumes "tree_ok files dirs" "canonical p" "n \<in> set (map_keys (directoryEntries files dirs p))"
  shows "seg_ok n"
proof -
  obtain t where "map_of (directoryEntries files dirs p) n = Some t"
    using assms(3) map_of_eq_None_iff [of "directoryEntries files dirs p" n] by fastforce
  then have "\<exists>q\<in>set dirs \<union> fst ` set files. prefix (segs p @ [n]) (segs q)"
    unfolding map_of_directoryEntries [OF assms(1,2)] strict_prefix_def
    by (metis (no_types, lifting) UnI1 UnI2 option.distinct(1) prefix_order.refl)
  then obtain q where "q \<in> set dirs \<union> fst ` set files" "prefix (segs p @ [n]) (segs q)" by blast
  then have "list_all seg_ok (segs q)" "prefix (segs p @ [n]) (segs q)"
    using tree_ok_canonical [OF assms(1)] by (auto simp: canonical_def)
  then show ?thesis by (auto simp: prefix_def)
qed

lemma sorted_strict_keys:
  assumes "distinct ns" "sorted (map string_order_key ns)"
  shows "sorted_wrt (\<lambda>m n. compareStrings m n = -1) ns"
proof -
  have "sorted_wrt (\<lambda>m n. string_order_key m \<le> string_order_key n \<and> m \<noteq> n) ns"
    using assms by (induction ns) auto
  then show ?thesis
    by (rule sorted_wrt_mono_rel [rotated])
      (auto simp: compareStrings_def string_order_key_inj order_less_le)
qed

text \<open>A listing has each name once, in increasing order of \<open>compareStrings\<close>, and every name is a
  proper path segment.\<close>

theorem directoryEntries_sorted:
  assumes tree: "tree_ok files dirs" and p: "canonical p"
  shows "distinct (map_keys (directoryEntries files dirs p)) \<and>
    sorted_wrt (\<lambda>m n. compareStrings m n = -1) (map_keys (directoryEntries files dirs p)) \<and>
    list_all seg_ok (map_keys (directoryEntries files dirs p))"
proof (intro conjI)
  show d: "distinct (map_keys (directoryEntries files dirs p))" by (rule distinct_directoryEntries)
  have "sorted (map string_order_key (map_keys (directoryEntries files dirs p)))"
    using sorted_sort_key [of "\<lambda>e. string_order_key (fst e)"]
    by (simp add: directoryEntries_def Let_def o_def)
  with d show "sorted_wrt (\<lambda>m n. compareStrings m n = -1) (map_keys (directoryEntries files dirs p))"
    by (rule sorted_strict_keys)
  show "list_all seg_ok (map_keys (directoryEntries files dirs p))"
    unfolding list_all_iff using directoryEntries_name [OF tree p] by blast
qed

theorem directoryEntries_sorted_witness:
  "sorted_wrt (\<lambda>m n. compareStrings m n = -1)
     (map_keys (directoryEntries [(''a/b'', 0), (''c'', 1)] [''d''] []))"
  by (rule directoryEntries_sorted [THEN conjunct2, THEN conjunct1])
    (simp_all add: tree_ok_def pathHasChildren_def canonical_def segs_def seg_ok_def)

section \<open>The pages of \<open>fd_readdir\<close>\<close>

definition dirent_record :: "string \<times> int \<Rightarrow> int \<Rightarrow> byte list" where
  "dirent_record entry index = direntBytes entry (index + 1) @ encodeText (fst entry)"

fun listing_bytes :: "(string \<times> int) list \<Rightarrow> int \<Rightarrow> byte list" where
  "listing_bytes [] index = []"
| "listing_bytes (entry # rest) index = dirent_record entry index @ listing_bytes rest (index + 1)"

lemma length_direntBytes [simp]: "length (direntBytes entry c) = 24"
  by (simp add: direntBytes_def)

lemma copyPartial_eq:
  "off \<le> length out \<Longrightarrow>
   copyPartial src out off =
     (let k = min (length src) (length out - off) in (k, take off out @ take k src @ drop (off + k) out))"
  by (auto simp: copyPartial_def Let_def min_def of_nat_diff nat_diff_distrib)

lemma readdir_fill_eq:
  "used \<le> length out \<Longrightarrow>
   readdir_fill es i out used =
     (let k = min (length (listing_bytes es i)) (length out - used) in
      (used + k, take used out @ take k (listing_bytes es i) @ drop (used + k) out))"
proof (induction es arbitrary: i out used)
  case (Cons e es)
  let ?d = "direntBytes e (i + 1)" and ?n = "encodeText (fst e)" and ?r = "listing_bytes es (i + 1)"
  let ?all = "?d @ ?n @ ?r"
  define k1 where "k1 = min (length ?d) (length out - used)"
  define out1 where "out1 = take used out @ take k1 ?d @ drop (used + k1) out"
  have one: "copyPartial ?d out used = (k1, out1)" "length out1 = length out"
    "used + k1 \<le> length out"
    using Cons.prems by (auto simp: copyPartial_eq k1_def out1_def Let_def)
  show ?case
  proof (cases "k1 = length ?d")
    case False
    then have "k1 = length out - used" "k1 < length ?d" by (auto simp: k1_def min_def split: if_splits)
    then show ?thesis using False one Cons.prems by (simp add: Let_def dirent_record_def out1_def)
  next
    case True
    define k2 where "k2 = min (length ?n) (length out1 - (used + k1))"
    define out2 where "out2 = take (used + k1) out1 @ take k2 ?n @ drop (used + k1 + k2) out1"
    have two: "copyPartial ?n out1 (used + k1) = (k2, out2)" "length out2 = length out"
      "used + k1 + k2 \<le> length out"
      using one by (auto simp: copyPartial_eq k2_def out2_def Let_def)
    have out1: "out1 = take used out @ ?d @ drop (used + k1) out" using True by (simp add: out1_def)
    have out2: "out2 = take used out @ ?d @ take k2 ?n @ drop (used + k1 + k2) out"
      using True one Cons.prems by (simp add: out2_def out1 ac_simps)
    show ?thesis
    proof (cases "k2 = length ?n")
      case False
      then have "k2 = length out - (used + k1)" "k2 < length ?n"
        using one(2) by (auto simp: k2_def min_def split: if_splits)
      then show ?thesis
        using False True one two Cons.prems by (simp add: Let_def dirent_record_def out2)
    next
      case all: True
      have "readdir_fill (e # es) i out used = readdir_fill es (i + 1) out2 (used + k1 + k2)"
        using one two True all by (simp add: Let_def)
      also have "\<dots> = (let k = min (length ?r) (length out2 - (used + k1 + k2)) in
          (used + k1 + k2 + k, take (used + k1 + k2) out2 @ take k ?r @ drop (used + k1 + k2 + k) out2))"
        using Cons.IH two by simp
      also have "\<dots> = (let k = min (length ?all) (length out - used) in
          (used + k, take used out @ take k ?all @ drop (used + k) out))"
        using True all two Cons.prems by (auto simp: Let_def out2 min_def ac_simps)
      finally show ?thesis by (simp add: dirent_record_def)
    qed
  qed
qed (simp add: Let_def)

text \<open>One call of \<open>fd_readdir\<close> puts into the guest's buffer the longest prefix that fits of the
  entry records from the cookie on, leaves the rest of the buffer alone, and reports its length.\<close>

theorem readdir_fill_page:
  "readdir_fill es i out 0 =
     (min (length (listing_bytes es i)) (length out),
      take (length out) (listing_bytes es i) @ drop (length (listing_bytes es i)) out)"
  by (simp add: readdir_fill_eq Let_def min_def)

end
