(* ===== verification/Host_Monad.thy ===== *)
theory Host_Monad imports Js_Prelude begin

text \<open>
  How a host function runs: on a state, to a value or a thrown exception, with the state it leaves
  in both cases (an exception does not undo what was done before it). The weakest precondition
  \<open>wp m Q E s\<close> says that \<open>m\<close> started in \<open>s\<close> ends with \<open>Q\<close> on its value and state or with \<open>E\<close> on its
  exception and state; \<open>keeps I m\<close> says that \<open>m\<close> keeps an invariant in both cases. Each primitive has
  one rule for each. The locale \<open>machine\<close> lifts an invariant of single calls to all reachable states.
\<close>

type_synonym ('s, 'e, 'a) host = "'s \<Rightarrow> ('e + 'a) \<times> 's"

definition ret :: "'a \<Rightarrow> ('s, 'e, 'a) host" where
  "ret x = (\<lambda>s. (Inr x, s))"

definition throw :: "'e \<Rightarrow> ('s, 'e, 'a) host" where
  "throw e = (\<lambda>s. (Inl e, s))"

definition bindM :: "('s, 'e, 'a) host \<Rightarrow> ('a \<Rightarrow> ('s, 'e, 'b) host) \<Rightarrow> ('s, 'e, 'b) host" where
  "bindM m f = (\<lambda>s. case m s of (Inl e, s') \<Rightarrow> (Inl e, s') | (Inr x, s') \<Rightarrow> f x s')"

definition seqM :: "('s, 'e, 'a) host \<Rightarrow> ('s, 'e, 'b) host \<Rightarrow> ('s, 'e, 'b) host" where
  "seqM m n = bindM m (\<lambda>_. n)"

definition with_state :: "('s \<Rightarrow> ('s, 'e, 'a) host) \<Rightarrow> ('s, 'e, 'a) host" where
  "with_state f = (\<lambda>s. f s s)"

definition modifyM :: "('s \<Rightarrow> 's) \<Rightarrow> ('s, 'e, unit) host" where
  "modifyM f = (\<lambda>s. (Inr (), f s))"

section \<open>Running\<close>

lemma run_ret [simp]: "ret x s = (Inr x, s)"
  by (simp add: ret_def)

lemma run_throw [simp]: "throw e s = (Inl e, s)"
  by (simp add: throw_def)

lemma run_modify [simp]: "modifyM f s = (Inr (), f s)"
  by (simp add: modifyM_def)

lemma run_with_state [simp]: "with_state f s = f s s"
  by (simp add: with_state_def)

lemma run_bind: "bindM m f s = (case m s of (Inl e, s') \<Rightarrow> (Inl e, s') | (Inr x, s') \<Rightarrow> f x s')"
  by (simp add: bindM_def)

lemma run_seq: "seqM m n s = (case m s of (Inl e, s') \<Rightarrow> (Inl e, s') | (Inr x, s') \<Rightarrow> n s')"
  by (simp add: seqM_def bindM_def)

lemma bind_Inr [simp]: "m s = (Inr x, s') \<Longrightarrow> bindM m f s = f x s'"
  by (simp add: run_bind)

lemma bind_Inl [simp]: "m s = (Inl e, s') \<Longrightarrow> bindM m f s = (Inl e, s')"
  by (simp add: run_bind)

lemma seq_Inr [simp]: "m s = (Inr x, s') \<Longrightarrow> seqM m n s = n s'"
  by (simp add: run_seq)

lemma seq_Inl [simp]: "m s = (Inl e, s') \<Longrightarrow> seqM m n s = (Inl e, s')"
  by (simp add: run_seq)

section \<open>Weakest preconditions\<close>

definition wp ::
  "('s, 'e, 'a) host \<Rightarrow> ('a \<Rightarrow> 's \<Rightarrow> bool) \<Rightarrow> ('e \<Rightarrow> 's \<Rightarrow> bool) \<Rightarrow> 's \<Rightarrow> bool" where
  "wp m Q E s \<longleftrightarrow> (case m s of (Inl e, s') \<Rightarrow> E e s' | (Inr x, s') \<Rightarrow> Q x s')"

named_theorems wp_simps \<open>weakest preconditions of the primitives\<close>

lemma wp_ret [wp_simps]: "wp (ret x) Q E = Q x"
  by (rule ext) (simp add: wp_def)

lemma wp_throw [wp_simps]: "wp (throw e) Q E = E e"
  by (rule ext) (simp add: wp_def)

lemma wp_modify [wp_simps]: "wp (modifyM f) Q E = (\<lambda>s. Q () (f s))"
  by (rule ext) (simp add: wp_def)

lemma wp_with_state [wp_simps]: "wp (with_state f) Q E = (\<lambda>s. wp (f s) Q E s)"
  by (rule ext) (simp add: wp_def)

lemma wp_bind [wp_simps]: "wp (bindM m f) Q E = wp m (\<lambda>x. wp (f x) Q E) E"
  by (rule ext) (auto simp: wp_def run_bind split: prod.splits sum.splits)

lemma wp_seq [wp_simps]: "wp (seqM m n) Q E = wp m (\<lambda>_. wp n Q E) E"
  by (simp add: seqM_def wp_bind)

lemma wp_mono:
  "wp m Q E s \<Longrightarrow> (\<And>x s'. Q x s' \<Longrightarrow> Q' x s') \<Longrightarrow> (\<And>e s'. E e s' \<Longrightarrow> E' e s') \<Longrightarrow> wp m Q' E' s"
  by (auto simp: wp_def split: prod.splits sum.splits)

lemma wp_conj: "wp m Q E s \<Longrightarrow> wp m Q' E' s \<Longrightarrow> wp m (\<lambda>x s. Q x s \<and> Q' x s) (\<lambda>e s. E e s \<and> E' e s) s"
  by (auto simp: wp_def split: prod.splits sum.splits)

lemma wp_state: "wp m (\<lambda>_. P) (\<lambda>_. P) s \<longleftrightarrow> P (snd (m s))"
  by (auto simp: wp_def split: prod.splits sum.splits)

section \<open>Invariants\<close>

definition keeps :: "('s \<Rightarrow> bool) \<Rightarrow> ('s, 'e, 'a) host \<Rightarrow> bool" where
  "keeps I m \<longleftrightarrow> (\<forall>s. I s \<longrightarrow> I (snd (m s)))"

named_theorems keeps_intros \<open>a host function keeps an invariant\<close>

lemma keepsD: "keeps I m \<Longrightarrow> I s \<Longrightarrow> I (snd (m s))"
  by (simp add: keeps_def)

lemma keepsI_wp: "(\<And>s. I s \<Longrightarrow> wp m (\<lambda>_. I) (\<lambda>_. I) s) \<Longrightarrow> keeps I m"
  by (simp add: keeps_def wp_state)

lemma keeps_wp: "keeps I m \<Longrightarrow> I s \<Longrightarrow> wp m (\<lambda>_. I) (\<lambda>_. I) s"
  by (simp add: keeps_def wp_state)

lemma keeps_ret [keeps_intros]: "keeps I (ret x)"
  by (simp add: keeps_def)

lemma keeps_throw [keeps_intros]: "keeps I (throw e)"
  by (simp add: keeps_def)

lemma keeps_bind [keeps_intros]: "keeps I m \<Longrightarrow> (\<And>x. keeps I (f x)) \<Longrightarrow> keeps I (bindM m f)"
  by (auto simp: keeps_def run_bind split: prod.splits sum.splits)

lemma keeps_seq [keeps_intros]: "keeps I m \<Longrightarrow> keeps I n \<Longrightarrow> keeps I (seqM m n)"
  by (simp add: seqM_def keeps_bind)

lemma keeps_with_state: "(\<And>s. I s \<Longrightarrow> keeps I (f s)) \<Longrightarrow> keeps I (with_state f)"
  by (simp add: keeps_def)

lemma keeps_modify: "(\<And>s. I s \<Longrightarrow> I (f s)) \<Longrightarrow> keeps I (modifyM f)"
  by (simp add: keeps_def)

lemma keeps_if [keeps_intros]: "(b \<Longrightarrow> keeps I m) \<Longrightarrow> (\<not> b \<Longrightarrow> keeps I n) \<Longrightarrow> keeps I (if b then m else n)"
  by simp

lemma keeps_option [keeps_intros]:
  "keeps I m \<Longrightarrow> (\<And>x. v = Some x \<Longrightarrow> keeps I (f x)) \<Longrightarrow> keeps I (case v of None \<Rightarrow> m | Some x \<Rightarrow> f x)"
  by (cases v) simp_all

lemma keeps_sum [keeps_intros]:
  "(\<And>x. v = Inl x \<Longrightarrow> keeps I (g x)) \<Longrightarrow> (\<And>x. v = Inr x \<Longrightarrow> keeps I (f x)) \<Longrightarrow>
   keeps I (case v of Inl x \<Rightarrow> g x | Inr x \<Rightarrow> f x)"
  by (cases v) simp_all

lemma keeps_prod [keeps_intros]:
  "(\<And>x y. v = (x, y) \<Longrightarrow> keeps I (f x y)) \<Longrightarrow> keeps I (case v of (x, y) \<Rightarrow> f x y)"
  by (cases v) simp_all

section \<open>Machines driven by calls\<close>

text \<open>A client that makes one call after another: whatever it calls, an invariant of the single
  calls holds in every state it can reach.\<close>

fun run_calls :: "('call \<Rightarrow> ('s, 'e, 'a) host) \<Rightarrow> 'call list \<Rightarrow> 's \<Rightarrow> 's" where
  "run_calls step [] s = s"
| "run_calls step (c # cs) s = run_calls step cs (snd (step c s))"

lemma run_calls_append: "run_calls step (cs @ ds) s = run_calls step ds (run_calls step cs s)"
  by (induction cs arbitrary: s) simp_all

locale machine =
  fixes step :: "'call \<Rightarrow> ('s, 'e, 'a) host" and inv :: "'s \<Rightarrow> bool"
  assumes step_inv: "inv s \<Longrightarrow> inv (snd (step c s))"
begin

lemma run_calls_inv: "inv s \<Longrightarrow> inv (run_calls step cs s)"
  by (induction cs arbitrary: s) (simp_all add: step_inv)

lemma call_keeps: "keeps inv (step c)"
  by (simp add: keeps_def step_inv)

end

end
