(* ===== verification/Runtime_State.thy ===== *)
theory Runtime_State imports Wasi_Tree Host_Monad begin

text \<open>
  The state of \<open>WasiPreview1Runtime\<close> (\<open>apps/web/src/wasi-module.js\<close>, constructor at line 1061) and
  the functions that read it. JavaScript objects the code shares or compares by identity (file
  records, pipes, offset cells) are references into stores; the three trees, the descriptor table
  and its flags are maps. A descriptor is one record for the four kinds the code builds, because the
  code reads a field of any descriptor and gets \<open>undefined\<close> where a kind lacks it.
  A read-only workspace has \<open>dirs = null\<close> in the source, which every function that reads it treats
  like the empty set.
\<close>

section \<open>Descriptors and the runtime\<close>

datatype exn = RangeError | TypeError | AbortError | WasiProcExit int | RuntimeError string

datatype fkind = RegularFile | Directory | Stdio | Pipe
datatype direction = ReadEnd | WriteEnd

text \<open>\<open>file.offset\<close>: missing, a value of the descriptor's own, or (after a duplication has called
  \<open>attachOpenFileOffset\<close>) an accessor on a shared cell.\<close>

datatype offset_field = NoOffset | Own int | Shared nat

record descr =
  d_kind :: fkind
  d_mount :: "mount option"
  d_path :: "string option"
  d_record :: nat
  d_rights :: int
  d_inheriting :: "int option"
  d_fdflags :: int
  d_writable :: bool
  d_offset :: offset_field
  d_preopenPath :: "string option"
  d_stdioFd :: int
  d_direction :: direction
  d_pipe :: nat

record pipe_state =
  p_bytes :: "byte list"
  p_readers :: int
  p_writers :: int

record runtime =
  memory :: mem
  aborted :: bool
  rt_args :: "string list"
  rt_env :: "string list"
  rt_cwd :: string
  ws_writable :: bool
  ws_dirty :: bool
  ws_files :: file_map
  ws_dirs :: "string list"
  sc_files :: file_map
  sc_dirs :: "string list"
  pr_files :: file_map
  pr_dirs :: "string list"
  packageRootFd :: "int option"
  openFiles :: "(int \<times> descr) list"
  fdFlagsExt :: "(int \<times> int) list"
  nextFileFd :: int
  stdin_bytes :: "byte list"
  stdinOffset :: int
  written :: "(int \<times> byte list) list"
  recs :: record_store
  offsets :: "nat \<Rightarrow> int"
  pipes :: "nat \<Rightarrow> pipe_state"
  nextRef :: nat
  arrayLimit :: int

type_synonym 'a wasi = "(runtime, exn, 'a) host"

text \<open>The descriptors the code builds, field by field; what an object literal leaves out is
  \<open>undefined\<close> and never read before a test of the kind.\<close>

definition blank_descr :: descr where
  "blank_descr =
     \<lparr>d_kind = RegularFile, d_mount = None, d_path = None, d_record = 0, d_rights = 0,
      d_inheriting = None, d_fdflags = 0, d_writable = False, d_offset = NoOffset,
      d_preopenPath = None, d_stdioFd = 0, d_direction = ReadEnd, d_pipe = 0\<rparr>"

definition file_descr :: "mount option \<Rightarrow> string \<Rightarrow> nat \<Rightarrow> int \<Rightarrow> int \<Rightarrow> bool \<Rightarrow> int \<Rightarrow> descr" where
  "file_descr mnt path record rights fdflags writable offset =
     blank_descr\<lparr>d_mount := mnt, d_path := Some path, d_record := record, d_rights := rights,
       d_fdflags := fdflags, d_writable := writable, d_offset := Own offset\<rparr>"

definition dir_descr :: "mount option \<Rightarrow> string \<Rightarrow> int \<Rightarrow> int \<Rightarrow> int \<Rightarrow> descr" where
  "dir_descr mnt path rights inheriting fdflags =
     blank_descr\<lparr>d_kind := Directory, d_mount := mnt, d_path := Some path, d_rights := rights,
       d_inheriting := Some inheriting, d_fdflags := fdflags, d_offset := Own 0\<rparr>"

definition preopen_descr :: "mount \<Rightarrow> string \<Rightarrow> int \<Rightarrow> int \<Rightarrow> descr" where
  "preopen_descr mnt preopen rights inheriting =
     (dir_descr (Some mnt) [] rights inheriting 0)\<lparr>d_preopenPath := Some preopen\<rparr>"

definition stdio_descr :: "int \<Rightarrow> int \<Rightarrow> descr" where
  "stdio_descr fd rights = blank_descr\<lparr>d_kind := Stdio, d_rights := rights, d_stdioFd := fd\<rparr>"

definition pipe_descr :: "direction \<Rightarrow> nat \<Rightarrow> int \<Rightarrow> bool \<Rightarrow> descr" where
  "pipe_descr dir pipe rights writable =
     blank_descr\<lparr>d_kind := Pipe, d_direction := dir, d_pipe := pipe, d_rights := rights,
       d_writable := writable\<rparr>"

lemmas descr_defs = file_descr_def dir_descr_def preopen_descr_def stdio_descr_def pipe_descr_def
  blank_descr_def

abbreviation openFile :: "runtime \<Rightarrow> int \<Rightarrow> descr option" where
  "openFile s fd \<equiv> map_of (openFiles s) fd"

section \<open>What a descriptor allows\<close>

definition isOpenDirectory :: "descr option \<Rightarrow> bool" where
  "isOpenDirectory file = (case file of None \<Rightarrow> False | Some f \<Rightarrow> d_kind f = Directory)"

definition isOpenStdio :: "descr option \<Rightarrow> bool" where
  "isOpenStdio file = (case file of None \<Rightarrow> False | Some f \<Rightarrow> d_kind f = Stdio)"

definition isOpenPipe :: "descr option \<Rightarrow> bool" where
  "isOpenPipe file = (case file of None \<Rightarrow> False | Some f \<Rightarrow> d_kind f = Pipe)"

definition isOpenScratchDirectory :: "descr option \<Rightarrow> bool" where
  "isOpenScratchDirectory file =
     (case file of None \<Rightarrow> False
      | Some f \<Rightarrow> d_kind f = Directory \<and> (d_mount f = None \<or> d_mount f = Some Scratch))"

definition isOpenWorkspaceDirectory :: "descr option \<Rightarrow> bool" where
  "isOpenWorkspaceDirectory file =
     (case file of None \<Rightarrow> False | Some f \<Rightarrow> d_kind f = Directory \<and> d_mount f = Some Workspace)"

definition isOpenPackageRootDirectory :: "descr option \<Rightarrow> bool" where
  "isOpenPackageRootDirectory file =
     (case file of None \<Rightarrow> False | Some f \<Rightarrow> d_kind f = Directory \<and> d_mount f = Some PackageRoot)"

definition canWriteFile :: "descr \<Rightarrow> bool" where
  "canWriteFile f \<longleftrightarrow> d_writable f \<and> d_rights f AND RIGHT_FD_WRITE \<noteq> 0"

definition canReadFile :: "descr \<Rightarrow> bool" where
  "canReadFile f \<longleftrightarrow> d_rights f AND RIGHT_FD_READ \<noteq> 0"

definition canResizeFile :: "descr \<Rightarrow> bool" where
  "canResizeFile f \<longleftrightarrow> d_writable f \<and> d_rights f AND RIGHT_FD_FILESTAT_SET_SIZE \<noteq> 0"

definition canSetFileTimes :: "descr \<Rightarrow> bool" where
  "canSetFileTimes f \<longleftrightarrow> d_writable f \<and> d_rights f AND RIGHT_FD_FILESTAT_SET_TIMES \<noteq> 0"

definition canAllocateFile :: "descr \<Rightarrow> bool" where
  "canAllocateFile f \<longleftrightarrow> d_writable f \<and> d_rights f AND RIGHT_FD_ALLOCATE \<noteq> 0"

lemmas descr_kind_defs = isOpenDirectory_def isOpenStdio_def isOpenPipe_def
  isOpenScratchDirectory_def isOpenWorkspaceDirectory_def isOpenPackageRootDirectory_def

section \<open>Access to the guest's memory\<close>

definition throwIfAborted :: "unit wasi" where
  "throwIfAborted = with_state (\<lambda>s. if aborted s then throw AbortError else ret ())"

definition set_memory :: "int \<Rightarrow> byte list \<Rightarrow> unit wasi" where
  "set_memory ptr bs = with_state (\<lambda>s.
     case set_bytes (memory s) ptr bs of
       None \<Rightarrow> throw RangeError
     | Some m \<Rightarrow> modifyM (memory_update (\<lambda>_. m)))"

definition get_int :: "int \<Rightarrow> nat \<Rightarrow> int wasi" where
  "get_int ptr n = with_state (\<lambda>s.
     case get_bytes (memory s) ptr n of None \<Rightarrow> throw RangeError | Some bs \<Rightarrow> ret (le_value bs))"

definition readU8 :: "int \<Rightarrow> int wasi" where "readU8 ptr = get_int ptr 1"
definition readU16 :: "int \<Rightarrow> int wasi" where "readU16 ptr = get_int ptr 2"
definition readU32 :: "int \<Rightarrow> int wasi" where "readU32 ptr = get_int ptr 4"
definition readU64 :: "int \<Rightarrow> int wasi" where "readU64 ptr = get_int ptr 8"

definition writeU8 :: "int \<Rightarrow> int \<Rightarrow> unit wasi" where
  "writeU8 ptr value = set_memory ptr (le_bytes 1 value)"
definition writeU16 :: "int \<Rightarrow> int \<Rightarrow> unit wasi" where
  "writeU16 ptr value = set_memory ptr (le_bytes 2 value)"
definition writeU32 :: "int \<Rightarrow> int \<Rightarrow> unit wasi" where
  "writeU32 ptr value = set_memory ptr (le_bytes 4 (js_u32 value))"
definition writeU64 :: "int \<Rightarrow> int \<Rightarrow> unit wasi" where
  "writeU64 ptr value = set_memory ptr (le_bytes 8 value)"

definition readString :: "runtime \<Rightarrow> int \<Rightarrow> int \<Rightarrow> string" where
  "readString s ptr len = decodeText (mem_slice (memory s) ptr (ptr + js_u32 len))"

definition canWriteU32 :: "runtime \<Rightarrow> int \<Rightarrow> bool" where
  "canWriteU32 s ptr \<longleftrightarrow> checkedMemoryRange (js_u32 ptr) 4 (mem_size (memory s)) \<noteq> None"

definition canReadWrite :: "runtime \<Rightarrow> int \<Rightarrow> int \<Rightarrow> bool" where
  "canReadWrite s ptr byteLength \<longleftrightarrow>
     checkedMemoryRange (js_u32 ptr) byteLength (mem_size (memory s)) \<noteq> None"

definition remainingStdinBytes :: "runtime \<Rightarrow> byte list" where
  "remainingStdinBytes s = js_slice (stdin_bytes s) (stdinOffset s) (int (length (stdin_bytes s)))"

definition writeFilestat :: "int \<Rightarrow> int \<Rightarrow> int \<Rightarrow> unit wasi" where
  "writeFilestat ptr filetype sz =
     seqM (writeU64 ptr 0) (seqM (writeU64 (ptr + 8) 0) (seqM (writeU8 (ptr + 16) filetype)
     (seqM (writeU8 (ptr + 17) 0) (seqM (writeU16 (ptr + 18) 0) (seqM (writeU32 (ptr + 20) 0)
     (seqM (writeU64 (ptr + 24) 1) (seqM (writeU64 (ptr + 32) sz) (seqM (writeU64 (ptr + 40) 0)
     (seqM (writeU64 (ptr + 48) 0) (writeU64 (ptr + 56) 0))))))))))"

text \<open>\<open>new Uint8Array(n)\<close> throws when the engine cannot hold \<open>n\<close> bytes.\<close>

definition new_array :: "int \<Rightarrow> unit wasi" where
  "new_array n = with_state (\<lambda>s. if n > arrayLimit s then throw RangeError else ret ())"

section \<open>Descriptor status\<close>

datatype fdstat = FdStat (fs_filetype: int) (fs_inheriting: int) (fs_rights: int) (fs_size: int)

definition record_size :: "runtime \<Rightarrow> nat \<Rightarrow> int" where
  "record_size s r = int (length (r_bytes (recs s r)))"

definition fdStat :: "runtime \<Rightarrow> int \<Rightarrow> fdstat option" where
  "fdStat s fd =
     (case openFile s fd of
        Some file \<Rightarrow>
          if isOpenStdio (Some file) \<or> isOpenPipe (Some file) then
            Some (FdStat FILETYPE_CHARACTER_DEVICE 0 (d_rights file)
              (if isOpenPipe (Some file) \<and> d_direction file = ReadEnd
               then int (length (p_bytes (pipes s (d_pipe file)))) else 0))
          else if isOpenDirectory (Some file) then
            Some (FdStat FILETYPE_DIRECTORY
              (case d_inheriting file of None \<Rightarrow> SCRATCH_FILE_RIGHTS | Some i \<Rightarrow> i) (d_rights file) 0)
          else Some (FdStat FILETYPE_REGULAR_FILE 0 (d_rights file) (record_size s (d_record file)))
      | None \<Rightarrow>
          (case stdioRights fd of
             Some rights \<Rightarrow> Some (FdStat FILETYPE_CHARACTER_DEVICE 0 rights 0)
           | None \<Rightarrow>
               if fd = WORKSPACE_FD then
                 Some (FdStat FILETYPE_DIRECTORY
                   (if ws_writable s then SCRATCH_FILE_RIGHTS else REGULAR_FILE_RIGHTS)
                   (if ws_writable s then WRITABLE_WORKSPACE_RIGHTS else WORKSPACE_RIGHTS) 0)
               else if fd = TMP_FD then
                 Some (FdStat FILETYPE_DIRECTORY SCRATCH_FILE_RIGHTS TMP_RIGHTS 0)
               else if Some fd = packageRootFd s then
                 Some (FdStat FILETYPE_DIRECTORY REGULAR_FILE_RIGHTS WORKSPACE_RIGHTS 0)
               else None))"

abbreviation badf_or :: "runtime \<Rightarrow> int \<Rightarrow> int \<Rightarrow> int" where
  "badf_or s fd errno \<equiv> (if fdStat s fd \<noteq> None then errno else ERRNO_BADF)"

definition preopenPath :: "runtime \<Rightarrow> int \<Rightarrow> string option" where
  "preopenPath s fd =
     (if Some fd = packageRootFd s then Some PACKAGE_ROOT_PREOPEN_PATH
      else (case openFile s fd of
              None \<Rightarrow> preopenPathOf fd
            | Some file \<Rightarrow>
                if isOpenDirectory (Some file) \<and> d_preopenPath file \<noteq> None \<and> d_preopenPath file \<noteq> Some []
                then d_preopenPath file else preopenPathOf fd))"

section \<open>The directory a request starts from\<close>

definition scratchBasePath :: "runtime \<Rightarrow> int \<Rightarrow> string option" where
  "scratchBasePath s fd =
     (if fd = TMP_FD then Some []
      else (case openFile s fd of
              None \<Rightarrow> None
            | Some file \<Rightarrow> if isOpenScratchDirectory (Some file) then d_path file else None))"

definition packageRootBasePath :: "runtime \<Rightarrow> int \<Rightarrow> string option" where
  "packageRootBasePath s fd =
     (if Some fd = packageRootFd s then Some []
      else (case openFile s fd of
              None \<Rightarrow> None
            | Some file \<Rightarrow> if isOpenPackageRootDirectory (Some file) then d_path file else None))"

definition workspaceBasePath :: "runtime \<Rightarrow> int \<Rightarrow> string option" where
  "workspaceBasePath s fd =
     (if fd = WORKSPACE_FD then Some []
      else (case openFile s fd of
              None \<Rightarrow> None
            | Some file \<Rightarrow> if isOpenWorkspaceDirectory (Some file) then d_path file else None))"

definition mutableWorkspaceBasePath :: "runtime \<Rightarrow> int \<Rightarrow> string option" where
  "mutableWorkspaceBasePath s fd = (if \<not> ws_writable s then None else workspaceBasePath s fd)"

definition isWorkspaceFd :: "runtime \<Rightarrow> int \<Rightarrow> bool" where
  "isWorkspaceFd s fd \<longleftrightarrow> fd = WORKSPACE_FD \<or> isOpenWorkspaceDirectory (openFile s fd)"

definition workspaceCwdBasePathForPathRequest :: "runtime \<Rightarrow> int \<Rightarrow> string \<Rightarrow> string option" where
  "workspaceCwdBasePathForPathRequest s fd pathText =
     (if packageRootBasePath s fd \<noteq> Some [] then None
      else if mountedRelativePath pathText WORKSPACE_PREOPEN_PATH \<noteq> None then Some []
      else if prefix ''/'' pathText then None
      else mountedRelativePath (rt_cwd s) WORKSPACE_PREOPEN_PATH)"

definition workspaceBasePathForPathRequest :: "runtime \<Rightarrow> int \<Rightarrow> string \<Rightarrow> string option" where
  "workspaceBasePathForPathRequest s fd pathValue =
     (case workspaceBasePath s fd of
        Some directBase \<Rightarrow> Some directBase
      | None \<Rightarrow> workspaceCwdBasePathForPathRequest s fd pathValue)"

definition mutableWorkspaceBasePathForPathRequest :: "runtime \<Rightarrow> int \<Rightarrow> string \<Rightarrow> string option" where
  "mutableWorkspaceBasePathForPathRequest s fd pathValue =
     (if \<not> ws_writable s then None else workspaceBasePathForPathRequest s fd pathValue)"

definition scratchBasePathForRight :: "runtime \<Rightarrow> int \<Rightarrow> int \<Rightarrow> int + string" where
  "scratchBasePathForRight s fd right =
     (if fd = TMP_FD then Inr []
      else (case openFile s fd of
              Some file \<Rightarrow>
                if isOpenScratchDirectory (Some file) then
                  (case d_path file of
                     None \<Rightarrow> Inl ERRNO_NOTCAPABLE
                   | Some path \<Rightarrow> if d_rights file AND right = 0 then Inl ERRNO_NOTCAPABLE else Inr path)
                else Inl (badf_or s fd ERRNO_NOTCAPABLE)
            | None \<Rightarrow> Inl (badf_or s fd ERRNO_NOTCAPABLE)))"

definition workspaceBasePathForRight :: "runtime \<Rightarrow> int \<Rightarrow> int \<Rightarrow> int + string" where
  "workspaceBasePathForRight s fd right =
     (if fd = WORKSPACE_FD then (if ws_writable s then Inr [] else Inl ERRNO_NOTCAPABLE)
      else (case openFile s fd of
              Some file \<Rightarrow>
                if isOpenWorkspaceDirectory (Some file) then
                  (case d_path file of
                     None \<Rightarrow> Inl ERRNO_NOTCAPABLE
                   | Some path \<Rightarrow> if d_rights file AND right = 0 then Inl ERRNO_NOTCAPABLE else Inr path)
                else Inl (badf_or s fd ERRNO_NOTCAPABLE)
            | None \<Rightarrow> Inl (badf_or s fd ERRNO_NOTCAPABLE)))"

definition workspaceBasePathForRightOrPathRequest ::
  "runtime \<Rightarrow> int \<Rightarrow> string \<Rightarrow> int \<Rightarrow> (int + string) option" where
  "workspaceBasePathForRightOrPathRequest s fd pathValue right =
     (if \<not> ws_writable s then None
      else let directBase = workspaceBasePathForRight s fd right in
        if \<not> isl directBase \<or> isWorkspaceFd s fd then Some directBase
        else (case workspaceCwdBasePathForPathRequest s fd pathValue of
                None \<Rightarrow> None | Some p \<Rightarrow> Some (Inr p)))"

section \<open>Kinds and status of paths\<close>

datatype path_kind = FilePath | DirectoryPath

definition tree_kind :: "file_map \<Rightarrow> string list \<Rightarrow> string \<Rightarrow> path_kind option" where
  "tree_kind files dirs path =
     (if map_has files path then Some FilePath
      else if path \<in> set dirs \<or> pathHasChildren files dirs path then Some DirectoryPath
      else None)"

definition scratchPathKind :: "runtime \<Rightarrow> string \<Rightarrow> path_kind option" where
  "scratchPathKind s path = tree_kind (sc_files s) (sc_dirs s) path"

definition scratchPathExists :: "runtime \<Rightarrow> string \<Rightarrow> bool" where
  "scratchPathExists s path \<longleftrightarrow> scratchPathKind s path \<noteq> None"

definition workspacePathKind :: "runtime \<Rightarrow> string \<Rightarrow> path_kind option" where
  "workspacePathKind s path = tree_kind (ws_files s) (ws_dirs s) path"

definition workspacePathExists :: "runtime \<Rightarrow> string \<Rightarrow> bool" where
  "workspacePathExists s path \<longleftrightarrow> workspacePathKind s path \<noteq> None"

definition scratchPathStat :: "runtime \<Rightarrow> int \<Rightarrow> string \<Rightarrow> (int + stat) option" where
  "scratchPathStat s fd pathValue =
     (case scratchBasePath s fd of
        None \<Rightarrow> None
      | Some base \<Rightarrow>
          (case resolveMountedPath base pathValue TMP_PREOPEN_PATH False True of
             Inl e \<Rightarrow> Some (Inl e)
           | Inr path \<Rightarrow> Some (statPath (recs s) (sc_files s) (sc_dirs s) path)))"

definition workspacePathStat :: "runtime \<Rightarrow> int \<Rightarrow> string \<Rightarrow> (int + stat) option" where
  "workspacePathStat s fd pathText =
     (let directBase = workspaceBasePath s fd;
          cwdBase = (if directBase = None then workspaceCwdBasePathForPathRequest s fd pathText else None) in
      case (if directBase \<noteq> None then directBase else cwdBase) of
        None \<Rightarrow> None
      | Some base \<Rightarrow>
          if pathText = [] then Some (Inl ERRNO_NOENT)
          else (case resolveMountedPath base pathText WORKSPACE_PREOPEN_PATH (ws_writable s) True of
                  Inl e \<Rightarrow> Some (Inl e)
                | Inr path \<Rightarrow>
                    if path = [] then Some (Inr (Stat FILETYPE_DIRECTORY 0))
                    else let st = statPath (recs s) (ws_files s) (ws_dirs s) path in
                      if cwdBase \<noteq> None \<and> st = Inl ERRNO_NOENT then None else Some st))"

definition packageRootPathStat :: "runtime \<Rightarrow> int \<Rightarrow> string \<Rightarrow> (int + stat) option" where
  "packageRootPathStat s fd pathText =
     (case packageRootBasePath s fd of
        None \<Rightarrow> None
      | Some base \<Rightarrow>
          if pathText = [] then Some (Inl ERRNO_NOENT)
          else (case rootVirtualMountPath base pathText of
                  Some (Inl e) \<Rightarrow> Some (Inl e)
                | Some (Inr (Workspace, path)) \<Rightarrow>
                    if path = [] then Some (Inr (Stat FILETYPE_DIRECTORY 0))
                    else Some (statPath (recs s) (ws_files s) (ws_dirs s) path)
                | Some (Inr (Scratch, path)) \<Rightarrow>
                    if path = [] then Some (Inr (Stat FILETYPE_DIRECTORY 0))
                    else Some (statPath (recs s) (sc_files s) (sc_dirs s) path)
                | _ \<Rightarrow>
                    (case resolvePackageRootPath base pathText of
                       Inl e \<Rightarrow> Some (Inl e)
                     | Inr path \<Rightarrow>
                         if path = [] then Some (Inr (Stat FILETYPE_DIRECTORY 0))
                         else Some (statPath (recs s) (pr_files s) (pr_dirs s) path))))"

definition pathStat :: "runtime \<Rightarrow> int \<Rightarrow> string \<Rightarrow> int + stat" where
  "pathStat s fd pathValue =
     (case workspacePathStat s fd pathValue of
        Some st \<Rightarrow> st
      | None \<Rightarrow>
          (case packageRootPathStat s fd pathValue of
             Some st \<Rightarrow> st
           | None \<Rightarrow>
               (case scratchPathStat s fd pathValue of
                  Some st \<Rightarrow> st
                | None \<Rightarrow> Inl (badf_or s fd ERRNO_NOTCAPABLE))))"

definition resolvePathForFd :: "runtime \<Rightarrow> int \<Rightarrow> string \<Rightarrow> int + string" where
  "resolvePathForFd s fd pathValue =
     (case workspaceBasePathForPathRequest s fd pathValue of
        Some workspaceBase \<Rightarrow>
          resolveMountedPath workspaceBase pathValue WORKSPACE_PREOPEN_PATH (ws_writable s) True
      | None \<Rightarrow>
          (case packageRootBasePath s fd of
             Some packageRootBase \<Rightarrow> resolvePackageRootPath packageRootBase pathValue
           | None \<Rightarrow>
               (case scratchBasePath s fd of
                  None \<Rightarrow> Inl (badf_or s fd ERRNO_NOTCAPABLE)
                | Some base \<Rightarrow> resolveMountedPath base pathValue TMP_PREOPEN_PATH False True)))"

definition cwdPathKind :: "runtime \<Rightarrow> string \<Rightarrow> path_kind option" where
  "cwdPathKind s path =
     (if path = PACKAGE_ROOT_PREOPEN_PATH then Some DirectoryPath
      else (case mountedRelativePath path WORKSPACE_PREOPEN_PATH of
         Some p \<Rightarrow> if p = [] then Some DirectoryPath else workspacePathKind s p
       | None \<Rightarrow>
           (case mountedRelativePath path TMP_PREOPEN_PATH of
              Some p \<Rightarrow> if p = [] then Some DirectoryPath else scratchPathKind s p
            | None \<Rightarrow>
                (case statPath (recs s) (pr_files s) (pr_dirs s)
                        (if prefix ''/'' path then tl path else path) of
                   Inl e \<Rightarrow> None
                 | Inr st \<Rightarrow> Some (if st_filetype st = FILETYPE_DIRECTORY then DirectoryPath else FilePath)))))"

definition workspaceDirectoryEntries :: "runtime \<Rightarrow> string \<Rightarrow> (string \<times> int) list" where
  "workspaceDirectoryEntries s path = directoryEntries (ws_files s) (ws_dirs s) path"

definition scratchDirectoryEntries :: "runtime \<Rightarrow> string \<Rightarrow> (string \<times> int) list" where
  "scratchDirectoryEntries s path = directoryEntries (sc_files s) (sc_dirs s) path"

definition packageRootDirectoryEntries :: "runtime \<Rightarrow> string \<Rightarrow> (string \<times> int) list" where
  "packageRootDirectoryEntries s path = directoryEntries (pr_files s) (pr_dirs s) path"

text \<open>\<open>directoryForFd\<close> returns an object whose \<open>entries()\<close> lists the directory; here the listing.\<close>

definition directoryForFd :: "runtime \<Rightarrow> int \<Rightarrow> (string \<times> int) list option" where
  "directoryForFd s fd =
     (case packageRootBasePath s fd of
        Some base \<Rightarrow> Some (packageRootDirectoryEntries s base)
      | None \<Rightarrow>
          (case workspaceBasePath s fd of
             Some base \<Rightarrow> Some (workspaceDirectoryEntries s base)
           | None \<Rightarrow>
               if fd = TMP_FD then Some (scratchDirectoryEntries s [])
               else (case openFile s fd of
                       None \<Rightarrow> None
                     | Some file \<Rightarrow>
                         if isOpenScratchDirectory (Some file) then
                           (case d_path file of None \<Rightarrow> None | Some p \<Rightarrow> Some (scratchDirectoryEntries s p))
                         else None)))"

section \<open>Shared updates\<close>

definition markWorkspaceDirty :: "unit wasi" where
  "markWorkspaceDirty = modifyM (\<lambda>s. if ws_writable s then s\<lparr>ws_dirty := True\<rparr> else s)"

definition set_record :: "nat \<Rightarrow> (file_record \<Rightarrow> file_record) \<Rightarrow> runtime \<Rightarrow> runtime" where
  "set_record r f s = s\<lparr>recs := (recs s)(r := f (recs s r))\<rparr>"

definition set_descr :: "int \<Rightarrow> descr \<Rightarrow> runtime \<Rightarrow> runtime" where
  "set_descr fd f s = s\<lparr>openFiles := AList.update fd f (openFiles s)\<rparr>"

definition set_pipe :: "nat \<Rightarrow> (pipe_state \<Rightarrow> pipe_state) \<Rightarrow> runtime \<Rightarrow> runtime" where
  "set_pipe p f s = s\<lparr>pipes := (pipes s)(p := f (pipes s p))\<rparr>"

definition markOpenFileDirty :: "descr \<Rightarrow> unit wasi" where
  "markOpenFileDirty file =
     (if d_mount file = Some Workspace then
        seqM (modifyM (set_record (d_record file) (\<lambda>r. r\<lparr>r_fallback := False\<rparr>))) markWorkspaceDirty
      else ret ())"

text \<open>Reading and writing \<open>file.offset\<close> of the descriptor \<open>fd\<close>.\<close>

definition offset_of :: "runtime \<Rightarrow> descr \<Rightarrow> int" where
  "offset_of s file = (case d_offset file of NoOffset \<Rightarrow> 0 | Own v \<Rightarrow> v | Shared r \<Rightarrow> offsets s r)"

definition set_offset :: "int \<Rightarrow> descr \<Rightarrow> int \<Rightarrow> runtime \<Rightarrow> runtime" where
  "set_offset fd file v s =
     (case d_offset file of
        Shared r \<Rightarrow> s\<lparr>offsets := (offsets s)(r := v)\<rparr>
      | _ \<Rightarrow> set_descr fd (file\<lparr>d_offset := Own v\<rparr>) s)"

section \<open>Preconditions of the shared steps\<close>

lemma wp_throwIfAborted [wp_simps]:
  "wp throwIfAborted Q E = (\<lambda>s. if aborted s then E AbortError s else Q () s)"
  by (auto simp: throwIfAborted_def wp_simps fun_eq_iff)

lemma wp_set_memory [wp_simps]:
  "wp (set_memory p bs) Q E =
   (\<lambda>s. case set_bytes (memory s) p bs of
      None \<Rightarrow> E RangeError s | Some m \<Rightarrow> Q () (s\<lparr>memory := m\<rparr>))"
  by (auto simp: set_memory_def wp_simps fun_eq_iff split: option.splits)

lemma wp_get_int [wp_simps]:
  "wp (get_int p n) Q E =
   (\<lambda>s. case get_bytes (memory s) p n of None \<Rightarrow> E RangeError s | Some bs \<Rightarrow> Q (le_value bs) s)"
  by (auto simp: get_int_def wp_simps fun_eq_iff split: option.splits)

lemma wp_new_array [wp_simps]:
  "wp (new_array n) Q E = (\<lambda>s. if n > arrayLimit s then E RangeError s else Q () s)"
  by (auto simp: new_array_def wp_simps fun_eq_iff)

lemma wp_markWorkspaceDirty [wp_simps]:
  "wp markWorkspaceDirty Q E = (\<lambda>s. Q () (if ws_writable s then s\<lparr>ws_dirty := True\<rparr> else s))"
  by (simp add: markWorkspaceDirty_def wp_simps)

lemmas memory_access_defs = readU8_def readU16_def readU32_def readU64_def
  writeU8_def writeU16_def writeU32_def writeU64_def

text \<open>A step that only writes to the guest's memory, or throws \<open>RangeError\<close> with the state as it is
  apart from that.\<close>

definition memory_only :: "'a wasi \<Rightarrow> bool" where
  "memory_only m \<longleftrightarrow> (\<forall>s. \<exists>mem. snd (m s) = s\<lparr>memory := mem\<rparr> \<and> mem_size mem = mem_size (memory s))"

lemma memory_only_set_memory: "memory_only (set_memory p bs)"
  unfolding memory_only_def
proof
  fix s
  show "\<exists>mem. snd (set_memory p bs s) = s\<lparr>memory := mem\<rparr> \<and> mem_size mem = mem_size (memory s)"
    by (cases "set_bytes (memory s) p bs")
      (auto simp: set_memory_def set_bytes_def intro: exI [of _ "memory s"] split: if_splits)
qed

lemma memory_only_trivial: "(\<And>s. snd (m s) = s) \<Longrightarrow> memory_only m"
  unfolding memory_only_def
proof
  fix s
  assume "\<And>s. snd (m s) = s"
  then show "\<exists>mem. snd (m s) = s\<lparr>memory := mem\<rparr> \<and> mem_size mem = mem_size (memory s)"
    by (intro exI [of _ "memory s"]) simp
qed

lemma memory_only_bind:
  assumes "memory_only m" "\<And>x. memory_only (f x)"
  shows "memory_only (bindM m f)"
  unfolding memory_only_def
proof
  fix s
  obtain mem where one: "snd (m s) = s\<lparr>memory := mem\<rparr>" "mem_size mem = mem_size (memory s)"
    using assms(1) unfolding memory_only_def by blast
  show "\<exists>mem. snd (bindM m f s) = s\<lparr>memory := mem\<rparr> \<and> mem_size mem = mem_size (memory s)"
  proof (cases "m s")
    case (Pair r s')
    then have s': "s' = s\<lparr>memory := mem\<rparr>" using one by simp
    show ?thesis
    proof (cases r)
      case (Inl e)
      then show ?thesis using Pair one s' by auto
    next
      case (Inr x)
      obtain mem' where "snd (f x s') = s'\<lparr>memory := mem'\<rparr>" "mem_size mem' = mem_size (memory s')"
        using assms(2) unfolding memory_only_def by blast
      then show ?thesis using Pair Inr s' one by auto
    qed
  qed
qed

lemma memory_only_seq: "memory_only m \<Longrightarrow> memory_only n \<Longrightarrow> memory_only (seqM m n)"
  by (simp add: seqM_def memory_only_bind)

lemma memory_only_write [simp]:
  "memory_only (writeU8 p v)" "memory_only (writeU16 p v)" "memory_only (writeU32 p v)"
  "memory_only (writeU64 p v)"
  by (simp_all add: memory_access_defs memory_only_set_memory)

lemma memory_only_get_int [simp]: "memory_only (get_int p n)"
  by (rule memory_only_trivial) (simp add: get_int_def split: option.splits)

lemma memory_only_ret [simp]: "memory_only (ret x)" "memory_only (throw e)"
  by (rule memory_only_trivial, simp)+

lemma memory_only_writeFilestat [simp]: "memory_only (writeFilestat p t n)"
  unfolding writeFilestat_def by (intro memory_only_seq memory_only_write)

lemma wp_memory_only:
  assumes "memory_only m" "\<And>mem x. mem_size mem = mem_size (memory s) \<Longrightarrow> Q x (s\<lparr>memory := mem\<rparr>)"
    and "\<And>mem e. mem_size mem = mem_size (memory s) \<Longrightarrow> E e (s\<lparr>memory := mem\<rparr>)"
  shows "wp m Q E s"
proof -
  obtain mem where "snd (m s) = s\<lparr>memory := mem\<rparr>" "mem_size mem = mem_size (memory s)"
    using assms(1) unfolding memory_only_def by blast
  then show ?thesis
    using assms(2,3) by (cases "m s") (auto simp: wp_def split: sum.splits)
qed

lemma fdStat_memory [simp, state_simps]: "fdStat (s\<lparr>memory := m\<rparr>) fd = fdStat s fd"
  by (simp add: fdStat_def record_size_def cong: option.case_cong if_cong)

end
