(* ===== verification/Fd_Table.thy ===== *)
theory Fd_Table imports Runtime_State begin

text \<open>
  The descriptor table of \<open>apps/web/src/wasi-module.js\<close>: allocation, duplication, renumbering,
  closing, pipes, descriptor flags and rights (\<open>fdFdstatGet\<close> to \<open>closeOpenFile\<close>, lines 2369 to
  2698, and \<open>duplicateOpenFilesForFork\<close>, \<open>closeAllOpenFiles\<close>). Proved: \<open>fd_table_ok\<close>, which says
  that the numbers in use are below \<open>nextFileFd\<close>, that every reference is allocated, and that the
  reader and writer counts of every pipe are the numbers of its open ends, is kept by each operation.
\<close>

section \<open>Operations\<close>

definition fdFdstatGet :: "int \<Rightarrow> int \<Rightarrow> int wasi" where
  "fdFdstatGet fd fdstatPtr = seqM throwIfAborted (with_state (\<lambda>s.
     case fdStat s fd of
       None \<Rightarrow> ret ERRNO_BADF
     | Some st \<Rightarrow>
         seqM (writeU8 fdstatPtr (fs_filetype st)) (seqM (writeU8 (fdstatPtr + 1) 0)
         (seqM (writeU16 (fdstatPtr + 2) 0) (seqM (writeU32 (fdstatPtr + 4) 0)
         (seqM (writeU64 (fdstatPtr + 8) (fs_rights st))
         (seqM (writeU64 (fdstatPtr + 16) (fs_inheriting st)) (ret ERRNO_SUCCESS))))))))"

definition fdFdstatSetFlags :: "int \<Rightarrow> int \<Rightarrow> int wasi" where
  "fdFdstatSetFlags fd flags = seqM throwIfAborted (with_state (\<lambda>s. ret (badf_or s fd ERRNO_SUCCESS)))"

definition fdFdflagsGet :: "int \<Rightarrow> int \<Rightarrow> int wasi" where
  "fdFdflagsGet fd flagsPtr = seqM throwIfAborted (with_state (\<lambda>s.
     if fdStat s fd = None then ret ERRNO_BADF
     else seqM (writeU32 flagsPtr (case map_of (fdFlagsExt s) fd of None \<Rightarrow> 0 | Some f \<Rightarrow> f))
       (ret ERRNO_SUCCESS)))"

definition set_fd_flags :: "int \<Rightarrow> int \<Rightarrow> runtime \<Rightarrow> runtime" where
  "set_fd_flags fd flags s =
     s\<lparr>fdFlagsExt := (if flags = 0 then AList.delete fd (fdFlagsExt s)
                      else AList.update fd flags (fdFlagsExt s))\<rparr>"

definition fdFdflagsSet :: "int \<Rightarrow> int \<Rightarrow> int wasi" where
  "fdFdflagsSet fd flags = seqM throwIfAborted (with_state (\<lambda>s.
     let nextFlags = js_u32 flags in
     if nextFlags AND NOT FDFLAGSEXT_MASK \<noteq> 0 then ret ERRNO_INVAL
     else if fdStat s fd = None then ret ERRNO_BADF
     else seqM (modifyM (set_fd_flags fd nextFlags)) (ret ERRNO_SUCCESS)))"

definition fdFdstatSetRights :: "int \<Rightarrow> int \<Rightarrow> int \<Rightarrow> int wasi" where
  "fdFdstatSetRights fd rightsBase rightsInheriting = seqM throwIfAborted (with_state (\<lambda>s.
     case fdStat s fd of
       None \<Rightarrow> ret ERRNO_BADF
     | Some st \<Rightarrow>
         if \<not> allowsRights rightsBase (fs_rights st) \<or> \<not> allowsRights rightsInheriting (fs_inheriting st)
         then ret ERRNO_NOTCAPABLE
         else (case openFile s fd of
                 None \<Rightarrow> ret ERRNO_SUCCESS
               | Some file \<Rightarrow>
                   seqM (modifyM (set_descr fd
                      (if isOpenDirectory (Some file)
                       then file\<lparr>d_rights := rightsBase, d_inheriting := Some rightsInheriting\<rparr>
                       else file\<lparr>d_rights := rightsBase\<rparr>)))
                     (ret ERRNO_SUCCESS))))"

definition retainOpenFile :: "descr \<Rightarrow> runtime \<Rightarrow> runtime" where
  "retainOpenFile file s =
     (if \<not> isOpenPipe (Some file) then s
      else if d_direction file = ReadEnd
      then set_pipe (d_pipe file) (\<lambda>p. p\<lparr>p_readers := p_readers p + 1\<rparr>) s
      else set_pipe (d_pipe file) (\<lambda>p. p\<lparr>p_writers := p_writers p + 1\<rparr>) s)"

definition closeOpenFile :: "descr \<Rightarrow> runtime \<Rightarrow> runtime" where
  "closeOpenFile file s =
     (if \<not> isOpenPipe (Some file) then s
      else if d_direction file = ReadEnd
      then set_pipe (d_pipe file) (\<lambda>p. p\<lparr>p_readers := max 0 (p_readers p - 1)\<rparr>) s
      else set_pipe (d_pipe file) (\<lambda>p. p\<lparr>p_writers := max 0 (p_writers p - 1)\<rparr>) s)"

definition fdClose :: "int \<Rightarrow> int wasi" where
  "fdClose fd = seqM throwIfAborted (with_state (\<lambda>s.
     case openFile s fd of
       None \<Rightarrow> ret ERRNO_BADF
     | Some file \<Rightarrow>
         seqM (modifyM (closeOpenFile file))
         (seqM (modifyM (\<lambda>s. s\<lparr>openFiles := AList.delete fd (openFiles s),
                               fdFlagsExt := AList.delete fd (fdFlagsExt s)\<rparr>))
         (ret ERRNO_SUCCESS))))"

text \<open>The replacement shared by \<open>fdRenumber\<close> and \<open>duplicateFdTo\<close>: what was open at the target is
  closed.\<close>

definition close_replaced :: "int \<Rightarrow> runtime \<Rightarrow> runtime" where
  "close_replaced to s = (case openFile s to of None \<Rightarrow> s | Some replaced \<Rightarrow> closeOpenFile replaced s)"

definition raise_next_fd :: "int \<Rightarrow> runtime \<Rightarrow> runtime" where
  "raise_next_fd to s =
     (if isDynamicFileFdNumber to \<and> to \<ge> nextFileFd s then s\<lparr>nextFileFd := to + 1\<rparr> else s)"

definition refusesStdio :: "int \<Rightarrow> descr \<Rightarrow> bool" where
  "refusesStdio to file \<longleftrightarrow>
     isStdioFd to \<and> d_mount file \<noteq> Some Workspace \<and> \<not> isOpenPipe (Some file) \<and> \<not> isOpenStdio (Some file)"

definition fdRenumber :: "int \<Rightarrow> int \<Rightarrow> int wasi" where
  "fdRenumber fd to = seqM throwIfAborted (with_state (\<lambda>s.
     case openFile s fd of
       None \<Rightarrow> ret (badf_or s fd ERRNO_NOTCAPABLE)
     | Some file \<Rightarrow>
         if \<not> isDynamicFileFdNumber to \<and> \<not> isStdioFd to then ret ERRNO_NOTCAPABLE
         else if refusesStdio to file then ret ERRNO_NOTCAPABLE
         else if fd = to then ret ERRNO_SUCCESS
         else
           seqM (modifyM (close_replaced to))
           (seqM (modifyM (\<lambda>s. s\<lparr>openFiles := AList.update to file (AList.delete fd (openFiles s))\<rparr>))
           (seqM (modifyM (\<lambda>s.
              let flags = map_of (fdFlagsExt s) fd;
                  cleared = AList.delete to (AList.delete fd (fdFlagsExt s)) in
              s\<lparr>fdFlagsExt := (case flags of None \<Rightarrow> cleared | Some f \<Rightarrow> AList.update to f cleared)\<rparr>))
           (seqM (modifyM (raise_next_fd to)) (ret ERRNO_SUCCESS))))))"

text \<open>\<open>fd_in_use\<close> are the numbers \<open>fdStat\<close> may know; past them the search for a free one ends.\<close>

definition fd_in_use :: "runtime \<Rightarrow> int set" where
  "fd_in_use s = fst ` set (openFiles s) \<union> {0, 1, 2, 3, 4} \<union> set_option (packageRootFd s)"

lemma finite_fd_in_use [simp]: "finite (fd_in_use s)"
  by (simp add: fd_in_use_def)

lemma fdStat_in_use: "fdStat s fd \<noteq> None \<Longrightarrow> fd \<in> fd_in_use s"
  by (auto simp: fdStat_def fd_in_use_def stdioRights_def dest: map_of_SomeD intro: rev_image_eqI
      split: option.splits if_splits)

function first_free_fd :: "runtime \<Rightarrow> int \<Rightarrow> int" where
  "first_free_fd s fd = (if fdStat s fd \<noteq> None then first_free_fd s (fd + 1) else fd)"
  by pat_completeness auto
termination
proof (relation "measure (\<lambda>(s, fd). card {k \<in> fd_in_use s. fd \<le> k})")
  fix s fd
  assume "fdStat s fd \<noteq> None"
  then have "fd \<in> {k \<in> fd_in_use s. fd \<le> k}" by (simp add: fdStat_in_use)
  moreover have "fd \<notin> {k \<in> fd_in_use s. fd + 1 \<le> k}"
    and "{k \<in> fd_in_use s. fd + 1 \<le> k} \<subseteq> {k \<in> fd_in_use s. fd \<le> k}" by auto
  ultimately have "{k \<in> fd_in_use s. fd + 1 \<le> k} \<subset> {k \<in> fd_in_use s. fd \<le> k}"
    unfolding psubset_eq by metis
  then show "((s, fd + 1), s, fd) \<in> measure (\<lambda>(s, fd). card {k \<in> fd_in_use s. fd \<le> k})"
    by (simp add: psubset_card_mono)
qed simp

declare first_free_fd.simps [simp del]

definition allocateDynamicFileFd :: "int \<Rightarrow> int wasi" where
  "allocateDynamicFileFd minResultFd = with_state (\<lambda>s.
     let fd = first_free_fd s (max FIRST_FILE_FD (js_u32 minResultFd)) in
     seqM (modifyM (\<lambda>s. if fd \<ge> nextFileFd s then s\<lparr>nextFileFd := fd + 1\<rparr> else s)) (ret fd))"

text \<open>\<open>duplicateOpenFileDescriptor\<close> copies the descriptor; when it has an offset, both the original
  and the copy read and write it through a shared cell from then on.\<close>

definition duplicateOpenFileDescriptor :: "int \<Rightarrow> descr \<Rightarrow> descr wasi" where
  "duplicateOpenFileDescriptor fd file =
     (case d_offset file of
        Own v \<Rightarrow> with_state (\<lambda>s.
          let shared = file\<lparr>d_offset := Shared (nextRef s)\<rparr> in
          seqM (modifyM (\<lambda>s. (set_descr fd shared s)
                 \<lparr>offsets := (offsets s)(nextRef s := v), nextRef := nextRef s + 1\<rparr>))
            (ret shared))
      | _ \<Rightarrow> ret file)"

definition duplicateOpenFileForFd :: "int \<Rightarrow> descr option wasi" where
  "duplicateOpenFileForFd fd = with_state (\<lambda>s.
     case openFile s fd of
       Some file \<Rightarrow> bindM (duplicateOpenFileDescriptor fd file) (\<lambda>d. ret (Some d))
     | None \<Rightarrow>
         (case fdStat s fd of
            None \<Rightarrow> ret None
          | Some st \<Rightarrow>
              (case stdioRights fd of
                 Some rights \<Rightarrow> ret (Some (stdio_descr fd rights))
               | None \<Rightarrow>
                   if fd = WORKSPACE_FD then
                     ret (Some (preopen_descr Workspace WORKSPACE_PREOPEN_PATH (fs_rights st) (fs_inheriting st)))
                   else if fd = TMP_FD then
                     ret (Some (preopen_descr Scratch TMP_PREOPEN_PATH (fs_rights st) (fs_inheriting st)))
                   else if Some fd = packageRootFd s then
                     ret (Some (preopen_descr PackageRoot PACKAGE_ROOT_PREOPEN_PATH (fs_rights st) (fs_inheriting st)))
                   else ret None)))"

definition duplicateFd :: "int \<Rightarrow> int \<Rightarrow> int \<Rightarrow> int \<Rightarrow> int wasi" where
  "duplicateFd fd minResultFd flags retFdPtr = seqM throwIfAborted (with_state (\<lambda>s.
     if \<not> canWriteU32 s retFdPtr then ret ERRNO_FAULT
     else bindM (duplicateOpenFileForFd fd) (\<lambda>dup.
       case dup of
         None \<Rightarrow> ret ERRNO_BADF
       | Some file \<Rightarrow>
           bindM (allocateDynamicFileFd minResultFd) (\<lambda>newFd.
           seqM (modifyM (retainOpenFile file)) (seqM (modifyM (set_descr newFd file))
           (seqM (modifyM (set_fd_flags newFd flags))
           (seqM (writeU32 retFdPtr newFd) (ret ERRNO_SUCCESS))))))))"

definition duplicateFdTo :: "int \<Rightarrow> int \<Rightarrow> int \<Rightarrow> int \<Rightarrow> int wasi" where
  "duplicateFdTo fd targetFd flags retFdPtr = seqM throwIfAborted (with_state (\<lambda>s.
     let to = js_u32 targetFd in
     if \<not> canWriteU32 s retFdPtr then ret ERRNO_FAULT
     else if fdStat s fd = None then seqM (writeU32 retFdPtr 0) (ret ERRNO_BADF)
     else if \<not> isDynamicFileFdNumber to \<and> \<not> isStdioFd to then
       seqM (writeU32 retFdPtr 0) (ret ERRNO_NOTCAPABLE)
     else if fd = to then seqM (writeU32 retFdPtr to) (ret ERRNO_SUCCESS)
     else bindM (duplicateOpenFileForFd fd) (\<lambda>dup.
       case dup of
         None \<Rightarrow> seqM (writeU32 retFdPtr 0) (ret ERRNO_BADF)
       | Some file \<Rightarrow>
           if refusesStdio to file then seqM (writeU32 retFdPtr 0) (ret ERRNO_NOTCAPABLE)
           else
             seqM (modifyM (close_replaced to))
             (seqM (modifyM (retainOpenFile file)) (seqM (modifyM (set_descr to file))
             (seqM (modifyM (set_fd_flags to flags)) (seqM (modifyM (raise_next_fd to))
             (seqM (writeU32 retFdPtr to) (ret ERRNO_SUCCESS)))))))))"

definition fdDup :: "int \<Rightarrow> int \<Rightarrow> int wasi" where
  "fdDup fd retFdPtr = duplicateFd fd FIRST_FILE_FD 0 retFdPtr"

definition fdDup2 :: "int \<Rightarrow> int \<Rightarrow> int \<Rightarrow> int \<Rightarrow> int wasi" where
  "fdDup2 fd targetFd cloexec retFdPtr =
     duplicateFdTo fd targetFd (if cloexec = 1 then FDFLAGSEXT_CLOEXEC else 0) retFdPtr"

definition fdPipe :: "int \<Rightarrow> int \<Rightarrow> int wasi" where
  "fdPipe readFdPtr writeFdPtr = seqM throwIfAborted (with_state (\<lambda>s.
     if \<not> canWriteU32 s readFdPtr \<or> \<not> canWriteU32 s writeFdPtr then ret ERRNO_FAULT
     else let pipe = nextRef s in
       seqM (modifyM (\<lambda>s. s\<lparr>pipes := (pipes s)(pipe := \<lparr>p_bytes = [], p_readers = 1, p_writers = 1\<rparr>),
                             nextRef := pipe + 1\<rparr>))
       (bindM (allocateDynamicFileFd FIRST_FILE_FD) (\<lambda>readFd.
        seqM (modifyM (set_descr readFd (pipe_descr ReadEnd pipe PIPE_READ_RIGHTS False)))
       (bindM (allocateDynamicFileFd (readFd + 1)) (\<lambda>writeFd.
        seqM (modifyM (set_descr writeFd (pipe_descr WriteEnd pipe PIPE_WRITE_RIGHTS True)))
        (seqM (writeU32 readFdPtr readFd) (seqM (writeU32 writeFdPtr writeFd)
        (ret ERRNO_SUCCESS)))))))))"

section \<open>Sums over a table\<close>

definition table_sum :: "('v \<Rightarrow> int) \<Rightarrow> ('k \<times> 'v) list \<Rightarrow> int" where
  "table_sum g m = sum_list (map (\<lambda>(k, v). g v) m)"

definition entry_sum :: "('v \<Rightarrow> int) \<Rightarrow> 'v option \<Rightarrow> int" where
  "entry_sum g v = (case v of None \<Rightarrow> 0 | Some x \<Rightarrow> g x)"

lemma table_sum_simps [simp]:
  "table_sum g [] = 0" "table_sum g ((k, v) # m) = g v + table_sum g m"
  "table_sum g (xs @ ys) = table_sum g xs + table_sum g ys"
  by (simp_all add: table_sum_def)

lemma entry_sum_simps [simp]: "entry_sum g None = 0" "entry_sum g (Some x) = g x"
  by (simp_all add: entry_sum_def)

lemma delete_absent: "k \<notin> fst ` set m \<Longrightarrow> AList.delete k m = m"
  by (simp add: delete_idem)

lemma table_sum_update:
  "distinct (map_keys m) \<Longrightarrow> table_sum g (AList.update k v m) = table_sum g m - entry_sum g (map_of m k) + g v"
  by (induction m) auto

lemma table_sum_delete:
  "distinct (map_keys m) \<Longrightarrow> table_sum g (AList.delete k m) = table_sum g m - entry_sum g (map_of m k)"
proof (induction m)
  case (Cons x m)
  then show ?case by (cases x) (auto simp: delete_absent)
qed simp

lemma table_sum_map:
  "(\<And>v. g (f v) = g v) \<Longrightarrow> table_sum g (map (\<lambda>(k, v). (k, f v)) m) = table_sum g m"
  by (induction m) auto

lemma table_sum_nonneg: "(\<And>v. 0 \<le> g v) \<Longrightarrow> 0 \<le> table_sum g m"
  by (induction m) auto

lemma table_sum_zero: "(\<forall>(k, v)\<in>set m. g v = 0) \<Longrightarrow> table_sum g m = 0"
  by (induction m) auto

lemma table_sum_ge: "(\<And>v. 0 \<le> g v) \<Longrightarrow> map_of m k = Some v \<Longrightarrow> g v \<le> table_sum g m"
  by (induction m) (auto simp: table_sum_nonneg add_increasing split: if_splits)

section \<open>The table invariant\<close>

definition pipe_end :: "direction \<Rightarrow> nat \<Rightarrow> descr \<Rightarrow> int" where
  "pipe_end dir p f = (if d_kind f = Pipe \<and> d_pipe f = p \<and> d_direction f = dir then 1 else 0)"

definition open_ends :: "direction \<Rightarrow> nat \<Rightarrow> runtime \<Rightarrow> int" where
  "open_ends dir p s = table_sum (pipe_end dir p) (openFiles s)"

definition descr_refs :: "nat \<Rightarrow> descr \<Rightarrow> bool" where
  "descr_refs n f \<longleftrightarrow>
     (d_kind f = Pipe \<longrightarrow> d_pipe f < n) \<and> (d_kind f = RegularFile \<longrightarrow> d_record f < n) \<and>
     (\<forall>r. d_offset f = Shared r \<longrightarrow> r < n)"

definition fd_number :: "runtime \<Rightarrow> int \<Rightarrow> bool" where
  "fd_number s fd \<longleftrightarrow> fd < nextFileFd s \<and> (isStdioFd fd \<or> isDynamicFileFdNumber fd)"

definition fd_table_ok :: "runtime \<Rightarrow> bool" where
  "fd_table_ok s \<longleftrightarrow>
     distinct (map_keys (openFiles s)) \<and>
     list_all (\<lambda>(fd, f). fd_number s fd \<and> descr_refs (nextRef s) f) (openFiles s) \<and>
     FIRST_FILE_FD \<le> nextFileFd s \<and>
     (\<forall>fd. packageRootFd s = Some fd \<longrightarrow> fd < nextFileFd s) \<and>
     (\<forall>p. p_readers (pipes s p) = open_ends ReadEnd p s \<and> p_writers (pipes s p) = open_ends WriteEnd p s)"

lemma pipe_end_nonneg [simp]: "0 \<le> pipe_end dir p f"
  by (simp add: pipe_end_def)

lemma open_ends_nonneg [simp]: "0 \<le> open_ends dir p s"
  by (simp add: open_ends_def table_sum_nonneg)

lemma fd_table_okD:
  assumes "fd_table_ok s"
  shows "distinct (map_keys (openFiles s))"
    and "openFile s fd = Some f \<Longrightarrow> fd_number s fd" "openFile s fd = Some f \<Longrightarrow> descr_refs (nextRef s) f"
    and "FIRST_FILE_FD \<le> nextFileFd s" "packageRootFd s = Some r \<Longrightarrow> r < nextFileFd s"
    and "p_readers (pipes s p) = open_ends ReadEnd p s" "p_writers (pipes s p) = open_ends WriteEnd p s"
  using assms by (auto simp: fd_table_ok_def list_all_iff dest!: map_of_SomeD)

lemma open_ends_updates [simp, state_simps]:
  "open_ends dir p (s\<lparr>pipes := ps\<rparr>) = open_ends dir p s"
  "open_ends dir p (s\<lparr>nextRef := n\<rparr>) = open_ends dir p s"
  by (simp_all add: open_ends_def)

text \<open>The parts of the state the invariant reads.\<close>

lemma fd_table_ok_cong:
  assumes "openFiles s' = openFiles s" "nextFileFd s' = nextFileFd s" "nextRef s' = nextRef s"
    and "packageRootFd s' = packageRootFd s"
    and "\<And>p. p_readers (pipes s' p) = p_readers (pipes s p) \<and> p_writers (pipes s' p) = p_writers (pipes s p)"
  shows "fd_table_ok s' = fd_table_ok s"
  using assms by (simp add: fd_table_ok_def open_ends_def fd_number_def cong: list.pred_cong)

lemma fd_table_ok_updates [simp, state_simps]:
  "fd_table_ok (s\<lparr>memory := m\<rparr>) = fd_table_ok s"
  "fd_table_ok (s\<lparr>rt_cwd := c\<rparr>) = fd_table_ok s"
  "fd_table_ok (s\<lparr>ws_dirty := b\<rparr>) = fd_table_ok s"
  "fd_table_ok (s\<lparr>ws_files := fs\<rparr>) = fd_table_ok s"
  "fd_table_ok (s\<lparr>ws_dirs := ds\<rparr>) = fd_table_ok s"
  "fd_table_ok (s\<lparr>sc_files := fs\<rparr>) = fd_table_ok s"
  "fd_table_ok (s\<lparr>sc_dirs := ds\<rparr>) = fd_table_ok s"
  "fd_table_ok (s\<lparr>fdFlagsExt := fl\<rparr>) = fd_table_ok s"
  "fd_table_ok (s\<lparr>stdinOffset := n\<rparr>) = fd_table_ok s"
  "fd_table_ok (s\<lparr>written := w\<rparr>) = fd_table_ok s"
  "fd_table_ok (s\<lparr>recs := rs\<rparr>) = fd_table_ok s"
  "fd_table_ok (s\<lparr>offsets := os\<rparr>) = fd_table_ok s"
  by (rule fd_table_ok_cong; simp)+

lemma fd_table_ok_set_record [simp, state_simps]: "fd_table_ok (set_record r f s) = fd_table_ok s"
  by (simp add: set_record_def)

lemma fd_table_ok_set_fd_flags [simp, state_simps]: "fd_table_ok (set_fd_flags fd fl s) = fd_table_ok s"
  by (simp add: set_fd_flags_def)

section \<open>What the steps do to the parts of the invariant\<close>

lemma fields_set_pipe [simp, state_simps]:
  "openFiles (set_pipe p f s) = openFiles s" "nextFileFd (set_pipe p f s) = nextFileFd s"
  "nextRef (set_pipe p f s) = nextRef s" "packageRootFd (set_pipe p f s) = packageRootFd s"
  "memory (set_pipe p f s) = memory s" "fdFlagsExt (set_pipe p f s) = fdFlagsExt s"
  by (simp_all add: set_pipe_def)

lemma fields_set_descr [simp, state_simps]:
  "openFiles (set_descr fd f s) = AList.update fd f (openFiles s)"
  "nextFileFd (set_descr fd f s) = nextFileFd s" "nextRef (set_descr fd f s) = nextRef s"
  "packageRootFd (set_descr fd f s) = packageRootFd s" "pipes (set_descr fd f s) = pipes s"
  "memory (set_descr fd f s) = memory s" "fdFlagsExt (set_descr fd f s) = fdFlagsExt s"
  by (simp_all add: set_descr_def)

lemma fields_retain [simp, state_simps]:
  "openFiles (retainOpenFile f s) = openFiles s" "nextFileFd (retainOpenFile f s) = nextFileFd s"
  "nextRef (retainOpenFile f s) = nextRef s" "packageRootFd (retainOpenFile f s) = packageRootFd s"
  "memory (retainOpenFile f s) = memory s" "fdFlagsExt (retainOpenFile f s) = fdFlagsExt s"
  by (simp_all add: retainOpenFile_def)

lemma fields_close [simp, state_simps]:
  "openFiles (closeOpenFile f s) = openFiles s" "nextFileFd (closeOpenFile f s) = nextFileFd s"
  "nextRef (closeOpenFile f s) = nextRef s" "packageRootFd (closeOpenFile f s) = packageRootFd s"
  "memory (closeOpenFile f s) = memory s" "fdFlagsExt (closeOpenFile f s) = fdFlagsExt s"
  by (simp_all add: closeOpenFile_def)

lemma fields_close_replaced [simp, state_simps]:
  "openFiles (close_replaced to s) = openFiles s" "nextFileFd (close_replaced to s) = nextFileFd s"
  "nextRef (close_replaced to s) = nextRef s" "packageRootFd (close_replaced to s) = packageRootFd s"
  "memory (close_replaced to s) = memory s" "fdFlagsExt (close_replaced to s) = fdFlagsExt s"
  by (simp_all add: close_replaced_def split: option.splits)

lemma fields_raise [simp, state_simps]:
  "openFiles (raise_next_fd to s) = openFiles s" "nextRef (raise_next_fd to s) = nextRef s"
  "packageRootFd (raise_next_fd to s) = packageRootFd s" "pipes (raise_next_fd to s) = pipes s"
  "memory (raise_next_fd to s) = memory s" "fdFlagsExt (raise_next_fd to s) = fdFlagsExt s"
  by (simp_all add: raise_next_fd_def)

lemma fields_set_fd_flags [simp, state_simps]:
  "openFiles (set_fd_flags fd fl s) = openFiles s" "nextFileFd (set_fd_flags fd fl s) = nextFileFd s"
  "nextRef (set_fd_flags fd fl s) = nextRef s" "packageRootFd (set_fd_flags fd fl s) = packageRootFd s"
  "pipes (set_fd_flags fd fl s) = pipes s" "memory (set_fd_flags fd fl s) = memory s"
  by (simp_all add: set_fd_flags_def)

lemma retain_counts:
  "p_readers (pipes (retainOpenFile f s) p) = p_readers (pipes s p) + pipe_end ReadEnd p f"
  "p_writers (pipes (retainOpenFile f s) p) = p_writers (pipes s p) + pipe_end WriteEnd p f"
  by (cases "d_direction f"; simp add: retainOpenFile_def set_pipe_def pipe_end_def isOpenPipe_def)+

lemma close_counts:
  "pipe_end ReadEnd p f \<le> p_readers (pipes s p) \<Longrightarrow>
   p_readers (pipes (closeOpenFile f s) p) = p_readers (pipes s p) - pipe_end ReadEnd p f"
  "pipe_end WriteEnd p f \<le> p_writers (pipes s p) \<Longrightarrow>
   p_writers (pipes (closeOpenFile f s) p) = p_writers (pipes s p) - pipe_end WriteEnd p f"
  by (cases "d_direction f"; auto simp: closeOpenFile_def set_pipe_def pipe_end_def isOpenPipe_def)+

lemma pipe_end_le_ends: "openFile s fd = Some f \<Longrightarrow> pipe_end dir p f \<le> open_ends dir p s"
  unfolding open_ends_def by (rule table_sum_ge) simp_all

lemma close_replaced_counts:
  assumes "fd_table_ok s"
  shows "p_readers (pipes (close_replaced to s) p) =
           open_ends ReadEnd p s - entry_sum (pipe_end ReadEnd p) (openFile s to)"
    and "p_writers (pipes (close_replaced to s) p) =
           open_ends WriteEnd p s - entry_sum (pipe_end WriteEnd p) (openFile s to)"
  using fd_table_okD(6,7) [OF assms, of p] pipe_end_le_ends [of s to]
  by (auto simp: close_replaced_def close_counts split: option.splits)

lemma open_ends_update:
  "distinct (map_keys (openFiles s)) \<Longrightarrow> openFiles s' = AList.update fd f (openFiles s) \<Longrightarrow>
   open_ends dir p s' = open_ends dir p s - entry_sum (pipe_end dir p) (openFile s fd) + pipe_end dir p f"
  by (simp add: open_ends_def table_sum_update)

text \<open>Putting a retained descriptor at a number, in place of what was there.\<close>

lemma fd_table_ok_install:
  assumes ok: "fd_table_ok s" and refs: "descr_refs (nextRef s) f"
    and num: "fd_number s' fd" and files: "openFiles s' = AList.update fd f (openFiles s)"
    and next_fd: "nextFileFd s \<le> nextFileFd s'"
    and same: "nextRef s' = nextRef s" "packageRootFd s' = packageRootFd s"
    and readers: "\<And>p. p_readers (pipes s' p) =
      open_ends ReadEnd p s - entry_sum (pipe_end ReadEnd p) (openFile s fd) + pipe_end ReadEnd p f"
    and writers: "\<And>p. p_writers (pipes s' p) =
      open_ends WriteEnd p s - entry_sum (pipe_end WriteEnd p) (openFile s fd) + pipe_end WriteEnd p f"
  shows "fd_table_ok s'"
proof -
  note d = fd_table_okD(1) [OF ok]
  have "fd_number s' k \<and> descr_refs (nextRef s') g" if "openFile s' k = Some g" for k g
    using that num refs fd_table_okD(2,3) [OF ok, of k g] next_fd
    by (auto simp: files same fd_number_def split: if_splits)
  moreover have "openFile s' k = Some g" if "(k, g) \<in> set (openFiles s')" for k g
    using that d map_of_eq_Some_iff [of "openFiles s'" k g] by (simp add: files)
  ultimately have "list_all (\<lambda>(k, g). fd_number s' k \<and> descr_refs (nextRef s') g) (openFiles s')"
    unfolding list_all_iff by blast
  then show ?thesis
    using d fd_table_okD(4,5) [OF ok] next_fd
    by (auto simp: fd_table_ok_def files same readers writers open_ends_update [OF d files]
        intro: order_less_le_trans)
qed

text \<open>A descriptor that changes in everything but its kind, its pipe and its direction.\<close>

definition same_ends :: "descr \<Rightarrow> descr \<Rightarrow> bool" where
  "same_ends f g \<longleftrightarrow> d_kind f = d_kind g \<and> d_pipe f = d_pipe g \<and> d_direction f = d_direction g"

lemma pipe_end_same: "same_ends f g \<Longrightarrow> pipe_end dir p f = pipe_end dir p g"
  by (simp add: same_ends_def pipe_end_def)

lemma fd_table_ok_set_descr:
  assumes ok: "fd_table_ok s" and f: "openFile s fd = Some f"
    and f': "same_ends f' f" "descr_refs (nextRef s) f'"
  shows "fd_table_ok (set_descr fd f' s)"
proof (rule fd_table_ok_install [OF ok f'(2)])
  show "fd_number (set_descr fd f' s) fd"
    using fd_table_okD(2) [OF ok f] by (simp add: fd_number_def)
qed (simp_all only: fields_set_descr fd_table_okD(6,7) [OF ok] pipe_end_same [OF f'(1)] f
      entry_sum_simps diff_add_cancel order_refl)

lemma fd_table_ok_nextRef: "fd_table_ok s \<Longrightarrow> nextRef s \<le> n \<Longrightarrow> fd_table_ok (s\<lparr>nextRef := n\<rparr>)"
  by (fastforce simp: fd_table_ok_def open_ends_def fd_number_def descr_refs_def list_all_iff)

lemma fd_table_ok_nextFileFd:
  "fd_table_ok s \<Longrightarrow> nextFileFd s \<le> n \<Longrightarrow> fd_table_ok (s\<lparr>nextFileFd := n\<rparr>)"
  by (fastforce simp: fd_table_ok_def open_ends_def fd_number_def list_all_iff)

section \<open>Finding a free number\<close>

lemma first_free_fd_spec:
  "fdStat s (first_free_fd s k) = None \<and> k \<le> first_free_fd s k \<and>
   (\<forall>j. k \<le> j \<and> j < first_free_fd s k \<longrightarrow> fdStat s j \<noteq> None)"
proof (induction s k rule: first_free_fd.induct)
  case (1 s fd)
  show ?case
  proof (cases "fdStat s fd = None")
    case True
    then have "first_free_fd s fd = fd" by (subst first_free_fd.simps) simp
    with True show ?thesis by auto
  next
    case False
    then have "first_free_fd s fd = first_free_fd s (fd + 1)"
      by (subst first_free_fd.simps) simp
    with False 1 show ?thesis
      by (metis add.commute add_le_same_cancel2 order_le_less order_trans zle_add1_eq_le zless_imp_add1_zle
          less_add_one)
  qed
qed

lemma fdStat_open: "openFile s fd = Some f \<Longrightarrow> fdStat s fd \<noteq> None"
  by (simp add: fdStat_def)

lemma first_free_fd_not_open: "openFile s (first_free_fd s k) = None"
  using first_free_fd_spec [of s k] fdStat_open [of s "first_free_fd s k"] by fastforce

definition allocated :: "int \<Rightarrow> runtime \<Rightarrow> runtime" where
  "allocated fd s = (if fd \<ge> nextFileFd s then s\<lparr>nextFileFd := fd + 1\<rparr> else s)"

lemma fields_allocated [simp, state_simps]:
  "openFiles (allocated fd s) = openFiles s" "nextRef (allocated fd s) = nextRef s"
  "packageRootFd (allocated fd s) = packageRootFd s" "pipes (allocated fd s) = pipes s"
  "memory (allocated fd s) = memory s" "fd < nextFileFd (allocated fd s)"
  "nextFileFd s \<le> nextFileFd (allocated fd s)"
  by (simp_all add: allocated_def)

lemma fd_table_ok_allocated: "fd_table_ok s \<Longrightarrow> fd_table_ok (allocated fd s)"
  by (simp add: allocated_def fd_table_ok_nextFileFd)

lemma wp_allocate [wp_simps]:
  "wp (allocateDynamicFileFd m) Q E =
   (\<lambda>s. let fd = first_free_fd s (max FIRST_FILE_FD (js_u32 m)) in Q fd (allocated fd s))"
  by (simp add: allocateDynamicFileFd_def wp_simps allocated_def Let_def)

section \<open>Every operation keeps the table\<close>

lemma keeps_fdFdstatGet [keeps_intros]: "keeps fd_table_ok (fdFdstatGet fd p)"
  by (rule keepsI_wp)
    (auto simp: fdFdstatGet_def wp_simps memory_access_defs split: option.splits)

lemma keeps_fdFdstatSetFlags [keeps_intros]: "keeps fd_table_ok (fdFdstatSetFlags fd fl)"
  by (rule keepsI_wp) (simp add: fdFdstatSetFlags_def wp_simps)

lemma keeps_fdFdflagsGet [keeps_intros]: "keeps fd_table_ok (fdFdflagsGet fd p)"
  by (rule keepsI_wp) (simp add: fdFdflagsGet_def wp_simps memory_access_defs split: option.splits)

lemma keeps_fdFdflagsSet [keeps_intros]: "keeps fd_table_ok (fdFdflagsSet fd fl)"
  by (rule keepsI_wp) (simp add: fdFdflagsSet_def wp_simps Let_def)

lemma keeps_fdFdstatSetRights [keeps_intros]: "keeps fd_table_ok (fdFdstatSetRights fd rb ri)"
proof (rule keepsI_wp)
  fix s assume ok: "fd_table_ok s"
  have "fd_table_ok (set_descr fd f' s)"
    if "openFile s fd = Some f" "f' = f\<lparr>d_rights := rb, d_inheriting := Some ri\<rparr> \<or> f' = f\<lparr>d_rights := rb\<rparr>"
    for f f'
    using fd_table_ok_set_descr [OF ok that(1)] fd_table_okD(3) [OF ok that(1)] that(2)
    by (auto simp: same_ends_def descr_refs_def)
  then show "wp (fdFdstatSetRights fd rb ri) (\<lambda>_. fd_table_ok) (\<lambda>_. fd_table_ok) s"
    using ok by (auto simp: fdFdstatSetRights_def wp_simps split: option.splits)
qed

lemma fd_table_ok_remove:
  assumes ok: "fd_table_ok s" and f: "openFile s fd = Some f"
  shows "fd_table_ok ((closeOpenFile f s)\<lparr>openFiles := AList.delete fd (openFiles s)\<rparr>)"
proof -
  note d = fd_table_okD(1) [OF ok]
  have "open_ends dir p ((closeOpenFile f s)\<lparr>openFiles := AList.delete fd (openFiles s)\<rparr>) =
      open_ends dir p s - pipe_end dir p f" for dir p
    using table_sum_delete [OF d, of "pipe_end dir p" fd, unfolded f entry_sum_simps]
    by (simp add: open_ends_def)
  moreover have "set (AList.delete fd (openFiles s)) \<subseteq> set (openFiles s)"
    by (auto simp: AList.delete_eq)
  then have "list_all (\<lambda>(k, g). fd_number s k \<and> descr_refs (nextRef s) g) (AList.delete fd (openFiles s))"
    using ok by (auto simp: fd_table_ok_def list_all_iff)
  ultimately show ?thesis
    using d fd_table_okD(4-7) [OF ok] pipe_end_le_ends [OF f]
    by (simp add: fd_table_ok_def close_counts fd_number_def)
qed

lemma keeps_fdClose [keeps_intros]: "keeps fd_table_ok (fdClose fd)"
proof (rule keepsI_wp)
  fix s assume ok: "fd_table_ok s"
  show "wp (fdClose fd) (\<lambda>_. fd_table_ok) (\<lambda>_. fd_table_ok) s"
    using ok fd_table_ok_remove [OF ok, of fd]
    by (auto simp: fdClose_def wp_simps split: option.splits)
qed

lemma raise_next_number:
  "isStdioFd to \<or> isDynamicFileFdNumber to \<Longrightarrow> FIRST_FILE_FD \<le> nextFileFd s \<Longrightarrow>
   fd_number (raise_next_fd to s) to"
  by (auto simp: fd_number_def raise_next_fd_def isStdioFd_def isDynamicFileFdNumber_def)

lemma raise_next_mono: "nextFileFd s \<le> nextFileFd (raise_next_fd to s)"
  by (simp add: raise_next_fd_def)

lemma fd_table_ok_renumber:
  assumes ok: "fd_table_ok s" and f: "openFile s fd = Some f" and ne: "fd \<noteq> to"
    and num: "fd_number s' to" and next_fd: "nextFileFd s \<le> nextFileFd s'"
    and files: "openFiles s' = AList.update to f (AList.delete fd (openFiles s))"
    and same: "nextRef s' = nextRef s" "packageRootFd s' = packageRootFd s"
    and pipes: "pipes s' = pipes (close_replaced to s)"
  shows "fd_table_ok s'"
proof -
  define sd where "sd = (closeOpenFile f s)\<lparr>openFiles := AList.delete fd (openFiles s)\<rparr>"
  have ok_sd: "fd_table_ok sd" unfolding sd_def by (rule fd_table_ok_remove [OF ok f])
  have ends: "open_ends dir p sd = open_ends dir p s - pipe_end dir p f" for dir p
    using table_sum_delete [OF fd_table_okD(1) [OF ok], of "pipe_end dir p" fd, unfolded f entry_sum_simps]
    by (simp add: open_ends_def sd_def)
  have at: "openFile sd to = openFile s to" using ne by (simp add: sd_def)
  show ?thesis
  proof (rule fd_table_ok_install [OF ok_sd])
    show "descr_refs (nextRef sd) f" using fd_table_okD(3) [OF ok f] by (simp add: sd_def)
  qed (use num next_fd files same ne in
      \<open>simp_all add: sd_def [THEN arg_cong [where f = openFiles]] ends at pipes
        close_replaced_counts [OF ok]\<close>, simp_all add: sd_def)
qed

lemma keeps_fdRenumber [keeps_intros]: "keeps fd_table_ok (fdRenumber fd to)"
proof (rule keepsI_wp)
  fix s assume ok: "fd_table_ok s"
  have "fd_table_ok (raise_next_fd to (t\<lparr>fdFlagsExt := fl\<rparr>))"
    if "openFile s fd = Some f" "fd \<noteq> to" "isDynamicFileFdNumber to \<or> isStdioFd to"
      "t = (close_replaced to s)\<lparr>openFiles := AList.update to f (AList.delete fd (openFiles s))\<rparr>"
    for f t fl
  proof (rule fd_table_ok_renumber [OF ok that(1,2)])
    show "fd_number (raise_next_fd to (t\<lparr>fdFlagsExt := fl\<rparr>)) to"
      by (rule raise_next_number) (use that(3,4) fd_table_okD(4) [OF ok] in auto)
    show "nextFileFd s \<le> nextFileFd (raise_next_fd to (t\<lparr>fdFlagsExt := fl\<rparr>))"
      using raise_next_mono [of "t\<lparr>fdFlagsExt := fl\<rparr>" to] that(4) by simp
  qed (simp_all add: that(4))
  then show "wp (fdRenumber fd to) (\<lambda>_. fd_table_ok) (\<lambda>_. fd_table_ok) s"
    using ok by (auto simp: fdRenumber_def wp_simps Let_def split: option.splits)
qed

lemma fd_table_ok_dup:
  assumes ok: "fd_table_ok s" and refs: "descr_refs (nextRef s) f"
    and num: "isDynamicFileFdNumber to \<or> isStdioFd to"
  shows "fd_table_ok (raise_next_fd to (set_fd_flags to fl (set_descr to f
           (retainOpenFile f (close_replaced to s)))))"
proof (rule fd_table_ok_install [OF ok refs])
  let ?t = "set_fd_flags to fl (set_descr to f (retainOpenFile f (close_replaced to s)))"
  show "fd_number (raise_next_fd to ?t) to"
    by (rule raise_next_number) (use num fd_table_okD(4) [OF ok] in auto)
  show "nextFileFd s \<le> nextFileFd (raise_next_fd to ?t)"
    using raise_next_mono [of ?t to] by simp
qed (simp_all add: retain_counts close_replaced_counts [OF ok])

lemma wp_duplicateOpenFileForFd:
  assumes ok: "fd_table_ok s"
    and Q: "\<And>s' dup. fd_table_ok s' \<Longrightarrow> \<forall>f. dup = Some f \<longrightarrow> descr_refs (nextRef s') f \<Longrightarrow> Q dup s'"
  shows "wp (duplicateOpenFileForFd fd) Q E s"
proof (cases "openFile s fd")
  case None
  then show ?thesis
    using Q [of s] ok
    by (auto simp: duplicateOpenFileForFd_def wp_simps descr_refs_def descr_defs split: option.splits)
next
  case (Some f)
  note refs = fd_table_okD(3) [OF ok Some]
  show ?thesis
  proof (cases "d_offset f")
    case (Own v)
    define s1 where "s1 = s\<lparr>offsets := (offsets s)(nextRef s := v), nextRef := nextRef s + 1\<rparr>"
    define g where "g = f\<lparr>d_offset := Shared (nextRef s)\<rparr>"
    have ok1: "fd_table_ok s1"
      using fd_table_ok_nextRef [of "s\<lparr>offsets := (offsets s)(nextRef s := v)\<rparr>" "nextRef s + 1"] ok
      by (simp add: s1_def)
    have g: "descr_refs (nextRef s1) g" "same_ends g f"
      using refs by (auto simp: g_def s1_def descr_refs_def same_ends_def)
    have "fd_table_ok (set_descr fd g s1)"
      by (rule fd_table_ok_set_descr [OF ok1 _ g(2,1)]) (use Some in \<open>simp add: s1_def\<close>)
    moreover have "(set_descr fd g s)\<lparr>offsets := (offsets s)(nextRef s := v), nextRef := nextRef s + 1\<rparr> =
        set_descr fd g s1"
      by (simp add: s1_def set_descr_def)
    moreover have "offsets (set_descr fd g s) = offsets s" by (simp add: set_descr_def)
    ultimately show ?thesis
      using Q [of "set_descr fd g s1" "Some g"] g Some Own
      by (simp add: duplicateOpenFileForFd_def duplicateOpenFileDescriptor_def wp_simps Let_def
          flip: g_def)
  qed (use Q [of s "Some f"] ok refs Some in
      \<open>simp_all add: duplicateOpenFileForFd_def duplicateOpenFileDescriptor_def wp_simps\<close>)
qed

lemma keeps_duplicateFdTo [keeps_intros]: "keeps fd_table_ok (duplicateFdTo fd targetFd fl p)"
proof (rule keepsI_wp)
  fix s assume ok: "fd_table_ok s"
  show "wp (duplicateFdTo fd targetFd fl p) (\<lambda>_. fd_table_ok) (\<lambda>_. fd_table_ok) s"
    using ok fd_table_ok_dup
    by (auto simp: duplicateFdTo_def wp_simps Let_def memory_access_defs
        intro!: wp_duplicateOpenFileForFd [OF ok] split: option.splits)
qed

lemma allocated_number:
  "FIRST_FILE_FD \<le> k \<Longrightarrow> fd_number (allocated (first_free_fd s k) t) (first_free_fd s k)"
  using first_free_fd_spec [of s k] by (simp add: fd_number_def isDynamicFileFdNumber_def)

lemma fd_table_ok_fresh:
  assumes ok: "fd_table_ok s" and refs: "descr_refs (nextRef s) f" and k: "FIRST_FILE_FD \<le> k"
  shows "fd_table_ok (set_fd_flags (first_free_fd s k) fl (set_descr (first_free_fd s k) f
           (retainOpenFile f (allocated (first_free_fd s k) s))))"
proof (rule fd_table_ok_install [OF ok refs])
  show "fd_number (set_fd_flags (first_free_fd s k) fl (set_descr (first_free_fd s k) f
      (retainOpenFile f (allocated (first_free_fd s k) s)))) (first_free_fd s k)"
    using allocated_number [OF k, of s s] by (simp add: fd_number_def)
qed (simp_all add: retain_counts fd_table_okD(6,7) [OF ok] first_free_fd_not_open)

lemma keeps_duplicateFd [keeps_intros]: "keeps fd_table_ok (duplicateFd fd k fl p)"
proof (rule keepsI_wp)
  fix s assume ok: "fd_table_ok s"
  show "wp (duplicateFd fd k fl p) (\<lambda>_. fd_table_ok) (\<lambda>_. fd_table_ok) s"
    using ok fd_table_ok_fresh
    by (auto simp: duplicateFd_def wp_simps Let_def memory_access_defs
        intro!: wp_duplicateOpenFileForFd [OF ok] split: option.splits)
qed

lemma keeps_fdDup [keeps_intros]: "keeps fd_table_ok (fdDup fd p)"
  by (simp add: fdDup_def keeps_duplicateFd)

lemma keeps_fdDup2 [keeps_intros]: "keeps fd_table_ok (fdDup2 fd to cloexec p)"
  by (simp add: fdDup2_def keeps_duplicateFdTo)

text \<open>A new pipe: its counts are 1 before its ends are in the table.\<close>

lemma fd_table_ok_new_pipe:
  fixes s k
  defines "pipe \<equiv> nextRef s"
  defines "s1 \<equiv> s\<lparr>pipes := (pipes s)(pipe := \<lparr>p_bytes = [], p_readers = 1, p_writers = 1\<rparr>), nextRef := pipe + 1\<rparr>"
  defines "r \<equiv> first_free_fd s1 5"
  defines "s2 \<equiv> set_descr r (pipe_descr ReadEnd pipe PIPE_READ_RIGHTS False) (allocated r s1)"
  defines "w \<equiv> first_free_fd s2 k"
  defines "s3 \<equiv> set_descr w (pipe_descr WriteEnd pipe PIPE_WRITE_RIGHTS True) (allocated w s2)"
  assumes ok: "fd_table_ok s" and k: "5 \<le> k"
  shows "fd_table_ok s3"
proof -
  let ?R = "pipe_descr ReadEnd pipe PIPE_READ_RIGHTS False"
  let ?W = "pipe_descr WriteEnd pipe PIPE_WRITE_RIGHTS True"
  let ?empty = "s\<lparr>pipes := (pipes s)(pipe := \<lparr>p_bytes = [], p_readers = 0, p_writers = 0\<rparr>), nextRef := pipe + 1\<rparr>"
  have none: "open_ends dir pipe s = 0" for dir
  proof -
    have "pipe_end dir pipe f = 0" if "(fd, f) \<in> set (openFiles s)" for fd f
      using ok that by (auto simp: fd_table_ok_def list_all_iff descr_refs_def pipe_end_def pipe_def)
    then show ?thesis unfolding open_ends_def by (intro table_sum_zero) blast
  qed
  have "fd_table_ok (s\<lparr>pipes := (pipes s)(pipe := \<lparr>p_bytes = [], p_readers = 0, p_writers = 0\<rparr>)\<rparr>)"
    using ok none fd_table_okD(6,7) [OF ok, of pipe] by (subst fd_table_ok_cong [of _ s]) simp_all
  then have ok0: "fd_table_ok ?empty"
    using fd_table_ok_nextRef [of "s\<lparr>pipes := (pipes s)(pipe := \<lparr>p_bytes = [], p_readers = 0, p_writers = 0\<rparr>)\<rparr>" "pipe + 1"]
    by (simp add: pipe_def)
  have free_r: "openFile s r = None" using first_free_fd_not_open [of s1 5] by (simp add: r_def s1_def)
  have free_w: "openFile s2 w = None" unfolding w_def by (rule first_free_fd_not_open)
  have same_file: "openFile ?empty r = None" using free_r by simp
  have ok2: "fd_table_ok (s2\<lparr>pipes := (pipes s2)(pipe := \<lparr>p_bytes = [], p_readers = 1, p_writers = 0\<rparr>)\<rparr>)"
  proof (rule fd_table_ok_install [OF ok0])
    show "descr_refs (nextRef ?empty) ?R" by (simp add: descr_refs_def descr_defs)
    show "fd_number (s2\<lparr>pipes := (pipes s2)(pipe := \<lparr>p_bytes = [], p_readers = 1, p_writers = 0\<rparr>)\<rparr>) r"
      using allocated_number [of 5 s1 s1] by (simp add: s2_def r_def fd_number_def)
    show "nextFileFd ?empty \<le> nextFileFd (s2\<lparr>pipes := (pipes s2)(pipe := \<lparr>p_bytes = [], p_readers = 1, p_writers = 0\<rparr>)\<rparr>)"
      using fields_allocated(7) [of s1 r] by (simp add: s2_def s1_def)
  qed (auto simp: s2_def s1_def free_r none fd_table_okD(6,7) [OF ok] pipe_end_def descr_defs)
  show ?thesis
  proof (rule fd_table_ok_install [OF ok2])
    let ?s2' = "s2\<lparr>pipes := (pipes s2)(pipe := \<lparr>p_bytes = [], p_readers = 1, p_writers = 0\<rparr>)\<rparr>"
    have pipes2: "pipes s2 = (pipes s)(pipe := \<lparr>p_bytes = [], p_readers = 1, p_writers = 1\<rparr>)"
      by (simp add: s2_def s1_def)
    have ends2: "open_ends dir p s2 = (if p = pipe then (if dir = ReadEnd then 1 else 0) else open_ends dir p s)" for dir p
      using fd_table_okD(6,7) [OF ok2, of p] fd_table_okD(6,7) [OF ok, of p]
      by (cases dir) (auto simp: pipes2 split: if_splits)
    show "descr_refs (nextRef ?s2') ?W" by (simp add: descr_refs_def descr_defs s2_def s1_def)
    show "fd_number s3 w"
      using allocated_number [OF k, of s2 s2] by (simp add: s3_def w_def fd_number_def)
    show "nextFileFd ?s2' \<le> nextFileFd s3"
      using fields_allocated(7) [of s2 w] by (simp add: s3_def)
    fix p
    show "p_readers (pipes s3 p) = open_ends ReadEnd p ?s2' - entry_sum (pipe_end ReadEnd p) (openFile ?s2' w)
        + pipe_end ReadEnd p ?W"
      using free_w by (simp add: ends2 s3_def pipes2 fd_table_okD(6) [OF ok] pipe_end_def descr_defs)
    show "p_writers (pipes s3 p) = open_ends WriteEnd p ?s2' - entry_sum (pipe_end WriteEnd p) (openFile ?s2' w)
        + pipe_end WriteEnd p ?W"
      using free_w by (simp add: ends2 s3_def pipes2 fd_table_okD(7) [OF ok] pipe_end_def descr_defs)
  qed (simp_all add: s3_def)
qed

lemma keeps_fdPipe [keeps_intros]: "keeps fd_table_ok (fdPipe readPtr writePtr)"
proof (rule keepsI_wp)
  fix s assume ok: "fd_table_ok s"
  have lo: "5 \<le> max 5 (js_u32 x)" for x by simp
  show "wp (fdPipe readPtr writePtr) (\<lambda>_. fd_table_ok) (\<lambda>_. fd_table_ok) s"
    using ok fd_table_ok_new_pipe [OF ok lo]
    by (auto simp: fdPipe_def wp_simps Let_def memory_access_defs js_u32_id split: option.splits)
qed

section \<open>Descriptors of a forked process\<close>

text \<open>\<open>duplicateOpenFilesForFork\<close> copies every descriptor into the child's table; \<open>closeAllOpenFiles\<close>
  closes every one.\<close>

fun duplicate_descrs :: "(int \<times> descr) list \<Rightarrow> (int \<times> descr) list wasi" where
  "duplicate_descrs [] = ret []"
| "duplicate_descrs ((fd, file) # rest) =
     bindM (duplicateOpenFileDescriptor fd file) (\<lambda>dup.
     seqM (modifyM (retainOpenFile dup))
     (bindM (duplicate_descrs rest) (\<lambda>ds. ret ((fd, dup) # ds))))"

definition duplicateOpenFilesForFork :: "(int \<times> descr) list wasi" where
  "duplicateOpenFilesForFork = with_state (\<lambda>s. duplicate_descrs (openFiles s))"

definition closeAllOpenFiles :: "unit wasi" where
  "closeAllOpenFiles = modifyM (\<lambda>s.
     (foldl (\<lambda>t (fd, file). closeOpenFile file t) s (openFiles s))\<lparr>openFiles := [], fdFlagsExt := []\<rparr>)"

end
