(* ===== verification/Fd_IO.thy ===== *)
theory Fd_IO imports Fd_Table begin

text \<open>
  Reading, writing, seeking and sizing through descriptors (\<open>apps/web/src/wasi-module.js\<close>, lines
  1941 to 2367 and 2706 to 2845): scatter/gather over the guest's iovecs, standard streams, pipes,
  regular files. Proved here: a write replaces exactly the addressed bytes of the file and nothing
  else (\<open>splice\<close>); the positional calls leave the offset alone; pipes are bounded queues.
\<close>

section \<open>Scatter and gather\<close>

fun read_iov_chunks :: "nat \<Rightarrow> int \<Rightarrow> (byte list list \<times> int) wasi" where
  "read_iov_chunks 0 iovPtr = ret ([], 0)"
| "read_iov_chunks (Suc n) iovPtr =
     bindM (readU32 iovPtr) (\<lambda>dataPtr.
     bindM (readU32 (iovPtr + 4)) (\<lambda>dataLength.
     with_state (\<lambda>s.
       let chunk = mem_slice (memory s) dataPtr (dataPtr + dataLength) in
       bindM (read_iov_chunks n (iovPtr + 8)) (\<lambda>(chunks, total).
         ret (chunk # chunks, dataLength + total)))))"

definition readIovChunks :: "int \<Rightarrow> int \<Rightarrow> (byte list list \<times> int) wasi" where
  "readIovChunks iovsPtr iovsLen = read_iov_chunks (nat iovsLen) iovsPtr"

fun read_into_iovs :: "nat \<Rightarrow> byte list \<Rightarrow> int \<Rightarrow> int \<Rightarrow> int wasi" where
  "read_into_iovs 0 input offset iovPtr = ret 0"
| "read_into_iovs (Suc n) input offset iovPtr =
     (if offset \<ge> int (length input) then ret 0
      else
        bindM (readU32 iovPtr) (\<lambda>dataPtr.
        bindM (readU32 (iovPtr + 4)) (\<lambda>dataLength.
        let available = int (length input) - offset;
            readLength = min dataLength available in
        if readLength > 0 then
          seqM (set_memory dataPtr (js_slice input offset (offset + readLength)))
          (bindM (read_into_iovs n input (offset + readLength) (iovPtr + 8)) (\<lambda>total.
             ret (readLength + total)))
        else read_into_iovs n input offset (iovPtr + 8))))"

definition readIntoIovs :: "byte list \<Rightarrow> int \<Rightarrow> int \<Rightarrow> int \<Rightarrow> int wasi" where
  "readIntoIovs input inputOffset iovsPtr iovsLen = read_into_iovs (nat iovsLen) input inputOffset iovsPtr"

section \<open>Writing to a file record\<close>

definition extended :: "byte list \<Rightarrow> int \<Rightarrow> byte list" where
  "extended bs n = bs @ replicate (nat (n - int (length bs))) 0"

definition splice :: "byte list \<Rightarrow> int \<Rightarrow> byte list \<Rightarrow> byte list" where
  "splice bs offset chunk = take (nat offset) bs @ chunk @ drop (nat offset + length chunk) bs"

fun write_chunks :: "nat \<Rightarrow> byte list list \<Rightarrow> int \<Rightarrow> bool \<Rightarrow> (int \<times> bool) wasi" where
  "write_chunks r [] offset changed = ret (offset, changed)"
| "write_chunks r (chunk # chunks) offset changed =
     (let e = offset + int (length chunk) in
      with_state (\<lambda>s.
        let grow = e > record_size s r in
        seqM (if grow then
                seqM (new_array e) (modifyM (set_record r (\<lambda>f. f\<lparr>r_bytes := extended (r_bytes f) e\<rparr>)))
              else ret ())
        (seqM (modifyM (set_record r (\<lambda>f. f\<lparr>r_bytes := splice (r_bytes f) offset chunk\<rparr>)))
        (write_chunks r chunks e (changed \<or> grow \<or> chunk \<noteq> [])))))"

definition writeOpenFileAt :: "descr \<Rightarrow> byte list list \<Rightarrow> int \<Rightarrow> int wasi" where
  "writeOpenFileAt file chunks offset =
     bindM (write_chunks (d_record file) chunks offset False) (\<lambda>(offset', changed).
       seqM (if changed then markOpenFileDirty file else ret ()) (ret offset'))"

definition writeOpenFile :: "int \<Rightarrow> descr \<Rightarrow> byte list list \<Rightarrow> unit wasi" where
  "writeOpenFile fd file chunks = with_state (\<lambda>s.
     let offset = (if d_fdflags file AND FDFLAGS_APPEND \<noteq> 0 then record_size s (d_record file)
                   else offset_of s file) in
     bindM (writeOpenFileAt file chunks offset) (\<lambda>offset'.
       modifyM (set_offset fd file offset')))"

section \<open>\<open>fd_write\<close> and \<open>fd_pwrite\<close>\<close>

definition write_output :: "int \<Rightarrow> byte list list \<Rightarrow> unit wasi" where
  "write_output stdioFd chunks =
     modifyM (\<lambda>s. s\<lparr>written := written s @ map (\<lambda>c. (if stdioFd = STDOUT_FD then STDOUT_FD else STDERR_FD, c)) chunks\<rparr>)"

definition fdWriteStdio :: "descr \<Rightarrow> int \<Rightarrow> int \<Rightarrow> int \<Rightarrow> int wasi" where
  "fdWriteStdio file iovsPtr iovsLen nwrittenPtr =
     (if d_stdioFd file \<noteq> STDOUT_FD \<and> d_stdioFd file \<noteq> STDERR_FD then
        seqM (writeU32 nwrittenPtr 0) (ret ERRNO_BADF)
      else if d_rights file AND RIGHT_FD_WRITE = 0 then
        seqM (writeU32 nwrittenPtr 0) (ret ERRNO_NOTCAPABLE)
      else bindM (readIovChunks iovsPtr iovsLen) (\<lambda>(chunks, total).
        seqM (writeU32 nwrittenPtr total)
        (seqM (write_output (d_stdioFd file) chunks) (ret ERRNO_SUCCESS))))"

text \<open>\<open>next\<close> is a zero-filled array of \<open>length + total\<close> bytes into which the chunks are copied;
  \<open>total\<close> counts the lengths the guest asked for, a chunk at the end of memory may be shorter.\<close>

definition pipe_append :: "byte list \<Rightarrow> byte list list \<Rightarrow> int \<Rightarrow> byte list" where
  "pipe_append bs chunks n = extended (bs @ concat chunks) (int (length bs) + n)"

definition fdWritePipe :: "descr \<Rightarrow> int \<Rightarrow> int \<Rightarrow> int \<Rightarrow> int wasi" where
  "fdWritePipe file iovsPtr iovsLen nwrittenPtr =
     seqM (writeU32 nwrittenPtr 0)
     (if d_direction file \<noteq> WriteEnd then ret ERRNO_BADF
      else if d_rights file AND RIGHT_FD_WRITE = 0 then ret ERRNO_NOTCAPABLE
      else with_state (\<lambda>s.
        if p_readers (pipes s (d_pipe file)) \<le> 0 then ret ERRNO_PIPE
        else bindM (readIovChunks iovsPtr iovsLen) (\<lambda>(chunks, total).
          if int (length (p_bytes (pipes s (d_pipe file)))) + total > PIPE_BUFFER_LIMIT
          then ret ERRNO_AGAIN
          else
            seqM (modifyM (set_pipe (d_pipe file) (\<lambda>p. p\<lparr>p_bytes := pipe_append (p_bytes p) chunks total\<rparr>)))
            (seqM (writeU32 nwrittenPtr total) (ret ERRNO_SUCCESS)))))"

definition fdWrite :: "int \<Rightarrow> int \<Rightarrow> int \<Rightarrow> int \<Rightarrow> int wasi" where
  "fdWrite fd iovsPtr iovsLen nwrittenPtr = seqM throwIfAborted (with_state (\<lambda>s.
     case openFile s fd of
       Some file \<Rightarrow>
         if isOpenPipe (Some file) then fdWritePipe file iovsPtr iovsLen nwrittenPtr
         else if isOpenStdio (Some file) then fdWriteStdio file iovsPtr iovsLen nwrittenPtr
         else if \<not> canWriteFile file then seqM (writeU32 nwrittenPtr 0) (ret ERRNO_NOTCAPABLE)
         else bindM (readIovChunks iovsPtr iovsLen) (\<lambda>(chunks, total).
           seqM (writeU32 nwrittenPtr total)
           (seqM (writeOpenFile fd file chunks) (ret ERRNO_SUCCESS)))
     | None \<Rightarrow>
         if fd \<noteq> STDOUT_FD \<and> fd \<noteq> STDERR_FD then seqM (writeU32 nwrittenPtr 0) (ret ERRNO_BADF)
         else bindM (readIovChunks iovsPtr iovsLen) (\<lambda>(chunks, total).
           seqM (writeU32 nwrittenPtr total)
           (seqM (write_output fd chunks) (ret ERRNO_SUCCESS)))))"

definition isDirectoryFd :: "runtime \<Rightarrow> int \<Rightarrow> bool" where
  "isDirectoryFd s fd \<longleftrightarrow>
     fd = WORKSPACE_FD \<or> fd = TMP_FD \<or> Some fd = packageRootFd s \<or> isOpenDirectory (openFile s fd)"

definition fdPwrite :: "int \<Rightarrow> int \<Rightarrow> int \<Rightarrow> int \<Rightarrow> int \<Rightarrow> int wasi" where
  "fdPwrite fd iovsPtr iovsLen offset nwrittenPtr =
     seqM throwIfAborted (seqM (writeU32 nwrittenPtr 0) (with_state (\<lambda>s.
     if isDirectoryFd s fd then ret ERRNO_ISDIR
     else if isOpenPipe (openFile s fd) \<or> isOpenStdio (openFile s fd) then ret ERRNO_BADF
     else (case openFile s fd of
       None \<Rightarrow> ret (badf_or s fd ERRNO_NOTCAPABLE)
     | Some file \<Rightarrow>
         if \<not> canWriteFile file then ret ERRNO_NOTCAPABLE
         else (case resolveFileSize offset of
           Inl errno \<Rightarrow> ret errno
         | Inr st \<Rightarrow>
             bindM (readIovChunks iovsPtr iovsLen) (\<lambda>(chunks, total).
               case resolveFileRange st total of
                 Inl errno \<Rightarrow> ret errno
               | Inr _ \<Rightarrow>
                   bindM (writeOpenFileAt file chunks st) (\<lambda>_.
                   seqM (writeU32 nwrittenPtr total) (ret ERRNO_SUCCESS))))))))"

section \<open>\<open>fd_read\<close> and \<open>fd_pread\<close>\<close>

definition fdReadStdio :: "descr \<Rightarrow> int \<Rightarrow> int \<Rightarrow> int \<Rightarrow> int wasi" where
  "fdReadStdio file iovsPtr iovsLen nreadPtr =
     seqM (writeU32 nreadPtr 0)
     (if d_stdioFd file \<noteq> STDIN_FD then ret ERRNO_BADF
      else if d_rights file AND RIGHT_FD_READ = 0 then ret ERRNO_NOTCAPABLE
      else with_state (\<lambda>s.
        bindM (readIntoIovs (stdin_bytes s) (stdinOffset s) iovsPtr iovsLen) (\<lambda>total.
        seqM (modifyM (\<lambda>s. s\<lparr>stdinOffset := stdinOffset s + total\<rparr>))
        (seqM (writeU32 nreadPtr total) (ret ERRNO_SUCCESS)))))"

definition fdReadPipe :: "descr \<Rightarrow> int \<Rightarrow> int \<Rightarrow> int \<Rightarrow> int wasi" where
  "fdReadPipe file iovsPtr iovsLen nreadPtr =
     seqM (writeU32 nreadPtr 0)
     (if d_direction file \<noteq> ReadEnd then ret ERRNO_BADF
      else if d_rights file AND RIGHT_FD_READ = 0 then ret ERRNO_NOTCAPABLE
      else with_state (\<lambda>s.
        let pipe = pipes s (d_pipe file) in
        if p_bytes pipe = [] then ret (if p_writers pipe > 0 then ERRNO_AGAIN else ERRNO_SUCCESS)
        else bindM (readIntoIovs (p_bytes pipe) 0 iovsPtr iovsLen) (\<lambda>total.
          seqM (modifyM (set_pipe (d_pipe file)
                  (\<lambda>p. p\<lparr>p_bytes := js_slice (p_bytes p) total (int (length (p_bytes p)))\<rparr>)))
          (seqM (writeU32 nreadPtr total) (ret ERRNO_SUCCESS)))))"

definition fdRead :: "int \<Rightarrow> int \<Rightarrow> int \<Rightarrow> int \<Rightarrow> int wasi" where
  "fdRead fd iovsPtr iovsLen nreadPtr = seqM throwIfAborted (with_state (\<lambda>s.
     case openFile s fd of
       Some file \<Rightarrow>
         if isOpenPipe (Some file) then fdReadPipe file iovsPtr iovsLen nreadPtr
         else if isOpenStdio (Some file) then fdReadStdio file iovsPtr iovsLen nreadPtr
         else if isDirectoryFd s fd then seqM (writeU32 nreadPtr 0) (ret ERRNO_ISDIR)
         else
           bindM (readIntoIovs (r_bytes (recs s (d_record file))) (offset_of s file) iovsPtr iovsLen) (\<lambda>total.
           seqM (modifyM (\<lambda>t. set_offset fd file (offset_of t file + total) t))
           (seqM (writeU32 nreadPtr total) (ret ERRNO_SUCCESS)))
     | None \<Rightarrow>
         if isDirectoryFd s fd then seqM (writeU32 nreadPtr 0) (ret ERRNO_ISDIR)
         else if fd \<noteq> STDIN_FD then seqM (writeU32 nreadPtr 0) (ret ERRNO_BADF)
         else
           bindM (readIntoIovs (stdin_bytes s) (stdinOffset s) iovsPtr iovsLen) (\<lambda>total.
           seqM (modifyM (\<lambda>s. s\<lparr>stdinOffset := stdinOffset s + total\<rparr>))
           (seqM (writeU32 nreadPtr total) (ret ERRNO_SUCCESS)))))"

definition fdPread :: "int \<Rightarrow> int \<Rightarrow> int \<Rightarrow> int \<Rightarrow> int \<Rightarrow> int wasi" where
  "fdPread fd iovsPtr iovsLen offset nreadPtr =
     seqM throwIfAborted (seqM (writeU32 nreadPtr 0) (with_state (\<lambda>s.
     if isDirectoryFd s fd then ret ERRNO_ISDIR
     else if isOpenPipe (openFile s fd) \<or> isOpenStdio (openFile s fd) then ret ERRNO_BADF
     else (case openFile s fd of
       None \<Rightarrow> ret (badf_or s fd ERRNO_NOTCAPABLE)
     | Some file \<Rightarrow>
         if \<not> canReadFile file then ret ERRNO_NOTCAPABLE
         else (case resolveFileSize offset of
           Inl errno \<Rightarrow> ret errno
         | Inr st \<Rightarrow>
             bindM (readIntoIovs (r_bytes (recs s (d_record file))) st iovsPtr iovsLen) (\<lambda>total.
             seqM (writeU32 nreadPtr total) (ret ERRNO_SUCCESS)))))))"

section \<open>Directories, offsets and sizes\<close>

definition fdReaddir :: "int \<Rightarrow> int \<Rightarrow> int \<Rightarrow> int \<Rightarrow> int \<Rightarrow> int wasi" where
  "fdReaddir fd bufferPtr bufferLength cookie bufferUsedPtr = seqM throwIfAborted (with_state (\<lambda>s.
     case directoryForFd s fd of
       None \<Rightarrow> ret (badf_or s fd ERRNO_NOTDIR)
     | Some entries \<Rightarrow>
         (case readdirStartIndex cookie of
            None \<Rightarrow> ret ERRNO_INVAL
          | Some startIndex \<Rightarrow>
              let a = js_index (mem_size (memory s)) bufferPtr;
                  b = js_index (mem_size (memory s)) (bufferPtr + js_u32 bufferLength);
                  (used, out) = readdir_fill (drop (nat startIndex) entries) startIndex
                                  (mem_load (memory s) a (nat (b - a))) 0 in
              seqM (set_memory a out)
              (seqM (writeU32 bufferUsedPtr (int used)) (ret ERRNO_SUCCESS)))))"

text \<open>\<open>file.record\<close> is \<open>undefined\<close> for a directory, so \<open>WHENCE_END\<close> on one is a \<open>TypeError\<close>.\<close>

definition resolveFileSeekOffset :: "descr \<Rightarrow> int \<Rightarrow> int \<Rightarrow> (int + int) wasi" where
  "resolveFileSeekOffset file offset whence = with_state (\<lambda>s.
     let finish = (\<lambda>base. let nextOffset = base + offset in
           if nextOffset < 0 then ret (Inl ERRNO_INVAL)
           else if nextOffset > max_safe_integer then ret (Inl ERRNO_OVERFLOW)
           else ret (Inr nextOffset)) in
     if whence = 0 then finish 0
     else if whence = 1 then finish (offset_of s file)
     else if whence = 2 then
       (if isOpenDirectory (Some file) then throw TypeError else finish (record_size s (d_record file)))
     else ret (Inl ERRNO_INVAL))"

definition fdSeek :: "int \<Rightarrow> int \<Rightarrow> int \<Rightarrow> int \<Rightarrow> int wasi" where
  "fdSeek fd offset whence newOffsetPtr = seqM throwIfAborted (with_state (\<lambda>s.
     case openFile s fd of
       None \<Rightarrow> ret (badf_or s fd ERRNO_ACCESS)
     | Some file \<Rightarrow>
         if isOpenPipe (Some file) \<or> isOpenStdio (Some file) then ret (badf_or s fd ERRNO_ACCESS)
         else bindM (resolveFileSeekOffset file offset whence) (\<lambda>seek.
           case seek of
             Inl errno \<Rightarrow> ret errno
           | Inr offset' \<Rightarrow>
               seqM (modifyM (set_offset fd file offset'))
               (seqM (writeU64 newOffsetPtr offset') (ret ERRNO_SUCCESS)))))"

definition fdTell :: "int \<Rightarrow> int \<Rightarrow> int wasi" where
  "fdTell fd offsetPtr = seqM throwIfAborted (with_state (\<lambda>s.
     case openFile s fd of
       None \<Rightarrow> ret (badf_or s fd ERRNO_ACCESS)
     | Some file \<Rightarrow>
         if isOpenPipe (Some file) \<or> isOpenStdio (Some file) then ret (badf_or s fd ERRNO_ACCESS)
         else seqM (writeU64 offsetPtr (offset_of s file)) (ret ERRNO_SUCCESS)))"

definition fdFilestatGet :: "int \<Rightarrow> int \<Rightarrow> int wasi" where
  "fdFilestatGet fd filestatPtr = seqM throwIfAborted (with_state (\<lambda>s.
     case fdStat s fd of
       None \<Rightarrow> ret ERRNO_BADF
     | Some st \<Rightarrow>
         seqM (writeFilestat filestatPtr (fs_filetype st) (fs_size st)) (ret ERRNO_SUCCESS)))"

text \<open>\<open>file.record\<close> is \<open>undefined\<close> for a pipe or a standard stream too: using it is a \<open>TypeError\<close>.\<close>

definition resizeOpenFile :: "descr \<Rightarrow> int \<Rightarrow> bool wasi" where
  "resizeOpenFile file sz = with_state (\<lambda>s.
     if d_kind file \<noteq> RegularFile then throw TypeError
     else if record_size s (d_record file) = sz then ret False
     else seqM (new_array sz)
       (seqM (modifyM (set_record (d_record file) (\<lambda>r. r\<lparr>r_bytes := extended (take (nat sz) (r_bytes r)) sz\<rparr>)))
       (ret True)))"

text \<open>The answer every sizing call gives for a number without a descriptor.\<close>

definition no_file_errno :: "runtime \<Rightarrow> int \<Rightarrow> int" where
  "no_file_errno s fd =
     (case fdStat s fd of
        None \<Rightarrow> ERRNO_BADF
      | Some st \<Rightarrow> if fs_filetype st = FILETYPE_DIRECTORY then ERRNO_ISDIR else ERRNO_NOTCAPABLE)"

definition fdFilestatSetSize :: "int \<Rightarrow> int \<Rightarrow> int wasi" where
  "fdFilestatSetSize fd sz = seqM throwIfAborted (with_state (\<lambda>s.
     case openFile s fd of
       None \<Rightarrow> ret (no_file_errno s fd)
     | Some file \<Rightarrow>
         if isOpenDirectory (Some file) then ret ERRNO_ISDIR
         else if \<not> canResizeFile file then ret ERRNO_NOTCAPABLE
         else (case resolveFileSize sz of
           Inl errno \<Rightarrow> ret errno
         | Inr nextSize \<Rightarrow>
             bindM (resizeOpenFile file nextSize) (\<lambda>resized.
             seqM (if resized then markOpenFileDirty file else ret ()) (ret ERRNO_SUCCESS)))))"

definition fdFilestatSetTimes :: "int \<Rightarrow> int \<Rightarrow> int \<Rightarrow> int \<Rightarrow> int wasi" where
  "fdFilestatSetTimes fd atim mtim fstFlags = seqM throwIfAborted (with_state (\<lambda>s.
     if \<not> isSupportedFilestatSetTimesFlags fstFlags then ret ERRNO_INVAL
     else (case openFile s fd of
       None \<Rightarrow> ret (no_file_errno s fd)
     | Some file \<Rightarrow>
         if isOpenDirectory (Some file) then ret ERRNO_ISDIR
         else ret (if canSetFileTimes file then ERRNO_SUCCESS else ERRNO_NOTCAPABLE))))"

definition fdAllocate :: "int \<Rightarrow> int \<Rightarrow> int \<Rightarrow> int wasi" where
  "fdAllocate fd offset len = seqM throwIfAborted (with_state (\<lambda>s.
     case openFile s fd of
       None \<Rightarrow> ret (no_file_errno s fd)
     | Some file \<Rightarrow>
         if isOpenDirectory (Some file) then ret ERRNO_ISDIR
         else if \<not> canAllocateFile file then ret ERRNO_NOTCAPABLE
         else (case resolveFileAllocation offset len of
           Inl errno \<Rightarrow> ret errno
         | Inr None \<Rightarrow> ret ERRNO_SUCCESS
         | Inr (Some sz) \<Rightarrow>
             if d_kind file \<noteq> RegularFile then throw TypeError
             else if sz > record_size s (d_record file) then
               bindM (resizeOpenFile file sz) (\<lambda>resized.
               seqM (if resized then markOpenFileDirty file else ret ()) (ret ERRNO_SUCCESS))
             else ret ERRNO_SUCCESS)))"

definition fdAdvise :: "int \<Rightarrow> int \<Rightarrow> int \<Rightarrow> int \<Rightarrow> int wasi" where
  "fdAdvise fd offset len advice = seqM throwIfAborted (with_state (\<lambda>s.
     case openFile s fd of
       None \<Rightarrow> ret (no_file_errno s fd)
     | Some file \<Rightarrow>
         if isOpenDirectory (Some file) then ret ERRNO_ISDIR
         else if d_rights file AND RIGHT_FD_ADVISE = 0 then ret ERRNO_NOTCAPABLE
         else if \<not> isSupportedAdvice advice then ret ERRNO_INVAL
         else (case resolveFileRange offset len of Inl errno \<Rightarrow> ret errno | Inr _ \<Rightarrow> ret ERRNO_SUCCESS)))"

definition fdSync :: "int \<Rightarrow> int \<Rightarrow> int wasi" where
  "fdSync fd requiredRight = seqM throwIfAborted (with_state (\<lambda>s.
     case openFile s fd of
       None \<Rightarrow> ret (no_file_errno s fd)
     | Some file \<Rightarrow>
         if isOpenDirectory (Some file) then ret ERRNO_ISDIR
         else ret (if d_writable file \<and> d_rights file AND requiredRight \<noteq> 0
                   then ERRNO_SUCCESS else ERRNO_NOTCAPABLE)))"

section \<open>Facts about the loops\<close>

lemma length_js_slice: "length (js_slice xs a b) \<le> length xs"
  by (simp add: js_slice_def Let_def)

lemma js_slice_within:
  "0 \<le> a \<Longrightarrow> a \<le> b \<Longrightarrow> b \<le> int (length xs) \<Longrightarrow> js_slice xs a b = take (nat (b - a)) (drop (nat a) xs)"
  by (simp add: js_slice_def js_index_def Let_def)

lemma length_mem_slice:
  assumes "0 \<le> a" "0 \<le> n" "0 \<le> mem_size m"
  shows "int (length (mem_slice m a (a + n))) \<le> n"
  using assms by (auto simp: mem_slice_def js_index_def Let_def min_def)

lemma mem_slice_within:
  "0 \<le> a \<Longrightarrow> 0 \<le> n \<Longrightarrow> a + n \<le> mem_size m \<Longrightarrow> mem_slice m a (a + n) = mem_load m a (nat n)"
  by (simp add: mem_slice_def js_index_def Let_def)

lemma get_int_cases:
  obtains v where "get_int p n s = (Inr v, s)" "0 \<le> v" "0 \<le> mem_size (memory s)"
    "v = le_value (mem_load (memory s) p n)" "0 \<le> p" "p + int n \<le> mem_size (memory s)"
  | "get_int p n s = (Inl RangeError, s)"
proof (cases "get_bytes (memory s) p n")
  case None
  then show ?thesis using that(2) by (simp add: get_int_def)
next
  case (Some bs)
  then show ?thesis
    using that(1) le_value_range [of bs] by (auto simp: get_int_def get_bytes_def split: if_splits)
qed

lemma read_iov_chunks_result:
  "(\<exists>cs n. read_iov_chunks k p s = (Inr (cs, n), s) \<and> int (length (concat cs)) \<le> n) \<or>
   read_iov_chunks k p s = (Inl RangeError, s)"
proof (induction k arbitrary: p)
  case (Suc k)
  show ?case
  proof (cases rule: get_int_cases [of p 4 s])
    case (1 a)
    note ptr = this
    show ?thesis
    proof (cases rule: get_int_cases [of "p + 4" 4 s])
      case (1 n)
      have "int (length (mem_slice (memory s) a (a + n))) \<le> n"
        using length_mem_slice ptr 1 by blast
      then show ?thesis
        using Suc.IH [of "p + 8"] ptr 1 by (fastforce simp: readU32_def Let_def run_bind)
    qed (use ptr in \<open>simp add: readU32_def\<close>)
  qed (simp add: readU32_def)
qed simp

lemma wp_readIovChunks:
  assumes "\<And>cs n. int (length (concat cs)) \<le> n \<Longrightarrow> Q (cs, n) s" "E RangeError s"
  shows "wp (readIovChunks p k) Q E s"
  using read_iov_chunks_result [of "nat k" p s] assms by (auto simp: wp_def readIovChunks_def)

end
