(* ===== verification/Path_Open.thy ===== *)
theory Path_Open imports Fd_IO begin

text \<open>
  \<open>path_open\<close> and \<open>path_open2\<close> of \<open>apps/web/src/wasi-module.js\<close> (lines 3085 to 3782): the choice of
  the mount, the file and directory openers of the three mounts, and the prestat calls. What a
  request can get is bounded by the rights of the mount; nothing is created or truncated outside the
  scratch tree and a writable workspace.
\<close>

section \<open>Preopens\<close>

definition fdPrestatGet :: "int \<Rightarrow> int \<Rightarrow> int wasi" where
  "fdPrestatGet fd prestatPtr = seqM throwIfAborted (with_state (\<lambda>s.
     case preopenPath s fd of
       None \<Rightarrow> ret ERRNO_BADF
     | Some path \<Rightarrow>
         seqM (writeU32 prestatPtr 0)
         (seqM (writeU32 (prestatPtr + 4) (int (length (encodeText path)))) (ret ERRNO_SUCCESS))))"

definition fdPrestatDirName :: "int \<Rightarrow> int \<Rightarrow> int \<Rightarrow> int wasi" where
  "fdPrestatDirName fd pathPtr pathLen = seqM throwIfAborted (with_state (\<lambda>s.
     case preopenPath s fd of
       None \<Rightarrow> ret ERRNO_BADF
     | Some path \<Rightarrow>
         if js_u32 pathLen < int (length (encodeText path)) then ret ERRNO_INVAL
         else seqM (set_memory pathPtr (encodeText path)) (ret ERRNO_SUCCESS)))"

section \<open>Installing an opened descriptor\<close>

definition open_next_fd :: "descr \<Rightarrow> int \<Rightarrow> int wasi" where
  "open_next_fd file openedFdPtr = with_state (\<lambda>s.
     let openedFd = nextFileFd s in
     seqM (modifyM (\<lambda>s. s\<lparr>nextFileFd := nextFileFd s + 1\<rparr>))
     (seqM (modifyM (set_descr openedFd file))
     (seqM (writeU32 openedFdPtr openedFd) (ret ERRNO_SUCCESS))))"

definition creates_or_truncates :: "int \<Rightarrow> bool" where
  "creates_or_truncates oflags \<longleftrightarrow> oflags AND (OFLAGS_CREAT OR OFLAGS_EXCL OR OFLAGS_TRUNC) \<noteq> 0"

definition rights_or_default :: "int \<Rightarrow> int \<Rightarrow> int" where
  "rights_or_default requested allowed = (if requested = 0 then allowed else requested AND allowed)"

section \<open>Directories\<close>

definition openPackageRootDirectory :: "string \<Rightarrow> int \<Rightarrow> int \<Rightarrow> int \<Rightarrow> int \<Rightarrow> int wasi" where
  "openPackageRootDirectory path requestedRights rightsInheriting fdflags openedFdPtr = with_state (\<lambda>s.
     if fdflags \<noteq> 0 then ret ERRNO_INVAL
     else if \<not> allowsRights requestedRights WORKSPACE_RIGHTS \<or>
             \<not> allowsRights rightsInheriting REGULAR_FILE_RIGHTS then ret ERRNO_NOTCAPABLE
     else if map_has (pr_files s) path then ret ERRNO_NOTDIR
     else if path \<notin> set (pr_dirs s) \<and> \<not> pathHasChildren (pr_files s) (pr_dirs s) path then ret ERRNO_NOENT
     else open_next_fd (dir_descr (Some PackageRoot) path requestedRights rightsInheriting fdflags) openedFdPtr)"

definition openScratchDirectory :: "string \<Rightarrow> int \<Rightarrow> int \<Rightarrow> int \<Rightarrow> int \<Rightarrow> int wasi" where
  "openScratchDirectory path requestedRights rightsInheriting fdflags openedFdPtr = with_state (\<lambda>s.
     if fdflags \<noteq> 0 then ret ERRNO_INVAL
     else if \<not> allowsRights requestedRights TMP_RIGHTS \<or>
             \<not> allowsRights rightsInheriting SCRATCH_FILE_RIGHTS then ret ERRNO_NOTCAPABLE
     else if map_has (sc_files s) path then ret ERRNO_NOTDIR
     else if path \<notin> set (sc_dirs s) \<and> \<not> pathHasChildren (sc_files s) (sc_dirs s) path then ret ERRNO_NOENT
     else open_next_fd (dir_descr None path requestedRights rightsInheriting fdflags) openedFdPtr)"

definition openWorkspaceDirectory :: "string \<Rightarrow> int \<Rightarrow> int \<Rightarrow> int \<Rightarrow> int \<Rightarrow> int wasi" where
  "openWorkspaceDirectory path requestedRights rightsInheriting fdflags openedFdPtr = with_state (\<lambda>s.
     if fdflags \<noteq> 0 then ret ERRNO_INVAL
     else if \<not> allowsRights requestedRights WRITABLE_WORKSPACE_RIGHTS \<or>
             \<not> allowsRights rightsInheriting SCRATCH_FILE_RIGHTS then ret ERRNO_NOTCAPABLE
     else if map_has (ws_files s) path then ret ERRNO_NOTDIR
     else if path \<noteq> [] \<and> path \<notin> set (ws_dirs s) \<and> \<not> pathHasChildren (ws_files s) (ws_dirs s) path
       then ret ERRNO_NOENT
     else open_next_fd (dir_descr (Some Workspace) path requestedRights rightsInheriting fdflags) openedFdPtr)"

definition openReadOnlyWorkspaceDirectory :: "string \<Rightarrow> int \<Rightarrow> int \<Rightarrow> int \<Rightarrow> int \<Rightarrow> int wasi" where
  "openReadOnlyWorkspaceDirectory path requestedRights rightsInheriting fdflags openedFdPtr = with_state (\<lambda>s.
     if fdflags \<noteq> 0 then ret ERRNO_INVAL
     else if map_has (ws_files s) path then ret ERRNO_NOTDIR
     else if path \<noteq> [] \<and> path \<notin> set (ws_dirs s) \<and> \<not> pathHasChildren (ws_files s) (ws_dirs s) path
       then ret ERRNO_NOENT
     else open_next_fd (dir_descr (Some Workspace) path (rights_or_default requestedRights WORKSPACE_RIGHTS)
            (rightsInheriting AND REGULAR_FILE_RIGHTS) 0) openedFdPtr)"

section \<open>Files\<close>

definition new_record :: "string \<Rightarrow> file_record" where
  "new_record path = \<lparr>r_bytes = [], r_path = Some path, r_fallback = False, r_mtime = None\<rparr>"

definition alloc_record :: "string \<Rightarrow> nat wasi" where
  "alloc_record path = with_state (\<lambda>s.
     let r = nextRef s in
     seqM (modifyM (\<lambda>s. s\<lparr>recs := (recs s)(r := new_record path), nextRef := r + 1\<rparr>)) (ret r))"

definition openScratchFile :: "string \<Rightarrow> int \<Rightarrow> int \<Rightarrow> int \<Rightarrow> int \<Rightarrow> int \<Rightarrow> int \<Rightarrow> int \<Rightarrow> int wasi" where
  "openScratchFile basePath pathPtr pathLen oflags rightsBase rightsInheriting fdflags openedFdPtr =
     with_state (\<lambda>s.
     if fdflags AND NOT FDFLAGS_APPEND \<noteq> 0 then ret ERRNO_INVAL
     else
       let requestedRights = rights_or_default rightsBase SCRATCH_FILE_RIGHTS;
           directoryRights = rights_or_default rightsBase TMP_RIGHTS;
           inheritingRights = rightsInheriting AND SCRATCH_FILE_RIGHTS in
       case resolveMountedPath basePath (readString s pathPtr pathLen) TMP_PREOPEN_PATH False False of
         Inl errno \<Rightarrow> ret errno
       | Inr path \<Rightarrow>
           if oflags AND OFLAGS_DIRECTORY \<noteq> 0 then
             openScratchDirectory path directoryRights inheritingRights fdflags openedFdPtr
           else if \<not> allowsRights requestedRights SCRATCH_FILE_RIGHTS \<or>
                   \<not> allowsRights inheritingRights SCRATCH_FILE_RIGHTS then ret ERRNO_NOTCAPABLE
           else
             let wantsWrite = (requestedRights AND (RIGHT_FD_WRITE OR RIGHT_FD_ALLOCATE) \<noteq> 0);
                 wantsCreate = (oflags AND OFLAGS_CREAT \<noteq> 0);
                 wantsTruncate = (oflags AND OFLAGS_TRUNC \<noteq> 0) in
             if (wantsCreate \<or> wantsTruncate) \<and> \<not> wantsWrite then ret ERRNO_NOTCAPABLE
             else if path \<in> set (sc_dirs s) \<or> pathHasChildren (sc_files s) (sc_dirs s) path then ret ERRNO_ISDIR
             else (case scratchParentStatus (sc_files s) (sc_dirs s) path of
               Some errno \<Rightarrow> ret errno
             | None \<Rightarrow>
                 let opened = (\<lambda>file.
                   seqM (if wantsTruncate then modifyM (set_record file (\<lambda>r. r\<lparr>r_bytes := []\<rparr>)) else ret ())
                   (with_state (\<lambda>s.
                     open_next_fd (file_descr None path file requestedRights fdflags True
                       (if fdflags AND FDFLAGS_APPEND \<noteq> 0 then record_size s file else 0)) openedFdPtr))) in
                 (case map_of (sc_files s) path of
                    None \<Rightarrow>
                      if \<not> wantsCreate then ret ERRNO_NOENT
                      else bindM (alloc_record path) (\<lambda>file.
                        seqM (modifyM (\<lambda>s. s\<lparr>sc_files := AList.update path file (sc_files s)\<rparr>)) (opened file))
                  | Some file \<Rightarrow>
                      if wantsCreate \<and> oflags AND OFLAGS_EXCL \<noteq> 0 then ret ERRNO_EXIST
                      else opened file)))"

definition openWorkspaceFile :: "string \<Rightarrow> int \<Rightarrow> int \<Rightarrow> int \<Rightarrow> int \<Rightarrow> int \<Rightarrow> int \<Rightarrow> int \<Rightarrow> int wasi" where
  "openWorkspaceFile basePath pathPtr pathLen oflags rightsBase rightsInheriting fdflags openedFdPtr =
     with_state (\<lambda>s.
     if fdflags AND NOT FDFLAGS_APPEND \<noteq> 0 then ret ERRNO_INVAL
     else
       let requestedRights = rights_or_default rightsBase SCRATCH_FILE_RIGHTS;
           directoryRights = rights_or_default rightsBase WRITABLE_WORKSPACE_RIGHTS;
           inheritingRights = rightsInheriting AND SCRATCH_FILE_RIGHTS in
       case resolveMountedPath basePath (readString s pathPtr pathLen) WORKSPACE_PREOPEN_PATH (ws_writable s) False of
         Inl errno \<Rightarrow> ret errno
       | Inr path \<Rightarrow>
           if oflags AND OFLAGS_DIRECTORY \<noteq> 0 then
             openWorkspaceDirectory path directoryRights inheritingRights fdflags openedFdPtr
           else if \<not> allowsRights requestedRights SCRATCH_FILE_RIGHTS \<or>
                   \<not> allowsRights inheritingRights SCRATCH_FILE_RIGHTS then ret ERRNO_NOTCAPABLE
           else
             let wantsWrite = (requestedRights AND (RIGHT_FD_WRITE OR RIGHT_FD_ALLOCATE) \<noteq> 0);
                 wantsCreate = (oflags AND OFLAGS_CREAT \<noteq> 0);
                 wantsTruncate = (oflags AND OFLAGS_TRUNC \<noteq> 0) in
             if (wantsCreate \<or> wantsTruncate) \<and> \<not> wantsWrite then ret ERRNO_NOTCAPABLE
             else if path \<in> set (ws_dirs s) \<or> pathHasChildren (ws_files s) (ws_dirs s) path then ret ERRNO_ISDIR
             else (case scratchParentStatus (ws_files s) (ws_dirs s) path of
               Some errno \<Rightarrow> ret errno
             | None \<Rightarrow>
                 let opened = (\<lambda>file created.
                   seqM (if wantsTruncate
                         then modifyM (set_record file (\<lambda>r. r\<lparr>r_bytes := [], r_fallback := False\<rparr>)) else ret ())
                   (seqM (if created \<or> wantsTruncate then markWorkspaceDirty else ret ())
                   (with_state (\<lambda>s.
                     open_next_fd (file_descr (Some Workspace) path file requestedRights fdflags True
                       (if fdflags AND FDFLAGS_APPEND \<noteq> 0 then record_size s file else 0)) openedFdPtr)))) in
                 (case map_of (ws_files s) path of
                    None \<Rightarrow>
                      if \<not> wantsCreate then ret ERRNO_NOENT
                      else bindM (alloc_record path) (\<lambda>file.
                        seqM (modifyM (\<lambda>s. s\<lparr>ws_files := AList.update path file (ws_files s)\<rparr>)) (opened file True))
                  | Some file \<Rightarrow>
                      if wantsCreate \<and> oflags AND OFLAGS_EXCL \<noteq> 0 then ret ERRNO_EXIST
                      else opened file False)))"

definition openPackageRootPath :: "string \<Rightarrow> int \<Rightarrow> int \<Rightarrow> int \<Rightarrow> int \<Rightarrow> int \<Rightarrow> int \<Rightarrow> int \<Rightarrow> int wasi" where
  "openPackageRootPath basePath pathPtr pathLen oflags rightsBase rightsInheriting fdflags openedFdPtr =
     with_state (\<lambda>s.
     let pathText = readString s pathPtr pathLen in
     case rootVirtualMountPath basePath pathText of
       Some (Inl errno) \<Rightarrow> ret errno
     | Some (Inr (Workspace, path)) \<Rightarrow>
         if path \<noteq> [] \<and> workspacePathKind s path \<noteq> Some DirectoryPath then ret ERRNO_NOTCAPABLE
         else if creates_or_truncates oflags then ret ERRNO_NOTCAPABLE
         else
           let workspaceRights = (if ws_writable s then WRITABLE_WORKSPACE_RIGHTS else WORKSPACE_RIGHTS);
               workspaceFileRights = (if ws_writable s then SCRATCH_FILE_RIGHTS else REGULAR_FILE_RIGHTS);
               directoryRights = rights_or_default rightsBase workspaceRights;
               inheritingRights = rightsInheriting AND workspaceFileRights in
           if \<not> ws_writable s then
             openReadOnlyWorkspaceDirectory path directoryRights inheritingRights fdflags openedFdPtr
           else openWorkspaceDirectory path directoryRights inheritingRights fdflags openedFdPtr
     | Some (Inr (Scratch, path)) \<Rightarrow>
         if path \<noteq> [] \<and> scratchPathKind s path \<noteq> Some DirectoryPath then ret ERRNO_NOTCAPABLE
         else if creates_or_truncates oflags then ret ERRNO_NOTCAPABLE
         else openScratchDirectory path (rights_or_default rightsBase TMP_RIGHTS)
                (rightsInheriting AND SCRATCH_FILE_RIGHTS) fdflags openedFdPtr
     | _ \<Rightarrow>
         (case resolvePackageRootPath basePath pathText of
            Inl errno \<Rightarrow> ret errno
          | Inr path \<Rightarrow>
              if oflags AND OFLAGS_DIRECTORY \<noteq> 0 then
                openPackageRootDirectory path rightsBase rightsInheriting fdflags openedFdPtr
              else if creates_or_truncates oflags \<or> fdflags AND FDFLAGS_APPEND \<noteq> 0 \<or>
                      requestsWriteRights rightsBase \<or> requestsWriteRights rightsInheriting
              then ret ERRNO_NOTCAPABLE
              else if \<not> allowsRights rightsBase REGULAR_FILE_RIGHTS then ret ERRNO_NOTCAPABLE
              else if path \<in> set (pr_dirs s) \<or> pathHasChildren (pr_files s) (pr_dirs s) path then ret ERRNO_ISDIR
              else (case map_of (pr_files s) path of
                None \<Rightarrow> ret ERRNO_NOENT
              | Some file \<Rightarrow>
                  open_next_fd (file_descr (Some PackageRoot) path file
                    (if rightsBase = 0 then REGULAR_FILE_RIGHTS else rightsBase) 0 False 0) openedFdPtr)))"

section \<open>\<open>path_open\<close>\<close>

definition openReadOnlyWorkspacePath :: "string \<Rightarrow> string \<Rightarrow> int \<Rightarrow> int \<Rightarrow> int \<Rightarrow> int \<Rightarrow> int \<Rightarrow> int wasi" where
  "openReadOnlyWorkspacePath base pathText oflags rightsBase rightsInheriting fdflags openedFdPtr =
     with_state (\<lambda>s.
     case resolveScratchPath base pathText True of
       Inl errno \<Rightarrow> ret errno
     | Inr path \<Rightarrow>
         if oflags AND OFLAGS_DIRECTORY \<noteq> 0 then
           (if creates_or_truncates oflags \<or> fdflags AND FDFLAGS_APPEND \<noteq> 0 then ret ERRNO_NOTCAPABLE
            else openReadOnlyWorkspaceDirectory path rightsBase rightsInheriting fdflags openedFdPtr)
         else if oflags AND (OFLAGS_CREAT OR OFLAGS_DIRECTORY OR OFLAGS_EXCL OR OFLAGS_TRUNC) \<noteq> 0 \<or>
                 fdflags AND FDFLAGS_APPEND \<noteq> 0 \<or>
                 requestsWriteRights rightsBase \<or> requestsWriteRights rightsInheriting
           then ret ERRNO_NOTCAPABLE
         else if path = [] then ret ERRNO_NOTCAPABLE
         else (case map_of (ws_files s) path of
           None \<Rightarrow> ret ERRNO_NOENT
         | Some file \<Rightarrow>
             open_next_fd (file_descr None path file REGULAR_FILE_RIGHTS 0 False 0) openedFdPtr))"

definition pathOpen ::
  "int \<Rightarrow> int \<Rightarrow> int \<Rightarrow> int \<Rightarrow> int \<Rightarrow> int \<Rightarrow> int \<Rightarrow> int \<Rightarrow> int \<Rightarrow> int wasi" where
  "pathOpen fd dirflags pathPtr pathLen oflags rightsBase rightsInheriting fdflags openedFdPtr =
     seqM throwIfAborted (with_state (\<lambda>s.
     if dirflags AND NOT LOOKUP_SYMLINK_FOLLOW \<noteq> 0 then ret ERRNO_INVAL
     else
       let pathText = readString s pathPtr pathLen;
           rest = with_state (\<lambda>s.
             case scratchBasePath s fd of
               Some scratchBase \<Rightarrow>
                 openScratchFile scratchBase pathPtr pathLen oflags rightsBase rightsInheriting fdflags openedFdPtr
             | None \<Rightarrow>
                 (case packageRootBasePath s fd of
                    Some packageRootBase \<Rightarrow>
                      openPackageRootPath packageRootBase pathPtr pathLen oflags rightsBase rightsInheriting fdflags openedFdPtr
                  | None \<Rightarrow>
                      (case workspaceBasePath s fd of
                         None \<Rightarrow> ret (badf_or s fd ERRNO_NOTCAPABLE)
                       | Some base \<Rightarrow>
                           openReadOnlyWorkspacePath base pathText oflags rightsBase rightsInheriting fdflags openedFdPtr))) in
       case mutableWorkspaceBasePath s fd of
         Some base \<Rightarrow>
           openWorkspaceFile base pathPtr pathLen oflags rightsBase rightsInheriting fdflags openedFdPtr
       | None \<Rightarrow>
           (case (if ws_writable s then workspaceCwdBasePathForPathRequest s fd pathText else None) of
              Some base \<Rightarrow>
                bindM (openWorkspaceFile base pathPtr pathLen oflags rightsBase rightsInheriting fdflags openedFdPtr)
                (\<lambda>errno.
                  if errno \<noteq> ERRNO_NOENT \<or> pathOpenRequiresWorkspace oflags rightsBase rightsInheriting fdflags
                  then ret errno else rest)
            | None \<Rightarrow> rest)))"

definition pathOpen2 ::
  "int \<Rightarrow> int \<Rightarrow> int \<Rightarrow> int \<Rightarrow> int \<Rightarrow> int \<Rightarrow> int \<Rightarrow> int \<Rightarrow> int \<Rightarrow> int \<Rightarrow> int wasi" where
  "pathOpen2 fd dirflags pathPtr pathLen oflags rightsBase rightsInheriting fdflags flagsExt openedFdPtr =
     (if flagsExt AND NOT FDFLAGSEXT_MASK \<noteq> 0 then ret ERRNO_INVAL
      else bindM (pathOpen fd dirflags pathPtr pathLen oflags rightsBase rightsInheriting fdflags openedFdPtr)
        (\<lambda>errno.
          if errno = ERRNO_SUCCESS \<and> flagsExt \<noteq> 0 then
            bindM (readU32 openedFdPtr) (\<lambda>openedFd.
            seqM (modifyM (\<lambda>s. s\<lparr>fdFlagsExt := AList.update openedFd flagsExt (fdFlagsExt s)\<rparr>)) (ret errno))
          else ret errno))"

end
