(* ===== verification/Path_Ops.thy ===== *)
theory Path_Ops imports Path_Open begin

text \<open>
  The path calls of \<open>apps/web/src/wasi-module.js\<close> other than \<open>path_open\<close>: status, times, links, the
  working directory, creating and removing directories, unlinking, and renaming in the scratch tree
  and in the workspace (lines 2868 to 3083, 3784 to 4190 and 4539 to 4683).
\<close>

section \<open>Status, times and links\<close>

definition pathFilestatGet :: "int \<Rightarrow> int \<Rightarrow> int \<Rightarrow> int \<Rightarrow> int \<Rightarrow> int wasi" where
  "pathFilestatGet fd flags pathPtr pathLen filestatPtr = seqM throwIfAborted (with_state (\<lambda>s.
     if flags AND NOT LOOKUP_SYMLINK_FOLLOW \<noteq> 0 then ret ERRNO_INVAL
     else
       let path = readString s pathPtr pathLen;
           st = (case packageRootPathStat s fd path of
                   Some st \<Rightarrow> Some st
                 | None \<Rightarrow>
                     (case workspacePathStat s fd path of
                        Some st \<Rightarrow> Some st | None \<Rightarrow> scratchPathStat s fd path)) in
       case st of
         None \<Rightarrow> ret (badf_or s fd ERRNO_ACCESS)
       | Some (Inl errno) \<Rightarrow> ret errno
       | Some (Inr st) \<Rightarrow>
           seqM (writeFilestat filestatPtr (st_filetype st) (st_size st)) (ret ERRNO_SUCCESS)))"

definition times_errno :: "file_map \<Rightarrow> string list \<Rightarrow> string \<Rightarrow> int" where
  "times_errno files dirs path =
     (if path \<in> set dirs \<or> pathHasChildren files dirs path then ERRNO_ISDIR
      else if map_has files path then ERRNO_SUCCESS else ERRNO_NOENT)"

definition pathFilestatSetTimes :: "int \<Rightarrow> int \<Rightarrow> int \<Rightarrow> int \<Rightarrow> int \<Rightarrow> int \<Rightarrow> int \<Rightarrow> int wasi" where
  "pathFilestatSetTimes fd flags pathPtr pathLen atim mtim fstFlags = seqM throwIfAborted (with_state (\<lambda>s.
     if flags AND NOT LOOKUP_SYMLINK_FOLLOW \<noteq> 0 \<or> \<not> isSupportedFilestatSetTimesFlags fstFlags
     then ret ERRNO_INVAL
     else
       let path = readString s pathPtr pathLen in
       case (if ws_writable s then workspaceBasePathForRight s fd RIGHT_PATH_FILESTAT_SET_TIMES
             else Inl ERRNO_BADF) of
         Inr base \<Rightarrow>
           (case resolveMountedPath base path WORKSPACE_PREOPEN_PATH (ws_writable s) True of
              Inl errno \<Rightarrow> ret errno
            | Inr p \<Rightarrow> ret (times_errno (ws_files s) (ws_dirs s) p))
       | Inl _ \<Rightarrow>
           (case scratchBasePathForRight s fd RIGHT_PATH_FILESTAT_SET_TIMES of
              Inl errno \<Rightarrow> ret errno
            | Inr base \<Rightarrow>
                (case resolveMountedPath base path TMP_PREOPEN_PATH False True of
                   Inl errno \<Rightarrow> ret errno
                 | Inr p \<Rightarrow> ret (times_errno (sc_files s) (sc_dirs s) p)))))"

definition pathLink :: "int \<Rightarrow> int \<Rightarrow> int \<Rightarrow> int \<Rightarrow> int \<Rightarrow> int \<Rightarrow> int \<Rightarrow> int wasi" where
  "pathLink oldFd oldFlags oldPathPtr oldPathLen newFd newPathPtr newPathLen =
     seqM throwIfAborted (with_state (\<lambda>s.
     if oldFlags AND NOT LOOKUP_SYMLINK_FOLLOW \<noteq> 0 then ret ERRNO_INVAL
     else (case pathStat s oldFd (readString s oldPathPtr oldPathLen) of
       Inl errno \<Rightarrow> ret errno
     | Inr _ \<Rightarrow>
         (case resolvePathForFd s newFd (readString s newPathPtr newPathLen) of
            Inl errno \<Rightarrow> ret errno
          | Inr _ \<Rightarrow> ret ERRNO_NOTSUP))))"

definition pathReadlink :: "int \<Rightarrow> int \<Rightarrow> int \<Rightarrow> int \<Rightarrow> int \<Rightarrow> int \<Rightarrow> int wasi" where
  "pathReadlink fd pathPtr pathLen bufPtr bufLen bufUsedPtr = seqM throwIfAborted (with_state (\<lambda>s.
     case pathStat s fd (readString s pathPtr pathLen) of
       Inl errno \<Rightarrow> ret errno | Inr _ \<Rightarrow> ret ERRNO_INVAL))"

definition pathSymlink :: "int \<Rightarrow> int \<Rightarrow> int \<Rightarrow> int \<Rightarrow> int \<Rightarrow> int wasi" where
  "pathSymlink oldPathPtr oldPathLen fd newPathPtr newPathLen = seqM throwIfAborted (with_state (\<lambda>s.
     case resolvePathForFd s fd (readString s newPathPtr newPathLen) of
       Inl errno \<Rightarrow> ret errno | Inr _ \<Rightarrow> ret ERRNO_NOTSUP))"

section \<open>The working directory\<close>

definition getcwd :: "int \<Rightarrow> int \<Rightarrow> int wasi" where
  "getcwd pathPtr pathLenPtr = seqM throwIfAborted (with_state (\<lambda>s.
     let memoryLength = mem_size (memory s) in
     if checkedMemoryRange (js_u32 pathLenPtr) 4 memoryLength = None then ret ERRNO_FAULT
     else bindM (readU32 pathLenPtr) (\<lambda>maxPathLength.
       let cwdBytes = encodeText (rt_cwd s); cwdLength = int (length cwdBytes) in
       seqM (writeU32 pathLenPtr cwdLength)
       (if cwdLength > maxPathLength then ret ERRNO_RANGE
        else if js_u32 pathPtr = 0 \<or> maxPathLength = 0 then ret ERRNO_INVAL
        else if checkedMemoryRange (js_u32 pathPtr) maxPathLength memoryLength = None then ret ERRNO_FAULT
        else seqM (set_memory pathPtr cwdBytes) (ret ERRNO_SUCCESS)))))"

definition chdir :: "int \<Rightarrow> int \<Rightarrow> int wasi" where
  "chdir pathPtr pathLen = seqM throwIfAborted (with_state (\<lambda>s.
     case resolveWasiVirtualPath (rt_cwd s) (readString s pathPtr pathLen) of
       Inl errno \<Rightarrow> ret errno
     | Inr path \<Rightarrow>
         (case cwdPathKind s path of
            None \<Rightarrow> ret ERRNO_NOENT
          | Some FilePath \<Rightarrow> ret ERRNO_NOTDIR
          | Some DirectoryPath \<Rightarrow> seqM (modifyM (\<lambda>s. s\<lparr>rt_cwd := path\<rparr>)) (ret ERRNO_SUCCESS))))"

section \<open>Creating and removing\<close>

definition createWorkspaceDirectory :: "string \<Rightarrow> int \<Rightarrow> int \<Rightarrow> int wasi" where
  "createWorkspaceDirectory base pathPtr pathLen = with_state (\<lambda>s.
     case resolveMountedPath base (readString s pathPtr pathLen) WORKSPACE_PREOPEN_PATH (ws_writable s) False of
       Inl errno \<Rightarrow> ret errno
     | Inr path \<Rightarrow>
         if path \<in> set (ws_dirs s) \<or> map_has (ws_files s) path then ret ERRNO_EXIST
         else (case scratchParentStatus (ws_files s) (ws_dirs s) path of
           Some errno \<Rightarrow> ret errno
         | None \<Rightarrow>
             seqM (modifyM (\<lambda>s. s\<lparr>ws_dirs := set_add path (ws_dirs s)\<rparr>))
             (seqM markWorkspaceDirty (ret ERRNO_SUCCESS))))"

definition pathCreateDirectory :: "int \<Rightarrow> int \<Rightarrow> int \<Rightarrow> int wasi" where
  "pathCreateDirectory fd pathPtr pathLen = seqM throwIfAborted (with_state (\<lambda>s.
     let pathText = readString s pathPtr pathLen in
     case mutableWorkspaceBasePathForPathRequest s fd pathText of
       Some workspaceBase \<Rightarrow> createWorkspaceDirectory workspaceBase pathPtr pathLen
     | None \<Rightarrow>
         (case scratchBasePath s fd of
            None \<Rightarrow> ret (badf_or s fd ERRNO_NOTCAPABLE)
          | Some base \<Rightarrow>
              (case resolveMountedPath base pathText TMP_PREOPEN_PATH False False of
                 Inl errno \<Rightarrow> ret errno
               | Inr path \<Rightarrow>
                   if path \<in> set (sc_dirs s) \<or> map_has (sc_files s) path then ret ERRNO_EXIST
                   else (case scratchParentStatus (sc_files s) (sc_dirs s) path of
                     Some errno \<Rightarrow> ret errno
                   | None \<Rightarrow>
                       seqM (modifyM (\<lambda>s. s\<lparr>sc_dirs := set_add path (sc_dirs s)\<rparr>)) (ret ERRNO_SUCCESS))))))"

text \<open>The loops over \<open>this.openFiles.values()\<close> change the \<open>path\<close> of some descriptors.\<close>

definition map_descrs :: "(descr \<Rightarrow> descr) \<Rightarrow> runtime \<Rightarrow> runtime" where
  "map_descrs f s = s\<lparr>openFiles := map (\<lambda>(fd, file). (fd, f file)) (openFiles s)\<rparr>"

definition detachOpenScratchDirectory :: "string \<Rightarrow> runtime \<Rightarrow> runtime" where
  "detachOpenScratchDirectory path = map_descrs (\<lambda>f.
     if isOpenScratchDirectory (Some f) \<and> d_path f = Some path then f\<lparr>d_path := None\<rparr> else f)"

definition detachOpenWorkspaceDirectory :: "string \<Rightarrow> runtime \<Rightarrow> runtime" where
  "detachOpenWorkspaceDirectory path = map_descrs (\<lambda>f.
     if isOpenWorkspaceDirectory (Some f) \<and> d_path f = Some path then f\<lparr>d_path := None\<rparr> else f)"

definition detachOpenWorkspaceFile :: "string \<Rightarrow> runtime \<Rightarrow> runtime" where
  "detachOpenWorkspaceFile path = map_descrs (\<lambda>f.
     if d_mount f = Some Workspace \<and> \<not> isOpenDirectory (Some f) \<and> d_path f = Some path
     then f\<lparr>d_path := None\<rparr> else f)"

definition unlinkWorkspaceFile :: "string \<Rightarrow> int \<Rightarrow> int \<Rightarrow> int wasi" where
  "unlinkWorkspaceFile base pathPtr pathLen = with_state (\<lambda>s.
     case resolveMountedPath base (readString s pathPtr pathLen) WORKSPACE_PREOPEN_PATH (ws_writable s) False of
       Inl errno \<Rightarrow> ret errno
     | Inr path \<Rightarrow>
         if path \<in> set (ws_dirs s) \<or> pathHasChildren (ws_files s) (ws_dirs s) path then ret ERRNO_ISDIR
         else if \<not> map_has (ws_files s) path then ret ERRNO_NOENT
         else
           seqM (modifyM (detachOpenWorkspaceFile path))
           (seqM (modifyM (\<lambda>s. s\<lparr>ws_files := AList.delete path (ws_files s)\<rparr>))
           (seqM markWorkspaceDirty (ret ERRNO_SUCCESS))))"

definition pathUnlinkFile :: "int \<Rightarrow> int \<Rightarrow> int \<Rightarrow> int wasi" where
  "pathUnlinkFile fd pathPtr pathLen = seqM throwIfAborted (with_state (\<lambda>s.
     let pathText = readString s pathPtr pathLen in
     case mutableWorkspaceBasePathForPathRequest s fd pathText of
       Some workspaceBase \<Rightarrow> unlinkWorkspaceFile workspaceBase pathPtr pathLen
     | None \<Rightarrow>
         (case scratchBasePath s fd of
            None \<Rightarrow> ret (badf_or s fd ERRNO_NOTCAPABLE)
          | Some base \<Rightarrow>
              (case resolveMountedPath base pathText TMP_PREOPEN_PATH False False of
                 Inl errno \<Rightarrow> ret errno
               | Inr path \<Rightarrow>
                   if path \<in> set (sc_dirs s) \<or> pathHasChildren (sc_files s) (sc_dirs s) path then ret ERRNO_ISDIR
                   else if \<not> map_has (sc_files s) path then ret ERRNO_NOENT
                   else seqM (modifyM (\<lambda>s. s\<lparr>sc_files := AList.delete path (sc_files s)\<rparr>))
                     (ret ERRNO_SUCCESS)))))"

text \<open>The tests of \<open>pathRemoveDirectory\<close> and \<open>removeWorkspaceDirectory\<close> on a resolved path: \<open>None\<close>
  when the directory can go.\<close>

definition rmdir_errno :: "file_map \<Rightarrow> string list \<Rightarrow> string \<Rightarrow> string \<Rightarrow> int option" where
  "rmdir_errno files dirs base path =
     (if path = base then Some ERRNO_NOTCAPABLE
      else if map_has files path then Some ERRNO_NOTDIR
      else (case scratchParentStatus files dirs path of
        Some errno \<Rightarrow> Some errno
      | None \<Rightarrow>
          let hasChildren = pathHasChildren files dirs path in
          if path \<notin> set dirs then Some (if hasChildren then ERRNO_NOTEMPTY else ERRNO_NOENT)
          else if hasChildren then Some ERRNO_NOTEMPTY
          else None))"

definition removeWorkspaceDirectory :: "string \<Rightarrow> int \<Rightarrow> int \<Rightarrow> int wasi" where
  "removeWorkspaceDirectory base pathPtr pathLen = with_state (\<lambda>s.
     case resolveMountedPath base (readString s pathPtr pathLen) WORKSPACE_PREOPEN_PATH (ws_writable s) False of
       Inl errno \<Rightarrow> ret errno
     | Inr path \<Rightarrow>
         (case rmdir_errno (ws_files s) (ws_dirs s) base path of
            Some errno \<Rightarrow> ret errno
          | None \<Rightarrow>
              seqM (modifyM (detachOpenWorkspaceDirectory path))
              (seqM (modifyM (\<lambda>s. s\<lparr>ws_dirs := removeAll path (ws_dirs s)\<rparr>))
              (seqM markWorkspaceDirty (ret ERRNO_SUCCESS)))))"

definition pathRemoveDirectory :: "int \<Rightarrow> int \<Rightarrow> int \<Rightarrow> int wasi" where
  "pathRemoveDirectory fd pathPtr pathLen = seqM throwIfAborted (with_state (\<lambda>s.
     let pathText = readString s pathPtr pathLen in
     case mutableWorkspaceBasePathForPathRequest s fd pathText of
       Some workspaceBase \<Rightarrow> removeWorkspaceDirectory workspaceBase pathPtr pathLen
     | None \<Rightarrow>
         (case scratchBasePath s fd of
            None \<Rightarrow> ret (badf_or s fd ERRNO_NOTCAPABLE)
          | Some base \<Rightarrow>
              (case resolveMountedPath base pathText TMP_PREOPEN_PATH False False of
                 Inl errno \<Rightarrow> ret errno
               | Inr path \<Rightarrow>
                   (case rmdir_errno (sc_files s) (sc_dirs s) base path of
                      Some errno \<Rightarrow> ret errno
                    | None \<Rightarrow>
                        seqM (modifyM (\<lambda>s. s\<lparr>sc_dirs := removeAll path (sc_dirs s)\<rparr>))
                          (ret ERRNO_SUCCESS))))))"

section \<open>Renaming\<close>

definition retarget :: "nat \<Rightarrow> nat option \<Rightarrow> string \<Rightarrow> descr \<Rightarrow> descr" where
  "retarget file replaced targetPath f =
     (if d_kind f \<noteq> RegularFile then f
      else if d_record f = file then f\<lparr>d_path := Some targetPath\<rparr>
      else if replaced = Some (d_record f) then f\<lparr>d_path := None\<rparr>
      else f)"

definition drop_replaced :: "nat \<Rightarrow> nat option \<Rightarrow> runtime \<Rightarrow> runtime" where
  "drop_replaced file replaced s =
     (case replaced of
        Some r \<Rightarrow> if r \<noteq> file then set_record r (\<lambda>x. x\<lparr>r_path := None\<rparr>) s else s
      | None \<Rightarrow> s)"

definition renameScratchFile :: "string \<Rightarrow> string \<Rightarrow> nat \<Rightarrow> runtime \<Rightarrow> runtime" where
  "renameScratchFile sourcePath targetPath file s =
     (let replaced = map_of (sc_files s) targetPath;
          s1 = set_record file (\<lambda>x. x\<lparr>r_path := Some targetPath\<rparr>) (drop_replaced file replaced s) in
      map_descrs (retarget file replaced targetPath)
        (s1\<lparr>sc_files := AList.update targetPath file (AList.delete sourcePath (sc_files s))\<rparr>))"

definition renameWorkspaceFile :: "string \<Rightarrow> string \<Rightarrow> nat \<Rightarrow> runtime \<Rightarrow> runtime" where
  "renameWorkspaceFile sourcePath targetPath file s =
     (let replaced = map_of (ws_files s) targetPath;
          s1 = set_record file (\<lambda>x. x\<lparr>r_fallback := False, r_path := Some targetPath\<rparr>)
                 (drop_replaced file replaced s) in
      map_descrs (\<lambda>f. if d_mount f = Some Workspace then retarget file replaced targetPath f else f)
        (s1\<lparr>ws_files := AList.update targetPath file (AList.delete sourcePath (ws_files s))\<rparr>))"

definition move_records :: "string \<Rightarrow> string \<Rightarrow> file_map \<Rightarrow> record_store \<Rightarrow> record_store" where
  "move_records sourcePath targetPath files rs =
     foldl (\<lambda>rs (path, file).
       if at_or_below sourcePath path
       then rs(file := (rs file)\<lparr>r_path := Some (replacePathPrefix path sourcePath targetPath)\<rparr>)
       else rs) rs files"

definition move_descr :: "string \<Rightarrow> string \<Rightarrow> descr \<Rightarrow> descr" where
  "move_descr sourcePath targetPath f =
     (case d_path f of
        None \<Rightarrow> f
      | Some path \<Rightarrow>
          if at_or_below sourcePath path
          then f\<lparr>d_path := Some (replacePathPrefix path sourcePath targetPath)\<rparr> else f)"

text \<open>The scratch version rewrites the path of every descriptor, whatever its mount.\<close>

definition renameScratchDirectory :: "string \<Rightarrow> string \<Rightarrow> runtime \<Rightarrow> runtime" where
  "renameScratchDirectory sourcePath targetPath s =
     (let s1 = detachOpenScratchDirectory targetPath s in
      map_descrs (move_descr sourcePath targetPath)
        (s1\<lparr>sc_dirs := moved_dirs sourcePath targetPath (removeAll targetPath (sc_dirs s)),
            sc_files := moved_files sourcePath targetPath (sc_files s),
            recs := move_records sourcePath targetPath (sc_files s) (recs s)\<rparr>))"

definition renameWorkspaceDirectory :: "string \<Rightarrow> string \<Rightarrow> runtime \<Rightarrow> runtime" where
  "renameWorkspaceDirectory sourcePath targetPath s =
     (let s1 = detachOpenWorkspaceDirectory targetPath s in
      map_descrs (\<lambda>f. if d_mount f = Some Workspace then move_descr sourcePath targetPath f else f)
        (s1\<lparr>ws_dirs := moved_dirs sourcePath targetPath (removeAll targetPath (ws_dirs s)),
            ws_files := moved_files sourcePath targetPath (ws_files s),
            recs := move_records sourcePath targetPath (ws_files s) (recs s)\<rparr>))"

text \<open>The tests both renames make on two different resolved paths: the error number, or the record
  of the file to move, or \<open>None\<close> for a directory to move.\<close>

definition rename_check :: "file_map \<Rightarrow> string list \<Rightarrow> string \<Rightarrow> string \<Rightarrow> int + nat option" where
  "rename_check files dirs source target =
     (case tree_kind files dirs source of
        None \<Rightarrow> Inl ERRNO_NOENT
      | Some sourceKind \<Rightarrow>
          if sourceKind = DirectoryPath \<and> prefix (source @ ''/'') target then Inl ERRNO_INVAL
          else
            (case (case tree_kind files dirs target of
                     None \<Rightarrow> scratchParentStatus files dirs target
                   | Some targetKind \<Rightarrow>
                       if sourceKind = FilePath then
                         (if targetKind = DirectoryPath then Some ERRNO_ISDIR else None)
                       else if targetKind = FilePath then Some ERRNO_NOTDIR
                       else if pathHasChildren files dirs target then Some ERRNO_NOTEMPTY
                       else None) of
               Some errno \<Rightarrow> Inl errno
             | None \<Rightarrow> Inr (if sourceKind = FilePath then map_of files source else None)))"

definition renameScratchPath :: "int \<Rightarrow> int \<Rightarrow> int \<Rightarrow> int \<Rightarrow> int \<Rightarrow> int \<Rightarrow> int wasi" where
  "renameScratchPath oldFd oldPathPtr oldPathLen newFd newPathPtr newPathLen = with_state (\<lambda>s.
     case scratchBasePathForRight s oldFd RIGHT_PATH_RENAME_SOURCE of
       Inl errno \<Rightarrow> ret errno
     | Inr sourceBase \<Rightarrow>
         (case scratchBasePathForRight s newFd RIGHT_PATH_RENAME_TARGET of
            Inl errno \<Rightarrow> ret errno
          | Inr targetBase \<Rightarrow>
              (case resolveMountedPath sourceBase (readString s oldPathPtr oldPathLen) TMP_PREOPEN_PATH False False of
                 Inl errno \<Rightarrow> ret errno
               | Inr source \<Rightarrow>
                   (case resolveMountedPath targetBase (readString s newPathPtr newPathLen) TMP_PREOPEN_PATH False False of
                      Inl errno \<Rightarrow> ret errno
                    | Inr target \<Rightarrow>
                        if source = target then
                          ret (if scratchPathExists s source then ERRNO_SUCCESS else ERRNO_NOENT)
                        else (case rename_check (sc_files s) (sc_dirs s) source target of
                          Inl errno \<Rightarrow> ret errno
                        | Inr (Some file) \<Rightarrow>
                            seqM (modifyM (renameScratchFile source target file)) (ret ERRNO_SUCCESS)
                        | Inr None \<Rightarrow>
                            seqM (modifyM (renameScratchDirectory source target)) (ret ERRNO_SUCCESS))))))"

definition renameWorkspacePath :: "int \<Rightarrow> int \<Rightarrow> int \<Rightarrow> int \<Rightarrow> int \<Rightarrow> int \<Rightarrow> int option wasi" where
  "renameWorkspacePath oldFd oldPathPtr oldPathLen newFd newPathPtr newPathLen = with_state (\<lambda>s.
     if \<not> ws_writable s then ret None
     else
       let oldPath = readString s oldPathPtr oldPathLen;
           newPath = readString s newPathPtr newPathLen in
       case (workspaceBasePathForRightOrPathRequest s oldFd oldPath RIGHT_PATH_RENAME_SOURCE,
             workspaceBasePathForRightOrPathRequest s newFd newPath RIGHT_PATH_RENAME_TARGET) of
         (None, None) \<Rightarrow> ret None
       | (Some (Inl errno), _) \<Rightarrow> ret (Some errno)
       | (_, Some (Inl errno)) \<Rightarrow> ret (Some errno)
       | (Some (Inr sourceBase), Some (Inr targetBase)) \<Rightarrow>
           (case resolveMountedPath sourceBase oldPath WORKSPACE_PREOPEN_PATH (ws_writable s) False of
              Inl errno \<Rightarrow> ret (Some errno)
            | Inr source \<Rightarrow>
                (case resolveMountedPath targetBase newPath WORKSPACE_PREOPEN_PATH (ws_writable s) False of
                   Inl errno \<Rightarrow> ret (Some errno)
                 | Inr target \<Rightarrow>
                     if source = [] \<or> target = [] then ret (Some ERRNO_NOTCAPABLE)
                     else if source = target then
                       ret (Some (if workspacePathExists s source then ERRNO_SUCCESS else ERRNO_NOENT))
                     else (case rename_check (ws_files s) (ws_dirs s) source target of
                       Inl errno \<Rightarrow> ret (Some errno)
                     | Inr (Some file) \<Rightarrow>
                         seqM (modifyM (renameWorkspaceFile source target file))
                         (seqM markWorkspaceDirty (ret (Some ERRNO_SUCCESS)))
                     | Inr None \<Rightarrow>
                         seqM (modifyM (renameWorkspaceDirectory source target))
                         (seqM markWorkspaceDirty (ret (Some ERRNO_SUCCESS))))))
       | _ \<Rightarrow>
           ret (Some (if fdStat s oldFd \<noteq> None \<and> fdStat s newFd \<noteq> None
                      then ERRNO_NOTCAPABLE else ERRNO_BADF)))"

definition pathRename :: "int \<Rightarrow> int \<Rightarrow> int \<Rightarrow> int \<Rightarrow> int \<Rightarrow> int \<Rightarrow> int wasi" where
  "pathRename oldFd oldPathPtr oldPathLen newFd newPathPtr newPathLen =
     seqM throwIfAborted
     (bindM (renameWorkspacePath oldFd oldPathPtr oldPathLen newFd newPathPtr newPathLen) (\<lambda>outcome.
       case outcome of
         Some errno \<Rightarrow> ret errno
       | None \<Rightarrow> renameScratchPath oldFd oldPathPtr oldPathLen newFd newPathPtr newPathLen))"

end
