(* ===== verification/Poll.thy ===== *)
theory Poll imports Path_Ops begin

text \<open>
  \<open>poll_oneoff\<close> and the small calls of \<open>apps/web/src/wasi-module.js\<close> (lines 1876 to 1939 and 4783 to
  5016): arguments and environment, clocks, random bytes, sockets. The clock and the random source
  are the browser's: they are arguments (\<open>now\<close>, \<open>random\<close>) of the calls that use them.
\<close>

section \<open>Arguments, clocks, random bytes\<close>

definition encodeCString :: "string \<Rightarrow> byte list" where
  "encodeCString v = encodeText v @ [0]"

definition stringListBufferSize :: "string list \<Rightarrow> int" where
  "stringListBufferSize values = foldl (\<lambda>n v. n + int (length (encodeText v)) + 1) 0 values"

definition writeSizes :: "string list \<Rightarrow> int \<Rightarrow> int \<Rightarrow> int wasi" where
  "writeSizes values countPtr bufSizePtr = seqM throwIfAborted
     (seqM (writeU32 countPtr (int (length values)))
     (seqM (writeU32 bufSizePtr (stringListBufferSize values)) (ret ERRNO_SUCCESS)))"

fun write_string_pointers :: "string list \<Rightarrow> int \<Rightarrow> int \<Rightarrow> unit wasi" where
  "write_string_pointers [] pointersPtr offset = ret ()"
| "write_string_pointers (v # vs) pointersPtr offset =
     seqM (writeU32 pointersPtr offset)
     (seqM (set_memory offset (encodeCString v))
     (write_string_pointers vs (pointersPtr + 4) (offset + int (length (encodeCString v)))))"

definition writeStringPointers :: "string list \<Rightarrow> int \<Rightarrow> int \<Rightarrow> int wasi" where
  "writeStringPointers values pointersPtr bufferPtr =
     seqM throwIfAborted (seqM (write_string_pointers values pointersPtr bufferPtr) (ret ERRNO_SUCCESS))"

definition clockResGet :: "int \<Rightarrow> int \<Rightarrow> int wasi" where
  "clockResGet clockId resolutionPtr = seqM throwIfAborted
     (if \<not> isSupportedClock clockId then ret ERRNO_INVAL
      else seqM (writeU64 resolutionPtr 1000000) (ret ERRNO_SUCCESS))"

definition clockTimeGet :: "(int \<Rightarrow> int) \<Rightarrow> int \<Rightarrow> int \<Rightarrow> int wasi" where
  "clockTimeGet now clockId timePtr = seqM throwIfAborted
     (if \<not> isSupportedClock clockId then ret ERRNO_INVAL
      else seqM (writeU64 timePtr (now clockId)) (ret ERRNO_SUCCESS))"

text \<open>\<open>random offset n\<close> is the chunk of \<open>n\<close> bytes \<open>getRandomValues\<close> gives at that offset. The loop
  advances by at least one byte, so as many rounds as bytes are enough.\<close>

fun random_chunks :: "nat \<Rightarrow> (int \<Rightarrow> int \<Rightarrow> byte list) \<Rightarrow> int \<Rightarrow> int \<Rightarrow> int \<Rightarrow> unit wasi" where
  "random_chunks 0 random st len offset = ret ()"
| "random_chunks (Suc n) random st len offset =
     (if offset < len then
        let chunkLength = min 65536 (len - offset) in
        seqM throwIfAborted
        (seqM (set_memory (st + offset) (random offset chunkLength))
        (random_chunks n random st len (offset + chunkLength)))
      else ret ())"

definition randomGet :: "(int \<Rightarrow> int \<Rightarrow> byte list) \<Rightarrow> int \<Rightarrow> int \<Rightarrow> int wasi" where
  "randomGet random bufferPtr bufferLength = seqM throwIfAborted (with_state (\<lambda>s.
     let st = js_u32 bufferPtr; len = js_u32 bufferLength in
     if checkedMemoryRange st len (mem_size (memory s)) = None then ret ERRNO_FAULT
     else seqM (random_chunks (nat len) random st len 0) (ret ERRNO_SUCCESS)))"

definition schedYield :: "int wasi" where
  "schedYield = seqM throwIfAborted (ret ERRNO_SUCCESS)"

section \<open>\<open>poll_oneoff\<close>\<close>

abbreviation (input) EVENTTYPE_CLOCK :: int where "EVENTTYPE_CLOCK \<equiv> 0"
abbreviation (input) EVENTTYPE_FD_READ :: int where "EVENTTYPE_FD_READ \<equiv> 1"
abbreviation (input) EVENTTYPE_FD_WRITE :: int where "EVENTTYPE_FD_WRITE \<equiv> 2"
abbreviation (input) SUBSCRIPTION_SIZE :: int where "SUBSCRIPTION_SIZE \<equiv> 48"
abbreviation (input) EVENT_SIZE :: int where "EVENT_SIZE \<equiv> 32"
abbreviation (input) EVENT_FD_READWRITE_HANGUP :: int where "EVENT_FD_READWRITE_HANGUP \<equiv> 1"

record poll_event =
  ev_error :: int
  ev_flags :: int
  ev_nbytes :: int
  ev_type :: int
  ev_userdata :: int

text \<open>\<open>{error, flags, nbytes}\<close> of a descriptor; a missing field is written as 0.\<close>

definition readable :: "int \<Rightarrow> int \<Rightarrow> int \<times> int \<times> int" where
  "readable n hangup = (ERRNO_SUCCESS, hangup, n)"

definition remaining_event :: "int \<Rightarrow> int \<times> int \<times> int" where
  "remaining_event n =
     (let remaining = max 0 n in readable remaining (if remaining = 0 then EVENT_FD_READWRITE_HANGUP else 0))"

definition fdReadReadiness :: "runtime \<Rightarrow> int \<Rightarrow> int \<times> int \<times> int" where
  "fdReadReadiness s fd =
     (let stdin_event = remaining_event (int (length (stdin_bytes s)) - stdinOffset s) in
      if fd = STDIN_FD then stdin_event
      else (case openFile s fd of
        None \<Rightarrow> if isDirectoryFd s fd then (ERRNO_ISDIR, 0, 0) else (ERRNO_BADF, 0, 0)
      | Some file \<Rightarrow>
          if isOpenStdio (Some file) then
            (if d_stdioFd file \<noteq> STDIN_FD then (ERRNO_BADF, 0, 0)
             else if d_rights file AND RIGHT_FD_READ = 0 then (ERRNO_NOTCAPABLE, 0, 0)
             else stdin_event)
          else if isOpenPipe (Some file) then
            (if d_direction file \<noteq> ReadEnd then (ERRNO_BADF, 0, 0)
             else if d_rights file AND RIGHT_FD_READ = 0 then (ERRNO_NOTCAPABLE, 0, 0)
             else let pipe = pipes s (d_pipe file); remaining = int (length (p_bytes pipe)) in
               readable remaining
                 (if remaining = 0 \<and> p_writers pipe = 0 then EVENT_FD_READWRITE_HANGUP else 0))
          else if isDirectoryFd s fd then (ERRNO_ISDIR, 0, 0)
          else if \<not> canReadFile file then (ERRNO_NOTCAPABLE, 0, 0)
          else remaining_event (record_size s (d_record file) - offset_of s file)))"

definition fdWriteReadiness :: "runtime \<Rightarrow> int \<Rightarrow> int \<times> int \<times> int" where
  "fdWriteReadiness s fd =
     (if fd = STDOUT_FD \<or> fd = STDERR_FD then (ERRNO_SUCCESS, 0, 0)
      else (case openFile s fd of
        None \<Rightarrow> (ERRNO_BADF, 0, 0)
      | Some file \<Rightarrow>
          if isOpenStdio (Some file) then
            (if d_stdioFd file \<noteq> STDOUT_FD \<and> d_stdioFd file \<noteq> STDERR_FD then (ERRNO_BADF, 0, 0)
             else if d_rights file AND RIGHT_FD_WRITE \<noteq> 0 then (ERRNO_SUCCESS, 0, 0)
             else (ERRNO_NOTCAPABLE, 0, 0))
          else if isOpenPipe (Some file) then
            (if d_direction file \<noteq> WriteEnd then (ERRNO_BADF, 0, 0)
             else if d_rights file AND RIGHT_FD_WRITE = 0 then (ERRNO_NOTCAPABLE, 0, 0)
             else if p_readers (pipes s (d_pipe file)) > 0 then (ERRNO_SUCCESS, 0, 0)
             else (ERRNO_PIPE, 0, 0))
          else if \<not> canWriteFile file then (ERRNO_NOTCAPABLE, 0, 0)
          else (ERRNO_SUCCESS, 0, 0)))"

definition fd_event :: "int \<Rightarrow> int \<Rightarrow> int \<times> int \<times> int \<Rightarrow> poll_event" where
  "fd_event ty userdata r =
     (case r of (e, flags, nbytes) \<Rightarrow>
        \<lparr>ev_error = e, ev_flags = flags, ev_nbytes = nbytes, ev_type = ty, ev_userdata = userdata\<rparr>)"

definition pollClockEvent :: "int \<Rightarrow> int \<Rightarrow> poll_event wasi" where
  "pollClockEvent subscriptionPtr userdata =
     bindM (readU32 (subscriptionPtr + 16)) (\<lambda>clockId.
     bindM (readU16 (subscriptionPtr + 40)) (\<lambda>flags.
       ret (fd_event EVENTTYPE_CLOCK userdata
         (if isSupportedClock clockId \<and> flags AND NOT 1 = 0 then ERRNO_SUCCESS else ERRNO_INVAL, 0, 0))))"

definition pollFdReadEvent :: "int \<Rightarrow> int \<Rightarrow> poll_event wasi" where
  "pollFdReadEvent subscriptionPtr userdata =
     bindM (readU32 (subscriptionPtr + 16)) (\<lambda>fd.
       with_state (\<lambda>s. ret (fd_event EVENTTYPE_FD_READ userdata (fdReadReadiness s fd))))"

definition pollFdWriteEvent :: "int \<Rightarrow> int \<Rightarrow> poll_event wasi" where
  "pollFdWriteEvent subscriptionPtr userdata =
     bindM (readU32 (subscriptionPtr + 16)) (\<lambda>fd.
       with_state (\<lambda>s. ret (fd_event EVENTTYPE_FD_WRITE userdata (fdWriteReadiness s fd))))"

definition pollEvent :: "int \<Rightarrow> (int + poll_event) wasi" where
  "pollEvent subscriptionPtr =
     bindM (readU64 (subscriptionPtr + 0)) (\<lambda>userdata.
     bindM (readU8 (subscriptionPtr + 8)) (\<lambda>ty.
       if ty = EVENTTYPE_CLOCK then bindM (pollClockEvent subscriptionPtr userdata) (\<lambda>e. ret (Inr e))
       else if ty = EVENTTYPE_FD_READ then bindM (pollFdReadEvent subscriptionPtr userdata) (\<lambda>e. ret (Inr e))
       else if ty = EVENTTYPE_FD_WRITE then bindM (pollFdWriteEvent subscriptionPtr userdata) (\<lambda>e. ret (Inr e))
       else ret (Inl ERRNO_INVAL)))"

definition writePollEvent :: "int \<Rightarrow> poll_event \<Rightarrow> unit wasi" where
  "writePollEvent eventPtr e =
     seqM (writeU64 (eventPtr + 0) (ev_userdata e)) (seqM (writeU16 (eventPtr + 8) (ev_error e))
     (seqM (writeU8 (eventPtr + 10) (ev_type e)) (seqM (writeU8 (eventPtr + 11) 0)
     (seqM (writeU32 (eventPtr + 12) 0) (seqM (writeU64 (eventPtr + 16) (ev_nbytes e))
     (seqM (writeU16 (eventPtr + 24) (ev_flags e)) (seqM (writeU16 (eventPtr + 26) 0)
     (writeU32 (eventPtr + 28) 0))))))))"

fun poll_events :: "nat \<Rightarrow> int \<Rightarrow> (int + poll_event list) wasi" where
  "poll_events 0 subscriptionPtr = ret (Inr [])"
| "poll_events (Suc n) subscriptionPtr =
     bindM (pollEvent subscriptionPtr) (\<lambda>e.
       case e of
         Inl errno \<Rightarrow> ret (Inl errno)
       | Inr ev \<Rightarrow>
           bindM (poll_events n (subscriptionPtr + SUBSCRIPTION_SIZE)) (\<lambda>rest.
             ret (case rest of Inl errno \<Rightarrow> Inl errno | Inr evs \<Rightarrow> Inr (ev # evs))))"

fun write_poll_events :: "int \<Rightarrow> poll_event list \<Rightarrow> unit wasi" where
  "write_poll_events eventPtr [] = ret ()"
| "write_poll_events eventPtr (e # es) =
     seqM (writePollEvent eventPtr e) (write_poll_events (eventPtr + EVENT_SIZE) es)"

definition pollOneoff :: "int \<Rightarrow> int \<Rightarrow> int \<Rightarrow> int \<Rightarrow> int wasi" where
  "pollOneoff subscriptionsPtr eventsPtr subscriptionsLen eventsUsedPtr =
     seqM throwIfAborted (with_state (\<lambda>s.
     let subscriptionCount = js_u32 subscriptionsLen; memoryLength = mem_size (memory s) in
     if subscriptionCount = 0 then ret ERRNO_INVAL
     else if checkedMemoryRange (js_u32 subscriptionsPtr) (subscriptionCount * SUBSCRIPTION_SIZE) memoryLength = None \<or>
             checkedMemoryRange (js_u32 eventsPtr) (subscriptionCount * EVENT_SIZE) memoryLength = None \<or>
             checkedMemoryRange (js_u32 eventsUsedPtr) 4 memoryLength = None then ret ERRNO_FAULT
     else bindM (poll_events (nat subscriptionCount) (js_u32 subscriptionsPtr)) (\<lambda>events.
       case events of
         Inl errno \<Rightarrow> ret errno
       | Inr evs \<Rightarrow>
           seqM (write_poll_events (js_u32 eventsPtr) evs)
           (seqM (writeU32 eventsUsedPtr subscriptionCount) (ret ERRNO_SUCCESS)))))"

section \<open>Signals and sockets\<close>

definition procRaise :: "int \<Rightarrow> int wasi" where
  "procRaise sig = seqM throwIfAborted (ret ERRNO_SUCCESS)"

definition sock_unsupported :: "int \<Rightarrow> int wasi" where
  "sock_unsupported fd = seqM throwIfAborted (with_state (\<lambda>s. ret (badf_or s fd ERRNO_NOTSUP)))"

definition sockShutdown :: "int \<Rightarrow> int \<Rightarrow> int wasi" where
  "sockShutdown fd how = seqM throwIfAborted (with_state (\<lambda>s.
     if how \<noteq> 1 \<and> how \<noteq> 2 \<and> how \<noteq> 3 then ret ERRNO_INVAL else ret (badf_or s fd ERRNO_NOTSUP)))"

end
