(* ===== verification/Tree_Parents.thy ===== *)
theory Tree_Parents imports Wasi_Tree begin

text \<open>
  Parents in a directory tree: every file and directory but the root has its parent directory as an
  entry. Creating an entry with the checks of the code, removing a file or an empty directory, and
  renaming keep it. \<open>tree_kept\<close> is what one change of a tree may do: the tree stays well formed and
  rooted, and no entry loses its parent.
\<close>

definition parents_ok :: "file_map \<Rightarrow> string list \<Rightarrow> bool" where
  "parents_ok files dirs \<longleftrightarrow>
     list_all (\<lambda>p. p = [] \<or> unsegs (butlast (segs p)) \<in> set dirs) (dirs @ map_keys files)"

definition tree_kept :: "file_map \<Rightarrow> string list \<Rightarrow> file_map \<Rightarrow> string list \<Rightarrow> bool" where
  "tree_kept files dirs files' dirs' \<longleftrightarrow>
     tree_ok files' dirs' \<and> [] \<in> set dirs' \<and> (parents_ok files dirs \<longrightarrow> parents_ok files' dirs')"

lemma parents_okI:
  "(\<And>p. p \<in> set dirs \<union> fst ` set files \<Longrightarrow> p \<noteq> [] \<Longrightarrow> unsegs (butlast (segs p)) \<in> set dirs) \<Longrightarrow>
   parents_ok files dirs"
  by (auto simp: parents_ok_def list_all_iff)

lemma parents_okD:
  "parents_ok files dirs \<Longrightarrow> p \<in> set dirs \<union> fst ` set files \<Longrightarrow> p \<noteq> [] \<Longrightarrow>
   unsegs (butlast (segs p)) \<in> set dirs"
  by (auto simp: parents_ok_def list_all_iff)

lemma parent_status_entry:
  assumes "canonical path" "path \<noteq> []" "[] \<in> set dirs" "scratchParentStatus files dirs path = None"
  shows "unsegs (butlast (segs path)) \<in> set dirs"
  using scratchParentStatus_None [OF assms(1,2,4)] assms(3) by auto

lemma parents_add_file:
  assumes "parents_ok files dirs" "canonical path" "[] \<in> set dirs" "scratchParentStatus files dirs path = None"
  shows "parents_ok (AList.update path r files) dirs"
proof (rule parents_okI)
  fix p assume "p \<in> set dirs \<union> fst ` set (AList.update path r files)" "p \<noteq> []"
  then show "unsegs (butlast (segs p)) \<in> set dirs"
    using parents_okD [OF assms(1), of p] parent_status_entry [OF assms(2) _ assms(3,4)] by auto
qed

lemma parents_rename_file:
  assumes "parents_ok files dirs" "tgt \<in> fst ` set files"
  shows "parents_ok (AList.update tgt r (AList.delete src files)) dirs"
proof (rule parents_okI)
  fix p assume p: "p \<in> set dirs \<union> fst ` set (AList.update tgt r (AList.delete src files))" "p \<noteq> []"
  have "fst ` set (AList.update tgt r (AList.delete src files)) \<subseteq> fst ` set files" using assms(2) by auto
  with p show "unsegs (butlast (segs p)) \<in> set dirs" using parents_okD [OF assms(1), of p] by blast
qed

lemma parents_add_dir:
  assumes "parents_ok files dirs" "canonical path" "[] \<in> set dirs" "scratchParentStatus files dirs path = None"
  shows "parents_ok files (set_add path dirs)"
proof (rule parents_okI)
  fix p assume "p \<in> set (set_add path dirs) \<union> fst ` set files" "p \<noteq> []"
  then show "unsegs (butlast (segs p)) \<in> set (set_add path dirs)"
    using parents_okD [OF assms(1), of p] parent_status_entry [OF assms(2) _ assms(3,4)] by auto
qed

lemma parents_delete_file: "parents_ok files dirs \<Longrightarrow> parents_ok (AList.delete path files) dirs"
  by (rule parents_okI) (auto dest: parents_okD)

text \<open>A path below another one.\<close>

lemma below_entry_parent:
  assumes "canonical p" "p \<noteq> []" "unsegs (butlast (segs p)) \<noteq> []"
  shows "prefix (unsegs (butlast (segs p)) @ ''/'') p"
proof -
  have "list_all seg_ok (butlast (segs p))" using assms(1) by (auto simp: canonical_def list_all_iff dest: in_set_butlastD)
  then have "segs (unsegs (butlast (segs p))) = butlast (segs p)" by (rule segs_unsegs)
  moreover have "canonical (unsegs (butlast (segs p)))"
    using \<open>list_all seg_ok _\<close> \<open>segs (unsegs _) = _\<close> by (simp add: canonical_def)
  moreover have "strict_prefix (butlast (segs p)) (segs p)"
    using assms(2) by (metis append_butlast_last_id prefix_snoc prefix_order.order_refl segs_eq_Nil
        strict_prefixI' )
  ultimately show ?thesis using prefix_slash_iff [of "unsegs (butlast (segs p))" p] assms(1,3) by simp
qed

lemma parents_delete_dir:
  assumes tree: "tree_ok files dirs" and "parents_ok files dirs" "\<not> pathHasChildren files dirs path" "path \<noteq> []"
  shows "parents_ok files (removeAll path dirs)"
proof (rule parents_okI)
  fix p assume p: "p \<in> set (removeAll path dirs) \<union> fst ` set files" "p \<noteq> []"
  then have "unsegs (butlast (segs p)) \<in> set dirs" using parents_okD [OF assms(2)] by auto
  moreover have "unsegs (butlast (segs p)) \<noteq> path"
    using below_entry_parent [of p] tree_ok_canonical [OF tree, of p] p assms(3,4) unfolding pathHasChildren_iff by auto
  ultimately show "unsegs (butlast (segs p)) \<in> set (removeAll path dirs)" by simp
qed

section \<open>Renaming\<close>

lemma canonical_parent:
  assumes "canonical p"
  shows "canonical (unsegs (butlast (segs p)))" "segs (unsegs (butlast (segs p))) = butlast (segs p)"
proof -
  have ok: "list_all seg_ok (butlast (segs p))" using assms by (auto simp: canonical_def list_all_iff dest: in_set_butlastD)
  then show "segs (unsegs (butlast (segs p))) = butlast (segs p)" by (rule segs_unsegs)
  with ok show "canonical (unsegs (butlast (segs p)))" by (simp add: canonical_def)
qed

lemma parents_rename:
  assumes rn: "rename_ok files dirs src tgt" and par: "parents_ok files dirs"
    and tgt: "unsegs (butlast (segs tgt)) \<in> set dirs"
  shows "parents_ok (moved_files src tgt files) (moved_dirs src tgt (removeAll tgt dirs))"
proof (rule parents_okI)
  note ok = rn [unfolded rename_ok_def]
  have tree: "tree_ok files dirs" using ok by blast
  let ?mv = "moved_path src tgt" and ?names = "rename_names files dirs tgt"
  let ?ds = "set (moved_dirs src tgt (removeAll tgt dirs))"
  have keys: "fst ` set (moved_files src tgt files) = ?mv ` (fst ` set files)"
    by (simp add: moved_files_eq [OF rn] image_image)
  have ds: "?ds = ?mv ` (set dirs - {tgt})" by (simp add: moved_dirs_eq [OF rn])
  have moved: "unsegs (butlast (segs (?mv q))) \<in> ?ds" if "d \<in> set dirs" "d \<noteq> tgt"
    "segs (?mv d) = butlast (segs (?mv q))" "canonical (?mv d)" for d q
  proof -
    have "unsegs (butlast (segs (?mv q))) = ?mv d"
      by (metis that(3) unsegs_segs)
    then show ?thesis using that(1,2) ds by auto
  qed
  fix p assume entry: "p \<in> ?ds \<union> fst ` set (moved_files src tgt files)" and ne': "p \<noteq> []"
  from entry have "p \<in> ?mv ` ?names" unfolding keys ds image_Un .
  then obtain q where q: "q \<in> ?names" "p = ?mv q" by (elim imageE) (rule that)
  have cq: "canonical q" using rename_names_ok(1) [OF rn q(1)] .
  have c: "canonical (?mv d)" if "d \<in> set dirs" for d
    using canonical_moved_path [of src tgt d] tree_ok_canonical [OF tree, of d] ok that by blast
  define d where "d = unsegs (butlast (segs q))"
  show "unsegs (butlast (segs p)) \<in> ?ds"
  proof (cases "q = src")
    case True
    define e where "e = unsegs (butlast (segs tgt))"
    have e: "canonical e" "segs e = butlast (segs tgt)" "e \<noteq> tgt" "e \<in> set dirs"
      using canonical_parent [of tgt] ok tgt by (auto simp: e_def)
        (metis append_butlast_last_id append_self_conv butlast.simps(1) list.distinct(1) segs_eq_Nil)
    have "\<not> prefix (segs src) (segs tgt)"
      using ok at_or_below_segs [of src tgt] by (auto simp: at_or_below_def)
    then have "\<not> prefix (segs src) (segs e)" using e(2) by (metis prefixeq_butlast prefix_order.trans)
    then have "segs (?mv e) = segs e" using segs_moved_path [of src tgt e] ok e(1) by auto
    moreover have "segs p = segs tgt"
      using rename_names_ok(3) [OF rn q(1)] q(2) True by simp
    ultimately show ?thesis using moved [of e q] e c q(2) by simp
  next
    case False
    show ?thesis
    proof (cases "q = []")
      case True
      then have "p = []" using rename_names_ok(3) [OF rn q(1)] q(2) ok by simp
      with ne' show ?thesis by blast
    next
      case ne: False
      have d: "d \<in> set dirs" "canonical d" "segs d = butlast (segs q)"
        using parents_okD [OF par, of q] q(1) ne canonical_parent [OF cq] by (auto simp: d_def)
      have dt: "d \<noteq> tgt"
        using below_entry_parent [OF cq ne] q(1) ok unfolding d_def pathHasChildren_iff by auto
      have sq: "segs src \<noteq> segs q" "segs q \<noteq> segs src" using False by (auto simp: canonical_inj)
      have below: "prefix (segs src) (segs d) \<longleftrightarrow> prefix (segs src) (segs q)"
      proof
        show "prefix (segs src) (segs q)" if "prefix (segs src) (segs d)"
          using that d(3) by (metis prefixeq_butlast prefix_order.trans)
        show "prefix (segs src) (segs d)" if "prefix (segs src) (segs q)"
        proof -
          from that sq show ?thesis unfolding d(3)
            by (metis append_butlast_last_id ne prefix_snoc segs_eq_Nil)
        qed
      qed
      have "segs (?mv d) = butlast (segs (?mv q))"
        using segs_moved_path [of src tgt d] rename_names_ok(3) [OF rn q(1)] ok d(2,3) below ne sq
        by (auto simp: butlast_append prefix_def)
      then show ?thesis using moved [of d q] d(1) dt c q(2) by simp
    qed
  qed
qed

end
