(* ===== verification/Host_Steps.thy ===== *)
theory Host_Steps imports Poll Tree_Parents begin

text \<open>
  The abstract machine behind the imports: \<open>rt_step\<close> lists what a call may do to the runtime, one
  elementary change at a time, and \<open>evolves\<close> is a run of such changes. Every handler is shown to be
  such a run, whatever its arguments and however it ends (\<open>evolving\<close>); an invariant of the host then
  has to be checked on the elementary changes only.
\<close>

section \<open>Elementary changes\<close>

text \<open>A descriptor after an operation on it: the same object, perhaps with fewer rights or another
  offset.\<close>

definition narrows :: "descr \<Rightarrow> descr \<Rightarrow> bool" where
  "narrows f f' \<longleftrightarrow>
     (\<exists>r i off. f' = f\<lparr>d_rights := r, d_inheriting := i, d_offset := off\<rparr> \<and>
        allowsRights r (d_rights f) \<and> (off = d_offset f \<or> (\<exists>v. off = Own v)))"

definition preopen_rights :: "runtime \<Rightarrow> mount \<Rightarrow> int" where
  "preopen_rights s mnt =
     (case mnt of
        Workspace \<Rightarrow> if ws_writable s then WRITABLE_WORKSPACE_RIGHTS else WORKSPACE_RIGHTS
      | Scratch \<Rightarrow> TMP_RIGHTS
      | PackageRoot \<Rightarrow> WORKSPACE_RIGHTS)"

text \<open>What \<open>fd_dup\<close> can put into the table: an open descriptor whose offset, if any, is shared, or
  a descriptor for a standard stream or a preopen.\<close>

definition dup_source :: "runtime \<Rightarrow> descr \<Rightarrow> bool" where
  "dup_source s f \<longleftrightarrow>
     (\<exists>fd. openFile s fd = Some f \<and> (\<forall>v. d_offset f \<noteq> Own v)) \<or>
     (\<exists>fd r. stdioRights fd = Some r \<and> f = stdio_descr fd r) \<or>
     (\<exists>mnt p i. f = preopen_descr mnt p (preopen_rights s mnt) i)"

text \<open>What \<open>path_open\<close> can put into the table: a file of the mount it names, writable only in the
  scratch tree and a writable workspace, with rights the mount grants; or a directory.\<close>

definition open_source :: "runtime \<Rightarrow> descr \<Rightarrow> bool" where
  "open_source s f \<longleftrightarrow>
     (\<exists>p r rights fl off.
        f = file_descr None p r rights fl True off \<and>
        r \<in> snd ` set (sc_files s) \<and> allowsRights rights SCRATCH_FILE_RIGHTS) \<or>
     (\<exists>p r rights fl off.
        f = file_descr (Some Workspace) p r rights fl True off \<and> ws_writable s \<and>
        r \<in> snd ` set (ws_files s) \<and> allowsRights rights SCRATCH_FILE_RIGHTS) \<or>
     (\<exists>p r rights.
        f = file_descr None p r rights 0 False 0 \<and>
        r \<in> snd ` set (ws_files s) \<and> allowsRights rights REGULAR_FILE_RIGHTS) \<or>
     (\<exists>p r rights.
        f = file_descr (Some PackageRoot) p r rights 0 False 0 \<and>
        r \<in> snd ` set (pr_files s) \<and> allowsRights rights REGULAR_FILE_RIGHTS) \<or>
     (\<exists>mnt p rights i.
        f = dir_descr mnt p rights i 0 \<and>
        allowsRights rights (preopen_rights s (case mnt of None \<Rightarrow> Scratch | Some m \<Rightarrow> m)))"

text \<open>Records whose bytes a call may change: those of the scratch tree, those of a writable
  workspace, and those a writable descriptor holds.\<close>

definition mutable_record :: "runtime \<Rightarrow> nat \<Rightarrow> bool" where
  "mutable_record s r \<longleftrightarrow>
     r \<in> snd ` set (sc_files s) \<or> (ws_writable s \<and> r \<in> snd ` set (ws_files s)) \<or>
     list_ex (\<lambda>(fd, f). d_kind f \<noteq> Pipe \<and> d_kind f \<noteq> Stdio \<and> d_writable f \<and> d_record f = r) (openFiles s)"

text \<open>The trees are well formed: canonical paths only, a root entry, no entry below a file; the working
  directory and the directories descriptors refer to are canonical.\<close>

definition paths_ok :: "(int \<times> descr) list \<Rightarrow> bool" where
  "paths_ok xs \<longleftrightarrow> list_all (\<lambda>(fd, f). case d_path f of None \<Rightarrow> True | Some p \<Rightarrow> canonical p) xs"

definition bases_ok :: "runtime \<Rightarrow> bool" where
  "bases_ok s \<longleftrightarrow> canonical_abs (rt_cwd s) \<and> paths_ok (openFiles s)"

definition trees_ok :: "runtime \<Rightarrow> bool" where
  "trees_ok s \<longleftrightarrow>
     tree_ok (ws_files s) (ws_dirs s) \<and> [] \<in> set (ws_dirs s) \<and>
     tree_ok (sc_files s) (sc_dirs s) \<and> [] \<in> set (sc_dirs s) \<and> bases_ok s"

text \<open>The parameter says whether the changes keep the trees well formed.\<close>

inductive rt_step :: "bool \<Rightarrow> runtime \<Rightarrow> runtime \<Rightarrow> bool" for tidy where
  step_memory: "mem_size m = mem_size (memory s) \<Longrightarrow> rt_step tidy s (s\<lparr>memory := m\<rparr>)"
| step_cwd: "(canonical_abs (rt_cwd s) \<longrightarrow> canonical_abs p) \<Longrightarrow> rt_step tidy s (s\<lparr>rt_cwd := p\<rparr>)"
| step_flags: "rt_step tidy s (s\<lparr>fdFlagsExt := fl\<rparr>)"
| step_stdin: "rt_step tidy s (s\<lparr>stdinOffset := n\<rparr>)"
| step_output: "rt_step tidy s (s\<lparr>written := written s @ w\<rparr>)"
| step_offset: "rt_step tidy s (s\<lparr>offsets := (offsets s)(r := v)\<rparr>)"
| step_descr: "openFile s fd = Some f \<Longrightarrow> narrows f f' \<Longrightarrow> rt_step tidy s (set_descr fd f' s)"
| step_share: "openFile s fd = Some f \<Longrightarrow>
    rt_step tidy s ((set_descr fd (f\<lparr>d_offset := Shared (nextRef s)\<rparr>) s)
      \<lparr>offsets := (offsets s)(nextRef s := v), nextRef := nextRef s + 1\<rparr>)"
| step_paths: "(\<And>f. \<exists>p. g f = f\<lparr>d_path := p\<rparr>) \<Longrightarrow>
    (\<And>f q. tidy \<Longrightarrow> (\<And>p. d_path f = Some p \<Longrightarrow> canonical p) \<Longrightarrow> d_path (g f) = Some q \<Longrightarrow> canonical q) \<Longrightarrow>
    rt_step tidy s (map_descrs g s)"
| step_close: "openFile s fd = Some f \<Longrightarrow>
    rt_step tidy s ((closeOpenFile f s)\<lparr>openFiles := AList.delete fd (openFiles s)\<rparr>)"
| step_renumber: "openFile s fd = Some f \<Longrightarrow> fd \<noteq> to \<Longrightarrow> isDynamicFileFdNumber to \<or> isStdioFd to \<Longrightarrow>
    rt_step tidy s (raise_next_fd to ((close_replaced to s)
      \<lparr>openFiles := AList.update to f (AList.delete fd (openFiles s)), fdFlagsExt := fl\<rparr>))"
| step_dup: "dup_source s f \<Longrightarrow> isDynamicFileFdNumber to \<or> isStdioFd to \<Longrightarrow>
    rt_step tidy s (raise_next_fd to (set_fd_flags to fl (set_descr to f (retainOpenFile f (close_replaced to s)))))"
| step_dup_fresh: "dup_source s f \<Longrightarrow> FIRST_FILE_FD \<le> k \<Longrightarrow> fd = first_free_fd s k \<Longrightarrow>
    rt_step tidy s (set_fd_flags fd fl (set_descr fd f (retainOpenFile f (allocated fd s))))"
| step_pipe: "pipe = nextRef s \<Longrightarrow>
    s1 = s\<lparr>pipes := (pipes s)(pipe := \<lparr>p_bytes = [], p_readers = 1, p_writers = 1\<rparr>), nextRef := pipe + 1\<rparr> \<Longrightarrow>
    r = first_free_fd s1 FIRST_FILE_FD \<Longrightarrow>
    s2 = set_descr r (pipe_descr ReadEnd pipe PIPE_READ_RIGHTS False) (allocated r s1) \<Longrightarrow>
    FIRST_FILE_FD \<le> k \<Longrightarrow> w = first_free_fd s2 k \<Longrightarrow>
    rt_step tidy s (set_descr w (pipe_descr WriteEnd pipe PIPE_WRITE_RIGHTS True) (allocated w s2))"
| step_pipe_bytes: "length bs \<le> 1048576 \<or> length bs \<le> length (p_bytes (pipes s p)) \<Longrightarrow>
    rt_step tidy s (set_pipe p (\<lambda>q. q\<lparr>p_bytes := bs\<rparr>) s)"
| step_open: "open_source s f \<Longrightarrow>
    (\<And>p. tidy \<Longrightarrow> bases_ok s \<Longrightarrow> d_path f = Some p \<Longrightarrow> canonical p) \<Longrightarrow>
    rt_step tidy s (set_descr (nextFileFd s) f (s\<lparr>nextFileFd := nextFileFd s + 1\<rparr>))"
| step_record: "mutable_record s r \<Longrightarrow> rt_step tidy s (set_record r g s)"
| step_dirty: "ws_writable s \<Longrightarrow> rt_step tidy s (s\<lparr>ws_dirty := True\<rparr>)"
| step_scratch: "snd ` set fs \<subseteq> snd ` set (sc_files s) \<Longrightarrow>
    (\<And>r. rs r = recs s r \<or> mutable_record s r) \<Longrightarrow>
    (tidy \<Longrightarrow> trees_ok s \<Longrightarrow> tree_kept (sc_files s) (sc_dirs s) fs ds) \<Longrightarrow>
    rt_step tidy s (s\<lparr>sc_dirs := ds, sc_files := fs, recs := rs\<rparr>)"
| step_scratch_new: "(tidy \<Longrightarrow> trees_ok s \<Longrightarrow> tree_kept (sc_files s) (sc_dirs s) (AList.update p (nextRef s) (sc_files s)) (sc_dirs s)) \<Longrightarrow>
    rt_step tidy s (s\<lparr>recs := (recs s)(nextRef s := x), nextRef := nextRef s + 1,
      sc_files := AList.update p (nextRef s) (sc_files s)\<rparr>)"
| step_workspace: "ws_writable s \<Longrightarrow> snd ` set fs \<subseteq> snd ` set (ws_files s) \<Longrightarrow>
    (\<And>r. rs r = recs s r \<or> mutable_record s r) \<Longrightarrow>
    (tidy \<Longrightarrow> trees_ok s \<Longrightarrow> tree_kept (ws_files s) (ws_dirs s) fs ds) \<Longrightarrow>
    rt_step tidy s (s\<lparr>ws_dirs := ds, ws_files := fs, recs := rs\<rparr>)"
| step_workspace_new: "ws_writable s \<Longrightarrow>
    (tidy \<Longrightarrow> trees_ok s \<Longrightarrow> tree_kept (ws_files s) (ws_dirs s) (AList.update p (nextRef s) (ws_files s)) (ws_dirs s)) \<Longrightarrow>
    rt_step tidy s (s\<lparr>recs := (recs s)(nextRef s := x), nextRef := nextRef s + 1,
      ws_files := AList.update p (nextRef s) (ws_files s)\<rparr>)"

section \<open>Runs of changes\<close>

definition evolves :: "bool \<Rightarrow> runtime \<Rightarrow> runtime \<Rightarrow> bool" where
  "evolves tidy = (rt_step tidy)\<^sup>*\<^sup>*"

definition evolving :: "bool \<Rightarrow> 'a wasi \<Rightarrow> bool" where
  "evolving tidy m \<longleftrightarrow> (\<forall>s. evolves tidy s (snd (m s)))"

named_theorems evolve_intros \<open>a handler is a run of elementary changes\<close>

lemma evolves_refl [simp, intro]: "evolves tidy s s"
  by (simp add: evolves_def)

lemma evolves_step: "evolves tidy s t \<Longrightarrow> rt_step tidy t u \<Longrightarrow> evolves tidy s u"
  by (simp add: evolves_def)

lemma evolves_one: "rt_step tidy s t \<Longrightarrow> evolves tidy s t"
  by (simp add: evolves_def)

lemma evolves_trans: "evolves tidy s t \<Longrightarrow> evolves tidy t u \<Longrightarrow> evolves tidy s u"
  by (simp add: evolves_def)

lemma evolves_inv:
  assumes "evolves tidy s t" "P s" "\<And>u v. P u \<Longrightarrow> rt_step tidy u v \<Longrightarrow> P v"
  shows "P t"
  using assms(1) unfolding evolves_def
  by (induction rule: rtranclp_induct) (use assms(2,3) in auto)

lemma evolving_wp: "(\<And>s. wp m (\<lambda>_. evolves tidy s) (\<lambda>_. evolves tidy s) s) \<Longrightarrow> evolving tidy m"
  by (simp add: evolving_def wp_state)

lemma wp_evolving: "evolving tidy m \<Longrightarrow> wp m (\<lambda>_. evolves tidy s) (\<lambda>_. evolves tidy s) s"
  by (simp add: evolving_def wp_state)

lemma evolving_ret [simp, evolve_intros]: "evolving tidy (ret x)" "evolving tidy (throw e)"
  by (simp_all add: evolving_def)

lemma evolving_bind [evolve_intros]:
  assumes "evolving tidy m" "\<And>x. evolving tidy (f x)"
  shows "evolving tidy (bindM m f)"
  unfolding evolving_def
proof
  fix s
  obtain r t where m: "m s = (r, t)" by fastforce
  with assms(1) have "evolves tidy s t" unfolding evolving_def by (metis snd_conv)
  with m assms(2) show "evolves tidy s (snd (bindM m f s))"
    by (cases r) (auto simp: evolving_def intro: evolves_trans)
qed

lemma evolving_seq [evolve_intros]: "evolving tidy m \<Longrightarrow> evolving tidy n \<Longrightarrow> evolving tidy (seqM m n)"
  by (simp add: seqM_def evolving_bind)

lemma evolving_with_state: "(\<And>s. evolves tidy s (snd (f s s))) \<Longrightarrow> evolving tidy (with_state f)"
  by (simp add: evolving_def)

lemma evolving_read [evolve_intros]: "(\<And>s. evolving tidy (f s)) \<Longrightarrow> evolving tidy (with_state f)"
  by (simp add: evolving_def)

lemma evolving_cases [evolve_intros]:
  "(b \<Longrightarrow> evolving tidy m) \<Longrightarrow> (\<not> b \<Longrightarrow> evolving tidy n) \<Longrightarrow> evolving tidy (if b then m else n)"
  "evolving tidy m \<Longrightarrow> (\<And>x. v = Some x \<Longrightarrow> evolving tidy (f x)) \<Longrightarrow> evolving tidy (case v of None \<Rightarrow> m | Some x \<Rightarrow> f x)"
  "(\<And>x. w = Inl x \<Longrightarrow> evolving tidy (g x)) \<Longrightarrow> (\<And>x. w = Inr x \<Longrightarrow> evolving tidy (h x)) \<Longrightarrow>
   evolving tidy (case w of Inl x \<Rightarrow> g x | Inr x \<Rightarrow> h x)"
  "(\<And>x y. p = (x, y) \<Longrightarrow> evolving tidy (k x y)) \<Longrightarrow> evolving tidy (case p of (x, y) \<Rightarrow> k x y)"
  by (simp, cases v, simp_all, cases w, simp_all, cases p, simp_all)

section \<open>Calls that change nothing but the guest's memory\<close>

named_theorems memory_intros \<open>a handler that only writes guest memory\<close>

lemmas [memory_intros] = memory_only_ret memory_only_write memory_only_get_int memory_only_writeFilestat
  memory_only_seq memory_only_bind memory_only_set_memory

lemma memory_only_with_state [memory_intros]: "(\<And>s. memory_only (f s)) \<Longrightarrow> memory_only (with_state f)"
  by (simp add: memory_only_def)

lemma memory_only_cases [memory_intros]:
  "(b \<Longrightarrow> memory_only m) \<Longrightarrow> (\<not> b \<Longrightarrow> memory_only n) \<Longrightarrow> memory_only (if b then m else n)"
  "memory_only m \<Longrightarrow> (\<And>x. memory_only (f x)) \<Longrightarrow> memory_only (case v of None \<Rightarrow> m | Some x \<Rightarrow> f x)"
  "(\<And>x. memory_only (g x)) \<Longrightarrow> (\<And>x. memory_only (h x)) \<Longrightarrow>
   memory_only (case w of Inl x \<Rightarrow> g x | Inr x \<Rightarrow> h x)"
  "(\<And>x y. memory_only (k x y)) \<Longrightarrow> memory_only (case p of (x, y) \<Rightarrow> k x y)"
  by (simp, cases v, simp_all, cases w, simp_all, cases p, simp_all)

lemma memory_only_basic [memory_intros]:
  "memory_only throwIfAborted" "memory_only (readU8 p)" "memory_only (readU16 p)"
  "memory_only (readU32 p)" "memory_only (readU64 p)" "memory_only (new_array n)"
  by (rule memory_only_trivial; simp add: throwIfAborted_def memory_access_defs get_int_def new_array_def
      split: option.splits)+

lemma memory_only_read_iov_chunks: "memory_only (read_iov_chunks n p)"
  by (induction n arbitrary: p) (auto simp: Let_def intro!: memory_intros)

lemma memory_only_readIovChunks [memory_intros]: "memory_only (readIovChunks p n)"
  by (simp add: readIovChunks_def memory_only_read_iov_chunks)

lemma memory_only_read_into_iovs: "memory_only (read_into_iovs n input off p)"
  by (induction n arbitrary: off p) (auto simp: Let_def intro!: memory_intros)

lemma memory_only_readIntoIovs [memory_intros]: "memory_only (readIntoIovs input off p n)"
  by (simp add: readIntoIovs_def memory_only_read_into_iovs)

lemma memory_only_write_string_pointers [memory_intros]: "memory_only (write_string_pointers vs p off)"
  by (induction vs arbitrary: p off) (auto intro!: memory_intros)

lemma memory_only_random_chunks [memory_intros]: "memory_only (random_chunks n rnd st len off)"
  by (induction n arbitrary: off) (auto simp: Let_def intro!: memory_intros)

lemma memory_only_pollEvent [memory_intros]: "memory_only (pollEvent p)"
  unfolding pollEvent_def pollClockEvent_def pollFdReadEvent_def pollFdWriteEvent_def
  by (intro memory_intros)

lemma memory_only_poll_events [memory_intros]: "memory_only (poll_events n p)"
  by (induction n arbitrary: p) (auto intro!: memory_intros)

lemma memory_only_writePollEvent [memory_intros]: "memory_only (writePollEvent p e)"
  unfolding writePollEvent_def by (intro memory_intros)

lemma memory_only_write_poll_events [memory_intros]: "memory_only (write_poll_events p es)"
  by (induction es arbitrary: p) (auto intro!: memory_intros)

lemma memory_only_queries [memory_intros]:
  "memory_only (fdFdstatGet fd p)" "memory_only (fdFdstatSetFlags fd fl)" "memory_only (fdFdflagsGet fd p)"
  "memory_only (fdTell fd p)" "memory_only (fdFilestatGet fd p)" "memory_only (fdSync fd right)"
  "memory_only (fdAdvise fd off len adv)" "memory_only (fdFilestatSetTimes fd at mt fl)"
  "memory_only (fdPrestatGet fd p)" "memory_only (fdPrestatDirName fd p n)"
  unfolding fdFdstatGet_def fdFdstatSetFlags_def fdFdflagsGet_def fdTell_def fdFilestatGet_def
    fdSync_def fdAdvise_def fdFilestatSetTimes_def fdPrestatGet_def fdPrestatDirName_def
  by (intro memory_intros)+

lemma memory_only_fdPread [memory_intros]: "memory_only (fdPread fd iovs n off p)"
  unfolding fdPread_def by (intro memory_intros)

lemma memory_only_fdReaddir [memory_intros]: "memory_only (fdReaddir fd p n c u)"
  unfolding fdReaddir_def Let_def by (intro memory_intros)

lemma memory_only_path_queries [memory_intros]:
  "memory_only (pathFilestatGet fd fl p n st)" "memory_only (pathFilestatSetTimes fd fl p n at mt fs)"
  "memory_only (pathLink fd1 fl p n fd2 q m)" "memory_only (pathReadlink fd p n q m u)"
  "memory_only (pathSymlink p n fd q m)" "memory_only (getcwd p n)"
  unfolding pathFilestatGet_def pathFilestatSetTimes_def pathLink_def pathReadlink_def
    pathSymlink_def getcwd_def Let_def times_errno_def
  by (intro memory_intros)+

lemma memory_only_misc [memory_intros]:
  "memory_only (writeSizes vs p q)" "memory_only (writeStringPointers vs p q)"
  "memory_only (clockResGet c p)" "memory_only (clockTimeGet now c p)" "memory_only (randomGet rnd p n)"
  "memory_only schedYield" "memory_only (pollOneoff sp ep n u)" "memory_only (procRaise sg)"
  "memory_only (sock_unsupported fd)" "memory_only (sockShutdown fd how)"
  unfolding writeSizes_def writeStringPointers_def clockResGet_def clockTimeGet_def randomGet_def
    schedYield_def pollOneoff_def procRaise_def sock_unsupported_def sockShutdown_def Let_def
  by (intro memory_intros)+

lemma evolving_memory_only [evolve_intros]: "memory_only m \<Longrightarrow> evolving tidy m"
  unfolding evolving_def memory_only_def by (metis evolves_one step_memory)

section \<open>The descriptor table\<close>

lemma evolves_seq_at: "evolves tidy s (snd (m s)) \<Longrightarrow> evolving tidy n \<Longrightarrow> evolves tidy s (snd (seqM m n s))"
  by (cases "m s"; cases "fst (m s)")
    (auto simp: evolving_def run_seq intro: evolves_trans split: sum.splits)

lemma evolves_bind_at: "evolves tidy s (snd (m s)) \<Longrightarrow> (\<And>x. evolving tidy (f x)) \<Longrightarrow> evolves tidy s (snd (bindM m f s))"
  by (cases "m s"; cases "fst (m s)")
    (auto simp: evolving_def run_bind intro: evolves_trans split: sum.splits)

lemma evolving_fdFdflagsSet [evolve_intros]: "evolving tidy (fdFdflagsSet fd fl)"
  by (rule evolving_wp)
    (auto simp: fdFdflagsSet_def Let_def wp_simps set_fd_flags_def intro!: evolves_one step_flags)

lemma narrows_rights:
  "allowsRights r (d_rights f) \<Longrightarrow> narrows f (f\<lparr>d_rights := r, d_inheriting := i\<rparr>)"
  "allowsRights r (d_rights f) \<Longrightarrow> narrows f (f\<lparr>d_rights := r\<rparr>)"
  unfolding narrows_def
   by (intro exI [of _ r] exI [of _ i] exI [of _ "d_offset f"], simp)
     (intro exI [of _ r] exI [of _ "d_inheriting f"] exI [of _ "d_offset f"], simp)

lemma narrows_offset: "narrows f (f\<lparr>d_offset := Own v\<rparr>)"
  unfolding narrows_def
  by (intro exI [of _ "d_rights f"] exI [of _ "d_inheriting f"] exI [of _ "Own v"]) simp

lemma evolving_fdFdstatSetRights [evolve_intros]: "evolving tidy (fdFdstatSetRights fd rb ri)"
proof (rule evolving_wp)
  fix s
  have "fs_rights st = d_rights f" if "openFile s fd = Some f" "fdStat s fd = Some st" for f st
    using that by (auto simp: fdStat_def split: if_splits)
  then show "wp (fdFdstatSetRights fd rb ri) (\<lambda>_. evolves tidy s) (\<lambda>_. evolves tidy s) s"
    by (auto simp: fdFdstatSetRights_def wp_simps split: option.splits
        intro!: evolves_one step_descr narrows_rights)
qed

lemma evolving_fdClose [evolve_intros]: "evolving tidy (fdClose fd)"
proof (rule evolving_wp)
  fix s
  have "evolves tidy s ((closeOpenFile f s)\<lparr>openFiles := AList.delete fd (openFiles s), fdFlagsExt := fl\<rparr>)"
    if "openFile s fd = Some f" for f fl
    using evolves_step [OF evolves_one [OF step_close [OF that]] step_flags [of _ _ fl]] by simp
  then show "wp (fdClose fd) (\<lambda>_. evolves tidy s) (\<lambda>_. evolves tidy s) s"
    by (auto simp: fdClose_def wp_simps split: option.splits)
qed

lemma evolving_fdRenumber [evolve_intros]: "evolving tidy (fdRenumber fd to)"
  by (rule evolving_wp)
    (auto simp: fdRenumber_def wp_simps Let_def split: option.splits intro!: evolves_one step_renumber)

lemma wp_duplicate_source:
  assumes Q: "\<And>t dup. evolves tidy s t \<Longrightarrow> memory t = memory s \<Longrightarrow> (\<forall>f. dup = Some f \<longrightarrow> dup_source t f) \<Longrightarrow> Q dup t"
  shows "wp (duplicateOpenFileForFd fd) Q E s"
proof (cases "openFile s fd")
  case None
  have "dup_source s (stdio_descr fd r)" if "stdioRights fd = Some r" for r
    using that unfolding dup_source_def by blast
  moreover have "dup_source s (preopen_descr m p (preopen_rights s m) i)" for m p i
    unfolding dup_source_def by blast
  note pre = this [of Workspace, unfolded preopen_rights_def mount.case]
    this [of Scratch, unfolded preopen_rights_def mount.case]
    this [of PackageRoot, unfolded preopen_rights_def mount.case]
  ultimately show ?thesis
    using None Q [of s] pre
    by (auto simp: duplicateOpenFileForFd_def wp_simps fdStat_def split: option.splits)
next
  case (Some f)
  show ?thesis
  proof (cases "d_offset f")
    case (Own v)
    let ?g = "f\<lparr>d_offset := Shared (nextRef s)\<rparr>"
    let ?t = "(set_descr fd ?g s)\<lparr>offsets := (offsets s)(nextRef s := v), nextRef := nextRef s + 1\<rparr>"
    have "evolves tidy s ?t" using step_share [OF Some] by (rule evolves_one)
    moreover have "dup_source ?t ?g"
      unfolding dup_source_def by (intro disjI1 exI [of _ fd]) simp
    moreover have "offsets (set_descr fd ?g s) = offsets s" by (simp add: set_descr_def)
    ultimately show ?thesis
      using Q [of ?t "Some ?g"] Some Own
      by (simp add: duplicateOpenFileForFd_def duplicateOpenFileDescriptor_def wp_simps Let_def)
  next
    case NoOffset
    then have "dup_source s f" using Some unfolding dup_source_def by auto
    then show ?thesis using Q [of s "Some f"] Some NoOffset
      by (simp add: duplicateOpenFileForFd_def duplicateOpenFileDescriptor_def wp_simps)
  next
    case (Shared r)
    then have "dup_source s f" using Some unfolding dup_source_def by auto
    then show ?thesis using Q [of s "Some f"] Some Shared
      by (simp add: duplicateOpenFileForFd_def duplicateOpenFileDescriptor_def wp_simps)
  qed
qed

lemma evolves_then_memory:
  assumes "evolves tidy s t"
  shows "wp (writeU32 p v) (\<lambda>_. evolves tidy s) (\<lambda>_. evolves tidy s) t"
  by (rule wp_mono [OF wp_evolving [OF evolving_memory_only [OF memory_only_write(3)], where tidy = tidy]])
    (use assms in \<open>auto intro: evolves_trans\<close>)

lemma evolves_dup:
  "evolves tidy s t \<Longrightarrow> dup_source t f \<Longrightarrow> isDynamicFileFdNumber to \<or> isStdioFd to \<Longrightarrow>
   evolves tidy s (raise_next_fd to (set_fd_flags to fl (set_descr to f (retainOpenFile f (close_replaced to t)))))"
  by (rule evolves_step) (auto intro: step_dup)

lemma evolves_dup_fresh:
  "evolves tidy s t \<Longrightarrow> dup_source t f \<Longrightarrow> fd = first_free_fd t (max FIRST_FILE_FD k) \<Longrightarrow>
   evolves tidy s (set_fd_flags fd fl (set_descr fd f (retainOpenFile f (allocated fd t))))"
  by (rule evolves_step) (auto intro: step_dup_fresh [where k = "max FIRST_FILE_FD k"])

lemma evolving_duplicateFdTo [evolve_intros]: "evolving tidy (duplicateFdTo fd targetFd fl p)"
  by (rule evolving_wp)
    (auto simp: duplicateFdTo_def wp_simps Let_def split: option.splits
      intro!: wp_duplicate_source evolves_then_memory evolves_dup)

lemma evolving_duplicateFd [evolve_intros]: "evolving tidy (duplicateFd fd k fl p)"
  by (rule evolving_wp)
    (auto simp: duplicateFd_def wp_simps Let_def split: option.splits
      intro!: wp_duplicate_source evolves_then_memory evolves_dup_fresh)

lemma evolving_fdDup [evolve_intros]: "evolving tidy (fdDup fd p)" "evolving tidy (fdDup2 fd to c p)"
  by (simp_all add: fdDup_def fdDup2_def evolving_duplicateFd evolving_duplicateFdTo)

lemma wp_writeU32_evolves:
  assumes "evolves tidy s t" "\<And>m. mem_size m = mem_size (memory t) \<Longrightarrow> evolves tidy s (t\<lparr>memory := m\<rparr>) \<Longrightarrow> Q () (t\<lparr>memory := m\<rparr>)"
    and "E = (\<lambda>_. evolves tidy s)"
  shows "wp (writeU32 p v) Q E t"
proof (rule wp_memory_only [OF memory_only_write(3)])
  fix m :: mem assume "mem_size m = mem_size (memory t)"
  moreover from this have "evolves tidy s (t\<lparr>memory := m\<rparr>)"
    using assms(1) by (auto intro: evolves_step step_memory)
  ultimately show "Q x (t\<lparr>memory := m\<rparr>)" "E e (t\<lparr>memory := m\<rparr>)" for x :: unit and e
    using assms(2,3) by simp_all
qed

lemma evolving_fdPipe [evolve_intros]: "evolving tidy (fdPipe readPtr writePtr)"
proof (rule evolving_wp)
  fix s :: runtime
  let ?s1 = "s\<lparr>pipes := (pipes s)(nextRef s := \<lparr>p_bytes = [], p_readers = 1, p_writers = 1\<rparr>), nextRef := nextRef s + 1\<rparr>"
  let ?r = "first_free_fd ?s1 5"
  let ?s2 = "set_descr ?r (pipe_descr ReadEnd (nextRef s) PIPE_READ_RIGHTS False) (allocated ?r ?s1)"
  let ?w = "first_free_fd ?s2 (max 5 (js_u32 (?r + 1)))"
  have "evolves tidy s (set_descr ?w (pipe_descr WriteEnd (nextRef s) PIPE_WRITE_RIGHTS True) (allocated ?w ?s2))"
    by (rule evolves_one, rule step_pipe [where k = "max 5 (js_u32 (?r + 1))"]) simp_all
  then show "wp (fdPipe readPtr writePtr) (\<lambda>_. evolves tidy s) (\<lambda>_. evolves tidy s) s"
    by (auto simp: fdPipe_def wp_simps Let_def js_u32_id intro!: wp_writeU32_evolves evolves_then_memory)
qed

section \<open>Reading and writing\<close>

lemma set_record_twice: "set_record r g (set_record r f s) = set_record r (\<lambda>x. g (f x)) s"
  by (simp add: set_record_def)

lemma set_record_const: "\<exists>x. set_record r f s = set_record r (\<lambda>_. x) s"
  by (rule exI [of _ "f (recs s r)"]) (simp add: set_record_def)

lemma set_record_same: "set_record r (\<lambda>_. recs s r) s = s"
  by (simp add: set_record_def)

lemma write_chunks_state: "\<exists>x. snd (write_chunks r cs off ch s) = set_record r (\<lambda>_. x) s"
proof (induction cs arbitrary: off ch s)
  case Nil
  show ?case by (auto intro!: exI [of _ "recs s r"] simp: set_record_same)
next
  case (Cons c cs)
  let ?e = "off + int (length c)"
  define s1 where "s1 = (if ?e > record_size s r
      then set_record r (\<lambda>f. f\<lparr>r_bytes := extended (r_bytes f) ?e\<rparr>) s else s)"
  define s2 where "s2 = set_record r (\<lambda>f. f\<lparr>r_bytes := splice (r_bytes f) off c\<rparr>) s1"
  have "\<exists>f. s2 = set_record r f s"
    by (auto simp: s1_def s2_def set_record_twice)
  then obtain y where y: "s2 = set_record r (\<lambda>_. y) s"
    using set_record_const by blast
  obtain x where "snd (write_chunks r cs ?e (ch \<or> ?e > record_size s r \<or> c \<noteq> []) s2) =
      set_record r (\<lambda>_. x) s2" using Cons.IH by blast
  then have "snd (write_chunks r cs ?e (ch \<or> ?e > record_size s r \<or> c \<noteq> []) s2) =
      set_record r (\<lambda>_. x) s" by (simp add: y set_record_twice)
  moreover have "snd (write_chunks r (c # cs) off ch s) = s \<or>
      snd (write_chunks r (c # cs) off ch s) =
      snd (write_chunks r cs ?e (ch \<or> ?e > record_size s r \<or> c \<noteq> []) s2)"
    by (auto simp: Let_def run_seq new_array_def s1_def s2_def)
  ultimately show ?case by (metis set_record_same)
qed

lemma evolves_memory:
  "evolves tidy s t \<Longrightarrow> mem_size m = mem_size (memory t) \<Longrightarrow> evolves tidy s (t\<lparr>memory := m\<rparr>)"
  by (auto intro: evolves_step step_memory)

lemma evolves_record: "evolves tidy s t \<Longrightarrow> mutable_record t r \<Longrightarrow> evolves tidy s (set_record r g t)"
  by (auto intro: evolves_step step_record)

lemma evolves_dirty: "evolves tidy s t \<Longrightarrow> evolves tidy s (if ws_writable t then t\<lparr>ws_dirty := True\<rparr> else t)"
  by (auto intro: evolves_step step_dirty)

lemma evolves_set_offset:
  "evolves tidy s t \<Longrightarrow> openFile t fd = Some file \<Longrightarrow> evolves tidy s (set_offset fd file v t)"
  by (auto simp: set_offset_def split: offset_field.splits
      intro: evolves_step step_offset step_descr narrows_offset)

lemma mutable_record_same [simp, state_simps]:
  "mutable_record (set_record r g s) r' = mutable_record s r'"
  "mutable_record (s\<lparr>memory := m\<rparr>) r' = mutable_record s r'"
  by (simp_all add: mutable_record_def set_record_def)

text \<open>The state after a write to a file: other records, perhaps a dirty workspace.\<close>

lemma wp_writeOpenFileAt:
  assumes t: "evolves tidy s t" "mutable_record t (d_record file)"
    and Q: "\<And>x rs b. evolves tidy s (t\<lparr>recs := rs, ws_dirty := b\<rparr>) \<Longrightarrow> Q x (t\<lparr>recs := rs, ws_dirty := b\<rparr>)"
    and E: "E = (\<lambda>_. evolves tidy s)"
  shows "wp (writeOpenFileAt file cs off) Q E t"
proof -
  obtain x where x: "snd (write_chunks (d_record file) cs off False t) = set_record (d_record file) (\<lambda>_. x) t"
    using write_chunks_state by blast
  let ?t = "set_record (d_record file) (\<lambda>_. x) t"
  let ?u = "set_record (d_record file) (\<lambda>r. r\<lparr>r_fallback := False\<rparr>) ?t"
  have ev: "evolves tidy s ?t" "evolves tidy s ?u" using t by (auto intro!: evolves_record)
  have form: "?t = t\<lparr>recs := recs ?t, ws_dirty := ws_dirty t\<rparr>" "?u = t\<lparr>recs := recs ?u, ws_dirty := ws_dirty t\<rparr>"
    "?u\<lparr>ws_dirty := True\<rparr> = t\<lparr>recs := recs ?u, ws_dirty := True\<rparr>"
    by (simp_all add: set_record_def)
  have "ws_writable ?u \<Longrightarrow> evolves tidy s (?u\<lparr>ws_dirty := True\<rparr>)"
    using ev(2) by (auto intro: evolves_step step_dirty)
  then have QQ: "Q y ?t" "Q y ?u" "ws_writable ?u \<Longrightarrow> Q y (?u\<lparr>ws_dirty := True\<rparr>)" for y
    using Q ev form by metis+
  show ?thesis
  proof (cases "write_chunks (d_record file) cs off False t")
    case (Pair r t')
    then show ?thesis
      using x QQ ev by (cases r)
        (auto simp: writeOpenFileAt_def markOpenFileDirty_def wp_def run_bind run_seq E
          markWorkspaceDirty_def split: prod.splits)
  qed
qed

lemma wp_writeOpenFile:
  assumes t: "evolves tidy s t" "mutable_record t (d_record file)" "openFile t fd = Some file"
    and E: "E = (\<lambda>_. evolves tidy s)" and Q: "\<And>u. evolves tidy s u \<Longrightarrow> Q () u"
  shows "wp (writeOpenFile fd file cs) Q E t"
  using t by (auto simp: writeOpenFile_def wp_simps Let_def E
      intro!: wp_writeOpenFileAt evolves_set_offset Q)

lemma mutable_open:
  "openFile s fd = Some f \<Longrightarrow> d_writable f \<Longrightarrow> d_kind f \<noteq> Pipe \<Longrightarrow> d_kind f \<noteq> Stdio \<Longrightarrow>
   mutable_record s (d_record f)"
  by (fastforce simp: mutable_record_def list_ex_iff dest: map_of_SomeD)

lemma evolves_output: "evolves tidy s t \<Longrightarrow> evolves tidy s (t\<lparr>written := written t @ w\<rparr>)"
  by (auto intro: evolves_step step_output)

lemma evolving_write_output [evolve_intros]: "evolving tidy (write_output fd cs)"
  by (auto simp: evolving_def write_output_def intro: evolves_output)

lemma evolving_fdWriteStdio [evolve_intros]: "evolving tidy (fdWriteStdio f iovs n p)"
  unfolding fdWriteStdio_def by (intro evolve_intros; (intro memory_intros)?)

lemma evolves_pipe_bytes:
  "evolves tidy s t \<Longrightarrow> length (g (p_bytes (pipes t p))) \<le> 1048576 \<or>
     length (g (p_bytes (pipes t p))) \<le> length (p_bytes (pipes t p)) \<Longrightarrow>
   evolves tidy s (set_pipe p (\<lambda>q. q\<lparr>p_bytes := g (p_bytes q)\<rparr>) t)"
  using evolves_step [OF _ step_pipe_bytes [of "g (p_bytes (pipes t p))" t p]]
  by (simp add: set_pipe_def)

lemma length_extended: "int (length (extended bs n)) = max (int (length bs)) n"
  by (simp add: extended_def)

lemma length_pipe_append:
  "int (length (concat cs)) \<le> n \<Longrightarrow> int (length (pipe_append bs cs n)) = int (length bs) + n"
  by (simp add: pipe_append_def length_extended)

lemma evolving_fdWritePipe [evolve_intros]: "evolving tidy (fdWritePipe f iovs n p)"
proof (rule evolving_wp)
  fix s
  have fits: "length (pipe_append bs cs k) \<le> 1048576"
    if "int (length (concat cs)) \<le> k" "\<not> 1048576 < int (length bs) + k" for bs cs k
    using length_pipe_append [OF that(1), of bs] that(2) by linarith
  show "wp (fdWritePipe f iovs n p) (\<lambda>_. evolves tidy s) (\<lambda>_. evolves tidy s) s"
    by (auto simp: fdWritePipe_def wp_simps
        intro!: wp_writeU32_evolves wp_readIovChunks evolves_pipe_bytes [where g = "\<lambda>b. pipe_append b _ _"] fits)
qed

lemma evolving_fdWrite_file:
  assumes "openFile s fd = Some f" "canWriteFile f" "d_kind f \<noteq> Pipe" "d_kind f \<noteq> Stdio"
  shows "wp (bindM (readIovChunks iovs n) (\<lambda>(chunks, n). seqM (writeU32 p n)
      (seqM (writeOpenFile fd f chunks) (ret ERRNO_SUCCESS)))) (\<lambda>_. evolves tidy s) (\<lambda>_. evolves tidy s) s"
  using assms mutable_open [of s fd f]
  by (auto simp: wp_simps canWriteFile_def intro!: wp_readIovChunks wp_writeU32_evolves wp_writeOpenFile)

text \<open>Stepping through a handler from one state, keeping what its tests have found out.\<close>

definition evolving_at :: "bool \<Rightarrow> runtime \<Rightarrow> 'a wasi \<Rightarrow> bool" where
  "evolving_at tidy s m \<longleftrightarrow> evolves tidy s (snd (m s))"

named_theorems at_intros \<open>one step of a handler from a known state\<close>

lemma evolving_from: "(\<And>s. evolving_at tidy s m) \<Longrightarrow> evolving tidy m"
  by (simp add: evolving_def evolving_at_def)

lemma at_any: "evolving tidy m \<Longrightarrow> evolving_at tidy s m"
  by (simp add: evolving_def evolving_at_def)

lemma at_memory: "memory_only m \<Longrightarrow> evolving_at tidy s m"
  by (simp add: at_any evolving_memory_only)

lemma at_wp: "wp m (\<lambda>_. evolves tidy s) (\<lambda>_. evolves tidy s) s \<Longrightarrow> evolving_at tidy s m"
  by (simp add: evolving_at_def wp_state)

lemma at_modify: "evolves tidy s (g s) \<Longrightarrow> evolving_at tidy s (modifyM g)"
  by (simp add: evolving_at_def)

lemma at_ret [at_intros]: "evolving_at tidy s (ret x)" "evolving_at tidy s (throw e)"
  by (simp_all add: evolving_at_def)

lemma at_with_state [at_intros]: "evolving_at tidy s (f s) \<Longrightarrow> evolving_at tidy s (with_state f)"
  by (simp add: evolving_at_def)

lemma at_cases [at_intros]:
  "(b \<Longrightarrow> evolving_at tidy s m) \<Longrightarrow> (\<not> b \<Longrightarrow> evolving_at tidy s n) \<Longrightarrow> evolving_at tidy s (if b then m else n)"
  "(v = None \<Longrightarrow> evolving_at tidy s m) \<Longrightarrow> (\<And>x. v = Some x \<Longrightarrow> evolving_at tidy s (f x)) \<Longrightarrow>
   evolving_at tidy s (case v of None \<Rightarrow> m | Some x \<Rightarrow> f x)"
  "(\<And>x. w = Inl x \<Longrightarrow> evolving_at tidy s (g x)) \<Longrightarrow> (\<And>x. w = Inr x \<Longrightarrow> evolving_at tidy s (h x)) \<Longrightarrow>
   evolving_at tidy s (case w of Inl x \<Rightarrow> g x | Inr x \<Rightarrow> h x)"
  "(\<And>x y. p = (x, y) \<Longrightarrow> evolving_at tidy s (k x y)) \<Longrightarrow> evolving_at tidy s (case p of (x, y) \<Rightarrow> k x y)"
  by (simp, cases v, simp_all, cases w, simp_all, cases p, simp_all)

lemma at_bind: "evolving_at tidy s m \<Longrightarrow> (\<And>x. evolving tidy (f x)) \<Longrightarrow> evolving_at tidy s (bindM m f)"
  by (simp add: evolving_at_def evolves_bind_at)

lemma at_seq: "evolving_at tidy s m \<Longrightarrow> evolving tidy n \<Longrightarrow> evolving_at tidy s (seqM m n)"
  by (simp add: evolving_at_def evolves_seq_at)

lemma at_bind_memory:
  assumes "memory_only m" "\<And>x mem. evolving_at tidy (s\<lparr>memory := mem\<rparr>) (f x)"
  shows "evolving_at tidy s (bindM m f)"
proof -
  obtain mem where m: "snd (m s) = s\<lparr>memory := mem\<rparr>" "mem_size mem = mem_size (memory s)"
    using assms(1) unfolding memory_only_def by blast
  then have "evolves tidy s (s\<lparr>memory := mem\<rparr>)" by (simp add: evolves_one step_memory)
  then show ?thesis
    using m assms(2) by (cases "m s")
      (auto simp: evolving_at_def run_bind intro: evolves_trans split: sum.splits)
qed

lemma at_seq_memory:
  "memory_only m \<Longrightarrow> (\<And>mem. evolving_at tidy (s\<lparr>memory := mem\<rparr>) n) \<Longrightarrow> evolving_at tidy s (seqM m n)"
  by (simp add: seqM_def at_bind_memory)

lemma at_seq_modify:
  "evolves tidy s (g s) \<Longrightarrow> evolving_at tidy (g s) n \<Longrightarrow> evolving_at tidy s (seqM (modifyM g) n)"
  by (auto simp: evolving_at_def run_seq intro: evolves_trans)

lemma evolving_fdWrite [evolve_intros]: "evolving tidy (fdWrite fd iovs n p)"
  unfolding fdWrite_def
proof (rule evolving_from, intro at_seq_memory at_with_state at_cases(1,2))
  fix s f
  assume f: "openFile s fd = Some f" "\<not> isOpenPipe (Some f)" "\<not> isOpenStdio (Some f)" "\<not> \<not> canWriteFile f"
  then show "evolving_at tidy s (bindM (readIovChunks iovs n) (\<lambda>(chunks, n). seqM (writeU32 p n)
      (seqM (writeOpenFile fd f chunks) (ret ERRNO_SUCCESS))))"
    by (intro at_wp evolving_fdWrite_file) (auto simp: isOpenPipe_def isOpenStdio_def)
qed (rule memory_intros | rule at_ret | rule at_any | rule evolve_intros)+

end
