(* ===== verification/Host_Calls.thy ===== *)
theory Host_Calls imports Host_Steps begin

text \<open>
  Every remaining handler of \<open>WasiPreview1Runtime\<close> as a run of elementary changes of \<open>Host_Steps\<close>:
  positional writes, reads, seeking and sizing, \<open>path_open\<close> and the calls that change a tree.
\<close>

section \<open>Files\<close>

lemma at_bind_write:
  "mutable_record s (d_record file) \<Longrightarrow> (\<And>x. evolving tidy (f x)) \<Longrightarrow>
   evolving_at tidy s (bindM (writeOpenFileAt file cs off) f)"
  by (rule at_bind, rule at_wp, rule wp_writeOpenFileAt [where s = s and t = s]) auto

lemma writable_record:
  "openFile s fd = Some f \<Longrightarrow> d_writable f \<Longrightarrow> \<not> isOpenPipe (Some f) \<Longrightarrow> \<not> isOpenStdio (Some f) \<Longrightarrow>
   mutable_record s (d_record f)"
  using mutable_open by (auto simp: isOpenPipe_def isOpenStdio_def)

lemma evolving_fdPwrite [evolve_intros]: "evolving tidy (fdPwrite fd iovs n off p)"
  unfolding fdPwrite_def
  by (rule evolving_from, (rule at_bind_write at_seq_memory at_bind_memory at_with_state at_cases at_ret
      | rule memory_intros | rule evolve_intros
      | (simp; force simp: canWriteFile_def dest: writable_record))+)

lemma evolves_stdin: "evolves tidy s (s\<lparr>stdinOffset := n\<rparr>)"
  by (simp add: evolves_one step_stdin)

lemma evolving_advance_stdin [evolve_intros]: "evolving tidy (modifyM (\<lambda>s. s\<lparr>stdinOffset := stdinOffset s + n\<rparr>))"
  by (simp add: evolving_def evolves_stdin)

lemma evolving_fdReadStdio [evolve_intros]: "evolving tidy (fdReadStdio f iovs n p)"
  unfolding fdReadStdio_def by (intro evolve_intros; (intro memory_intros)?)

lemma length_js_slice_le: "length (js_slice xs a b) \<le> length xs"
  by (simp add: js_slice_def Let_def)

lemma evolving_take_pipe [evolve_intros]:
  "evolving tidy (modifyM (set_pipe q (\<lambda>p. p\<lparr>p_bytes := js_slice (p_bytes p) n (int (length (p_bytes p)))\<rparr>)))"
  unfolding evolving_def
  by (auto intro!: evolves_pipe_bytes [where g = "\<lambda>b. js_slice b n (int (length b))"] simp: length_js_slice_le)

lemma evolving_fdReadPipe [evolve_intros]: "evolving tidy (fdReadPipe f iovs n p)"
  unfolding fdReadPipe_def Let_def by (intro evolve_intros; (intro memory_intros)?)

lemma at_set_offset:
  "openFile s fd = Some f \<Longrightarrow> evolving tidy n \<Longrightarrow> evolving_at tidy s (seqM (modifyM (\<lambda>t. set_offset fd f (v t) t)) n)"
  "openFile s fd = Some f \<Longrightarrow> evolving tidy n \<Longrightarrow> evolving_at tidy s (seqM (modifyM (set_offset fd f w)) n)"
  by (rule at_seq, rule at_modify, rule evolves_set_offset, auto)+

lemma at_advance_stdin:
  "evolving tidy n \<Longrightarrow> evolving_at tidy s (seqM (modifyM (\<lambda>s. s\<lparr>stdinOffset := stdinOffset s + k\<rparr>)) n)"
  by (rule at_seq, rule at_any, rule evolving_advance_stdin)

lemma evolving_fdRead [evolve_intros]: "evolving tidy (fdRead fd iovs n p)"
  unfolding fdRead_def
  by (rule evolving_from, (rule at_set_offset at_advance_stdin at_seq_memory at_bind_memory at_with_state at_cases at_ret
      | rule memory_intros | rule evolve_intros | rule at_any | (simp; fail))+)

lemma memory_only_resolveFileSeekOffset [memory_intros]: "memory_only (resolveFileSeekOffset f off w)"
  unfolding resolveFileSeekOffset_def Let_def by (intro memory_intros)

lemma evolving_fdSeek [evolve_intros]: "evolving tidy (fdSeek fd off w p)"
  unfolding fdSeek_def
  by (rule evolving_from, (rule at_set_offset at_seq_memory at_bind_memory at_with_state at_cases at_ret
      | rule memory_intros | rule evolve_intros | (simp; fail))+)

lemma evolving_markWorkspaceDirty [evolve_intros]: "evolving tidy markWorkspaceDirty"
  unfolding evolving_def using evolves_dirty [OF evolves_refl] by (simp add: markWorkspaceDirty_def)

lemma at_markOpenFileDirty: "mutable_record s (d_record f) \<Longrightarrow> evolving_at tidy s (markOpenFileDirty f)"
  unfolding markOpenFileDirty_def
  by (intro at_cases at_seq at_modify evolves_record evolves_refl at_ret evolving_markWorkspaceDirty)

lemma at_resize:
  assumes "d_kind f = RegularFile \<Longrightarrow> mutable_record s (d_record f)"
  shows "evolving_at tidy s (bindM (resizeOpenFile f sz) (\<lambda>resized.
    seqM (if resized then markOpenFileDirty f else ret ()) (ret e)))"
proof (rule at_wp)
  let ?s = "set_record (d_record f) (\<lambda>r. r\<lparr>r_bytes := extended (take (nat sz) (r_bytes r)) sz\<rparr>) s"
  have "wp (markOpenFileDirty f) (\<lambda>_. evolves tidy s) (\<lambda>_. evolves tidy s) ?s" if "d_kind f = RegularFile"
  proof -
    have "evolves tidy s ?s" using assms [OF that] by (auto intro: evolves_record)
    moreover have "evolves tidy ?s (snd (markOpenFileDirty f ?s))"
      using at_markOpenFileDirty [of ?s f] assms [OF that] by (simp add: evolving_at_def)
    ultimately show ?thesis unfolding wp_state by (rule evolves_trans)
  qed
  then show "wp (bindM (resizeOpenFile f sz) (\<lambda>resized.
      seqM (if resized then markOpenFileDirty f else ret ()) (ret e))) (\<lambda>_. evolves tidy s) (\<lambda>_. evolves tidy s) s"
    by (auto simp: resizeOpenFile_def wp_simps)
qed

lemma regular_record:
  "openFile s fd = Some f \<Longrightarrow> d_writable f \<Longrightarrow> d_kind f = RegularFile \<Longrightarrow> mutable_record s (d_record f)"
  using mutable_open by auto

lemma evolving_fdFilestatSetSize [evolve_intros]: "evolving tidy (fdFilestatSetSize fd sz)"
  unfolding fdFilestatSetSize_def
  by (rule evolving_from, (rule at_resize at_seq_memory at_bind_memory at_with_state at_cases at_ret
      | rule memory_intros | (simp; force simp: canResizeFile_def dest: regular_record))+)

lemma evolving_fdAllocate [evolve_intros]: "evolving tidy (fdAllocate fd off n)"
  unfolding fdAllocate_def
  by (rule evolving_from, (rule at_resize at_seq_memory at_bind_memory at_with_state at_cases at_ret
      | rule memory_intros | (simp; force simp: canAllocateFile_def dest: regular_record))+)

section \<open>Where requests start\<close>

lemma bases_ok_simps [simp]:
  "bases_ok (s\<lparr>memory := m\<rparr>) = bases_ok s" "bases_ok (s\<lparr>ws_dirty := b\<rparr>) = bases_ok s"
  "bases_ok (set_record r g s) = bases_ok s"
  by (simp_all add: bases_ok_def set_record_def)

lemma trees_ok_memory [simp]: "trees_ok (s\<lparr>memory := m\<rparr>) = trees_ok s"
  by (simp add: trees_ok_def)

lemma trees_ok_bases: "trees_ok s \<Longrightarrow> bases_ok s"
  by (simp add: trees_ok_def)

lemma descr_path_ok: "bases_ok s \<Longrightarrow> openFile s fd = Some f \<Longrightarrow> d_path f = Some p \<Longrightarrow> canonical p"
  by (fastforce simp: bases_ok_def paths_ok_def list_all_iff dest: map_of_SomeD)

named_theorems base_canonical \<open>the base path of a request is canonical\<close>

lemma base_paths [base_canonical]:
  "scratchBasePath s fd = Some b \<Longrightarrow> bases_ok s \<Longrightarrow> canonical b"
  "packageRootBasePath s fd = Some b \<Longrightarrow> bases_ok s \<Longrightarrow> canonical b"
  "workspaceBasePath s fd = Some b \<Longrightarrow> bases_ok s \<Longrightarrow> canonical b"
  by (auto simp: scratchBasePath_def packageRootBasePath_def workspaceBasePath_def
      split: if_splits option.splits intro: descr_path_ok)

lemma cwd_base_path [base_canonical]:
  assumes "workspaceCwdBasePathForPathRequest s fd guest = Some b" "bases_ok s"
  shows "canonical b"
proof -
  have "canonical b" if cwd: "mountedRelativePath (rt_cwd s) WORKSPACE_PREOPEN_PATH = Some b"
  proof -
    from assms(2) obtain q where q: "rt_cwd s = CHR ''/'' # q" "canonical q"
      by (auto simp: bases_ok_def canonical_abs_def)
    from mountedRelativePath_Some [OF cwd] q show ?thesis
      using canonical_slash_suffix [of "''workspace''" b] canonical_slash_suffix [of "''workspace%''" b]
      by (auto simp: WORKSPACE_PREOPEN_PATH_def)
  qed
  then show ?thesis
    using assms(1) by (auto simp: workspaceCwdBasePathForPathRequest_def split: if_splits)
qed

lemma request_base_paths [base_canonical]:
  "mutableWorkspaceBasePath s fd = Some b \<Longrightarrow> bases_ok s \<Longrightarrow> canonical b"
  "workspaceBasePathForPathRequest s fd guest = Some b \<Longrightarrow> bases_ok s \<Longrightarrow> canonical b"
  "mutableWorkspaceBasePathForPathRequest s fd guest = Some b \<Longrightarrow> bases_ok s \<Longrightarrow> canonical b"
  "scratchBasePathForRight s fd right = Inr b \<Longrightarrow> bases_ok s \<Longrightarrow> canonical b"
  "workspaceBasePathForRight s fd right = Inr b \<Longrightarrow> bases_ok s \<Longrightarrow> canonical b"
  by (auto simp: mutableWorkspaceBasePath_def workspaceBasePathForPathRequest_def
      mutableWorkspaceBasePathForPathRequest_def scratchBasePathForRight_def workspaceBasePathForRight_def
      split: if_splits option.splits intro: descr_path_ok base_paths cwd_base_path)

lemma right_base_path [base_canonical]:
  "workspaceBasePathForRightOrPathRequest s fd guest right = Some (Inr b) \<Longrightarrow> bases_ok s \<Longrightarrow> canonical b"
  by (auto simp: workspaceBasePathForRightOrPathRequest_def Let_def
      split: if_splits option.splits sum.splits intro: request_base_paths cwd_base_path)

section \<open>Opening\<close>

lemma at_open_next_fd:
  assumes "open_source s f" "\<And>q. bases_ok s \<Longrightarrow> d_path f = Some q \<Longrightarrow> canonical q"
  shows "evolving_at tidy s (open_next_fd f p)"
  unfolding open_next_fd_def Let_def
proof (rule at_with_state)
  from assms have "evolves tidy s (set_descr (nextFileFd s) f (s\<lparr>nextFileFd := nextFileFd s + 1\<rparr>))"
    by (intro evolves_one step_open)
  then show "evolving_at tidy s (seqM (modifyM (\<lambda>s. s\<lparr>nextFileFd := nextFileFd s + 1\<rparr>))
      (seqM (modifyM (set_descr (nextFileFd s) f)) (seqM (writeU32 p (nextFileFd s)) (ret ERRNO_SUCCESS))))"
    by (intro at_wp) (auto simp: wp_simps intro: evolves_then_memory)
qed

lemma open_source_dir:
  "allowsRights rights (preopen_rights s (case mnt of None \<Rightarrow> Scratch | Some m \<Rightarrow> m)) \<Longrightarrow>
   open_source s (dir_descr mnt p rights i 0)"
  unfolding open_source_def by blast

lemma allowsRights_or_default: "allowsRights (rights_or_default r a) a"
  by (simp add: rights_or_default_def)

lemma allowsRights_workspace: "allowsRights r WORKSPACE_RIGHTS \<Longrightarrow> allowsRights r (preopen_rights s Workspace)"
  by (rule allowsRights_trans, assumption) (simp add: preopen_rights_def, code_simp)

lemma descr_paths [simp]:
  "d_path (file_descr m p r ri fl w off) = Some p" "d_path (dir_descr m p ri i fl) = Some p"
  by (simp_all add: descr_defs)

lemma at_openPackageRootDirectory:
  "(bases_ok s \<Longrightarrow> canonical path) \<Longrightarrow> evolving_at tidy s (openPackageRootDirectory path r i fl p)"
  unfolding openPackageRootDirectory_def
  by ((rule at_open_next_fd at_with_state at_cases at_ret)+)
    (auto simp: preopen_rights_def intro!: open_source_dir)

lemma at_openScratchDirectory:
  "(bases_ok s \<Longrightarrow> canonical path) \<Longrightarrow> evolving_at tidy s (openScratchDirectory path r i fl p)"
  unfolding openScratchDirectory_def
  by ((rule at_open_next_fd at_with_state at_cases at_ret)+)
    (auto simp: preopen_rights_def intro!: open_source_dir)

lemma at_openWorkspaceDirectory:
  "ws_writable s \<Longrightarrow> (bases_ok s \<Longrightarrow> canonical path) \<Longrightarrow>
   evolving_at tidy s (openWorkspaceDirectory path r i fl p)"
  unfolding openWorkspaceDirectory_def
  by ((rule at_open_next_fd at_with_state at_cases at_ret)+)
    (auto simp: preopen_rights_def intro!: open_source_dir)

lemma at_openReadOnlyWorkspaceDirectory:
  "(bases_ok s \<Longrightarrow> canonical path) \<Longrightarrow>
   evolving_at tidy s (openReadOnlyWorkspaceDirectory path r i fl p)"
  unfolding openReadOnlyWorkspaceDirectory_def
  by ((rule at_open_next_fd at_with_state at_cases at_ret)+)
    (auto intro!: open_source_dir allowsRights_workspace allowsRights_or_default)

lemma at_create_record:
  assumes "\<And>t r. t = s\<lparr>recs := (recs s)(nextRef s := new_record path), nextRef := nextRef s + 1\<rparr> \<Longrightarrow>
      r = nextRef s \<Longrightarrow> evolves tidy s (g r t) \<and> evolving_at tidy (g r t) (k r)"
  shows "evolving_at tidy s (bindM (alloc_record path) (\<lambda>r. seqM (modifyM (g r)) (k r)))"
proof -
  let ?t = "s\<lparr>recs := (recs s)(nextRef s := new_record path), nextRef := nextRef s + 1\<rparr>"
  have "evolves tidy s (g (nextRef s) ?t)" "evolving_at tidy (g (nextRef s) ?t) (k (nextRef s))"
    using assms by auto
  then have "evolves tidy s (snd (k (nextRef s) (g (nextRef s) ?t)))"
    unfolding evolving_at_def by (rule evolves_trans)
  then show ?thesis
    by (simp add: evolving_at_def alloc_record_def Let_def run_bind run_seq)
qed

lemma update_in_records: "r \<in> snd ` set (AList.update p r xs)"
  by (induction xs) auto

lemma at_create_scratch:
  assumes "trees_ok s \<Longrightarrow> tree_kept (sc_files s) (sc_dirs s) (AList.update p (nextRef s) (sc_files s)) (sc_dirs s)"
    and "\<And>r t. r \<in> snd ` set (sc_files t) \<Longrightarrow> bases_ok t = bases_ok s \<Longrightarrow> evolving_at tidy t (k r)"
  shows "evolving_at tidy s (bindM (alloc_record path) (\<lambda>r.
    seqM (modifyM (\<lambda>s. s\<lparr>sc_files := AList.update p r (sc_files s)\<rparr>)) (k r)))"
proof (rule at_create_record)
  fix t r
  assume t: "t = s\<lparr>recs := (recs s)(nextRef s := new_record path), nextRef := nextRef s + 1\<rparr>" "r = nextRef s"
  have "evolves tidy s (t\<lparr>sc_files := AList.update p r (sc_files t)\<rparr>)"
    using evolves_one [OF step_scratch_new [of tidy s p "new_record path"]] assms(1) by (simp add: t)
  then show "evolves tidy s (t\<lparr>sc_files := AList.update p r (sc_files t)\<rparr>) \<and>
      evolving_at tidy (t\<lparr>sc_files := AList.update p r (sc_files t)\<rparr>) (k r)"
    using assms(2) by (simp add: update_in_records t bases_ok_def)
qed

lemma at_create_workspace:
  assumes "ws_writable s" "trees_ok s \<Longrightarrow> tree_kept (ws_files s) (ws_dirs s) (AList.update p (nextRef s) (ws_files s)) (ws_dirs s)"
    and "\<And>r t. ws_writable t \<Longrightarrow> r \<in> snd ` set (ws_files t) \<Longrightarrow> bases_ok t = bases_ok s \<Longrightarrow>
      evolving_at tidy t (k r)"
  shows "evolving_at tidy s (bindM (alloc_record path) (\<lambda>r.
    seqM (modifyM (\<lambda>s. s\<lparr>ws_files := AList.update p r (ws_files s)\<rparr>)) (k r)))"
proof (rule at_create_record)
  fix t r
  assume t: "t = s\<lparr>recs := (recs s)(nextRef s := new_record path), nextRef := nextRef s + 1\<rparr>" "r = nextRef s"
  have "evolves tidy s (t\<lparr>ws_files := AList.update p r (ws_files t)\<rparr>)"
    using evolves_one [OF step_workspace_new [of s tidy p "new_record path"]] assms(1,2) by (simp add: t)
  then show "evolves tidy s (t\<lparr>ws_files := AList.update p r (ws_files t)\<rparr>) \<and>
      evolving_at tidy (t\<lparr>ws_files := AList.update p r (ws_files t)\<rparr>) (k r)"
    using assms(1,3) by (simp add: update_in_records t bases_ok_def)
qed

lemma at_seq_if_modify:
  "(b \<Longrightarrow> evolves tidy s (g s)) \<Longrightarrow> (b \<Longrightarrow> evolving_at tidy (g s) n) \<Longrightarrow> (\<not> b \<Longrightarrow> evolving_at tidy s n) \<Longrightarrow>
   evolving_at tidy s (seqM (if b then modifyM g else ret ()) n)"
  by (cases b) (simp_all add: at_seq_modify, simp add: evolving_at_def run_seq)

lemma open_source_scratch:
  "r \<in> snd ` set (sc_files s) \<Longrightarrow> allowsRights rights SCRATCH_FILE_RIGHTS \<Longrightarrow>
   open_source s (file_descr None p r rights fl True off)"
  unfolding open_source_def by (rule disjI1, intro exI conjI) (rule refl | assumption)+

lemma open_source_workspace:
  "ws_writable s \<Longrightarrow> r \<in> snd ` set (ws_files s) \<Longrightarrow> allowsRights rights SCRATCH_FILE_RIGHTS \<Longrightarrow>
   open_source s (file_descr (Some Workspace) p r rights fl True off)"
  unfolding open_source_def by (rule disjI2, rule disjI1, intro exI conjI) (rule refl | assumption)+

lemma map_of_in_snd: "map_of xs q = Some r \<Longrightarrow> r \<in> snd ` set xs"
  by (force dest: map_of_SomeD)

lemma open_source_readonly:
  "map_of (ws_files s) q = Some r \<Longrightarrow> allowsRights rights REGULAR_FILE_RIGHTS \<Longrightarrow>
   open_source s (file_descr None p r rights 0 False 0)"
  unfolding open_source_def by (rule disjI2, rule disjI2, rule disjI1, intro exI conjI) (rule refl | assumption | erule map_of_in_snd)+

lemma open_source_package:
  "map_of (pr_files s) q = Some r \<Longrightarrow> allowsRights rights REGULAR_FILE_RIGHTS \<Longrightarrow>
   open_source s (file_descr (Some PackageRoot) p r rights 0 False 0)"
  unfolding open_source_def by (rule disjI2, rule disjI2, rule disjI2, rule disjI1, intro exI conjI)
    (rule refl | assumption | erule map_of_in_snd)+

lemmas open_source_file = open_source_scratch open_source_workspace open_source_readonly open_source_package

lemma mutable_tree_record:
  "r \<in> snd ` set (sc_files s) \<Longrightarrow> mutable_record s r"
  "ws_writable s \<Longrightarrow> r \<in> snd ` set (ws_files s) \<Longrightarrow> mutable_record s r"
  by (simp_all add: mutable_record_def)

lemma at_opened_scratch:
  assumes "file \<in> snd ` set (sc_files s)" "allowsRights rr SCRATCH_FILE_RIGHTS"
    and "bases_ok s \<Longrightarrow> canonical path"
  shows "evolving_at tidy s (seqM (if b then modifyM (set_record file g) else ret ())
    (with_state (\<lambda>s. open_next_fd (file_descr None path file rr fl True (v s)) p)))"
proof (rule at_seq_if_modify)
  have op: "evolving_at tidy t (with_state (\<lambda>s. open_next_fd (file_descr None path file rr fl True (v s)) p))"
    if "sc_files t = sc_files s" "bases_ok t = bases_ok s" for t
    using that assms by (intro at_with_state at_open_next_fd open_source_scratch) simp_all
  show "evolves tidy s (set_record file g s)"
    using assms(1) by (intro evolves_record evolves_refl mutable_tree_record)
  show "evolving_at tidy (set_record file g s) (with_state (\<lambda>s. open_next_fd (file_descr None path file rr fl True (v s)) p))"
    by (rule op) (simp_all add: set_record_def bases_ok_def)
  show "evolving_at tidy s (with_state (\<lambda>s. open_next_fd (file_descr None path file rr fl True (v s)) p))"
    by (rule op) simp_all
qed

lemma at_opened_workspace:
  assumes "ws_writable s" "file \<in> snd ` set (ws_files s)" "allowsRights rr SCRATCH_FILE_RIGHTS"
    and "bases_ok s \<Longrightarrow> canonical path"
  shows "evolving_at tidy s (seqM (if b then modifyM (set_record file g) else ret ())
    (seqM (if c then markWorkspaceDirty else ret ())
    (with_state (\<lambda>s. open_next_fd (file_descr (Some Workspace) path file rr fl True (v s)) p))))"
proof -
  have op: "evolving_at tidy t (with_state (\<lambda>s. open_next_fd (file_descr (Some Workspace) path file rr fl True (v s)) p))"
    if "ws_writable t" "ws_files t = ws_files s" "bases_ok t = bases_ok s" for t
    using that assms by (intro at_with_state at_open_next_fd open_source_workspace) simp_all
  have dirty: "evolving_at tidy t (seqM (if c then markWorkspaceDirty else ret ())
      (with_state (\<lambda>s. open_next_fd (file_descr (Some Workspace) path file rr fl True (v s)) p)))"
    if "ws_writable t" "ws_files t = ws_files s" "bases_ok t = bases_ok s" for t
    unfolding markWorkspaceDirty_def
    by (rule at_seq_if_modify) (use that op [of t] op [of "t\<lparr>ws_dirty := True\<rparr>"] in \<open>auto intro: evolves_one step_dirty\<close>)
  show ?thesis
  proof (rule at_seq_if_modify)
    show "evolves tidy s (set_record file g s)"
      using assms(1,2) by (intro evolves_record evolves_refl mutable_tree_record)
  qed (rule dirty; use assms(1) in \<open>simp add: set_record_def bases_ok_def\<close>)+
qed

lemma new_file_ok:
  "trees_ok s \<Longrightarrow> canonical path \<Longrightarrow> path \<notin> set (sc_dirs s) \<Longrightarrow>
   \<not> pathHasChildren (sc_files s) (sc_dirs s) path \<Longrightarrow>
   scratchParentStatus (sc_files s) (sc_dirs s) path = None \<Longrightarrow> tree_kept (sc_files s) (sc_dirs s) (AList.update path r (sc_files s)) (sc_dirs s)"
  "trees_ok s \<Longrightarrow> canonical path \<Longrightarrow> path \<notin> set (ws_dirs s) \<Longrightarrow>
   \<not> pathHasChildren (ws_files s) (ws_dirs s) path \<Longrightarrow>
   scratchParentStatus (ws_files s) (ws_dirs s) path = None \<Longrightarrow> tree_kept (ws_files s) (ws_dirs s) (AList.update path r (ws_files s)) (ws_dirs s)"
  by (auto simp: trees_ok_def tree_kept_def intro!: tree_ok_add_file parents_add_file)

lemmas path_facts = resolveMountedPath_canonical resolveScratchPath_ok(1) resolvePackageRootPath_ok(1)
  rootVirtualMountPath_ok(1) new_file_ok

lemma at_openScratchFile:
  assumes "bases_ok s \<Longrightarrow> canonical base"
  shows "evolving_at tidy s (openScratchFile base pp pl ofl rb ri fl p)"
  unfolding openScratchFile_def Let_def
  by ((rule at_opened_scratch at_create_scratch at_openScratchDirectory at_with_state at_cases at_ret
    | (simp; fail) | (use assms in \<open>auto dest: trees_ok_bases intro: path_facts map_of_in_snd\<close>; fail))+)

lemma at_openWorkspaceFile:
  assumes "ws_writable s" "bases_ok s \<Longrightarrow> canonical base"
  shows "evolving_at tidy s (openWorkspaceFile base pp pl ofl rb ri fl p)"
  unfolding openWorkspaceFile_def Let_def
  by ((rule at_opened_workspace at_create_workspace at_openWorkspaceDirectory at_with_state at_cases at_ret
    | (simp; fail) | (use assms in \<open>auto dest: trees_ok_bases intro: path_facts map_of_in_snd\<close>; fail))+)

lemma at_openReadOnlyWorkspacePath:
  assumes "bases_ok s \<Longrightarrow> canonical base"
  shows "evolving_at tidy s (openReadOnlyWorkspacePath base path ofl rb ri fl p)"
  unfolding openReadOnlyWorkspacePath_def
  by ((rule at_open_next_fd at_openReadOnlyWorkspaceDirectory at_with_state at_cases at_ret
    | (use assms in \<open>auto intro: path_facts open_source_readonly\<close>; fail))+)

lemma at_mount:
  "(mnt = Workspace \<Longrightarrow> evolving_at tidy s m) \<Longrightarrow> (mnt = Scratch \<Longrightarrow> evolving_at tidy s n) \<Longrightarrow>
   (mnt = PackageRoot \<Longrightarrow> evolving_at tidy s k) \<Longrightarrow>
   evolving_at tidy s (case mnt of Workspace \<Rightarrow> m | Scratch \<Rightarrow> n | PackageRoot \<Rightarrow> k)"
  by (cases mnt) simp_all

lemma at_path_kind:
  "(pk = FilePath \<Longrightarrow> evolving_at tidy s m) \<Longrightarrow> (pk = DirectoryPath \<Longrightarrow> evolving_at tidy s n) \<Longrightarrow>
   evolving_at tidy s (case pk of FilePath \<Rightarrow> m | DirectoryPath \<Rightarrow> n)"
  by (cases pk) simp_all

lemma at_openPackageRootPath:
  assumes "bases_ok s \<Longrightarrow> canonical base"
  shows "evolving_at tidy s (openPackageRootPath base pp pl ofl rb ri fl p)"
  unfolding openPackageRootPath_def Let_def
  by ((rule at_openWorkspaceDirectory at_openScratchDirectory at_openReadOnlyWorkspaceDirectory
      at_openPackageRootDirectory at_open_next_fd at_with_state at_cases at_mount at_ret
    | (simp; fail) | (use assms in \<open>auto intro: path_facts open_source_package\<close>; fail))+)

lemma at_bind_any: "evolving_at tidy s m \<Longrightarrow> (\<And>x t. evolving_at tidy t (f x)) \<Longrightarrow> evolving_at tidy s (bindM m f)"
  by (intro at_bind evolving_from)

lemma evolving_pathOpen [evolve_intros]: "evolving tidy (pathOpen fd df pp pl ofl rb ri fl p)"
  unfolding pathOpen_def Let_def
  by (rule evolving_from, (rule at_openWorkspaceFile at_openScratchFile at_openPackageRootPath
      at_openReadOnlyWorkspacePath at_seq_memory at_with_state at_cases at_ret at_bind_any
    | rule memory_intros | (simp add: mutableWorkspaceBasePath_def split: if_splits; fail)
    | (auto split: if_splits intro: base_canonical; fail))+)

lemma evolving_flags [evolve_intros]: "evolving tidy (modifyM (\<lambda>s. s\<lparr>fdFlagsExt := g s\<rparr>))"
  by (simp add: evolving_def evolves_one step_flags)

lemma evolving_pathOpen2 [evolve_intros]: "evolving tidy (pathOpen2 fd df pp pl ofl rb ri fl fe p)"
  unfolding pathOpen2_def by (intro evolve_intros memory_intros)

section \<open>Paths\<close>

lemma at_chdir:
  assumes "resolveWasiVirtualPath (rt_cwd s) guest = Inr path"
  shows "evolving_at tidy s (seqM (modifyM (\<lambda>s. s\<lparr>rt_cwd := path\<rparr>)) (ret e))"
proof -
  from assms have "canonical_abs (rt_cwd s) \<Longrightarrow> canonical_abs path"
    by (blast intro: virtual_path_canonical)
  then have "evolves tidy s (s\<lparr>rt_cwd := path\<rparr>)" by (intro evolves_one step_cwd impI)
  then show ?thesis by (intro at_seq at_modify evolving_ret)
qed

lemma evolving_chdir [evolve_intros]: "evolving tidy (chdir pp pl)"
  unfolding chdir_def
  by (rule evolving_from, (rule at_chdir, assumption
    | rule at_seq_memory at_with_state at_cases at_path_kind at_ret | rule memory_intros)+)

lemma at_seq_abort: "evolving_at tidy s n \<Longrightarrow> evolving_at tidy s (seqM throwIfAborted n)"
  by (simp add: evolving_at_def run_seq throwIfAborted_def)

lemma scratch_tree_step:
  "snd ` set fs \<subseteq> snd ` set (sc_files s) \<Longrightarrow> (tidy \<Longrightarrow> trees_ok s \<Longrightarrow> tree_kept (sc_files s) (sc_dirs s) fs ds) \<Longrightarrow>
   evolves tidy s (s\<lparr>sc_dirs := ds, sc_files := fs\<rparr>)"
  using evolves_one [OF step_scratch [of fs s "recs s" tidy ds]] by simp

lemma workspace_tree_step:
  "ws_writable s \<Longrightarrow> snd ` set fs \<subseteq> snd ` set (ws_files s) \<Longrightarrow>
   (tidy \<Longrightarrow> trees_ok s \<Longrightarrow> tree_kept (ws_files s) (ws_dirs s) fs ds) \<Longrightarrow>
   evolves tidy s (s\<lparr>ws_dirs := ds, ws_files := fs\<rparr>)"
  using evolves_one [OF step_workspace [of s fs "recs s" tidy ds]] by simp

lemma tree_steps:
  "(tidy \<Longrightarrow> trees_ok s \<Longrightarrow> tree_kept (sc_files s) (sc_dirs s) (sc_files s) ds) \<Longrightarrow> evolves tidy s (s\<lparr>sc_dirs := ds\<rparr>)"
  "ws_writable s \<Longrightarrow> (tidy \<Longrightarrow> trees_ok s \<Longrightarrow> tree_kept (ws_files s) (ws_dirs s) (ws_files s) es) \<Longrightarrow>
   evolves tidy s (s\<lparr>ws_dirs := es\<rparr>)"
  using scratch_tree_step [of "sc_files s" s tidy ds] workspace_tree_step [of s "ws_files s" tidy es] by simp_all

lemma delete_records: "snd ` set (AList.delete p xs) \<subseteq> snd ` set xs"
  by (induction xs) auto

lemma delete_file_steps:
  "evolves tidy s (s\<lparr>sc_files := AList.delete p (sc_files s)\<rparr>)"
  "ws_writable s \<Longrightarrow> evolves tidy s (s\<lparr>ws_files := AList.delete p (ws_files s)\<rparr>)"
  using scratch_tree_step [of "AList.delete p (sc_files s)" s tidy "sc_dirs s"]
    workspace_tree_step [of s "AList.delete p (ws_files s)" tidy "ws_dirs s"]
  by (simp_all add: delete_records trees_ok_def tree_kept_def tree_ok_delete_file parents_delete_file)

lemma new_dir_ok:
  "trees_ok s \<Longrightarrow> canonical path \<Longrightarrow> \<not> (path \<in> set (sc_dirs s) \<or> map_has (sc_files s) path) \<Longrightarrow>
   scratchParentStatus (sc_files s) (sc_dirs s) path = None \<Longrightarrow>
   tree_kept (sc_files s) (sc_dirs s) (sc_files s) (set_add path (sc_dirs s))"
  "trees_ok s \<Longrightarrow> canonical path \<Longrightarrow> \<not> (path \<in> set (ws_dirs s) \<or> map_has (ws_files s) path) \<Longrightarrow>
   scratchParentStatus (ws_files s) (ws_dirs s) path = None \<Longrightarrow>
   tree_kept (ws_files s) (ws_dirs s) (ws_files s) (set_add path (ws_dirs s))"
  by (auto simp: trees_ok_def tree_kept_def intro!: tree_ok_add_dir parents_add_dir)

lemma at_createWorkspaceDirectory:
  assumes "ws_writable s" "bases_ok s \<Longrightarrow> canonical base"
  shows "evolving_at tidy s (createWorkspaceDirectory base pp pl)"
  unfolding createWorkspaceDirectory_def
  by ((rule at_with_state at_cases at_ret at_seq at_modify tree_steps(2) new_dir_ok(2)
    | assumption | rule evolve_intros
    | (use assms in \<open>auto dest: trees_ok_bases intro: path_facts\<close>; fail))+)

lemma evolving_pathCreateDirectory [evolve_intros]: "evolving tidy (pathCreateDirectory fd pp pl)"
  unfolding pathCreateDirectory_def Let_def
  by (rule evolving_from, (rule at_createWorkspaceDirectory at_seq_abort at_with_state at_cases at_ret
      at_seq at_modify tree_steps(1) new_dir_ok(1) | assumption | rule evolve_intros
    | (simp add: mutableWorkspaceBasePathForPathRequest_def split: if_splits; fail)
    | (auto dest: trees_ok_bases intro: base_canonical path_facts; fail))+)

lemma evolves_paths:
  assumes "\<And>f. \<exists>p. g f = f\<lparr>d_path := p\<rparr>" "evolves tidy s t"
    and "\<And>f q. tidy \<Longrightarrow> (\<And>p. d_path f = Some p \<Longrightarrow> canonical p) \<Longrightarrow> d_path (g f) = Some q \<Longrightarrow> canonical q"
  shows "evolves tidy s (map_descrs g t)"
  by (rule evolves_step [OF assms(2) step_paths]) (use assms(1,3) in blast)+

lemma same_path: "\<exists>p. f = f\<lparr>d_path := p\<rparr>"
  by (rule exI [of _ "d_path f"]) simp

lemma detach_evolves:
  "evolves tidy s t \<Longrightarrow> evolves tidy s (detachOpenScratchDirectory p t)"
  "evolves tidy s t \<Longrightarrow> evolves tidy s (detachOpenWorkspaceDirectory p t)"
  "evolves tidy s t \<Longrightarrow> evolves tidy s (detachOpenWorkspaceFile p t)"
  unfolding detachOpenScratchDirectory_def detachOpenWorkspaceDirectory_def detachOpenWorkspaceFile_def
  by (rule evolves_paths; auto intro: same_path split: if_splits)+

lemma detach_same [simp]:
  "ws_writable (detachOpenWorkspaceFile p s) = ws_writable s" "ws_writable (detachOpenWorkspaceDirectory p s) = ws_writable s"
  "ws_files (detachOpenWorkspaceFile p s) = ws_files s" "ws_files (detachOpenWorkspaceDirectory p s) = ws_files s"
  "ws_dirs (detachOpenWorkspaceDirectory p s) = ws_dirs s" "recs (detachOpenWorkspaceDirectory p s) = recs s"
  "sc_files (detachOpenScratchDirectory p s) = sc_files s" "sc_dirs (detachOpenScratchDirectory p s) = sc_dirs s"
  "recs (detachOpenScratchDirectory p s) = recs s"
  by (simp_all add: detachOpenWorkspaceFile_def detachOpenWorkspaceDirectory_def
      detachOpenScratchDirectory_def map_descrs_def)

lemma at_unlinkWorkspaceFile: "ws_writable s \<Longrightarrow> evolving_at tidy s (unlinkWorkspaceFile base pp pl)"
  unfolding unlinkWorkspaceFile_def
  by ((rule at_with_state at_cases at_ret at_seq_modify detach_evolves evolves_refl delete_file_steps
    | simp; fail | rule at_any | rule evolve_intros)+)

lemma evolving_pathUnlinkFile [evolve_intros]: "evolving tidy (pathUnlinkFile fd pp pl)"
  unfolding pathUnlinkFile_def Let_def
  by (rule evolving_from, (rule at_unlinkWorkspaceFile at_seq_modify at_seq_abort at_with_state at_cases at_ret
      delete_file_steps | (simp add: mutableWorkspaceBasePathForPathRequest_def split: if_splits; fail))+)

section \<open>Removing directories\<close>

text \<open>\<open>removeWorkspaceDirectory\<close> refuses its base, not the root: with a directory descriptor other
  than the root and the absolute path of the workspace it removes the root entry.\<close>

definition removes_root :: "runtime \<Rightarrow> int \<Rightarrow> int \<Rightarrow> int \<Rightarrow> bool" where
  "removes_root s fd pathPtr pathLen =
     (case mutableWorkspaceBasePathForPathRequest s fd (readString s pathPtr pathLen) of
        None \<Rightarrow> False
      | Some base \<Rightarrow>
          base \<noteq> [] \<and>
          resolveMountedPath base (readString s pathPtr pathLen) WORKSPACE_PREOPEN_PATH True False = Inr [])"

lemma rmdir_errno_None:
  "rmdir_errno files dirs base path = None \<Longrightarrow> path \<noteq> base \<and> \<not> pathHasChildren files dirs path"
  by (auto simp: rmdir_errno_def Let_def split: if_splits option.splits)

lemma delete_dir_ok:
  "tree_ok fs ds \<Longrightarrow> [] \<in> set ds \<Longrightarrow> p \<noteq> [] \<Longrightarrow> \<not> pathHasChildren fs ds p \<Longrightarrow> tree_kept fs ds fs (removeAll p ds)"
  by (simp add: tree_kept_def tree_ok_delete_dir parents_delete_dir)

lemma at_removeWorkspaceDirectory:
  assumes "ws_writable s"
    and "tidy \<Longrightarrow> base \<noteq> [] \<Longrightarrow> resolveMountedPath base (readString s pp pl) WORKSPACE_PREOPEN_PATH True False \<noteq> Inr []"
  shows "evolving_at tidy s (removeWorkspaceDirectory base pp pl)"
  unfolding removeWorkspaceDirectory_def
proof (rule at_with_state at_cases at_ret)+
  fix path
  assume r: "resolveMountedPath base (readString s pp pl) WORKSPACE_PREOPEN_PATH (ws_writable s) False = Inr path"
    "rmdir_errno (ws_files s) (ws_dirs s) base path = None"
  have ne: "path \<noteq> []" if tidy
    using assms(2) [OF that] r assms(1) rmdir_errno_None [OF r(2)] by (cases "base = []") auto
  let ?t = "detachOpenWorkspaceDirectory path s"
  have "evolves tidy ?t (?t\<lparr>ws_dirs := removeAll path (ws_dirs ?t)\<rparr>)"
    by (rule tree_steps(2)) (use assms(1) ne rmdir_errno_None [OF r(2)] in \<open>auto simp: trees_ok_def intro!: delete_dir_ok\<close>)
  then show "evolving_at tidy s (seqM (modifyM (detachOpenWorkspaceDirectory path))
      (seqM (modifyM (\<lambda>s. s\<lparr>ws_dirs := removeAll path (ws_dirs s)\<rparr>)) (seqM markWorkspaceDirty (ret ERRNO_SUCCESS))))"
    by (intro at_seq_modify detach_evolves evolves_refl at_any evolve_intros)
qed (rule at_ret)

lemma scratch_path_nonroot:
  assumes "resolveMountedPath base guest TMP_PREOPEN_PATH False lk = Inr path" "path \<noteq> base"
  shows "path \<noteq> []"
  using assms resolveScratchPath_Inr [of base guest lk path]
  by (auto simp: resolveMountedPath_def path_join_def split: if_splits)

lemma at_pathRemoveDirectory:
  assumes "tidy \<Longrightarrow> \<not> removes_root s fd pp pl"
  shows "evolving_at tidy s (pathRemoveDirectory fd pp pl)"
  unfolding pathRemoveDirectory_def Let_def
  by ((rule at_removeWorkspaceDirectory at_seq_abort at_with_state at_cases at_ret
      at_seq_modify tree_steps(1) delete_dir_ok
    | (simp add: mutableWorkspaceBasePathForPathRequest_def split: if_splits; fail)
    | (use assms in \<open>simp add: removes_root_def\<close>; fail)
    | (auto simp: trees_ok_def dest: rmdir_errno_None scratch_path_nonroot; fail))+)

section \<open>Renaming\<close>

lemma parent_status_subset:
  "fst ` set files' \<subseteq> fst ` set files \<Longrightarrow> scratchParentStatus files dirs p = None \<Longrightarrow>
   scratchParentStatus files' dirs p = None"
  by (auto simp: scratchParentStatus_def Let_def map_has_iff split: if_splits)

lemma rename_check_file:
  assumes tree: "tree_ok files dirs" "[] \<in> set dirs" and tgt: "canonical tgt"
    and ck: "rename_check files dirs src tgt = Inr (Some r)"
  shows "tree_kept files dirs (AList.update tgt r (AList.delete src files)) dirs"
proof -
  let ?fs = "AList.delete src files"
  have del: "tree_ok ?fs dirs" using tree(1) by (rule tree_ok_delete_file)
  have sub: "fst ` set ?fs \<subseteq> fst ` set files" by auto
  consider "tree_kind files dirs tgt = None" "scratchParentStatus files dirs tgt = None"
    | "tree_kind files dirs tgt = Some FilePath"
    using ck by (auto simp: rename_check_def split: option.splits if_splits) (metis path_kind.exhaust)
  then show ?thesis
  proof cases
    case 1
    then have kind: "tgt \<notin> set dirs" "\<not> pathHasChildren files dirs tgt"
      by (auto simp: tree_kind_def split: if_splits)
    then have "\<not> pathHasChildren ?fs dirs tgt" using sub unfolding pathHasChildren_iff by blast
    with kind tree(2) show ?thesis unfolding tree_kept_def
      by (auto intro!: tree_ok_add_file [OF del tgt] parents_add_file parents_delete_file tgt
          intro: parent_status_subset [OF sub 1(2)])
  next
    case 2
    then have "tgt \<in> fst ` set files" by (simp add: tree_kind_def map_has_iff split: if_splits)
    moreover from this have "tree_ok (AList.update tgt r ?fs) dirs"
      using tree_okD(1,2) [OF tree(1)] by (intro tree_ok_subset [OF tree(1)]) auto
    ultimately show ?thesis using tree(2) unfolding tree_kept_def
      by (auto intro!: parents_rename_file)
  qed
qed

lemma rename_check_target:
  assumes ck: "rename_check files dirs src tgt = Inr None"
  shows "tree_kind files dirs tgt = None \<and> scratchParentStatus files dirs tgt = None \<or>
    tree_kind files dirs tgt = Some DirectoryPath \<and> \<not> pathHasChildren files dirs tgt"
proof -
  have "tree_kind files dirs src = Some DirectoryPath" "\<not> prefix (src @ ''/'') tgt"
    using ck by (auto simp: rename_check_def tree_kind_def map_has_iff map_of_eq_None_iff
        split: option.splits if_splits)
  then show ?thesis
    using ck by (auto simp: rename_check_def split: option.splits if_splits) (metis path_kind.exhaust)+
qed

lemma rename_check_dir:
  assumes tree: "tree_ok files dirs" and ne: "canonical src" "src \<noteq> []" "canonical tgt" "tgt \<noteq> []" "src \<noteq> tgt"
    and ck: "rename_check files dirs src tgt = Inr None"
  shows "rename_ok files dirs src tgt"
proof -
  have src: "tree_kind files dirs src = Some DirectoryPath" "\<not> prefix (src @ ''/'') tgt"
    using ck by (auto simp: rename_check_def tree_kind_def map_has_iff map_of_eq_None_iff
        split: option.splits if_splits)
  consider "tree_kind files dirs tgt = None" "scratchParentStatus files dirs tgt = None"
    | "tree_kind files dirs tgt = Some DirectoryPath" "\<not> pathHasChildren files dirs tgt"
    using ck src by (auto simp: rename_check_def split: option.splits if_splits) (metis path_kind.exhaust)
  then have "tgt \<notin> set (map_keys files) \<and> \<not> pathHasChildren files dirs tgt \<and>
      (\<forall>p \<in> fst ` set files. \<not> prefix (p @ ''/'') tgt)"
  proof cases
    case 1
    have "\<not> prefix (p @ ''/'') tgt" if "p \<in> fst ` set files" for p
      using no_file_above [OF tree ne(3,4) 1(2) that] prefix_slash_iff [OF tree_okD(4) [OF tree that] ne(3)]
        tree_okD(3) [OF tree that] by simp
    with 1 show ?thesis by (auto simp: tree_kind_def map_has_iff split: if_splits)
  next
    case 2
    then have "tgt \<in> set dirs" by (auto simp: tree_kind_def split: if_splits)
    then have "\<not> prefix (p @ ''/'') tgt" if "p \<in> fst ` set files" for p
      using tree_okD(7) [OF tree that] unfolding pathHasChildren_iff by blast
    with 2 show ?thesis by (auto simp: tree_kind_def map_has_iff split: if_splits)
  qed
  with tree ne src(2) show ?thesis by (simp add: rename_ok_def list_all_iff)
qed

lemma rename_check_parent:
  assumes "canonical tgt" "tgt \<noteq> []" "[] \<in> set dirs" "parents_ok files dirs"
    and ck: "rename_check files dirs src tgt = Inr None"
  shows "unsegs (butlast (segs tgt)) \<in> set dirs"
  using rename_check_target [OF ck]
proof
  assume "tree_kind files dirs tgt = None \<and> scratchParentStatus files dirs tgt = None"
  then show ?thesis using parent_status_entry assms(1-3) by blast
next
  assume "tree_kind files dirs tgt = Some DirectoryPath \<and> \<not> pathHasChildren files dirs tgt"
  then have "tgt \<in> set dirs" by (auto simp: tree_kind_def split: if_splits)
  then show ?thesis using parents_okD [OF assms(4)] assms(2) by blast
qed

lemma moved_root: "rename_ok files dirs src tgt \<Longrightarrow> [] \<in> set dirs \<Longrightarrow>
   [] \<in> set (moved_dirs src tgt (removeAll tgt dirs))"
  by (auto simp: moved_dirs_eq rename_ok_def moved_path_def at_or_below_def intro!: image_eqI [of _ _ "[]"])

lemma moved_files_records: "snd ` set (moved_files src tgt files) \<subseteq> snd ` set files"
proof -
  have upd: "snd ` set (AList.update k v xs) \<subseteq> insert v (snd ` set xs)" for k v and xs :: file_map
    by (induction xs) auto
  have "snd ` set (foldl (\<lambda>acc (path, file). AList.update (moved_path src tgt path) file acc) acc xs)
      \<subseteq> snd ` set acc \<union> snd ` set xs" for acc xs :: file_map
  proof (induction xs arbitrary: acc)
    case (Cons x xs)
    obtain k v where x: "x = (k, v)" by fastforce
    show ?case
      using Cons.IH [of "AList.update (moved_path src tgt k) v acc"] upd [of "moved_path src tgt k" v acc]
      unfolding x foldl_Cons prod.case list.set image_insert snd_conv by blast
  qed simp
  from this [of "[]" files] show ?thesis by (simp add: moved_files_def)
qed

lemma move_records_other: "r \<notin> snd ` set files \<Longrightarrow> move_records src tgt files rs r = rs r"
  unfolding move_records_def by (induction files arbitrary: rs) auto

lemma records_step:
  assumes "evolves tidy s t" "snd ` set fs \<subseteq> snd ` set (sc_files t)"
    and "\<And>r. r \<notin> snd ` set (sc_files t) \<Longrightarrow> rs r = recs t r"
    and "tidy \<Longrightarrow> trees_ok t \<Longrightarrow> tree_kept (sc_files t) (sc_dirs t) fs ds"
  shows "evolves tidy s (t\<lparr>sc_dirs := ds, sc_files := fs, recs := rs\<rparr>)"
  by (rule evolves_step [OF assms(1) step_scratch [OF assms(2)]])
    (use assms(3,4) mutable_tree_record(1) in blast)+

lemma workspace_records_step:
  assumes "evolves tidy s t" "ws_writable t" "snd ` set fs \<subseteq> snd ` set (ws_files t)"
    and "\<And>r. r \<notin> snd ` set (ws_files t) \<Longrightarrow> rs r = recs t r"
    and "tidy \<Longrightarrow> trees_ok t \<Longrightarrow> tree_kept (ws_files t) (ws_dirs t) fs ds"
  shows "evolves tidy s (t\<lparr>ws_dirs := ds, ws_files := fs, recs := rs\<rparr>)"
  by (rule evolves_step [OF assms(1) step_workspace [OF assms(2,3)]])
    (use assms(2,4,5) mutable_tree_record(2) in blast)+

lemma retarget_path: "\<exists>p. retarget file replaced tgt f = f\<lparr>d_path := p\<rparr>"
  unfolding retarget_def using same_path [of f] by auto

lemma retarget_canonical:
  "canonical tgt \<Longrightarrow> (\<And>p. d_path f = Some p \<Longrightarrow> canonical p) \<Longrightarrow> d_path (retarget file replaced tgt f) = Some q \<Longrightarrow>
   canonical q"
  by (auto simp: retarget_def split: if_splits)

lemma move_descr_path: "\<exists>p. move_descr src tgt f = f\<lparr>d_path := p\<rparr>"
  unfolding move_descr_def using same_path [of f] by (auto split: option.split)

lemma move_descr_canonical:
  "canonical src \<Longrightarrow> src \<noteq> [] \<Longrightarrow> canonical tgt \<Longrightarrow> tgt \<noteq> [] \<Longrightarrow>
   (\<And>p. d_path f = Some p \<Longrightarrow> canonical p) \<Longrightarrow> d_path (move_descr src tgt f) = Some q \<Longrightarrow> canonical q"
  using canonical_moved_path [of src tgt] by (fastforce simp: move_descr_def moved_path_def split: option.splits if_splits)

lemma update_records: "snd ` set (AList.update k v xs) \<subseteq> insert v (snd ` set xs)"
  by (induction xs) auto

lemma rename_update_records:
  "r \<in> snd ` set files \<Longrightarrow> snd ` set (AList.update tgt r (AList.delete src files)) \<subseteq> snd ` set files"
  using update_records [of tgt r "AList.delete src files"] delete_records [of src files] by blast

lemma rename_check_Some: "rename_check files dirs src tgt = Inr (Some r) \<Longrightarrow> map_of files src = Some r"
  by (auto simp: rename_check_def split: option.splits if_splits)

lemma renamed_records:
  "\<exists>rs. set_record r g (drop_replaced r (map_of files tgt) s) = s\<lparr>recs := rs\<rparr> \<and>
     (\<forall>x. x \<noteq> r \<longrightarrow> x \<notin> snd ` set files \<longrightarrow> rs x = recs s x)"
proof (intro exI conjI allI impI)
  let ?t = "set_record r g (drop_replaced r (map_of files tgt) s)"
  show "?t = s\<lparr>recs := recs ?t\<rparr>"
    by (simp add: set_record_def drop_replaced_def split: option.split)
  show "recs ?t x = recs s x" if "x \<noteq> r" "x \<notin> snd ` set files" for x
    using that map_of_in_snd [of files tgt]
    by (auto simp: set_record_def drop_replaced_def split: option.split)
qed

lemma update_order:
  "s\<lparr>sc_files := fs, recs := rs\<rparr> = s\<lparr>recs := rs, sc_files := fs\<rparr>"
  "s\<lparr>ws_files := fs, recs := rs\<rparr> = s\<lparr>recs := rs, ws_files := fs\<rparr>"
  by (rule runtime.equality; simp)+

lemma evolves_renameScratchFile:
  assumes ck: "rename_check (sc_files s) (sc_dirs s) src tgt = Inr (Some r)"
    and tgt: "tidy \<Longrightarrow> canonical tgt"
  shows "evolves tidy s (renameScratchFile src tgt r s)"
proof -
  let ?fs = "AList.update tgt r (AList.delete src (sc_files s))"
  have r: "r \<in> snd ` set (sc_files s)" using rename_check_Some [OF ck] by (rule map_of_in_snd)
  obtain rs where rs: "set_record r (\<lambda>x. x\<lparr>r_path := Some tgt\<rparr>) (drop_replaced r (map_of (sc_files s) tgt) s) = s\<lparr>recs := rs\<rparr>"
    "\<forall>x. x \<noteq> r \<longrightarrow> x \<notin> snd ` set (sc_files s) \<longrightarrow> rs x = recs s x"
    using renamed_records [of r "\<lambda>x. x\<lparr>r_path := Some tgt\<rparr>" "sc_files s" tgt s] by (elim exE conjE) (rule that)
  have "evolves tidy s (s\<lparr>sc_dirs := sc_dirs s, sc_files := ?fs, recs := rs\<rparr>)"
  proof (rule records_step [OF evolves_refl rename_update_records [OF r]])
    show "rs x = recs s x" if "x \<notin> snd ` set (sc_files s)" for x
      using rs(2) that r by metis
    show "tree_kept (sc_files s) (sc_dirs s) ?fs (sc_dirs s)" if tidy "trees_ok s"
      using that tgt rename_check_file [OF _ _ _ ck] unfolding trees_ok_def by blast
  qed
  then have "evolves tidy s (s\<lparr>recs := rs, sc_files := ?fs\<rparr>)"
    by (simp add: update_order)
  then show ?thesis
    unfolding renameScratchFile_def Let_def rs(1)
    by (rule evolves_paths [OF retarget_path]) (rule retarget_canonical [OF tgt])
qed

lemma evolves_renameWorkspaceFile:
  assumes ck: "rename_check (ws_files s) (ws_dirs s) src tgt = Inr (Some r)" and w: "ws_writable s"
    and tgt: "tidy \<Longrightarrow> canonical tgt"
  shows "evolves tidy s (renameWorkspaceFile src tgt r s)"
proof -
  let ?fs = "AList.update tgt r (AList.delete src (ws_files s))"
  have r: "r \<in> snd ` set (ws_files s)" using rename_check_Some [OF ck] by (rule map_of_in_snd)
  obtain rs where rs: "set_record r (\<lambda>x. x\<lparr>r_fallback := False, r_path := Some tgt\<rparr>)
      (drop_replaced r (map_of (ws_files s) tgt) s) = s\<lparr>recs := rs\<rparr>"
    "\<forall>x. x \<noteq> r \<longrightarrow> x \<notin> snd ` set (ws_files s) \<longrightarrow> rs x = recs s x"
    using renamed_records [of r "\<lambda>x. x\<lparr>r_fallback := False, r_path := Some tgt\<rparr>" "ws_files s" tgt s]
    by (elim exE conjE) (rule that)
  have "evolves tidy s (s\<lparr>ws_dirs := ws_dirs s, ws_files := ?fs, recs := rs\<rparr>)"
  proof (rule workspace_records_step [OF evolves_refl w rename_update_records [OF r]])
    show "rs x = recs s x" if "x \<notin> snd ` set (ws_files s)" for x
      using rs(2) that r by metis
    show "tree_kept (ws_files s) (ws_dirs s) ?fs (ws_dirs s)" if tidy "trees_ok s"
      using that tgt rename_check_file [OF _ _ _ ck] unfolding trees_ok_def by blast
  qed
  then have ev: "evolves tidy s (s\<lparr>recs := rs, ws_files := ?fs\<rparr>)"
    by (simp add: update_order)
  show ?thesis
    unfolding renameWorkspaceFile_def Let_def rs(1)
  proof (rule evolves_paths [OF _ ev])
    fix f q
    show "\<exists>p. (if d_mount f = Some Workspace then retarget r (map_of (ws_files s) tgt) tgt f else f) = f\<lparr>d_path := p\<rparr>"
      using retarget_path [of r "map_of (ws_files s) tgt" tgt f] same_path [of f] by simp
    assume tidy "\<And>p. d_path f = Some p \<Longrightarrow> canonical p"
      "d_path (if d_mount f = Some Workspace then retarget r (map_of (ws_files s) tgt) tgt f else f) = Some q"
    then show "canonical q" using retarget_canonical [OF tgt] by (auto split: if_splits)
  qed
qed

lemma evolves_renameScratchDirectory:
  assumes ck: "rename_check (sc_files s) (sc_dirs s) src tgt = Inr None"
    and ok: "tidy \<Longrightarrow> canonical src \<and> src \<noteq> [] \<and> canonical tgt \<and> tgt \<noteq> [] \<and> src \<noteq> tgt"
  shows "evolves tidy s (renameScratchDirectory src tgt s)"
  unfolding renameScratchDirectory_def Let_def
proof (rule evolves_paths [OF move_descr_path])
  let ?t = "detachOpenScratchDirectory tgt s"
  have "tree_kept (sc_files s) (sc_dirs s) (moved_files src tgt (sc_files s)) (moved_dirs src tgt (removeAll tgt (sc_dirs s)))" if tidy "trees_ok ?t"
  proof -
    have t: "tree_ok (sc_files s) (sc_dirs s)" "[] \<in> set (sc_dirs s)"
      using that(2) by (simp_all add: trees_ok_def)
    have rn: "rename_ok (sc_files s) (sc_dirs s) src tgt"
      using rename_check_dir [OF t(1) _ _ _ _ _ ck] ok [OF that(1)] by blast
    show ?thesis
      using tree_ok_rename [OF rn] moved_root [OF rn t(2)] parents_rename [OF rn] rename_check_parent [OF _ _ t(2) _ ck] ok [OF that(1)]
      unfolding tree_kept_def by blast
  qed
  then show "evolves tidy s (?t\<lparr>sc_dirs := moved_dirs src tgt (removeAll tgt (sc_dirs s)),
      sc_files := moved_files src tgt (sc_files s), recs := move_records src tgt (sc_files s) (recs s)\<rparr>)"
    using records_step [OF detach_evolves(1) [OF evolves_refl], of "moved_files src tgt (sc_files s)" tgt s
        "move_records src tgt (sc_files s) (recs s)" tidy "moved_dirs src tgt (removeAll tgt (sc_dirs s))"]
    by (simp add: moved_files_records move_records_other)
qed (use move_descr_canonical ok in blast)

lemma evolves_renameWorkspaceDirectory:
  assumes ck: "rename_check (ws_files s) (ws_dirs s) src tgt = Inr None" and w: "ws_writable s"
    and ok: "tidy \<Longrightarrow> canonical src \<and> src \<noteq> [] \<and> canonical tgt \<and> tgt \<noteq> [] \<and> src \<noteq> tgt"
  shows "evolves tidy s (renameWorkspaceDirectory src tgt s)"
  unfolding renameWorkspaceDirectory_def Let_def
proof (rule evolves_paths)
  let ?t = "detachOpenWorkspaceDirectory tgt s"
  have "tree_kept (ws_files s) (ws_dirs s) (moved_files src tgt (ws_files s)) (moved_dirs src tgt (removeAll tgt (ws_dirs s)))" if tidy "trees_ok ?t"
  proof -
    have t: "tree_ok (ws_files s) (ws_dirs s)" "[] \<in> set (ws_dirs s)"
      using that(2) by (simp_all add: trees_ok_def)
    have rn: "rename_ok (ws_files s) (ws_dirs s) src tgt"
      using rename_check_dir [OF t(1) _ _ _ _ _ ck] ok [OF that(1)] by blast
    show ?thesis
      using tree_ok_rename [OF rn] moved_root [OF rn t(2)] parents_rename [OF rn] rename_check_parent [OF _ _ t(2) _ ck] ok [OF that(1)]
      unfolding tree_kept_def by blast
  qed
  then show "evolves tidy s (?t\<lparr>ws_dirs := moved_dirs src tgt (removeAll tgt (ws_dirs s)),
      ws_files := moved_files src tgt (ws_files s), recs := move_records src tgt (ws_files s) (recs s)\<rparr>)"
    using workspace_records_step [OF detach_evolves(2) [OF evolves_refl], of tgt s "moved_files src tgt (ws_files s)"
        "move_records src tgt (ws_files s) (recs s)" tidy "moved_dirs src tgt (removeAll tgt (ws_dirs s))"] w
    by (simp add: moved_files_records move_records_other)
  fix f
  show "\<exists>p. (if d_mount f = Some Workspace then move_descr src tgt f else f) = f\<lparr>d_path := p\<rparr>"
    using move_descr_path [of src tgt f] same_path [of f] by simp
  fix q
  assume tidy "\<And>p. d_path f = Some p \<Longrightarrow> canonical p"
    "d_path (if d_mount f = Some Workspace then move_descr src tgt f else f) = Some q"
  then show "canonical q"
    using move_descr_canonical [of src tgt f q] ok by (cases "d_mount f = Some Workspace") simp_all
qed

text \<open>\<open>renameScratchPath\<close> does not refuse the root at either end.\<close>

definition renames_root :: "runtime \<Rightarrow> int \<Rightarrow> int \<Rightarrow> int \<Rightarrow> int \<Rightarrow> int \<Rightarrow> int \<Rightarrow> bool" where
  "renames_root s oldFd oldPathPtr oldPathLen newFd newPathPtr newPathLen =
     (case (scratchBasePathForRight s oldFd RIGHT_PATH_RENAME_SOURCE,
            scratchBasePathForRight s newFd RIGHT_PATH_RENAME_TARGET) of
        (Inr sourceBase, Inr targetBase) \<Rightarrow>
          resolveMountedPath sourceBase (readString s oldPathPtr oldPathLen) TMP_PREOPEN_PATH False False = Inr [] \<or>
          resolveMountedPath targetBase (readString s newPathPtr newPathLen) TMP_PREOPEN_PATH False False = Inr []
      | _ \<Rightarrow> False)"

lemma at_scratch_outcome:
  assumes "tidy \<Longrightarrow> canonical src \<and> src \<noteq> [] \<and> canonical tgt \<and> tgt \<noteq> [] \<and> src \<noteq> tgt"
  shows "evolving_at tidy s (case rename_check (sc_files s) (sc_dirs s) src tgt of
      Inl errno \<Rightarrow> ret errno
    | Inr (Some file) \<Rightarrow> seqM (modifyM (renameScratchFile src tgt file)) (ret ERRNO_SUCCESS)
    | Inr None \<Rightarrow> seqM (modifyM (renameScratchDirectory src tgt)) (ret ERRNO_SUCCESS))"
  by ((rule at_cases at_ret at_seq at_modify evolves_renameScratchFile evolves_renameScratchDirectory
    evolving_ret | simp; fail | use assms in blast)+)

lemma at_workspace_outcome:
  assumes "tidy \<Longrightarrow> canonical src \<and> src \<noteq> [] \<and> canonical tgt \<and> tgt \<noteq> [] \<and> src \<noteq> tgt" "ws_writable s"
  shows "evolving_at tidy s (case rename_check (ws_files s) (ws_dirs s) src tgt of
      Inl errno \<Rightarrow> ret (Some errno)
    | Inr (Some file) \<Rightarrow>
        seqM (modifyM (renameWorkspaceFile src tgt file)) (seqM markWorkspaceDirty (ret (Some ERRNO_SUCCESS)))
    | Inr None \<Rightarrow>
        seqM (modifyM (renameWorkspaceDirectory src tgt)) (seqM markWorkspaceDirty (ret (Some ERRNO_SUCCESS))))"
  by ((rule at_cases at_ret at_seq at_modify evolves_renameWorkspaceFile evolves_renameWorkspaceDirectory
    evolve_intros | simp; fail | use assms in blast)+)

lemma at_renameScratchPath:
  assumes ok: "tidy \<Longrightarrow> bases_ok s \<and> \<not> renames_root s fd1 p1 n1 fd2 p2 n2"
  shows "evolving_at tidy s (renameScratchPath fd1 p1 n1 fd2 p2 n2)"
  unfolding renameScratchPath_def
  by ((rule at_scratch_outcome at_with_state at_cases at_ret
    | (use ok in \<open>auto simp: renames_root_def intro: path_facts base_canonical\<close>; fail))+)

lemma at_renameWorkspacePath:
  assumes ok: "tidy \<Longrightarrow> bases_ok s"
  shows "evolving_at tidy s (renameWorkspacePath fd1 p1 n1 fd2 p2 n2)"
  unfolding renameWorkspacePath_def Let_def
  by ((rule at_workspace_outcome at_with_state at_cases at_ret
    | (use ok in \<open>auto intro: path_facts base_canonical\<close>; fail))+)

lemma renameWorkspacePath_None:
  "renameWorkspacePath fd1 p1 n1 fd2 p2 n2 s = (Inr None, t) \<Longrightarrow> t = s"
  by (auto simp: renameWorkspacePath_def Let_def run_seq markWorkspaceDirty_def
      split: if_splits option.splits sum.splits)

lemma at_pathRename:
  assumes ok: "tidy \<Longrightarrow> bases_ok s \<and> \<not> renames_root s fd1 p1 n1 fd2 p2 n2"
  shows "evolving_at tidy s (pathRename fd1 p1 n1 fd2 p2 n2)"
  unfolding pathRename_def
proof (rule at_seq_abort)
  let ?w = "renameWorkspacePath fd1 p1 n1 fd2 p2 n2" and ?sc = "renameScratchPath fd1 p1 n1 fd2 p2 n2"
  have w: "evolves tidy s (snd (?w s))" and sc: "evolves tidy s (snd (?sc s))"
    using at_renameWorkspacePath [of tidy s] at_renameScratchPath [of tidy s] ok by (auto simp: evolving_at_def)
  show "evolving_at tidy s (bindM ?w (\<lambda>outcome. case outcome of Some errno \<Rightarrow> ret errno | None \<Rightarrow> ?sc))"
    using w sc renameWorkspacePath_None [of fd1 p1 n1 fd2 p2 n2 s]
    by (cases "?w s") (auto simp: evolving_at_def run_bind split: sum.splits option.splits)
qed

end
