(* ===== verification/Host_Invariants.thy ===== *)
theory Host_Invariants imports Host_Steps begin

text \<open>
  Invariants of the host, checked on the elementary changes of \<open>Host_Steps\<close> only. First what one
  change can do to the descriptors, to the records and to the fixed parts of the runtime; from it:
  records of a read-only tree never change (\<open>isolated\<close>), the rights of a descriptor never exceed what
  its mount grants (\<open>rights_ok\<close>), pipes are bounded, the descriptor table stays consistent
  (\<open>table_ok\<close>), and the trees stay well formed.
\<close>

section \<open>What a change does to the descriptors\<close>

definition same_object :: "descr \<Rightarrow> descr \<Rightarrow> bool" where
  "same_object f f' \<longleftrightarrow>
     d_kind f = d_kind f' \<and> d_mount f = d_mount f' \<and> d_record f = d_record f' \<and>
     d_writable f = d_writable f' \<and> d_stdioFd f = d_stdioFd f' \<and> d_direction f = d_direction f' \<and>
     d_pipe f = d_pipe f' \<and> allowsRights (d_rights f) (d_rights f')"

definition derived :: "runtime \<Rightarrow> descr \<Rightarrow> bool" where
  "derived s f \<longleftrightarrow>
     (\<exists>f' \<in> snd ` set (openFiles s). same_object f f') \<or> open_source s f \<or> dup_source s f \<or>
     (\<exists>p. f = pipe_descr ReadEnd p PIPE_READ_RIGHTS False \<or> f = pipe_descr WriteEnd p PIPE_WRITE_RIGHTS True)"

lemma same_object_refl [simp]: "same_object f f"
  by (simp add: same_object_def)

lemma same_object_updates [simp]:
  "same_object (f\<lparr>d_path := p\<rparr>) f" "same_object (f\<lparr>d_offset := v\<rparr>) f"
  by (simp_all add: same_object_def)

lemma narrows_same: "narrows f f' \<Longrightarrow> same_object f' f"
  by (auto simp: narrows_def same_object_def)

lemma openFile_in: "openFile s fd = Some f \<Longrightarrow> f \<in> snd ` set (openFiles s)"
  by (force dest: map_of_SomeD)

lemma derived_old [intro]: "f \<in> snd ` set (openFiles s) \<Longrightarrow> derived s f"
  unfolding derived_def by (rule disjI1, rule bexI [of _ f]) simp_all

lemma derived_same: "f' \<in> snd ` set (openFiles s) \<Longrightarrow> same_object f f' \<Longrightarrow> derived s f"
  unfolding derived_def by blast

lemma snd_update: "snd ` set (AList.update k v m) \<subseteq> insert v (snd ` set m)"
  by (induction m) auto

lemma snd_delete: "snd ` set (AList.delete k m) \<subseteq> snd ` set m"
  by (induction m) auto

lemma openFiles_simps [simp]:
  "openFiles (raise_next_fd to s) = openFiles s" "openFiles (set_fd_flags fd fl s) = openFiles s"
  "openFiles (retainOpenFile f s) = openFiles s" "openFiles (closeOpenFile f s) = openFiles s"
  "openFiles (close_replaced to s) = openFiles s" "openFiles (allocated fd s) = openFiles s"
  "openFiles (set_descr fd f s) = AList.update fd f (openFiles s)"
  "openFiles (map_descrs g s) = map (\<lambda>(fd, file). (fd, g file)) (openFiles s)"
  "openFiles (set_pipe p h s) = openFiles s" "openFiles (set_record r h' s) = openFiles s"
  by (simp_all add: raise_next_fd_def set_fd_flags_def retainOpenFile_def closeOpenFile_def
      close_replaced_def allocated_def set_descr_def map_descrs_def set_pipe_def set_record_def
      split: option.split)

lemma derived_update:
  assumes "f \<in> snd ` set (AList.update k v m)" "derived s v" "snd ` set m \<subseteq> snd ` set (openFiles s)"
  shows "derived s f"
proof -
  have "f = v \<or> f \<in> snd ` set (openFiles s)" using snd_update [of k v m] assms(1,3) by blast
  then show ?thesis using assms(2) derived_old by blast
qed

lemma rt_step_derived:
  assumes "rt_step tidy s t" "f \<in> snd ` set (openFiles t)"
  shows "derived s f"
  using assms
proof (cases rule: rt_step.cases)
  case (step_descr fd f0 f')
  have "derived s f'"
    using derived_same [OF openFile_in narrows_same] step_descr(2,3) by blast
  then show ?thesis using step_descr(1) assms(2) derived_update [of f fd f' "openFiles s"] by simp
next
  case (step_share fd f0 v)
  let ?g = "f0\<lparr>d_offset := Shared (nextRef s)\<rparr>"
  have "derived s ?g" by (rule derived_same [OF openFile_in [OF step_share(2)]]) simp
  then show ?thesis using step_share(1) assms(2) derived_update [of f fd ?g "openFiles s"] by simp
next
  case (step_paths g)
  then obtain f' where f': "f' \<in> snd ` set (openFiles s)" "f = g f'" using assms(2) by force
  obtain p where "g f' = f'\<lparr>d_path := p\<rparr>" using step_paths(2) by blast
  then have "same_object f f'" using f'(2) by simp
  then show ?thesis by (rule derived_same [OF f'(1)])
next
  case (step_close fd f0)
  then show ?thesis using assms(2) snd_delete [of fd "openFiles s"] by (intro derived_old) auto
next
  case (step_renumber fd f0 to fl)
  have "derived s f0" using step_renumber(2) by (rule derived_old [OF openFile_in])
  then show ?thesis
    using step_renumber(1) assms(2) derived_update [of f to f0 "AList.delete fd (openFiles s)"]
      snd_delete [of fd "openFiles s"] by simp
next
  case (step_dup f0 to fl)
  have "derived s f0" using step_dup(2) by (simp add: derived_def)
  then show ?thesis using step_dup(1) assms(2) derived_update [of f to f0 "openFiles s"] by simp
next
  case (step_dup_fresh f0 k fd fl)
  have "derived s f0" using step_dup_fresh(2) by (simp add: derived_def)
  then show ?thesis using step_dup_fresh(1) assms(2) derived_update [of f fd f0 "openFiles s"] by simp
next
  case (step_pipe p s1 r s2 k w)
  let ?r = "pipe_descr ReadEnd p PIPE_READ_RIGHTS False" and ?w = "pipe_descr WriteEnd p PIPE_WRITE_RIGHTS True"
  have rw: "derived s ?r" "derived s ?w" unfolding derived_def by blast+
  have "f = ?w \<or> f = ?r \<or> f \<in> snd ` set (openFiles s)"
    using step_pipe(1,3,5) assms(2) snd_update [of w ?w "openFiles s2"] snd_update [of r ?r "openFiles s"]
    by (simp del: image_insert) blast
  then show ?thesis using rw derived_old by blast
next
  case (step_open f0)
  have "derived s f0" using step_open(2) by (simp add: derived_def)
  then show ?thesis using step_open(1) assms(2) derived_update [of f "nextFileFd s" f0 "openFiles s"] by simp
qed (use assms(2) in \<open>simp_all add: derived_old\<close>)

section \<open>What a change leaves alone\<close>

definition fixed_parts :: "runtime \<Rightarrow> runtime \<Rightarrow> bool" where
  "fixed_parts s t \<longleftrightarrow>
     ws_writable t = ws_writable s \<and> pr_files t = pr_files s \<and> pr_dirs t = pr_dirs s \<and>
     packageRootFd t = packageRootFd s \<and> rt_args t = rt_args s \<and> rt_env t = rt_env s \<and>
     stdin_bytes t = stdin_bytes s \<and> aborted t = aborted s \<and> arrayLimit t = arrayLimit s \<and>
     mem_size (memory t) = mem_size (memory s) \<and> prefix (written s) (written t) \<and>
     nextRef s \<le> nextRef t \<and>
     (\<not> ws_writable s \<longrightarrow> ws_files t = ws_files s \<and> ws_dirs t = ws_dirs s \<and> ws_dirty t = ws_dirty s)"

lemma fixed_parts_refl [simp]: "fixed_parts s s"
  by (simp add: fixed_parts_def)

lemma fixed_parts_trans: "fixed_parts s t \<Longrightarrow> fixed_parts t u \<Longrightarrow> fixed_parts s u"
  by (auto simp: fixed_parts_def)

lemma fixed_parts_updates:
  "fixed_parts s (raise_next_fd to t) = fixed_parts s t" "fixed_parts s (set_fd_flags fd fl t) = fixed_parts s t"
  "fixed_parts s (retainOpenFile f t) = fixed_parts s t" "fixed_parts s (closeOpenFile f t) = fixed_parts s t"
  "fixed_parts s (close_replaced to t) = fixed_parts s t" "fixed_parts s (allocated fd t) = fixed_parts s t"
  "fixed_parts s (set_descr fd f t) = fixed_parts s t" "fixed_parts s (map_descrs g t) = fixed_parts s t"
  "fixed_parts s (set_pipe p h t) = fixed_parts s t" "fixed_parts s (set_record r h' t) = fixed_parts s t"
  "fixed_parts s (t\<lparr>openFiles := xs\<rparr>) = fixed_parts s t"  "fixed_parts s (t\<lparr>fdFlagsExt := fe\<rparr>) = fixed_parts s t"
  "fixed_parts s (t\<lparr>recs := rs\<rparr>) = fixed_parts s t" "fixed_parts s (t\<lparr>offsets := os\<rparr>) = fixed_parts s t"
  "fixed_parts s (t\<lparr>pipes := ps\<rparr>) = fixed_parts s t" "fixed_parts s (t\<lparr>nextFileFd := n\<rparr>) = fixed_parts s t"
  "fixed_parts s (t\<lparr>rt_cwd := c\<rparr>) = fixed_parts s t" "fixed_parts s (t\<lparr>stdinOffset := so\<rparr>) = fixed_parts s t"
  "fixed_parts s (t\<lparr>sc_files := sf\<rparr>) = fixed_parts s t" "fixed_parts s (t\<lparr>sc_dirs := sd\<rparr>) = fixed_parts s t"
  by (simp_all add: fixed_parts_def raise_next_fd_def set_fd_flags_def retainOpenFile_def closeOpenFile_def
      close_replaced_def allocated_def set_descr_def map_descrs_def set_pipe_def set_record_def
      split: option.split)

lemma rt_step_fixed: "rt_step tidy s t \<Longrightarrow> fixed_parts s t"
  by (induction rule: rt_step.induct)
    (simp_all add: fixed_parts_updates, simp_all add: fixed_parts_def set_descr_def)

lemma evolves_fixed: "evolves tidy s t \<Longrightarrow> fixed_parts s t"
  unfolding evolves_def
  by (induction rule: rtranclp_induct) (auto intro: rt_step_fixed fixed_parts_trans)

section \<open>Read-only records\<close>

definition readonly_record :: "runtime \<Rightarrow> nat \<Rightarrow> bool" where
  "readonly_record s r \<longleftrightarrow>
     r \<in> snd ` set (pr_files s) \<or> \<not> ws_writable s \<and> r \<in> snd ` set (ws_files s)"

text \<open>Every file of a read-only tree has an allocated record that no call can reach for writing.\<close>

definition isolated :: "runtime \<Rightarrow> bool" where
  "isolated s \<longleftrightarrow> (\<forall>r. readonly_record s r \<longrightarrow> r < nextRef s \<and> \<not> mutable_record s r)"

lemma tree_simps [simp]:
  "sc_files (raise_next_fd to s) = sc_files s" "sc_files (set_fd_flags fd fl s) = sc_files s"
  "sc_files (retainOpenFile f s) = sc_files s" "sc_files (closeOpenFile f s) = sc_files s"
  "sc_files (close_replaced to s) = sc_files s" "sc_files (allocated fd s) = sc_files s"
  "sc_files (set_descr fd f s) = sc_files s" "sc_files (map_descrs g s) = sc_files s"
  "sc_files (set_pipe p h s) = sc_files s" "sc_files (set_record r h' s) = sc_files s"
  "ws_files (raise_next_fd to s) = ws_files s" "ws_files (set_fd_flags fd fl s) = ws_files s"
  "ws_files (retainOpenFile f s) = ws_files s" "ws_files (closeOpenFile f s) = ws_files s"
  "ws_files (close_replaced to s) = ws_files s" "ws_files (allocated fd s) = ws_files s"
  "ws_files (set_descr fd f s) = ws_files s" "ws_files (map_descrs g s) = ws_files s"
  "ws_files (set_pipe p h s) = ws_files s" "ws_files (set_record r h' s) = ws_files s"
  "recs (raise_next_fd to s) = recs s" "recs (set_fd_flags fd fl s) = recs s"
  "recs (retainOpenFile f s) = recs s" "recs (closeOpenFile f s) = recs s"
  "recs (close_replaced to s) = recs s" "recs (allocated fd s) = recs s"
  "recs (set_descr fd f s) = recs s" "recs (map_descrs g s) = recs s"
  "recs (set_pipe p h s) = recs s" "recs (set_record r h' s) = (recs s)(r := h' (recs s r))"
  by (simp_all add: raise_next_fd_def set_fd_flags_def retainOpenFile_def closeOpenFile_def
      close_replaced_def allocated_def set_descr_def map_descrs_def set_pipe_def set_record_def
      split: option.split)

lemma rt_step_trees:
  assumes "rt_step tidy s t"
  shows "snd ` set (sc_files t) \<subseteq> insert (nextRef s) (snd ` set (sc_files s))"
    and "snd ` set (ws_files t) \<subseteq> insert (nextRef s) (snd ` set (ws_files s))"
  using assms
proof (induction rule: rt_step.induct)
  case (step_scratch_new s p x)
  { case 1 show ?case using snd_update [of p "nextRef s" "sc_files s"] by simp }
  { case 2 show ?case by auto }
next
  case (step_workspace_new s p x)
  { case 1 show ?case by auto }
  { case 2 show ?case using snd_update [of p "nextRef s" "ws_files s"] by simp }
next
  case (step_pipe pipe s s1 r s2 k w)
  { case 1 show ?case using step_pipe by auto }
  { case 2 show ?case using step_pipe by auto }
qed (simp_all add: subset_insertI subset_insertI2)

lemma rt_step_records:
  "rt_step tidy s t \<Longrightarrow> recs t r = recs s r \<or> mutable_record s r \<or> r = nextRef s"
  by (induction rule: rt_step.induct) (simp_all, fastforce+)

lemma mutable_by_descr:
  "f \<in> snd ` set (openFiles s) \<Longrightarrow> d_kind f \<noteq> Pipe \<Longrightarrow> d_kind f \<noteq> Stdio \<Longrightarrow> d_writable f \<Longrightarrow>
   mutable_record s (d_record f)"
  by (force simp: mutable_record_def list_ex_iff)

lemma mutable_by_tree:
  "r \<in> snd ` set (sc_files s) \<Longrightarrow> mutable_record s r"
  "ws_writable s \<Longrightarrow> r \<in> snd ` set (ws_files s) \<Longrightarrow> mutable_record s r"
  by (simp_all add: mutable_record_def)

lemma mutable_cases [consumes 1, case_names scratch workspace descr]:
  assumes "mutable_record s r"
  obtains "r \<in> snd ` set (sc_files s)" | "ws_writable s" "r \<in> snd ` set (ws_files s)"
  | f where "f \<in> snd ` set (openFiles s)" "d_kind f \<noteq> Pipe" "d_kind f \<noteq> Stdio" "d_writable f" "d_record f = r"
  using assms unfolding mutable_record_def list_ex_iff by (elim disjE bexE conjE) force+

lemma open_source_writable:
  "open_source s f \<Longrightarrow> d_writable f \<Longrightarrow> mutable_record s (d_record f)"
  unfolding open_source_def by (elim disjE exE conjE) (simp_all add: mutable_by_tree descr_defs)

lemma dup_source_writable:
  "dup_source s f \<Longrightarrow> d_writable f \<Longrightarrow> f \<in> snd ` set (openFiles s)"
  unfolding dup_source_def by (elim disjE exE conjE) (simp_all add: openFile_in descr_defs)

lemma rt_step_mutable:
  assumes "rt_step tidy s t" "mutable_record t r"
  shows "mutable_record s r \<or> nextRef s \<le> r"
proof -
  note trees = rt_step_trees [OF assms(1)]
  have w: "ws_writable t = ws_writable s" using rt_step_fixed [OF assms(1)] by (simp add: fixed_parts_def)
  from assms(2) show ?thesis
  proof (cases rule: mutable_cases)
    case scratch
    then have "r = nextRef s \<or> r \<in> snd ` set (sc_files s)" using trees(1) by blast
    then show ?thesis using mutable_by_tree(1) by auto
  next
    case workspace
    then have "r = nextRef s \<or> r \<in> snd ` set (ws_files s)" using trees(2) by blast
    then show ?thesis using mutable_by_tree(2) w workspace(1) by auto
  next
    case (descr f)
    have "derived s f" by (rule rt_step_derived [OF assms(1) descr(1)])
    then consider f' where "f' \<in> snd ` set (openFiles s)" "same_object f f'" | "open_source s f"
      | "dup_source s f" | "d_kind f = Pipe"
      unfolding derived_def by (elim disjE bexE exE) (simp_all add: pipe_descr_def)
    then show ?thesis
    proof cases
      case (1 f')
      then show ?thesis using descr mutable_by_descr [of f' s] by (simp add: same_object_def)
    next
      case 2
      then show ?thesis using open_source_writable descr by blast
    next
      case 3
      then show ?thesis using dup_source_writable descr mutable_by_descr by blast
    qed (use descr in simp)
  qed
qed

lemma readonly_record_fixed: "fixed_parts s t \<Longrightarrow> readonly_record t r = readonly_record s r"
  by (auto simp: readonly_record_def fixed_parts_def)

lemma rt_step_isolated:
  assumes "isolated s" "rt_step tidy s t"
  shows "isolated t"
  unfolding isolated_def
proof (intro allI impI)
  fix r
  note fixed = rt_step_fixed [OF assms(2)]
  assume "readonly_record t r"
  then have "r < nextRef s" "\<not> mutable_record s r"
    using assms(1) readonly_record_fixed [OF fixed] by (auto simp: isolated_def)
  then show "r < nextRef t \<and> \<not> mutable_record t r"
    using rt_step_mutable [OF assms(2)] fixed by (fastforce simp: fixed_parts_def)
qed

lemma evolves_isolated:
  assumes "evolves tidy s t" "isolated s"
  shows "isolated t" and "readonly_record s r \<Longrightarrow> recs t r = recs s r"
proof -
  have "isolated t \<and> (readonly_record s r \<longrightarrow> recs t r = recs s r)"
    using assms(1) unfolding evolves_def
  proof (induction rule: rtranclp_induct)
    case (step u v)
    then have u: "isolated u" "readonly_record s r \<Longrightarrow> recs u r = recs s r" by auto
    have "evolves tidy s u" using step(1) by (simp add: evolves_def)
    then have ro: "readonly_record u r = readonly_record s r"
      by (intro readonly_record_fixed evolves_fixed)
    have "recs v r = recs u r" if "readonly_record s r"
      using rt_step_records [OF step(2), of r] u(1) that ro by (auto simp: isolated_def)
    with u rt_step_isolated [OF u(1) step(2)] show ?case by simp
  qed (use assms(2) in simp)
  then show "isolated t" "readonly_record s r \<Longrightarrow> recs t r = recs s r" by auto
qed

section \<open>Rights\<close>

text \<open>What the mount of a descriptor grants; only scratch files and files of a writable workspace
  are writable.\<close>

definition granted_rights :: "runtime \<Rightarrow> descr \<Rightarrow> int" where
  "granted_rights s f =
     (case d_kind f of
        RegularFile \<Rightarrow> if d_writable f then SCRATCH_FILE_RIGHTS else REGULAR_FILE_RIGHTS
      | Directory \<Rightarrow> preopen_rights s (case d_mount f of None \<Rightarrow> Scratch | Some m \<Rightarrow> m)
      | Stdio \<Rightarrow> (case stdioRights (d_stdioFd f) of None \<Rightarrow> 0 | Some r \<Rightarrow> r)
      | Pipe \<Rightarrow> if d_direction f = ReadEnd then PIPE_READ_RIGHTS else PIPE_WRITE_RIGHTS)"

definition descr_ok :: "runtime \<Rightarrow> descr \<Rightarrow> bool" where
  "descr_ok s f \<longleftrightarrow>
     allowsRights (d_rights f) (granted_rights s f) \<and>
     (d_kind f = RegularFile \<and> d_writable f \<longrightarrow> d_mount f = None \<or> d_mount f = Some Workspace \<and> ws_writable s)"

definition rights_ok :: "runtime \<Rightarrow> bool" where
  "rights_ok s \<longleftrightarrow> list_all (\<lambda>(fd, f). descr_ok s f) (openFiles s)"

lemma rights_okD: "rights_ok s \<Longrightarrow> f \<in> snd ` set (openFiles s) \<Longrightarrow> descr_ok s f"
  by (auto simp: rights_ok_def list_all_iff)

lemma rights_okI: "(\<And>f. f \<in> snd ` set (openFiles s) \<Longrightarrow> descr_ok s f) \<Longrightarrow> rights_ok s"
  by (force simp: rights_ok_def list_all_iff)

lemma preopen_rights_fixed: "fixed_parts s t \<Longrightarrow> preopen_rights t = preopen_rights s"
  by (intro ext) (simp add: preopen_rights_def fixed_parts_def split: mount.split)

lemma descr_ok_fixed: "fixed_parts s t \<Longrightarrow> descr_ok t f = descr_ok s f"
  by (simp only: descr_ok_def granted_rights_def preopen_rights_fixed) (simp add: fixed_parts_def)

lemma granted_rights_same: "same_object f f' \<Longrightarrow> granted_rights s f = granted_rights s f'"
  by (simp only: granted_rights_def same_object_def)

lemma descr_ok_same: "same_object f f' \<Longrightarrow> descr_ok s f' \<Longrightarrow> descr_ok s f"
  using granted_rights_same [of f f' s] allowsRights_trans [of "d_rights f" "d_rights f'"]
  by (simp add: descr_ok_def) (simp add: same_object_def)

lemma descr_ok_open: "open_source s f \<Longrightarrow> descr_ok s f"
  unfolding open_source_def
  by (elim disjE exE conjE) (simp_all add: descr_ok_def granted_rights_def descr_defs)

lemma descr_ok_dup: "dup_source s f \<Longrightarrow> rights_ok s \<Longrightarrow> descr_ok s f"
  unfolding dup_source_def
proof (elim disjE exE conjE)
  fix fd assume "rights_ok s" "openFile s fd = Some f"
  then show "descr_ok s f" by (intro rights_okD openFile_in)
qed (simp_all add: descr_ok_def granted_rights_def descr_defs)

lemma rt_step_rights:
  assumes "rights_ok s" "rt_step tidy s t"
  shows "rights_ok t"
proof (rule rights_okI)
  fix f assume "f \<in> snd ` set (openFiles t)"
  with assms(2) have "derived s f" by (rule rt_step_derived)
  then have "descr_ok s f"
    unfolding derived_def
  proof (elim disjE bexE exE)
    fix f' assume "f' \<in> snd ` set (openFiles s)" "same_object f f'"
    then show ?thesis using assms(1) rights_okD descr_ok_same by blast
  qed (use assms(1) descr_ok_open descr_ok_dup in
      \<open>auto simp: descr_ok_def granted_rights_def descr_defs\<close>)
  then show "descr_ok t f" using descr_ok_fixed [OF rt_step_fixed [OF assms(2)]] by simp
qed

section \<open>Pipes\<close>

definition pipes_bounded :: "runtime \<Rightarrow> bool" where
  "pipes_bounded s \<longleftrightarrow> (\<forall>p. int (length (p_bytes (pipes s p))) \<le> PIPE_BUFFER_LIMIT)"

lemma pipe_bytes_simps [simp]:
  "p_bytes (pipes (retainOpenFile f s) p) = p_bytes (pipes s p)"
  "p_bytes (pipes (closeOpenFile f s) p) = p_bytes (pipes s p)"
  "p_bytes (pipes (close_replaced to s) p) = p_bytes (pipes s p)"
  by (simp_all add: retainOpenFile_def closeOpenFile_def close_replaced_def set_pipe_def split: option.split)

lemma rt_step_pipes:
  assumes "rt_step tidy s t" "pipes_bounded s"
  shows "pipes_bounded t"
  unfolding pipes_bounded_def
proof
  fix p
  have "int (length (p_bytes (pipes s p))) \<le> PIPE_BUFFER_LIMIT"
    using assms(2) by (simp add: pipes_bounded_def)
  with assms(1) show "int (length (p_bytes (pipes t p))) \<le> PIPE_BUFFER_LIMIT"
    by (induction rule: rt_step.induct) (auto simp: set_pipe_def map_descrs_def set_record_def)
qed

section \<open>The descriptor table\<close>

text \<open>The table is consistent and the files of the trees have allocated records.\<close>

definition table_ok :: "runtime \<Rightarrow> bool" where
  "table_ok s \<longleftrightarrow>
     fd_table_ok s \<and>
     list_all (\<lambda>(p, r). r < nextRef s) (sc_files s @ ws_files s @ pr_files s)"

lemma table_ok_refs:
  "table_ok s \<longleftrightarrow> fd_table_ok s \<and>
     (\<forall>r \<in> snd ` set (sc_files s) \<union> snd ` set (ws_files s) \<union> snd ` set (pr_files s). r < nextRef s)"
  by (simp add: table_ok_def list_all_iff ball_Un case_prod_unfold conj_ac)

lemma table_ok_ref:
  "table_ok s \<Longrightarrow> r \<in> snd ` set (sc_files s) \<Longrightarrow> r < nextRef s"
  "table_ok s \<Longrightarrow> r \<in> snd ` set (ws_files s) \<Longrightarrow> r < nextRef s"
  "table_ok s \<Longrightarrow> r \<in> snd ` set (pr_files s) \<Longrightarrow> r < nextRef s"
  unfolding table_ok_refs by blast+

lemma open_source_refs: "table_ok s \<Longrightarrow> open_source s f \<Longrightarrow> descr_refs (nextRef s) f"
  unfolding open_source_def
  by (elim disjE exE conjE) (simp_all add: table_ok_ref descr_refs_def descr_defs)

lemma dup_source_refs: "fd_table_ok s \<Longrightarrow> dup_source s f \<Longrightarrow> descr_refs (nextRef s) f"
  unfolding dup_source_def
  by (elim disjE exE conjE) (auto simp: descr_refs_def descr_defs dest: fd_table_okD(3))

lemma fd_table_ok_open:
  assumes ok: "fd_table_ok s" and refs: "descr_refs (nextRef s) f" and kind: "d_kind f \<noteq> Pipe"
  shows "fd_table_ok (set_descr (nextFileFd s) f (s\<lparr>nextFileFd := nextFileFd s + 1\<rparr>))"
proof (rule fd_table_ok_install [OF ok refs])
  have "openFile s (nextFileFd s) = None"
    using fd_table_okD(2) [OF ok, of "nextFileFd s"] by (cases "openFile s (nextFileFd s)") (auto simp: fd_number_def)
  then show "p_readers (pipes (set_descr (nextFileFd s) f (s\<lparr>nextFileFd := nextFileFd s + 1\<rparr>)) p) =
      open_ends ReadEnd p s - entry_sum (pipe_end ReadEnd p) (openFile s (nextFileFd s)) + pipe_end ReadEnd p f"
    "p_writers (pipes (set_descr (nextFileFd s) f (s\<lparr>nextFileFd := nextFileFd s + 1\<rparr>)) p) =
      open_ends WriteEnd p s - entry_sum (pipe_end WriteEnd p) (openFile s (nextFileFd s)) + pipe_end WriteEnd p f" for p
    using fd_table_okD(6,7) [OF ok] kind by (simp_all add: pipe_end_def)
  show "fd_number (set_descr (nextFileFd s) f (s\<lparr>nextFileFd := nextFileFd s + 1\<rparr>)) (nextFileFd s)"
    using fd_table_okD(4) [OF ok] by (simp add: fd_number_def isDynamicFileFdNumber_def)
qed simp_all

lemma fd_table_ok_share:
  assumes ok: "fd_table_ok s" and f: "openFile s fd = Some f"
  shows "fd_table_ok ((set_descr fd (f\<lparr>d_offset := Shared (nextRef s)\<rparr>) s)
    \<lparr>offsets := (offsets s)(nextRef s := v), nextRef := nextRef s + 1\<rparr>)"
proof -
  let ?s1 = "s\<lparr>offsets := (offsets s)(nextRef s := v), nextRef := nextRef s + 1\<rparr>"
  have "fd_table_ok ?s1"
    using fd_table_ok_nextRef [of "s\<lparr>offsets := (offsets s)(nextRef s := v)\<rparr>" "nextRef s + 1"] ok by simp
  then have "fd_table_ok (set_descr fd (f\<lparr>d_offset := Shared (nextRef s)\<rparr>) ?s1)"
    by (rule fd_table_ok_set_descr) (use f fd_table_okD(3) [OF ok f] in \<open>auto simp: same_ends_def descr_refs_def\<close>)
  moreover have "(set_descr fd (f\<lparr>d_offset := Shared (nextRef s)\<rparr>) s)
      \<lparr>offsets := (offsets s)(nextRef s := v), nextRef := nextRef s + 1\<rparr> =
      set_descr fd (f\<lparr>d_offset := Shared (nextRef s)\<rparr>) ?s1"
    by (rule runtime.equality) (simp_all add: set_descr_def)
  ultimately show ?thesis by simp
qed

lemma fd_table_ok_paths:
  assumes ok: "fd_table_ok s" and g: "\<And>f. \<exists>p. g f = f\<lparr>d_path := p\<rparr>"
  shows "fd_table_ok (map_descrs g s)"
proof -
  have same: "pipe_end dir p (g f) = pipe_end dir p f" "descr_refs n (g f) = descr_refs n f" for dir p n f
    using g [of f] by (auto simp: pipe_end_def descr_refs_def)
  have ends: "open_ends dir p (map_descrs g s) = open_ends dir p s" for dir p
    unfolding open_ends_def using table_sum_map [of "pipe_end dir p" g "openFiles s"] same(1)
    by (simp add: map_descrs_def)
  have keys: "map_keys (openFiles (map_descrs g s)) = map_keys (openFiles s)"
    by (simp add: map_descrs_def case_prod_unfold)
  have parts: "nextFileFd (map_descrs g s) = nextFileFd s" "nextRef (map_descrs g s) = nextRef s"
    "packageRootFd (map_descrs g s) = packageRootFd s" "pipes (map_descrs g s) = pipes s"
    by (simp_all add: map_descrs_def)
  have "list_all (\<lambda>(fd, f). fd_number (map_descrs g s) fd \<and> descr_refs (nextRef s) f) (openFiles (map_descrs g s))"
    using ok by (auto simp: fd_table_ok_def list_all_iff fd_number_def parts same(2))
  with ok keys show ?thesis
    unfolding fd_table_ok_def by (simp add: ends parts del: openFiles_simps)
qed

lemma open_source_kind: "open_source s f \<Longrightarrow> d_kind f \<noteq> Pipe"
  unfolding open_source_def by (elim disjE exE conjE) (simp_all add: descr_defs)

lemma narrows_ends: "narrows f f' \<Longrightarrow> same_ends f' f"
  by (auto simp: narrows_def same_ends_def)

lemma narrows_refs: "narrows f f' \<Longrightarrow> descr_refs n f \<Longrightarrow> descr_refs n f'"
  by (auto simp: narrows_def descr_refs_def)

lemma fd_table_ok_pipe_bytes:
  "fd_table_ok s \<Longrightarrow> fd_table_ok (set_pipe p (\<lambda>q. q\<lparr>p_bytes := bs\<rparr>) s)"
  by (subst fd_table_ok_cong [of _ s]) (auto simp: set_pipe_def)

lemma fd_table_ok_new_record:
  "fd_table_ok s \<Longrightarrow> fd_table_ok (s\<lparr>recs := rs, nextRef := nextRef s + 1\<rparr>)"
  using fd_table_ok_nextRef [of "s\<lparr>recs := rs\<rparr>" "nextRef s + 1"] by simp

lemma rt_step_fd_table:
  assumes "rt_step tidy s t" "table_ok s"
  shows "fd_table_ok t"
proof -
  have ok: "fd_table_ok s" using assms(2) by (simp add: table_ok_def)
  show ?thesis
    using assms(1)
  proof (cases rule: rt_step.cases)
    case (step_descr fd f f')
    then show ?thesis
      using fd_table_ok_set_descr [OF ok] fd_table_okD(3) [OF ok] narrows_ends narrows_refs by simp
  next
    case (step_share fd f v)
    show ?thesis unfolding step_share(1) by (rule fd_table_ok_share [OF ok step_share(2)])
  next
    case (step_renumber fd f to fl)
    show ?thesis
      unfolding step_renumber(1)
    proof (rule fd_table_ok_renumber [OF ok step_renumber(2,3)])
      let ?u = "(close_replaced to s)\<lparr>openFiles := AList.update to f (AList.delete fd (openFiles s)), fdFlagsExt := fl\<rparr>"
      show "fd_number (raise_next_fd to ?u) to"
        by (rule raise_next_number) (use step_renumber(4) fd_table_okD(4) [OF ok] in auto)
      show "nextFileFd s \<le> nextFileFd (raise_next_fd to ?u)" using raise_next_mono [of ?u to] by simp
    qed simp_all
  next
    case (step_dup f to fl)
    then show ?thesis using fd_table_ok_dup [OF ok dup_source_refs [OF ok]] by simp
  next
    case (step_dup_fresh f k fd fl)
    then show ?thesis using fd_table_ok_fresh [OF ok dup_source_refs [OF ok]] by simp
  next
    case (step_pipe p s1 r s2 k w)
    then show ?thesis using fd_table_ok_new_pipe [OF ok, of k] by simp
  next
    case (step_open f)
    then show ?thesis
      using fd_table_ok_open [OF ok open_source_refs [OF assms(2)] open_source_kind] by simp
  next
    case (step_scratch_new p x)
    then show ?thesis using fd_table_ok_new_record [OF ok] by simp
  next
    case (step_workspace_new p x)
    then show ?thesis using fd_table_ok_new_record [OF ok] by simp
  qed (use ok in \<open>simp_all add: fd_table_ok_share fd_table_ok_paths fd_table_ok_remove fd_table_ok_pipe_bytes\<close>)
qed

lemma rt_step_table:
  assumes "table_ok s" "rt_step tidy s t"
  shows "table_ok t"
proof -
  note fixed = rt_step_fixed [OF assms(2), unfolded fixed_parts_def] and trees = rt_step_trees [OF assms(2)]
  have new: "nextRef s < nextRef t \<or>
      snd ` set (sc_files t) \<subseteq> snd ` set (sc_files s) \<and> snd ` set (ws_files t) \<subseteq> snd ` set (ws_files s)"
    using assms(2) by (induction rule: rt_step.induct) simp_all
  have le: "nextRef s \<le> nextRef t" and pr: "pr_files t = pr_files s" using fixed by blast+
  have below: "r < nextRef t" if "r \<in> snd ` set m \<or> r = nextRef s \<and> nextRef s < nextRef t"
    "\<And>r. r \<in> snd ` set m \<Longrightarrow> r < nextRef s" for r and m :: file_map
    using that le by force
  have "r < nextRef t" if "r \<in> snd ` set (sc_files t)" for r
    by (rule below [of r "sc_files s"]) (use that trees(1) new table_ok_ref(1) [OF assms(1)] in \<open>blast\<close>)+
  moreover have "r < nextRef t" if "r \<in> snd ` set (ws_files t)" for r
    by (rule below [of r "ws_files s"]) (use that trees(2) new table_ok_ref(2) [OF assms(1)] in \<open>blast\<close>)+
  moreover have "r < nextRef t" if "r \<in> snd ` set (pr_files t)" for r
    by (rule below [of r "pr_files s"]) (use that pr table_ok_ref(3) [OF assms(1)] in \<open>simp only: simp_thms\<close>)+
  ultimately show ?thesis using rt_step_fd_table [OF assms(2,1)] unfolding table_ok_refs by blast
qed

section \<open>The trees\<close>

definition path_ok :: "descr \<Rightarrow> bool" where
  "path_ok f \<longleftrightarrow> (\<forall>p. d_path f = Some p \<longrightarrow> canonical p)"

lemma paths_ok_iff: "paths_ok xs \<longleftrightarrow> (\<forall>f \<in> snd ` set xs. path_ok f)"
  by (auto simp: paths_ok_def path_ok_def list_all_iff split: option.splits)

lemma paths_ok_update: "paths_ok xs \<Longrightarrow> path_ok f \<Longrightarrow> paths_ok (AList.update fd f xs)"
  unfolding paths_ok_iff using snd_update [of fd f xs] by blast

lemma paths_ok_delete: "paths_ok xs \<Longrightarrow> paths_ok (AList.delete fd xs)"
  unfolding paths_ok_iff using snd_delete [of fd xs] by blast

lemma paths_ok_open: "paths_ok (openFiles s) \<Longrightarrow> openFile s fd = Some f \<Longrightarrow> path_ok f"
  unfolding paths_ok_iff using openFile_in by blast

lemma path_ok_same: "path_ok f \<Longrightarrow> d_path f' = d_path f \<Longrightarrow> path_ok f'"
  by (simp add: path_ok_def)

lemma path_ok_dup: "dup_source s f \<Longrightarrow> paths_ok (openFiles s) \<Longrightarrow> path_ok f"
  unfolding dup_source_def
  by (elim disjE exE conjE) (simp_all add: paths_ok_open, simp_all add: path_ok_def descr_defs)

lemma rt_step_paths:
  assumes "rt_step True s t" "bases_ok s"
  shows "paths_ok (openFiles t)"
proof -
  have ok: "paths_ok (openFiles s)" using assms(2) by (simp add: bases_ok_def)
  show ?thesis
    using assms(1)
  proof (cases rule: rt_step.cases)
    case (step_descr fd f f')
    then have "path_ok f'" using paths_ok_open [OF ok] by (auto simp: narrows_def path_ok_def)
    then show ?thesis using step_descr ok by (simp add: paths_ok_update)
  next
    case (step_share fd f v)
    then have "path_ok (f\<lparr>d_offset := Shared (nextRef s)\<rparr>)" using paths_ok_open [OF ok] by (auto simp: path_ok_def)
    then show ?thesis using step_share ok by (simp add: paths_ok_update)
  next
    case (step_paths g)
    then have "path_ok (g f)" if "path_ok f" for f using that unfolding path_ok_def by blast
    then show ?thesis using ok step_paths(1) unfolding paths_ok_iff by (force simp: map_descrs_def)
  next
    case (step_renumber fd f to fl)
    then show ?thesis using paths_ok_open [OF ok] ok by (simp add: paths_ok_update paths_ok_delete)
  next
    case (step_dup f to fl)
    then show ?thesis using path_ok_dup [of s f] ok by (simp add: paths_ok_update)
  next
    case (step_dup_fresh f k fd fl)
    then show ?thesis using path_ok_dup [of s f] ok by (simp add: paths_ok_update)
  next
    case (step_pipe p s1 r s2 k w)
    then show ?thesis using ok by (simp add: paths_ok_update path_ok_def descr_defs)
  next
    case (step_open f)
    then have "path_ok f" using assms(2) by (auto simp: path_ok_def)
    then show ?thesis using step_open ok by (simp add: paths_ok_update)
  qed (use ok in \<open>simp_all add: paths_ok_delete\<close>)
qed

lemma tree_parts_simps [simp]:
  "rt_cwd (raise_next_fd to s) = rt_cwd s" "rt_cwd (set_fd_flags fd fl s) = rt_cwd s"
  "rt_cwd (retainOpenFile f s) = rt_cwd s" "rt_cwd (closeOpenFile f s) = rt_cwd s"
  "rt_cwd (close_replaced to s) = rt_cwd s" "rt_cwd (allocated fd s) = rt_cwd s"
  "rt_cwd (set_descr fd f s) = rt_cwd s" "rt_cwd (map_descrs g s) = rt_cwd s"
  "rt_cwd (set_pipe p h s) = rt_cwd s" "rt_cwd (set_record r h' s) = rt_cwd s"
  "sc_dirs (raise_next_fd to s) = sc_dirs s" "sc_dirs (set_fd_flags fd fl s) = sc_dirs s"
  "sc_dirs (retainOpenFile f s) = sc_dirs s" "sc_dirs (closeOpenFile f s) = sc_dirs s"
  "sc_dirs (close_replaced to s) = sc_dirs s" "sc_dirs (allocated fd s) = sc_dirs s"
  "sc_dirs (set_descr fd f s) = sc_dirs s" "sc_dirs (map_descrs g s) = sc_dirs s"
  "sc_dirs (set_pipe p h s) = sc_dirs s" "sc_dirs (set_record r h' s) = sc_dirs s"
  "ws_dirs (raise_next_fd to s) = ws_dirs s" "ws_dirs (set_fd_flags fd fl s) = ws_dirs s"
  "ws_dirs (retainOpenFile f s) = ws_dirs s" "ws_dirs (closeOpenFile f s) = ws_dirs s"
  "ws_dirs (close_replaced to s) = ws_dirs s" "ws_dirs (allocated fd s) = ws_dirs s"
  "ws_dirs (set_descr fd f s) = ws_dirs s" "ws_dirs (map_descrs g s) = ws_dirs s"
  "ws_dirs (set_pipe p h s) = ws_dirs s" "ws_dirs (set_record r h' s) = ws_dirs s"
  by (simp_all add: raise_next_fd_def set_fd_flags_def retainOpenFile_def closeOpenFile_def
      close_replaced_def allocated_def set_descr_def map_descrs_def set_pipe_def set_record_def
      split: option.split)

lemma rt_step_trees_ok:
  assumes "trees_ok s" "rt_step True s t"
  shows "trees_ok t"
proof -
  have "paths_ok (openFiles t)"
    using rt_step_paths [OF assms(2)] assms(1) by (simp add: trees_ok_def)
  moreover have "canonical_abs (rt_cwd t) \<and> tree_ok (ws_files t) (ws_dirs t) \<and> [] \<in> set (ws_dirs t) \<and>
      tree_ok (sc_files t) (sc_dirs t) \<and> [] \<in> set (sc_dirs t)"
    using assms(2,1)
    by (induction rule: rt_step.induct) (simp_all add: trees_ok_def bases_ok_def tree_kept_def)
  ultimately show ?thesis by (simp add: trees_ok_def bases_ok_def)
qed

lemma rt_step_parents:
  assumes "trees_ok s" "rt_step True s t"
  shows "(parents_ok (ws_files s) (ws_dirs s) \<longrightarrow> parents_ok (ws_files t) (ws_dirs t)) \<and>
    (parents_ok (sc_files s) (sc_dirs s) \<longrightarrow> parents_ok (sc_files t) (sc_dirs t))"
  using assms(2,1) by (induction rule: rt_step.induct) (simp_all add: tree_kept_def)

end
