(* ===== verification/Wasi_Calls.thy ===== *)
theory Wasi_Calls imports Host_Calls Host_Invariants begin

text \<open>
  The import object: \<open>imports\<close> of \<open>WasiPreview1Runtime\<close> (\<open>apps/web/src/wasi-module.js\<close>, line 1713)
  and the descriptor and path calls that \<open>WasixRuntime.imports\<close> (line 5029) adds to it, as one
  dispatcher over a datatype of calls. The guest is any sequence of calls. The invariants of the host
  are checked on the elementary changes of \<open>Host_Steps\<close> and lifted to calls here.
\<close>

section \<open>The import object\<close>

datatype (plugins only: ) wasi_call =
    Args_get int int | Args_sizes_get int int | Environ_get int int | Environ_sizes_get int int
  | Clock_res_get int int | Clock_time_get int int int
  | Fd_read int int int int | Fd_pread int int int int int | Fd_write int int int int
  | Fd_pwrite int int int int int | Fd_allocate int int int | Fd_advise int int int int
  | Fd_datasync int | Fd_sync int | Fd_readdir int int int int int | Fd_renumber int int
  | Fd_seek int int int int | Fd_tell int int | Fd_fdstat_get int int | Fd_fdstat_set_flags int int
  | Fd_fdstat_set_rights int int int | Fd_close int | Fd_filestat_get int int
  | Fd_filestat_set_size int int | Fd_filestat_set_times int int int int
  | Fd_prestat_dir_name int int int | Fd_prestat_get int int
  | Path_open int int int int int int int int int | Path_filestat_get int int int int int
  | Path_filestat_set_times int int int int int int int | Path_create_directory int int int
  | Path_link int int int int int int int | Path_readlink int int int int int int
  | Path_rename int int int int int int | Path_remove_directory int int int
  | Path_symlink int int int int int | Path_unlink_file int int int
  | Poll_oneoff int int int int | Proc_raise int | Random_get int int | Sched_yield
  | Sock_accept int int int | Sock_recv int int int int int int | Sock_send int int int int int
  | Sock_shutdown int int | Proc_exit int
  | Chdir int int | Getcwd int int | Fd_dup int int | Fd_dup2 int int int int
  | Fd_fdflags_get int int | Fd_fdflags_set int int | Fd_pipe int int
  | Path_open2 int int int int int int int int int int

primrec wasi_import :: "(int \<Rightarrow> int) \<Rightarrow> (int \<Rightarrow> int \<Rightarrow> byte list) \<Rightarrow> wasi_call \<Rightarrow> int wasi" where
  "wasi_import now random (Args_get argvPtr argvBufPtr) =
     with_state (\<lambda>s. writeStringPointers (rt_args s) argvPtr argvBufPtr)"
| "wasi_import now random (Args_sizes_get argcPtr argvBufSizePtr) =
     with_state (\<lambda>s. writeSizes (rt_args s) argcPtr argvBufSizePtr)"
| "wasi_import now random (Environ_get environPtr environBufPtr) =
     with_state (\<lambda>s. writeStringPointers (rt_env s) environPtr environBufPtr)"
| "wasi_import now random (Environ_sizes_get environCountPtr environBufSizePtr) =
     with_state (\<lambda>s. writeSizes (rt_env s) environCountPtr environBufSizePtr)"
| "wasi_import now random (Clock_res_get clockId resolutionPtr) = clockResGet clockId resolutionPtr"
| "wasi_import now random (Clock_time_get clockId prec timePtr) = clockTimeGet now clockId timePtr"
| "wasi_import now random (Fd_read fd iovs len nread) = fdRead fd iovs len nread"
| "wasi_import now random (Fd_pread fd iovs len offset nread) = fdPread fd iovs len offset nread"
| "wasi_import now random (Fd_write fd iovs len nwritten) = fdWrite fd iovs len nwritten"
| "wasi_import now random (Fd_pwrite fd iovs len offset nwritten) = fdPwrite fd iovs len offset nwritten"
| "wasi_import now random (Fd_allocate fd offset len) = fdAllocate fd offset len"
| "wasi_import now random (Fd_advise fd offset len advice) = fdAdvise fd offset len advice"
| "wasi_import now random (Fd_datasync fd) = fdSync fd RIGHT_FD_DATASYNC"
| "wasi_import now random (Fd_sync fd) = fdSync fd RIGHT_FD_SYNC"
| "wasi_import now random (Fd_readdir fd buf len cookie used) = fdReaddir fd buf len cookie used"
| "wasi_import now random (Fd_renumber fd to) = fdRenumber fd to"
| "wasi_import now random (Fd_seek fd offset whence newOffset) = fdSeek fd offset whence newOffset"
| "wasi_import now random (Fd_tell fd offsetPtr) = fdTell fd offsetPtr"
| "wasi_import now random (Fd_fdstat_get fd fdstatPtr) = fdFdstatGet fd fdstatPtr"
| "wasi_import now random (Fd_fdstat_set_flags fd flags) = fdFdstatSetFlags fd flags"
| "wasi_import now random (Fd_fdstat_set_rights fd rightsBase rightsInheriting) =
     fdFdstatSetRights fd rightsBase rightsInheriting"
| "wasi_import now random (Fd_close fd) = fdClose fd"
| "wasi_import now random (Fd_filestat_get fd filestatPtr) = fdFilestatGet fd filestatPtr"
| "wasi_import now random (Fd_filestat_set_size fd sz) = fdFilestatSetSize fd sz"
| "wasi_import now random (Fd_filestat_set_times fd atim mtim fstFlags) =
     fdFilestatSetTimes fd atim mtim fstFlags"
| "wasi_import now random (Fd_prestat_dir_name fd pathPtr pathLen) = fdPrestatDirName fd pathPtr pathLen"
| "wasi_import now random (Fd_prestat_get fd prestatPtr) = fdPrestatGet fd prestatPtr"
| "wasi_import now random (Path_open fd dirflags pathPtr pathLen oflags rb ri fdflags opened) =
     pathOpen fd dirflags pathPtr pathLen oflags rb ri fdflags opened"
| "wasi_import now random (Path_filestat_get fd flags pathPtr pathLen filestatPtr) =
     pathFilestatGet fd flags pathPtr pathLen filestatPtr"
| "wasi_import now random (Path_filestat_set_times fd flags pathPtr pathLen atim mtim fstFlags) =
     pathFilestatSetTimes fd flags pathPtr pathLen atim mtim fstFlags"
| "wasi_import now random (Path_create_directory fd pathPtr pathLen) = pathCreateDirectory fd pathPtr pathLen"
| "wasi_import now random (Path_link fd1 flags p1 n1 fd2 p2 n2) = pathLink fd1 flags p1 n1 fd2 p2 n2"
| "wasi_import now random (Path_readlink fd pathPtr pathLen buf len used) =
     pathReadlink fd pathPtr pathLen buf len used"
| "wasi_import now random (Path_rename fd1 p1 n1 fd2 p2 n2) = pathRename fd1 p1 n1 fd2 p2 n2"
| "wasi_import now random (Path_remove_directory fd pathPtr pathLen) = pathRemoveDirectory fd pathPtr pathLen"
| "wasi_import now random (Path_symlink p1 n1 fd p2 n2) = pathSymlink p1 n1 fd p2 n2"
| "wasi_import now random (Path_unlink_file fd pathPtr pathLen) = pathUnlinkFile fd pathPtr pathLen"
| "wasi_import now random (Poll_oneoff subscriptions events len used) =
     pollOneoff subscriptions events len used"
| "wasi_import now random (Proc_raise sig) = procRaise sig"
| "wasi_import now random (Random_get buf len) = randomGet random buf len"
| "wasi_import now random Sched_yield = schedYield"
| "wasi_import now random (Sock_accept fd flags p) = sock_unsupported fd"
| "wasi_import now random (Sock_recv fd iovs len flags p q) = sock_unsupported fd"
| "wasi_import now random (Sock_send fd iovs len flags p) = sock_unsupported fd"
| "wasi_import now random (Sock_shutdown fd how) = sockShutdown fd how"
| "wasi_import now random (Proc_exit code) = throw (WasiProcExit code)"
| "wasi_import now random (Chdir pathPtr pathLen) = chdir pathPtr pathLen"
| "wasi_import now random (Getcwd pathPtr pathLenPtr) = getcwd pathPtr pathLenPtr"
| "wasi_import now random (Fd_dup fd p) = fdDup fd p"
| "wasi_import now random (Fd_dup2 fd to cloexec p) = fdDup2 fd to cloexec p"
| "wasi_import now random (Fd_fdflags_get fd p) = fdFdflagsGet fd p"
| "wasi_import now random (Fd_fdflags_set fd flags) = fdFdflagsSet fd flags"
| "wasi_import now random (Fd_pipe p q) = fdPipe p q"
| "wasi_import now random (Path_open2 fd dirflags pathPtr pathLen oflags rb ri fdflags ext opened) =
     pathOpen2 fd dirflags pathPtr pathLen oflags rb ri fdflags ext opened"

text \<open>The two calls that can take the root of a tree away.\<close>

definition moves_root :: "runtime \<Rightarrow> wasi_call \<Rightarrow> bool" where
  "moves_root s c =
     (case c of
        Path_rename fd1 p1 n1 fd2 p2 n2 \<Rightarrow> renames_root s fd1 p1 n1 fd2 p2 n2
      | Path_remove_directory fd p n \<Rightarrow> removes_root s fd p n
      | _ \<Rightarrow> False)"

lemma wasi_import_evolves:
  assumes "tidy \<Longrightarrow> bases_ok s \<and> \<not> moves_root s c"
  shows "evolving_at tidy s (wasi_import now random c)"
proof (cases c)
  case (Path_rename fd1 p1 n1 fd2 p2 n2)
  with assms show ?thesis by (simp add: at_pathRename moves_root_def)
next
  case (Path_remove_directory fd p n)
  with assms show ?thesis by (simp add: at_pathRemoveDirectory moves_root_def)
qed (simp_all only: wasi_import.simps,
  (rule at_any at_with_state at_ret | rule evolve_intros | rule memory_intros)+)

lemma wasi_import_steps: "evolves False s (snd (wasi_import now random c s))"
  using wasi_import_evolves [of False s c now random] by (simp add: evolving_at_def)

lemma run_calls_evolves: "evolves False s (run_calls (wasi_import now random) cs s)"
  by (induction cs arbitrary: s) (auto intro: evolves_trans wasi_import_steps)

section \<open>The invariants as contracts of the import object\<close>

interpretation tables: machine "wasi_import now random" table_ok for now random
  by unfold_locales (rule evolves_inv [OF wasi_import_steps], assumption, rule rt_step_table)

interpretation rights: machine "wasi_import now random" rights_ok for now random
  by unfold_locales (rule evolves_inv [OF wasi_import_steps], assumption, rule rt_step_rights)

interpretation bounds: machine "wasi_import now random" pipes_bounded for now random
  by unfold_locales (rule evolves_inv [OF wasi_import_steps], assumption, rule rt_step_pipes)

interpretation isolation: machine "wasi_import now random" isolated for now random
  by unfold_locales (rule evolves_isolated(1) [OF wasi_import_steps])

section \<open>A host that was told to stop\<close>

text \<open>Every call first looks at the abort signal; the calls that read arguments before it can only
  refuse them.\<close>

definition refuses :: "runtime \<Rightarrow> int wasi \<Rightarrow> bool" where
  "refuses s m \<longleftrightarrow> m s = (Inl AbortError, s) \<or> m s = (Inr ERRNO_INVAL, s)"

lemma refuses_aborted: "aborted s \<Longrightarrow> refuses s (seqM throwIfAborted n)"
  by (simp add: refuses_def throwIfAborted_def run_seq)

lemma refuses_state: "refuses s (f s) \<Longrightarrow> refuses s (with_state f)"
  by (simp add: refuses_def)

lemma refuses_inval: "(\<not> b \<Longrightarrow> refuses s n) \<Longrightarrow> refuses s (if b then ret ERRNO_INVAL else n)"
  by (simp add: refuses_def)

lemma refuses_else:
  "refuses s m \<Longrightarrow> refuses s (bindM m (\<lambda>errno. if errno = ERRNO_SUCCESS \<and> b then f errno else ret errno))"
  by (auto simp: refuses_def)

lemmas handler_defs = duplicateFd_def duplicateFdTo_def
 chdir_def clockResGet_def clockTimeGet_def fdAdvise_def fdAllocate_def fdClose_def fdDup_def fdDup2_def
 fdFdflagsGet_def fdFdflagsSet_def fdFdstatGet_def fdFdstatSetFlags_def fdFdstatSetRights_def fdFilestatGet_def fdFilestatSetSize_def
 fdFilestatSetTimes_def fdPipe_def fdPread_def fdPrestatDirName_def fdPrestatGet_def fdPwrite_def fdRead_def fdReaddir_def fdRenumber_def
 fdSeek_def fdSync_def fdTell_def fdWrite_def getcwd_def pathCreateDirectory_def pathFilestatGet_def pathFilestatSetTimes_def pathLink_def pathOpen_def pathOpen2_def pathReadlink_def
 pathRemoveDirectory_def pathRename_def pathSymlink_def pathUnlinkFile_def pollOneoff_def procRaise_def randomGet_def schedYield_def sock_unsupported_def sockShutdown_def writeSizes_def writeStringPointers_def

lemma aborted_call:
  assumes "aborted s" "\<forall>code. c \<noteq> Proc_exit code"
  shows "refuses s (wasi_import now random c)"
proof (cases c)
  case (Proc_exit code)
  with assms show ?thesis by simp
qed (use assms(1) in \<open>simp_all only: wasi_import.simps handler_defs\<close>,
  (rule refuses_aborted refuses_state refuses_inval refuses_else, assumption?)+)

section \<open>A host to try the calls on\<close>

text \<open>A writable workspace with a file and a directory, a scratch tree with a directory that holds a
  file, and a package file. The guest's memory has path names at fixed places.\<close>

definition example_memory :: mem where
  "example_memory =
     mem_store (mem_store (mem_store (mem_store \<lparr>mem_size = 65536, mem_at = \<lambda>a. 0\<rparr>
       100 (map byte_of_char ''a'')) 200 (map byte_of_char ''.''))
       300 (map byte_of_char ''/workspace'')) 400 (map byte_of_char ''docs'')"

definition example_record :: "nat \<Rightarrow> file_record" where
  "example_record r =
     \<lparr>r_bytes = map byte_of_char (if r = 0 then ''hello'' else if r = 1 then ''tmp'' else ''pkg''),
      r_path = None, r_fallback = False, r_mtime = None\<rparr>"

definition example_host :: runtime where
  "example_host =
     \<lparr>memory = example_memory, aborted = False, rt_args = [''prog''], rt_env = [],
      rt_cwd = ''/workspace'', ws_writable = True, ws_dirty = False,
      ws_files = [(''notes'', 0)], ws_dirs = [[], ''docs''],
      sc_files = [(''a/x'', 1)], sc_dirs = [[], ''a''],
      pr_files = [(''bin/sh'', 2)], pr_dirs = [''bin''],
      packageRootFd = Some 5,
      openFiles = [(6, file_descr (Some PackageRoot) ''bin/sh'' 2 REGULAR_FILE_RIGHTS 0 False 0),
                   (7, dir_descr (Some Workspace) ''docs'' WRITABLE_WORKSPACE_RIGHTS SCRATCH_FILE_RIGHTS 0),
                   (8, file_descr (Some Workspace) ''notes'' 0 SCRATCH_FILE_RIGHTS 0 True 0)],
      fdFlagsExt = [], nextFileFd = 9, stdin_bytes = [], stdinOffset = 0, written = [],
      recs = example_record, offsets = (\<lambda>r. 0),
      pipes = (\<lambda>p. \<lparr>p_bytes = [], p_readers = 0, p_writers = 0\<rparr>), nextRef = 3, arrayLimit = 2 ^ 32\<rparr>"

end
