(* ===== verification/Fd_Properties.thy ===== *)
theory Fd_Properties imports Wasi_Calls begin

text \<open>
  What the descriptor calls of \<open>apps/web/src/wasi-module.js\<close> do, seen by a guest that reads the
  results back from its memory: transfers between iovecs and files (bytes written are the bytes read,
  and nothing else of the file changes), pipes as bounded first-in first-out queues, seeking, sizing,
  duplication, renumbering, closing and listing. \<open>gather\<close> is the content of a vector of memory areas,
  \<open>scatter\<close> the memory after bytes were dealt out to one; \<open>io_args\<close> says that the arguments of a
  call lie in the memory and do not overlap.
\<close>

section \<open>Vectors of areas\<close>

definition apart :: "int \<Rightarrow> int \<Rightarrow> int \<Rightarrow> int \<Rightarrow> bool" where
  "apart a n b k \<longleftrightarrow> a + n \<le> b \<or> b + k \<le> a"

lemma apart_sym: "apart a n b k \<longleftrightarrow> apart b k a n"
  by (auto simp: apart_def)

abbreviation iov_total :: "(int \<times> int) list \<Rightarrow> int" where
  "iov_total vs \<equiv> sum_list (map snd vs)"

fun iovecs :: "mem \<Rightarrow> int \<Rightarrow> (int \<times> int) list \<Rightarrow> bool" where
  "iovecs m p [] \<longleftrightarrow> True"
| "iovecs m p ((a, n) # vs) \<longleftrightarrow>
     guest.read_int m p 4 = Some a \<and> guest.read_int m (p + 4) 4 = Some n \<and> a + n \<le> mem_size m \<and>
     iovecs m (p + 8) vs"

definition gather :: "mem \<Rightarrow> (int \<times> int) list \<Rightarrow> byte list" where
  "gather m vs = concat (map (\<lambda>(a, n). mem_load m a (nat n)) vs)"

fun scatter :: "mem \<Rightarrow> (int \<times> int) list \<Rightarrow> byte list \<Rightarrow> mem" where
  "scatter m [] bs = m"
| "scatter m ((a, n) # vs) bs = scatter (mem_store m a (take (nat n) bs)) vs (drop (nat n) bs)"

definition areas_apart :: "(int \<times> int) list \<Rightarrow> int \<Rightarrow> int \<Rightarrow> bool" where
  "areas_apart vs p k \<longleftrightarrow> list_all (\<lambda>(a, n). apart a n p k) vs"

fun disjoint_areas :: "(int \<times> int) list \<Rightarrow> bool" where
  "disjoint_areas [] \<longleftrightarrow> True"
| "disjoint_areas ((a, n) # vs) \<longleftrightarrow> areas_apart vs a n \<and> disjoint_areas vs"

lemma read_int_range: "guest.read_int m p k = Some v \<Longrightarrow> 0 \<le> v"
  using le_value_range by (auto simp: guest.read_int_def)

lemma iovecs_range: "iovecs m p vs \<Longrightarrow> (a, n) \<in> set vs \<Longrightarrow> 0 \<le> a \<and> 0 \<le> n \<and> a + n \<le> mem_size m"
  by (induction m p vs rule: iovecs.induct) (auto dest: read_int_range)

lemma iovecs_total: "iovecs m p vs \<Longrightarrow> 0 \<le> iov_total vs"
  by (induction m p vs rule: iovecs.induct) (auto dest: read_int_range)

lemma read_int_store:
  "apart q (int (length bs)) p (int k) \<Longrightarrow> guest.read_int (mem_store m q bs) p k = guest.read_int m p k"
  by (auto simp: guest.read_int_def get_bytes_def apart_def mem_load_frame)

lemma iovecs_store:
  "apart q (int (length bs)) p (8 * int (length vs)) \<Longrightarrow> iovecs (mem_store m q bs) p vs = iovecs m p vs"
proof (induction m p vs rule: iovecs.induct)
  case (2 m p a n vs)
  then have "apart q (int (length bs)) p 4" "apart q (int (length bs)) (p + 4) 4"
    "apart q (int (length bs)) (p + 8) (8 * int (length vs))"
    by (auto simp: apart_def)
  then show ?case using 2 read_int_store [of q bs p 4 m] read_int_store [of q bs "p + 4" 4 m] by simp
qed simp

lemma get_int_read: "guest.read_int (memory s) p n = Some v \<Longrightarrow> get_int p n s = (Inr v, s)"
  by (auto simp: guest.read_int_def get_int_def)

lemma readU32_read: "guest.read_int (memory s) p 4 = Some v \<Longrightarrow> readU32 p s = (Inr v, s)"
  by (simp add: readU32_def get_int_read)

lemma read_iov_chunks_gather:
  "iovecs (memory s) p vs \<Longrightarrow>
   read_iov_chunks (length vs) p s = (Inr (map (\<lambda>(a, n). mem_load (memory s) a (nat n)) vs, iov_total vs), s)"
proof (induction vs arbitrary: p)
  case (Cons v vs)
  obtain a n where v: "v = (a, n)" by (cases v)
  have "0 \<le> a \<and> 0 \<le> n \<and> a + n \<le> mem_size (memory s)"
    using Cons.prems iovecs_range v by (metis list.set_intros(1))
  then show ?case
    using Cons v by (simp add: readU32_read run_bind Let_def mem_slice_within)
qed simp

lemma readIovChunks_gather:
  assumes "iovecs (memory s) p vs" "k = int (length vs)"
  obtains cs where "readIovChunks p k s = (Inr (cs, iov_total vs), s)" "concat cs = gather (memory s) vs"
    "cs = [] \<longleftrightarrow> vs = []"
  using read_iov_chunks_gather [OF assms(1)] assms(2) that by (simp add: readIovChunks_def gather_def)

lemma scatter_nil: "scatter m vs [] = m"
  by (induction vs arbitrary: m) auto

lemma set_memory_within:
  "0 \<le> a \<Longrightarrow> a + int (length bs) \<le> mem_size (memory s) \<Longrightarrow>
   set_memory a bs s = (Inr (), s\<lparr>memory := mem_store (memory s) a bs\<rparr>)"
  by (simp add: set_memory_def set_bytes_def)

lemma read_into_iovs_scatter:
  "iovecs (memory s) p vs \<Longrightarrow> areas_apart vs p (8 * int (length vs)) \<Longrightarrow> 0 \<le> off \<Longrightarrow>
   read_into_iovs (length vs) input off p s =
   (Inr (if off \<ge> int (length input) then 0 else min (iov_total vs) (int (length input) - off)),
    s\<lparr>memory := scatter (memory s) vs (drop (nat off) input)\<rparr>)"
proof (induction vs arbitrary: p off s)
  case (Cons v vs)
  obtain a n where v: "v = (a, n)" by (cases v)
  have r: "0 \<le> a \<and> 0 \<le> n \<and> a + n \<le> mem_size (memory s)"
    using Cons.prems iovecs_range v by (metis list.set_intros(1))
  have t: "0 \<le> iov_total vs" using Cons.prems(1) v iovecs_total [of _ _ vs] by auto
  show ?case
  proof (cases "off \<ge> int (length input)")
    case True
    then show ?thesis by (simp add: scatter_nil)
  next
    case False
    define k where "k = min n (int (length input) - off)"
    let ?bs = "take (nat n) (drop (nat off) input)"
    have bs: "js_slice input off (off + k) = ?bs" "int (length ?bs) = k"
      using Cons.prems(3) False r by (auto simp: js_slice_within k_def min_def)
    have ap: "apart a n p (8 + 8 * int (length vs))"  "areas_apart vs (p + 8) (8 * int (length vs))"
      using Cons.prems(2) v by (auto simp: areas_apart_def apart_def list_all_iff)
    let ?s = "s\<lparr>memory := mem_store (memory s) a ?bs\<rparr>"
    have "apart a (int (length ?bs)) (p + 8) (8 * int (length vs))"
      using ap(1) bs(2) by (auto simp: apart_def k_def)
    from iovecs_store [OF this] have iov: "iovecs (memory ?s) (p + 8) vs"
      using Cons.prems(1) v by simp
    have "0 \<le> off + k" using Cons.prems(3) r False by (auto simp: k_def)
    note IH = Cons.IH [OF iov ap(2) this]
    show ?thesis
    proof (cases "0 < k")
      case True
      have "set_memory a ?bs s = (Inr (), ?s)"
        using r bs(2) k_def by (intro set_memory_within) auto
      moreover have "drop (nat (off + k)) input = drop (nat n) (drop (nat off) input)"
        using True Cons.prems(3) r False by (auto simp: k_def min_def nat_add_distrib add.commute)
      ultimately show ?thesis
        using True Cons.prems(1) v False IH t bs(1) r
        by (simp add: readU32_read run_bind run_seq Let_def flip: k_def) (auto simp: k_def min_def)
    next
      case nk: False
      then have "n = 0" "k = 0" using r False by (auto simp: k_def)
      then show ?thesis
        using Cons.prems(1) v False IH by (simp add: readU32_read run_bind Let_def)
    qed
  qed
qed simp

lemma readIntoIovs_scatter:
  assumes "iovecs (memory s) p vs" "k = int (length vs)" "areas_apart vs p (8 * k)" "0 \<le> off" "off \<le> int (length input)"
  shows "readIntoIovs input off p k s =
    (Inr (min (iov_total vs) (int (length input) - off)),
     s\<lparr>memory := scatter (memory s) vs (drop (nat off) input)\<rparr>)"
  using read_into_iovs_scatter [OF assms(1), of off input] assms iovecs_total [OF assms(1)]
  by (simp add: readIntoIovs_def)

lemma gather_store:
  "areas_apart vs a (int (length bs)) \<Longrightarrow> list_all (\<lambda>(a, n). 0 \<le> n) vs \<Longrightarrow> gather (mem_store m a bs) vs = gather m vs"
  by (induction vs) (auto simp: gather_def areas_apart_def apart_def mem_load_frame)

lemma mem_size_scatter [simp]: "mem_size (scatter m vs bs) = mem_size m"
  by (induction m vs bs rule: scatter.induct) simp_all

lemma mem_load_scatter:
  "areas_apart vs q (int k) \<Longrightarrow> list_all (\<lambda>(a, n). 0 \<le> n) vs \<Longrightarrow> mem_load (scatter m vs bs) q k = mem_load m q k"
proof (induction m vs bs rule: scatter.induct)
  case (2 m a n vs bs)
  then have "mem_load (mem_store m a (take (nat n) bs)) q k = mem_load m q k"
    by (intro mem_load_frame) (auto simp: areas_apart_def apart_def)
  then show ?case using 2 by (simp add: areas_apart_def)
qed simp

lemma iov_total_nonneg: "list_all (\<lambda>(a, n). 0 \<le> n) vs \<Longrightarrow> 0 \<le> iov_total vs"
  by (induction vs) auto

lemma gather_scatter:
  "disjoint_areas vs \<Longrightarrow> list_all (\<lambda>(a, n). 0 \<le> n) vs \<Longrightarrow> iov_total vs \<le> int (length bs) \<Longrightarrow>
   gather (scatter m vs bs) vs = take (nat (iov_total vs)) bs"
proof (induction m vs bs rule: scatter.induct)
  case (2 m a n vs bs)
  have t: "0 \<le> iov_total vs"
    using 2(3) iov_total_nonneg by simp
  have "mem_load (scatter (mem_store m a (take (nat n) bs)) vs (drop (nat n) bs)) a (nat n) =
      mem_load (mem_store m a (take (nat n) bs)) a (nat n)"
    using 2 by (intro mem_load_scatter) (auto simp: areas_apart_def apart_def)
  also have "\<dots> = take (nat n) bs"
    using mem_load_store [of m a "take (nat n) bs"] 2(4) t by (simp add: min_absorb2 nat_le_iff)
  finally show ?case
    using 2 t by (simp add: gather_def nat_add_distrib take_add)
qed (simp add: gather_def)


section \<open>Writing to a record\<close>

definition overwrite :: "byte list \<Rightarrow> int \<Rightarrow> byte list \<Rightarrow> byte list" where
  "overwrite bs off cs = take (nat off) (extended bs off) @ cs @ drop (nat off + length cs) bs"

lemma nth_extended: "i < length (extended bs n) \<Longrightarrow> extended bs n ! i = (if i < length bs then bs ! i else 0)"
  by (auto simp: extended_def nth_append)

lemma length_take_extended: "0 \<le> off \<Longrightarrow> length (take (nat off) (extended bs off)) = nat off"
  by (auto simp: extended_def)

lemma length_overwrite: "0 \<le> off \<Longrightarrow> length (overwrite bs off cs) = max (nat off + length cs) (length bs)"
  by (simp add: overwrite_def length_take_extended del: length_take)

lemma nth_overwrite:
  assumes "0 \<le> off" "i < length (overwrite bs off cs)"
  shows "overwrite bs off cs ! i =
   (if nat off \<le> i \<and> i < nat off + length cs then cs ! (i - nat off)
    else if i < length bs then bs ! i else 0)"
proof (cases "i < nat off")
  case True
  then have "overwrite bs off cs ! i = extended bs off ! i"
    using assms(1) by (simp add: overwrite_def nth_append length_take_extended del: length_take)
  also have "i < length (extended bs off)"
    using True length_take_extended [OF assms(1), of bs] by simp
  ultimately show ?thesis using True by (simp add: nth_extended)
next
  case False
  then obtain j where i: "i = nat off + j" by (metis add.commute le_add_diff_inverse2 not_less)
  show ?thesis
    using assms unfolding i length_overwrite [OF assms(1)]
    by (simp add: overwrite_def nth_append length_take_extended del: length_take) (auto simp: less_max_iff_disj)
qed

lemma overwrite_append:
  assumes "0 \<le> off"
  shows "overwrite (overwrite bs off cs) (off + int (length cs)) ds = overwrite bs off (cs @ ds)"
  using assms by (intro nth_equalityI) (auto simp: length_overwrite nth_overwrite nth_append nat_add_distrib)

lemma overwrite_read: "0 \<le> off \<Longrightarrow> js_slice (overwrite bs off cs) off (off + int (length cs)) = cs"
  by (simp add: js_slice_within length_overwrite)
    (simp add: overwrite_def length_take_extended del: length_take)

lemma take_extended:
  "0 \<le> off \<Longrightarrow> off \<le> n \<Longrightarrow> take (nat off) (extended bs n) = take (nat off) (extended bs off)"
  by (simp add: extended_def min_def nat_diff_distrib)

lemma overwrite_chunk:
  assumes "0 \<le> off"
  shows "splice (if off + int (length cs) > int (length bs) then extended bs (off + int (length cs)) else bs) off cs =
    overwrite bs off cs"
proof (cases "off + int (length cs) > int (length bs)")
  case True
  moreover have "length (extended bs (off + int (length cs))) = nat off + length cs"
    using True assms length_extended [of bs "off + int (length cs)"] by simp
  ultimately show ?thesis
    using assms take_extended [of off "off + int (length cs)" bs] by (simp add: splice_def overwrite_def)
next
  case False
  then have "take (nat off) (extended bs off) = take (nat off) bs"
    using assms by (simp add: extended_def)
  with False show ?thesis by (simp add: splice_def overwrite_def)
qed

lemma set_record_compose [simp]: "set_record r g (set_record r f s) = set_record r (g \<circ> f) s"
  by (simp add: set_record_def)

lemma record_size_set [simp]: "record_size (set_record r f s) r = int (length (r_bytes (f (recs s r))))"
  by (simp add: record_size_def set_record_def)

lemma arrayLimit_set_record [simp]: "arrayLimit (set_record r f s) = arrayLimit s"
  by (simp add: set_record_def)

lemma set_record_cong: "f (recs s r) = g (recs s r) \<Longrightarrow> set_record r f s = set_record r g s"
  by (simp add: set_record_def)

lemma write_chunks_run:
  "0 \<le> off \<Longrightarrow> off + int (length (concat chunks)) \<le> arrayLimit s \<Longrightarrow>
   write_chunks r chunks off changed s =
   (Inr (off + int (length (concat chunks)),
      changed \<or> concat chunks \<noteq> [] \<or> chunks \<noteq> [] \<and> off > record_size s r),
    if chunks = [] then s
    else set_record r (\<lambda>f. f\<lparr>r_bytes := overwrite (r_bytes f) off (concat chunks)\<rparr>) s)"
proof (induction chunks arbitrary: off changed s)
  case (Cons c chunks)
  let ?e = "off + int (length c)" and ?b = "r_bytes (recs s r)"
  define t where "t = set_record r (\<lambda>f. f\<lparr>r_bytes := overwrite (r_bytes f) off c\<rparr>) s"
  have step: "write_chunks r (c # chunks) off changed s =
      write_chunks r chunks ?e (changed \<or> ?e > record_size s r \<or> c \<noteq> []) t"
  proof (cases "?e > record_size s r")
    case True
    with Cons.prems overwrite_chunk [of off ?b c] show ?thesis
      by (simp add: Let_def run_seq new_array_def t_def record_size_def) (simp add: set_record_def)
  next
    case False
    with Cons.prems overwrite_chunk [of off ?b c] show ?thesis
      by (simp add: Let_def run_seq t_def record_size_def) (simp add: set_record_def)
  qed
  have "set_record r (\<lambda>f. f\<lparr>r_bytes := overwrite (r_bytes f) ?e (concat chunks)\<rparr>) t =
      set_record r (\<lambda>f. f\<lparr>r_bytes := overwrite (r_bytes f) off (c @ concat chunks)\<rparr>) s"
    using Cons.prems overwrite_append [of off ?b c "concat chunks"] unfolding t_def set_record_compose
    by (intro set_record_cong) simp
  moreover have "record_size t r = max ?e (record_size s r)"
    using Cons.prems by (simp add: t_def length_overwrite record_size_def) 
  ultimately show ?case
    using step Cons.prems Cons.IH [of ?e t]
    by (cases "chunks = []") (auto simp: t_def)
qed simp


lemma markOpenFileDirty_run:
  obtains t where "markOpenFileDirty h s = (Inr (), t)" "\<And>r. r_bytes (recs t r) = r_bytes (recs s r)"
    "memory t = memory s" "openFiles t = openFiles s" "offsets t = offsets s" "aborted t = aborted s"
    "packageRootFd t = packageRootFd s" "arrayLimit t = arrayLimit s"
  by (cases "d_mount h = Some Workspace"; cases "ws_writable s")
    (simp_all add: markOpenFileDirty_def markWorkspaceDirty_def run_seq set_record_def)

text \<open>The parts of a state that a transfer between a file and the memory leaves alone.\<close>

definition same_table :: "runtime \<Rightarrow> runtime \<Rightarrow> bool" where
  "same_table s t \<longleftrightarrow> openFiles t = openFiles s \<and> offsets t = offsets s \<and> aborted t = aborted s \<and>
     packageRootFd t = packageRootFd s \<and> arrayLimit t = arrayLimit s"

lemma same_table_fds: "same_table s t \<Longrightarrow> isDirectoryFd t fd = isDirectoryFd s fd"
  by (simp add: same_table_def isDirectoryFd_def)

lemma writeOpenFileAt_run:
  assumes "0 \<le> off" "off + int (length (concat chunks)) \<le> arrayLimit s"
  obtains t where "writeOpenFileAt h chunks off s = (Inr (off + int (length (concat chunks))), t)"
    "r_bytes (recs t (d_record h)) =
       (if chunks = [] then r_bytes (recs s (d_record h))
        else overwrite (r_bytes (recs s (d_record h))) off (concat chunks))"
    "\<And>r. r \<noteq> d_record h \<Longrightarrow> r_bytes (recs t r) = r_bytes (recs s r)"
    "memory t = memory s" "same_table s t"
proof -
  let ?t = "if chunks = [] then s
    else set_record (d_record h) (\<lambda>f. f\<lparr>r_bytes := overwrite (r_bytes f) off (concat chunks)\<rparr>) s"
  obtain u where u: "markOpenFileDirty h ?t = (Inr (), u)" "\<And>r. r_bytes (recs u r) = r_bytes (recs ?t r)"
    "memory u = memory ?t" "same_table ?t u"
    by (rule markOpenFileDirty_run [where h = h and s = ?t]) (simp add: same_table_def)
  have "same_table s ?t" "memory ?t = memory s" by (simp_all add: same_table_def set_record_def)
  note run = write_chunks_run [OF assms, of "d_record h" False]
  show ?thesis
  proof (cases "concat chunks \<noteq> [] \<or> chunks \<noteq> [] \<and> off > record_size s (d_record h)")
    case True
    with run u \<open>same_table s ?t\<close> show ?thesis
      by (intro that [of u]) (auto simp: writeOpenFileAt_def run_seq same_table_def set_record_def)
  next
    case False
    with run \<open>same_table s ?t\<close> show ?thesis
      by (intro that [of ?t]) (auto simp: writeOpenFileAt_def run_seq set_record_def)
  qed
qed

definition io_args :: "mem \<Rightarrow> int \<Rightarrow> (int \<times> int) list \<Rightarrow> int \<Rightarrow> bool" where
  "io_args m p vs q \<longleftrightarrow> iovecs m p vs \<and> 0 \<le> q \<and> q + 4 \<le> mem_size m \<and>
     apart q 4 p (8 * int (length vs)) \<and> areas_apart vs q 4"

lemma iovecs_nonneg: "iovecs m p vs \<Longrightarrow> list_all (\<lambda>(a, n). 0 \<le> n) vs"
  by (auto simp: list_all_iff dest: iovecs_range)

lemma length_gather: "list_all (\<lambda>(a, n). 0 \<le> n) vs \<Longrightarrow> int (length (gather m vs)) = iov_total vs"
  by (induction vs) (auto simp: gather_def)

lemma writeU32_run:
  "0 \<le> q \<Longrightarrow> q + 4 \<le> mem_size (memory s) \<Longrightarrow>
   writeU32 q v s = (Inr (), s\<lparr>memory := mem_store (memory s) q (le_bytes 4 (js_u32 v))\<rparr>)"
  by (simp add: writeU32_def set_memory_within)

lemma io_args_stored:
  assumes "io_args m p vs q" "apart a (int (length bs)) p (8 * int (length vs))"
  shows "io_args (mem_store m a bs) p vs q"
  using assms by (simp add: io_args_def iovecs_store)

lemma io_args_count:
  assumes "io_args m p vs q"
  shows "io_args (mem_store m q (le_bytes 4 v)) p vs q" "gather (mem_store m q (le_bytes 4 v)) vs = gather m vs"
  using assms io_args_stored [OF assms, of q "le_bytes 4 v"] gather_store [of vs q "le_bytes 4 v" m]
    iovecs_nonneg [of m p vs] by (auto simp: io_args_def)

definition regular_at :: "runtime \<Rightarrow> int \<Rightarrow> descr \<Rightarrow> bool" where
  "regular_at s fd h \<longleftrightarrow> \<not> aborted s \<and> openFile s fd = Some h \<and> d_kind h = RegularFile \<and>
     \<not> isDirectoryFd s fd"

lemma regular_at_same: "same_table s t \<Longrightarrow> regular_at t fd h = regular_at s fd h"
  by (simp add: regular_at_def same_table_fds) (simp add: same_table_def)

lemma fdPwrite_run:
  assumes reg: "regular_at s fd h" "canWriteFile h"
    and off: "0 \<le> off" "off + iov_total vs \<le> max_safe_integer" "off + iov_total vs \<le> arrayLimit s"
    and args: "io_args (memory s) p vs q" "k = int (length vs)"
  obtains t where "fdPwrite fd p k off q s = (Inr ERRNO_SUCCESS, t)"
    "r_bytes (recs t (d_record h)) =
       (if vs = [] then r_bytes (recs s (d_record h))
        else overwrite (r_bytes (recs s (d_record h))) off (gather (memory s) vs))"
    "\<And>r. r \<noteq> d_record h \<Longrightarrow> r_bytes (recs t r) = r_bytes (recs s r)"
    "memory t = mem_store (mem_store (memory s) q (le_bytes 4 0)) q (le_bytes 4 (js_u32 (iov_total vs)))"
    "same_table s t"
proof -
  let ?m = "mem_store (memory s) q (le_bytes 4 0)"
  let ?s = "s\<lparr>memory := ?m\<rparr>"
  have q: "0 \<le> q" "q + 4 \<le> mem_size (memory s)" and tot: "0 \<le> iov_total vs"
    using args iovecs_total by (auto simp: io_args_def)
  have iov: "iovecs (memory ?s) p vs" and same: "gather ?m vs = gather (memory s) vs"
    using io_args_count [OF args(1)] by (simp_all add: io_args_def)
  obtain cs where cs: "readIovChunks p k ?s = (Inr (cs, iov_total vs), ?s)"
    "concat cs = gather (memory s) vs" "cs = [] \<longleftrightarrow> vs = []"
    by (rule readIovChunks_gather [OF iov args(2)]) (simp add: same)
  have len: "int (length (concat cs)) = iov_total vs"
    using cs(2) length_gather iovecs_nonneg args by (auto simp: io_args_def)
  obtain t where t: "writeOpenFileAt h cs off ?s = (Inr (off + iov_total vs), t)"
    "r_bytes (recs t (d_record h)) = (if cs = [] then r_bytes (recs s (d_record h))
       else overwrite (r_bytes (recs s (d_record h))) off (gather (memory s) vs))"
    "\<And>r. r \<noteq> d_record h \<Longrightarrow> r_bytes (recs t r) = r_bytes (recs s r)" "memory t = ?m" "same_table s t"
    by (rule writeOpenFileAt_run [where off = off and chunks = cs and s = ?s and h = h])
      (use off len cs(2) in \<open>simp_all add: same_table_def\<close>)
  let ?t = "t\<lparr>memory := mem_store ?m q (le_bytes 4 (js_u32 (iov_total vs)))\<rparr>"
  have "fdPwrite fd p k off q s = (Inr ERRNO_SUCCESS, ?t)"
    using reg off q tot t(1,4) cs(1)
    by (simp add: fdPwrite_def throwIfAborted_def run_seq writeU32_run regular_at_def isDirectoryFd_def
        descr_kind_defs resolveFileSize_def resolveFileRange_def js_u32_def)
  then show ?thesis
    using t(2,3,5) cs(3) by (intro that [of ?t]) (auto simp: same_table_def)
qed


lemma fdPread_run:
  assumes reg: "regular_at s fd h" "canReadFile h"
    and off: "0 \<le> off" "off \<le> max_safe_integer" "off \<le> record_size s (d_record h)"
    and args: "io_args (memory s) p vs q" "k = int (length vs)" "areas_apart vs p (8 * k)"
  shows "fdPread fd p k off q s = (Inr ERRNO_SUCCESS, s\<lparr>memory :=
    mem_store (scatter (mem_store (memory s) q (le_bytes 4 0)) vs (drop (nat off) (r_bytes (recs s (d_record h)))))
      q (le_bytes 4 (js_u32 (min (iov_total vs) (record_size s (d_record h) - off))))\<rparr>)"
proof -
  let ?m = "mem_store (memory s) q (le_bytes 4 0)"
  let ?s = "s\<lparr>memory := ?m\<rparr>"
  have q: "0 \<le> q" "q + 4 \<le> mem_size (memory s)" and tot: "0 \<le> iov_total vs"
    using args iovecs_total by (auto simp: io_args_def)
  have iov: "iovecs (memory ?s) p vs"
    using io_args_count [OF args(1)] by (simp add: io_args_def)
  note run = readIntoIovs_scatter [OF iov args(2,3) off(1), of "r_bytes (recs s (d_record h))"]
  show ?thesis
    using reg off q run
    by (simp add: fdPread_def throwIfAborted_def run_seq writeU32_run regular_at_def isDirectoryFd_def
        descr_kind_defs resolveFileSize_def js_u32_def record_size_def)
qed

text \<open>
  C24: \<open>fd_pwrite\<close> replaces exactly the addressed bytes of the file (a gap before them is filled with zeros),
  changes no other file, no offset and no descriptor, and reports the number of bytes.
\<close>

theorem fdPwrite_replaces:
  assumes "regular_at s fd h" "canWriteFile h"
    and "0 \<le> off" "off + iov_total vs \<le> max_safe_integer" "off + iov_total vs \<le> arrayLimit s"
    and "io_args (memory s) p vs q" "vs \<noteq> []"
  shows "\<exists>t. fdPwrite fd p (int (length vs)) off q s = (Inr ERRNO_SUCCESS, t) \<and>
     (let old = r_bytes (recs s (d_record h)); new = r_bytes (recs t (d_record h)); cs = gather (memory s) vs in
        length new = max (nat off + length cs) (length old) \<and>
        (\<forall>i < length new. new ! i =
           (if nat off \<le> i \<and> i < nat off + length cs then cs ! (i - nat off)
            else if i < length old then old ! i else 0))) \<and>
     (\<forall>r. r \<noteq> d_record h \<longrightarrow> r_bytes (recs t r) = r_bytes (recs s r)) \<and>
     openFiles t = openFiles s \<and> offsets t = offsets s \<and>
     guest.read_int (memory t) q 4 = Some (js_u32 (iov_total vs))"
proof -
  obtain t where t: "fdPwrite fd p (int (length vs)) off q s = (Inr ERRNO_SUCCESS, t)"
    "r_bytes (recs t (d_record h)) = overwrite (r_bytes (recs s (d_record h))) off (gather (memory s) vs)"
    "\<And>r. r \<noteq> d_record h \<Longrightarrow> r_bytes (recs t r) = r_bytes (recs s r)"
    "memory t = mem_store (mem_store (memory s) q (le_bytes 4 0)) q (le_bytes 4 (js_u32 (iov_total vs)))"
    "same_table s t"
    using assms by (auto elim!: fdPwrite_run)
  have "guest.read_int (memory t) q 4 = Some (js_u32 (iov_total vs))"
    using assms(6) t(4) mem_load_store [of "mem_store (memory s) q (le_bytes 4 0)" q "le_bytes 4 (js_u32 (iov_total vs))"]
    by (simp add: io_args_def guest.read_int_def get_bytes_def le_value_le_bytes js_u32_def)
  then show ?thesis
    using t assms(3) by (intro exI [of _ t]) (simp add: Let_def length_overwrite nth_overwrite same_table_def)
qed

text \<open>
  C25: Positional writing and reading through iovecs are inverse: what the guest gathers from one vector of
  areas and writes at an offset of a file, it reads back into any other disjoint vector of the same
  total length, across any cut into pieces.
\<close>

theorem fdPwrite_fdPread:
  assumes "regular_at s fd h" "canWriteFile h" "canReadFile h"
    and "0 \<le> off" "off + iov_total vs \<le> max_safe_integer" "off + iov_total vs \<le> arrayLimit s"
    and "io_args (memory s) p vs q" "io_args (memory s) p' ws q'" "vs \<noteq> []"
    and "apart q 4 p' (8 * int (length ws))" "areas_apart ws p' (8 * int (length ws))"
    and "disjoint_areas ws" "iov_total ws = iov_total vs"
  shows "\<exists>t u. fdPwrite fd p (int (length vs)) off q s = (Inr ERRNO_SUCCESS, t) \<and>
     fdPread fd p' (int (length ws)) off q' t = (Inr ERRNO_SUCCESS, u) \<and>
     gather (memory u) ws = gather (memory s) vs \<and>
     guest.read_int (memory u) q' 4 = Some (js_u32 (iov_total vs))"
proof -
  obtain t where t: "fdPwrite fd p (int (length vs)) off q s = (Inr ERRNO_SUCCESS, t)"
    "r_bytes (recs t (d_record h)) = overwrite (r_bytes (recs s (d_record h))) off (gather (memory s) vs)"
    "memory t = mem_store (mem_store (memory s) q (le_bytes 4 0)) q (le_bytes 4 (js_u32 (iov_total vs)))"
    "same_table s t"
    using assms by (auto elim!: fdPwrite_run)
  have nn: "list_all (\<lambda>(a, n). 0 \<le> n) vs" "list_all (\<lambda>(a, n). 0 \<le> n) ws"
    using assms by (auto simp: io_args_def dest: iovecs_nonneg)
  have len: "int (length (gather (memory s) vs)) = iov_total vs" "0 \<le> iov_total vs"
    using length_gather nn iov_total_nonneg by auto
  have args: "io_args (memory t) p' ws q'"
    unfolding t(3) by (intro io_args_stored) (use assms in simp_all)
  have sz: "record_size t (d_record h) \<ge> off + iov_total vs"
    using t(2) len assms(4) by (simp add: record_size_def length_overwrite)
  let ?bs = "drop (nat off) (r_bytes (recs t (d_record h)))"
  let ?m = "scatter (mem_store (memory t) q' (le_bytes 4 0)) ws ?bs"
  let ?u = "t\<lparr>memory := mem_store ?m q' (le_bytes 4 (js_u32 (iov_total vs)))\<rparr>"
  have "fdPread fd p' (int (length ws)) off q' t = (Inr ERRNO_SUCCESS, ?u)"
    using fdPread_run [of t fd h off p' ws q'] assms args sz len t(4)
    by (simp add: regular_at_same min_def)
  moreover have "gather (memory ?u) ws = gather ?m ws"
    using gather_store [of ws q' "le_bytes 4 (js_u32 (iov_total vs))" ?m] nn args by (simp add: io_args_def)
  moreover have "gather ?m ws = take (nat (iov_total vs)) ?bs"
    using gather_scatter [of ws ?bs] assms nn sz len by (simp add: record_size_def)
  moreover have "take (nat (iov_total vs)) ?bs = gather (memory s) vs"
    using overwrite_read [OF assms(4), of "r_bytes (recs s (d_record h))" "gather (memory s) vs"] len sz assms(4) t(2)
    by (simp add: js_slice_within record_size_def)
  moreover have "guest.read_int (memory ?u) q' 4 = Some (js_u32 (iov_total vs))"
    using args mem_load_store [of ?m q' "le_bytes 4 (js_u32 (iov_total vs))"]
    by (simp add: io_args_def guest.read_int_def get_bytes_def le_value_le_bytes)
  ultimately show ?thesis
    by (intro exI [of _ t] exI [of _ ?u]) (simp add: t(1))
qed


definition example_io :: runtime where
  "example_io = example_host\<lparr>memory := mem_store (mem_store example_memory
     1000 (le_bytes 4 300 @ le_bytes 4 4 @ le_bytes 4 100 @ le_bytes 4 1))
     2000 (le_bytes 4 3000 @ le_bytes 4 5)\<rparr>"

theorem fdPwrite_replaces_witness:
  "\<exists>t. fdPwrite 8 1000 (int (length [(300::int, 4::int), (100, 1)])) 7 1100 example_io = (Inr ERRNO_SUCCESS, t) \<and>
     length (r_bytes (recs t 0)) = 12 \<and> r_bytes (recs t 1) = r_bytes (recs example_io 1)"
proof -
  have "regular_at example_io 8 (the (openFile example_io 8))" "canWriteFile (the (openFile example_io 8))"
    by code_simp+
  moreover have "io_args (memory example_io) 1000 [(300, 4), (100, 1)] 1100"
    unfolding io_args_def iovecs.simps guest.read_int_def by code_simp
  moreover have "7 + iov_total [(300::int, 4), (100, 1)] \<le> arrayLimit example_io" by code_simp
  moreover have "d_record (the (openFile example_io 8)) = 0" "length (r_bytes (recs example_io 0)) = 5"
    "length (gather (memory example_io) [(300, 4), (100, 1)]) = 5" by code_simp+
  ultimately show ?thesis
    using fdPwrite_replaces [of example_io 8 "the (openFile example_io 8)" 7 "[(300, 4), (100, 1)]" 1000 1100]
    by (simp add: max_safe_integer_def Let_def) blast
qed

theorem fdPwrite_fdPread_witness:
  "\<exists>t u. fdPwrite 8 1000 (int (length [(300::int, 4::int), (100, 1)])) 2 1100 example_io = (Inr ERRNO_SUCCESS, t) \<and>
     fdPread 8 2000 (int (length [(3000::int, 5::int)])) 2 2100 t = (Inr ERRNO_SUCCESS, u) \<and>
     gather (memory u) [(3000, 5)] = gather (memory example_io) [(300, 4), (100, 1)] \<and>
     guest.read_int (memory u) 2100 4 = Some (js_u32 (iov_total [(300, 4), (100, 1)]))"
proof (rule fdPwrite_fdPread [where h = "the (openFile example_io 8)"])
  show "regular_at example_io 8 (the (openFile example_io 8))" by code_simp
  show "io_args (memory example_io) 1000 [(300, 4), (100, 1)] 1100"
    unfolding io_args_def iovecs.simps guest.read_int_def by code_simp
  show "io_args (memory example_io) 2000 [(3000, 5)] 2100"
    unfolding io_args_def iovecs.simps guest.read_int_def by code_simp
qed code_simp+

section \<open>Pipes\<close>

definition pipe_at :: "runtime \<Rightarrow> int \<Rightarrow> direction \<Rightarrow> nat \<Rightarrow> descr \<Rightarrow> bool" where
  "pipe_at s fd dir pipe h \<longleftrightarrow> \<not> aborted s \<and> openFile s fd = Some h \<and> d_kind h = Pipe \<and>
     d_direction h = dir \<and> d_pipe h = pipe"

lemma fdWrite_pipe_run:
  assumes reg: "pipe_at s fd WriteEnd pipe h" "d_rights h AND RIGHT_FD_WRITE \<noteq> 0" "p_readers (pipes s pipe) > 0"
    and room: "int (length (p_bytes (pipes s pipe))) + iov_total vs \<le> PIPE_BUFFER_LIMIT"
    and args: "io_args (memory s) p vs q" "k = int (length vs)"
  shows "fdWrite fd p k q s = (Inr ERRNO_SUCCESS,
    set_pipe pipe (\<lambda>b. b\<lparr>p_bytes := p_bytes b @ gather (memory s) vs\<rparr>)
      (s\<lparr>memory := mem_store (mem_store (memory s) q (le_bytes 4 0)) q (le_bytes 4 (js_u32 (iov_total vs)))\<rparr>))"
proof -
  let ?m = "mem_store (memory s) q (le_bytes 4 0)"
  let ?s = "s\<lparr>memory := ?m\<rparr>"
  have q: "0 \<le> q" "q + 4 \<le> mem_size (memory s)" using args by (auto simp: io_args_def)
  have iov: "iovecs (memory ?s) p vs" and same: "gather ?m vs = gather (memory s) vs"
    using io_args_count [OF args(1)] by (simp_all add: io_args_def)
  obtain cs where cs: "readIovChunks p k ?s = (Inr (cs, iov_total vs), ?s)"
    "concat cs = gather (memory s) vs"
    by (rule readIovChunks_gather [OF iov args(2)]) (simp add: same)
  have "int (length (concat cs)) = iov_total vs"
    using cs(2) length_gather iovecs_nonneg args by (auto simp: io_args_def)
  then have "pipe_append bs cs (iov_total vs) = bs @ gather (memory s) vs" for bs
    using cs(2) by (simp add: pipe_append_def extended_def)
  with reg room q cs(1) show ?thesis
    by (simp add: fdWrite_def fdWritePipe_def throwIfAborted_def run_seq writeU32_run pipe_at_def
        descr_kind_defs js_u32_def set_pipe_def)
qed

lemma fdRead_pipe_run:
  assumes reg: "pipe_at s fd ReadEnd pipe h" "d_rights h AND RIGHT_FD_READ \<noteq> 0"
    and some: "p_bytes (pipes s pipe) \<noteq> []"
    and args: "io_args (memory s) p vs q" "k = int (length vs)" "areas_apart vs p (8 * k)"
  shows "fdRead fd p k q s = (Inr ERRNO_SUCCESS,
    set_pipe pipe (\<lambda>b. b\<lparr>p_bytes := drop (nat (iov_total vs)) (p_bytes b)\<rparr>)
      (s\<lparr>memory := mem_store (scatter (mem_store (memory s) q (le_bytes 4 0)) vs (p_bytes (pipes s pipe)))
         q (le_bytes 4 (js_u32 (min (iov_total vs) (int (length (p_bytes (pipes s pipe)))))))\<rparr>))"
proof -
  let ?m = "mem_store (memory s) q (le_bytes 4 0)" and ?bs = "p_bytes (pipes s pipe)"
  let ?s = "s\<lparr>memory := ?m\<rparr>"
  have q: "0 \<le> q" "q + 4 \<le> mem_size (memory s)" and tot: "0 \<le> iov_total vs"
    using args iovecs_total by (auto simp: io_args_def)
  have iov: "iovecs (memory ?s) p vs"
    using io_args_count [OF args(1)] by (simp add: io_args_def)
  note run = readIntoIovs_scatter [OF iov args(2,3), of 0 ?bs]
  have "js_slice ?bs (min (iov_total vs) (int (length ?bs))) (int (length ?bs)) = drop (nat (iov_total vs)) ?bs"
    using tot by (simp add: js_slice_within nat_diff_distrib min_def)
  with reg some q run show ?thesis
    by (simp add: fdRead_def fdReadPipe_def throwIfAborted_def run_seq writeU32_run pipe_at_def
        descr_kind_defs js_u32_def set_pipe_def Let_def)
qed

text \<open>
  C26: A pipe is a first-in first-out queue: after a write at one end and a read at the other, the bytes
  the reader got followed by what is left in the pipe are the old content followed by the bytes the
  writer gave, whatever vectors the two sides use.
\<close>

theorem pipe_fifo:
  assumes "pipe_at s w WriteEnd pipe hw" "d_rights hw AND RIGHT_FD_WRITE \<noteq> 0"
    and "pipe_at s r ReadEnd pipe hr" "d_rights hr AND RIGHT_FD_READ \<noteq> 0" "p_readers (pipes s pipe) > 0"
    and "int (length (p_bytes (pipes s pipe))) + iov_total vs \<le> PIPE_BUFFER_LIMIT"
    and "io_args (memory s) p vs q" "io_args (memory s) p' ws q'"
    and "apart q 4 p' (8 * int (length ws))" "areas_apart ws p' (8 * int (length ws))" "disjoint_areas ws"
    and "0 < iov_total vs" "iov_total ws \<le> int (length (p_bytes (pipes s pipe))) + iov_total vs"
  shows "\<exists>t u. fdWrite w p (int (length vs)) q s = (Inr ERRNO_SUCCESS, t) \<and>
     fdRead r p' (int (length ws)) q' t = (Inr ERRNO_SUCCESS, u) \<and>
     gather (memory u) ws @ p_bytes (pipes u pipe) = p_bytes (pipes s pipe) @ gather (memory s) vs"
proof -
  let ?bs = "p_bytes (pipes s pipe) @ gather (memory s) vs"
  let ?t = "set_pipe pipe (\<lambda>b. b\<lparr>p_bytes := p_bytes b @ gather (memory s) vs\<rparr>)
      (s\<lparr>memory := mem_store (mem_store (memory s) q (le_bytes 4 0)) q (le_bytes 4 (js_u32 (iov_total vs)))\<rparr>)"
  have t: "fdWrite w p (int (length vs)) q s = (Inr ERRNO_SUCCESS, ?t)"
    using assms by (intro fdWrite_pipe_run) auto
  have nn: "list_all (\<lambda>(a, n). 0 \<le> n) vs" "list_all (\<lambda>(a, n). 0 \<le> n) ws"
    using assms by (auto simp: io_args_def dest: iovecs_nonneg)
  have len: "int (length (gather (memory s) vs)) = iov_total vs" using length_gather nn by auto
  have args: "io_args (memory ?t) p' ws q'"
    using assms(8,9) by (simp add: set_pipe_def io_args_stored)
  have bytes: "p_bytes (pipes ?t pipe) = ?bs" by (simp add: set_pipe_def)
  let ?m = "scatter (mem_store (memory ?t) q' (le_bytes 4 0)) ws ?bs"
  let ?c = "le_bytes 4 (js_u32 (min (iov_total ws) (int (length ?bs))))"
  let ?u = "set_pipe pipe (\<lambda>b. b\<lparr>p_bytes := drop (nat (iov_total ws)) (p_bytes b)\<rparr>) (?t\<lparr>memory := mem_store ?m q' ?c\<rparr>)"
  have "fdRead r p' (int (length ws)) q' ?t = (Inr ERRNO_SUCCESS, ?u)"
    using fdRead_pipe_run [of ?t r pipe hr p' ws q'] assms(3,4,10,12) args bytes len
    by (simp add: pipe_at_def set_pipe_def) force
  moreover have "gather (memory ?u) ws = gather ?m ws"
    using gather_store [of ws q' ?c ?m] nn args by (simp add: io_args_def set_pipe_def)
  moreover have "gather ?m ws = take (nat (iov_total ws)) ?bs"
    using gather_scatter [of ws ?bs] assms nn len by simp
  moreover have "p_bytes (pipes ?u pipe) = drop (nat (iov_total ws)) ?bs"
    using bytes by (simp add: set_pipe_def)
  ultimately show ?thesis
    by (intro exI [of _ ?t] exI [of _ ?u]) (simp only: t append_take_drop_id simp_thms)
qed


definition example_pipe :: runtime where
  "example_pipe = example_io
     \<lparr>openFiles := openFiles example_io @
        [(9, pipe_descr ReadEnd 3 PIPE_READ_RIGHTS False), (10, pipe_descr WriteEnd 3 PIPE_WRITE_RIGHTS True)],
      pipes := (\<lambda>p. \<lparr>p_bytes = map byte_of_char ''ab'', p_readers = 1, p_writers = 1\<rparr>)\<rparr>"

theorem pipe_fifo_witness:
  "\<exists>t u. fdWrite 10 1000 (int (length [(300::int, 4::int), (100, 1)])) 1100 example_pipe = (Inr ERRNO_SUCCESS, t) \<and>
     fdRead 9 2000 (int (length [(3000::int, 5::int)])) 2100 t = (Inr ERRNO_SUCCESS, u) \<and>
     gather (memory u) [(3000, 5)] @ p_bytes (pipes u 3) =
     p_bytes (pipes example_pipe 3) @ gather (memory example_pipe) [(300, 4), (100, 1)]"
proof (rule pipe_fifo [where hw = "the (openFile example_pipe 10)" and hr = "the (openFile example_pipe 9)"])
  show "io_args (memory example_pipe) 1000 [(300, 4), (100, 1)] 1100"
    unfolding io_args_def iovecs.simps guest.read_int_def by code_simp
  show "io_args (memory example_pipe) 2000 [(3000, 5)] 2100"
    unfolding io_args_def iovecs.simps guest.read_int_def by code_simp
qed code_simp+

section \<open>Offsets\<close>

lemma readback: "0 \<le> q \<Longrightarrow> q + int n \<le> mem_size m \<Longrightarrow>
  guest.read_int (mem_store m q (le_bytes n v)) q n = Some (v mod 256 ^ n)"
  using mem_load_store [of m q "le_bytes n v"] by (simp add: guest.read_int_def get_bytes_def le_value_le_bytes)

lemma set_memory_run:
  "set_memory q bs s = (if 0 \<le> q \<and> q + int (length bs) \<le> mem_size (memory s)
     then (Inr (), s\<lparr>memory := mem_store (memory s) q bs\<rparr>) else (Inl RangeError, s))"
  by (simp add: set_memory_def set_bytes_def)

lemma set_offset_parts [simp]:
  "memory (set_offset fd h v s) = memory s" "aborted (set_offset fd h v s) = aborted s"
  "recs (set_offset fd h v s) = recs s"
  by (simp_all add: set_offset_def set_descr_def split: offset_field.split)

lemma set_offset_read:
  assumes "openFile s fd = Some h"
  obtains h' where "openFile (set_offset fd h v s) fd = Some h'" "offset_of (set_offset fd h v s) h' = v"
    "d_kind h' = d_kind h"
  using assms
  by (cases "d_offset h") (auto simp: set_offset_def set_descr_def offset_of_def)

text \<open>
  \<open>fd_seek\<close> and \<open>fd_tell\<close> agree: after a successful seek the position it reported is the position that
  \<open>fd_tell\<close> reports, and it is the offset added to the start, the old position or the end of the file.
\<close>

theorem fdSeek_fdTell:
  assumes "fdSeek fd offset whence q s = (Inr ERRNO_SUCCESS, t)" "openFile s fd = Some h"
    and "0 \<le> q'" "q' + 8 \<le> mem_size (memory s)"
  defines "pos \<equiv> (if whence = 0 then 0 else if whence = 1 then offset_of s h else record_size s (d_record h)) + offset"
  shows "\<exists>u. 0 \<le> pos \<and> pos \<le> max_safe_integer \<and> guest.read_int (memory t) q 8 = Some pos \<and>
     fdTell fd q' t = (Inr ERRNO_SUCCESS, u) \<and> guest.read_int (memory u) q' 8 = Some pos"
proof -
  have run: "\<not> aborted s" "\<not> isOpenPipe (Some h) \<and> \<not> isOpenStdio (Some h)" "0 \<le> pos" "pos \<le> max_safe_integer"
    "0 \<le> q" "q + 8 \<le> mem_size (memory s)"
    "t = (set_offset fd h pos s)\<lparr>memory := mem_store (memory s) q (le_bytes 8 pos)\<rparr>"
    using assms(1,2)
    by (auto simp: fdSeek_def throwIfAborted_def run_seq run_bind resolveFileSeekOffset_def Let_def pos_def
        writeU64_def set_memory_run split: if_splits)
  obtain h' where h': "openFile (set_offset fd h pos s) fd = Some h'" "offset_of (set_offset fd h pos s) h' = pos"
    "d_kind h' = d_kind h"
    by (rule set_offset_read [OF assms(2)])
  let ?u = "t\<lparr>memory := mem_store (memory t) q' (le_bytes 8 pos)\<rparr>"
  have "fdTell fd q' t = (Inr ERRNO_SUCCESS, ?u)"
    using run h' assms(3,4)
    by (simp add: fdTell_def throwIfAborted_def run_seq descr_kind_defs offset_of_def writeU64_def set_memory_run
        cong: offset_field.case_cong)
  moreover have "pos mod 256 ^ 8 = pos"
    using run(3,4) by (simp add: max_safe_integer_def)
  ultimately show ?thesis
    using run assms(3,4) by (intro exI [of _ ?u]) (simp add: readback)
qed


theorem fdSeek_fdTell_witness:
  "\<exists>u. let t = snd (fdSeek 8 (-2) 2 500 example_host) in
     guest.read_int (memory t) 500 8 = Some 3 \<and>
     fdTell 8 508 t = (Inr ERRNO_SUCCESS, u) \<and> guest.read_int (memory u) 508 8 = Some 3"
proof -
  let ?r = "fdSeek 8 (-2) 2 500 example_host" and ?h = "the (openFile example_host 8)"
  have "fst ?r = Inr ERRNO_SUCCESS" by code_simp
  then have ok: "?r = (Inr ERRNO_SUCCESS, snd ?r)" by (simp add: prod_eq_iff)
  have len: "record_size example_host (d_record ?h) = 5" by code_simp
  have h: "openFile example_host 8 = Some ?h" and sz: "508 + 8 \<le> mem_size (memory example_host)" by code_simp+
  from fdSeek_fdTell [OF ok h _ sz] len show ?thesis by (simp add: Let_def)
qed

section \<open>Duplication\<close>

lemma fdStat_None:
  "fdStat s fd = None \<longleftrightarrow> openFile s fd = None \<and> stdioRights fd = None \<and> fd \<noteq> WORKSPACE_FD \<and> fd \<noteq> TMP_FD \<and>
     Some fd \<noteq> packageRootFd s"
  by (auto simp: fdStat_def split: option.split)

lemma first_free_fd_cong:
  assumes "\<And>fd. fdStat t fd = None \<longleftrightarrow> fdStat s fd = None"
  shows "first_free_fd t k = first_free_fd s k"
  using first_free_fd_spec [of t k] first_free_fd_spec [of s k] assms
  by (metis linorder_neq_iff)

lemma duplicate_run:
  assumes "openFile s fd = Some f"
  obtains s1 h where "duplicateOpenFileDescriptor fd f s = (Inr h, s1)" "openFile s1 fd = Some h"
    "offset_of s1 h = offset_of s f" "d_kind h = d_kind f" "aborted s1 = aborted s" "memory s1 = memory s"
    "\<And>j. fdStat s1 j = None \<longleftrightarrow> fdStat s j = None" "d_offset f \<noteq> NoOffset \<Longrightarrow> \<exists>r. d_offset h = Shared r"
proof (cases "d_offset f")
  case (Own v)
  let ?h = "f\<lparr>d_offset := Shared (nextRef s)\<rparr>"
  let ?s = "(set_descr fd ?h s)\<lparr>offsets := (offsets s)(nextRef s := v), nextRef := nextRef s + 1\<rparr>"
  have run: "duplicateOpenFileDescriptor fd f s = (Inr ?h, ?s)"
    by (simp add: duplicateOpenFileDescriptor_def Own Let_def run_seq set_descr_def)
  have known: "fdStat ?s j = None \<longleftrightarrow> fdStat s j = None" for j
    using assms by (auto simp: fdStat_None set_descr_def)
  show ?thesis
    by (rule that [OF run]) (use known Own in \<open>simp_all add: set_descr_def offset_of_def\<close>)
qed (use assms that [of f s] in \<open>simp_all add: duplicateOpenFileDescriptor_def\<close>)

text \<open>
  A duplicate gets the least free number from the requested one on, and shares the offset with the
  original: both numbers name the same descriptor, a seek through the duplicate moves the original.
\<close>

theorem duplicateFd_shares:
  assumes "duplicateFd fd minFd flags q s = (Inr ERRNO_SUCCESS, t)" "openFile s fd = Some f"
    and "d_offset f \<noteq> NoOffset"
  defines "k \<equiv> max FIRST_FILE_FD (js_u32 minFd)"
  shows "\<exists>n h. k \<le> n \<and> fdStat s n = None \<and> (\<forall>j. k \<le> j \<and> j < n \<longrightarrow> fdStat s j \<noteq> None) \<and>
     guest.read_int (memory t) q 4 = Some (js_u32 n) \<and>
     openFile t fd = Some h \<and> openFile t n = Some h \<and> offset_of t h = offset_of s f \<and>
     (\<forall>offset whence p u. fdSeek n offset whence p t = (Inr ERRNO_SUCCESS, u) \<longrightarrow> openFile u fd = openFile u n)"
proof -
  obtain s1 h where dup: "duplicateOpenFileDescriptor fd f s = (Inr h, s1)" "openFile s1 fd = Some h"
    "offset_of s1 h = offset_of s f" "d_kind h = d_kind f" "aborted s1 = aborted s" "memory s1 = memory s"
    "\<And>j. fdStat s1 j = None \<longleftrightarrow> fdStat s j = None" "d_offset f \<noteq> NoOffset \<Longrightarrow> \<exists>r. d_offset h = Shared r"
    by (rule duplicate_run [OF assms(2)]) (rule that)
  let ?n = "first_free_fd s1 k"
  let ?t = "set_fd_flags ?n flags (set_descr ?n h (retainOpenFile h (allocated ?n s1)))"
  have mem: "memory ?t = memory s"
    by (simp add: set_fd_flags_def set_descr_def retainOpenFile_def allocated_def set_pipe_def dup)
  have t: "0 \<le> q" "q + 4 \<le> mem_size (memory s)"
    "t = ?t\<lparr>memory := mem_store (memory s) q (le_bytes 4 (js_u32 ?n))\<rparr>"
    using assms(1,2) dup(1) mem
    by (auto simp: duplicateFd_def throwIfAborted_def run_seq run_bind duplicateOpenFileForFd_def
        allocateDynamicFileFd_def allocated_def [symmetric] Let_def writeU32_def set_memory_run k_def
        split: if_splits)
  have spec: "k \<le> ?n" "fdStat s ?n = None" "\<forall>j. k \<le> j \<and> j < ?n \<longrightarrow> fdStat s j \<noteq> None"
    using first_free_fd_spec [of s1 k] dup(7) by auto
  then have "?n \<noteq> fd" using assms(2) by (auto simp: fdStat_None)
  then have files: "openFile t fd = Some h" "openFile t ?n = Some h" "offset_of t h = offset_of s f"
    using t(3) dup by (auto simp: set_fd_flags_def set_descr_def retainOpenFile_def allocated_def set_pipe_def
        offset_of_def cong: offset_field.case_cong)
  have moved: "openFile u fd = openFile u ?n" if seek: "fdSeek ?n offset whence p t = (Inr ERRNO_SUCCESS, u)" for offset whence p u
  proof -
    obtain r where "d_offset h = Shared r" using dup(8) assms(3) by auto
    then have "openFiles u = openFiles t"
      using seek files(2)
      by (auto simp: fdSeek_def throwIfAborted_def run_seq run_bind resolveFileSeekOffset_def Let_def
        writeU64_def set_memory_run set_offset_def split: if_splits)
    then show ?thesis using files by simp
  qed
  show ?thesis
    using spec files moved t readback [of q 4 "memory s" "js_u32 ?n"] by (intro exI [of _ ?n] exI [of _ h]) simp
qed

theorem duplicateFd_shares_witness:
  "let t = snd (duplicateFd 8 5 0 500 example_host) in
   \<exists>n h. 5 \<le> n \<and> fdStat example_host n = None \<and>
     guest.read_int (memory t) 500 4 = Some (js_u32 n) \<and> openFile t 8 = Some h \<and> openFile t n = Some h"
proof -
  let ?r = "duplicateFd 8 5 0 500 example_host" and ?h = "the (openFile example_host 8)"
  have "fst ?r = Inr ERRNO_SUCCESS" by code_simp
  then have ok: "?r = (Inr ERRNO_SUCCESS, snd ?r)" by (simp add: prod_eq_iff)
  have h: "openFile example_host 8 = Some ?h" by code_simp
  have "d_offset ?h \<noteq> NoOffset" by code_simp
  from duplicateFd_shares [OF ok h this] show ?thesis by (simp add: Let_def js_u32_def) blast
qed

section \<open>Closing and renumbering\<close>

lemma closeOpenFile_parts [simp]:
  "openFiles (closeOpenFile h s) = openFiles s" "fdFlagsExt (closeOpenFile h s) = fdFlagsExt s"
  "aborted (closeOpenFile h s) = aborted s" "memory (closeOpenFile h s) = memory s"
  "nextFileFd (closeOpenFile h s) = nextFileFd s" "recs (closeOpenFile h s) = recs s"
  by (simp_all add: closeOpenFile_def set_pipe_def)

text \<open>
  A successful \<open>fd_close\<close> frees the number and its flags, leaves every other number as it is, and a
  second close of the same number is refused with \<open>EBADF\<close>.
\<close>

theorem fdClose_closes:
  assumes "fdClose fd s = (Inr ERRNO_SUCCESS, t)"
  shows "openFile s fd \<noteq> None \<and> openFile t fd = None \<and> map_of (fdFlagsExt t) fd = None \<and>
     (\<forall>j. j \<noteq> fd \<longrightarrow> openFile t j = openFile s j \<and> map_of (fdFlagsExt t) j = map_of (fdFlagsExt s) j) \<and>
     fdClose fd t = (Inr ERRNO_BADF, t)"
  using assms by (auto simp: fdClose_def throwIfAborted_def run_seq split: if_splits option.splits)

theorem fdClose_closes_witness:
  "let t = snd (fdClose 8 example_host) in
   openFile t 8 = None \<and> openFile t 7 = openFile example_host 7 \<and> fdClose 8 t = (Inr ERRNO_BADF, t)"
proof -
  let ?r = "fdClose 8 example_host"
  have "fst ?r = Inr ERRNO_SUCCESS" by code_simp
  then have ok: "?r = (Inr ERRNO_SUCCESS, snd ?r)" by (simp add: prod_eq_iff)
  from fdClose_closes [OF ok] show ?thesis by (simp add: Let_def)
qed

text \<open>
  A successful \<open>fd_renumber\<close> moves the descriptor and its flags to the target, frees the source and
  touches no other number; a target in the dynamic range stays below the next number to hand out.
\<close>

theorem fdRenumber_moves:
  assumes "fdRenumber fd to s = (Inr ERRNO_SUCCESS, t)" "fd \<noteq> to"
  shows "\<exists>h. openFile s fd = Some h \<and> openFile t to = Some h \<and> openFile t fd = None \<and>
     map_of (fdFlagsExt t) to = map_of (fdFlagsExt s) fd \<and> map_of (fdFlagsExt t) fd = None \<and>
     (\<forall>j. j \<noteq> fd \<and> j \<noteq> to \<longrightarrow> openFile t j = openFile s j \<and> map_of (fdFlagsExt t) j = map_of (fdFlagsExt s) j) \<and>
     (isStdioFd to \<or> isDynamicFileFdNumber to) \<and> (isDynamicFileFdNumber to \<longrightarrow> to < nextFileFd t)"
proof -
  obtain h where h: "openFile s fd = Some h"
    using assms(1) by (auto simp: fdRenumber_def throwIfAborted_def run_seq split: if_splits option.splits)
  define c where "c = close_replaced to s"
  have parts: "openFiles c = openFiles s" "fdFlagsExt c = fdFlagsExt s" "nextFileFd c = nextFileFd s"
    by (simp_all add: c_def close_replaced_def split: option.split)
  define cleared where "cleared = AList.delete to (AList.delete fd (fdFlagsExt s))"
  let ?u = "c\<lparr>openFiles := AList.update to h (AList.delete fd (openFiles s)),
    fdFlagsExt := (case map_of (fdFlagsExt s) fd of None \<Rightarrow> cleared | Some f \<Rightarrow> AList.update to f cleared)\<rparr>"
  have t: "t = raise_next_fd to ?u" "isStdioFd to \<or> isDynamicFileFdNumber to"
    using assms h by (auto simp: fdRenumber_def throwIfAborted_def run_seq Let_def parts cleared_def
        simp flip: c_def split: if_splits cong: option.case_cong)
  have up: "openFiles t = openFiles ?u" "fdFlagsExt t = fdFlagsExt ?u" "isDynamicFileFdNumber to \<longrightarrow> to < nextFileFd t"
    by (simp_all add: t raise_next_fd_def)
  show ?thesis
    using assms(2) t(2) up(3) h
    by (cases "map_of (fdFlagsExt s) fd") (simp_all add: up(1,2) cleared_def)
qed

theorem fdRenumber_moves_witness:
  "let t = snd (fdRenumber 8 12 example_host) in
   openFile t 12 = openFile example_host 8 \<and> openFile t 8 = None \<and> 12 < nextFileFd t"
proof -
  let ?r = "fdRenumber 8 12 example_host"
  have "fst ?r = Inr ERRNO_SUCCESS" by code_simp
  then have ok: "?r = (Inr ERRNO_SUCCESS, snd ?r)" by (simp add: prod_eq_iff)
  from fdRenumber_moves [OF ok] show ?thesis
    by (auto simp: Let_def isDynamicFileFdNumber_def)
qed

section \<open>Sizes\<close>

lemma resize_result:
  assumes "resizeOpenFile h sz s = (Inr b, t)" "0 \<le> sz"
  shows "r_bytes (recs t (d_record h)) = extended (take (nat sz) (r_bytes (recs s (d_record h)))) sz"
    and "r \<noteq> d_record h \<Longrightarrow> recs t r = recs s r"
  using assms
  by (auto simp: resizeOpenFile_def record_size_def new_array_def run_seq set_record_def extended_def split: if_splits)

lemma dirty_bytes: "r_bytes (recs (snd (markOpenFileDirty h s)) r) = r_bytes (recs s r)"
  by (rule markOpenFileDirty_run [where h = h and s = s]) simp

lemma resize_and_mark:
  assumes "bindM (resizeOpenFile h sz) (\<lambda>resized.
      seqM (if resized then markOpenFileDirty h else ret ()) (ret ERRNO_SUCCESS)) s = (Inr e, t)" "0 \<le> sz"
  shows "r_bytes (recs t (d_record h)) = extended (take (nat sz) (r_bytes (recs s (d_record h)))) sz"
    and "r \<noteq> d_record h \<Longrightarrow> r_bytes (recs t r) = r_bytes (recs s r)"
proof -
  obtain b t' where r: "resizeOpenFile h sz s = (Inr b, t')" "t = t' \<or> t = snd (markOpenFileDirty h t')"
    using assms by (auto simp: run_bind run_seq split: if_splits prod.splits sum.splits)
  show "r_bytes (recs t (d_record h)) = extended (take (nat sz) (r_bytes (recs s (d_record h)))) sz"
    using r(2) resize_result(1) [OF r(1) assms(2)] dirty_bytes by auto
  show "r \<noteq> d_record h \<Longrightarrow> r_bytes (recs t r) = r_bytes (recs s r)"
    using r(2) resize_result(2) [OF r(1) assms(2)] dirty_bytes by auto
qed

lemma resized_bytes:
  assumes "0 \<le> sz"
  shows "int (length (extended (take (nat sz) bs) sz)) = sz"
    and "i < nat sz \<Longrightarrow> extended (take (nat sz) bs) sz ! i = (if i < length bs then bs ! i else 0)"
  using assms by (auto simp: extended_def nth_append min_def)

text \<open>
  \<open>fd_filestat_set_size\<close> needs the right, sets exactly the requested size, keeps the common prefix,
  fills with zeros and changes no other file.
\<close>

theorem fdFilestatSetSize_resizes:
  assumes "fdFilestatSetSize fd sz s = (Inr ERRNO_SUCCESS, t)" "openFile s fd = Some h"
  defines "old \<equiv> r_bytes (recs s (d_record h))" and "new \<equiv> r_bytes (recs t (d_record h))"
  shows "canResizeFile h \<and> int (length new) = sz \<and>
     (\<forall>i < length new. new ! i = (if i < length old then old ! i else 0)) \<and>
     (\<forall>r. r \<noteq> d_record h \<longrightarrow> r_bytes (recs t r) = r_bytes (recs s r))"
proof -
  have "canResizeFile h" and sz: "0 \<le> sz"
    and run: "bindM (resizeOpenFile h sz) (\<lambda>resized.
      seqM (if resized then markOpenFileDirty h else ret ()) (ret ERRNO_SUCCESS)) s = (Inr ERRNO_SUCCESS, t)"
    using assms(1,2) by (auto simp: fdFilestatSetSize_def throwIfAborted_def run_seq resolveFileSize_def
        split: if_splits)
  then show ?thesis
    using resize_and_mark [OF run sz] resized_bytes(1) [OF sz, of old] resized_bytes(2) [OF sz, where bs = old] by (auto simp: new_def old_def)
qed

text \<open>
  \<open>fd_allocate\<close> never shrinks a file: it ends at the larger of the old size and the end of the
  requested range, keeps every old byte and fills with zeros.
\<close>

theorem fdAllocate_extends:
  assumes "fdAllocate fd offset len s = (Inr ERRNO_SUCCESS, t)" "openFile s fd = Some h"
  defines "old \<equiv> r_bytes (recs s (d_record h))" and "new \<equiv> r_bytes (recs t (d_record h))"
  shows "canAllocateFile h \<and> 0 \<le> offset \<and> 0 \<le> len \<and>
     int (length new) = max (int (length old)) (if len = 0 then 0 else offset + len) \<and>
     (\<forall>i < length new. new ! i = (if i < length old then old ! i else 0)) \<and>
     (\<forall>r. r \<noteq> d_record h \<longrightarrow> r_bytes (recs t r) = r_bytes (recs s r))"
proof -
  have ok: "canAllocateFile h" "0 \<le> offset" "0 \<le> len"
    using assms(1,2) by (auto simp: fdAllocate_def throwIfAborted_def run_seq resolveFileAllocation_def
        resolveFileRange_def split: if_splits)
  show ?thesis
  proof (cases "len \<noteq> 0 \<and> offset + len > int (length old)")
    case True
    then have sz: "0 \<le> offset + len"
      and run: "bindM (resizeOpenFile h (offset + len)) (\<lambda>resized.
        seqM (if resized then markOpenFileDirty h else ret ()) (ret ERRNO_SUCCESS)) s = (Inr ERRNO_SUCCESS, t)"
      using assms(1,2) ok by (auto simp: fdAllocate_def throwIfAborted_def run_seq resolveFileAllocation_def
          resolveFileRange_def record_size_def old_def split: if_splits)
    then show ?thesis
      using ok True resize_and_mark [OF run sz] resized_bytes(1) [OF sz, of old] resized_bytes(2) [OF sz, where bs = old] by (auto simp: new_def old_def)
  next
    case False
    then have "t = s"
      using assms(1,2) ok by (auto simp: fdAllocate_def throwIfAborted_def run_seq resolveFileAllocation_def
          resolveFileRange_def record_size_def old_def split: if_splits)
    with ok False show ?thesis by (auto simp: new_def old_def)
  qed
qed


theorem fdFilestatSetSize_resizes_witness:
  "let t = snd (fdFilestatSetSize 8 7 example_host) in
   r_bytes (recs t 0) ! 4 = byte_of_char CHR ''o'' \<and> r_bytes (recs t 0) ! 6 = 0 \<and> length (r_bytes (recs t 0)) = 7"
proof -
  let ?r = "fdFilestatSetSize 8 7 example_host" and ?h = "the (openFile example_host 8)"
  have "fst ?r = Inr ERRNO_SUCCESS" by code_simp
  then have ok: "?r = (Inr ERRNO_SUCCESS, snd ?r)" by (simp add: prod_eq_iff)
  have h: "openFile example_host 8 = Some ?h" by code_simp
  have "d_record ?h = 0" "r_bytes (recs example_host 0) = map byte_of_char ''hello''" by code_simp+
  with fdFilestatSetSize_resizes [OF ok h] show ?thesis by (simp add: Let_def)
qed

theorem fdAllocate_extends_witness:
  "let t = snd (fdAllocate 8 2 6 example_host) in
   r_bytes (recs t 0) ! 4 = byte_of_char CHR ''o'' \<and> r_bytes (recs t 0) ! 7 = 0 \<and> length (r_bytes (recs t 0)) = 8"
proof -
  let ?r = "fdAllocate 8 2 6 example_host" and ?h = "the (openFile example_host 8)"
  have "fst ?r = Inr ERRNO_SUCCESS" by code_simp
  then have ok: "?r = (Inr ERRNO_SUCCESS, snd ?r)" by (simp add: prod_eq_iff)
  have h: "openFile example_host 8 = Some ?h" by code_simp
  have "d_record ?h = 0" "r_bytes (recs example_host 0) = map byte_of_char ''hello''" by code_simp+
  with fdAllocate_extends [OF ok h] show ?thesis by (simp add: Let_def)
qed

section \<open>Listing a directory\<close>

lemma listing_bytes_append:
  "listing_bytes (es @ fs) i = listing_bytes es i @ listing_bytes fs (i + int (length es))"
  by (induction es arbitrary: i) (simp_all add: add_ac)

lemma listing_bytes_from:
  "0 \<le> k \<Longrightarrow> listing_bytes es 0 = listing_bytes (take (nat k) es) 0 @ listing_bytes (drop (nat k) es) k"
proof (cases "nat k \<le> length es")
  case True
  assume "0 \<le> k"
  with True show ?thesis
    using listing_bytes_append [of "take (nat k) es" "drop (nat k) es" 0] by simp
qed simp

text \<open>
  C30: One call of \<open>fd_readdir\<close> on an open directory with a cookie \<open>k\<close>, a buffer and a place for the
  count inside the memory that do not overlap: the buffer gets the longest prefix that fits of the
  listing from entry \<open>k\<close> on, the count says how long it is, and nothing else of the memory or of the
  host changes. The entries before \<open>k\<close> and the page make up the listing, so the cookie a record
  carries (the number of the next entry) continues it.
\<close>

theorem fdReaddir_page:
  assumes "\<not> aborted s" "directoryForFd s fd = Some entries" "0 \<le> k" "k \<le> max_safe_integer"
    and "0 \<le> buf" "0 \<le> len" "len < 2 ^ 32" "buf + len \<le> mem_size (memory s)"
    and "0 \<le> q" "q + 4 \<le> mem_size (memory s)" "apart buf len q 4"
  shows "\<exists>t. fdReaddir fd buf len k q s = (Inr ERRNO_SUCCESS, t) \<and>
    (let page = listing_bytes (drop (nat k) entries) k; n = min (length page) (nat len) in
     listing_bytes entries 0 = listing_bytes (take (nat k) entries) 0 @ page \<and>
     mem_load (memory t) buf n = take n page \<and> guest.read_int (memory t) q 4 = Some (int n) \<and>
     (\<forall>a j. apart a (int j) buf (int n) \<and> apart a (int j) q 4 \<longrightarrow> mem_load (memory t) a j = mem_load (memory s) a j) \<and>
     t = s\<lparr>memory := memory t\<rparr>)"
proof -
  let ?page = "listing_bytes (drop (nat k) entries) k" and ?old = "mem_load (memory s) buf (nat len)"
  define n where "n = min (length ?page) (nat len)"
  define out where "out = take n ?page @ drop n ?old"
  define m where "m = mem_store (memory s) buf out"
  define t where "t = s\<lparr>memory := mem_store m q (le_bytes 4 (int n))\<rparr>"
  have len: "length out = nat len" by (auto simp: out_def n_def)
  have n: "int n < 2 ^ 32" "int n \<le> len" using assms(6,7) by (auto simp: n_def)
  have fill: "readdir_fill (drop (nat k) entries) k ?old 0 = (n, out)"
    using readdir_fill_page [of "drop (nat k) entries" k ?old] by (auto simp: out_def n_def min_def)
  have a: "js_index (mem_size (memory s)) buf = buf" "js_index (mem_size (memory s)) (buf + len) = buf + len"
    "js_u32 len = len" "js_u32 (int n) = int n"
    using assms(5-8) n by (simp_all add: js_index_def js_u32_id)
  have "fdReaddir fd buf len k q s = (Inr ERRNO_SUCCESS, t)"
    using assms len a fill
    by (simp add: fdReaddir_def run_seq throwIfAborted_def readdirStartIndex_def set_memory_within writeU32_def
        m_def t_def)
  moreover have "mem_load (memory t) buf n = take n ?page"
  proof -
    have "mem_load m buf (nat len) = out" using len mem_load_store [of "memory s" buf out] by (simp add: m_def)
    moreover have "mem_load m buf (nat len) = mem_load m buf n @ mem_load m (buf + int n) (nat len - n)"
      using mem_load_append [of m buf n "nat len - n"] by (simp add: n_def)
    ultimately have "mem_load m buf n = take n ?page" by (simp add: out_def n_def)
    moreover have "buf + int n \<le> q \<or> q + int (length (le_bytes 4 (int n))) \<le> buf"
      using assms(11) n by (auto simp: apart_def)
    ultimately show ?thesis by (simp add: t_def mem_load_frame)
  qed
  moreover have "guest.read_int (memory t) q 4 = Some (int n)"
    using assms(9,10) n mem_load_store [of m q "le_bytes 4 (int n)"]
    by (simp add: t_def guest.read_int_def get_bytes_def le_value_le_bytes m_def)
  moreover have "mem_load (memory t) a j = mem_load (memory s) a j"
    if "apart a (int j) buf (int n)" "apart a (int j) q 4" for a j
  proof -
    have "mem_load m a j = mem_load (memory s) a j"
    proof (rule nth_equalityI; simp add: mem_load_def)
      fix i assume i: "i < j"
      show "mem_at m (a + int i) = mem_at (memory s) (a + int i)"
      proof (cases "buf \<le> a + int i \<and> a + int i < buf + len")
        case True
        then have "n \<le> nat (a + int i - buf)" "nat (a + int i - buf) < nat len" using that(1) i by (auto simp: apart_def)
        then have "out ! nat (a + int i - buf) = ?old ! nat (a + int i - buf)"
          by (cases "n = length ?page") (auto simp: out_def nth_append n_def)
        with True show ?thesis using len assms(6) by (simp add: m_def mem_store_def mem_load_def)
      qed (use len assms(6) in \<open>auto simp: m_def mem_store_def\<close>)
    qed
    moreover have "a + int j \<le> q \<or> q + int (length (le_bytes 4 (int n))) \<le> a"
      using that(2) by (auto simp: apart_def)
    ultimately show ?thesis by (simp add: t_def mem_load_frame)
  qed
  moreover have "t = s\<lparr>memory := memory t\<rparr>" by (simp add: t_def)
  ultimately show ?thesis using listing_bytes_from [OF assms(3)]
    unfolding Let_def n_def by blast
qed

theorem fdReaddir_page_witness:
  "\<exists>t. fdReaddir 4 600 40 0 700 example_host = (Inr ERRNO_SUCCESS, t) \<and>
     mem_load (memory t) 600 25 = direntBytes (''a'', FILETYPE_DIRECTORY) 1 @ encodeText ''a'' \<and>
     guest.read_int (memory t) 700 4 = Some 25"
proof -
  have "directoryForFd example_host 4 = Some [(''a'', FILETYPE_DIRECTORY)]" "mem_size (memory example_host) = 65536"
    "\<not> aborted example_host" by code_simp+
  then show ?thesis
    using fdReaddir_page [of example_host 4 "[(''a'', FILETYPE_DIRECTORY)]" 0 600 40 700]
    by (auto simp: max_safe_integer_def apart_def Let_def dirent_record_def encodeText_def)
qed

end
