(* ===== verification/Base64.thy ===== *)
theory Base64 imports Utf8 begin

text \<open>
  \<open>bytesToBase64\<close> and \<open>base64ToBytes\<close> of \<open>apps/web/src/workspace.js\<close> in the browser, where they are
  \<open>btoa\<close> and \<open>atob\<close>: the base64 alphabet with padding, and the forgiving decoder of the WHATWG Infra
  Standard (ASCII whitespace is dropped, padding may be missing, anything else is an error). The
  branch for Node's \<open>Buffer\<close> is not modelled. Proved: decoding what was encoded gives the bytes back.
\<close>

section \<open>Digits\<close>

definition b64_char :: "nat \<Rightarrow> char" where
  "b64_char n =
     (if n < 26 then char_of (65 + n) else if n < 52 then char_of (71 + n)
      else if n < 62 then char_of (n - 4) else if n = 62 then CHR ''+'' else CHR ''/'')"

definition b64_value :: "char \<Rightarrow> nat option" where
  "b64_value c =
     (let n = of_char c in
      if 65 \<le> n \<and> n < 91 then Some (n - 65) else if 97 \<le> n \<and> n < 123 then Some (n - 71)
      else if 48 \<le> n \<and> n < 58 then Some (n + 4) else if c = CHR ''+'' then Some 62
      else if c = CHR ''/'' then Some 63 else None)"

fun b64_digits :: "byte list \<Rightarrow> nat list" where
  "b64_digits [] = []"
| "b64_digits [a] = [unat a div 4, unat a mod 4 * 16]"
| "b64_digits [a, b] = [unat a div 4, unat a mod 4 * 16 + unat b div 16, unat b mod 16 * 4]"
| "b64_digits (a # b # c # bs) =
     unat a div 4 # (unat a mod 4 * 16 + unat b div 16) # (unat b mod 16 * 4 + unat c div 64) #
     unat c mod 64 # b64_digits bs"

fun b64_bytes :: "nat list \<Rightarrow> byte list" where
  "b64_bytes (w # x # y # z # ds) =
     word_of_nat (w * 4 + x div 16) # word_of_nat (x mod 16 * 16 + y div 4) #
     word_of_nat (y mod 4 * 64 + z) # b64_bytes ds"
| "b64_bytes [w, x, y] = [word_of_nat (w * 4 + x div 16), word_of_nat (x mod 16 * 16 + y div 4)]"
| "b64_bytes [w, x] = [word_of_nat (w * 4 + x div 16)]"
| "b64_bytes _ = []"

section \<open>Encoding and decoding\<close>

definition bytesToBase64 :: "byte list \<Rightarrow> string" where
  "bytesToBase64 bytes =
     map b64_char (b64_digits bytes) @ replicate ((3 - length bytes mod 3) mod 3) (CHR ''='')"

fun strip_padding :: "nat \<Rightarrow> string \<Rightarrow> string" where
  "strip_padding 0 s = s"
| "strip_padding (Suc n) s = (if s \<noteq> [] \<and> last s = CHR ''='' then strip_padding n (butlast s) else s)"

definition base64ToBytes :: "string \<Rightarrow> byte list option" where
  "base64ToBytes value =
     (let text = [c \<leftarrow> value. of_char c \<notin> {9, 10, 12, 13, 32 :: nat}];
          data = (if length text mod 4 = 0 then strip_padding 2 text else text) in
      if length data mod 4 = 1 then None
      else map_option b64_bytes (those (map b64_value data)))"

section \<open>Round trip\<close>

lemma unat_byte: "unat (b :: byte) < 256"
  using unsigned_less [of b] by simp

lemma word_of_unat: "n = unat (b :: byte) \<Longrightarrow> word_of_nat n = b"
  by simp

lemma digit_bounds:
  assumes "a < (256 :: nat)"
  shows "a div 4 < 64" "a div 16 < 16" "a div 64 < 4" "a div 16 div 16 = 0" "a div 16 mod 16 = a div 16"
    "a div 64 div 4 = 0" "a div 64 mod 4 = a div 64"
proof -
  show "a div 4 < 64" and b: "a div 16 < 16" and c: "a div 64 < 4"
    using assms by (simp_all add: less_mult_imp_div_less)
  show "a div 16 div 16 = 0" "a div 16 mod 16 = a div 16" using b by (rule div_less mod_less)+
  show "a div 64 div 4 = 0" "a div 64 mod 4 = a div 64" using c by (rule div_less mod_less)+
qed

lemma sextet_bound:
  fixes x y :: nat
  shows "y < 16 \<Longrightarrow> x mod 4 * 16 + y < 64" "y < 4 \<Longrightarrow> x mod 16 * 4 + y < 64"
  using mod_less_divisor [of 4 x] mod_less_divisor [of 16 x] by linarith+

lemmas byte_digits = digit_bounds [OF unat_byte]

lemma digits_range: "d \<in> set (b64_digits bs) \<Longrightarrow> d < 64"
proof (induction bs rule: b64_digits.induct)
  case (2 a)
  then show ?case by (simp add: byte_digits) (elim disjE, simp_all add: byte_digits)
next
  case (3 a b)
  then show ?case
    by (simp only: b64_digits.simps list.set) (elim insertE emptyE; simp add: byte_digits sextet_bound)
next
  case (4 a b c bs)
  from 4(2) show ?case
    by (simp only: b64_digits.simps list.set)
      (elim insertE; simp add: byte_digits sextet_bound 4(1))
qed simp

lemma bytes_digits: "b64_bytes (b64_digits bs) = bs"
proof (induction bs rule: b64_digits.induct)
  case (2 a)
  show ?case by (simp del: of_nat_add of_nat_mult add: word_of_unat)
next
  case (3 a b)
  show ?case
    using digit_bounds [OF unat_byte [of b]] by (simp del: of_nat_add of_nat_mult add: word_of_unat)
next
  case (4 a b c bs)
  then show ?case
    using digit_bounds [OF unat_byte [of b]] digit_bounds [OF unat_byte [of c]]
    by (simp del: of_nat_add of_nat_mult add: word_of_unat)
qed simp

lemma b64_char_value:
  assumes "n < 64"
  shows "b64_value (b64_char n) = Some n" "(of_char (b64_char n) :: nat) \<notin> {9, 10, 12, 13, 32, 61}"
  using assms by (auto simp: b64_char_def b64_value_def Let_def of_char_of)

lemma b64_char_not_padding: "n < 64 \<Longrightarrow> b64_char n \<noteq> CHR ''=''"
  using b64_char_value(2) [of n] by auto

lemma length_digits: "length (b64_digits bs) + (3 - length bs mod 3) mod 3 = 4 * ((length bs + 2) div 3)"
proof (induction bs rule: b64_digits.induct)
  case (4 a b c bs)
  have "(length (a # b # c # bs) + 2) div 3 = Suc ((length bs + 2) div 3)" by simp
  with 4 show ?case by (simp del: div_Suc)
qed simp_all

lemma length_digits_mod: "length (b64_digits bs) mod 4 \<noteq> 1"
  by (induction bs rule: b64_digits.induct) auto

lemma strip_padding_digits:
  "CHR ''='' \<notin> set s \<Longrightarrow> k \<le> n \<Longrightarrow> strip_padding n (s @ replicate k (CHR ''='')) = s"
proof (induction n arbitrary: k)
  case (Suc n)
  show ?case
  proof (cases k)
    case 0
    then show ?thesis using Suc.prems by (auto dest: last_in_set)
  next
    case (Suc j)
    then have "s @ replicate k (CHR ''='') = (s @ replicate j (CHR ''='')) @ [CHR ''='']"
      using replicate_append_same [of j "CHR ''=''"] by simp
    then show ?thesis using Suc Suc.prems Suc.IH [of j] by (simp only: strip_padding.simps last_snoc butlast_snoc) simp
  qed
qed simp

lemma those_map_Some: "(\<And>x. x \<in> set xs \<Longrightarrow> f (g x) = Some x) \<Longrightarrow> those (map f (map g xs)) = Some xs"
  by (induction xs) auto

theorem base64_roundtrip: "base64ToBytes (bytesToBase64 bs) = Some bs"
proof -
  let ?s = "map b64_char (b64_digits bs)" and ?k = "(3 - length bs mod 3) mod 3"
  have "of_char c \<notin> {9, 10, 12, 13, 32 :: nat}" if "c \<in> set (bytesToBase64 bs)" for c
  proof -
    from that consider "c = CHR ''=''" | n where "c = b64_char n" "n \<in> set (b64_digits bs)"
      by (auto simp: bytesToBase64_def)
    then show ?thesis
      using b64_char_value(2) digits_range by cases auto
  qed
  then have clean: "[c \<leftarrow> bytesToBase64 bs. of_char c \<notin> {9, 10, 12, 13, 32 :: nat}] = bytesToBase64 bs"
    by (intro filter_True) blast
  have len: "length (bytesToBase64 bs) mod 4 = 0"
    using length_digits [of bs] by (simp add: bytesToBase64_def)
  have "CHR ''='' \<notin> set ?s"
    using b64_char_not_padding digits_range by fastforce
  then have strip: "strip_padding 2 (bytesToBase64 bs) = ?s"
    unfolding bytesToBase64_def by (rule strip_padding_digits) simp
  have "those (map b64_value ?s) = Some (b64_digits bs)"
    using b64_char_value(1) digits_range by (intro those_map_Some) blast
  then show ?thesis
    using length_digits_mod [of bs] unfolding base64ToBytes_def Let_def clean
    by (simp add: len strip bytes_digits)
qed

end
