(* ===== verification/Workspace_Store.thy ===== *)
theory Workspace_Store imports Wasi_Tree Host_Monad Base64 begin

text \<open>
  The workspace store of \<open>apps/web/src/workspace.js\<close>: \<open>MemoryBrowserWorkspaceStore\<close>, which keeps the
  files of a workspace between runs, and its snapshots. A store operation is a host function (an
  error does not undo what was done before it). The clock \<open>now\<close> of the store is a field: the value of
  its n-th call; \<open>localeCompare\<close>, which the browser's locale decides, is the argument \<open>collate\<close>.
\<close>

section \<open>Paths\<close>

datatype ws_error = WsError (ws_kind: string) (ws_message: string) | InvalidCharacter

abbreviation (input) WORKSPACE_ROOT :: string where "WORKSPACE_ROOT \<equiv> ''/workspace''"

text \<open>\<open>trim\<close> drops white space and line ends, here by their UTF-8 encodings.\<close>

definition js_spaces :: "string list" where
  "js_spaces =
    [[CHR 0x09], [CHR 0x0A], [CHR 0x0B], [CHR 0x0C], [CHR 0x0D], [CHR 0x20], [CHR 0xC2, CHR 0xA0],
     [CHR 0xE1, CHR 0x9A, CHR 0x80], [CHR 0xE2, CHR 0x80, CHR 0x80], [CHR 0xE2, CHR 0x80, CHR 0x81],
     [CHR 0xE2, CHR 0x80, CHR 0x82], [CHR 0xE2, CHR 0x80, CHR 0x83], [CHR 0xE2, CHR 0x80, CHR 0x84],
     [CHR 0xE2, CHR 0x80, CHR 0x85], [CHR 0xE2, CHR 0x80, CHR 0x86], [CHR 0xE2, CHR 0x80, CHR 0x87],
     [CHR 0xE2, CHR 0x80, CHR 0x88], [CHR 0xE2, CHR 0x80, CHR 0x89], [CHR 0xE2, CHR 0x80, CHR 0x8A],
     [CHR 0xE2, CHR 0x80, CHR 0xA8], [CHR 0xE2, CHR 0x80, CHR 0xA9], [CHR 0xE2, CHR 0x80, CHR 0xAF],
     [CHR 0xE2, CHR 0x81, CHR 0x9F], [CHR 0xE3, CHR 0x80, CHR 0x80], [CHR 0xEF, CHR 0xBB, CHR 0xBF]]"

function trim_start :: "string list \<Rightarrow> string \<Rightarrow> string" where
  "trim_start spaces s =
     (case find (\<lambda>w. w \<noteq> [] \<and> prefix w s) spaces of
        None \<Rightarrow> s
      | Some w \<Rightarrow> trim_start spaces (drop (length w) s))"
  by pat_completeness auto
termination
  by (relation "measure (\<lambda>(spaces, s). length s)") (auto simp: find_Some_iff prefix_def)

declare trim_start.simps [simp del]

text \<open>Code equations that the simplifier can run: the next step is a pattern of constructors.\<close>

definition trim_next :: "string list \<Rightarrow> string \<Rightarrow> string option \<Rightarrow> string" where
  "trim_next spaces s w = (case w of None \<Rightarrow> s | Some w \<Rightarrow> trim_start spaces (drop (length w) s))"

lemma trim_next_code [code]:
  "trim_next spaces s None = s"
  "trim_next spaces s (Some w) = trim_start spaces (drop (length w) s)"
  by (simp_all add: trim_next_def)

lemma trim_start_code [code]:
  "trim_start spaces s = trim_next spaces s (find (\<lambda>w. w \<noteq> [] \<and> prefix w s) spaces)"
  by (simp add: trim_next_def trim_start.simps [of spaces s])

definition js_trim :: "string \<Rightarrow> string" where
  "js_trim s = rev (trim_start (map rev js_spaces) (rev (trim_start js_spaces s)))"

definition workspace_path :: "string \<Rightarrow> string" where
  "workspace_path relativePath =
     (if relativePath \<noteq> [] then WORKSPACE_ROOT @ ''/'' @ relativePath else WORKSPACE_ROOT)"

definition normalizeWorkspacePath :: "string \<Rightarrow> ws_error + string" where
  "normalizeWorkspacePath path =
     (let raw = js_trim path in
      if raw = [] \<or> CHR 0x00 \<in> set raw \<or> CHR 0x5C \<in> set raw then
        Inl (WsError ''invalid_path'' ''workspace path is invalid'')
      else if raw \<noteq> WORKSPACE_ROOT \<and> \<not> prefix (WORKSPACE_ROOT @ ''/'') raw \<and> prefix ''/'' raw then
        Inl (WsError ''invalid_path'' ''workspace path must be under /workspace'')
      else
        let relative = (if raw = WORKSPACE_ROOT then []
                        else if prefix (WORKSPACE_ROOT @ ''/'') raw then drop 11 raw else raw) in
        case relative_segments (js_split (CHR ''/'') relative) of
          None \<Rightarrow> Inl (WsError ''invalid_path'' ''workspace path must not traverse upward'')
        | Some parts \<Rightarrow> Inr (js_join ''/'' parts))"

definition parentPath :: "string \<Rightarrow> string" where
  "parentPath path =
     (let index = last_index_of (CHR ''/'') path in if index = -1 then [] else take (nat index) path)"

definition isChildPath :: "string \<Rightarrow> string \<Rightarrow> bool" where
  "isChildPath parent child \<longleftrightarrow> (if parent \<noteq> [] then prefix (parent @ ''/'') child else child \<noteq> [])"

definition ws_replacePathPrefix :: "string \<Rightarrow> string \<Rightarrow> string \<Rightarrow> string" where
  "ws_replacePathPrefix path src tgt =
     (if path = src then tgt else tgt @ ''/'' @ drop (length src + 1) path)"

section \<open>The store\<close>

record ws_dir =
  wd_mtime :: int
  wd_path :: string

record ws_file =
  wf_content :: "byte list"
  wf_mtime :: int
  wf_path :: string

record ws_store =
  ws_directories :: "(string \<times> ws_dir) list"
  ws_filemap :: "(string \<times> ws_file) list"
  ws_now :: "nat \<Rightarrow> int"
  ws_ticks :: nat

type_synonym 'a ws = "(ws_store, ws_error, 'a) host"

definition from_sum :: "'e + 'a \<Rightarrow> ('s, 'e, 'a) host" where
  "from_sum r = (case r of Inl e \<Rightarrow> throw e | Inr x \<Rightarrow> ret x)"

definition nonNegativeTime :: "int \<Rightarrow> ws_error + int" where
  "nonNegativeTime value =
     (if value < 0 \<or> value > max_safe_integer
      then Inl (WsError ''invalid_snapshot'' ''workspace timestamp is invalid'') else Inr value)"

definition currentTime :: "int ws" where
  "currentTime = with_state (\<lambda>s.
     seqM (modifyM (\<lambda>s. s\<lparr>ws_ticks := ws_ticks s + 1\<rparr>)) (from_sum (nonNegativeTime (ws_now s (ws_ticks s)))))"

definition directoryRecord :: "string \<Rightarrow> int \<Rightarrow> ws_dir" where
  "directoryRecord path mtime = \<lparr>wd_mtime = mtime, wd_path = (if path \<noteq> [] then path else WORKSPACE_ROOT)\<rparr>"

datatype ws_stat = WsStat (ws_is_file: bool) (ws_mtime: int) (ws_stat_path: string) (ws_size: int)

definition publicFileStat :: "string \<Rightarrow> ws_file \<Rightarrow> ws_stat" where
  "publicFileStat path record = WsStat True (wf_mtime record) path (int (length (wf_content record)))"

definition publicDirectoryStat :: "string \<Rightarrow> ws_dir \<Rightarrow> ws_stat" where
  "publicDirectoryStat path record = WsStat False (wd_mtime record) path 0"

definition requireParentDirectory :: "string \<Rightarrow> unit ws" where
  "requireParentDirectory path = with_state (\<lambda>s.
     let parent = parentPath path in
     if map_has (ws_filemap s) parent then
       throw (WsError ''not_directory'' ''workspace parent is a file'')
     else if \<not> map_has (ws_directories s) parent then
       throw (WsError ''not_found'' ''workspace parent directory is unavailable'')
     else ret ())"

section \<open>Files\<close>

definition ws_writeFile :: "string \<Rightarrow> byte list \<Rightarrow> ws_stat ws" where
  "ws_writeFile path content =
     bindM (from_sum (normalizeWorkspacePath path)) (\<lambda>rel. with_state (\<lambda>s.
       if rel = [] then throw (WsError ''invalid_path'' ''workspace file path is required'')
       else if map_has (ws_directories s) rel then
         throw (WsError ''not_file'' ''workspace path is a directory'')
       else
         seqM (requireParentDirectory rel)
         (bindM currentTime (\<lambda>time.
          let record = \<lparr>wf_content = content, wf_mtime = time, wf_path = workspace_path rel\<rparr> in
          seqM (modifyM (\<lambda>s. s\<lparr>ws_filemap := AList.update rel record (ws_filemap s)\<rparr>))
            (ret (publicFileStat (workspace_path rel) record))))))"

definition ws_readFile :: "string \<Rightarrow> byte list ws" where
  "ws_readFile path =
     bindM (from_sum (normalizeWorkspacePath path)) (\<lambda>rel. with_state (\<lambda>s.
       case map_of (ws_filemap s) rel of
         None \<Rightarrow>
           if map_has (ws_directories s) rel then
             throw (WsError ''not_file'' ''workspace path is a directory'')
           else throw (WsError ''not_found'' ''workspace file is unavailable'')
       | Some record \<Rightarrow> ret (wf_content record)))"

definition ws_deleteFile :: "string \<Rightarrow> unit ws" where
  "ws_deleteFile path =
     bindM (from_sum (normalizeWorkspacePath path)) (\<lambda>rel. with_state (\<lambda>s.
       if map_has (ws_filemap s) rel then
         modifyM (\<lambda>s. s\<lparr>ws_filemap := AList.delete rel (ws_filemap s)\<rparr>)
       else if map_has (ws_directories s) rel then
         throw (WsError ''not_file'' ''workspace path is a directory'')
       else throw (WsError ''not_found'' ''workspace file is unavailable'')))"

section \<open>Directories\<close>

fun ensure_parts :: "string \<Rightarrow> string list \<Rightarrow> unit ws" where
  "ensure_parts current [] = ret ()"
| "ensure_parts current (part # parts) =
     (let current' = (if current \<noteq> [] then current @ ''/'' @ part else part) in
      with_state (\<lambda>s.
        if map_has (ws_filemap s) current' then
          throw (WsError ''not_directory'' ''workspace path is a file'')
        else
          seqM (if \<not> map_has (ws_directories s) current' then
                  bindM currentTime (\<lambda>time. modifyM (\<lambda>s. s\<lparr>ws_directories :=
                    AList.update current' (directoryRecord (WORKSPACE_ROOT @ ''/'' @ current') time)
                      (ws_directories s)\<rparr>))
                else ret ())
          (ensure_parts current' parts)))"

definition ensureDirectory :: "string \<Rightarrow> unit ws" where
  "ensureDirectory path = ensure_parts [] [part \<leftarrow> js_split (CHR ''/'') path. part \<noteq> []]"

definition ws_createDirectory :: "string \<Rightarrow> bool \<Rightarrow> ws_stat ws" where
  "ws_createDirectory path recursive =
     bindM (from_sum (normalizeWorkspacePath path)) (\<lambda>rel. with_state (\<lambda>s.
       if rel = [] then ret (publicDirectoryStat WORKSPACE_ROOT (the (map_of (ws_directories s) [])))
       else if map_has (ws_filemap s) rel then
         throw (WsError ''not_directory'' ''workspace path is a file'')
       else
         seqM (if recursive then ensureDirectory rel
               else
                 seqM (requireParentDirectory rel)
                 (if map_has (ws_directories s) rel then
                    throw (WsError ''already_exists'' ''workspace directory already exists'')
                  else bindM currentTime (\<lambda>time. modifyM (\<lambda>s. s\<lparr>ws_directories :=
                    AList.update rel (directoryRecord (workspace_path rel) time) (ws_directories s)\<rparr>))))
           (with_state (\<lambda>s. ret (publicDirectoryStat (workspace_path rel)
              (the (map_of (ws_directories s) rel)))))))"

definition ws_hasChildren :: "ws_store \<Rightarrow> string \<Rightarrow> bool" where
  "ws_hasChildren s path \<longleftrightarrow>
     list_ex (isChildPath path) (map_keys (ws_filemap s)) \<or>
     list_ex (\<lambda>directory. directory \<noteq> path \<and> isChildPath path directory) (map_keys (ws_directories s))"

definition deleteDirectoryTree :: "string \<Rightarrow> ws_store \<Rightarrow> ws_store" where
  "deleteDirectoryTree path s =
     s\<lparr>ws_filemap := [e \<leftarrow> ws_filemap s. \<not> (fst e = path \<or> isChildPath path (fst e))],
       ws_directories := [e \<leftarrow> ws_directories s. \<not> (fst e = path \<or> isChildPath path (fst e))]\<rparr>"

definition ws_deleteDirectory :: "string \<Rightarrow> bool \<Rightarrow> unit ws" where
  "ws_deleteDirectory path recursive =
     bindM (from_sum (normalizeWorkspacePath path)) (\<lambda>rel. with_state (\<lambda>s.
       if rel = [] then throw (WsError ''invalid_path'' ''workspace root cannot be deleted'')
       else if \<not> map_has (ws_directories s) rel then
         throw (WsError ''not_found'' ''workspace directory is unavailable'')
       else if \<not> recursive \<and> ws_hasChildren s rel then
         throw (WsError ''not_empty'' ''workspace directory is not empty'')
       else modifyM (deleteDirectoryTree rel)))"

text \<open>\<open>sort\<close> is stable; \<open>collate l r \<le> 0\<close> says that \<open>l\<close> may stand before \<open>r\<close>.\<close>

fun js_insert :: "('a \<Rightarrow> 'a \<Rightarrow> int) \<Rightarrow> 'a \<Rightarrow> 'a list \<Rightarrow> 'a list" where
  "js_insert cmp x [] = [x]"
| "js_insert cmp x (y # ys) = (if cmp x y \<le> 0 then x # y # ys else y # js_insert cmp x ys)"

definition js_sort :: "('a \<Rightarrow> 'a \<Rightarrow> int) \<Rightarrow> 'a list \<Rightarrow> 'a list" where
  "js_sort cmp xs = foldr (js_insert cmp) xs []"

definition ws_directoryEntries ::
  "(string \<Rightarrow> string \<Rightarrow> int) \<Rightarrow> string \<Rightarrow> (string \<times> ws_file) list \<Rightarrow> (string \<times> ws_dir) list \<Rightarrow> ws_stat list" where
  "ws_directoryEntries collate path files directories =
     js_sort (\<lambda>left right. collate (ws_stat_path left) (ws_stat_path right))
       (map (\<lambda>(p, record). publicFileStat (WORKSPACE_ROOT @ ''/'' @ p) record)
          [e \<leftarrow> files. parentPath (fst e) = path] @
        map (\<lambda>(p, record). publicDirectoryStat (WORKSPACE_ROOT @ ''/'' @ p) record)
          [e \<leftarrow> directories. fst e \<noteq> [] \<and> parentPath (fst e) = path])"

definition ws_readDirectory :: "(string \<Rightarrow> string \<Rightarrow> int) \<Rightarrow> string \<Rightarrow> ws_stat list ws" where
  "ws_readDirectory collate path =
     bindM (from_sum (normalizeWorkspacePath path)) (\<lambda>rel. with_state (\<lambda>s.
       if \<not> map_has (ws_directories s) rel then
         (if map_has (ws_filemap s) rel then
            throw (WsError ''not_directory'' ''workspace path is a file'')
          else throw (WsError ''not_found'' ''workspace directory is unavailable''))
       else ret (ws_directoryEntries collate rel (ws_filemap s) (ws_directories s))))"

definition ws_stat_of :: "string \<Rightarrow> ws_stat ws" where
  "ws_stat_of path =
     bindM (from_sum (normalizeWorkspacePath path)) (\<lambda>rel. with_state (\<lambda>s.
       case map_of (ws_filemap s) rel of
         Some record \<Rightarrow> ret (publicFileStat (workspace_path rel) record)
       | None \<Rightarrow>
           (case map_of (ws_directories s) rel of
              Some directory \<Rightarrow> ret (publicDirectoryStat (workspace_path rel) directory)
            | None \<Rightarrow> throw (WsError ''not_found'' ''workspace path is unavailable''))))"

section \<open>Renaming\<close>

fun move_directories ::
  "string \<Rightarrow> string \<Rightarrow> (string \<times> ws_dir) list \<Rightarrow> (string \<times> ws_dir) list \<Rightarrow> (string \<times> ws_dir) list ws" where
  "move_directories src tgt [] moved = ret moved"
| "move_directories src tgt ((path, record) # rest) moved =
     (if path = src \<or> isChildPath src path then
        let movedPath = ws_replacePathPrefix path src tgt in
        bindM currentTime (\<lambda>time.
          move_directories src tgt rest
            (AList.update movedPath (record\<lparr>wd_mtime := time, wd_path := workspace_path movedPath\<rparr>) moved))
      else move_directories src tgt rest (AList.update path record moved))"

fun move_files ::
  "string \<Rightarrow> string \<Rightarrow> (string \<times> ws_file) list \<Rightarrow> (string \<times> ws_file) list \<Rightarrow> (string \<times> ws_file) list ws" where
  "move_files src tgt [] moved = ret moved"
| "move_files src tgt ((path, record) # rest) moved =
     (if isChildPath src path then
        let movedPath = ws_replacePathPrefix path src tgt in
        bindM currentTime (\<lambda>time.
          move_files src tgt rest
            (AList.update movedPath
               (record\<lparr>wf_mtime := time, wf_path := WORKSPACE_ROOT @ ''/'' @ movedPath\<rparr>) moved))
      else move_files src tgt rest (AList.update path record moved))"

definition renameDirectory :: "string \<Rightarrow> string \<Rightarrow> unit ws" where
  "renameDirectory src tgt =
     (if tgt = src then ret ()
      else if isChildPath src tgt then
        throw (WsError ''invalid_path'' ''workspace directory cannot be moved inside itself'')
      else with_state (\<lambda>s.
        bindM (move_directories src tgt (ws_directories s) []) (\<lambda>movedDirectories.
        bindM (move_files src tgt (ws_filemap s) []) (\<lambda>movedFiles.
        modifyM (\<lambda>s. s\<lparr>ws_directories := movedDirectories, ws_filemap := movedFiles\<rparr>)))))"

definition ws_rename :: "string \<Rightarrow> string \<Rightarrow> unit ws" where
  "ws_rename fromPath toPath =
     bindM (from_sum (normalizeWorkspacePath fromPath)) (\<lambda>src.
     bindM (from_sum (normalizeWorkspacePath toPath)) (\<lambda>tgt.
       if src = [] \<or> tgt = [] then
         throw (WsError ''invalid_path'' ''workspace rename path is required'')
       else
         seqM (requireParentDirectory tgt) (with_state (\<lambda>s.
           if map_has (ws_filemap s) tgt \<or> map_has (ws_directories s) tgt then
             throw (WsError ''already_exists'' ''workspace target already exists'')
           else (case map_of (ws_filemap s) src of
             Some record \<Rightarrow>
               seqM (modifyM (\<lambda>s. s\<lparr>ws_filemap := AList.delete src (ws_filemap s)\<rparr>))
               (bindM currentTime (\<lambda>time.
                 modifyM (\<lambda>s. s\<lparr>ws_filemap := AList.update tgt
                   (record\<lparr>wf_mtime := time, wf_path := workspace_path tgt\<rparr>) (ws_filemap s)\<rparr>)))
           | None \<Rightarrow>
               if map_has (ws_directories s) src then renameDirectory src tgt
               else throw (WsError ''not_found'' ''workspace source is unavailable''))))))"

section \<open>Snapshots\<close>

text \<open>A snapshot with the types the format has; a list that is missing in the object is the empty one.\<close>

record dir_entry =
  de_mtime :: int
  de_path :: string

record file_entry =
  fe_content :: string
  fe_mtime :: int
  fe_path :: string
  fe_size :: int

record snapshot =
  sn_directories :: "dir_entry list"
  sn_files :: "file_entry list"
  sn_root :: string
  sn_version :: int

definition ws_exportSnapshot :: "(string \<Rightarrow> string \<Rightarrow> int) \<Rightarrow> ws_store \<Rightarrow> snapshot" where
  "ws_exportSnapshot collate s =
     \<lparr>sn_directories = js_sort (\<lambda>left right. collate (de_path left) (de_path right))
        (map (\<lambda>(_, record). \<lparr>de_mtime = wd_mtime record, de_path = wd_path record\<rparr>) (ws_directories s)),
      sn_files = js_sort (\<lambda>left right. collate (fe_path left) (fe_path right))
        (map (\<lambda>(_, record). \<lparr>fe_content = bytesToBase64 (wf_content record), fe_mtime = wf_mtime record,
            fe_path = wf_path record, fe_size = int (length (wf_content record))\<rparr>) (ws_filemap s)),
      sn_root = WORKSPACE_ROOT, sn_version = 1\<rparr>"

fun load_directories ::
  "dir_entry list \<Rightarrow> (string \<times> ws_dir) list \<Rightarrow> ws_error + (string \<times> ws_dir) list" where
  "load_directories [] acc = Inr acc"
| "load_directories (entry # entries) acc =
     (case normalizeWorkspacePath (de_path entry) of
        Inl e \<Rightarrow> Inl e
      | Inr rel \<Rightarrow>
          (case nonNegativeTime (de_mtime entry) of
             Inl e \<Rightarrow> Inl e
           | Inr time \<Rightarrow>
               load_directories entries
                 (AList.update rel (directoryRecord (workspace_path rel) time) acc)))"

fun load_files ::
  "file_entry list \<Rightarrow> (string \<times> ws_file) list \<Rightarrow> ws_error + (string \<times> ws_file) list" where
  "load_files [] acc = Inr acc"
| "load_files (entry # entries) acc =
     (case normalizeWorkspacePath (fe_path entry) of
        Inl e \<Rightarrow> Inl e
      | Inr rel \<Rightarrow>
          if rel = [] then Inl (WsError ''invalid_snapshot'' ''workspace file path is required'')
          else (case base64ToBytes (fe_content entry) of
            None \<Rightarrow> Inl InvalidCharacter
          | Some content \<Rightarrow>
              (case nonNegativeTime (fe_mtime entry) of
                 Inl e \<Rightarrow> Inl e
               | Inr time \<Rightarrow>
                   load_files entries (AList.update rel
                     \<lparr>wf_content = content, wf_mtime = time, wf_path = workspace_path rel\<rparr> acc))))"

definition validateWorkspaceGraph ::
  "(string \<times> ws_file) list \<Rightarrow> (string \<times> ws_dir) list \<Rightarrow> ws_error option" where
  "validateWorkspaceGraph files directories =
     (if list_ex (map_has directories) (map_keys files) then
        Some (WsError ''invalid_snapshot'' ''workspace path has multiple kinds'')
      else if list_ex (\<lambda>path. \<not> map_has directories (parentPath path)) (map_keys files) then
        Some (WsError ''invalid_snapshot'' ''workspace file parent is missing'')
      else if list_ex (\<lambda>path. path \<noteq> [] \<and> \<not> map_has directories (parentPath path)) (map_keys directories) then
        Some (WsError ''invalid_snapshot'' ''workspace directory parent is missing'')
      else None)"

definition loadSnapshot :: "snapshot \<Rightarrow> unit ws" where
  "loadSnapshot snapshot =
     bindM currentTime (\<lambda>time.
       if sn_version snapshot \<noteq> 1 \<or> sn_root snapshot \<noteq> WORKSPACE_ROOT then
         throw (WsError ''invalid_snapshot'' ''workspace snapshot version is unsupported'')
       else
         bindM (from_sum (load_directories (sn_directories snapshot) [([], directoryRecord [] time)]))
         (\<lambda>nextDirectories.
         bindM (from_sum (load_files (sn_files snapshot) [])) (\<lambda>nextFiles.
           case validateWorkspaceGraph nextFiles nextDirectories of
             Some e \<Rightarrow> throw e
           | None \<Rightarrow> modifyM (\<lambda>s. s\<lparr>ws_directories := nextDirectories, ws_filemap := nextFiles\<rparr>))))"

definition new_store :: "(nat \<Rightarrow> int) \<Rightarrow> snapshot option \<Rightarrow> (ws_error + unit) \<times> ws_store" where
  "new_store now snapshot =
     bindM currentTime (\<lambda>time.
       seqM (modifyM (\<lambda>s. s\<lparr>ws_directories := [([], directoryRecord [] time)]\<rparr>))
         (case snapshot of None \<Rightarrow> ret () | Some sn \<Rightarrow> loadSnapshot sn))
     \<lparr>ws_directories = [], ws_filemap = [], ws_now = now, ws_ticks = 0\<rparr>"


section \<open>Paths of the store\<close>

definition ws_path_ok :: "string \<Rightarrow> bool" where
  "ws_path_ok p \<longleftrightarrow> canonical p \<and> CHR 0x5C \<notin> set p"

lemma relative_segments_subset: "relative_segments ss = Some ps \<Longrightarrow> set ps \<subseteq> set ss"
  by (induction ss arbitrary: ps) (fastforce split: if_splits)+

lemma set_js_join: "set (js_join s ps) \<subseteq> set s \<union> (\<Union>p\<in>set ps. set p)"
  by (induction s ps rule: js_join.induct) auto

lemma normalizeWorkspacePath_ok:
  assumes "normalizeWorkspacePath path = Inr rel"
  shows "ws_path_ok rel"
proof -
  define raw where "raw = js_trim path"
  define relative where "relative = (if raw = WORKSPACE_ROOT then []
    else if prefix (WORKSPACE_ROOT @ ''/'') raw then drop 11 raw else raw)"
  obtain parts where parts: "relative_segments (js_split (CHR ''/'') relative) = Some parts" "rel = js_join ''/'' parts"
    and clean: "CHR 0x00 \<notin> set raw" "CHR 0x5C \<notin> set raw"
    using assms by (auto simp: normalizeWorkspacePath_def Let_def raw_def relative_def split: if_splits option.splits)
  have "set relative \<subseteq> set raw" by (auto simp: relative_def dest: in_set_dropD)
  then have chars: "CHR 0x00 \<notin> set x" "CHR 0x5C \<notin> set x" if "x \<in> set (js_split (CHR ''/'') relative)" for x
    using clean js_split_chars [OF that] by auto
  have "list_all seg_ok parts"
    using relative_segments_ok [OF parts(1)] js_split_no_sep chars(1) by blast
  moreover have "CHR 0x5C \<notin> set rel"
    using set_js_join [of "''/''" parts] relative_segments_subset [OF parts(1)] chars(2) parts(2) by fastforce
  ultimately show ?thesis
    using parts(2) canonical_unsegs [of parts] by (simp add: ws_path_ok_def unsegs_def)
qed

lemma parentPath_snoc:
  assumes "list_all seg_ok (ps @ [p])"
  shows "parentPath (unsegs (ps @ [p])) = unsegs ps"
  using parent_of_snoc [OF assms] assms by (auto simp: parentPath_def Let_def unsegs_append)

lemma segs_parentPath:
  assumes "canonical p"
  shows "segs (parentPath p) = butlast (segs p)" "canonical (parentPath p)"
proof -
  have "segs (parentPath p) = butlast (segs p) \<and> canonical (parentPath p)"
  proof (cases "p = []")
    case False
    with assms obtain ps q where "list_all seg_ok (ps @ [q])" "p = unsegs (ps @ [q])"
      by (rule canonical_snoc_cases)
    then show ?thesis by (simp add: parentPath_snoc)
  qed (simp add: parentPath_def)
  then show "segs (parentPath p) = butlast (segs p)" "canonical (parentPath p)" by simp_all
qed

lemma segs_seg: "seg_ok n \<Longrightarrow> segs n = [n] \<and> canonical n \<and> n \<noteq> []"
  using segs_unsegs [of "[n]"] by (auto simp: canonical_def seg_ok_def)

lemma path_join_snoc: "canonical b \<Longrightarrow> seg_ok n \<Longrightarrow> segs (path_join b n) = segs b @ [n] \<and> canonical (path_join b n)"
  using segs_path_join [of b n] canonical_path_join [of b n] segs_seg [of n] by simp

lemma parentPath_join: "canonical b \<Longrightarrow> seg_ok n \<Longrightarrow> parentPath (path_join b n) = b"
  using segs_parentPath(1) [of "path_join b n"] path_join_snoc [of b n] by (metis butlast_snoc canonical_inj)

lemma isChildPath_segs:
  assumes "canonical p" "canonical q"
  shows "isChildPath p q \<longleftrightarrow> strict_prefix (segs p) (segs q)"
  using prefix_slash_iff [OF assms] by (auto simp: isChildPath_def strict_prefix_def; metis segs_eq_Nil)

lemma strict_prefix_butlast: "q \<noteq> [] \<Longrightarrow> strict_prefix p q \<longleftrightarrow> prefix p (butlast q)"
  by (cases q rule: rev_cases) (auto simp: strict_prefix_def)

lemma below_parent:
  assumes "canonical p" "canonical q" "q \<noteq> []"
  shows "isChildPath p q \<longleftrightarrow> p = parentPath q \<or> isChildPath p (parentPath q)"
  using assms segs_parentPath [OF assms(2)] strict_prefix_butlast [of "segs q" "segs p"]
  by (auto simp: isChildPath_segs strict_prefix_def) (metis canonical_inj)

lemma workspace_path_inj: "workspace_path p = workspace_path q \<Longrightarrow> p = q"
  by (auto simp: workspace_path_def split: if_splits)

section \<open>The invariant of the store\<close>

definition time_ok :: "int \<Rightarrow> bool" where
  "time_ok t \<longleftrightarrow> 0 \<le> t \<and> t \<le> max_safe_integer"

definition files_ok :: "(string \<times> ws_file) list \<Rightarrow> bool" where
  "files_ok files \<longleftrightarrow> distinct (map_keys files) \<and>
     list_all (\<lambda>(p, r). p \<noteq> [] \<and> ws_path_ok p \<and> wf_path r = workspace_path p \<and> time_ok (wf_mtime r)) files"

definition directories_ok :: "(string \<times> ws_dir) list \<Rightarrow> bool" where
  "directories_ok dirs \<longleftrightarrow> distinct (map_keys dirs) \<and> map_has dirs [] \<and>
     list_all (\<lambda>(p, r). ws_path_ok p \<and> wd_path r = workspace_path p \<and> time_ok (wd_mtime r)) dirs"

definition store_ok :: "ws_store \<Rightarrow> bool" where
  "store_ok s \<longleftrightarrow> files_ok (ws_filemap s) \<and> directories_ok (ws_directories s) \<and>
     validateWorkspaceGraph (ws_filemap s) (ws_directories s) = None"

lemma map_has_update [simp]: "map_has (AList.update k v m) j \<longleftrightarrow> j = k \<or> map_has m j"
  by (auto simp: map_has_def)

lemma map_has_delete [simp]: "map_has (AList.delete k m) j \<longleftrightarrow> j \<noteq> k \<and> map_has m j"
  by (auto simp: map_has_def)

lemma validate_iff:
  "validateWorkspaceGraph files dirs = None \<longleftrightarrow>
     (\<forall>p. map_has files p \<longrightarrow> \<not> map_has dirs p \<and> map_has dirs (parentPath p)) \<and>
     (\<forall>p. map_has dirs p \<longrightarrow> p \<noteq> [] \<longrightarrow> map_has dirs (parentPath p))"
  by (auto simp: validateWorkspaceGraph_def list_ex_iff map_has_iff)

lemma files_ok_update:
  assumes "files_ok files" "p \<noteq> []" "ws_path_ok p" "wf_path r = workspace_path p" "time_ok (wf_mtime r)"
  shows "files_ok (AList.update p r files)"
proof -
  have "set (AList.update p r files) \<subseteq> insert (p, r) (set files)" by (induction files) auto
  then show ?thesis using assms by (auto simp: files_ok_def list_all_iff)
qed

lemma directories_ok_update:
  assumes "directories_ok dirs" "ws_path_ok p" "wd_path r = workspace_path p" "time_ok (wd_mtime r)"
  shows "directories_ok (AList.update p r dirs)"
proof -
  have "set (AList.update p r dirs) \<subseteq> insert (p, r) (set dirs)" by (induction dirs) auto
  then show ?thesis using assms by (auto simp: directories_ok_def list_all_iff map_has_iff)
qed

lemma files_ok_delete: "files_ok files \<Longrightarrow> files_ok (AList.delete p files)"
  by (auto simp: files_ok_def list_all_iff AList.delete_eq distinct_map_filter)

lemma files_ok_filter: "files_ok files \<Longrightarrow> files_ok (filter P files)"
  by (auto simp: files_ok_def list_all_iff distinct_map_filter)

lemma directories_ok_filter: "directories_ok dirs \<Longrightarrow> (\<And>r. P ([], r)) \<Longrightarrow> directories_ok (filter P dirs)"
  by (auto simp: directories_ok_def list_all_iff distinct_map_filter map_has_iff image_iff)

lemma directoryRecord_parts [simp]:
  "wd_mtime (directoryRecord p t) = t" "wd_path (directoryRecord (workspace_path p) t) = workspace_path p"
  "wd_path (directoryRecord [] t) = workspace_path []"
  by (simp_all add: directoryRecord_def workspace_path_def)

lemma store_okD:
  assumes "store_ok s"
  shows "map_has (ws_filemap s) p \<Longrightarrow> p \<noteq> [] \<and> ws_path_ok p" "map_has (ws_directories s) p \<Longrightarrow> ws_path_ok p"
    "map_has (ws_directories s) []"
  using assms by (auto simp: store_ok_def files_ok_def directories_ok_def list_all_iff map_has_iff)

lemma wp_from_sum [wp_simps]:
  "wp (from_sum r) Q E = (\<lambda>s. case r of Inl e \<Rightarrow> E e s | Inr x \<Rightarrow> Q x s)"
  by (auto simp: from_sum_def wp_simps fun_eq_iff split: sum.splits)

lemma wp_currentTime:
  assumes "\<And>t k. time_ok t \<Longrightarrow> Q t (s\<lparr>ws_ticks := k\<rparr>)" "\<And>e k. E e (s\<lparr>ws_ticks := k\<rparr>)"
  shows "wp currentTime Q E s"
  using assms by (auto simp: currentTime_def wp_simps nonNegativeTime_def time_ok_def split: sum.splits if_splits)

lemma store_ok_ticks [simp]: "store_ok (s\<lparr>ws_ticks := k\<rparr>) = store_ok s"
  by (simp add: store_ok_def)


lemma store_ok_file:
  assumes "store_ok s" "p \<noteq> []" "ws_path_ok p" "\<not> map_has (ws_directories s) p"
    "map_has (ws_directories s) (parentPath p)" "wf_path r = workspace_path p" "time_ok (wf_mtime r)"
  shows "store_ok (s\<lparr>ws_filemap := AList.update p r (ws_filemap s)\<rparr>)"
  using assms unfolding store_ok_def
  by (auto simp: validate_iff intro: files_ok_update)

lemma store_ok_delete: "store_ok s \<Longrightarrow> store_ok (s\<lparr>ws_filemap := AList.delete p (ws_filemap s)\<rparr>)"
  unfolding store_ok_def by (auto simp: validate_iff intro: files_ok_delete)

lemma store_ok_directory:
  assumes "store_ok s" "ws_path_ok p" "\<not> map_has (ws_filemap s) p" "map_has (ws_directories s) (parentPath p)"
    "time_ok t"
  shows "store_ok (s\<lparr>ws_directories := AList.update p (directoryRecord (workspace_path p) t) (ws_directories s)\<rparr>)"
  using assms unfolding store_ok_def
  by (auto simp: validate_iff intro: directories_ok_update)

lemma wp_requireParentDirectory [wp_simps]:
  "wp (requireParentDirectory p) Q E = (\<lambda>s.
     if map_has (ws_filemap s) (parentPath p) then E (WsError ''not_directory'' ''workspace parent is a file'') s
     else if \<not> map_has (ws_directories s) (parentPath p)
     then E (WsError ''not_found'' ''workspace parent directory is unavailable'') s
     else Q () s)"
  by (auto simp: requireParentDirectory_def wp_simps Let_def fun_eq_iff)

lemma keeps_writeFile: "keeps store_ok (ws_writeFile path content)"
  by (rule keepsI_wp)
    (auto simp: ws_writeFile_def wp_simps Let_def intro!: wp_currentTime store_ok_file
      dest: normalizeWorkspacePath_ok split: sum.split)

lemma keeps_deleteFile: "keeps store_ok (ws_deleteFile path)"
  by (rule keepsI_wp) (auto simp: ws_deleteFile_def wp_simps intro: store_ok_delete split: sum.split)

lemma wp_ensure_step:
  assumes "next' = path_join current part" "seg_ok part"
  shows "wp (ensure_parts current (part # parts)) Q E s =
    (if map_has (ws_filemap s) next' then E (WsError ''not_directory'' ''workspace path is a file'') s
     else if map_has (ws_directories s) next' then wp (ensure_parts next' parts) Q E s
     else wp currentTime (\<lambda>time. \<lambda>s. wp (ensure_parts next' parts) Q E (s\<lparr>ws_directories :=
            AList.update next' (directoryRecord (workspace_path next') time) (ws_directories s)\<rparr>)) E s)"
proof -
  have root: "WORKSPACE_ROOT @ ''/'' @ next' = workspace_path next'"
    using assms by (auto simp: workspace_path_def path_join_def seg_ok_def)
  have step: "(if current \<noteq> [] then current @ ''/'' @ part else part) = next'"
    by (simp add: assms path_join_def)
  show ?thesis
    unfolding ensure_parts.simps Let_def step root wp_with_state
    by (simp add: wp_simps)
qed

declare ensure_parts.simps(2) [simp del]

lemma ensure_parts_ok:
  assumes "store_ok s" "canonical current" "map_has (ws_directories s) current"
    "list_all (\<lambda>p. seg_ok p \<and> CHR 0x5C \<notin> set p) parts" "CHR 0x5C \<notin> set current"
  shows "wp (ensure_parts current parts) (\<lambda>_. store_ok) (\<lambda>_. store_ok) s"
  using assms
proof (induction parts arbitrary: current s)
  case (Cons part parts)
  define next' where "next' = path_join current part"
  have j: "segs next' = segs current @ [part] \<and> canonical next'" "parentPath next' = current"
    using Cons.prems path_join_snoc [of current part] parentPath_join [of current part] by (auto simp: next'_def)
  have c: "CHR 0x5C \<notin> set next'" using Cons.prems by (auto simp: next'_def path_join_def)
  have IH: "wp (ensure_parts next' parts) (\<lambda>_. store_ok) (\<lambda>_. store_ok) t"
    if "store_ok t" "map_has (ws_directories t) next'" for t
    using Cons.IH [of t next'] that j c Cons.prems by simp
  have "seg_ok part" using Cons.prems by simp
  note step = wp_ensure_step [OF next'_def this]
  show ?case
  proof (cases "map_has (ws_directories s) next'")
    case True
    then show ?thesis
      using IH [of s] Cons.prems by (simp add: step)
  next
    case False
    have "store_ok (s\<lparr>ws_ticks := k, ws_directories :=
        AList.update next' (directoryRecord (workspace_path next') t) (ws_directories s)\<rparr>)"
      if "time_ok t" "\<not> map_has (ws_filemap s) next'" for t k
      using store_ok_directory [of "s\<lparr>ws_ticks := k\<rparr>" next' t] that Cons.prems j c by (simp add: ws_path_ok_def)
    with False show ?thesis
      using Cons.prems by (auto simp: step intro!: wp_currentTime IH)
  qed
qed (simp add: wp_simps)

lemma parts_of_path:
  assumes "ws_path_ok p"
  shows "[part \<leftarrow> js_split (CHR ''/'') p. part \<noteq> []] = segs p"
    and "list_all (\<lambda>q. seg_ok q \<and> CHR 0x5C \<notin> set q) (segs p)"
proof -
  have ok: "list_all seg_ok (segs p)" using assms by (simp add: ws_path_ok_def canonical_def)
  show "[part \<leftarrow> js_split (CHR ''/'') p. part \<noteq> []] = segs p"
  proof (cases "p = []")
    case False
    then have "js_split (CHR ''/'') p = segs p" by (simp add: segs_def)
    moreover have "[part \<leftarrow> segs p. part \<noteq> []] = segs p"
      using ok by (intro filter_True) (auto simp: list_all_iff seg_ok_def)
    ultimately show ?thesis by simp
  qed simp
  have "CHR 0x5C \<notin> set q" if "q \<in> set (segs p)" for q
    using that assms js_split_chars [of q "CHR ''/''" p] by (auto simp: ws_path_ok_def segs_def split: if_splits)
  with ok show "list_all (\<lambda>q. seg_ok q \<and> CHR 0x5C \<notin> set q) (segs p)"
    by (auto simp: list_all_iff)
qed

lemma ensureDirectory_ok:
  assumes "store_ok s" "ws_path_ok p"
  shows "wp (ensureDirectory p) (\<lambda>_. store_ok) (\<lambda>_. store_ok) s"
  using ensure_parts_ok [OF assms(1), of "[]" "segs p"] parts_of_path [OF assms(2)] store_okD(3) [OF assms(1)]
  by (simp add: ensureDirectory_def)

lemma keeps_createDirectory: "keeps store_ok (ws_createDirectory path recursive)"
proof (rule keepsI_wp)
  fix s assume ok: "store_ok s"
  show "wp (ws_createDirectory path recursive) (\<lambda>_. store_ok) (\<lambda>_. store_ok) s"
  proof (cases "normalizeWorkspacePath path")
    case (Inr rel)
    then have p: "ws_path_ok rel" by (rule normalizeWorkspacePath_ok)
    have new: "store_ok (s\<lparr>ws_ticks := k, ws_directories :=
        AList.update rel (directoryRecord (workspace_path rel) t) (ws_directories s)\<rparr>)"
      if "time_ok t" "\<not> map_has (ws_filemap s) rel" "map_has (ws_directories s) (parentPath rel)" for t k
      using store_ok_directory [of "s\<lparr>ws_ticks := k\<rparr>" rel t] that ok p by simp
    show ?thesis
    proof (cases recursive)
      case True
      then show ?thesis
        using Inr ok ensureDirectory_ok [OF ok p] by (simp add: ws_createDirectory_def wp_simps)
    next
      case False
      then show ?thesis
        using Inr ok by (simp add: ws_createDirectory_def wp_simps) (auto intro!: wp_currentTime new)
    qed
  qed (use ok in \<open>simp add: ws_createDirectory_def wp_simps\<close>)
qed

lemma map_has_filter: "map_has [e \<leftarrow> m. P (fst e)] k \<longleftrightarrow> map_has m k \<and> P k"
  by (auto simp: map_has_iff)

lemma store_ok_delete_tree:
  assumes ok: "store_ok s" and p: "ws_path_ok p" "p \<noteq> []"
  shows "store_ok (deleteDirectoryTree p s)"
proof -
  define P where "P q \<longleftrightarrow> \<not> (q = p \<or> isChildPath p q)" for q
  have up: "P (parentPath q)" if "q \<noteq> []" "ws_path_ok q" "P q" for q
    using that p below_parent [of p q] by (auto simp: ws_path_ok_def P_def)
  have root: "P []" using p by (simp add: P_def isChildPath_def)
  have "files_ok [e \<leftarrow> ws_filemap s. P (fst e)]" "directories_ok [e \<leftarrow> ws_directories s. P (fst e)]"
    using ok root by (auto simp: store_ok_def intro!: files_ok_filter directories_ok_filter)
  moreover have "validateWorkspaceGraph [e \<leftarrow> ws_filemap s. P (fst e)] [e \<leftarrow> ws_directories s. P (fst e)] = None"
    using ok up store_okD [OF ok] unfolding store_ok_def validate_iff map_has_filter by blast
  ultimately show ?thesis
    by (simp add: store_ok_def deleteDirectoryTree_def P_def)
qed

lemma keeps_deleteDirectory: "keeps store_ok (ws_deleteDirectory path recursive)"
  by (rule keepsI_wp)
    (auto simp: ws_deleteDirectory_def wp_simps intro: store_ok_delete_tree dest: normalizeWorkspacePath_ok
      split: sum.split)


lemma currentTime_run:
  "currentTime s = (if time_ok (ws_now s (ws_ticks s)) then Inr (ws_now s (ws_ticks s))
      else Inl (WsError ''invalid_snapshot'' ''workspace timestamp is invalid''),
    s\<lparr>ws_ticks := ws_ticks s + 1\<rparr>)"
  by (auto simp: currentTime_def run_seq nonNegativeTime_def from_sum_def time_ok_def)

lemma mv_eq:
  assumes "src \<noteq> []"
  shows "p = src \<or> isChildPath src p \<Longrightarrow> ws_replacePathPrefix p src tgt = moved_path src tgt p"
    and "\<not> (p = src \<or> isChildPath src p) \<Longrightarrow> moved_path src tgt p = p"
  using assms
  by (auto simp: ws_replacePathPrefix_def moved_path_def at_or_below_def replacePathPrefix_def isChildPath_def prefix_def)

definition clock_ok :: "ws_store \<Rightarrow> bool" where
  "clock_ok s \<longleftrightarrow> (\<forall>n. time_ok (ws_now s n))"

lemma clock_ok_ticks [simp]: "clock_ok (s\<lparr>ws_ticks := k\<rparr>) = clock_ok s"
  by (simp add: clock_ok_def)

text \<open>What a list of directory records keeps while it is moved: \<open>directories_ok\<close> apart from the root.\<close>

definition entries_ok :: "(string \<times> ws_dir) list \<Rightarrow> bool" where
  "entries_ok m \<longleftrightarrow> distinct (map_keys m) \<and>
     list_all (\<lambda>(p, r). ws_path_ok p \<and> wd_path r = workspace_path p \<and> time_ok (wd_mtime r)) m"

lemma entries_ok_update:
  assumes "entries_ok m" "ws_path_ok p" "wd_path r = workspace_path p" "time_ok (wd_mtime r)"
  shows "entries_ok (AList.update p r m)"
proof -
  have "set (AList.update p r m) \<subseteq> insert (p, r) (set m)" by (induction m) auto
  then show ?thesis using assms by (auto simp: entries_ok_def list_all_iff)
qed

lemma directories_ok_entries: "directories_ok m \<longleftrightarrow> entries_ok m \<and> map_has m []"
  by (auto simp: directories_ok_def entries_ok_def)

lemma ws_path_ok_moved:
  assumes "src \<noteq> []" "ws_path_ok src" "tgt \<noteq> []" "ws_path_ok tgt" "ws_path_ok p"
  shows "ws_path_ok (moved_path src tgt p)" "p \<noteq> [] \<Longrightarrow> moved_path src tgt p \<noteq> []"
  using assms canonical_moved_path [of src tgt p]
  by (auto simp: ws_path_ok_def moved_path_def replacePathPrefix_def dest: in_set_dropD)

lemma move_directories_run:
  assumes src: "src \<noteq> []" "ws_path_ok src" "tgt \<noteq> []" "ws_path_ok tgt"
  shows "entries_ok acc \<Longrightarrow> entries_ok xs \<Longrightarrow>
    (\<exists>k. (\<exists>e. \<not> clock_ok s \<and> move_directories src tgt xs acc s = (Inl e, s\<lparr>ws_ticks := k\<rparr>)) \<or>
         (\<exists>L. move_directories src tgt xs acc s = (Inr L, s\<lparr>ws_ticks := k\<rparr>) \<and> entries_ok L \<and>
           (\<forall>q. map_has L q \<longleftrightarrow> map_has acc q \<or> (\<exists>p. map_has xs p \<and> q = moved_path src tgt p))))"
proof (induction xs arbitrary: acc s)
  case Nil
  then show ?case by (intro exI [of _ "ws_ticks s"] disjI2) (simp add: map_has_def)
next
  case (Cons x xs)
  obtain path rc where x: "x = (path, rc)" by (cases x)
  have rest: "entries_ok xs" and p: "ws_path_ok path" "wd_path rc = workspace_path path" "time_ok (wd_mtime rc)"
    using Cons.prems(2) x by (auto simp: entries_ok_def)
  have has: "map_has (x # xs) q \<longleftrightarrow> q = path \<or> map_has xs q" for q
    by (auto simp: map_has_def x)
  let ?m = "moved_path src tgt path"
  have combine: ?case if step: "move_directories src tgt (x # xs) acc s = move_directories src tgt xs (AList.update ?m r acc) t"
    and t: "t = s\<lparr>ws_ticks := j\<rparr>" and r: "entries_ok (AList.update ?m r acc)" for r t j
  proof -
    obtain k where "(\<exists>e. \<not> clock_ok s \<and> move_directories src tgt xs (AList.update ?m r acc) t = (Inl e, s\<lparr>ws_ticks := k\<rparr>)) \<or>
         (\<exists>L. move_directories src tgt xs (AList.update ?m r acc) t = (Inr L, s\<lparr>ws_ticks := k\<rparr>) \<and> entries_ok L \<and>
           (\<forall>q. map_has L q \<longleftrightarrow> map_has (AList.update ?m r acc) q \<or> (\<exists>p. map_has xs p \<and> q = moved_path src tgt p)))"
      using Cons.IH [OF r rest, of t] t by auto
    then show ?thesis unfolding step has by (intro exI [of _ k]) auto
  qed
  show ?case
  proof (cases "path = src \<or> isChildPath src path")
    case True
    have mp: "ws_replacePathPrefix path src tgt = ?m" using mv_eq(1) [OF src(1) True] .
    show ?thesis
    proof (cases "time_ok (ws_now s (ws_ticks s))")
      case time: True
      show ?thesis
        by (rule combine [of "rc\<lparr>wd_mtime := ws_now s (ws_ticks s), wd_path := workspace_path ?m\<rparr>"
              "s\<lparr>ws_ticks := ws_ticks s + 1\<rparr>" "ws_ticks s + 1"])
          (use True time mp Cons.prems(1) p(1) ws_path_ok_moved [OF src] in
            \<open>simp_all add: x Let_def run_bind currentTime_run entries_ok_update\<close>)
    next
      case False
      then show ?thesis
        using True by (intro exI [of _ "ws_ticks s + 1"] disjI1)
          (auto simp: x Let_def run_bind currentTime_run clock_ok_def)
    qed
  next
    case False
    then show ?thesis
      using mv_eq(2) [OF src(1) False]
      by (intro combine [of rc s "ws_ticks s"]) (use Cons.prems(1) p in \<open>simp_all add: x entries_ok_update\<close>)
  qed
qed


definition contents :: "(string \<times> ws_file) list \<Rightarrow> string \<Rightarrow> byte list option" where
  "contents m p = map_option wf_content (map_of m p)"

lemma contents_update [simp]:
  "contents (AList.update k r m) p = (if p = k then Some (wf_content r) else contents m p)"
  by (simp add: contents_def)

lemma contents_Cons: "contents ((k, r) # m) p = (if p = k then Some (wf_content r) else contents m p)"
  by (simp add: contents_def)

lemma contents_delete [simp]: "contents (AList.delete k m) p = (if p = k then None else contents m p)"
  by (simp add: contents_def)

lemma contents_None: "contents m p = None \<longleftrightarrow> \<not> map_has m p"
  by (simp add: contents_def map_has_def)

text \<open>\<open>moved_into\<close>: \<open>L\<close> is \<open>acc\<close> with the files of \<open>xs\<close> under their new paths.\<close>

definition moved_into ::
  "string \<Rightarrow> string \<Rightarrow> (string \<times> ws_file) list \<Rightarrow> (string \<times> ws_file) list \<Rightarrow> (string \<times> ws_file) list \<Rightarrow> bool" where
  "moved_into src tgt xs acc L \<longleftrightarrow>
     (\<forall>p. map_has xs p \<longrightarrow> contents L (moved_path src tgt p) = contents xs p) \<and>
     (\<forall>q. (\<forall>p. map_has xs p \<longrightarrow> q \<noteq> moved_path src tgt p) \<longrightarrow> contents L q = contents acc q)"

lemma move_files_run:
  assumes src: "src \<noteq> []" "ws_path_ok src" "tgt \<noteq> []" "ws_path_ok tgt"
  shows "files_ok acc \<Longrightarrow> files_ok xs \<Longrightarrow> \<not> map_has xs src \<Longrightarrow> inj_on (moved_path src tgt) {p. map_has xs p} \<Longrightarrow>
    (\<exists>k. (\<exists>e. \<not> clock_ok s \<and> move_files src tgt xs acc s = (Inl e, s\<lparr>ws_ticks := k\<rparr>)) \<or>
         (\<exists>L. move_files src tgt xs acc s = (Inr L, s\<lparr>ws_ticks := k\<rparr>) \<and> files_ok L \<and> moved_into src tgt xs acc L))"
proof (induction xs arbitrary: acc s)
  case Nil
  then show ?case
    by (intro exI [of _ "ws_ticks s"] disjI2) (simp add: moved_into_def contents_def map_has_def)
next
  case (Cons x xs)
  obtain path rc where x: "x = (path, rc)" by (cases x)
  have rest: "files_ok xs" and p: "path \<noteq> []" "ws_path_ok path" "wf_path rc = workspace_path path" "time_ok (wf_mtime rc)"
    and new: "\<not> map_has xs path"
    using Cons.prems(2) x by (auto simp: files_ok_def map_has_iff)
  have has: "map_has (x # xs) q \<longleftrightarrow> q = path \<or> map_has xs q" for q
    by (auto simp: map_has_def x)
  then have "path \<noteq> src" "\<not> map_has xs src" and inj: "inj_on (moved_path src tgt) {p. map_has xs p}"
    using Cons.prems(3,4) by (auto intro: inj_on_subset)
  let ?m = "moved_path src tgt path"
  have other: "moved_path src tgt q \<noteq> ?m" if "map_has xs q" for q
    using inj_onD [OF Cons.prems(4), of q path] that new has by auto
  have combine: ?case if step: "move_files src tgt (x # xs) acc s = move_files src tgt xs (AList.update ?m r acc) t"
    and t: "t = s\<lparr>ws_ticks := j\<rparr>" and r: "files_ok (AList.update ?m r acc)" "wf_content r = wf_content rc" for r t j
  proof -
    have moved: "moved_into src tgt (x # xs) acc L" if "moved_into src tgt xs (AList.update ?m r acc) L" for L
    proof -
      have "(\<forall>p. map_has xs p \<longrightarrow> ?m \<noteq> moved_path src tgt p) \<longrightarrow> contents L ?m = contents (AList.update ?m r acc) ?m"
        using that unfolding moved_into_def by blast
      then have "contents L ?m = Some (wf_content rc)"
        using other r(2) by (metis contents_update)
      then show ?thesis
        using that other new unfolding moved_into_def has by (auto simp: x contents_Cons)
    qed
    obtain k where "(\<exists>e. \<not> clock_ok s \<and> move_files src tgt xs (AList.update ?m r acc) t = (Inl e, s\<lparr>ws_ticks := k\<rparr>)) \<or>
         (\<exists>L. move_files src tgt xs (AList.update ?m r acc) t = (Inr L, s\<lparr>ws_ticks := k\<rparr>) \<and> files_ok L \<and>
           moved_into src tgt xs (AList.update ?m r acc) L)"
      using Cons.IH [OF r(1) rest _ inj, of t] \<open>\<not> map_has xs src\<close> t by auto
    then show ?thesis unfolding step using moved by (intro exI [of _ k]) auto
  qed
  show ?case
  proof (cases "isChildPath src path")
    case True
    have mp: "ws_replacePathPrefix path src tgt = ?m" using mv_eq(1) [OF src(1)] True by blast
    have ne: "?m \<noteq> []" "ws_path_ok ?m" using ws_path_ok_moved [OF src p(2)] p(1) by auto
    then have wsp: "WORKSPACE_ROOT @ ''/'' @ ?m = workspace_path ?m" by (simp add: workspace_path_def)
    show ?thesis
    proof (cases "time_ok (ws_now s (ws_ticks s))")
      case time: True
      show ?thesis
      proof (rule combine)
        show "move_files src tgt (x # xs) acc s = move_files src tgt xs (AList.update ?m
            (rc\<lparr>wf_mtime := ws_now s (ws_ticks s), wf_path := workspace_path ?m\<rparr>) acc) (s\<lparr>ws_ticks := ws_ticks s + 1\<rparr>)"
          unfolding x move_files.simps Let_def mp wsp using True time by (simp add: run_bind currentTime_run)
      qed (use time ne Cons.prems(1) in \<open>simp_all add: files_ok_update\<close>)
    next
      case False
      then show ?thesis
        using True by (intro exI [of _ "ws_ticks s + 1"] disjI1)
          (auto simp: x Let_def run_bind currentTime_run clock_ok_def)
    qed
  next
    case False
    then show ?thesis
      using mv_eq(2) [OF src(1), of path] \<open>path \<noteq> src\<close>
      by (intro combine [of rc s "ws_ticks s"]) (use Cons.prems(1) p in \<open>simp_all add: x files_ok_update\<close>)
  qed
qed

lemma moved_into_has:
  assumes "moved_into src tgt xs [] L"
  shows "map_has L q \<longleftrightarrow> (\<exists>p. map_has xs p \<and> q = moved_path src tgt p)"
proof
  show "map_has L q \<Longrightarrow> \<exists>p. map_has xs p \<and> q = moved_path src tgt p"
    using assms contents_None [of L q] by (fastforce simp: moved_into_def contents_def)
next
  assume "\<exists>p. map_has xs p \<and> q = moved_path src tgt p"
  then obtain p where "map_has xs p" "contents L q = contents xs p"
    using assms by (auto simp: moved_into_def)
  then show "map_has L q" by (metis contents_None)
qed


section \<open>Renaming keeps the store well formed\<close>

text \<open>\<open>rename_target\<close>: what \<open>ws_rename\<close> has checked when it moves a directory.\<close>

definition rename_target :: "ws_store \<Rightarrow> string \<Rightarrow> string \<Rightarrow> bool" where
  "rename_target s src tgt \<longleftrightarrow> src \<noteq> [] \<and> ws_path_ok src \<and> tgt \<noteq> [] \<and> ws_path_ok tgt \<and>
     \<not> map_has (ws_filemap s) tgt \<and> \<not> map_has (ws_directories s) tgt \<and>
     map_has (ws_directories s) (parentPath tgt) \<and> \<not> isChildPath src tgt"

abbreviation ws_name :: "ws_store \<Rightarrow> string \<Rightarrow> bool" where
  "ws_name s p \<equiv> map_has (ws_filemap s) p \<or> map_has (ws_directories s) p"

lemma name_ok: "store_ok s \<Longrightarrow> ws_name s p \<Longrightarrow> ws_path_ok p"
  using store_okD by blast

lemma name_parent: "store_ok s \<Longrightarrow> ws_name s p \<Longrightarrow> p \<noteq> [] \<Longrightarrow> map_has (ws_directories s) (parentPath p)"
  by (auto simp: store_ok_def validate_iff)

lemma no_name_below:
  assumes ok: "store_ok s" and tgt: "canonical tgt" "\<not> ws_name s tgt"
  shows "ws_name s p \<Longrightarrow> \<not> prefix (segs tgt) (segs p)"
proof (induction "length (segs p)" arbitrary: p rule: less_induct)
  case less
  show ?case
  proof
    assume pre: "prefix (segs tgt) (segs p)"
    have c: "canonical p" using name_ok [OF ok less.prems] by (simp add: ws_path_ok_def)
    have ne: "p \<noteq> tgt" using less.prems tgt by auto
    have "p \<noteq> []"
    proof
      assume "p = []"
      then have "segs tgt = []" using pre by simp
      then show False using ne \<open>p = []\<close> by simp
    qed
    then have up: "map_has (ws_directories s) (parentPath p)" "segs p \<noteq> []"
      using name_parent [OF ok less.prems] by auto
    have "prefix (segs tgt) (segs (parentPath p))"
      using pre ne strict_prefix_butlast [OF up(2), of "segs tgt"] segs_parentPath(1) [OF c]
      by (auto simp: strict_prefix_def canonical_inj)
    moreover have "length (segs (parentPath p)) < length (segs p)"
      using up(2) segs_parentPath(1) [OF c] by (cases "segs p" rule: rev_cases) auto
    ultimately show False using less.hyps up(1) by blast
  qed
qed

lemma segs_moved_name:
  assumes "store_ok s" "rename_target s src tgt" "ws_name s p"
  shows "segs (moved_path src tgt p) =
    (if prefix (segs src) (segs p) then segs tgt @ drop (length (segs src)) (segs p) else segs p)"
    and "\<not> prefix (segs tgt) (segs p)"
  using assms name_ok [OF assms(1,3)] no_name_below [OF assms(1) _ _ assms(3), of tgt]
  by (auto simp: rename_target_def ws_path_ok_def segs_moved_path)

lemma moved_names_inj:
  assumes "store_ok s" "rename_target s src tgt"
  shows "inj_on (moved_path src tgt) {p. ws_name s p}"
proof (rule inj_onI)
  fix p q
  assume "p \<in> {p. ws_name s p}" "q \<in> {p. ws_name s p}" and eq: "moved_path src tgt p = moved_path src tgt q"
  then have "segs p = segs q"
    using segs_moved_name [OF assms, of p] segs_moved_name [OF assms, of q] eq
    by (auto simp: prefix_def split: if_splits; metis)
  then show "p = q" by (simp add: canonical_inj)
qed

lemma parent_moved:
  assumes src: "canonical src" "src \<noteq> []" "canonical tgt" "tgt \<noteq> []" and p: "canonical p" "p \<noteq> []" "p \<noteq> src"
  shows "parentPath (moved_path src tgt p) = moved_path src tgt (parentPath p)"
proof -
  note up = segs_parentPath [OF p(1)] and mv = segs_moved_path [OF src]
  have "prefix (segs src) (segs p) \<longleftrightarrow> prefix (segs src) (butlast (segs p))"
    using strict_prefix_butlast [of "segs p" "segs src"] p by (auto simp: strict_prefix_def canonical_inj)
  moreover have "butlast (segs tgt @ drop (length (segs src)) (segs p)) = segs tgt @ drop (length (segs src)) (butlast (segs p))"
    if "prefix (segs src) (butlast (segs p))"
    using that p(2) by (cases "segs p" rule: rev_cases) (auto simp: butlast_append prefix_def)
  ultimately have "segs (parentPath (moved_path src tgt p)) = segs (moved_path src tgt (parentPath p))"
    using segs_parentPath(1) [OF canonical_moved_path [OF src p(1)]] mv [OF p(1)] mv [OF up(2)] up(1) by auto
  then show ?thesis by (simp add: canonical_inj)
qed

lemma store_ok_moved:
  assumes ok: "store_ok s" and tgt: "rename_target s src tgt" and src: "map_has (ws_directories s) src"
    and dirs: "entries_ok D" "\<And>q. map_has D q \<longleftrightarrow> (\<exists>p. map_has (ws_directories s) p \<and> q = moved_path src tgt p)"
    and files: "files_ok F" "\<And>q. map_has F q \<longleftrightarrow> (\<exists>p. map_has (ws_filemap s) p \<and> q = moved_path src tgt p)"
  shows "store_ok (s\<lparr>ws_directories := D, ws_filemap := F\<rparr>)"
proof -
  note graph = ok [unfolded store_ok_def validate_iff]
  have t: "canonical src" "src \<noteq> []" "canonical tgt" "tgt \<noteq> []" "map_has (ws_directories s) (parentPath tgt)"
    using tgt by (auto simp: rename_target_def ws_path_ok_def)
  have root: "moved_path src tgt [] = []" using t by (simp add: moved_path_def at_or_below_def)
  have above: "moved_path src tgt (parentPath tgt) = parentPath tgt"
  proof (rule mv_eq(2) [OF t(2)])
    show "\<not> (parentPath tgt = src \<or> isChildPath src (parentPath tgt))"
      using below_parent [OF t(1,3,4)] tgt by (auto simp: rename_target_def)
  qed
  have up: "map_has D (parentPath (moved_path src tgt p))" if "ws_name s p" "p \<noteq> []" for p
  proof (cases "p = src")
    case True
    then have "moved_path src tgt p = tgt" by (simp add: moved_path_def at_or_below_def replacePathPrefix_def)
    then show ?thesis using above t(5) dirs(2) by metis
  next
    case False
    have "canonical p" using name_ok [OF ok that(1)] by (simp add: ws_path_ok_def)
    then show ?thesis
      using parent_moved [OF t(1-4) _ that(2) False] name_parent [OF ok that] dirs(2) by metis
  qed
  have apart: "\<not> map_has D q" if fq: "map_has F q" for q
  proof
    assume "map_has D q"
    then obtain d f where "map_has (ws_directories s) d" "map_has (ws_filemap s) f"
      "moved_path src tgt d = moved_path src tgt f"
      using dirs(2) files(2) fq by auto
    then have "d = f" using inj_onD [OF moved_names_inj [OF ok tgt], of d f] by simp
    then show False using graph \<open>map_has (ws_directories s) d\<close> \<open>map_has (ws_filemap s) f\<close> by blast
  qed
  have nf: "p \<noteq> []" if "map_has (ws_filemap s) p" for p using store_okD(1) [OF ok that] by simp
  have "validateWorkspaceGraph F D = None"
    unfolding validate_iff
  proof (intro conjI allI impI)
    fix q assume "map_has F q"
    then obtain p where "map_has (ws_filemap s) p" "q = moved_path src tgt p" using files(2) by auto
    then show "map_has D (parentPath q)" using up nf by blast
  next
    fix q assume q: "map_has D q" "q \<noteq> []"
    then obtain p where "map_has (ws_directories s) p" "q = moved_path src tgt p" using dirs(2) by auto
    then show "map_has D (parentPath q)" using up root q(2) by metis
  qed (use apart in blast)
  moreover have "map_has D []" using dirs(2) root store_okD(3) [OF ok] by metis
  ultimately show ?thesis
    using dirs(1) files(1) by (simp add: store_ok_def directories_ok_entries)
qed


text \<open>What a rename of a directory leaves: every name moved, with its content.\<close>

definition moved_store :: "string \<Rightarrow> string \<Rightarrow> ws_store \<Rightarrow> ws_store \<Rightarrow> bool" where
  "moved_store src tgt s t \<longleftrightarrow> store_ok t \<and>
     (\<forall>q. map_has (ws_directories t) q \<longleftrightarrow> (\<exists>p. map_has (ws_directories s) p \<and> q = moved_path src tgt p)) \<and>
     moved_into src tgt (ws_filemap s) [] (ws_filemap t)"

lemma renameDirectory_run:
  assumes ok: "store_ok s" and tgt: "rename_target s src tgt" and src: "map_has (ws_directories s) src"
  shows "(\<exists>k e. \<not> clock_ok s \<and> renameDirectory src tgt s = (Inl e, s\<lparr>ws_ticks := k\<rparr>)) \<or>
         (\<exists>t. renameDirectory src tgt s = (Inr (), t) \<and> moved_store src tgt s t)"
proof -
  have t: "src \<noteq> []" "ws_path_ok src" "tgt \<noteq> []" "ws_path_ok tgt" "tgt \<noteq> src" "\<not> isChildPath src tgt"
    using tgt src by (auto simp: rename_target_def)
  have nofile: "\<not> map_has (ws_filemap s) src" using ok src by (auto simp: store_ok_def validate_iff)
  have parts: "entries_ok (ws_directories s)" "files_ok (ws_filemap s)" "entries_ok []" "files_ok []"
    using ok by (simp_all add: store_ok_def directories_ok_entries entries_ok_def files_ok_def)
  have inj: "inj_on (moved_path src tgt) {p. map_has (ws_filemap s) p}"
    by (rule inj_on_subset [OF moved_names_inj [OF ok tgt]]) auto
  have run: "renameDirectory src tgt s =
      bindM (move_directories src tgt (ws_directories s) []) (\<lambda>movedDirectories.
        bindM (move_files src tgt (ws_filemap s) []) (\<lambda>movedFiles.
        modifyM (\<lambda>s. s\<lparr>ws_directories := movedDirectories, ws_filemap := movedFiles\<rparr>))) s"
    using t by (simp add: renameDirectory_def)
  consider (stop) k e where "\<not> clock_ok s"
      "move_directories src tgt (ws_directories s) [] s = (Inl e, s\<lparr>ws_ticks := k\<rparr>)"
    | (dirs) k D where "move_directories src tgt (ws_directories s) [] s = (Inr D, s\<lparr>ws_ticks := k\<rparr>)"
      "entries_ok D" "\<And>q. map_has D q \<longleftrightarrow> (\<exists>p. map_has (ws_directories s) p \<and> q = moved_path src tgt p)"
    using move_directories_run [OF t(1-4) parts(3,1), of s] by (auto simp: map_has_def)
  then show ?thesis
  proof cases
    case stop
    then show ?thesis unfolding run by auto
  next
    case (dirs k D)
    consider (stop') j e where "\<not> clock_ok s"
        "move_files src tgt (ws_filemap s) [] (s\<lparr>ws_ticks := k\<rparr>) = (Inl e, s\<lparr>ws_ticks := j\<rparr>)"
      | (files) j F where "move_files src tgt (ws_filemap s) [] (s\<lparr>ws_ticks := k\<rparr>) = (Inr F, s\<lparr>ws_ticks := j\<rparr>)"
        "files_ok F" "moved_into src tgt (ws_filemap s) [] F"
      using move_files_run [OF t(1-4) parts(4,2) nofile inj, of "s\<lparr>ws_ticks := k\<rparr>"] by auto
    then show ?thesis
    proof cases
      case stop'
      then show ?thesis unfolding run using dirs(1) by auto
    next
      case (files j F)
      have "store_ok (s\<lparr>ws_directories := D, ws_filemap := F\<rparr>)"
        by (rule store_ok_moved [OF ok tgt src dirs(2,3) files(2) moved_into_has [OF files(3)]])
      then have "store_ok (s\<lparr>ws_ticks := j, ws_directories := D, ws_filemap := F\<rparr>)" by (simp add: store_ok_def)
      then show ?thesis unfolding run using dirs files by (auto simp: moved_store_def)
    qed
  qed
qed

lemma ws_rename_run:
  assumes ok: "store_ok s"
  obtains (failed) e k where "ws_rename fromPath toPath s = (Inl e, s\<lparr>ws_ticks := k\<rparr>)"
  | (lost) e src k where "\<not> clock_ok s" "ws_rename fromPath toPath s =
      (Inl e, s\<lparr>ws_filemap := AList.delete src (ws_filemap s), ws_ticks := k\<rparr>)"
  | (moved_file) src tgt rc time k where "normalizeWorkspacePath fromPath = Inr src"
      "normalizeWorkspacePath toPath = Inr tgt" "map_of (ws_filemap s) src = Some rc" "tgt \<noteq> []" "\<not> ws_name s tgt"
      "map_has (ws_directories s) (parentPath tgt)" "time_ok time"
      "ws_rename fromPath toPath s = (Inr (), s\<lparr>ws_ticks := k, ws_filemap := AList.update tgt
         (rc\<lparr>wf_mtime := time, wf_path := workspace_path tgt\<rparr>) (AList.delete src (ws_filemap s))\<rparr>)"
  | (moved_dir) src tgt t where "normalizeWorkspacePath fromPath = Inr src" "normalizeWorkspacePath toPath = Inr tgt"
      "rename_target s src tgt" "map_has (ws_directories s) src" "moved_store src tgt s t"
      "ws_rename fromPath toPath s = (Inr (), t)"
proof -
  have same: "s = s\<lparr>ws_ticks := ws_ticks s\<rparr>" by simp
  show ?thesis
  proof (cases "normalizeWorkspacePath fromPath")
    case (Inl e)
    then show ?thesis by (intro failed [of e "ws_ticks s"]) (simp add: ws_rename_def from_sum_def run_bind)
  next
    case src: (Inr src)
    show ?thesis
    proof (cases "normalizeWorkspacePath toPath")
      case (Inl e)
      with src show ?thesis by (intro failed [of e "ws_ticks s"]) (simp add: ws_rename_def from_sum_def run_bind)
    next
      case tgt: (Inr tgt)
      define ready where "ready \<longleftrightarrow> src \<noteq> [] \<and> tgt \<noteq> [] \<and> \<not> map_has (ws_filemap s) (parentPath tgt) \<and>
        map_has (ws_directories s) (parentPath tgt) \<and> \<not> ws_name s tgt"
      show ?thesis
      proof (cases ready)
        case False
        note steps = src tgt ws_rename_def from_sum_def run_bind run_seq requireParentDirectory_def Let_def
        have "\<exists>e. ws_rename fromPath toPath s = (Inl e, s)"
        proof (cases "src = [] \<or> tgt = []")
          case True
          then show ?thesis by (simp add: steps)
        next
          case ne: False
          show ?thesis
          proof (cases "map_has (ws_filemap s) (parentPath tgt) \<or> \<not> map_has (ws_directories s) (parentPath tgt)")
            case True
            with ne show ?thesis by (cases "map_has (ws_filemap s) (parentPath tgt)") (simp_all add: steps)
          next
            case False
            then have "ws_name s tgt" using ne \<open>\<not> ready\<close> by (simp add: ready_def)
            with ne False show ?thesis by (simp add: steps)
          qed
        qed
        then obtain e where "ws_rename fromPath toPath s = (Inl e, s)" ..
        then show ?thesis using failed [of e "ws_ticks s"] by simp
      next
        case ready: True
        then have run: "ws_rename fromPath toPath s =
          (case map_of (ws_filemap s) src of
             Some rc \<Rightarrow>
               seqM (modifyM (\<lambda>s. s\<lparr>ws_filemap := AList.delete src (ws_filemap s)\<rparr>))
               (bindM currentTime (\<lambda>time.
                 modifyM (\<lambda>s. s\<lparr>ws_filemap := AList.update tgt
                   (rc\<lparr>wf_mtime := time, wf_path := workspace_path tgt\<rparr>) (ws_filemap s)\<rparr>))) s
           | None \<Rightarrow>
               if map_has (ws_directories s) src then renameDirectory src tgt s
               else (Inl (WsError ''not_found'' ''workspace source is unavailable''), s))"
          using src tgt by (simp add: ready_def ws_rename_def from_sum_def run_bind run_seq requireParentDirectory_def Let_def
              split: option.split)
        show ?thesis
        proof (cases "map_of (ws_filemap s) src")
          case None
          show ?thesis
          proof (cases "map_has (ws_directories s) src \<and> \<not> isChildPath src tgt")
            case True
            have rt: "rename_target s src tgt"
              using ready True normalizeWorkspacePath_ok [OF src] normalizeWorkspacePath_ok [OF tgt]
              by (simp add: ready_def rename_target_def)
            have run': "ws_rename fromPath toPath s = renameDirectory src tgt s"
              using True None run by simp
            consider (a) k e where "renameDirectory src tgt s = (Inl e, s\<lparr>ws_ticks := k\<rparr>)"
              | (b) t where "renameDirectory src tgt s = (Inr (), t)" "moved_store src tgt s t"
              using renameDirectory_run [OF ok rt] True by blast
            then show ?thesis
            proof cases
              case (a k e)
              then show ?thesis using run' by (intro failed) simp
            next
              case (b t)
              then show ?thesis using run' True by (intro moved_dir [OF src tgt rt]) simp_all
            qed
          next
            case False
            have "tgt \<noteq> src" if "map_has (ws_directories s) src" using ready that by (auto simp: ready_def)
            then have "\<exists>e. ws_rename fromPath toPath s = (Inl e, s)"
              using False None run
              by (cases "map_has (ws_directories s) src") (simp_all add: renameDirectory_def)
            then obtain e where "ws_rename fromPath toPath s = (Inl e, s)" ..
            then show ?thesis using failed [of e "ws_ticks s"] by simp
          qed
        next
          case (Some rc)
          show ?thesis
          proof (cases "time_ok (ws_now s (ws_ticks s))")
            case True
            with Some run ready src tgt show ?thesis
              by (intro moved_file [of src tgt rc]) (auto simp: ready_def run_seq run_bind currentTime_run)
          next
            case False
            with Some run show ?thesis
              by (intro lost [where src = src and k = "ws_ticks s + 1"]) (auto simp: clock_ok_def run_seq run_bind currentTime_run)
          qed
        qed
      qed
    qed
  qed
qed


lemma keeps_rename: "keeps store_ok (ws_rename fromPath toPath)"
  unfolding keeps_def
proof (intro allI impI)
  fix s assume ok: "store_ok s"
  show "store_ok (snd (ws_rename fromPath toPath s))"
  proof (rule ws_rename_run [OF ok, of fromPath toPath])
    fix src tgt rc time k
    assume r: "ws_rename fromPath toPath s = (Inr (), s\<lparr>ws_ticks := k, ws_filemap := AList.update tgt
         (rc\<lparr>wf_mtime := time, wf_path := workspace_path tgt\<rparr>) (AList.delete src (ws_filemap s))\<rparr>)"
      "normalizeWorkspacePath toPath = Inr tgt" "tgt \<noteq> []" "\<not> ws_name s tgt" "map_has (ws_directories s) (parentPath tgt)" "time_ok time"
    have "store_ok (s\<lparr>ws_filemap := AList.delete src (ws_filemap s)\<rparr>)"
      using store_ok_delete [OF ok] .
    from store_ok_file [OF this, of tgt "rc\<lparr>wf_mtime := time, wf_path := workspace_path tgt\<rparr>"] r
      normalizeWorkspacePath_ok [OF r(2)]
    have "store_ok (s\<lparr>ws_filemap := AList.update tgt
         (rc\<lparr>wf_mtime := time, wf_path := workspace_path tgt\<rparr>) (AList.delete src (ws_filemap s))\<rparr>)" by simp
    then show ?thesis using r(1) by (simp add: store_ok_def)
  qed (use ok store_ok_delete [OF ok] in \<open>auto simp: moved_store_def store_ok_def\<close>)
qed

section \<open>Snapshots\<close>

lemma load_directories_ok:
  "load_directories es acc = Inr m \<Longrightarrow> directories_ok acc \<Longrightarrow> directories_ok m"
proof (induction es arbitrary: acc)
  case (Cons e es)
  then show ?case
    by (auto simp: nonNegativeTime_def time_ok_def dest!: normalizeWorkspacePath_ok split: sum.splits if_splits
        intro!: Cons.IH directories_ok_update)
qed simp

lemma load_files_ok:
  "load_files es acc = Inr m \<Longrightarrow> files_ok acc \<Longrightarrow> files_ok m"
proof (induction es arbitrary: acc)
  case (Cons e es)
  then show ?case
    by (auto simp: nonNegativeTime_def time_ok_def dest!: normalizeWorkspacePath_ok split: sum.splits if_splits option.splits
        intro!: Cons.IH files_ok_update)
qed simp

lemma root_entry_ok: "time_ok t \<Longrightarrow> directories_ok [([], directoryRecord [] t)]"
  by (simp add: directories_ok_def ws_path_ok_def map_has_def)

lemma keeps_loadSnapshot: "keeps store_ok (loadSnapshot sn)"
proof (rule keepsI_wp)
  fix s assume ok: "store_ok s"
  have "store_ok (s\<lparr>ws_ticks := k, ws_directories := D, ws_filemap := F\<rparr>)"
    if "load_directories ds [([], directoryRecord [] t)] = Inr D" "load_files fs [] = Inr F" "time_ok t"
      "validateWorkspaceGraph F D = None" for ds fs t D F k
    using load_directories_ok [OF that(1) root_entry_ok [OF that(3)]] load_files_ok [OF that(2)] that(4)
    by (simp add: store_ok_def files_ok_def)
  then show "wp (loadSnapshot sn) (\<lambda>_. store_ok) (\<lambda>_. store_ok) s"
    using ok by (auto simp: loadSnapshot_def wp_simps intro!: wp_currentTime split: sum.split option.split)
qed

end
