(* ===== verification/Workspace_Spec.thy ===== *)
theory Workspace_Spec imports Workspace_Store begin

text \<open>
  What \<open>MemoryBrowserWorkspaceStore\<close> promises, apart from time stamps: a tree of files and
  directories (\<open>ws_tree\<close>: what stands at each path), and one abstract operation per method
  (\<open>spec_step\<close>). \<open>ws_abs\<close> reads the tree off a store. Proved: each method of the model does, on a
  well-formed store whose clock works, what its abstract operation says, with the same result or
  the same error; an operation that fails leaves the tree as it was.
\<close>

section \<open>Calls\<close>

datatype ws_call =
    WriteFile string "byte list" | ReadFile string | DeleteFile string
  | CreateDirectory string bool | DeleteDirectory string bool | ReadDirectory string
  | StatOf string | Rename string string | is_ImportSnapshot: ImportSnapshot snapshot

datatype ws_value = WsUnit | WsBytes "byte list" | WsStatV ws_stat | WsEntries "ws_stat list"

definition as_value :: "('a \<Rightarrow> ws_value) \<Rightarrow> 'a ws \<Rightarrow> ws_value ws" where
  "as_value f m = bindM m (\<lambda>x. ret (f x))"

fun ws_step :: "(string \<Rightarrow> string \<Rightarrow> int) \<Rightarrow> ws_call \<Rightarrow> ws_value ws" where
  "ws_step collate (WriteFile p b) = as_value WsStatV (ws_writeFile p b)"
| "ws_step collate (ReadFile p) = as_value WsBytes (ws_readFile p)"
| "ws_step collate (DeleteFile p) = as_value (\<lambda>_. WsUnit) (ws_deleteFile p)"
| "ws_step collate (CreateDirectory p r) = as_value WsStatV (ws_createDirectory p r)"
| "ws_step collate (DeleteDirectory p r) = as_value (\<lambda>_. WsUnit) (ws_deleteDirectory p r)"
| "ws_step collate (ReadDirectory p) = as_value WsEntries (ws_readDirectory collate p)"
| "ws_step collate (StatOf p) = as_value WsStatV (ws_stat_of p)"
| "ws_step collate (Rename p q) = as_value (\<lambda>_. WsUnit) (ws_rename p q)"
| "ws_step collate (ImportSnapshot sn) = as_value (\<lambda>_. WsUnit) (loadSnapshot sn)"

lemma keeps_as_value: "keeps I m \<Longrightarrow> keeps I (as_value f m)"
  unfolding as_value_def by (intro keeps_intros)

lemma keeps_reads: "keeps I (ws_readFile p)" "keeps I (ws_readDirectory collate p)" "keeps I (ws_stat_of p)"
  unfolding ws_readFile_def ws_readDirectory_def ws_stat_of_def from_sum_def
  by (intro keeps_intros keeps_with_state)+

lemma ws_step_keeps: "keeps store_ok (ws_step collate c)"
  by (cases c) (simp_all add: keeps_as_value keeps_reads keeps_writeFile keeps_deleteFile keeps_createDirectory
      keeps_deleteDirectory keeps_rename keeps_loadSnapshot)

interpretation wsm: machine "ws_step collate" store_ok for collate
  by unfold_locales (rule keepsD [OF ws_step_keeps])

section \<open>Trees\<close>

datatype ws_node = DirNode | FileNode "byte list"

type_synonym ws_tree = "string \<Rightarrow> ws_node option"

definition ws_abs :: "ws_store \<Rightarrow> ws_tree" where
  "ws_abs s = (\<lambda>p. case map_of (ws_filemap s) p of
     Some r \<Rightarrow> Some (FileNode (wf_content r))
   | None \<Rightarrow> if map_has (ws_directories s) p then Some DirNode else None)"

datatype ws_answer =
  Done | Bytes "byte list" | Info bool string int | Listing "(bool \<times> string \<times> int) set"

definition node_info :: "string \<Rightarrow> ws_node \<Rightarrow> bool \<times> string \<times> int" where
  "node_info p n = (case n of
     DirNode \<Rightarrow> (False, workspace_path p, 0)
   | FileNode b \<Rightarrow> (True, workspace_path p, int (length b)))"

definition info :: "bool \<times> string \<times> int \<Rightarrow> ws_answer" where
  "info i = (case i of (f, p, n) \<Rightarrow> Info f p n)"

type_synonym spec_result = "(ws_error + ws_answer) \<times> ws_tree"

definition at_path :: "string \<Rightarrow> (string \<Rightarrow> ws_tree \<Rightarrow> spec_result) \<Rightarrow> ws_tree \<Rightarrow> spec_result" where
  "at_path path f T = (case normalizeWorkspacePath path of Inl e \<Rightarrow> (Inl e, T) | Inr p \<Rightarrow> f p T)"

definition under_dir :: "string \<Rightarrow> (ws_tree \<Rightarrow> spec_result) \<Rightarrow> ws_tree \<Rightarrow> spec_result" where
  "under_dir p f T = (case T (parentPath p) of
     Some DirNode \<Rightarrow> f T
   | Some (FileNode _) \<Rightarrow> (Inl (WsError ''not_directory'' ''workspace parent is a file''), T)
   | None \<Rightarrow> (Inl (WsError ''not_found'' ''workspace parent directory is unavailable''), T))"

definition below :: "string \<Rightarrow> string \<Rightarrow> bool" where
  "below p q \<longleftrightarrow> q = p \<or> isChildPath p q"

definition spec_write :: "string \<Rightarrow> byte list \<Rightarrow> ws_tree \<Rightarrow> spec_result" where
  "spec_write p b T =
     (if p = [] then (Inl (WsError ''invalid_path'' ''workspace file path is required''), T)
      else if T p = Some DirNode then (Inl (WsError ''not_file'' ''workspace path is a directory''), T)
      else under_dir p (\<lambda>T. (Inr (info (node_info p (FileNode b))), T(p \<mapsto> FileNode b))) T)"

definition spec_read :: "string \<Rightarrow> ws_tree \<Rightarrow> spec_result" where
  "spec_read p T = (case T p of
     Some (FileNode b) \<Rightarrow> (Inr (Bytes b), T)
   | Some DirNode \<Rightarrow> (Inl (WsError ''not_file'' ''workspace path is a directory''), T)
   | None \<Rightarrow> (Inl (WsError ''not_found'' ''workspace file is unavailable''), T))"

definition spec_unlink :: "string \<Rightarrow> ws_tree \<Rightarrow> spec_result" where
  "spec_unlink p T = (case T p of
     Some (FileNode b) \<Rightarrow> (Inr Done, T(p := None))
   | Some DirNode \<Rightarrow> (Inl (WsError ''not_file'' ''workspace path is a directory''), T)
   | None \<Rightarrow> (Inl (WsError ''not_found'' ''workspace file is unavailable''), T))"

text \<open>The paths from below \<open>b\<close> to the end of the names \<open>ps\<close>.\<close>

fun chain :: "string \<Rightarrow> string list \<Rightarrow> string list" where
  "chain b [] = []"
| "chain b (p # ps) = path_join b p # chain (path_join b p) ps"

definition is_file_node :: "ws_node option \<Rightarrow> bool" where
  "is_file_node n \<longleftrightarrow> (case n of Some (FileNode _) \<Rightarrow> True | _ \<Rightarrow> False)"

definition spec_mkdir :: "string \<Rightarrow> bool \<Rightarrow> ws_tree \<Rightarrow> spec_result" where
  "spec_mkdir p recursive T =
     (if p = [] then (Inr (info (node_info p DirNode)), T)
      else if is_file_node (T p) then (Inl (WsError ''not_directory'' ''workspace path is a file''), T)
      else if recursive then
        (if list_ex (\<lambda>q. is_file_node (T q)) (chain [] (segs p))
         then (Inl (WsError ''not_directory'' ''workspace path is a file''), T)
         else (Inr (info (node_info p DirNode)), \<lambda>q. if q \<in> set (chain [] (segs p)) then Some DirNode else T q))
      else under_dir p (\<lambda>T.
        if T p \<noteq> None then (Inl (WsError ''already_exists'' ''workspace directory already exists''), T)
        else (Inr (info (node_info p DirNode)), T(p \<mapsto> DirNode))) T)"

definition spec_rmdir :: "string \<Rightarrow> bool \<Rightarrow> ws_tree \<Rightarrow> spec_result" where
  "spec_rmdir p recursive T =
     (if p = [] then (Inl (WsError ''invalid_path'' ''workspace root cannot be deleted''), T)
      else if T p \<noteq> Some DirNode then (Inl (WsError ''not_found'' ''workspace directory is unavailable''), T)
      else if \<not> recursive \<and> (\<exists>q. q \<noteq> p \<and> below p q \<and> T q \<noteq> None)
      then (Inl (WsError ''not_empty'' ''workspace directory is not empty''), T)
      else (Inr Done, \<lambda>q. if below p q then None else T q))"

definition spec_list :: "string \<Rightarrow> ws_tree \<Rightarrow> spec_result" where
  "spec_list p T = (case T p of
     Some DirNode \<Rightarrow> (Inr (Listing {node_info q n | q n. q \<noteq> [] \<and> parentPath q = p \<and> T q = Some n}), T)
   | Some (FileNode _) \<Rightarrow> (Inl (WsError ''not_directory'' ''workspace path is a file''), T)
   | None \<Rightarrow> (Inl (WsError ''not_found'' ''workspace directory is unavailable''), T))"

definition spec_stat :: "string \<Rightarrow> ws_tree \<Rightarrow> spec_result" where
  "spec_stat p T = (case T p of
     Some n \<Rightarrow> (Inr (info (node_info p n)), T)
   | None \<Rightarrow> (Inl (WsError ''not_found'' ''workspace path is unavailable''), T))"

definition spec_rename :: "string \<Rightarrow> string \<Rightarrow> ws_tree \<Rightarrow> spec_result" where
  "spec_rename src tgt T =
     (if src = [] \<or> tgt = [] then (Inl (WsError ''invalid_path'' ''workspace rename path is required''), T)
      else under_dir tgt (\<lambda>T.
        if T tgt \<noteq> None then (Inl (WsError ''already_exists'' ''workspace target already exists''), T)
        else case T src of
          None \<Rightarrow> (Inl (WsError ''not_found'' ''workspace source is unavailable''), T)
        | Some (FileNode b) \<Rightarrow> (Inr Done, T(src := None, tgt \<mapsto> FileNode b))
        | Some DirNode \<Rightarrow>
            if below src tgt
            then (Inl (WsError ''invalid_path'' ''workspace directory cannot be moved inside itself''), T)
            else (Inr Done, \<lambda>q. if below tgt q then T (moved_path tgt src q)
                               else if below src q then None else T q)) T)"

fun spec_step :: "ws_call \<Rightarrow> ws_tree \<Rightarrow> spec_result" where
  "spec_step (WriteFile p b) T = at_path p (\<lambda>p. spec_write p b) T"
| "spec_step (ReadFile p) T = at_path p spec_read T"
| "spec_step (DeleteFile p) T = at_path p spec_unlink T"
| "spec_step (CreateDirectory p r) T = at_path p (\<lambda>p. spec_mkdir p r) T"
| "spec_step (DeleteDirectory p r) T = at_path p (\<lambda>p. spec_rmdir p r) T"
| "spec_step (ReadDirectory p) T = at_path p spec_list T"
| "spec_step (StatOf p) T = at_path p spec_stat T"
| "spec_step (Rename p q) T = at_path p (\<lambda>p. at_path q (spec_rename p)) T"
| "spec_step (ImportSnapshot sn) T = (Inr Done, T)"

definition stat_info :: "ws_stat \<Rightarrow> bool \<times> string \<times> int" where
  "stat_info st = (ws_is_file st, ws_stat_path st, ws_size st)"

fun answer :: "ws_value \<Rightarrow> ws_answer" where
  "answer WsUnit = Done"
| "answer (WsBytes b) = Bytes b"
| "answer (WsStatV st) = info (stat_info st)"
| "answer (WsEntries sts) = Listing (stat_info ` set sts)"

definition spec_view :: "(ws_error + ws_value) \<times> ws_store \<Rightarrow> spec_result" where
  "spec_view r = (map_sum id answer (fst r), ws_abs (snd r))"

section \<open>Reading the tree off a store\<close>

lemma currentTime_ok: "clock_ok s \<Longrightarrow> currentTime s = (Inr (ws_now s (ws_ticks s)), s\<lparr>ws_ticks := ws_ticks s + 1\<rparr>)"
  by (simp add: currentTime_run clock_ok_def)

lemma abs_ticks [simp]: "ws_abs (s\<lparr>ws_ticks := k\<rparr>) = ws_abs s"
  by (auto simp: ws_abs_def fun_eq_iff split: option.split)

lemma abs_file: "store_ok s \<Longrightarrow> ws_abs s p = Some (FileNode b) \<longleftrightarrow> contents (ws_filemap s) p = Some b"
  by (auto simp: ws_abs_def contents_def split: option.splits)

lemma abs_is_file: "is_file_node (ws_abs s p) \<longleftrightarrow> map_has (ws_filemap s) p"
  by (auto simp: ws_abs_def is_file_node_def map_has_def split: option.splits)

lemma abs_dir: "store_ok s \<Longrightarrow> ws_abs s p = Some DirNode \<longleftrightarrow> map_has (ws_directories s) p"
  by (auto simp: ws_abs_def store_ok_def validate_iff map_has_def split: option.splits)

lemma abs_none: "ws_abs s p = None \<longleftrightarrow> \<not> ws_name s p"
  by (auto simp: ws_abs_def map_has_def split: option.splits)

lemma abs_eqI:
  assumes "\<And>p. contents (ws_filemap s) p = (case T p of Some (FileNode b) \<Rightarrow> Some b | _ \<Rightarrow> None)"
    and "\<And>p. \<not> map_has (ws_filemap s) p \<Longrightarrow> map_has (ws_directories s) p \<longleftrightarrow> T p = Some DirNode"
  shows "ws_abs s = T"
proof
  fix p
  show "ws_abs s p = T p"
    using assms [of p] by (auto simp: ws_abs_def contents_def map_has_def split: option.splits ws_node.splits)
qed

lemma abs_update_file:
  "ws_abs (s\<lparr>ws_filemap := AList.update p r (ws_filemap s)\<rparr>) = (ws_abs s)(p \<mapsto> FileNode (wf_content r))"
  by (auto simp: ws_abs_def fun_eq_iff)

lemma abs_delete_file:
  "\<not> map_has (ws_directories s) p \<Longrightarrow>
   ws_abs (s\<lparr>ws_filemap := AList.delete p (ws_filemap s)\<rparr>) = (ws_abs s)(p := None)"
  by (auto simp: ws_abs_def fun_eq_iff)

lemma abs_update_dir:
  "\<not> map_has (ws_filemap s) p \<Longrightarrow>
   ws_abs (s\<lparr>ws_directories := AList.update p r (ws_directories s)\<rparr>) = (ws_abs s)(p \<mapsto> DirNode)"
  by (auto simp: ws_abs_def fun_eq_iff map_has_def split: option.split)

lemma apart: "store_ok s \<Longrightarrow> map_has (ws_filemap s) p \<Longrightarrow> map_has (ws_directories s) p \<Longrightarrow> False"
  by (auto simp: store_ok_def validate_iff)

lemma node_cases:
  assumes "store_ok s"
  obtains (isfile) r where "map_of (ws_filemap s) p = Some r" "map_has (ws_filemap s) p"
      "\<not> map_has (ws_directories s) p" "ws_abs s p = Some (FileNode (wf_content r))"
  | (isdir) d where "map_of (ws_filemap s) p = None" "\<not> map_has (ws_filemap s) p" "map_has (ws_directories s) p"
      "map_of (ws_directories s) p = Some d" "ws_abs s p = Some DirNode"
  | (absent) "map_of (ws_filemap s) p = None" "\<not> map_has (ws_filemap s) p" "\<not> map_has (ws_directories s) p"
      "map_of (ws_directories s) p = None" "ws_abs s p = None"
  using apart [OF assms, of p] by (auto simp: ws_abs_def map_has_def split: option.splits if_splits)

lemma under_dir_abs:
  assumes "store_ok s"
  shows "under_dir p f (ws_abs s) =
    (if map_has (ws_filemap s) (parentPath p) then
       (Inl (WsError ''not_directory'' ''workspace parent is a file''), ws_abs s)
     else if \<not> map_has (ws_directories s) (parentPath p)
     then (Inl (WsError ''not_found'' ''workspace parent directory is unavailable''), ws_abs s)
     else f (ws_abs s))"
  by (cases rule: node_cases [OF assms, of "parentPath p"]) (auto simp: under_dir_def)

section \<open>Each operation does what its abstract operation says\<close>

lemmas run_rules = run_bind run_seq from_sum_def as_value_def requireParentDirectory_def spec_view_def Let_def

lemma write_refines:
  assumes ok: "store_ok s" and clock: "clock_ok s"
  shows "spec_view (ws_step collate (WriteFile path b) s) = spec_step (WriteFile path b) (ws_abs s)"
proof (cases "normalizeWorkspacePath path")
  case (Inr p)
  have "wf_content r = b \<Longrightarrow> ws_abs (s\<lparr>ws_ticks := k, ws_filemap := AList.update p r (ws_filemap s)\<rparr>) =
      (ws_abs s)(p \<mapsto> FileNode b)" for k r
    using abs_update_file [of p r "s\<lparr>ws_ticks := k\<rparr>"] by simp
  then show ?thesis
    using Inr clock abs_dir [OF ok, of p]
    by (auto simp: run_rules ws_writeFile_def at_path_def spec_write_def under_dir_abs [OF ok] currentTime_ok
        info_def stat_info_def node_info_def publicFileStat_def)
qed (simp add: run_rules ws_writeFile_def at_path_def)

lemma read_refines:
  assumes ok: "store_ok s"
  shows "spec_view (ws_step collate (ReadFile path) s) = spec_step (ReadFile path) (ws_abs s)"
proof (cases "normalizeWorkspacePath path")
  case (Inr p)
  show ?thesis
    using Inr by (cases rule: node_cases [OF ok, of p]) (auto simp: run_rules ws_readFile_def at_path_def spec_read_def)
qed (simp add: run_rules ws_readFile_def at_path_def)

lemma unlink_refines:
  assumes ok: "store_ok s"
  shows "spec_view (ws_step collate (DeleteFile path) s) = spec_step (DeleteFile path) (ws_abs s)"
proof (cases "normalizeWorkspacePath path")
  case (Inr p)
  show ?thesis
    using Inr by (cases rule: node_cases [OF ok, of p])
      (auto simp: run_rules ws_deleteFile_def at_path_def spec_unlink_def abs_delete_file)
qed (simp add: run_rules ws_deleteFile_def at_path_def)

lemma stat_refines:
  assumes ok: "store_ok s"
  shows "spec_view (ws_step collate (StatOf path) s) = spec_step (StatOf path) (ws_abs s)"
proof (cases "normalizeWorkspacePath path")
  case (Inr p)
  show ?thesis
    using Inr by (cases rule: node_cases [OF ok, of p])
      (auto simp: run_rules ws_stat_of_def at_path_def spec_stat_def info_def stat_info_def node_info_def
        publicFileStat_def publicDirectoryStat_def)
qed (simp add: run_rules ws_stat_of_def at_path_def)


lemma list_ex_keys: "list_ex P (map_keys m) \<longleftrightarrow> (\<exists>q. map_has m q \<and> P q)"
  by (auto simp: list_ex_iff map_has_iff)

lemma map_of_cut: "map_of [e \<leftarrow> m. P (fst e)] q = (if P q then map_of m q else None)"
  by (induction m) auto

lemma rmdir_refines:
  assumes ok: "store_ok s"
  shows "spec_view (ws_step collate (DeleteDirectory path r) s) = spec_step (DeleteDirectory path r) (ws_abs s)"
proof (cases "normalizeWorkspacePath path")
  case (Inr p)
  have kids: "ws_hasChildren s p \<longleftrightarrow> (\<exists>q. q \<noteq> p \<and> below p q \<and> ws_abs s q \<noteq> None)" if "map_has (ws_directories s) p"
  proof -
    have "\<not> map_has (ws_filemap s) p" using that apart [OF ok] by blast
    then show ?thesis unfolding ws_hasChildren_def list_ex_keys below_def abs_none by metis
  qed
  have tree: "ws_abs (deleteDirectoryTree p s) = (\<lambda>q. if below p q then None else ws_abs s q)"
    unfolding ws_abs_def deleteDirectoryTree_def below_def [symmetric]
    by (auto simp: fun_eq_iff map_has_def map_of_cut [where P = "\<lambda>q. \<not> below p q"])
  show ?thesis
    using Inr kids tree
    by (cases rule: node_cases [OF ok, of p]) (auto simp: run_rules ws_deleteDirectory_def at_path_def spec_rmdir_def)
qed (simp add: run_rules ws_deleteDirectory_def at_path_def)

lemma set_js_insert: "set (js_insert cmp x xs) = insert x (set xs)"
  by (induction xs) auto

lemma set_js_sort [simp]: "set (js_sort cmp xs) = set xs"
  unfolding js_sort_def by (induction xs) (simp_all add: set_js_insert)

lemma ex_node: "(\<exists>n. P n) \<longleftrightarrow> P DirNode \<or> (\<exists>b. P (FileNode b))"
proof
  assume "\<exists>n. P n"
  then obtain n where "P n" ..
  then show "P DirNode \<or> (\<exists>b. P (FileNode b))" by (cases n) auto
qed auto

lemma list_refines:
  assumes ok: "store_ok s"
  shows "spec_view (ws_step collate (ReadDirectory path) s) = spec_step (ReadDirectory path) (ws_abs s)"
proof (cases "normalizeWorkspacePath path")
  case (Inr p)
  have d: "distinct (map_keys (ws_filemap s))" "distinct (map_keys (ws_directories s))"
    using ok by (auto simp: store_ok_def files_ok_def directories_ok_def)
  have is_file: "map_of (ws_filemap s) q = Some r \<longleftrightarrow> (q, r) \<in> set (ws_filemap s)" for q r
    using d(1) by simp
  have is_dir: "map_has (ws_directories s) q \<longleftrightarrow> (\<exists>r. (q, r) \<in> set (ws_directories s))" for q
    by (force simp: map_has_iff)
  have nonempty: "q \<noteq> []" if "(q, r) \<in> set (ws_filemap s)" for q r
    using store_okD(1) [OF ok, of q] that is_file [of q r] by (simp add: map_has_def)
  have "stat_info ` set (ws_directoryEntries collate p (ws_filemap s) (ws_directories s)) =
      {node_info q n | q n. q \<noteq> [] \<and> parentPath q = p \<and> ws_abs s q = Some n}" (is "?l = ?r")
  proof (rule set_eqI)
    fix x
    have "x \<in> ?l \<longleftrightarrow>
        (\<exists>q r. (q, r) \<in> set (ws_filemap s) \<and> parentPath q = p \<and>
          x = (True, WORKSPACE_ROOT @ ''/'' @ q, int (length (wf_content r)))) \<or>
        (\<exists>q r. (q, r) \<in> set (ws_directories s) \<and> q \<noteq> [] \<and> parentPath q = p \<and> x = (False, WORKSPACE_ROOT @ ''/'' @ q, 0))"
      by (force simp: ws_directoryEntries_def stat_info_def publicFileStat_def publicDirectoryStat_def image_iff)
    also have "\<dots> \<longleftrightarrow>
        (\<exists>q r. q \<noteq> [] \<and> map_of (ws_filemap s) q = Some r \<and> parentPath q = p \<and>
          x = (True, workspace_path q, int (length (wf_content r)))) \<or>
        (\<exists>q. map_has (ws_directories s) q \<and> q \<noteq> [] \<and> parentPath q = p \<and> x = (False, workspace_path q, 0))"
    proof -
      have "((q, r) \<in> set (ws_filemap s) \<and> parentPath q = p \<and>
            x = (True, WORKSPACE_ROOT @ ''/'' @ q, int (length (wf_content r)))) \<longleftrightarrow>
          (q \<noteq> [] \<and> (q, r) \<in> set (ws_filemap s) \<and> parentPath q = p \<and>
            x = (True, workspace_path q, int (length (wf_content r))))" for q r
        using nonempty [of q r] by (cases "q = []") (auto simp: workspace_path_def)
      moreover have "(\<exists>q r. (q, r) \<in> set (ws_directories s) \<and> q \<noteq> [] \<and> parentPath q = p \<and>
            x = (False, WORKSPACE_ROOT @ ''/'' @ q, 0)) \<longleftrightarrow>
          (\<exists>q. (\<exists>r. (q, r) \<in> set (ws_directories s)) \<and> q \<noteq> [] \<and> parentPath q = p \<and> x = (False, workspace_path q, 0))"
        by (simp add: workspace_path_def cong: conj_cong)
      ultimately show ?thesis unfolding is_file is_dir by presburger
    qed
    also have "\<dots> \<longleftrightarrow> x \<in> ?r"
      by (simp add: ex_node node_info_def abs_dir [OF ok] abs_file [OF ok] contents_def) blast
    finally show "x \<in> ?l \<longleftrightarrow> x \<in> ?r" .
  qed
  then show ?thesis
    using Inr by (cases rule: node_cases [OF ok, of p])
      (auto simp: run_rules ws_readDirectory_def at_path_def spec_list_def)
qed (simp add: run_rules ws_readDirectory_def at_path_def)


lemma isChildPath_join:
  assumes "canonical b" "seg_ok n"
  shows "isChildPath b (path_join b n)"
  using assms path_join_snoc [OF assms] by (simp add: isChildPath_segs strict_prefix_def)

lemma chain_prefix:
  assumes "canonical b" "list_all seg_ok ps" "q \<in> set (chain b ps)"
  shows "canonical q \<and> prefix (segs b) (segs q)"
  using assms
proof (induction ps arbitrary: b)
  case (Cons p ps)
  have j: "segs (path_join b p) = segs b @ [p]" "canonical (path_join b p)"
    using Cons.prems path_join_snoc [of b p] by auto
  show ?case
  proof (cases "q = path_join b p")
    case True
    then show ?thesis using j by simp
  next
    case False
    then have "canonical q \<and> prefix (segs b @ [p]) (segs q)"
      using Cons.IH [OF j(2)] Cons.prems j(1) by simp
    then show ?thesis using append_prefixD by blast
  qed
qed simp

lemma ensure_parts_run:
  assumes "store_ok s" "clock_ok s" "canonical current" "map_has (ws_directories s) current"
    "list_all (\<lambda>p. seg_ok p \<and> CHR 0x5C \<notin> set p) parts" "CHR 0x5C \<notin> set current"
  shows "if list_ex (map_has (ws_filemap s)) (chain current parts)
    then ensure_parts current parts s = (Inl (WsError ''not_directory'' ''workspace path is a file''), s)
    else \<exists>k D. ensure_parts current parts s = (Inr (), s\<lparr>ws_ticks := k, ws_directories := D\<rparr>) \<and>
      (\<forall>q. map_has D q \<longleftrightarrow> map_has (ws_directories s) q \<or> q \<in> set (chain current parts))"
  using assms
proof (induction parts arbitrary: current s)
  case Nil
  then show ?case by (auto intro!: exI [of _ "ws_ticks s"] exI [of _ "ws_directories s"])
next
  case (Cons part parts)
  define next' where "next' = path_join current part"
  have j: "segs next' = segs current @ [part] \<and> canonical next'" "parentPath next' = current"
    using Cons.prems path_join_snoc [of current part] parentPath_join [of current part] by (auto simp: next'_def)
  have c: "CHR 0x5C \<notin> set next'" using Cons.prems by (auto simp: next'_def path_join_def)
  have step: "ensure_parts current (part # parts) s =
      (if map_has (ws_filemap s) next' then (Inl (WsError ''not_directory'' ''workspace path is a file''), s)
       else if map_has (ws_directories s) next' then ensure_parts next' parts s
       else ensure_parts next' parts (s\<lparr>ws_ticks := ws_ticks s + 1, ws_directories := AList.update next'
           (directoryRecord (workspace_path next') (ws_now s (ws_ticks s))) (ws_directories s)\<rparr>))"
  proof -
    have root: "WORKSPACE_ROOT @ ''/'' @ next' = workspace_path next'"
      using Cons.prems(5) by (auto simp: next'_def workspace_path_def path_join_def seg_ok_def)
    have next': "(if current \<noteq> [] then current @ ''/'' @ part else part) = next'"
      by (simp add: next'_def path_join_def)
    show ?thesis
      unfolding ensure_parts.simps Let_def next' root
      using Cons.prems(2) by (simp add: run_seq run_bind currentTime_ok)
  qed
  have chain: "chain current (part # parts) = next' # chain next' parts" by (simp add: next'_def)
  show ?case
  proof (cases "ws_name s next'")
    case True
    have IH: "map_has (ws_directories s) next' \<Longrightarrow> ?thesis"
      using Cons.IH [of s next'] Cons.prems j(1) c apart [OF Cons.prems(1), of next'] unfolding step chain
      by (cases "map_has (ws_filemap s) next'") (auto split: if_splits)
    show ?thesis
    proof (cases "map_has (ws_filemap s) next'")
      case True
      then show ?thesis unfolding step chain by simp
    qed (use IH True in blast)
  next
    case False
    define t where "t = s\<lparr>ws_ticks := ws_ticks s + 1, ws_directories := AList.update next'
           (directoryRecord (workspace_path next') (ws_now s (ws_ticks s))) (ws_directories s)\<rparr>"
    have "store_ok (s\<lparr>ws_ticks := ws_ticks s + 1, ws_directories := AList.update next'
           (directoryRecord (workspace_path next') (ws_now s (ws_ticks s))) (ws_directories s)\<rparr>)"
      using store_ok_directory [of "s\<lparr>ws_ticks := ws_ticks s + 1\<rparr>" next' "ws_now s (ws_ticks s)"] Cons.prems j c False
      by (simp add: ws_path_ok_def clock_ok_def)
    then have t: "store_ok t" "clock_ok t" "map_has (ws_directories t) next'" "ws_filemap t = ws_filemap s"
      using Cons.prems(2) by (auto simp: t_def clock_ok_def)
    have none: "\<not> list_ex (map_has (ws_filemap s)) (chain next' parts)"
    proof
      assume "list_ex (map_has (ws_filemap s)) (chain next' parts)"
      then obtain q where q: "q \<in> set (chain next' parts)" "ws_name s q" by (auto simp: list_ex_iff)
      have "list_all seg_ok parts" using Cons.prems(5) by (auto simp: list_all_iff)
      then show False
        using chain_prefix [of next' parts q] no_name_below [OF Cons.prems(1) _ False q(2)] j(1) q(1) by blast
    qed
    have "list_all (\<lambda>p. seg_ok p \<and> CHR 0x5C \<notin> set p) parts" using Cons.prems(5) by simp
    from Cons.IH [OF t(1,2) conjunct2 [OF j(1)] t(3) this c] none
    obtain k D where r: "ensure_parts next' parts t = (Inr (), t\<lparr>ws_ticks := k, ws_directories := D\<rparr>)"
      "\<forall>q. map_has D q \<longleftrightarrow> map_has (ws_directories t) q \<or> q \<in> set (chain next' parts)"
      unfolding t(4) by (simp only: if_False) blast
    have "ensure_parts current (part # parts) s = (Inr (), s\<lparr>ws_ticks := k, ws_directories := D\<rparr>)"
      using step False r(1) by (simp add: t_def)
    moreover have "map_has D q \<longleftrightarrow> map_has (ws_directories s) q \<or> q \<in> set (chain current (part # parts))" for q
    proof -
      have "map_has (ws_directories t) q \<longleftrightarrow> q = next' \<or> map_has (ws_directories s) q" by (simp add: t_def)
      then show ?thesis unfolding chain using r(2) by auto
    qed
    moreover have "\<not> list_ex (map_has (ws_filemap s)) (chain current (part # parts))"
      unfolding chain using none False by simp
    ultimately show ?thesis by auto
  qed
qed

lemma last_chain: "ps \<noteq> [] \<Longrightarrow> canonical b \<Longrightarrow> list_all seg_ok ps \<Longrightarrow>
  \<exists>q \<in> set (chain b ps). segs q = segs b @ ps"
proof (induction ps arbitrary: b)
  case (Cons p ps)
  then show ?case using path_join_snoc [of b p] by (cases "ps = []") (auto dest!: Cons.IH [of "path_join b p"])
qed simp

lemma self_in_chain:
  assumes "canonical p" "p \<noteq> []"
  shows "p \<in> set (chain [] (segs p))"
proof -
  have "list_all seg_ok (segs p)" using assms by (simp add: canonical_def)
  then obtain q where q: "q \<in> set (chain [] (segs p))" "segs q = segs p"
    using last_chain [of "segs p" "[]"] assms by (auto simp: canonical_def)
  moreover have "canonical q" using chain_prefix [of "[]" "segs p" q] q \<open>list_all seg_ok (segs p)\<close>
    by (simp add: canonical_def)
  ultimately show ?thesis using assms by (metis canonical_inj)
qed


lemma mkdir_refines:
  assumes ok: "store_ok s" and clock: "clock_ok s"
  shows "spec_view (ws_step collate (CreateDirectory path r) s) = spec_step (CreateDirectory path r) (ws_abs s)"
proof (cases "normalizeWorkspacePath path")
  case (Inr p)
  then have p: "ws_path_ok p" "canonical p" using normalizeWorkspacePath_ok [OF Inr] by (simp_all add: ws_path_ok_def)
  note rules = Inr run_rules ws_createDirectory_def at_path_def spec_mkdir_def abs_is_file info_def stat_info_def
    node_info_def publicDirectoryStat_def workspace_path_def
  consider (trivial) "p = [] \<or> map_has (ws_filemap s) p" | (deep) "p \<noteq> []" "\<not> map_has (ws_filemap s) p" r
    | (flat) "p \<noteq> []" "\<not> map_has (ws_filemap s) p" "\<not> r" by blast
  then show ?thesis
  proof cases
    case trivial
    then show ?thesis by (cases "p = []") (auto simp: rules)
  next
    case deep
    have ens: "ensureDirectory p = ensure_parts [] (segs p)"
      using parts_of_path(1) [OF p(1)] by (simp add: ensureDirectory_def)
    have run: "if list_ex (map_has (ws_filemap s)) (chain [] (segs p))
      then ensure_parts [] (segs p) s = (Inl (WsError ''not_directory'' ''workspace path is a file''), s)
      else \<exists>k D. ensure_parts [] (segs p) s = (Inr (), s\<lparr>ws_ticks := k, ws_directories := D\<rparr>) \<and>
        (\<forall>q. map_has D q \<longleftrightarrow> map_has (ws_directories s) q \<or> q \<in> set (chain [] (segs p)))"
      using ensure_parts_run [OF ok clock _ store_okD(3) [OF ok] parts_of_path(2) [OF p(1)]] by simp
    show ?thesis
    proof (cases "list_ex (map_has (ws_filemap s)) (chain [] (segs p))")
      case True
      then have "ensure_parts [] (segs p) s = (Inl (WsError ''not_directory'' ''workspace path is a file''), s)"
        using run by simp
      then show ?thesis using True deep by (simp add: rules ens)
    next
      case False
      then obtain k D where e: "ensure_parts [] (segs p) s = (Inr (), s\<lparr>ws_ticks := k, ws_directories := D\<rparr>)"
        and D: "\<And>q. map_has D q \<longleftrightarrow> map_has (ws_directories s) q \<or> q \<in> set (chain [] (segs p))"
        using run by auto
      have "ws_abs (s\<lparr>ws_ticks := k, ws_directories := D\<rparr>) q =
          (if q \<in> set (chain [] (segs p)) then Some DirNode else ws_abs s q)" for q
        using False D [of q] by (auto simp: ws_abs_def list_ex_iff map_has_def split: option.splits)
      then have "ws_abs (s\<lparr>ws_ticks := k, ws_directories := D\<rparr>) =
          (\<lambda>q. if q \<in> set (chain [] (segs p)) then Some DirNode else ws_abs s q)" by (rule ext)
      then show ?thesis using False deep e by (simp add: rules ens)
    qed
  next
    case flat
    have tree: "ws_abs (s\<lparr>ws_ticks := k, ws_directories := AList.update p d (ws_directories s)\<rparr>) =
        (ws_abs s)(p \<mapsto> DirNode)" for k d
      using abs_update_dir [of "s\<lparr>ws_ticks := k\<rparr>" p d] flat by simp
    show ?thesis
      using flat tree abs_none [of s p]
      by (simp add: rules under_dir_abs [OF ok] currentTime_ok [OF clock]) auto
  qed
qed (simp add: run_rules ws_createDirectory_def at_path_def)

lemma moved_back:
  assumes "below tgt q" "src \<noteq> []" "tgt \<noteq> []"
  shows "moved_path src tgt (moved_path tgt src q) = q"
  using assms by (auto simp: below_def isChildPath_def moved_path_def at_or_below_def replacePathPrefix_def prefix_def)

lemma moved_names:
  assumes ok: "store_ok s" and rt: "rename_target s src tgt" and N: "\<And>p. N p \<Longrightarrow> ws_name s p"
  defines "orig \<equiv> \<lambda>q. if below tgt q then moved_path tgt src q else q"
  shows "N p \<and> q = moved_path src tgt p \<longleftrightarrow>
    (below tgt q \<or> \<not> below src q) \<and> N (orig q) \<and> p = orig q"
proof -
  have t: "src \<noteq> []" "tgt \<noteq> []" "canonical tgt" "\<not> ws_name s tgt"
    using rt by (auto simp: rename_target_def ws_path_ok_def)
  have stay: "moved_path src tgt q = q" if "\<not> below src q" for q
    using mv_eq(2) [OF t(1)] that by (simp add: below_def)
  have free: "\<not> below tgt p" if "N p" for p
  proof -
    have "canonical p" using name_ok [OF ok N [OF that]] by (simp add: ws_path_ok_def)
    then show ?thesis
      using no_name_below [OF ok t(3,4) N [OF that]] isChildPath_segs [OF t(3), of p]
      by (auto simp: below_def strict_prefix_def)
  qed
  have into: "below tgt (moved_path src tgt p)" "moved_path tgt src (moved_path src tgt p) = p" if "below src p" for p
  proof -
    show "below tgt (moved_path src tgt p)"
      using that t by (auto simp: below_def isChildPath_def moved_path_def at_or_below_def replacePathPrefix_def prefix_def)
  qed (rule moved_back [OF that t(2,1)])
  show ?thesis
  proof
    assume a: "N p \<and> q = moved_path src tgt p"
    show "(below tgt q \<or> \<not> below src q) \<and> N (orig q) \<and> p = orig q"
      using a into [of p] stay [of p] free [of p] by (cases "below src p") (auto simp: orig_def)
  next
    assume "(below tgt q \<or> \<not> below src q) \<and> N (orig q) \<and> p = orig q"
    then show "N p \<and> q = moved_path src tgt p"
      using moved_back [OF _ t(1,2), of q] stay [of q] by (auto simp: orig_def)
  qed
qed

lemma moved_tree:
  assumes ok: "store_ok s" and rt: "rename_target s src tgt" and mv: "moved_store src tgt s t"
  shows "ws_abs t = (\<lambda>q. if below tgt q then ws_abs s (moved_path tgt src q)
      else if below src q then None else ws_abs s q)"
proof
  fix q
  define orig where "orig = (if below tgt q then moved_path tgt src q else q)"
  have files: "map_has (ws_filemap s) p \<and> q = moved_path src tgt p \<longleftrightarrow>
      (below tgt q \<or> \<not> below src q) \<and> map_has (ws_filemap s) orig \<and> p = orig" for p
    using moved_names [OF ok rt, of "map_has (ws_filemap s)"] by (simp add: orig_def)
  have dirs: "map_has (ws_directories s) p \<and> q = moved_path src tgt p \<longleftrightarrow>
      (below tgt q \<or> \<not> below src q) \<and> map_has (ws_directories s) orig \<and> p = orig" for p
    using moved_names [OF ok rt, of "map_has (ws_directories s)"] by (simp add: orig_def)
  have m: "\<And>p. map_has (ws_filemap s) p \<Longrightarrow> contents (ws_filemap t) (moved_path src tgt p) = contents (ws_filemap s) p"
    "(\<forall>p. map_has (ws_filemap s) p \<longrightarrow> q \<noteq> moved_path src tgt p) \<Longrightarrow> contents (ws_filemap t) q = None"
    "map_has (ws_directories t) q \<longleftrightarrow> (\<exists>p. map_has (ws_directories s) p \<and> q = moved_path src tgt p)"
    using mv by (auto simp: moved_store_def moved_into_def contents_def)
  have c: "contents (ws_filemap t) q = (if below tgt q \<or> \<not> below src q then contents (ws_filemap s) orig else None)"
  proof (cases "(below tgt q \<or> \<not> below src q) \<and> map_has (ws_filemap s) orig")
    case True
    then show ?thesis using files [of orig] m(1) [of orig] by simp
  next
    case False
    then show ?thesis using files m(2) contents_None [of "ws_filemap s" orig] by auto
  qed
  have d: "map_has (ws_directories t) q \<longleftrightarrow> (below tgt q \<or> \<not> below src q) \<and> map_has (ws_directories s) orig"
    using m(3) dirs by blast
  have abs: "ws_abs u p = (case contents (ws_filemap u) p of Some b \<Rightarrow> Some (FileNode b)
      | None \<Rightarrow> if map_has (ws_directories u) p then Some DirNode else None)" for u p
    by (simp add: ws_abs_def contents_def split: option.split)
  show "ws_abs t q = (if below tgt q then ws_abs s (moved_path tgt src q) else if below src q then None else ws_abs s q)"
    unfolding abs c d by (simp add: orig_def)
qed

lemma rename_refines:
  assumes ok: "store_ok s" and clock: "clock_ok s"
  shows "spec_view (ws_step collate (Rename p q) s) = spec_step (Rename p q) (ws_abs s)"
proof -
  consider (bad) e where "normalizeWorkspacePath p = Inl e"
    | (bad') src e where "normalizeWorkspacePath p = Inr src" "normalizeWorkspacePath q = Inl e"
    | (good) src tgt where "normalizeWorkspacePath p = Inr src" "normalizeWorkspacePath q = Inr tgt"
    by (cases "normalizeWorkspacePath p"; cases "normalizeWorkspacePath q") auto
  then show ?thesis
  proof cases
    case (good src tgt)
    note rules = good run_rules ws_rename_def at_path_def spec_rename_def under_dir_abs [OF ok]
    note path_ok = normalizeWorkspacePath_ok [OF good(1)] normalizeWorkspacePath_ok [OF good(2)]
    show ?thesis
    proof (cases "src = [] \<or> tgt = [] \<or> map_has (ws_filemap s) (parentPath tgt) \<or>
        \<not> map_has (ws_directories s) (parentPath tgt) \<or> ws_name s tgt")
      case True
      then show ?thesis by (auto simp: rules abs_none)
    next
      case go: False
      have tn: "ws_abs s tgt = None" using go by (simp add: abs_none)
      show ?thesis
        using ok
      proof (cases rule: node_cases [where p = src])
        case (isfile r)
        have "ws_abs (s\<lparr>ws_ticks := k, ws_filemap := AList.update tgt r' (AList.delete src (ws_filemap s))\<rparr>) =
            (ws_abs s)(src := None, tgt \<mapsto> FileNode (wf_content r'))" for k r'
          using abs_update_file [of tgt r' "s\<lparr>ws_ticks := k, ws_filemap := AList.delete src (ws_filemap s)\<rparr>"]
            abs_delete_file [of "s\<lparr>ws_ticks := k\<rparr>" src] isfile by simp
        then show ?thesis
          using go tn isfile clock currentTime_ok [of "s\<lparr>ws_filemap := AList.delete src (ws_filemap s)\<rparr>"]
          by (simp add: rules clock_ok_def)
      next
        case (isdir d)
        have ne: "tgt \<noteq> src" using go isdir by auto
        show ?thesis
        proof (cases "isChildPath src tgt")
          case True
          then show ?thesis using go tn isdir ne by (simp add: rules renameDirectory_def below_def)
        next
          case False
          have rt: "rename_target s src tgt" using go False path_ok by (simp add: rename_target_def)
          obtain t where t: "renameDirectory src tgt s = (Inr (), t)" "moved_store src tgt s t"
            using renameDirectory_run [OF ok rt isdir(3)] clock by blast
          show ?thesis
            using go tn isdir ne False t(1) moved_tree [OF ok rt t(2)] by (simp add: rules below_def)
        qed
      next
        case absent
        then show ?thesis using go tn by (simp add: rules)
      qed
    qed
  qed (simp_all add: run_rules ws_rename_def at_path_def)
qed

definition example_ws :: ws_store where
  "example_ws =
     \<lparr>ws_directories = [([], directoryRecord [] 5), (''src'', directoryRecord (workspace_path ''src'') 6)],
      ws_filemap = [(''src/a'', \<lparr>wf_content = [1, 2, 200], wf_mtime = 7, wf_path = workspace_path ''src/a''\<rparr>)],
      ws_now = (\<lambda>_. 9), ws_ticks = 3\<rparr>"

lemma example_ws_ok: "store_ok example_ws"
  by code_simp

lemma example_ws_clock: "clock_ok example_ws"
  by (simp add: clock_ok_def example_ws_def time_ok_def max_safe_integer_def)

text \<open>
  C7: \<open>MemoryBrowserWorkspaceStore\<close> is a file system: on a well-formed store with a working clock,
  every method (\<open>writeFile\<close>, \<open>readFile\<close>, \<open>deleteFile\<close>, \<open>createDirectory\<close>, \<open>deleteDirectory\<close>,
  \<open>readDirectory\<close>, \<open>stat\<close>, \<open>rename\<close>) returns what its abstract operation on the tree of files and
  directories returns, value or error, and leaves the tree that operation leaves: one write changes
  one file, a recursive delete removes one subtree, a rename moves a subtree with its contents, and
  an operation that fails changes nothing.\<close>
theorem workspace_store_refines:
  assumes "store_ok s" "clock_ok s" "\<not> is_ImportSnapshot c"
  shows "spec_view (ws_step collate c s) = spec_step c (ws_abs s)"
  using assms by (cases c) (simp_all del: ws_step.simps spec_step.simps add: write_refines read_refines
      unlink_refines mkdir_refines rmdir_refines list_refines stat_refines rename_refines)

theorem workspace_store_refines_witness:
  "spec_view (ws_step (\<lambda>_ _. 0) (Rename ''src'' ''lib'') example_ws) = spec_step (Rename ''src'' ''lib'') (ws_abs example_ws) \<and>
   snd (spec_rename ''src'' ''lib'' (ws_abs example_ws)) ''lib/a'' = Some (FileNode [1, 2, 200])"
proof
  show "spec_view (ws_step (\<lambda>_ _. 0) (Rename ''src'' ''lib'') example_ws) = spec_step (Rename ''src'' ''lib'') (ws_abs example_ws)"
    by (rule workspace_store_refines [OF example_ws_ok example_ws_clock]) simp
  show "snd (spec_rename ''src'' ''lib'' (ws_abs example_ws)) ''lib/a'' = Some (FileNode [1, 2, 200])"
    by code_simp
qed

end
