(* ===== verification/Workspace_Snapshots.thy ===== *)
theory Workspace_Snapshots imports Workspace_Spec begin

text \<open>
  Snapshots of the workspace store: what \<open>exportSnapshot\<close> writes, \<open>importSnapshot\<close> reads back,
  for stores whose names survive the trimming of \<open>normalizeWorkspacePath\<close>; and the stores that a
  client can build for which it does not.
\<close>

section \<open>Reading a list of entries\<close>

definition path_stable :: "string \<Rightarrow> bool" where
  "path_stable p \<longleftrightarrow> js_trim (workspace_path p) = workspace_path p"

lemma normalize_stable:
  assumes "ws_path_ok p" "path_stable p"
  shows "normalizeWorkspacePath (workspace_path p) = Inr p"
proof (cases "p = []")
  case True
  then show ?thesis
    using assms(2) by (simp add: path_stable_def normalizeWorkspacePath_def workspace_path_def)
next
  case False
  have p: "list_all seg_ok (segs p)" "CHR 0x5C \<notin> set p" using assms(1) by (simp_all add: ws_path_ok_def canonical_def)
  have "relative_segments (js_split (CHR ''/'') p) = Some (segs p)"
    using False p(1) relative_segments_id [of "segs p"] by (simp add: segs_def)
  moreover have "CHR 0x00 \<notin> set p"
    using canonical_no_nul assms(1) by (simp add: ws_path_ok_def)
  moreover have "js_join ''/'' (segs p) = p" by (simp flip: unsegs_def)
  ultimately show ?thesis
    using False p(2) assms(2) by (simp add: path_stable_def normalizeWorkspacePath_def workspace_path_def Let_def)
qed


lemma load_directories_table:
  assumes "\<And>e. e \<in> set es \<Longrightarrow> \<exists>p. normalizeWorkspacePath (de_path e) = Inr p \<and> time_ok (de_mtime e) \<and>
    g p = Some \<lparr>wd_mtime = de_mtime e, wd_path = workspace_path p\<rparr>"
  shows "\<exists>m. load_directories es acc = Inr m \<and> (\<forall>p. map_of m p =
    (if \<exists>e \<in> set es. normalizeWorkspacePath (de_path e) = Inr p then g p else map_of acc p))"
  using assms
proof (induction es arbitrary: acc)
  case (Cons e es)
  obtain p where p: "normalizeWorkspacePath (de_path e) = Inr p" "time_ok (de_mtime e)"
    "g p = Some \<lparr>wd_mtime = de_mtime e, wd_path = workspace_path p\<rparr>"
    using Cons.prems [of e] by auto
  let ?acc = "AList.update p (directoryRecord (workspace_path p) (de_mtime e)) acc"
  obtain m where m: "load_directories es ?acc = Inr m"
    "\<And>q. map_of m q = (if \<exists>e \<in> set es. normalizeWorkspacePath (de_path e) = Inr q then g q else map_of ?acc q)"
    using Cons.IH [of ?acc] Cons.prems by auto
  have "directoryRecord (workspace_path p) (de_mtime e) = \<lparr>wd_mtime = de_mtime e, wd_path = workspace_path p\<rparr>"
    by (simp add: directoryRecord_def workspace_path_def)
  then show ?case
    using p m by (intro exI [of _ m]) (auto simp: nonNegativeTime_def time_ok_def)
qed simp

lemma load_files_table:
  assumes "\<And>e. e \<in> set es \<Longrightarrow> \<exists>p c. normalizeWorkspacePath (fe_path e) = Inr p \<and> p \<noteq> [] \<and> time_ok (fe_mtime e) \<and>
    base64ToBytes (fe_content e) = Some c \<and>
    g p = Some \<lparr>wf_content = c, wf_mtime = fe_mtime e, wf_path = workspace_path p\<rparr>"
  shows "\<exists>m. load_files es acc = Inr m \<and> (\<forall>p. map_of m p =
    (if \<exists>e \<in> set es. normalizeWorkspacePath (fe_path e) = Inr p then g p else map_of acc p))"
  using assms
proof (induction es arbitrary: acc)
  case (Cons e es)
  obtain p c where p: "normalizeWorkspacePath (fe_path e) = Inr p" "p \<noteq> []" "time_ok (fe_mtime e)"
    "base64ToBytes (fe_content e) = Some c"
    "g p = Some \<lparr>wf_content = c, wf_mtime = fe_mtime e, wf_path = workspace_path p\<rparr>"
    using Cons.prems [of e] by auto
  let ?acc = "AList.update p \<lparr>wf_content = c, wf_mtime = fe_mtime e, wf_path = workspace_path p\<rparr> acc"
  obtain m where m: "load_files es ?acc = Inr m"
    "\<And>q. map_of m q = (if \<exists>e \<in> set es. normalizeWorkspacePath (fe_path e) = Inr q then g q else map_of ?acc q)"
    using Cons.IH [of ?acc] Cons.prems by auto
  then show ?case
    using p by (intro exI [of _ m]) (auto simp: nonNegativeTime_def time_ok_def)
qed simp

section \<open>A store and its snapshot\<close>

definition stable_store :: "ws_store \<Rightarrow> bool" where
  "stable_store s \<longleftrightarrow>
     list_all path_stable (map_keys (ws_filemap s)) \<and> list_all path_stable (map_keys (ws_directories s))"

lemma exported_directories:
  "set (sn_directories (ws_exportSnapshot collate s)) =
    (\<lambda>(p, r). \<lparr>de_mtime = wd_mtime r, de_path = wd_path r\<rparr>) ` set (ws_directories s)"
  by (auto simp: ws_exportSnapshot_def)

lemma exported_files:
  "set (sn_files (ws_exportSnapshot collate s)) =
    (\<lambda>(p, r). \<lparr>fe_content = bytesToBase64 (wf_content r), fe_mtime = wf_mtime r, fe_path = wf_path r,
       fe_size = int (length (wf_content r))\<rparr>) ` set (ws_filemap s)"
  by (auto simp: ws_exportSnapshot_def)

lemma load_exported:
  assumes ok: "store_ok s" and stable: "stable_store s" and clock: "clock_ok t"
  obtains D F where "loadSnapshot (ws_exportSnapshot collate s) t =
      (Inr (), t\<lparr>ws_ticks := ws_ticks t + 1, ws_directories := D, ws_filemap := F\<rparr>)"
    "map_of D = map_of (ws_directories s)" "map_of F = map_of (ws_filemap s)"
proof -
  have dir: "ws_path_ok p \<and> path_stable p \<and> wd_path r = workspace_path p \<and> time_ok (wd_mtime r) \<and>
      map_of (ws_directories s) p = Some r" if "(p, r) \<in> set (ws_directories s)" for p r
    using ok stable that by (auto simp: store_ok_def directories_ok_def stable_store_def list_all_iff)
  have fle: "p \<noteq> [] \<and> ws_path_ok p \<and> path_stable p \<and> wf_path r = workspace_path p \<and> time_ok (wf_mtime r) \<and>
      map_of (ws_filemap s) p = Some r" if "(p, r) \<in> set (ws_filemap s)" for p r
    using ok stable that by (auto simp: store_ok_def files_ok_def stable_store_def list_all_iff)
  let ?sn = "ws_exportSnapshot collate s" and ?root = "[([], directoryRecord [] (ws_now t (ws_ticks t)))]"
  have names: "(\<exists>e \<in> set (sn_directories ?sn). normalizeWorkspacePath (de_path e) = Inr p) \<longleftrightarrow> map_has (ws_directories s) p"
    "(\<exists>e \<in> set (sn_files ?sn). normalizeWorkspacePath (fe_path e) = Inr p) \<longleftrightarrow> map_has (ws_filemap s) p" for p
  proof -
    have "normalizeWorkspacePath (wd_path (snd x)) = Inr (fst x)" if "x \<in> set (ws_directories s)" for x
      using dir [of "fst x" "snd x"] that by (simp add: normalize_stable)
    then show "(\<exists>e \<in> set (sn_directories ?sn). normalizeWorkspacePath (de_path e) = Inr p) \<longleftrightarrow> map_has (ws_directories s) p"
      unfolding exported_directories map_has_iff by (auto simp: split_beta image_iff)
    have "normalizeWorkspacePath (wf_path (snd x)) = Inr (fst x)" if "x \<in> set (ws_filemap s)" for x
      using fle [of "fst x" "snd x"] that by (simp add: normalize_stable)
    then show "(\<exists>e \<in> set (sn_files ?sn). normalizeWorkspacePath (fe_path e) = Inr p) \<longleftrightarrow> map_has (ws_filemap s) p"
      unfolding exported_files map_has_iff by (auto simp: split_beta image_iff)
  qed
  obtain D where D: "load_directories (sn_directories ?sn) ?root = Inr D"
    "\<And>p. map_of D p = (if map_has (ws_directories s) p then map_of (ws_directories s) p else map_of ?root p)"
  proof -
    have "\<exists>p. normalizeWorkspacePath (de_path e) = Inr p \<and> time_ok (de_mtime e) \<and>
        map_of (ws_directories s) p = Some \<lparr>wd_mtime = de_mtime e, wd_path = workspace_path p\<rparr>"
      if "e \<in> set (sn_directories ?sn)" for e
      using that dir normalize_stable unfolding exported_directories by fastforce
    from load_directories_table [of "sn_directories ?sn" "map_of (ws_directories s)" ?root, OF this]
    show ?thesis unfolding names using that by blast
  qed
  obtain F where F: "load_files (sn_files ?sn) [] = Inr F"
    "\<And>p. map_of F p = (if map_has (ws_filemap s) p then map_of (ws_filemap s) p else None)"
  proof -
    have "\<exists>p c. normalizeWorkspacePath (fe_path e) = Inr p \<and> p \<noteq> [] \<and> time_ok (fe_mtime e) \<and>
        base64ToBytes (fe_content e) = Some c \<and>
        map_of (ws_filemap s) p = Some \<lparr>wf_content = c, wf_mtime = fe_mtime e, wf_path = workspace_path p\<rparr>"
      if "e \<in> set (sn_files ?sn)" for e
      using that fle normalize_stable base64_roundtrip unfolding exported_files by fastforce
    from load_files_table [of "sn_files ?sn" "map_of (ws_filemap s)" "[]", OF this]
    show ?thesis unfolding names using that by auto
  qed
  have eq: "map_of D = map_of (ws_directories s)" "map_of F = map_of (ws_filemap s)"
    using D(2) F(2) store_okD(3) [OF ok] by (auto simp: fun_eq_iff map_has_def)
  then have "map_has D = map_has (ws_directories s)" "map_has F = map_has (ws_filemap s)"
    by (simp_all add: fun_eq_iff map_has_def)
  then have "validateWorkspaceGraph F D = None"
    using ok unfolding store_ok_def validate_iff by simp
  moreover have "sn_version ?sn = 1" "sn_root ?sn = WORKSPACE_ROOT" by (simp_all add: ws_exportSnapshot_def)
  ultimately have "loadSnapshot ?sn t =
      (Inr (), t\<lparr>ws_ticks := ws_ticks t + 1, ws_directories := D, ws_filemap := F\<rparr>)"
    using D(1) F(1) clock by (simp add: loadSnapshot_def from_sum_def currentTime_ok)
  then show ?thesis using eq that by blast
qed


text \<open>
  C13: Export and import: for a well-formed store whose paths do not end in white space, the snapshot
  that \<open>exportSnapshot\<close> gives is accepted by \<open>importSnapshot\<close> of any store, and the importing store
  then has exactly the files, contents, directories and time stamps of the exporting one.\<close>
theorem snapshot_roundtrip:
  assumes "store_ok s" "stable_store s" "clock_ok t"
  shows "\<exists>u. loadSnapshot (ws_exportSnapshot collate s) t = (Inr (), u) \<and>
    map_of (ws_directories u) = map_of (ws_directories s) \<and> map_of (ws_filemap u) = map_of (ws_filemap s)"
proof -
  obtain D F where "loadSnapshot (ws_exportSnapshot collate s) t =
      (Inr (), t\<lparr>ws_ticks := ws_ticks t + 1, ws_directories := D, ws_filemap := F\<rparr>)"
    "map_of D = map_of (ws_directories s)" "map_of F = map_of (ws_filemap s)"
    by (rule load_exported [OF assms])
  then show ?thesis
    by (intro exI [of _ "t\<lparr>ws_ticks := ws_ticks t + 1, ws_directories := D, ws_filemap := F\<rparr>"]) simp
qed

theorem snapshot_roundtrip_witness:
  "\<exists>u. loadSnapshot (ws_exportSnapshot (\<lambda>_ _. 0) example_ws) (example_ws\<lparr>ws_filemap := []\<rparr>) = (Inr (), u) \<and>
    map_of (ws_directories u) = map_of (ws_directories example_ws) \<and>
    map_of (ws_filemap u) = map_of (ws_filemap example_ws)"
proof -
  have "stable_store example_ws" by code_simp
  moreover have "clock_ok (example_ws\<lparr>ws_filemap := []\<rparr>)" using example_ws_clock by (simp add: clock_ok_def)
  ultimately show ?thesis by (rule snapshot_roundtrip [OF example_ws_ok])
qed

section \<open>Stores that a client builds\<close>

lemma new_store_ok: "store_ok (snd (new_store now sn))" if "fst (new_store now sn) = Inr ()"
proof -
  let ?s = "\<lparr>ws_directories = [], ws_filemap = [], ws_now = now, ws_ticks = 0\<rparr>"
  have time: "time_ok (now 0)"
    using that by (auto simp: new_store_def run_bind currentTime_run split: if_splits)
  define s where "s = ?s\<lparr>ws_ticks := 1, ws_directories := [([], directoryRecord [] (now 0))]\<rparr>"
  have "store_ok s"
    using root_entry_ok [OF time] by (simp add: s_def store_ok_def files_ok_def validate_iff map_has_def)
  moreover have "snd (new_store now sn) = snd ((case sn of None \<Rightarrow> ret () | Some x \<Rightarrow> loadSnapshot x) s)"
    using time by (simp add: new_store_def run_bind run_seq currentTime_run s_def)
  ultimately show ?thesis
    using keepsD [OF keeps_loadSnapshot] by (cases sn) auto
qed

text \<open>
  C14: Whatever methods a client calls on a new store, with whatever arguments, failing or not: every
  file and directory has a directory above it, no path is both, paths are canonical and stay below
  the root, records carry their own path and a valid time stamp.\<close>
theorem workspace_store_kept:
  assumes "fst (new_store now sn) = Inr ()"
  shows "store_ok (run_calls (ws_step collate) calls (snd (new_store now sn)))"
  using assms by (intro wsm.run_calls_inv new_store_ok)

theorem workspace_store_kept_witness:
  "store_ok (run_calls (ws_step (\<lambda>_ _. 0)) [CreateDirectory ''a/b'' True, Rename ''a'' ''/workspace/c''] (snd (new_store (\<lambda>_. 3) None)))"
  by (rule workspace_store_kept) code_simp

text \<open>
  \<open>normalizeWorkspacePath\<close> trims the path as a whole, not its names. A client can make a
  directory whose name ends in a space (the path given with a slash after it) and a file in it; both
  calls succeed, but the snapshot of that store is refused by \<open>importSnapshot\<close>: the workspace is
  lost when it is loaded again.\<close>
theorem trimmed_name_breaks_snapshot:
  "let s = run_calls (ws_step (\<lambda>_ _. 0)) [CreateDirectory ''x /'' False, WriteFile ''x /y'' [65]] (snd (new_store (\<lambda>_. 3) None))
   in fst (ws_step (\<lambda>_ _. 0) (ReadFile ''x /y'') s) = Inr (WsBytes [65]) \<and>
      fst (loadSnapshot (ws_exportSnapshot (\<lambda>_ _. 0) s) s) =
        Inl (WsError ''invalid_snapshot'' ''workspace file parent is missing'')"
  by code_simp

end
