(* ===== verification/Workspace_Db.thy ===== *)
theory Workspace_Db imports Workspace_Snapshots begin

text \<open>
  \<open>IndexedDbBrowserWorkspaceStore\<close> of \<open>apps/web/src/workspace.js\<close>: a memory store in front of one
  record of a database. Its methods are asynchronous and share the memory store, the flag \<open>loaded\<close>
  and the connection, so the model is a machine whose moves are the pieces of a method between two
  \<open>await\<close>s, in any interleaving. The database (the browser's) is a queue of transactions, which runs
  them in the order of their creation, as IndexedDB does for transactions on one object store; it may
  refuse one. Proved: a write that completes alone is found by the next session; two first writes
  that overlap lose one of them in some order of their pieces; a failed opening is final, and every method
  that goes on after it ends with its error.
\<close>

section \<open>The machine\<close>

datatype db_request = GetSnapshot | PutSnapshot snapshot

text \<open>How far a method has come: the piece that runs next.\<close>

datatype db_pc =
    DbStart
  | DbOpening
  | DbReading
  | DbRead "snapshot option"
  | DbImported
  | DbReady
  | DbPersist ws_value
  | DbWriting ws_value
  | DbDone "ws_error + ws_value"

datatype db_connection = Unopened | Opened | OpenFailed ws_error

record idb =
  db_memory :: ws_store
  db_loaded :: bool
  db_promise :: db_connection
  db_stored :: "snapshot option"
  db_queue :: "(nat \<times> db_request) list"
  db_clients :: "(ws_call \<times> db_pc) list"

fun persists :: "ws_call \<Rightarrow> bool" where
  "persists (ReadFile _) = False"
| "persists (ReadDirectory _) = False"
| "persists (StatOf _) = False"
| "persists _ = True"

definition goto :: "nat \<Rightarrow> db_pc \<Rightarrow> idb \<Rightarrow> idb" where
  "goto i pc s = s\<lparr>db_clients := (db_clients s)[i := (fst (db_clients s ! i), pc)]\<rparr>"

definition enqueue :: "nat \<Rightarrow> db_request \<Rightarrow> idb \<Rightarrow> idb" where
  "enqueue i r s = s\<lparr>db_queue := db_queue s @ [(i, r)]\<rparr>"

text \<open>\<open>load\<close>: skipped when loaded; it opens the database, reads the snapshot, imports it, and sets
  \<open>loaded\<close>.\<close>

definition db_start :: "nat \<Rightarrow> idb \<Rightarrow> idb" where
  "db_start i s = (if db_loaded s then goto i DbReady s else goto i DbOpening s)"

definition db_open :: "nat \<Rightarrow> (idb \<Rightarrow> idb) \<Rightarrow> idb \<Rightarrow> idb" where
  "db_open i next' s =
     (case db_promise s of
        OpenFailed e \<Rightarrow> goto i (DbDone (Inl e)) s
      | _ \<Rightarrow> next' (s\<lparr>db_promise := Opened\<rparr>))"

definition db_import :: "(string \<Rightarrow> string \<Rightarrow> int) \<Rightarrow> nat \<Rightarrow> snapshot option \<Rightarrow> idb \<Rightarrow> idb" where
  "db_import collate i snapshot s =
     (case snapshot of
        None \<Rightarrow> goto i DbImported s
      | Some sn \<Rightarrow>
          (case ws_step collate (ImportSnapshot sn) (db_memory s) of
             (Inl e, m) \<Rightarrow> goto i (DbDone (Inl e)) (s\<lparr>db_memory := m\<rparr>)
           | (Inr _, m) \<Rightarrow> goto i DbImported (s\<lparr>db_memory := m\<rparr>)))"

text \<open>The method of the memory store, and then \<open>persist\<close> if it writes.\<close>

definition db_operate :: "(string \<Rightarrow> string \<Rightarrow> int) \<Rightarrow> nat \<Rightarrow> ws_call \<Rightarrow> idb \<Rightarrow> idb" where
  "db_operate collate i c s =
     (case ws_step collate c (db_memory s) of
        (Inl e, m) \<Rightarrow> goto i (DbDone (Inl e)) (s\<lparr>db_memory := m\<rparr>)
      | (Inr v, m) \<Rightarrow> goto i (if persists c then DbPersist v else DbDone (Inr v)) (s\<lparr>db_memory := m\<rparr>))"

definition db_persist :: "(string \<Rightarrow> string \<Rightarrow> int) \<Rightarrow> nat \<Rightarrow> ws_value \<Rightarrow> idb \<Rightarrow> idb" where
  "db_persist collate i v s =
     goto i (DbWriting v) (enqueue i (PutSnapshot (ws_exportSnapshot collate (db_memory s))) s)"

fun db_client :: "(string \<Rightarrow> string \<Rightarrow> int) \<Rightarrow> nat \<Rightarrow> ws_call \<Rightarrow> db_pc \<Rightarrow> idb \<Rightarrow> idb" where
  "db_client collate i c DbStart s = db_start i s"
| "db_client collate i c DbOpening s = db_open i (\<lambda>s. goto i DbReading (enqueue i GetSnapshot s)) s"
| "db_client collate i c (DbRead snapshot) s = db_import collate i snapshot s"
| "db_client collate i c DbImported s = goto i DbReady (s\<lparr>db_loaded := True\<rparr>)"
| "db_client collate i c DbReady s = db_operate collate i c s"
| "db_client collate i c (DbPersist v) s = db_open i (db_persist collate i v) s"
| "db_client collate i c _ s = s"

text \<open>A move: a method goes on, opening the database fails (with a message) or is blocked, the database runs its next transaction or
  refuses it (\<open>indexedDbError\<close> of the action with the browser's message).\<close>

datatype db_move = Client nat | OpeningFails nat "string option" | Serve | Refuse string

definition indexedDbError :: "string \<Rightarrow> string \<Rightarrow> ws_error" where
  "indexedDbError message action =
     WsError ''transport'' (''failed to '' @ action @ (if message \<noteq> [] then '': '' @ message else []))"

fun db_serve :: "nat \<Rightarrow> db_request \<Rightarrow> idb \<Rightarrow> idb" where
  "db_serve i GetSnapshot s = goto i (DbRead (db_stored s)) s"
| "db_serve i (PutSnapshot sn) s =
     (case snd (db_clients s ! i) of
        DbWriting v \<Rightarrow> goto i (DbDone (Inr v)) (s\<lparr>db_stored := Some sn\<rparr>)
      | _ \<Rightarrow> s)"

fun db_step :: "(string \<Rightarrow> string \<Rightarrow> int) \<Rightarrow> idb \<Rightarrow> db_move \<Rightarrow> idb" where
  "db_step collate s (Client i) =
     (if i < length (db_clients s)
      then db_client collate i (fst (db_clients s ! i)) (snd (db_clients s ! i)) s else s)"
| "db_step collate s (OpeningFails i message) =
     (if i < length (db_clients s) \<and> snd (db_clients s ! i) = DbOpening \<and> db_promise s = Unopened
      then (let e = (case message of
              Some m \<Rightarrow> indexedDbError m ''open IndexedDB workspace''
            | None \<Rightarrow> WsError ''transport'' ''IndexedDB workspace open was blocked'') in
            goto i (DbDone (Inl e)) (s\<lparr>db_promise := OpenFailed e\<rparr>))
      else s)"
| "db_step collate s Serve =
     (case db_queue s of
        [] \<Rightarrow> s
      | (i, r) # rest \<Rightarrow> db_serve i r (s\<lparr>db_queue := rest\<rparr>))"
| "db_step collate s (Refuse message) =
     (case db_queue s of
        [] \<Rightarrow> s
      | (i, r) # rest \<Rightarrow>
          goto i (DbDone (Inl (indexedDbError message
            (case r of GetSnapshot \<Rightarrow> ''read IndexedDB workspace''
             | PutSnapshot _ \<Rightarrow> ''write IndexedDB workspace'')))) (s\<lparr>db_queue := rest\<rparr>))"

definition db_run :: "(string \<Rightarrow> string \<Rightarrow> int) \<Rightarrow> db_move list \<Rightarrow> idb \<Rightarrow> idb" where
  "db_run collate moves s = foldl (db_step collate) s moves"

text \<open>A session: a new object on a database that holds \<open>stored\<close>, and the methods its client calls.\<close>

definition db_session :: "(nat \<Rightarrow> int) \<Rightarrow> snapshot option \<Rightarrow> ws_call list \<Rightarrow> idb" where
  "db_session now stored calls =
     \<lparr>db_memory = snd (new_store now None), db_loaded = False, db_promise = Unopened, db_stored = stored,
      db_queue = [], db_clients = map (\<lambda>c. (c, DbStart)) calls\<rparr>"


section \<open>Two sessions\<close>

lemma goto_fields [simp]:
  "db_memory (goto i pc s) = db_memory s" "db_loaded (goto i pc s) = db_loaded s"
  "db_promise (goto i pc s) = db_promise s" "db_stored (goto i pc s) = db_stored s"
  "db_queue (goto i pc s) = db_queue s" "length (db_clients (goto i pc s)) = length (db_clients s)"
  by (simp_all add: goto_def)

lemmas db_defs = db_start_def db_open_def db_import_def db_operate_def db_persist_def goto_def enqueue_def db_run_def

text \<open>
  C32: Durability: on a loaded store with no other method under way, when a method that writes succeeds and
  leaves a well-formed store whose names survive trimming, the database takes the snapshot of that store,
  and in a new session that loads alone every read answers what the store would have answered then. (A
  store with a name that trimming changes exports a snapshot the new session refuses:
  \<open>trimmed_name_breaks_snapshot\<close>.)
\<close>

theorem db_write_durable:
  assumes "db_loaded s" "db_promise s = Opened" "db_queue s = []" "db_clients s = [(c, DbStart)]" "persists c"
    and "ws_step collate c (db_memory s) = (Inr v, m)" "store_ok m" "stable_store m" "\<And>n. time_ok (now n)"
  defines "t \<equiv> db_run collate [Client 0, Client 0, Client 0, Serve] s"
  shows "db_clients t = [(c, DbDone (Inr v))] \<and> db_memory t = m \<and> db_queue t = [] \<and>
    db_clients (db_run collate [Client 0, Client 0, Serve, Client 0, Client 0, Client 0]
      (db_session now (db_stored t) [ReadFile p])) = [(ReadFile p, DbDone (fst (ws_step collate (ReadFile p) m)))]"
proof -
  have t: "db_clients t = [(c, DbDone (Inr v))]" "db_memory t = m" "db_queue t = []"
    "db_stored t = Some (ws_exportSnapshot collate m)"
    using assms(1-6) by (simp_all add: t_def db_defs)
  let ?new = "snd (new_store now None)"
  have "clock_ok ?new"
    using assms(9) by (simp add: clock_ok_def new_store_def run_bind run_seq currentTime_run)
  then obtain D F where load: "loadSnapshot (ws_exportSnapshot collate m) ?new =
      (Inr (), ?new\<lparr>ws_ticks := ws_ticks ?new + 1, ws_directories := D, ws_filemap := F\<rparr>)"
    and maps: "map_of D = map_of (ws_directories m)" "map_of F = map_of (ws_filemap m)"
    using load_exported [OF assms(7,8), of ?new collate] by metis
  have "fst (ws_step collate (ReadFile p) (?new\<lparr>ws_ticks := ws_ticks ?new + 1, ws_directories := D, ws_filemap := F\<rparr>)) =
      fst (ws_step collate (ReadFile p) m)"
    using maps by (auto simp: as_value_def ws_readFile_def from_sum_def run_bind map_has_def split: sum.split option.split)
  moreover have "db_clients (db_run collate [Client 0, Client 0, Serve, Client 0, Client 0, Client 0]
      (db_session now (db_stored t) [ReadFile p])) =
    [(ReadFile p, DbDone (fst (ws_step collate (ReadFile p)
      (?new\<lparr>ws_ticks := ws_ticks ?new + 1, ws_directories := D, ws_filemap := F\<rparr>))))]"
    unfolding t(4) db_session_def
    using load by (simp add: db_defs as_value_def run_bind split: prod.split sum.split)
  ultimately show ?thesis using t by simp
qed

definition example_db :: idb where
  "example_db =
     \<lparr>db_memory = example_ws, db_loaded = True, db_promise = Opened, db_stored = None, db_queue = [],
      db_clients = [(WriteFile ''src/b'' [9], DbStart)]\<rparr>"

theorem db_write_durable_witness:
  "\<exists>v m. ws_step (\<lambda>_ _. 0) (WriteFile ''src/b'' [9]) example_ws = (Inr v, m) \<and>
     db_clients (db_run (\<lambda>_ _. 0) [Client 0, Client 0, Serve, Client 0, Client 0, Client 0]
       (db_session (\<lambda>_. 3) (db_stored (db_run (\<lambda>_ _. 0) [Client 0, Client 0, Client 0, Serve] example_db)) [ReadFile ''src/b''])) =
     [(ReadFile ''src/b'', DbDone (fst (ws_step (\<lambda>_ _. 0) (ReadFile ''src/b'') m)))]"
proof -
  let ?r = "ws_step (\<lambda>_ _. 0) (WriteFile ''src/b'' [9]) example_ws"
  have "fst ?r = Inr (WsStatV (WsStat True 9 ''/workspace/src/b'' 1))" by code_simp
  then have run: "?r = (Inr (WsStatV (WsStat True 9 ''/workspace/src/b'' 1)), snd ?r)" by (simp add: prod_eq_iff)
  have ok: "store_ok (snd ?r)" by (rule keepsD [OF ws_step_keeps example_ws_ok])
  have stable: "stable_store (snd ?r)" by code_simp
  have "time_ok 3" by (simp add: time_ok_def max_safe_integer_def)
  moreover have "db_loaded example_db" "db_promise example_db = Opened" "db_queue example_db = []"
    "db_clients example_db = [(WriteFile ''src/b'' [9], DbStart)]" "db_memory example_db = example_ws"
    by (simp_all add: example_db_def)
  ultimately show ?thesis
    using run db_write_durable [where s = example_db and c = "WriteFile ''src/b'' [9]" and collate = "\<lambda>_ _. 0" and
        m = "snd ?r" and now = "\<lambda>_. 3" and p = "''src/b''", OF _ _ _ _ _ _ ok stable]
    by (intro exI conjI) (auto simp del: ws_step.simps)
qed

section \<open>A failed opening\<close>

fun db_rank :: "db_pc \<Rightarrow> nat" where
  "db_rank DbStart = 2"
| "db_rank DbOpening = 1"
| "db_rank _ = 0"

abbreviation pc_at :: "idb \<Rightarrow> nat \<Rightarrow> db_pc" where "pc_at s i \<equiv> snd (db_clients s ! i)"

lemma pc_goto [simp]: "i < length (db_clients s) \<Longrightarrow> pc_at (goto i pc s) j = (if j = i then pc else pc_at s j)"
  by (simp add: goto_def nth_list_update)

lemma length_serve [simp]: "length (db_clients (db_serve i r s)) = length (db_clients s)"
  by (cases r) (simp_all split: db_pc.split)

lemma length_step [simp]: "length (db_clients (db_step collate s x)) = length (db_clients s)"
proof (cases x)
  case (Client i)
  then show ?thesis
    by (cases "pc_at s i") (simp_all add: db_start_def db_open_def db_import_def db_operate_def db_persist_def enqueue_def
        split: db_connection.split option.split prod.split sum.split)
qed (simp_all add: Let_def split: list.split prod.split)

lemma length_run [simp]: "length (db_clients (db_run collate moves s)) = length (db_clients s)"
  unfolding db_run_def by (induction moves arbitrary: s) simp_all

text \<open>Before the database is open, the methods called are before the opening or at it.\<close>

definition unopened :: "snapshot option \<Rightarrow> idb \<Rightarrow> bool" where
  "unopened stored s \<longleftrightarrow>
     (db_promise s = Unopened \<longrightarrow> \<not> db_loaded s \<and> db_queue s = [] \<and> db_stored s = stored \<and>
        (\<forall>i<length (db_clients s). pc_at s i = DbStart \<or> pc_at s i = DbOpening))"

lemma serve_promise [simp]: "db_promise (db_serve i r s) = db_promise s"
  by (cases r) (simp_all split: db_pc.split)

lemma unopened_step:
  assumes u: "unopened stored s"
  shows "unopened stored (db_step collate s x)"
proof (cases "db_promise s = Unopened")
  case True
  show ?thesis
  proof (cases x)
    case (Client i)
    show ?thesis
    proof (cases "i < length (db_clients s)")
      case i: True
      then consider "pc_at s i = DbStart" | "pc_at s i = DbOpening" using u True by (auto simp: unopened_def)
      then show ?thesis
        using u True Client i by cases (simp_all add: unopened_def db_start_def db_open_def enqueue_def)
    qed (use Client u in simp)
  qed (use u True in \<open>auto simp: unopened_def Let_def\<close>)
next
  case False
  have "db_promise (db_step collate s x) \<noteq> Unopened"
  proof (cases x)
    case (Client i)
    then show ?thesis
      using False by (cases "pc_at s i") (auto simp: db_start_def db_open_def db_import_def db_operate_def db_persist_def
          enqueue_def split: db_connection.split option.split prod.split sum.split)
  qed (use False in \<open>auto simp: Let_def split: list.split prod.split\<close>)
  then show ?thesis by (simp add: unopened_def)
qed

text \<open>After the opening has failed.\<close>

definition opening_failed :: "ws_error \<Rightarrow> snapshot option \<Rightarrow> idb \<Rightarrow> bool" where
  "opening_failed e stored s \<longleftrightarrow>
     db_promise s = OpenFailed e \<and> \<not> db_loaded s \<and> db_queue s = [] \<and> db_stored s = stored \<and>
     (\<forall>i<length (db_clients s). pc_at s i \<in> {DbStart, DbOpening, DbDone (Inl e)})"

lemma opening_failed_step:
  assumes "opening_failed e stored s"
  shows "opening_failed e stored (db_step collate s x) \<and>
    (j < length (db_clients s) \<longrightarrow> db_rank (pc_at (db_step collate s x) j) \<le> db_rank (pc_at s j) - (if x = Client j then 1 else 0))"
proof (cases x)
  case (Client i)
  show ?thesis
  proof (cases "i < length (db_clients s)")
    case True
    then consider "pc_at s i = DbStart" | "pc_at s i = DbOpening" | "pc_at s i = DbDone (Inl e)"
      using assms by (auto simp: opening_failed_def)
    then show ?thesis
      using True Client assms by cases (auto simp: opening_failed_def db_start_def db_open_def)
  qed (use Client assms in simp)
qed (use assms in \<open>auto simp: opening_failed_def\<close>)

lemma opening_failed_run:
  "opening_failed e stored s \<Longrightarrow> opening_failed e stored (db_run collate moves s) \<and>
   (j < length (db_clients s) \<longrightarrow> db_rank (pc_at (db_run collate moves s) j) \<le> db_rank (pc_at s j) - count_list moves (Client j))"
proof (induction moves arbitrary: s)
  case (Cons x moves)
  have run: "db_run collate (x # moves) s = db_run collate moves (db_step collate s x)" by (simp add: db_run_def)
  show ?case
    using opening_failed_step [OF Cons.prems, of collate x j] Cons.IH [of "db_step collate s x"]
    unfolding run by (auto split: if_splits)
qed (simp add: db_run_def)

text \<open>
  C33: A failed opening is final. When the opening of a session's database fails, whatever moves came
  before and come later, the rejected promise is kept: no method ever reads or writes the database,
  and each method, once it is given the two moves it has until it has awaited the opening, has ended with
  that error.
\<close>

theorem failed_opening_is_final:
  fixes collate now stored calls before after i m
  defines "s \<equiv> db_run collate before (db_session now stored calls)"
    and "t \<equiv> db_run collate (before @ OpeningFails i m # after) (db_session now stored calls)"
  assumes "db_promise s = Unopened" "i < length calls" "snd (db_clients s ! i) = DbOpening"
  shows "\<exists>e. db_promise t = OpenFailed e \<and> db_stored t = stored \<and>
    (\<forall>j<length calls. snd (db_clients t ! j) \<in> {DbStart, DbOpening, DbDone (Inl e)} \<and>
       (j = i \<or> 2 \<le> count_list after (Client j) \<longrightarrow> snd (db_clients t ! j) = DbDone (Inl e)))"
proof -
  have len: "length (db_clients s) = length calls" by (simp add: s_def db_session_def)
  have "unopened stored (db_run collate moves u)" if "unopened stored u" for moves u
    using that unfolding db_run_def by (induction moves arbitrary: u) (simp_all add: unopened_step)
  then have u: "unopened stored s" unfolding s_def by (simp add: unopened_def db_session_def)
  define s' where "s' = db_step collate s (OpeningFails i m)"
  have t: "t = db_run collate after s'" by (simp add: t_def s_def s'_def db_run_def)
  define e where "e = (case m of Some x \<Rightarrow> indexedDbError x ''open IndexedDB workspace''
    | None \<Rightarrow> WsError ''transport'' ''IndexedDB workspace open was blocked'')"
  have s': "s' = goto i (DbDone (Inl e)) (s\<lparr>db_promise := OpenFailed e\<rparr>)"
    using assms(3,4,5) len unfolding s'_def e_def by (simp add: Let_def)
  have e: "pc_at s' i = DbDone (Inl e)" "opening_failed e stored s'"
    using u assms(3,4) len by (auto simp: s' opening_failed_def unopened_def)
  have len': "length (db_clients s') = length calls" using len unfolding s'_def length_step .
  note run = opening_failed_run [OF e(2), of collate "after"]
  have rank: "db_rank (pc_at t j) = 0" if "j < length calls" "j = i \<or> 2 \<le> count_list after (Client j)" for j
  proof -
    have "db_rank (pc_at s' j) \<le> 2" by (cases "pc_at s' j") simp_all
    with run [of j] that len' e(1) show ?thesis unfolding t by auto
  qed
  show ?thesis
  proof (intro exI [of _ e] conjI allI impI)
    show "db_promise t = OpenFailed e" "db_stored t = stored" using run unfolding t opening_failed_def by blast+
    fix j assume j: "j < length calls"
    then show in': "pc_at t j \<in> {DbStart, DbOpening, DbDone (Inl e)}"
      using run len' unfolding t opening_failed_def by simp
    show "pc_at t j = DbDone (Inl e)" if "j = i \<or> 2 \<le> count_list after (Client j)"
      using rank [OF j that] in' by auto
  qed
qed

theorem failed_opening_is_final_witness:
  "\<exists>e. db_clients (db_run (\<lambda>_ _. 0) ([Client 0] @ OpeningFails 0 None # [Client 1, Serve, Client 1])
       (db_session (\<lambda>_. 3) None [ReadFile ''a'', DeleteFile ''a''])) =
     [(ReadFile ''a'', DbDone (Inl e)), (DeleteFile ''a'', DbDone (Inl e))]"
proof -
  let ?s = "db_run (\<lambda>_ _. 0) [Client 0] (db_session (\<lambda>_. 3) None [ReadFile ''a'', DeleteFile ''a''])"
  let ?t = "db_run (\<lambda>_ _. 0) ([Client 0] @ OpeningFails 0 None # [Client 1, Serve, Client 1])
       (db_session (\<lambda>_. 3) None [ReadFile ''a'', DeleteFile ''a''])"
  have "db_promise ?s = Unopened" "snd (db_clients ?s ! 0) = DbOpening" by (simp_all add: db_session_def db_defs)
  then obtain e where e: "\<forall>j<2. j = 0 \<or> 2 \<le> count_list [Client 1, Serve, Client 1] (Client j) \<longrightarrow> pc_at ?t j = DbDone (Inl e)"
    using failed_opening_is_final [of "\<lambda>_ _. 0" "[Client 0]" "\<lambda>_. 3" None "[ReadFile ''a'', DeleteFile ''a'']" 0 None "[Client 1, Serve, Client 1]"]
    by (auto simp: numeral_2_eq_2)
  have "map fst (db_clients ?t) = [ReadFile ''a'', DeleteFile ''a'']" by (simp add: db_session_def db_defs Let_def)
  moreover have "pc_at ?t 0 = DbDone (Inl e)" "pc_at ?t 1 = DbDone (Inl e)" using e [rule_format, of 0] e [rule_format, of 1] by simp_all
  ultimately show ?thesis by (intro exI [of _ e] nth_equalityI) (auto simp: db_session_def less_2_cases_iff numeral_2_eq_2 less_Suc_eq prod_eq_iff)
qed

section \<open>Overlapping writes\<close>

definition writable_file :: "ws_store \<Rightarrow> string \<Rightarrow> string \<Rightarrow> bool" where
  "writable_file s path p \<longleftrightarrow>
     normalizeWorkspacePath path = Inr p \<and> p \<noteq> [] \<and> \<not> map_has (ws_directories s) p \<and>
     map_has (ws_directories s) (parentPath p) \<and> \<not> map_has (ws_filemap s) (parentPath p)"

lemma writable_file_maps:
  "map_of (ws_directories u) = map_of (ws_directories m) \<Longrightarrow> map_of (ws_filemap u) = map_of (ws_filemap m) \<Longrightarrow>
   writable_file u path p = writable_file m path p"
  by (simp add: writable_file_def map_has_def)

lemma write_runs:
  assumes "writable_file s path p" "clock_ok s"
  obtains v s' where "ws_step collate (WriteFile path b) s = (Inr v, s')" "clock_ok s'"
    "\<And>q. map_has (ws_filemap s') q \<longleftrightarrow> q = p \<or> map_has (ws_filemap s) q"
proof -
  let ?s = "s\<lparr>ws_ticks := ws_ticks s + 1, ws_filemap := AList.update p
    \<lparr>wf_content = b, wf_mtime = ws_now s (ws_ticks s), wf_path = workspace_path p\<rparr> (ws_filemap s)\<rparr>"
  have "\<exists>v. ws_step collate (WriteFile path b) s = (Inr v, ?s)"
    using assms by (simp add: writable_file_def as_value_def ws_writeFile_def run_bind run_seq from_sum_def
        requireParentDirectory_def currentTime_ok Let_def)
  moreover have "clock_ok ?s" using assms(2) by (simp add: clock_ok_def)
  ultimately show ?thesis using that [of _ ?s] by auto
qed

lemma import_runs:
  assumes "store_ok m" "stable_store m" "clock_ok u"
  obtains u' where "ws_step collate (ImportSnapshot (ws_exportSnapshot collate m)) u = (Inr WsUnit, u')" "clock_ok u'"
    "map_of (ws_directories u') = map_of (ws_directories m)" "map_of (ws_filemap u') = map_of (ws_filemap m)"
proof -
  obtain D F where l: "loadSnapshot (ws_exportSnapshot collate m) u =
      (Inr (), u\<lparr>ws_ticks := ws_ticks u + 1, ws_directories := D, ws_filemap := F\<rparr>)"
    "map_of D = map_of (ws_directories m)" "map_of F = map_of (ws_filemap m)" using assms by (rule load_exported)
  show ?thesis
    by (rule that [of "u\<lparr>ws_ticks := ws_ticks u + 1, ws_directories := D, ws_filemap := F\<rparr>"])
      (use l assms(3) in \<open>simp_all add: as_value_def run_bind clock_ok_def\<close>)
qed

lemma exported_paths:
  assumes "store_ok s"
  shows "workspace_path p \<in> fe_path ` set (sn_files (ws_exportSnapshot collate s)) \<longleftrightarrow> map_has (ws_filemap s) p"
proof -
  have paths: "wf_path r = workspace_path q" if "(q, r) \<in> set (ws_filemap s)" for q r
    using that assms by (auto simp: store_ok_def files_ok_def list_all_iff)
  have "fe_path ` set (sn_files (ws_exportSnapshot collate s)) = (\<lambda>(q, r). wf_path r) ` set (ws_filemap s)"
    unfolding exported_files by (simp add: image_image split_beta)
  also have "\<dots> = workspace_path ` fst ` set (ws_filemap s)"
    unfolding image_image by (rule image_cong) (use paths in auto)
  finally show ?thesis
    unfolding map_has_iff using workspace_path_inj by (metis (no_types, lifting) image_iff)
qed

text \<open>
  C34: Two methods that a client starts together on a new session both load: the second import replaces
  what the first method has already written. For any stored workspace that a session reads back and any
  two files that can be written in it, the first of them new, there is an order in which both writes report success and the
  database ends with the second file and without the first.
\<close>

theorem overlapping_writes_lose_one:
  assumes ok: "store_ok m" "stable_store m" and clock: "\<And>n. time_ok (now n)"
    and w1: "writable_file m path1 p1" and w2: "writable_file m path2 p2"
    and new: "p1 \<noteq> p2" "\<not> map_has (ws_filemap m) p1"
  shows "\<exists>moves sn v1 v2.
    let t = db_run collate moves (db_session now (Some (ws_exportSnapshot collate m)) [WriteFile path1 b1, WriteFile path2 b2]) in
    map snd (db_clients t) = [DbDone (Inr v1), DbDone (Inr v2)] \<and> db_stored t = Some sn \<and>
    workspace_path p2 \<in> fe_path ` set (sn_files sn) \<and> workspace_path p1 \<notin> fe_path ` set (sn_files sn)"
proof -
  let ?sn = "ws_exportSnapshot collate m" and ?new = "snd (new_store now None)"
  let ?moves = "[Client 0, Client 1, Client 0, Client 1, Serve, Serve, Client 0, Client 0, Client 0,
         Client 0, Client 1, Serve, Client 1, Client 1, Client 1, Serve]"
  have "clock_ok ?new" using clock by (simp add: clock_ok_def new_store_def run_bind run_seq currentTime_run)
  then obtain u1 where u1: "ws_step collate (ImportSnapshot ?sn) ?new = (Inr WsUnit, u1)" "clock_ok u1"
    "map_of (ws_directories u1) = map_of (ws_directories m)" "map_of (ws_filemap u1) = map_of (ws_filemap m)"
    using import_runs [OF ok] by metis
  obtain v1 m1 where m1: "ws_step collate (WriteFile path1 b1) u1 = (Inr v1, m1)" "clock_ok m1"
    using write_runs [of u1] w1 writable_file_maps [OF u1(3,4)] u1(2) by metis
  obtain u2 where u2: "ws_step collate (ImportSnapshot ?sn) m1 = (Inr WsUnit, u2)" "clock_ok u2"
    "map_of (ws_directories u2) = map_of (ws_directories m)" "map_of (ws_filemap u2) = map_of (ws_filemap m)"
    using import_runs [OF ok m1(2)] by metis
  obtain v2 m2 where m2: "ws_step collate (WriteFile path2 b2) u2 = (Inr v2, m2)"
    "\<And>q. map_has (ws_filemap m2) q \<longleftrightarrow> q = p2 \<or> map_has (ws_filemap u2) q"
    using write_runs [of u2] w2 writable_file_maps [OF u2(3,4)] u2(2) by metis
  have "store_ok ?new"
    using clock [of 0] by (intro new_store_ok) (simp add: new_store_def run_bind run_seq currentTime_run)
  then have "store_ok m2" using keepsD [OF ws_step_keeps] u1(1) m1(1) u2(1) m2(1) by (metis snd_conv)
  moreover have "map_has (ws_filemap u2) p1 = map_has (ws_filemap m) p1" by (simp add: u2(4) map_has_def)
  then have "\<not> map_has (ws_filemap m2) p1" "map_has (ws_filemap m2) p2" using new by (simp_all add: m2(2))
  ultimately have lost: "workspace_path p2 \<in> fe_path ` set (sn_files (ws_exportSnapshot collate m2))"
    "workspace_path p1 \<notin> fe_path ` set (sn_files (ws_exportSnapshot collate m2))" by (simp_all add: exported_paths)
  have "map snd (db_clients (db_run collate ?moves (db_session now (Some ?sn) [WriteFile path1 b1, WriteFile path2 b2]))) =
      [DbDone (Inr v1), DbDone (Inr v2)]"
    "db_stored (db_run collate ?moves (db_session now (Some ?sn) [WriteFile path1 b1, WriteFile path2 b2])) =
      Some (ws_exportSnapshot collate m2)"
    by (simp_all add: db_defs db_session_def u1(1) m1(1) u2(1) m2(1) del: ws_step.simps)
  with lost show ?thesis
    by (intro exI [of _ ?moves] exI [of _ "ws_exportSnapshot collate m2"] exI [of _ v1] exI [of _ v2]) (simp add: Let_def)
qed

theorem overlapping_writes_lose_one_witness:
  "\<exists>moves sn v1 v2.
    let t = db_run (\<lambda>_ _. 0) moves (db_session (\<lambda>_. 3) (Some (ws_exportSnapshot (\<lambda>_ _. 0) example_ws))
        [WriteFile ''a'' [65], WriteFile ''src/b'' [66]]) in
    map snd (db_clients t) = [DbDone (Inr v1), DbDone (Inr v2)] \<and> db_stored t = Some sn \<and>
    ''/workspace/src/b'' \<in> fe_path ` set (sn_files sn) \<and> ''/workspace/a'' \<notin> fe_path ` set (sn_files sn)"
proof -
  have "stable_store example_ws" "writable_file example_ws ''a'' ''a''" "writable_file example_ws ''src/b'' ''src/b''"
    "\<not> map_has (ws_filemap example_ws) ''a''" by code_simp+
  from overlapping_writes_lose_one [OF example_ws_ok this(1) _ this(2,3) _ this(4), of "\<lambda>_. 3" "\<lambda>_ _. 0" "[65]" "[66]"]
  show ?thesis by (simp add: time_ok_def max_safe_integer_def workspace_path_def)
qed

end
