(* ===== verification/Workspace_Mount.thy ===== *)
theory Workspace_Mount imports Workspace_Snapshots Wasi_Calls begin

text \<open>
  How a run gets its workspace and gives it back (\<open>apps/web/src/wasi-module.js\<close>, from line 866): the
  mount is filled from a snapshot of the store, with the files of the package as fallbacks, and is
  exported as a snapshot at the end of the run and for a child command. A mount is here a value; the
  runtime holds its records in a store of references (\<open>ws_mount\<close> reads them).
  Proved: the snapshot of a well-formed tree whose entries have storable names and their parent
  directories is accepted by the store, which then holds exactly the guest's directories and its files
  other than fallbacks. A directory that only package files imply, or a backslash in a name, breaks this.
\<close>

section \<open>Mounts\<close>

record package_file =
  pf_bytes :: "byte list"
  pf_path :: string

record workspace_mount =
  mt_dirs :: "string list option"
  mt_dirty :: bool
  mt_files :: "(string \<times> file_record) list"
  mt_rootDirs :: "string list"
  mt_rootFiles :: "(string \<times> file_record) list"
  mt_preopen :: bool
  mt_writable :: bool

definition plain_record :: "package_file \<Rightarrow> file_record" where
  "plain_record f = \<lparr>r_bytes = pf_bytes f, r_path = Some (pf_path f), r_fallback = False, r_mtime = None\<rparr>"

text \<open>\<open>addParentDirs\<close> walks over all names of the path but the last.\<close>

fun add_parents :: "string \<Rightarrow> string list \<Rightarrow> string list \<Rightarrow> string list" where
  "add_parents current (name # name' # names) dirs =
     (let current' = (if current \<noteq> [] then current @ ''/'' @ name else name) in
      add_parents current' (name' # names) (if current' \<noteq> [] then set_add current' dirs else dirs))"
| "add_parents current _ dirs = dirs"

definition addParentDirs :: "string list \<Rightarrow> string \<Rightarrow> string list" where
  "addParentDirs dirs path = add_parents [] (js_split (CHR ''/'') path) dirs"

definition readOnlyPackageRootMount :: "package_file list \<Rightarrow> string list \<times> (string \<times> file_record) list \<times> bool" where
  "readOnlyPackageRootMount files =
     (let records = fold (\<lambda>f. AList.update (pf_path f) (plain_record f)) files [] in
      (fold (\<lambda>f dirs. addParentDirs dirs (pf_path f)) files [[], ''workspace'', ''tmp''], records, records \<noteq> []))"

fun mount_dirs :: "dir_entry list \<Rightarrow> string list \<Rightarrow> ws_error + string list" where
  "mount_dirs [] dirs = Inr dirs"
| "mount_dirs (entry # entries) dirs =
     (case normalizeWorkspacePath (de_path entry) of
        Inl e \<Rightarrow> Inl e
      | Inr rel \<Rightarrow> mount_dirs entries (set_add rel dirs))"

fun mount_files :: "file_entry list \<Rightarrow> (string \<times> file_record) list \<Rightarrow> ws_error + (string \<times> file_record) list" where
  "mount_files [] files = Inr files"
| "mount_files (entry # entries) files =
     (case normalizeWorkspacePath (fe_path entry) of
        Inl e \<Rightarrow> Inl e
      | Inr rel \<Rightarrow>
          (case base64ToBytes (fe_content entry) of
             None \<Rightarrow> Inl InvalidCharacter
           | Some bytes \<Rightarrow>
               mount_files entries (AList.update rel
                 \<lparr>r_bytes = bytes, r_path = Some rel, r_fallback = False, r_mtime = Some (fe_mtime entry)\<rparr> files)))"

definition add_fallback :: "package_file \<Rightarrow> (string \<times> file_record) list \<Rightarrow> (string \<times> file_record) list" where
  "add_fallback f files =
     (if map_has files (pf_path f) then files
      else AList.update (pf_path f) (plain_record f\<lparr>r_fallback := True\<rparr>) files)"

text \<open>A snapshot passes through a memory store, which checks and normalizes it.\<close>

definition normalized_snapshot ::
  "(nat \<Rightarrow> int) \<Rightarrow> (string \<Rightarrow> string \<Rightarrow> int) \<Rightarrow> snapshot \<Rightarrow> ws_error + snapshot" where
  "normalized_snapshot now collate snapshot =
     (case new_store now (Some snapshot) of
        (Inl e, _) \<Rightarrow> Inl e
      | (Inr _, loaded) \<Rightarrow> Inr (ws_exportSnapshot collate loaded))"

definition writableWorkspaceMountFromSnapshot ::
  "(nat \<Rightarrow> int) \<Rightarrow> (string \<Rightarrow> string \<Rightarrow> int) \<Rightarrow> snapshot \<Rightarrow> package_file list \<Rightarrow> package_file list \<Rightarrow>
   ws_error + workspace_mount" where
  "writableWorkspaceMountFromSnapshot now collate snapshot files rootFiles =
     (case normalized_snapshot now collate snapshot of
        Inl e \<Rightarrow> Inl e
      | Inr sn \<Rightarrow>
          (case mount_dirs (sn_directories sn) [[]] of
             Inl e \<Rightarrow> Inl e
           | Inr dirs \<Rightarrow>
               (case mount_files (sn_files sn) [] of
                  Inl e \<Rightarrow> Inl e
                | Inr fs \<Rightarrow>
                    (let (rootDirs, rootRecords, preopen) = readOnlyPackageRootMount rootFiles in
                     Inr \<lparr>mt_dirs = Some dirs, mt_dirty = False, mt_files = fold add_fallback files fs,
                          mt_rootDirs = rootDirs, mt_rootFiles = rootRecords, mt_preopen = preopen,
                          mt_writable = True\<rparr>))))"

definition readOnlyWorkspaceMount :: "package_file list \<Rightarrow> package_file list \<Rightarrow> workspace_mount" where
  "readOnlyWorkspaceMount files rootFiles =
     (let (rootDirs, rootRecords, preopen) = readOnlyPackageRootMount rootFiles in
      \<lparr>mt_dirs = None, mt_dirty = False,
       mt_files = fold (\<lambda>f. AList.update (pf_path f) (plain_record f)) files [],
       mt_rootDirs = rootDirs, mt_rootFiles = rootRecords, mt_preopen = preopen, mt_writable = False\<rparr>)"

text \<open>\<open>createWasiWorkspaceMount\<close>, where the snapshot of a store has been taken by the caller.\<close>

definition createWasiWorkspaceMount ::
  "(nat \<Rightarrow> int) \<Rightarrow> (string \<Rightarrow> string \<Rightarrow> int) \<Rightarrow> snapshot option \<Rightarrow> package_file list \<Rightarrow> package_file list \<Rightarrow>
   ws_error + workspace_mount" where
  "createWasiWorkspaceMount now collate snapshot files rootFiles =
     (case snapshot of
        Some sn \<Rightarrow> writableWorkspaceMountFromSnapshot now collate sn files rootFiles
      | None \<Rightarrow> Inr (readOnlyWorkspaceMount files rootFiles))"

definition exportWasiWorkspaceSnapshot :: "(string \<Rightarrow> string \<Rightarrow> int) \<Rightarrow> workspace_mount \<Rightarrow> snapshot" where
  "exportWasiWorkspaceSnapshot collate mount =
     \<lparr>sn_directories = js_sort (\<lambda>left right. collate (de_path left) (de_path right))
        (map (\<lambda>path. \<lparr>de_mtime = 0, de_path = workspace_path path\<rparr>) (case mt_dirs mount of None \<Rightarrow> [] | Some dirs \<Rightarrow> dirs)),
      sn_files = js_sort (\<lambda>left right. collate (fe_path left) (fe_path right))
        (map (\<lambda>f. \<lparr>fe_content = bytesToBase64 (r_bytes f),
                  fe_mtime = (case r_mtime f of None \<Rightarrow> 0 | Some t \<Rightarrow> t),
                  fe_path = workspace_path (case r_path f of None \<Rightarrow> [] | Some p \<Rightarrow> p),
                  fe_size = int (length (r_bytes f))\<rparr>)
          [f \<leftarrow> map snd (mt_files mount). \<not> r_fallback f]),
      sn_root = WORKSPACE_ROOT, sn_version = 1\<rparr>"

definition importWasiWorkspaceSnapshot ::
  "(nat \<Rightarrow> int) \<Rightarrow> (string \<Rightarrow> string \<Rightarrow> int) \<Rightarrow> workspace_mount \<Rightarrow> snapshot \<Rightarrow> ws_error + workspace_mount" where
  "importWasiWorkspaceSnapshot now collate mount snapshot =
     (if \<not> mt_writable mount then Inr mount
      else (case normalized_snapshot now collate snapshot of
        Inl e \<Rightarrow> Inl e
      | Inr sn \<Rightarrow>
          (case mount_dirs (sn_directories sn) [] of
             Inl e \<Rightarrow> Inl e
           | Inr dirs \<Rightarrow>
               (case mount_files (sn_files sn) [] of
                  Inl e \<Rightarrow> Inl e
                | Inr files \<Rightarrow>
                    Inr (mount\<lparr>mt_dirs := Some dirs,
                       mt_files := fold (\<lambda>f files. case r_path f of
                           None \<Rightarrow> files
                         | Some p \<Rightarrow> if map_has files p then files else AList.update p (f\<lparr>r_mtime := None\<rparr>) files)
                         [f \<leftarrow> map snd (mt_files mount). r_fallback f] files,
                       mt_dirty := True\<rparr>)))))"

section \<open>The workspace of a runtime\<close>

definition ws_mount :: "runtime \<Rightarrow> workspace_mount" where
  "ws_mount s =
     \<lparr>mt_dirs = (if ws_writable s then Some (ws_dirs s) else None), mt_dirty = ws_dirty s, mt_files = map (\<lambda>(p, r). (p, recs s r)) (ws_files s),
      mt_rootDirs = pr_dirs s, mt_rootFiles = map (\<lambda>(p, r). (p, recs s r)) (pr_files s),
      mt_preopen = (packageRootFd s \<noteq> None), mt_writable = ws_writable s\<rparr>"

text \<open>The constructor with a mount: the records get the first references, in the order of the maps.\<close>

definition number_from :: "nat \<Rightarrow> (string \<times> 'a) list \<Rightarrow> (string \<times> nat) list" where
  "number_from n xs = zip (map fst xs) [n..<n + length xs]"

definition mount_runtime :: "workspace_mount \<Rightarrow> runtime \<Rightarrow> runtime" where
  "mount_runtime mount s =
     (let files = map snd (mt_files mount) @ map snd (mt_rootFiles mount) in
      s\<lparr>ws_writable := mt_writable mount, ws_dirty := mt_dirty mount,
        ws_dirs := (case mt_dirs mount of None \<Rightarrow> [] | Some dirs \<Rightarrow> dirs),
        ws_files := number_from 0 (mt_files mount),
        pr_files := number_from (length (mt_files mount)) (mt_rootFiles mount),
        pr_dirs := mt_rootDirs mount,
        packageRootFd := (if mt_preopen mount then Some FIRST_FILE_FD else None),
        nextFileFd := (if mt_preopen mount then FIRST_FILE_FD + 1 else FIRST_FILE_FD),
        recs := (\<lambda>r. if r < length files then files ! r else plain_record \<lparr>pf_bytes = [], pf_path = []\<rparr>),
        nextRef := length files\<rparr>)"


section \<open>What the store gets back\<close>

text \<open>Names the store can keep: no backslash, and no white space at the end of a path.\<close>

definition storable :: "string \<Rightarrow> bool" where
  "storable p \<longleftrightarrow> canonical p \<and> CHR 0x5C \<notin> set p \<and> path_stable p"

text \<open>The workspace of a runtime can be saved: its names are storable, each name of the store stands
  in a listed directory, and each record knows its path.\<close>

definition saved_files :: "runtime \<Rightarrow> (string \<times> nat) list" where
  "saved_files s = [e \<leftarrow> ws_files s. \<not> r_fallback (recs s (snd e))]"

definition record_ok :: "string \<Rightarrow> file_record \<Rightarrow> bool" where
  "record_ok p r \<longleftrightarrow> r_path r = Some p \<and> (case r_mtime r of None \<Rightarrow> True | Some t \<Rightarrow> time_ok t)"

definition mount_ok :: "runtime \<Rightarrow> bool" where
  "mount_ok s \<longleftrightarrow> ws_writable s \<and>
     list_all (\<lambda>p. storable p \<and> parentPath p \<in> set (ws_dirs s)) (ws_dirs s) \<and>
     list_all (\<lambda>(p, r). storable p \<and> parentPath p \<in> set (ws_dirs s) \<and> record_ok p (recs s r)) (saved_files s)"

lemma storable_normalized: "storable p \<Longrightarrow> normalizeWorkspacePath (workspace_path p) = Inr p"
  by (rule normalize_stable) (simp_all add: storable_def ws_path_ok_def)

lemma map_of_filter_distinct:
  "distinct (map fst m) \<Longrightarrow>
   map_of [e \<leftarrow> m. P (snd e)] k = (case map_of m k of None \<Rightarrow> None | Some v \<Rightarrow> if P v then Some v else None)"
  by (induction m) (auto simp: map_of_eq_None_iff split: option.splits)

lemma time_zero [simp]: "time_ok 0"
  by (simp add: time_ok_def max_safe_integer_def)

text \<open>
  C35: Saving: when the workspace of a run is a well-formed tree (which calls that move no root keep)
  that can be saved, that is, every name is one the store accepts and keeps, every entry has its parent
  directory and every time is in range, \<open>importSnapshot\<close> accepts the snapshot that the run exports, and
  the store then holds exactly the directories of the guest and those of its files that are not marked
  as fallbacks, with their bytes. Fallback package files are not saved.
\<close>

theorem workspace_saved:
  assumes trees: "tree_ok (ws_files s) (ws_dirs s)" "[] \<in> set (ws_dirs s)" and ok: "mount_ok s" and clock: "clock_ok t"
  shows "\<exists>u. loadSnapshot (exportWasiWorkspaceSnapshot collate (ws_mount s)) t = (Inr (), u) \<and>
    (\<forall>p. map_has (ws_directories u) p \<longleftrightarrow> p \<in> set (ws_dirs s)) \<and>
    (\<forall>p. contents (ws_filemap u) p =
       (case map_of (ws_files s) p of
          None \<Rightarrow> None
        | Some r \<Rightarrow> if r_fallback (recs s r) then None else Some (r_bytes (recs s r))))"
proof -
  let ?sn = "exportWasiWorkspaceSnapshot collate (ws_mount s)"
  let ?root = "[([], directoryRecord [] (ws_now t (ws_ticks t)))]"
  let ?time = "\<lambda>r. case r_mtime (recs s r) of None \<Rightarrow> 0 | Some t \<Rightarrow> t"
  define gd where "gd p = Some \<lparr>wd_mtime = 0, wd_path = workspace_path p\<rparr>" for p
  define gf where "gf p = map_option (\<lambda>r. \<lparr>wf_content = r_bytes (recs s r), wf_mtime = ?time r, wf_path = workspace_path p\<rparr>)
    (map_of (saved_files s) p)" for p
  have dist: "distinct (map fst (ws_files s))" using trees(1) by (simp add: tree_ok_def)
  then have distS: "distinct (map fst (saved_files s))" unfolding saved_files_def by (simp add: distinct_map_filter)
  have dir: "storable p" "parentPath p \<in> set (ws_dirs s)" if "p \<in> set (ws_dirs s)" for p
    using ok that by (auto simp: mount_ok_def list_all_iff)
  have fle: "storable p" "parentPath p \<in> set (ws_dirs s)" "record_ok p (recs s r)" "map_of (saved_files s) p = Some r"
    if "(p, r) \<in> set (saved_files s)" for p r
    using ok that distS by (auto simp: mount_ok_def list_all_iff)
  have dirs: "set (sn_directories ?sn) = (\<lambda>p. \<lparr>de_mtime = 0, de_path = workspace_path p\<rparr>) ` set (ws_dirs s)"
    using ok by (auto simp: exportWasiWorkspaceSnapshot_def ws_mount_def mount_ok_def)
  have files: "set (sn_files ?sn) = (\<lambda>(p, r). \<lparr>fe_content = bytesToBase64 (r_bytes (recs s r)), fe_mtime = ?time r,
      fe_path = workspace_path p, fe_size = int (length (r_bytes (recs s r)))\<rparr>) ` set (saved_files s)"
  proof -
    have "set (sn_files ?sn) = (\<lambda>(p, r). \<lparr>fe_content = bytesToBase64 (r_bytes (recs s r)), fe_mtime = ?time r,
        fe_path = workspace_path (case r_path (recs s r) of None \<Rightarrow> [] | Some p \<Rightarrow> p),
        fe_size = int (length (r_bytes (recs s r)))\<rparr>) ` set (saved_files s)"
      by (force simp: exportWasiWorkspaceSnapshot_def ws_mount_def saved_files_def image_iff)
    also have "\<dots> = (\<lambda>(p, r). \<lparr>fe_content = bytesToBase64 (r_bytes (recs s r)), fe_mtime = ?time r,
        fe_path = workspace_path p, fe_size = int (length (r_bytes (recs s r)))\<rparr>) ` set (saved_files s)"
      by (rule image_cong) (auto simp: record_ok_def dest!: fle(3))
    finally show ?thesis .
  qed
  have names: "(\<exists>e \<in> set (sn_directories ?sn). normalizeWorkspacePath (de_path e) = Inr p) \<longleftrightarrow> p \<in> set (ws_dirs s)"
    "(\<exists>e \<in> set (sn_files ?sn). normalizeWorkspacePath (fe_path e) = Inr p) \<longleftrightarrow> map_has (saved_files s) p" for p
  proof -
    have "normalizeWorkspacePath (workspace_path p) = Inr p" if "p \<in> set (ws_dirs s)" for p
      using dir(1) [OF that] by (rule storable_normalized)
    then show "(\<exists>e \<in> set (sn_directories ?sn). normalizeWorkspacePath (de_path e) = Inr p) \<longleftrightarrow> p \<in> set (ws_dirs s)"
      unfolding dirs by (auto simp: image_iff)
    have "normalizeWorkspacePath (workspace_path (fst x)) = Inr (fst x)" if "x \<in> set (saved_files s)" for x
      using fle(1) [of "fst x" "snd x"] that by (simp add: storable_normalized)
    then show "(\<exists>e \<in> set (sn_files ?sn). normalizeWorkspacePath (fe_path e) = Inr p) \<longleftrightarrow> map_has (saved_files s) p"
      unfolding files map_has_iff by (auto simp: split_beta image_iff)
  qed
  have load: "\<exists>p. normalizeWorkspacePath (de_path e) = Inr p \<and> time_ok (de_mtime e) \<and>
      gd p = Some \<lparr>wd_mtime = de_mtime e, wd_path = workspace_path p\<rparr>" if "e \<in> set (sn_directories ?sn)" for e
    using that dir storable_normalized unfolding dirs by (auto simp: gd_def)
  obtain D where D: "load_directories (sn_directories ?sn) ?root = Inr D"
    "\<And>p. map_of D p = (if p \<in> set (ws_dirs s) then gd p else map_of ?root p)"
    using load_directories_table [of "sn_directories ?sn" gd ?root, OF load] unfolding names by blast
  have nonempty: "p \<noteq> []" if "(p, r) \<in> set (saved_files s)" for p r
    using trees(1) that by (auto simp: tree_ok_def saved_files_def list_all_iff)
  have load: "\<exists>p c. normalizeWorkspacePath (fe_path e) = Inr p \<and> p \<noteq> [] \<and> time_ok (fe_mtime e) \<and>
      base64ToBytes (fe_content e) = Some c \<and> gf p = Some \<lparr>wf_content = c, wf_mtime = fe_mtime e, wf_path = workspace_path p\<rparr>"
    if mem: "e \<in> set (sn_files ?sn)" for e
  proof -
    obtain p r where e: "(p, r) \<in> set (saved_files s)" "fe_path e = workspace_path p" "fe_mtime e = ?time r"
      "fe_content e = bytesToBase64 (r_bytes (recs s r))"
    proof -
      from mem obtain x where x: "x \<in> set (saved_files s)" and e: "e = (case x of (p, r) \<Rightarrow>
          \<lparr>fe_content = bytesToBase64 (r_bytes (recs s r)), fe_mtime = ?time r,
           fe_path = workspace_path p, fe_size = int (length (r_bytes (recs s r)))\<rparr>)"
        unfolding files by blast
      show ?thesis by (rule that [of "fst x" "snd x"]) (use x e in \<open>simp_all add: split_beta\<close>)
    qed
    have "time_ok (?time r)" using fle(3) [OF e(1)] by (simp add: record_ok_def split: option.splits)
    then show ?thesis
      using e fle [OF e(1)] nonempty [OF e(1)] storable_normalized base64_roundtrip by (auto simp: gf_def)
  qed
  obtain F where F: "load_files (sn_files ?sn) [] = Inr F"
    "\<And>p. map_of F p = (if map_has (saved_files s) p then gf p else None)"
    using load_files_table [of "sn_files ?sn" gf "[]", OF load] unfolding names by auto
  have has: "map_has D p \<longleftrightarrow> p \<in> set (ws_dirs s)" "map_has F p \<longleftrightarrow> map_has (saved_files s) p" for p
    using D(2) F(2) trees(2) by (auto simp: map_has_def gd_def gf_def)
  have "validateWorkspaceGraph F D = None"
    unfolding validate_iff has
  proof (intro conjI allI impI)
    fix p assume "map_has (saved_files s) p"
    then obtain r where r: "(p, r) \<in> set (saved_files s)" by (auto simp: map_has_iff)
    then show "p \<notin> set (ws_dirs s)" using trees(1) by (auto simp: tree_ok_def saved_files_def list_all_iff)
    show "parentPath p \<in> set (ws_dirs s)" using fle(2) [OF r] .
  qed (use dir in blast)
  moreover have "sn_version ?sn = 1" "sn_root ?sn = WORKSPACE_ROOT" by (simp_all add: exportWasiWorkspaceSnapshot_def)
  ultimately have run: "loadSnapshot ?sn t = (Inr (), t\<lparr>ws_ticks := ws_ticks t + 1, ws_directories := D, ws_filemap := F\<rparr>)"
    using D(1) F(1) clock by (simp add: loadSnapshot_def from_sum_def currentTime_ok)
  have "contents F p = (case map_of (ws_files s) p of
      None \<Rightarrow> None | Some r \<Rightarrow> if r_fallback (recs s r) then None else Some (r_bytes (recs s r)))" for p
    using map_of_filter_distinct [OF dist, of "\<lambda>r. \<not> r_fallback (recs s r)" p]
    by (auto simp: contents_def F(2) gf_def saved_files_def map_has_def split: option.splits if_splits)
  then show ?thesis using run has(1)
    by (intro exI [of _ "t\<lparr>ws_ticks := ws_ticks t + 1, ws_directories := D, ws_filemap := F\<rparr>"]) simp
qed


text \<open>A run on the workspace of a store: the mount of its snapshot, in a fresh runtime.\<close>

definition started :: "snapshot \<Rightarrow> package_file list \<Rightarrow> runtime" where
  "started sn files =
     (case createWasiWorkspaceMount (\<lambda>_. 3) (\<lambda>_ _. 0) (Some sn) files [] of
        Inl _ \<Rightarrow> example_host
      | Inr mount \<Rightarrow> mount_runtime mount example_host\<lparr>openFiles := [],
          memory := mem_store (mem_store \<lparr>mem_size = 65536, mem_at = \<lambda>a. 0\<rparr> 100 (map byte_of_char ''docs/readme''))
            200 (map byte_of_char [CHR ''a'', CHR 0x5C, CHR ''b''])\<rparr>)"

theorem workspace_saved_witness:
  "\<exists>u. loadSnapshot (exportWasiWorkspaceSnapshot (\<lambda>_ _. 0)
       (ws_mount (started (ws_exportSnapshot (\<lambda>_ _. 0) example_ws) [\<lparr>pf_bytes = [7], pf_path = ''readme''\<rparr>]))) example_ws = (Inr (), u) \<and>
     contents (ws_filemap u) ''src/a'' = Some [1, 2, 200] \<and> contents (ws_filemap u) ''readme'' = None"
proof -
  define s where "s = started (ws_exportSnapshot (\<lambda>_ _. 0) example_ws) [\<lparr>pf_bytes = [7], pf_path = ''readme''\<rparr>]"
  have "tree_ok (ws_files s) (ws_dirs s)" "[] \<in> set (ws_dirs s)" "mount_ok s" unfolding s_def by code_simp+
  from workspace_saved [OF this example_ws_clock, of "\<lambda>_ _. 0"]
  obtain u where u: "loadSnapshot (exportWasiWorkspaceSnapshot (\<lambda>_ _. 0) (ws_mount s)) example_ws = (Inr (), u)"
    "\<And>p. contents (ws_filemap u) p = (case map_of (ws_files s) p of
       None \<Rightarrow> None | Some r \<Rightarrow> if r_fallback (recs s r) then None else Some (r_bytes (recs s r)))"
    by blast
  have "(case map_of (ws_files s) ''src/a'' of
      None \<Rightarrow> None | Some r \<Rightarrow> if r_fallback (recs s r) then None else Some (r_bytes (recs s r))) = Some [1, 2, 200]"
    "(case map_of (ws_files s) ''readme'' of
      None \<Rightarrow> None | Some r \<Rightarrow> if r_fallback (recs s r) then None else Some (r_bytes (recs s r))) = None"
    unfolding s_def by code_simp+
  with u show ?thesis unfolding s_def [symmetric] by (intro exI [of _ u]) simp
qed

text \<open>
  The guest may use names the store refuses. Here it makes a directory whose name has a backslash;
  the call succeeds, but \<open>importSnapshot\<close> refuses the snapshot of the workspace: nothing of the run
  is saved.\<close>
theorem backslash_breaks_snapshot:
  "let s = started (ws_exportSnapshot (\<lambda>_ _. 0) example_ws) [];
       (result, t) = pathCreateDirectory WORKSPACE_FD 200 3 s
   in result = Inr ERRNO_SUCCESS \<and>
      fst (loadSnapshot (exportWasiWorkspaceSnapshot (\<lambda>_ _. 0) (ws_mount t)) example_ws) =
        Inl (WsError ''invalid_path'' ''workspace path is invalid'')"
  by code_simp

text \<open>A package file below the workspace implies its directory, which a writable mount does not list:
  the file is there for a status call, and opening it fails.\<close>

lemma implied_directory_not_opened:
  "let s = started (ws_exportSnapshot (\<lambda>_ _. 0) example_ws) [\<lparr>pf_bytes = [7], pf_path = ''docs/readme''\<rparr>]
   in fst (pathFilestatGet WORKSPACE_FD 0 100 11 400 s) = Inr ERRNO_SUCCESS \<and>
      fst (pathOpen WORKSPACE_FD 0 100 11 0 0 0 0 400 s) = Inr ERRNO_NOENT"
  by code_simp

end
