(* ===== verification/Wasix_State.thy ===== *)
theory Wasix_State imports Workspace_Mount Fd_Properties begin

text \<open>
  The state of a WASIX guest and its continuations (\<open>apps/web/src/wasi-module.js\<close>, lines 1091 to 1510
  and 5560 to 5720): the part of \<open>WasiPreview1Runtime\<close> that serves processes, stack checkpoints and
  forks. The guest is compiled with asyncify; its five exports are the arguments \<open>asyncify\<close> of the
  definitions, as functions on the state \<open>'m\<close> of the instance that is not linear memory (globals). An
  object that the code never shares (a process, a snapshot) is a value.
\<close>

section \<open>Exceptions\<close>

datatype output_mode = PipeOutput | InheritOutput

record exec_request =
  ex_args :: "string list"
  ex_command :: string
  ex_cwd :: string
  ex_diagnostics :: bool
  ex_env :: "(string \<times> string) list"
  ex_stderr :: output_mode
  ex_stdin :: "byte list"
  ex_stdout :: output_mode
  ex_snapshot :: "snapshot option"

text \<open>\<open>BrowserWasiModuleError\<close> with its kind, message and exit code; \<open>WasixProcExec\<close> with its request.\<close>

datatype wexn = HostError exn | ModuleError string string "int option" | ProcExec exec_request | StoreError ws_error

section \<open>Continuation capabilities\<close>

record stack_bounds =
  sb_dataEnd :: int
  sb_dataPtr :: int
  sb_dataStart :: int

record capabilities =
  cap_asyncifyExports :: bool
  cap_fallback :: bool
  cap_missingAsyncify :: "string list"
  cap_missingStack :: "string list"
  cap_stackBounds :: "stack_bounds option"
  cap_boundsError :: "string option"

definition ASYNCIFY_EXPORTS :: "string list" where
  "ASYNCIFY_EXPORTS = [''asyncify_get_state'', ''asyncify_start_rewind'', ''asyncify_start_unwind'',
     ''asyncify_stop_rewind'', ''asyncify_stop_unwind'']"

abbreviation (input) ASYNCIFY_STATE_UNWINDING :: int where "ASYNCIFY_STATE_UNWINDING \<equiv> 1"
abbreviation (input) ASYNCIFY_FALLBACK_BUFFER_SIZE :: int where "ASYNCIFY_FALLBACK_BUFFER_SIZE \<equiv> 4194304"
abbreviation (input) ASYNCIFY_FALLBACK_MIN_MEMORY_SIZE :: int where "ASYNCIFY_FALLBACK_MIN_MEMORY_SIZE \<equiv> 8388608"
abbreviation (input) CONTINUATION_MAX_TURNS :: nat where "CONTINUATION_MAX_TURNS \<equiv> 64"

definition exportedI32Global :: "int option \<Rightarrow> int option" where
  "exportedI32Global raw =
     (case raw of None \<Rightarrow> None | Some number \<Rightarrow> if number < 0 \<or> number > 0xffffffff then None else Some number)"

definition validateAsyncifyStackBounds :: "int \<Rightarrow> int \<Rightarrow> int \<Rightarrow> string option" where
  "validateAsyncifyStackBounds stackLow stackHigh memoryLength =
     (if memoryLength \<le> 0 then Some ''linear memory is unavailable''
      else if stackLow + 8 \<ge> stackHigh then Some ''__stack_low must leave room for asyncify metadata''
      else if checkedMemoryRange stackLow (stackHigh - stackLow) memoryLength = None
      then Some ''__stack_low and __stack_high must be inside linear memory''
      else None)"

definition fallbackAsyncifyStackBounds :: "int \<Rightarrow> stack_bounds option" where
  "fallbackAsyncifyStackBounds memoryLength =
     (if memoryLength < ASYNCIFY_FALLBACK_MIN_MEMORY_SIZE then None
      else let dataStart = memoryLength - ASYNCIFY_FALLBACK_BUFFER_SIZE in
        if dataStart < 8 then None
        else Some \<lparr>sb_dataEnd = memoryLength, sb_dataPtr = dataStart - 8, sb_dataStart = dataStart\<rparr>)"

text \<open>The exports of the instance: the names that are functions, and the values of the two globals.\<close>

definition wasixContinuationCapabilities :: "string list \<Rightarrow> int option \<Rightarrow> int option \<Rightarrow> int \<Rightarrow> capabilities" where
  "wasixContinuationCapabilities functions low high memoryLength =
     (let missingAsyncifyExports = [name \<leftarrow> ASYNCIFY_EXPORTS. name \<notin> set functions];
          stackLow = exportedI32Global low;
          stackHigh = exportedI32Global high;
          missingStackExports = (if stackLow = None then [''__stack_low''] else []) @
            (if stackHigh = None then [''__stack_high''] else []);
          stackBoundsError = (if missingStackExports = []
            then validateAsyncifyStackBounds (the stackLow) (the stackHigh) memoryLength else None);
          explicitStackBounds = (if missingStackExports = [] \<and> stackBoundsError = None
            then Some \<lparr>sb_dataEnd = the stackHigh, sb_dataPtr = the stackLow, sb_dataStart = the stackLow + 8\<rparr> else None);
          fallbackStackBounds = (if explicitStackBounds = None \<and> missingStackExports \<noteq> [] \<and> missingAsyncifyExports = []
            then fallbackAsyncifyStackBounds memoryLength else None) in
      \<lparr>cap_asyncifyExports = (missingAsyncifyExports = []), cap_fallback = (fallbackStackBounds \<noteq> None),
       cap_missingAsyncify = missingAsyncifyExports, cap_missingStack = missingStackExports,
       cap_stackBounds = (case explicitStackBounds of None \<Rightarrow> fallbackStackBounds | Some b \<Rightarrow> Some b),
       cap_boundsError = stackBoundsError\<rparr>)"

definition wasixStackRestoreUnsupportedMessage :: "capabilities \<Rightarrow> string" where
  "wasixStackRestoreUnsupportedMessage cap =
     (if \<not> cap_asyncifyExports cap then
        ''WASIX stack_restore requires asyncify continuation exports; missing: '' @ js_join '', '' (cap_missingAsyncify cap)
      else if cap_missingStack cap \<noteq> [] then
        (if cap_fallback cap then ''WASIX stack_restore uses a host-owned browser asyncify buffer for this module''
         else ''WASIX stack_restore requires browser stack bounds; missing: '' @ js_join '', '' (cap_missingStack cap))
      else (case cap_boundsError cap of
        Some e \<Rightarrow> ''WASIX stack_restore requires usable browser stack bounds; '' @ e
      | None \<Rightarrow> ''WASIX stack_restore requires browser stack rewind support''))"

section \<open>The state\<close>

datatype process_state = Running | Exited

record process =
  pr_exitCode :: "int option"
  pr_parentPid :: int
  pr_pid :: int
  pr_state :: process_state

record stack_snapshot =
  ss_hashHigh :: int
  ss_hashLow :: int
  ss_retValPtr :: int
  ss_rewindStack :: "byte list"

record fork_record =
  fk_childPid :: int
  fk_parentPid :: int
  fk_pidPtr :: int
  fk_rewindStack :: "byte list"

record vfork =
  vf_childPid :: int
  vf_forkRecord :: fork_record
  vf_parentPid :: int

record fork_rewind =
  fr_errno :: int
  fr_pid :: int
  fr_processId :: int

datatype unwind =
    Checkpoint int int
  | Restore stack_snapshot int
  | VforkChild int int int
  | CopyForkChild int int int
  | VforkParent int

record tty_state =
  tty_cols :: int
  tty_rows :: int
  tty_width :: int
  tty_height :: int
  tty_stdin :: bool
  tty_stdout :: bool
  tty_stderr :: bool
  tty_echo :: bool
  tty_lineBuffered :: bool

record 'm wasix =
  wx_host :: runtime
  wx_module :: 'm
  wx_caps :: capabilities
  wx_snapshots :: "((int \<times> int) \<times> stack_snapshot) list"
  wx_counter :: int
  wx_unwind :: "unwind option"
  wx_rewindValue :: "int option"
  wx_forkRewind :: "fork_rewind option"
  wx_current :: int
  wx_next :: int
  wx_processes :: "(int \<times> process) list"
  wx_vfork :: "vfork option"
  wx_unsupported :: "((string \<times> string) \<times> int) list"
  wx_diagnostics :: bool
  wx_tty :: tty_state
  wx_envObject :: "(string \<times> string) list"
  wx_copyFork :: bool

type_synonym ('m, 'a) wx = "('m wasix, wexn, 'a) host"

abbreviation (input) ROOT_PID :: int where "ROOT_PID \<equiv> 1"
abbreviation (input) ROOT_PARENT_PID :: int where "ROOT_PARENT_PID \<equiv> 0"

definition new_process :: "int \<Rightarrow> int \<Rightarrow> process" where
  "new_process parentPid pid = \<lparr>pr_exitCode = None, pr_parentPid = parentPid, pr_pid = pid, pr_state = Running\<rparr>"

text \<open>The constructor, and \<open>setContinuationCapabilities\<close> after the instance is made.\<close>

definition new_wasix ::
  "runtime \<Rightarrow> 'm \<Rightarrow> capabilities \<Rightarrow> bool \<Rightarrow> tty_state \<Rightarrow> (string \<times> string) list \<Rightarrow> bool \<Rightarrow> 'm wasix" where
  "new_wasix h md cap diagnostics tty env copyFork =
     \<lparr>wx_host = h, wx_module = md, wx_caps = cap, wx_snapshots = [], wx_counter = 0, wx_unwind = None,
      wx_rewindValue = None, wx_forkRewind = None, wx_current = ROOT_PID, wx_next = ROOT_PID + 1,
      wx_processes = [(ROOT_PID, new_process ROOT_PARENT_PID ROOT_PID)], wx_vfork = None, wx_unsupported = [],
      wx_diagnostics = diagnostics, wx_tty = tty, wx_envObject = env, wx_copyFork = copyFork\<rparr>"

text \<open>A function of the preview1 host, run on the host of a WASIX guest.\<close>

definition on_host :: "'a wasi \<Rightarrow> ('m, 'a) wx" where
  "on_host m = (\<lambda>s. case m (wx_host s) of
     (Inl e, h) \<Rightarrow> (Inl (HostError e), s\<lparr>wx_host := h\<rparr>)
   | (Inr x, h) \<Rightarrow> (Inr x, s\<lparr>wx_host := h\<rparr>))"

record 'm asyncify =
  ax_get_state :: "'m \<Rightarrow> int"
  ax_start_rewind :: "int \<Rightarrow> 'm \<Rightarrow> 'm"
  ax_start_unwind :: "int \<Rightarrow> 'm \<Rightarrow> 'm"
  ax_stop_rewind :: "'m \<Rightarrow> 'm"
  ax_stop_unwind :: "'m \<Rightarrow> 'm"

definition on_module :: "('m \<Rightarrow> 'm) \<Rightarrow> ('m, unit) wx" where
  "on_module f = modifyM (\<lambda>s. s\<lparr>wx_module := f (wx_module s)\<rparr>)"

section \<open>Diagnostics\<close>

definition recordUnsupportedWasixCall :: "string \<Rightarrow> string \<Rightarrow> ('m, unit) wx" where
  "recordUnsupportedWasixCall grp name = modifyM (\<lambda>s.
     if \<not> wx_diagnostics s then s
     else (case map_of (wx_unsupported s) (grp, name) of
       Some n \<Rightarrow> s\<lparr>wx_unsupported := AList.update (grp, name) (n + 1) (wx_unsupported s)\<rparr>
     | None \<Rightarrow> s\<lparr>wx_unsupported := AList.update (grp, name) 1 (wx_unsupported s)\<rparr>))"

definition compareDiagnostics :: "(string \<Rightarrow> string \<Rightarrow> int) \<Rightarrow> (string \<times> string) \<times> int \<Rightarrow> (string \<times> string) \<times> int \<Rightarrow> int" where
  "compareDiagnostics collate left right =
     (let c = collate (fst (fst left)) (fst (fst right)) in
      if c \<noteq> 0 then c else collate (snd (fst left)) (snd (fst right)))"

definition resultDiagnostics :: "(string \<Rightarrow> string \<Rightarrow> int) \<Rightarrow> 'm wasix \<Rightarrow> ((string \<times> string) \<times> int) list option" where
  "resultDiagnostics collate s =
     (if \<not> wx_diagnostics s then None else Some (js_sort (compareDiagnostics collate) (wx_unsupported s)))"

definition normalizeRawWasiResultDiagnostics ::
  "(string \<Rightarrow> string \<Rightarrow> int) \<Rightarrow> ((string \<times> string) \<times> int) list \<Rightarrow> ((string \<times> string) \<times> int) list" where
  "normalizeRawWasiResultDiagnostics collate entries =
     js_sort (compareDiagnostics collate) [e \<leftarrow> entries. snd e > 0 \<and> fst (fst e) \<noteq> [] \<and> snd (fst e) \<noteq> []]"

definition mergeDiagnostics :: "(string \<Rightarrow> string \<Rightarrow> int) \<Rightarrow> ((string \<times> string) \<times> int) list option \<Rightarrow> ('m, unit) wx" where
  "mergeDiagnostics collate diagnostics =
     (case diagnostics of
        None \<Rightarrow> ret ()
      | Some entries \<Rightarrow> modifyM (\<lambda>s. s\<lparr>wx_unsupported := fold (\<lambda>(key, n) m. AList.update key
            ((case map_of m key of None \<Rightarrow> 0 | Some k \<Rightarrow> k) + n) m)
          (normalizeRawWasiResultDiagnostics collate entries) (wx_unsupported s)\<rparr>))"

section \<open>Unwinding and rewinding\<close>

definition hasStackContinuationSupport :: "'m wasix \<Rightarrow> bool" where
  "hasStackContinuationSupport s \<longleftrightarrow> cap_asyncifyExports (wx_caps s) \<and> cap_stackBounds (wx_caps s) \<noteq> None"

definition requireStackContinuationBounds :: "('m, stack_bounds) wx" where
  "requireStackContinuationBounds = with_state (\<lambda>s.
     case cap_stackBounds (wx_caps s) of
       None \<Rightarrow> throw (ModuleError ''unsupported'' (wasixStackRestoreUnsupportedMessage (wx_caps s)) (Some 126))
     | Some b \<Rightarrow> ret b)"

definition startAsyncifyUnwind :: "'m asyncify \<Rightarrow> ('m, unit) wx" where
  "startAsyncifyUnwind ax =
     bindM requireStackContinuationBounds (\<lambda>b.
     seqM (on_host (writeU32 (sb_dataPtr b) (sb_dataStart b)))
     (seqM (on_host (writeU32 (sb_dataPtr b + 4) (sb_dataEnd b)))
     (on_module (ax_start_unwind ax (sb_dataPtr b)))))"

definition finishAsyncifyUnwind :: "'m asyncify \<Rightarrow> ('m, byte list) wx" where
  "finishAsyncifyUnwind ax =
     bindM requireStackContinuationBounds (\<lambda>b.
     bindM (on_host (readU32 (sb_dataPtr b))) (\<lambda>finish.
       if finish < sb_dataStart b \<or> finish > sb_dataEnd b then
         throw (ModuleError ''runtime'' ''WASIX asyncify unwind wrote an invalid stack range'' (Some 126))
       else with_state (\<lambda>s.
         seqM (on_module (ax_stop_unwind ax))
           (ret (mem_slice (memory (wx_host s)) (sb_dataStart b) finish)))))"

definition place_rewind_stack :: "stack_bounds \<Rightarrow> byte list \<Rightarrow> ('m, unit) wx" where
  "place_rewind_stack b rewindStack =
     seqM (on_host (set_memory (sb_dataStart b) rewindStack))
     (seqM (on_host (writeU32 (sb_dataPtr b) (sb_dataStart b + int (length rewindStack))))
     (on_host (writeU32 (sb_dataPtr b + 4) (sb_dataEnd b))))"

definition beginStackRewind :: "'m asyncify \<Rightarrow> stack_snapshot \<Rightarrow> int \<Rightarrow> ('m, unit) wx" where
  "beginStackRewind ax snapshot value =
     bindM requireStackContinuationBounds (\<lambda>b.
       if sb_dataStart b + int (length (ss_rewindStack snapshot)) > sb_dataEnd b then
         throw (ModuleError ''runtime'' ''WASIX asyncify rewind stack exceeds the browser continuation buffer'' (Some 126))
       else
         seqM (place_rewind_stack b (ss_rewindStack snapshot))
         (seqM (modifyM (\<lambda>s. s\<lparr>wx_rewindValue := Some value\<rparr>))
         (on_module (ax_start_rewind ax (sb_dataPtr b)))))"

definition beginForkRewind :: "'m asyncify \<Rightarrow> fork_record \<Rightarrow> int \<Rightarrow> int \<Rightarrow> int \<Rightarrow> ('m, unit) wx" where
  "beginForkRewind ax record pid errno processId =
     bindM requireStackContinuationBounds (\<lambda>b.
       if sb_dataStart b + int (length (fk_rewindStack record)) > sb_dataEnd b then
         throw (ModuleError ''runtime'' ''WASIX asyncify fork rewind stack exceeds the browser continuation buffer'' (Some 126))
       else
         seqM (place_rewind_stack b (fk_rewindStack record))
         (seqM (modifyM (\<lambda>s. s\<lparr>wx_forkRewind := Some \<lparr>fr_errno = errno, fr_pid = pid, fr_processId = processId\<rparr>,
            wx_current := processId\<rparr>))
         (on_module (ax_start_rewind ax (sb_dataPtr b)))))"

section \<open>Checkpoints\<close>

definition beginStackCheckpoint :: "'m asyncify \<Rightarrow> int \<Rightarrow> int \<Rightarrow> ('m, unit) wx" where
  "beginStackCheckpoint ax snapshotPtr retValPtr =
     seqM (modifyM (\<lambda>s. s\<lparr>wx_unwind := Some (Checkpoint snapshotPtr retValPtr)\<rparr>)) (startAsyncifyUnwind ax)"

text \<open>\<open>stackSnapshotKey\<close> writes the two halves of the hash in hexadecimal; here the key is the pair.\<close>

definition stackSnapshotKey :: "int \<Rightarrow> int \<Rightarrow> int \<times> int" where
  "stackSnapshotKey hashHigh hashLow = (hashHigh, hashLow)"

definition beginStackRestore :: "'m asyncify \<Rightarrow> int \<Rightarrow> int \<Rightarrow> ('m, unit) wx" where
  "beginStackRestore ax snapshotPtr value =
     bindM (on_host (readU64 (snapshotPtr + 8))) (\<lambda>hashLow.
     bindM (on_host (readU64 (snapshotPtr + 16))) (\<lambda>hashHigh. with_state (\<lambda>s.
       case map_of (wx_snapshots s) (stackSnapshotKey hashHigh hashLow) of
         None \<Rightarrow>
           seqM (recordUnsupportedWasixCall ''thread-event'' ''stack_restore'')
             (throw (ModuleError ''runtime'' ''WASIX stack_restore snapshot is not available in this browser run'' (Some 126)))
       | Some record \<Rightarrow>
           seqM (modifyM (\<lambda>s. s\<lparr>wx_unwind := Some (Restore record value)\<rparr>)) (startAsyncifyUnwind ax))))"

definition finishStackRewind :: "'m asyncify \<Rightarrow> int \<Rightarrow> ('m, bool) wx" where
  "finishStackRewind ax retValPtr = with_state (\<lambda>s.
     case wx_rewindValue s of
       None \<Rightarrow> ret False
     | Some value \<Rightarrow>
         seqM (on_module (ax_stop_rewind ax))
         (seqM (on_host (writeU64 retValPtr value))
         (seqM (modifyM (\<lambda>s. s\<lparr>wx_rewindValue := None\<rparr>)) (ret True))))"

definition createStackSnapshot :: "int \<Rightarrow> int \<Rightarrow> byte list \<Rightarrow> ('m, stack_snapshot) wx" where
  "createStackSnapshot snapshotPtr retValPtr rewindStack =
     seqM (modifyM (\<lambda>s. s\<lparr>wx_counter := wx_counter s + 1\<rparr>)) (with_state (\<lambda>s.
       let snapshot = \<lparr>ss_hashHigh = 0x737461636b000000, ss_hashLow = wx_counter s, ss_retValPtr = retValPtr,
                       ss_rewindStack = rewindStack\<rparr> in
       seqM (on_host (writeU64 snapshotPtr retValPtr))
       (seqM (on_host (writeU64 (snapshotPtr + 8) (ss_hashLow snapshot)))
       (seqM (on_host (writeU64 (snapshotPtr + 16) (ss_hashHigh snapshot)))
       (seqM (modifyM (\<lambda>s. s\<lparr>wx_snapshots :=
          AList.update (stackSnapshotKey (ss_hashHigh snapshot) (ss_hashLow snapshot)) snapshot (wx_snapshots s)\<rparr>))
         (ret snapshot))))))"

section \<open>Processes\<close>

definition add_child :: "(int \<Rightarrow> int \<Rightarrow> unwind) \<Rightarrow> 'm wasix \<Rightarrow> 'm wasix" where
  "add_child action s =
     s\<lparr>wx_next := wx_next s + 1,
       wx_processes := AList.update (wx_next s) (new_process (wx_current s) (wx_next s)) (wx_processes s),
       wx_unwind := Some (action (wx_next s) (wx_current s))\<rparr>"

definition beginVfork :: "'m asyncify \<Rightarrow> int \<Rightarrow> ('m, int) wx" where
  "beginVfork ax pidPtr =
     seqM (modifyM (add_child (\<lambda>childPid parentPid. VforkChild childPid parentPid pidPtr)))
       (seqM (startAsyncifyUnwind ax) (ret ERRNO_SUCCESS))"

definition beginCopyFork :: "'m asyncify \<Rightarrow> int \<Rightarrow> ('m, int) wx" where
  "beginCopyFork ax pidPtr =
     seqM (modifyM (add_child (\<lambda>childPid parentPid. CopyForkChild childPid parentPid pidPtr)))
       (seqM (startAsyncifyUnwind ax) (ret ERRNO_SUCCESS))"

definition finishForkRewind :: "'m asyncify \<Rightarrow> int \<Rightarrow> ('m, int option) wx" where
  "finishForkRewind ax pidPtr = with_state (\<lambda>s.
     case wx_forkRewind s of
       None \<Rightarrow> ret None
     | Some rewind \<Rightarrow>
         seqM (modifyM (\<lambda>s. s\<lparr>wx_forkRewind := None\<rparr>))
         (seqM (on_module (ax_stop_rewind ax))
         (seqM (modifyM (\<lambda>s. s\<lparr>wx_current := fr_processId rewind\<rparr>))
         (seqM (on_host (writeU32 pidPtr (fr_pid rewind))) (ret (Some (fr_errno rewind)))))))"

definition hasActiveVforkChild :: "'m wasix \<Rightarrow> bool" where
  "hasActiveVforkChild s \<longleftrightarrow> (case wx_vfork s of None \<Rightarrow> False | Some v \<Rightarrow> wx_current s = vf_childPid v)"

definition markProcessExited :: "int \<Rightarrow> int \<Rightarrow> ('m, unit) wx" where
  "markProcessExited pid exitCode = modifyM (\<lambda>s.
     case map_of (wx_processes s) pid of
       None \<Rightarrow> s
     | Some record \<Rightarrow> s\<lparr>wx_processes :=
         AList.update pid (record\<lparr>pr_exitCode := Some exitCode, pr_state := Exited\<rparr>) (wx_processes s)\<rparr>)"

definition beginVforkChildExit :: "'m asyncify \<Rightarrow> int \<Rightarrow> ('m, bool) wx" where
  "beginVforkChildExit ax code = with_state (\<lambda>s.
     case wx_vfork s of
       Some v \<Rightarrow>
         if wx_current s \<noteq> vf_childPid v then ret False
         else
           seqM (markProcessExited (vf_childPid v) (js_u32 code))
           (seqM (modifyM (\<lambda>s. s\<lparr>wx_unwind := Some (VforkParent (vf_childPid v))\<rparr>))
           (seqM (startAsyncifyUnwind ax) (ret True)))
     | None \<Rightarrow> ret False)"

definition beginVforkParentRewind :: "'m asyncify \<Rightarrow> int \<Rightarrow> ('m, unit) wx" where
  "beginVforkParentRewind ax childPid = with_state (\<lambda>s.
     case wx_vfork s of
       Some v \<Rightarrow>
         if vf_childPid v \<noteq> childPid then
           throw (ModuleError ''runtime'' ''WASIX vfork parent continuation is not active'' (Some 126))
         else
           seqM (modifyM (\<lambda>s. s\<lparr>wx_vfork := None\<rparr>))
             (beginForkRewind ax (vf_forkRecord v) childPid ERRNO_SUCCESS (vf_parentPid v))
     | None \<Rightarrow> throw (ModuleError ''runtime'' ''WASIX vfork parent continuation is not active'' (Some 126)))"

definition completeActiveVforkChild :: "'m asyncify \<Rightarrow> int \<Rightarrow> ('m, bool) wx" where
  "completeActiveVforkChild ax code = with_state (\<lambda>s.
     case wx_vfork s of
       Some v \<Rightarrow>
         if wx_current s \<noteq> vf_childPid v then ret False
         else
           seqM (markProcessExited (vf_childPid v) (js_u32 code))
           (seqM (beginVforkParentRewind ax (vf_childPid v)) (ret True))
     | None \<Rightarrow> ret False)"

definition processRecord :: "'m wasix \<Rightarrow> int \<Rightarrow> process option" where
  "processRecord s pid = map_of (wx_processes s) (js_u32 pid)"

definition findExitedChild :: "'m wasix \<Rightarrow> int \<Rightarrow> process option" where
  "findExitedChild s parentPid =
     find (\<lambda>record. pr_parentPid record = parentPid \<and> pr_state record = Exited) (map snd (wx_processes s))"

definition hasChildProcess :: "'m wasix \<Rightarrow> int \<Rightarrow> bool" where
  "hasChildProcess s parentPid \<longleftrightarrow> list_ex (\<lambda>record. pr_parentPid record = parentPid) (map snd (wx_processes s))"

definition reapProcess :: "int \<Rightarrow> ('m, unit) wx" where
  "reapProcess pid = modifyM (\<lambda>s. if pid \<noteq> ROOT_PID then s\<lparr>wx_processes := AList.delete pid (wx_processes s)\<rparr> else s)"

section \<open>The end of a turn\<close>

text \<open>What a copied fork hands to the runner of the child, and what the runner gives back: the runner works
  on another runtime, so of the parent it reaches the objects both hosts share.\<close>

record 'm copy_fork =
  cf_childPid :: int
  cf_globals :: 'm
  cf_memory :: mem
  cf_parentPid :: int
  cf_record :: fork_record

type_synonym diagnostics = "((string \<times> string) \<times> int) list option"
type_synonym 'm fork_runner = "('m copy_fork \<Rightarrow> runtime \<Rightarrow> (wexn + int \<times> diagnostics) \<times> runtime) option"

definition runCopyForkChild :: "'m fork_runner \<Rightarrow> 'm copy_fork \<Rightarrow> ('m, int \<times> diagnostics) wx" where
  "runCopyForkChild runner fork =
     (case runner of
        None \<Rightarrow> throw (ModuleError ''unsupported'' ''WASIX copied-memory fork requires a browser child instance runner'' (Some 126))
      | Some run \<Rightarrow> (\<lambda>s. case run fork (wx_host s) of (result, h) \<Rightarrow> (result, s\<lparr>wx_host := h\<rparr>)))"

definition finish_action ::
  "(string \<Rightarrow> string \<Rightarrow> int) \<Rightarrow> 'm asyncify \<Rightarrow> 'm fork_runner \<Rightarrow> unwind \<Rightarrow> byte list \<Rightarrow> ('m, unit) wx" where
  "finish_action collate ax runner action rewindStack =
     (case action of
        Checkpoint snapshotPtr retValPtr \<Rightarrow>
          bindM (createStackSnapshot snapshotPtr retValPtr rewindStack) (\<lambda>snapshot. beginStackRewind ax snapshot 0)
      | VforkChild childPid parentPid pidPtr \<Rightarrow>
          (let record = \<lparr>fk_childPid = childPid, fk_parentPid = parentPid, fk_pidPtr = pidPtr, fk_rewindStack = rewindStack\<rparr> in
           seqM (modifyM (\<lambda>s. s\<lparr>wx_vfork :=
             Some \<lparr>vf_childPid = childPid, vf_forkRecord = record, vf_parentPid = parentPid\<rparr>\<rparr>))
             (beginForkRewind ax record 0 ERRNO_SUCCESS childPid))
      | CopyForkChild childPid parentPid pidPtr \<Rightarrow>
          (let record = \<lparr>fk_childPid = childPid, fk_parentPid = parentPid, fk_pidPtr = pidPtr, fk_rewindStack = rewindStack\<rparr> in
           with_state (\<lambda>s.
             bindM (runCopyForkChild runner \<lparr>cf_childPid = childPid, cf_globals = wx_module s,
               cf_memory = memory (wx_host s), cf_parentPid = parentPid, cf_record = record\<rparr>)
             (\<lambda>(exitCode, diagnostics).
               seqM (mergeDiagnostics collate diagnostics)
               (seqM (markProcessExited childPid exitCode)
               (beginForkRewind ax record childPid ERRNO_SUCCESS parentPid)))))
      | VforkParent childPid \<Rightarrow> beginVforkParentRewind ax childPid
      | Restore record value \<Rightarrow> beginStackRewind ax record value)"

definition finishContinuationTurn ::
  "(string \<Rightarrow> string \<Rightarrow> int) \<Rightarrow> 'm asyncify \<Rightarrow> 'm fork_runner \<Rightarrow> ('m, bool) wx" where
  "finishContinuationTurn collate ax runner = with_state (\<lambda>s.
     case wx_unwind s of
       None \<Rightarrow> ret False
     | Some action \<Rightarrow>
         if ax_get_state ax (wx_module s) \<noteq> ASYNCIFY_STATE_UNWINDING then
           throw (ModuleError ''runtime'' ''WASIX continuation did not unwind before returning to the browser host'' (Some 126))
         else
           seqM (modifyM (\<lambda>s. s\<lparr>wx_unwind := None\<rparr>))
           (bindM (finishAsyncifyUnwind ax) (\<lambda>rewindStack.
             seqM (finish_action collate ax runner action rewindStack) (ret True))))"

text \<open>\<open>start\<close> is the entry point of the module with the imports it calls.\<close>

fun run_turns ::
  "nat \<Rightarrow> (string \<Rightarrow> string \<Rightarrow> int) \<Rightarrow> 'm asyncify \<Rightarrow> 'm fork_runner \<Rightarrow> ('m, unit) wx \<Rightarrow> ('m, unit) wx" where
  "run_turns 0 collate ax runner start =
     throw (ModuleError ''runtime'' ''WASIX continuation loop exceeded the browser turn limit'' (Some 126))"
| "run_turns (Suc n) collate ax runner start =
     seqM (on_host throwIfAborted) (seqM start (seqM (on_host throwIfAborted)
     (bindM (finishContinuationTurn collate ax runner) (\<lambda>more.
       if \<not> more then ret () else run_turns n collate ax runner start))))"

definition runWasiEntrypoint ::
  "(string \<Rightarrow> string \<Rightarrow> int) \<Rightarrow> 'm asyncify \<Rightarrow> 'm fork_runner \<Rightarrow> ('m, unit) wx \<Rightarrow> ('m, unit) wx" where
  "runWasiEntrypoint = run_turns CONTINUATION_MAX_TURNS"

end
