(* ===== verification/Wasix_Calls.thy ===== *)
theory Wasix_Calls imports Wasix_State begin

text \<open>
  The calls \<open>WasixRuntime\<close> adds to the host (\<open>apps/web/src/wasi-module.js\<close>, lines 5017 to 5540), one
  definition per handler, and \<open>wasix_import\<close>, the import object \<open>wasix_32v1\<close>. A handler without a
  result returns \<open>None\<close> to the guest. Reading a string of the guest, its descriptors and its files is
  the preview1 host of the earlier theories.
\<close>

section \<open>Records in the guest's memory\<close>

abbreviation (input) STACK_SNAPSHOT_SIZE :: int where "STACK_SNAPSHOT_SIZE \<equiv> 24"
abbreviation (input) OPTION_PID_SIZE :: int where "OPTION_PID_SIZE \<equiv> 8"
abbreviation (input) JOIN_STATUS_SIZE :: int where "JOIN_STATUS_SIZE \<equiv> 6"
abbreviation (input) TTY_STATE_SIZE :: int where "TTY_STATE_SIZE \<equiv> 24"
abbreviation (input) OPTION_TAG_NONE :: int where "OPTION_TAG_NONE \<equiv> 0"
abbreviation (input) OPTION_TAG_SOME :: int where "OPTION_TAG_SOME \<equiv> 1"
abbreviation (input) JOIN_STATUS_NOTHING :: int where "JOIN_STATUS_NOTHING \<equiv> 0"
abbreviation (input) JOIN_STATUS_EXIT_NORMAL :: int where "JOIN_STATUS_EXIT_NORMAL \<equiv> 1"
abbreviation (input) PROC_JOIN_NON_BLOCKING :: int where "PROC_JOIN_NON_BLOCKING \<equiv> 1"

definition writeWasixTtyState :: "int \<Rightarrow> tty_state \<Rightarrow> unit wasi" where
  "writeWasixTtyState ptr st =
     seqM (writeU32 ptr (tty_cols st)) (seqM (writeU32 (ptr + 4) (tty_rows st))
     (seqM (writeU32 (ptr + 8) (tty_width st)) (seqM (writeU32 (ptr + 12) (tty_height st))
     (seqM (writeU8 (ptr + 16) (boolByte (tty_stdin st))) (seqM (writeU8 (ptr + 17) (boolByte (tty_stdout st)))
     (seqM (writeU8 (ptr + 18) (boolByte (tty_stderr st))) (seqM (writeU8 (ptr + 19) (boolByte (tty_echo st)))
     (seqM (writeU8 (ptr + 20) (boolByte (tty_lineBuffered st)))
     (seqM (writeU8 (ptr + 21) 0) (seqM (writeU8 (ptr + 22) 0) (writeU8 (ptr + 23) 0)))))))))))"

definition writeWasixOptionPid :: "int \<Rightarrow> int \<Rightarrow> int \<Rightarrow> unit wasi" where
  "writeWasixOptionPid ptr tag pid =
     seqM (writeU8 ptr tag) (seqM (writeU8 (ptr + 1) 0) (seqM (writeU16 (ptr + 2) 0) (writeU32 (ptr + 4) pid)))"

definition writeWasixJoinStatusNothing :: "int \<Rightarrow> unit wasi" where
  "writeWasixJoinStatusNothing ptr =
     seqM (writeU8 ptr JOIN_STATUS_NOTHING) (seqM (writeU8 (ptr + 1) 0) (seqM (writeU16 (ptr + 2) 0) (writeU16 (ptr + 4) 0)))"

definition writeWasixJoinStatusExitNormal :: "int \<Rightarrow> int \<Rightarrow> unit wasi" where
  "writeWasixJoinStatusExitNormal ptr exitCode =
     seqM (writeU8 ptr JOIN_STATUS_EXIT_NORMAL) (seqM (writeU8 (ptr + 1) 0)
     (seqM (writeU16 (ptr + 2) (exitCode AND 0xffff)) (writeU16 (ptr + 4) 0)))"

section \<open>What the browser cannot do\<close>

definition unsupportedWasixCapability :: "string \<Rightarrow> string \<Rightarrow> ('m, int) wx" where
  "unsupportedWasixCapability grp name =
     seqM (on_host throwIfAborted) (seqM (recordUnsupportedWasixCall grp name) (ret ERRNO_NOTSUP))"

definition unsupportedProcessCapability :: "string \<Rightarrow> ('m, int) wx" where
  "unsupportedProcessCapability = unsupportedWasixCapability ''process''"

definition unsupportedThreadEventCapability :: "string \<Rightarrow> ('m, int) wx" where
  "unsupportedThreadEventCapability = unsupportedWasixCapability ''thread-event''"

definition unsupportedThreadExitCapability :: "string \<Rightarrow> ('m, int) wx" where
  "unsupportedThreadExitCapability name =
     seqM (on_host throwIfAborted) (seqM (recordUnsupportedWasixCall ''thread-event'' name)
       (throw (ModuleError ''unsupported'' ''WASIX thread_exit requires browser thread runtime support'' (Some 126))))"

definition networkSocketStub :: "string \<Rightarrow> ('m, int) wx \<Rightarrow> ('m, int) wx" where
  "networkSocketStub name delegate = seqM (recordUnsupportedWasixCall ''network'' name) delegate"

definition callbackSignal :: "('m, unit) wx" where
  "callbackSignal = seqM (on_host throwIfAborted) (recordUnsupportedWasixCall ''dynamic'' ''callback_signal'')"

definition wasiThreadSpawn :: "int wasi" where
  "wasiThreadSpawn = seqM throwIfAborted (ret (- ERRNO_NOTSUP))"

definition WASIX_UNSUPPORTED_NETWORK_IMPORTS :: "string list" where
  "WASIX_UNSUPPORTED_NETWORK_IMPORTS =
     [''port_addr_add'', ''port_addr_clear'', ''port_addr_list'', ''port_addr_remove'', ''port_bridge'',
      ''port_dhcp_acquire'', ''port_gateway_set'', ''port_mac'', ''port_route_add'', ''port_route_clear'',
      ''port_route_list'', ''port_route_remove'', ''port_unbridge'', ''resolve'', ''sock_accept_v2'',
      ''sock_addr_local'', ''sock_addr_peer'', ''sock_bind'', ''sock_connect'', ''sock_get_opt_flag'',
      ''sock_get_opt_size'', ''sock_get_opt_time'', ''sock_join_multicast_v4'', ''sock_join_multicast_v6'',
      ''sock_leave_multicast_v4'', ''sock_leave_multicast_v6'', ''sock_listen'', ''sock_open'', ''sock_pair'',
      ''sock_recv_from'', ''sock_send_file'', ''sock_send_to'', ''sock_set_opt_flag'', ''sock_set_opt_size'',
      ''sock_set_opt_time'', ''sock_status'']"

definition WASIX_UNSUPPORTED_THREAD_EVENT_IMPORTS :: "string list" where
  "WASIX_UNSUPPORTED_THREAD_EVENT_IMPORTS =
     [''context_create'', ''context_destroy'', ''context_switch'', ''epoll_create'', ''epoll_ctl'', ''epoll_wait'',
      ''fd_event'', ''futex_wait'', ''futex_wake'', ''futex_wake_all'', ''thread_join'', ''thread_local_create'',
      ''thread_local_destroy'', ''thread_local_get'', ''thread_local_set'', ''thread_signal'', ''thread_spawn'',
      ''thread_spawn_v2'']"

definition WASIX_UNSUPPORTED_DYNAMIC_IMPORTS :: "string list" where
  "WASIX_UNSUPPORTED_DYNAMIC_IMPORTS =
     [''call_dynamic'', ''closure_allocate'', ''closure_free'', ''closure_prepare'', ''dl_invalid_handle'', ''dlopen'',
      ''dlsym'', ''reflect_signature'']"

definition WASIX_UNSUPPORTED_PROCESS_IMPORTS :: "string list" where
  "WASIX_UNSUPPORTED_PROCESS_IMPORTS = [''process_spawn'', ''proc_fork_env'', ''proc_raise_interval'', ''proc_spawn2'']"

text \<open>The loops of \<open>imports\<close> that bind these names; \<open>None\<close> for a name no loop binds.\<close>

definition unsupported_import :: "string \<Rightarrow> ('m, int) wx option" where
  "unsupported_import name =
     (if name \<in> set WASIX_UNSUPPORTED_PROCESS_IMPORTS then Some (unsupportedProcessCapability name)
      else if name \<in> set WASIX_UNSUPPORTED_DYNAMIC_IMPORTS then Some (unsupportedWasixCapability ''dynamic'' name)
      else if name = ''clock_time_set'' then Some (unsupportedWasixCapability ''clock'' name)
      else if name = ''thread_exit'' then Some (unsupportedThreadExitCapability name)
      else if name \<in> set WASIX_UNSUPPORTED_THREAD_EVENT_IMPORTS then Some (unsupportedThreadEventCapability name)
      else if name \<in> set WASIX_UNSUPPORTED_NETWORK_IMPORTS then Some (unsupportedWasixCapability ''network'' name)
      else if name = ''proc_signal'' \<or> name = ''proc_spawn'' then Some (unsupportedProcessCapability name)
      else None)"

section \<open>Terminal, threads and signals\<close>

definition ttyGet :: "int \<Rightarrow> ('m, int) wx" where
  "ttyGet ttyStatePtr =
     seqM (on_host throwIfAborted) (with_state (\<lambda>s.
       if \<not> canReadWrite (wx_host s) (js_u32 ttyStatePtr) TTY_STATE_SIZE then ret ERRNO_FAULT
       else seqM (on_host (writeWasixTtyState (js_u32 ttyStatePtr) (wx_tty s))) (ret ERRNO_SUCCESS)))"

definition ttySet :: "int \<Rightarrow> ('m, int) wx" where
  "ttySet ttyStatePtr =
     seqM (on_host throwIfAborted) (with_state (\<lambda>s.
       if \<not> canReadWrite (wx_host s) (js_u32 ttyStatePtr) TTY_STATE_SIZE then ret ERRNO_FAULT else ret ERRNO_SUCCESS))"

text \<open>\<open>threadId\<close>, \<open>threadParallelism\<close> and \<open>procId\<close> write one number.\<close>

definition write_number :: "int \<Rightarrow> ('m wasix \<Rightarrow> int) \<Rightarrow> ('m, int) wx" where
  "write_number pointer number =
     seqM (on_host throwIfAborted) (with_state (\<lambda>s.
       if \<not> canReadWrite (wx_host s) (js_u32 pointer) 4 then ret ERRNO_FAULT
       else seqM (on_host (writeU32 (js_u32 pointer) (number s))) (ret ERRNO_SUCCESS)))"

definition threadId :: "int \<Rightarrow> ('m, int) wx" where
  "threadId threadIdPtr = write_number threadIdPtr (\<lambda>_. 1)"

definition threadParallelism :: "int \<Rightarrow> ('m, int) wx" where
  "threadParallelism parallelismPtr = write_number parallelismPtr (\<lambda>_. 1)"

definition threadSleep :: "int \<Rightarrow> ('m, int) wx" where
  "threadSleep duration =
     seqM (on_host throwIfAborted)
       (if duration = 0 then ret ERRNO_SUCCESS else unsupportedThreadEventCapability ''thread_sleep'')"

definition procSnapshot :: "('m, int) wx" where
  "procSnapshot = seqM (on_host throwIfAborted) (ret ERRNO_SUCCESS)"

definition procSignalsSizesGet :: "int \<Rightarrow> ('m, int) wx" where
  "procSignalsSizesGet signalCountPtr =
     seqM (on_host throwIfAborted) (seqM (on_host (writeU32 signalCountPtr 0)) (ret ERRNO_SUCCESS))"

definition procSignalsGet :: "('m, int) wx" where
  "procSignalsGet = seqM (on_host throwIfAborted) (ret ERRNO_SUCCESS)"

section \<open>Stack checkpoints\<close>

definition stackCheckpoint :: "'m asyncify \<Rightarrow> int \<Rightarrow> int \<Rightarrow> ('m, int) wx" where
  "stackCheckpoint ax snapshotPtr retValPtr =
     seqM (on_host throwIfAborted) (with_state (\<lambda>s.
       let snapshot = js_u32 snapshotPtr; retVal = js_u32 retValPtr in
       if \<not> canReadWrite (wx_host s) snapshot STACK_SNAPSHOT_SIZE \<or> \<not> canReadWrite (wx_host s) retVal 8
       then ret ERRNO_FAULT
       else bindM (finishStackRewind ax retVal) (\<lambda>finished.
         if finished then ret ERRNO_SUCCESS
         else
           seqM (on_host (writeU64 snapshot 0)) (seqM (on_host (writeU64 (snapshot + 8) 0))
           (seqM (on_host (writeU64 (snapshot + 16) 0)) (seqM (on_host (writeU64 retVal 0))
           (if \<not> hasStackContinuationSupport s then ret ERRNO_SUCCESS
            else seqM (beginStackCheckpoint ax snapshot retVal) (ret ERRNO_SUCCESS))))))))"

definition stackRestore :: "'m asyncify \<Rightarrow> int \<Rightarrow> int \<Rightarrow> ('m, unit) wx" where
  "stackRestore ax snapshotPtr value =
     seqM (on_host throwIfAborted) (with_state (\<lambda>s.
       let snapshot = js_u32 snapshotPtr in
       if \<not> canReadWrite (wx_host s) snapshot STACK_SNAPSHOT_SIZE then
         throw (ModuleError ''runtime'' ''WASIX stack_restore received an invalid stack snapshot pointer'' (Some ERRNO_FAULT))
       else if hasStackContinuationSupport s then beginStackRestore ax snapshot value
       else
         seqM (recordUnsupportedWasixCall ''thread-event'' ''stack_restore'')
           (throw (ModuleError ''runtime'' (wasixStackRestoreUnsupportedMessage (wx_caps s)) (Some 126)))))"

section \<open>Processes\<close>

definition procExit2 :: "'m asyncify \<Rightarrow> int \<Rightarrow> ('m, unit) wx" where
  "procExit2 ax code =
     seqM (on_host throwIfAborted) (bindM (beginVforkChildExit ax code) (\<lambda>begun.
       if begun then ret () else throw (HostError (WasiProcExit code))))"

definition procFork :: "'m asyncify \<Rightarrow> int \<Rightarrow> int \<Rightarrow> ('m, int) wx" where
  "procFork ax copyMemory pidPtr =
     seqM (on_host throwIfAborted) (with_state (\<lambda>s.
       let ptr = js_u32 pidPtr in
       if \<not> canReadWrite (wx_host s) ptr 4 then ret ERRNO_FAULT
       else bindM (finishForkRewind ax ptr) (\<lambda>rewindResult.
         case rewindResult of
           Some errno \<Rightarrow> ret errno
         | None \<Rightarrow>
             if js_u32 copyMemory \<noteq> 0 then
               if \<not> hasStackContinuationSupport s \<or> wx_vfork s \<noteq> None \<or> \<not> wx_copyFork s
               then unsupportedProcessCapability ''proc_fork''
               else beginCopyFork ax ptr
             else if \<not> hasStackContinuationSupport s \<or> wx_vfork s \<noteq> None
             then unsupportedProcessCapability ''proc_fork''
             else beginVfork ax ptr)))"

definition procId :: "int \<Rightarrow> ('m, int) wx" where
  "procId pidPtr = write_number pidPtr wx_current"

definition procParent :: "int \<Rightarrow> int \<Rightarrow> ('m, int) wx" where
  "procParent pid parentPidPtr =
     seqM (on_host throwIfAborted) (with_state (\<lambda>s.
       let ptr = js_u32 parentPidPtr in
       if \<not> canReadWrite (wx_host s) ptr 4 then ret ERRNO_FAULT
       else (case processRecord s pid of
         None \<Rightarrow> ret ERRNO_BADF
       | Some record \<Rightarrow> seqM (on_host (writeU32 ptr (pr_parentPid record))) (ret ERRNO_SUCCESS))))"

definition writeJoinedChild :: "int \<Rightarrow> int \<Rightarrow> process \<Rightarrow> ('m, unit) wx" where
  "writeJoinedChild pidPtr statusPtr child =
     seqM (on_host (writeWasixOptionPid pidPtr OPTION_TAG_SOME (pr_pid child)))
     (seqM (on_host (writeWasixJoinStatusExitNormal statusPtr (case pr_exitCode child of None \<Rightarrow> 0 | Some c \<Rightarrow> c)))
     (reapProcess (pr_pid child)))"

text \<open>The end of \<open>procJoin\<close>, once its arguments have been read and its answer cleared.\<close>

definition answer_join :: "'m wasix \<Rightarrow> int \<Rightarrow> int \<Rightarrow> int \<Rightarrow> int \<Rightarrow> int \<Rightarrow> ('m, int) wx" where
  "answer_join s pid status flags tag requestedPid =
     (if tag = OPTION_TAG_NONE then
        (case findExitedChild s (wx_current s) of
           Some child \<Rightarrow> seqM (writeJoinedChild pid status child) (ret ERRNO_SUCCESS)
         | None \<Rightarrow>
             if hasChildProcess s (wx_current s) then unsupportedProcessCapability ''proc_join''
             else ret ERRNO_CHILD)
      else (case processRecord s requestedPid of
        None \<Rightarrow> ret ERRNO_SUCCESS
      | Some child \<Rightarrow>
          if pr_parentPid child \<noteq> wx_current s then ret ERRNO_SUCCESS
          else
            seqM (on_host (writeWasixOptionPid pid OPTION_TAG_SOME (pr_pid child)))
            (if pr_state child = Exited then seqM (writeJoinedChild pid status child) (ret ERRNO_SUCCESS)
             else if js_u32 flags AND PROC_JOIN_NON_BLOCKING \<noteq> 0 then ret ERRNO_SUCCESS
             else unsupportedProcessCapability ''proc_join'')))"

definition procJoin :: "int \<Rightarrow> int \<Rightarrow> int \<Rightarrow> ('m, int) wx" where
  "procJoin pidPtr flags statusPtr =
     seqM (on_host throwIfAborted) (with_state (\<lambda>s.
       let pid = js_u32 pidPtr; status = js_u32 statusPtr in
       if \<not> canReadWrite (wx_host s) pid OPTION_PID_SIZE \<or> \<not> canReadWrite (wx_host s) status JOIN_STATUS_SIZE
       then ret ERRNO_FAULT
       else if js_u32 flags AND NOT PROC_JOIN_NON_BLOCKING \<noteq> 0 then ret ERRNO_INVAL
       else bindM (on_host (readU8 pid)) (\<lambda>tag.
         if tag \<noteq> OPTION_TAG_NONE \<and> tag \<noteq> OPTION_TAG_SOME then ret ERRNO_INVAL
         else bindM (on_host (readU32 (pid + 4))) (\<lambda>requestedPid.
           seqM (on_host (writeWasixOptionPid pid OPTION_TAG_NONE 0))
           (seqM (on_host (writeWasixJoinStatusNothing status))
           (answer_join s pid status flags tag requestedPid))))))"

section \<open>Running another command\<close>

definition wasixLineList :: "string \<Rightarrow> string list" where
  "wasixLineList text = [item \<leftarrow> concat (map (js_split (CHR 0x0D)) (js_split (CHR 0x0A) text)). item \<noteq> []]"

text \<open>The loop of \<open>wasixEnv\<close>: one \<open>name=value\<close> per line.\<close>

fun env_entries :: "string list \<Rightarrow> (string \<times> string) list \<Rightarrow> (string \<times> string) list option" where
  "env_entries [] env = Some env"
| "env_entries (entry # entries) env =
     (if CHR ''='' \<notin> set entry then None
      else env_entries entries (AList.update (takeWhile (\<lambda>c. c \<noteq> CHR ''='') entry)
             (tl (dropWhile (\<lambda>c. c \<noteq> CHR ''='') entry)) env))"

definition wasixEnv :: "'m wasix \<Rightarrow> int \<Rightarrow> int \<Rightarrow> (string \<times> string) list option" where
  "wasixEnv s envPtr envLen =
     (if envPtr = 0 \<or> envLen = 0 then Some (wx_envObject s)
      else env_entries (wasixLineList (readString (wx_host s) envPtr envLen)) (wx_envObject s))"

definition processExecOutputMode :: "runtime \<Rightarrow> int \<Rightarrow> output_mode" where
  "processExecOutputMode s fd =
     (if openFile s fd \<noteq> None \<and> \<not> isOpenStdio (openFile s fd) then PipeOutput else InheritOutput)"

definition exec_failed :: "string \<Rightarrow> wexn" where
  "exec_failed message = ModuleError ''runtime'' message (Some 126)"

definition readPipeInputBytes :: "descr \<Rightarrow> string \<Rightarrow> ('m, byte list) wx" where
  "readPipeInputBytes file ctx =
     (if d_direction file \<noteq> ReadEnd \<or> d_rights file AND RIGHT_FD_READ = 0
      then throw (exec_failed (ctx @ '' target pipe is not readable''))
      else with_state (\<lambda>s.
        seqM (on_host (modifyM (set_pipe (d_pipe file) (\<lambda>p. p\<lparr>p_bytes := []\<rparr>))))
          (ret (p_bytes (pipes (wx_host s) (d_pipe file))))))"

definition readOpenFileInputBytes :: "int \<Rightarrow> descr \<Rightarrow> string \<Rightarrow> ('m, byte list) wx" where
  "readOpenFileInputBytes fd file ctx =
     (if \<not> canReadFile file \<or> isOpenDirectory (Some file)
      then throw (exec_failed (ctx @ '' target fd is not readable''))
      else with_state (\<lambda>s.
        let content = r_bytes (recs (wx_host s) (d_record file)) in
        seqM (on_host (modifyM (set_offset fd file (int (length content)))))
          (ret (js_slice content (offset_of (wx_host s) file) (int (length content))))))"

definition processExecInputBytes :: "int \<Rightarrow> ('m, byte list) wx" where
  "processExecInputBytes fd = with_state (\<lambda>s.
     case openFile (wx_host s) fd of
       Some file \<Rightarrow>
         if isOpenPipe (Some file) then readPipeInputBytes file ''WASIX proc_exec stdin''
         else if isOpenStdio (Some file) then
           (if d_stdioFd file \<noteq> STDIN_FD then throw (exec_failed ''WASIX proc_exec stdin target is not readable'')
            else ret (remainingStdinBytes (wx_host s)))
         else readOpenFileInputBytes fd file ''WASIX proc_exec stdin''
     | None \<Rightarrow> if fd = STDIN_FD then ret (remainingStdinBytes (wx_host s)) else ret [])"

definition throwProcExec ::
  "(string \<Rightarrow> string \<Rightarrow> int) \<Rightarrow> int \<Rightarrow> int \<Rightarrow> int \<Rightarrow> int \<Rightarrow> (string \<times> string) list \<Rightarrow> ('m, unit) wx" where
  "throwProcExec collate namePtr nameLen argsPtr argsLen env =
     seqM (on_host throwIfAborted) (with_state (\<lambda>s.
       let command = js_trim (readString (wx_host s) namePtr nameLen) in
       if command = [] then throw (ModuleError ''invalid_request'' ''WASIX proc_exec command is required'' (Some 126))
       else
         bindM (processExecInputBytes STDIN_FD) (\<lambda>input.
           throw (ProcExec
             \<lparr>ex_args = wasixLineList (readString (wx_host s) argsPtr argsLen), ex_command = command,
              ex_cwd = rt_cwd (wx_host s), ex_diagnostics = wx_diagnostics s, ex_env = env,
              ex_stderr = processExecOutputMode (wx_host s) STDERR_FD, ex_stdin = input,
              ex_stdout = processExecOutputMode (wx_host s) STDOUT_FD,
              ex_snapshot = (if ws_writable (wx_host s)
                then Some (exportWasiWorkspaceSnapshot collate (ws_mount (wx_host s))) else None)\<rparr>))))"

definition procExec :: "(string \<Rightarrow> string \<Rightarrow> int) \<Rightarrow> int \<Rightarrow> int \<Rightarrow> int \<Rightarrow> int \<Rightarrow> ('m, unit) wx" where
  "procExec collate namePtr nameLen argsPtr argsLen = with_state (\<lambda>s.
     throwProcExec collate namePtr nameLen argsPtr argsLen (wx_envObject s))"

definition procExec2 :: "(string \<Rightarrow> string \<Rightarrow> int) \<Rightarrow> int \<Rightarrow> int \<Rightarrow> int \<Rightarrow> int \<Rightarrow> int \<Rightarrow> int \<Rightarrow> ('m, unit) wx" where
  "procExec2 collate namePtr nameLen argsPtr argsLen envPtr envLen = with_state (\<lambda>s.
     case wasixEnv s envPtr envLen of
       None \<Rightarrow> throw (HostError (WasiProcExit ERRNO_INVAL))
     | Some env \<Rightarrow> throwProcExec collate namePtr nameLen argsPtr argsLen env)"

definition DEFAULT_WASIX_PROC_SEARCH_PATH :: string where
  "DEFAULT_WASIX_PROC_SEARCH_PATH = ''/usr/local/bin:/bin:/usr/bin''"

definition procExec3 ::
  "(string \<Rightarrow> string \<Rightarrow> int) \<Rightarrow> int \<Rightarrow> int \<Rightarrow> int \<Rightarrow> int \<Rightarrow> int \<Rightarrow> int \<Rightarrow> int \<Rightarrow> int \<Rightarrow> int \<Rightarrow> ('m, int) wx" where
  "procExec3 collate namePtr nameLen argsPtr argsLen envPtr envLen searchPath pathPtr pathLen = with_state (\<lambda>s.
     case wasixEnv s envPtr envLen of
       None \<Rightarrow> ret ERRNO_INVAL
     | Some env \<Rightarrow>
         let env' = (if searchPath \<noteq> 0 then AList.update ''PATH''
             (if pathPtr \<noteq> 0 \<and> pathLen \<noteq> 0 then readString (wx_host s) pathPtr pathLen
              else DEFAULT_WASIX_PROC_SEARCH_PATH) env else env) in
         seqM (throwProcExec collate namePtr nameLen argsPtr argsLen env') (ret ERRNO_SUCCESS))"

section \<open>The import object\<close>

datatype (plugins only: ) wasix_call =
    Preview wasi_call
  | Getpid int | Proc_signals_get int | Proc_signals_sizes_get int
  | Proc_exec int int int int | Proc_exec2 int int int int int int
  | Proc_exec3 int int int int int int int int int
  | Proc_exit2 int | Proc_fork int int | Proc_id int | Proc_join int int int | Proc_parent int int
  | Proc_snapshot | Pipe_call int int | Callback_signal int int
  | Thread_id int | Thread_parallelism int | Thread_sleep int
  | Stack_checkpoint int int | Stack_restore int int | Tty_get int | Tty_set int
  | Unsupported string

text \<open>The calls of preview1 that WASIX overrides: the sockets are recorded first.\<close>

definition socket_name :: "wasi_call \<Rightarrow> string option" where
  "socket_name c =
     (case c of
        Sock_accept _ _ _ \<Rightarrow> Some ''sock_accept''
      | Sock_recv _ _ _ _ _ _ \<Rightarrow> Some ''sock_recv''
      | Sock_send _ _ _ _ _ \<Rightarrow> Some ''sock_send''
      | Sock_shutdown _ _ \<Rightarrow> Some ''sock_shutdown''
      | _ \<Rightarrow> None)"

definition preview_import ::
  "(int \<Rightarrow> int) \<Rightarrow> (int \<Rightarrow> int \<Rightarrow> byte list) \<Rightarrow> wasi_call \<Rightarrow> ('m, int) wx" where
  "preview_import now random c =
     (case socket_name c of
        Some name \<Rightarrow> networkSocketStub name (on_host (wasi_import now random c))
      | None \<Rightarrow> on_host (wasi_import now random c))"

definition with_errno :: "('m, int) wx \<Rightarrow> ('m, int option) wx" where
  "with_errno m = bindM m (\<lambda>x. ret (Some x))"

definition no_result :: "('m, unit) wx \<Rightarrow> ('m, int option) wx" where
  "no_result m = seqM m (ret None)"

primrec wasix_import ::
  "(int \<Rightarrow> int) \<Rightarrow> (int \<Rightarrow> int \<Rightarrow> byte list) \<Rightarrow> (string \<Rightarrow> string \<Rightarrow> int) \<Rightarrow> 'm asyncify \<Rightarrow> wasix_call \<Rightarrow> ('m, int option) wx" where
  "wasix_import now random collate ax (Preview c) = with_errno (preview_import now random c)"
| "wasix_import now random collate ax (Getpid pidPtr) = with_errno (procId pidPtr)"
| "wasix_import now random collate ax (Proc_signals_get p) = with_errno procSignalsGet"
| "wasix_import now random collate ax (Proc_signals_sizes_get p) = with_errno (procSignalsSizesGet p)"
| "wasix_import now random collate ax (Proc_exec n k a l) = no_result (procExec collate n k a l)"
| "wasix_import now random collate ax (Proc_exec2 n k a l e m) = no_result (procExec2 collate n k a l e m)"
| "wasix_import now random collate ax (Proc_exec3 n k a l e m searchPath p q) =
     with_errno (procExec3 collate n k a l e m searchPath p q)"
| "wasix_import now random collate ax (Proc_exit2 code) = no_result (procExit2 ax code)"
| "wasix_import now random collate ax (Proc_fork copyMemory pidPtr) = with_errno (procFork ax copyMemory pidPtr)"
| "wasix_import now random collate ax (Proc_id pidPtr) = with_errno (procId pidPtr)"
| "wasix_import now random collate ax (Proc_join pidPtr flags statusPtr) = with_errno (procJoin pidPtr flags statusPtr)"
| "wasix_import now random collate ax (Proc_parent pid p) = with_errno (procParent pid p)"
| "wasix_import now random collate ax Proc_snapshot = with_errno procSnapshot"
| "wasix_import now random collate ax (Pipe_call p q) = with_errno (on_host (fdPipe p q))"
| "wasix_import now random collate ax (Callback_signal p n) = no_result callbackSignal"
| "wasix_import now random collate ax (Thread_id p) = with_errno (threadId p)"
| "wasix_import now random collate ax (Thread_parallelism p) = with_errno (threadParallelism p)"
| "wasix_import now random collate ax (Thread_sleep duration) = with_errno (threadSleep duration)"
| "wasix_import now random collate ax (Stack_checkpoint p r) = with_errno (stackCheckpoint ax p r)"
| "wasix_import now random collate ax (Stack_restore p v) = no_result (stackRestore ax p v)"
| "wasix_import now random collate ax (Tty_get p) = with_errno (ttyGet p)"
| "wasix_import now random collate ax (Tty_set p) = with_errno (ttySet p)"
| "wasix_import now random collate ax (Unsupported name) =
     (case unsupported_import name of None \<Rightarrow> throw (HostError TypeError) | Some m \<Rightarrow> with_errno m)"

end
