(* ===== verification/Wasix_Run.thy ===== *)
theory Wasix_Run imports Wasix_Calls begin

text \<open>
  Running a module (\<open>apps/web/src/wasi-module.js\<close>): the run loop of \<open>runRawWasiModule\<close> (line 408)
  around the turns of \<open>Wasix_State\<close>, the commands a guest starts with \<open>proc_exec\<close>
  (\<open>runProcessExec\<close>, line 1527), the child of a copied fork (\<open>runCopiedForkChild\<close>, line 562). The
  embedder's command runner, the engine's new instance and the text of a \<open>RangeError\<close> are arguments.
\<close>

section \<open>After another command has changed the workspace\<close>

text \<open>\<open>rebindOpenWorkspaceFiles\<close>: one descriptor, then all of them.\<close>

definition rebind_file :: "int \<times> descr \<Rightarrow> unit wasi" where
  "rebind_file e = (case e of (fd, file) \<Rightarrow>
     if d_mount file \<noteq> Some Workspace \<or> isOpenDirectory (Some file) \<or> d_path file = None \<or> d_path file = Some []
     then ret ()
     else with_state (\<lambda>s.
       case map_of (ws_files s) (the (d_path file)) of
         Some r \<Rightarrow> modifyM (set_descr fd (file\<lparr>d_record := r\<rparr>))
       | None \<Rightarrow>
           if \<not> d_writable file then ret ()
           else bindM (alloc_record (the (d_path file))) (\<lambda>r.
             seqM (modifyM (\<lambda>s. s\<lparr>ws_files := AList.update (the (d_path file)) r (ws_files s)\<rparr>))
             (seqM markWorkspaceDirty
             (modifyM (set_descr fd (file\<lparr>d_record := r\<rparr>)))))))"

fun rebind_files :: "(int \<times> descr) list \<Rightarrow> unit wasi" where
  "rebind_files [] = ret ()"
| "rebind_files (e # es) = seqM (rebind_file e) (rebind_files es)"

definition rebindOpenWorkspaceFiles :: "unit wasi" where
  "rebindOpenWorkspaceFiles = with_state (\<lambda>s. if \<not> ws_writable s then ret () else rebind_files (openFiles s))"

text \<open>\<open>importWasiWorkspaceSnapshot\<close> on the workspace of a runtime: the files are new objects.\<close>

definition set_workspace :: "workspace_mount \<Rightarrow> runtime \<Rightarrow> runtime" where
  "set_workspace mount s =
     (let files = map snd (mt_files mount) in
      s\<lparr>ws_dirs := (case mt_dirs mount of None \<Rightarrow> [] | Some dirs \<Rightarrow> dirs),
        ws_files := number_from (nextRef s) (mt_files mount), ws_dirty := mt_dirty mount,
        recs := (\<lambda>r. if nextRef s \<le> r \<and> r < nextRef s + length files then files ! (r - nextRef s) else recs s r),
        nextRef := nextRef s + length files\<rparr>)"

definition import_workspace ::
  "(nat \<Rightarrow> int) \<Rightarrow> (string \<Rightarrow> string \<Rightarrow> int) \<Rightarrow> snapshot \<Rightarrow> ('m, unit) wx" where
  "import_workspace now collate snapshot = with_state (\<lambda>s.
     if \<not> ws_writable (wx_host s) then ret ()
     else (case importWasiWorkspaceSnapshot now collate (ws_mount (wx_host s)) snapshot of
       Inl e \<Rightarrow> throw (StoreError e)
     | Inr mount \<Rightarrow> on_host (modifyM (set_workspace mount))))"

section \<open>Captured output\<close>

definition writeBytesToPipe :: "descr \<Rightarrow> byte list \<Rightarrow> string \<Rightarrow> ('m, unit) wx" where
  "writeBytesToPipe file bytes ctx =
     (if d_direction file \<noteq> WriteEnd then throw (exec_failed (ctx @ '' target pipe is not writable''))
      else with_state (\<lambda>s.
        let pipe = pipes (wx_host s) (d_pipe file) in
        if p_readers pipe \<le> 0 then throw (exec_failed (ctx @ '' target pipe has no readers''))
        else if int (length (p_bytes pipe)) + int (length bytes) > PIPE_BUFFER_LIMIT
        then throw (exec_failed (ctx @ '' exceeded browser pipe buffer''))
        else on_host (modifyM (set_pipe (d_pipe file) (\<lambda>p. p\<lparr>p_bytes := p_bytes p @ bytes\<rparr>)))))"

definition writeBytesToStdio :: "int \<Rightarrow> byte list \<Rightarrow> ('m, unit) wx" where
  "writeBytesToStdio fd bytes = on_host (write_output fd [bytes])"

definition writeBytesToFd :: "int \<Rightarrow> byte list \<Rightarrow> string \<Rightarrow> ('m, unit) wx" where
  "writeBytesToFd fd bytes ctx = with_state (\<lambda>s.
     case openFile (wx_host s) fd of
       Some file \<Rightarrow>
         if isOpenPipe (Some file) then writeBytesToPipe file bytes ctx
         else if isOpenStdio (Some file) then writeBytesToStdio (d_stdioFd file) bytes
         else if \<not> canWriteFile file then throw (exec_failed (ctx @ '' target fd is not writable''))
         else on_host (writeOpenFile fd file [bytes])
     | None \<Rightarrow>
         if fd = STDOUT_FD \<or> fd = STDERR_FD then writeBytesToStdio fd bytes
         else throw (exec_failed (ctx @ '' target fd is unavailable'')))"

definition writeProcessExecCapturedOutput :: "int \<Rightarrow> output_mode \<Rightarrow> byte list option \<Rightarrow> ('m, unit) wx" where
  "writeProcessExecCapturedOutput fd mode value =
     (case value of
        None \<Rightarrow> ret ()
      | Some bytes \<Rightarrow>
          if mode \<noteq> PipeOutput \<or> bytes = [] then ret ()
          else writeBytesToFd fd bytes ''WASIX proc_exec captured output'')"

section \<open>Running another command\<close>

record exec_result =
  er_diagnostics :: diagnostics
  er_exitCode :: "int option"
  er_snapshot :: "snapshot option"
  er_stderr :: "byte list option"
  er_stdout :: "byte list option"

text \<open>What the embedder gives: a clock for the store, \<open>localeCompare\<close>, \<open>childCommands.run\<close>.\<close>

record embedder =
  em_now :: "nat \<Rightarrow> int"
  em_collate :: "string \<Rightarrow> string \<Rightarrow> int"
  em_run :: "(exec_request \<Rightarrow> wexn + exec_result) option"
  em_message :: "wexn \<Rightarrow> string"

definition runProcessExec :: "embedder \<Rightarrow> exec_request \<Rightarrow> ('m, int) wx" where
  "runProcessExec em request =
     (case em_run em of
        None \<Rightarrow> throw (ModuleError ''unsupported'' ''WASIX proc_exec child command bridge is unavailable'' (Some 126))
      | Some run \<Rightarrow>
          (case run request of
             Inl e \<Rightarrow> throw e
           | Inr result \<Rightarrow>
               seqM (case er_snapshot result of
                   None \<Rightarrow> ret ()
                 | Some snapshot \<Rightarrow>
                     seqM (import_workspace (em_now em) (em_collate em) snapshot) (on_host rebindOpenWorkspaceFiles))
               (seqM (writeProcessExecCapturedOutput STDOUT_FD (ex_stdout request) (er_stdout result))
               (seqM (writeProcessExecCapturedOutput STDERR_FD (ex_stderr request) (er_stderr result))
               (seqM (mergeDiagnostics (em_collate em) (er_diagnostics result))
                 (ret (case er_exitCode result of None \<Rightarrow> 0 | Some c \<Rightarrow> c)))))))"

section \<open>The run of a module\<close>

text \<open>The \<open>while\<close> loop: a command that a vfork child has started ends with the parent going on. The loop
  has no bound of its own: \<open>None\<close> is a run that needs more than the given rounds.\<close>

definition run_round :: "embedder \<Rightarrow> 'm asyncify \<Rightarrow> 'm fork_runner \<Rightarrow> ('m, unit) wx \<Rightarrow> ('m, unit) wx" where
  "run_round em ax runner start =
     seqM (on_host throwIfAborted) (seqM (runWasiEntrypoint (em_collate em) ax runner start) (on_host throwIfAborted))"

fun run_rounds ::
  "nat \<Rightarrow> embedder \<Rightarrow> 'm asyncify \<Rightarrow> 'm fork_runner \<Rightarrow> ('m, unit) wx \<Rightarrow> 'm wasix \<Rightarrow> ((wexn + unit) \<times> 'm wasix) option" where
  "run_rounds 0 em ax runner start s = None"
| "run_rounds (Suc n) em ax runner start s =
     (case run_round em ax runner start s of
        (Inl (ProcExec request), t) \<Rightarrow>
          if hasActiveVforkChild t then
            (case bindM (runProcessExec em request) (completeActiveVforkChild ax) t of
               (Inl e, u) \<Rightarrow> Some (Inl e, u)
             | (Inr _, u) \<Rightarrow> run_rounds n em ax runner start u)
          else Some (Inl (ProcExec request), t)
      | outcome \<Rightarrow> Some outcome)"

text \<open>The outer \<open>catch\<close>: \<open>Number(exitCode) || 0\<close> is the code itself. Whatever is neither an exit, an exec nor
  an error of this module, the reason of an abort included, becomes an error of the run.\<close>

definition finish_run :: "embedder \<Rightarrow> (wexn + unit) \<times> 'm wasix \<Rightarrow> (wexn + int) \<times> 'm wasix" where
  "finish_run em outcome =
     (case outcome of
        (Inr _, s) \<Rightarrow> (Inr 0, s)
      | (Inl (HostError (WasiProcExit code)), s) \<Rightarrow> (Inr code, s)
      | (Inl (ProcExec request), s) \<Rightarrow> runProcessExec em request s
      | (Inl (ModuleError kind message exitCode), s) \<Rightarrow> (Inl (ModuleError kind message exitCode), s)
      | (Inl e, s) \<Rightarrow> (Inl (ModuleError ''runtime'' (em_message em e) None), s))"

record run_result =
  rr_exitCode :: int
  rr_diagnostics :: diagnostics
  rr_snapshot :: "snapshot option"

text \<open>\<open>workspaceResult\<close> without its last step, the import into the store of the embedder.\<close>

definition workspaceResult :: "(string \<Rightarrow> string \<Rightarrow> int) \<Rightarrow> int \<Rightarrow> 'm wasix \<Rightarrow> run_result" where
  "workspaceResult collate exitCode s =
     \<lparr>rr_exitCode = exitCode, rr_diagnostics = resultDiagnostics collate s,
      rr_snapshot = (if ws_writable (wx_host s)
        then Some (exportWasiWorkspaceSnapshot collate (ws_mount (wx_host s))) else None)\<rparr>"

definition runRawWasiModule ::
  "nat \<Rightarrow> embedder \<Rightarrow> 'm asyncify \<Rightarrow> 'm fork_runner \<Rightarrow> ('m, unit) wx \<Rightarrow> 'm wasix \<Rightarrow> (wexn + run_result) option" where
  "runRawWasiModule rounds em ax runner start s =
     map_option (\<lambda>outcome. case finish_run em outcome of
         (Inl e, t) \<Rightarrow> Inl e
       | (Inr exitCode, t) \<Rightarrow> Inr (workspaceResult (em_collate em) exitCode t))
       (run_rounds rounds em ax runner start s)"

section \<open>The child of a copied fork\<close>

text \<open>The new runtime: the trees of the workspace and the package, the record, pipe and offset
  objects, the arguments and the output are the parent's; the scratch tree, the processes and the
  snapshots start anew. \<open>instance\<close> is the fresh instance with the exported mutable globals of the parent.\<close>

definition child_host :: "mem \<Rightarrow> runtime wasi" where
  "child_host memorySnapshot =
     bindM duplicateOpenFilesForFork (\<lambda>files. with_state (\<lambda>h. ret
       (h\<lparr>memory := memorySnapshot, openFiles := files, sc_files := [], sc_dirs := [[]],
          stdin_bytes := remainingStdinBytes h, stdinOffset := 0\<rparr>)))"

definition copied_child :: "runtime \<Rightarrow> 'm \<Rightarrow> 'm wasix \<Rightarrow> 'm copy_fork \<Rightarrow> 'm wasix" where
  "copied_child h instance_state parent fork =
     (let child = new_wasix h instance_state (wx_caps parent) (wx_diagnostics parent) (wx_tty parent) (wx_envObject parent) False in
      child\<lparr>wx_processes := AList.update (cf_childPid fork)
              (new_process (cf_parentPid fork) (cf_childPid fork)) (wx_processes child),
            wx_current := cf_childPid fork\<rparr>)"

text \<open>The child runs to its end; what it left in the shared objects is in its state.\<close>

definition run_copied_child ::
  "embedder \<Rightarrow> 'm asyncify \<Rightarrow> ('m, unit) wx \<Rightarrow> 'm copy_fork \<Rightarrow> ('m, int \<times> diagnostics) wx" where
  "run_copied_child em ax start fork =
     seqM (beginForkRewind ax (cf_record fork) 0 ERRNO_SUCCESS (cf_childPid fork)) (\<lambda>child.
       let (result, t) = (case runWasiEntrypoint (em_collate em) ax None start child of
               (Inr _, t) \<Rightarrow> (Inr 0, t)
             | (Inl (HostError (WasiProcExit code)), t) \<Rightarrow> (Inr code, t)
             | (Inl (ProcExec request), t) \<Rightarrow> runProcessExec em request t
             | (Inl e, t) \<Rightarrow> (Inl e, t)) in
       (case result of Inl e \<Rightarrow> Inl e | Inr code \<Rightarrow> Inr (code, resultDiagnostics (em_collate em) t),
        snd (on_host closeAllOpenFiles t)))"

definition runCopiedForkChild ::
  "embedder \<Rightarrow> 'm asyncify \<Rightarrow> ('m, unit) wx \<Rightarrow> ('m \<Rightarrow> 'm) \<Rightarrow> 'm wasix \<Rightarrow> 'm copy_fork \<Rightarrow>
   (wexn + int \<times> diagnostics) \<times> 'm wasix" where
  "runCopiedForkChild em ax start instance_of parent fork =
     (case child_host (cf_memory fork) (wx_host parent) of
        (Inl e, h) \<Rightarrow> (Inl (HostError e), parent\<lparr>wx_host := h\<rparr>)
      | (Inr child, h) \<Rightarrow>
          run_copied_child em ax start fork (copied_child child (instance_of (cf_globals fork)) parent fork))"

end
