(* ===== verification/Wasix_Process.thy ===== *)
theory Wasix_Process imports Wasix_Run begin

text \<open>
  The process table of a WASIX run. A guest makes calls while no unwinding is pending (the asyncify
  contract), a turn of the run ends with the pending action, and a command that a vfork child starts
  ends with the parent going on: \<open>guest_step\<close>. The invariant \<open>processes_ok\<close> holds in all states these
  steps reach.
\<close>

section \<open>The part of the state that processes need\<close>

definition px :: "'m wasix \<Rightarrow> unwind option \<times> fork_rewind option \<times> int \<times> int \<times> (int \<times> process) list \<times> vfork option" where
  "px s = (wx_unwind s, wx_forkRewind s, wx_current s, wx_next s, wx_processes s, wx_vfork s)"

lemma px_fields [simp]:
  "px (wx_host_update f s) = px s" "px (wx_module_update g s) = px s" "px (wx_unsupported_update u s) = px s"
  "px (wx_snapshots_update v s) = px s" "px (wx_counter_update c s) = px s" "px (wx_rewindValue_update r s) = px s"
  by (simp_all add: px_def)

lemma wp_on_host:
  "(\<And>x h. Q x (s\<lparr>wx_host := h\<rparr>)) \<Longrightarrow> (\<And>e h. E (HostError e) (s\<lparr>wx_host := h\<rparr>)) \<Longrightarrow> wp (on_host m) Q E s"
  by (auto simp: wp_def on_host_def split: prod.splits sum.splits)

definition frames :: "('m, 'a) wx \<Rightarrow> bool" where
  "frames m \<longleftrightarrow> (\<forall>p. keeps (\<lambda>s. px s = p) m)"

lemma framesI: "(\<And>p. keeps (\<lambda>s. px s = p) m) \<Longrightarrow> frames m"
  by (simp add: frames_def)

lemma framesD: "frames m \<Longrightarrow> px (snd (m s)) = px s"
  unfolding frames_def keeps_def by blast

lemma wp_frames: "frames m \<Longrightarrow> (\<And>x t. px t = px s \<Longrightarrow> Q x t) \<Longrightarrow> (\<And>e t. px t = px s \<Longrightarrow> E e t) \<Longrightarrow> wp m Q E s"
  using framesD [of m s] by (auto simp: wp_def split: prod.splits sum.splits)

named_theorems frames_intros \<open>what leaves the process part alone\<close>

lemma frames_ret [frames_intros]: "frames (ret x)"
  by (rule framesI) (rule keeps_ret)
lemma frames_throw [frames_intros]: "frames (throw e)"
  by (rule framesI) (rule keeps_throw)
lemma frames_seq [frames_intros]: "frames m \<Longrightarrow> frames n \<Longrightarrow> frames (seqM m n)"
  by (simp add: frames_def keeps_seq)
lemma frames_bind [frames_intros]: "frames m \<Longrightarrow> (\<And>x. frames (f x)) \<Longrightarrow> frames (bindM m f)"
  by (simp add: frames_def keeps_bind)
lemma frames_with_state [frames_intros]: "(\<And>s. frames (f s)) \<Longrightarrow> frames (with_state f)"
  by (simp add: frames_def keeps_with_state)
lemma frames_modify: "(\<And>s. px (f s) = px s) \<Longrightarrow> frames (modifyM f)"
  by (simp add: frames_def keeps_def)
lemma frames_if [frames_intros]: "frames m \<Longrightarrow> frames n \<Longrightarrow> frames (if b then m else n)"
  by simp
lemma frames_option [frames_intros]: "frames m \<Longrightarrow> (\<And>x. frames (f x)) \<Longrightarrow> frames (case v of None \<Rightarrow> m | Some x \<Rightarrow> f x)"
  by (cases v) simp_all
lemma frames_sum [frames_intros]:
  "(\<And>x. frames (g x)) \<Longrightarrow> (\<And>x. frames (f x)) \<Longrightarrow> frames (case v of Inl x \<Rightarrow> g x | Inr x \<Rightarrow> f x)"
  by (cases v) simp_all
lemma frames_Let [frames_intros]: "frames (f x) \<Longrightarrow> frames (Let x f)"
  by simp
lemma frames_on_host [frames_intros]: "frames (on_host m)"
  by (auto simp: frames_def keeps_def on_host_def split: prod.splits sum.splits)
lemma frames_on_module [frames_intros]: "frames (on_module f)"
  unfolding on_module_def by (rule frames_modify) simp
lemma frames_record [frames_intros]: "frames (recordUnsupportedWasixCall grp name)"
  unfolding recordUnsupportedWasixCall_def by (rule frames_modify) (simp split: option.splits)
lemma frames_merge [frames_intros]: "frames (mergeDiagnostics collate d)"
  unfolding mergeDiagnostics_def by (auto intro!: frames_intros frames_modify split: option.splits)
lemma frames_bounds [frames_intros]: "frames requireStackContinuationBounds"
  unfolding requireStackContinuationBounds_def by (intro frames_intros)
lemma frames_unwind [frames_intros]: "frames (startAsyncifyUnwind ax)"
  unfolding startAsyncifyUnwind_def by (intro frames_intros)
lemma frames_finish [frames_intros]: "frames (finishAsyncifyUnwind ax)"
  unfolding finishAsyncifyUnwind_def by (intro frames_intros)
lemma frames_place [frames_intros]: "frames (place_rewind_stack b bs)"
  unfolding place_rewind_stack_def by (intro frames_intros)
lemma frames_stack_rewind [frames_intros]: "frames (beginStackRewind ax snapshot v)"
  unfolding beginStackRewind_def by (intro frames_intros frames_modify) simp
lemma frames_finish_rewind [frames_intros]: "frames (finishStackRewind ax p)"
  unfolding finishStackRewind_def by (intro frames_intros frames_modify) simp
lemma frames_snapshot [frames_intros]: "frames (createStackSnapshot p r bs)"
  unfolding createStackSnapshot_def by (intro frames_intros frames_modify) simp_all
lemma frames_runner [frames_intros]: "frames (runCopyForkChild runner fork)"
  unfolding runCopyForkChild_def frames_def keeps_def by (auto split: option.splits prod.splits)
lemma frames_unsupported [frames_intros]: "frames (unsupportedWasixCapability grp name)"
  unfolding unsupportedWasixCapability_def by (intro frames_intros)
lemmas capability_defs = unsupportedProcessCapability_def unsupportedThreadEventCapability_def

lemma frames_import_workspace [frames_intros]: "frames (import_workspace now collate sn)"
  unfolding import_workspace_def by (intro frames_intros)
lemma frames_fd [frames_intros]: "frames (writeBytesToFd fd bytes ctx)"
  unfolding writeBytesToFd_def writeBytesToPipe_def writeBytesToStdio_def by (intro frames_intros)
lemma frames_captured [frames_intros]: "frames (writeProcessExecCapturedOutput fd mode v)"
  unfolding writeProcessExecCapturedOutput_def by (intro frames_intros)
lemma frames_runProcessExec [frames_intros]: "frames (runProcessExec em request)"
  unfolding runProcessExec_def by (intro frames_intros)
lemma frames_input [frames_intros]: "frames (processExecInputBytes fd)"
  unfolding processExecInputBytes_def readPipeInputBytes_def readOpenFileInputBytes_def by (intro frames_intros)
lemma frames_throwProcExec [frames_intros]: "frames (throwProcExec collate n k a l env)"
  unfolding throwProcExec_def by (intro frames_intros)
lemma frames_write_number [frames_intros]: "frames (write_number p f)"
  unfolding write_number_def by (intro frames_intros)


section \<open>The invariant\<close>

text \<open>A process that still runs, other than the root: the child of a pending fork or the active vfork child.\<close>

definition in_progress :: "unwind option \<Rightarrow> vfork option \<Rightarrow> int \<Rightarrow> bool" where
  "in_progress unwinding active pid \<longleftrightarrow>
     (case unwinding of
        Some (VforkChild c _ _) \<Rightarrow> pid = c
      | Some (CopyForkChild c _ _) \<Rightarrow> pid = c
      | _ \<Rightarrow> False) \<or>
     (case active of Some v \<Rightarrow> pid = vf_childPid v | None \<Rightarrow> False)"

definition process_ok :: "unwind option \<Rightarrow> vfork option \<Rightarrow> int \<Rightarrow> int \<times> process \<Rightarrow> bool" where
  "process_ok unwinding active n e \<longleftrightarrow> (case e of (pid, p) \<Rightarrow>
     pr_pid p = pid \<and> ROOT_PID \<le> pid \<and> pid < n \<and>
     (if pid = ROOT_PID then pr_parentPid p = ROOT_PARENT_PID else pr_parentPid p = ROOT_PID) \<and>
     (pr_state p = Running \<and> pid \<noteq> ROOT_PID \<longrightarrow> in_progress unwinding active pid))"

text \<open>On the process part: pending unwinding, pending fork rewind, current and next number, table, vfork.\<close>

fun procs_ok :: "unwind option \<times> fork_rewind option \<times> int \<times> int \<times> (int \<times> process) list \<times> vfork option \<Rightarrow> bool" where
  "procs_ok (unwinding, rewind, current, n, ps, active) \<longleftrightarrow>
     distinct (map_keys ps) \<and> ROOT_PID < n \<and> (\<forall>e \<in> set ps. process_ok unwinding active n e) \<and>
     (case rewind of None \<Rightarrow> True | Some r \<Rightarrow> fr_processId r = current) \<and>
     (case active of
        None \<Rightarrow> current = ROOT_PID
      | Some v \<Rightarrow> current = vf_childPid v \<and> ROOT_PID < vf_childPid v \<and> vf_parentPid v = ROOT_PID) \<and>
     (case unwinding of
        Some (VforkChild c q _) \<Rightarrow> ROOT_PID < c \<and> q = ROOT_PID \<and> active = None
      | Some (CopyForkChild c q _) \<Rightarrow> ROOT_PID < c \<and> q = ROOT_PID \<and> active = None
      | Some (VforkParent c) \<Rightarrow> \<forall>p. (c, p) \<in> set ps \<longrightarrow> pr_state p = Exited
      | _ \<Rightarrow> True)"

definition processes_ok :: "'m wasix \<Rightarrow> bool" where
  "processes_ok s \<longleftrightarrow> procs_ok (px s)"

lemma processes_ok_px: "px s = px t \<Longrightarrow> processes_ok s \<longleftrightarrow> processes_ok t"
  by (simp add: processes_ok_def)

lemma processes_ok_new: "processes_ok (new_wasix h md cap diagnostics tty env copyFork)"
  by (simp add: processes_ok_def px_def new_wasix_def process_ok_def new_process_def)

lemma frames_processes_ok: "frames m \<Longrightarrow> processes_ok s \<Longrightarrow> wp m (\<lambda>_. processes_ok) (\<lambda>_. processes_ok) s"
  by (rule wp_frames) (simp_all add: processes_ok_def)

lemma set_update_fresh: "distinct (map_keys ps) \<Longrightarrow> set (AList.update k v ps) = insert (k, v) {e \<in> set ps. fst e \<noteq> k}"
proof (induction ps)
  case (Cons e ps)
  then show ?case by (cases e) (force simp: image_iff)+
qed simp

lemma set_delete: "set (AList.delete k ps) = {e \<in> set ps. fst e \<noteq> k}"
  by (auto simp: AList.delete_eq)

definition exited :: "int \<Rightarrow> int \<Rightarrow> (int \<times> process) list \<Rightarrow> (int \<times> process) list" where
  "exited pid code ps = (case map_of ps pid of None \<Rightarrow> ps
     | Some p \<Rightarrow> AList.update pid (p\<lparr>pr_exitCode := Some code, pr_state := Exited\<rparr>) ps)"

lemma markProcessExited_eq:
  "markProcessExited pid code = modifyM (\<lambda>s. s\<lparr>wx_processes := exited pid code (wx_processes s)\<rparr>)"
  by (simp add: markProcessExited_def modifyM_def exited_def fun_eq_iff split: option.splits)

lemma exited_cases:
  assumes "distinct (map_keys ps)" "e \<in> set (exited pid code ps)"
  shows "(e \<in> set ps \<and> fst e \<noteq> pid) \<or>
    (\<exists>p. (pid, p) \<in> set ps \<and> e = (pid, p\<lparr>pr_exitCode := Some code, pr_state := Exited\<rparr>))"
  using assms by (force simp: exited_def set_update_fresh map_of_eq_None_iff image_iff dest: map_of_SomeD split: option.splits)

lemma distinct_exited: "distinct (map_keys ps) \<Longrightarrow> distinct (map_keys (exited pid code ps))"
  by (simp add: exited_def split: option.splits)

lemma exited_in: "distinct (map_keys ps) \<Longrightarrow> (pid, p) \<in> set (exited pid code ps) \<Longrightarrow> pr_state p = Exited"
  by (drule (1) exited_cases) auto

lemma process_ok_exited:
  assumes ok: "\<forall>e \<in> set ps. process_ok u a n e" and keys: "distinct (map_keys ps)"
    and others: "\<And>x. x \<noteq> pid \<Longrightarrow> in_progress u a x \<Longrightarrow> in_progress u' a' x"
  shows "\<forall>e \<in> set (exited pid code ps). process_ok u' a' n e"
proof
  fix e assume "e \<in> set (exited pid code ps)"
  then consider "e \<in> set ps" "fst e \<noteq> pid"
    | p where "(pid, p) \<in> set ps" "e = (pid, p\<lparr>pr_exitCode := Some code, pr_state := Exited\<rparr>)"
    using exited_cases [OF keys] by blast
  then show "process_ok u' a' n e"
  proof cases
    case 1
    with bspec [OF ok 1(1)] others show ?thesis by (cases e) (auto simp: process_ok_def)
  next
    case 2
    with bspec [OF ok 2(1)] show ?thesis by (auto simp: process_ok_def)
  qed
qed

section \<open>What each step does to the table\<close>

lemma procs_fork:
  assumes "procs_ok (None, rewind, current, n, ps, None)"
    and "action = VforkChild n current p \<or> action = CopyForkChild n current p"
  shows "procs_ok (Some action, rewind, current, n + 1, AList.update n (new_process current n) ps, None)"
  using assms by (auto simp: set_update_fresh process_ok_def in_progress_def new_process_def)

lemma procs_suspend:
  "procs_ok (None, rewind, current, n, ps, active) \<Longrightarrow> (\<And>c q x. action \<noteq> VforkChild c q x \<and> action \<noteq> CopyForkChild c q x) \<Longrightarrow>
   (\<And>c. action \<noteq> VforkParent c) \<Longrightarrow> procs_ok (Some action, rewind, current, n, ps, active)"
  by (cases action) (auto simp: process_ok_def in_progress_def)

lemma procs_resume:
  "procs_ok (Some action, rewind, current, n, ps, active) \<Longrightarrow> (\<And>c q x. action \<noteq> VforkChild c q x \<and> action \<noteq> CopyForkChild c q x) \<Longrightarrow>
   procs_ok (None, rewind, current, n, ps, active)"
  by (cases action) (auto simp: process_ok_def in_progress_def)

lemma procs_child_exit:
  assumes "procs_ok (None, rewind, current, n, ps, Some v)"
  shows "procs_ok (Some (VforkParent (vf_childPid v)), rewind, current, n, exited (vf_childPid v) code ps, Some v)"
proof -
  have "\<forall>e \<in> set (exited (vf_childPid v) code ps). process_ok (Some (VforkParent (vf_childPid v))) (Some v) n e"
    using assms by (intro process_ok_exited [where u = None and a = "Some v"]) (auto simp: in_progress_def)
  with assms show ?thesis by (auto simp: distinct_exited dest: exited_in)
qed

lemma procs_vfork_child:
  assumes "procs_ok (Some (VforkChild c q x), rewind, current, n, ps, active)"
    and "fr_processId r = c" "vf_childPid v = c" "vf_parentPid v = q"
  shows "procs_ok (None, Some r, c, n, ps, Some v)"
  using assms by (auto simp: process_ok_def in_progress_def)

lemma procs_vfork_parent:
  assumes "procs_ok (u, rewind, current, n, ps, Some v)" "u = None \<or> u = Some (VforkParent (vf_childPid v))"
    and "\<forall>p. (vf_childPid v, p) \<in> set ps \<longrightarrow> pr_state p = Exited" "fr_processId r = vf_parentPid v"
  shows "procs_ok (None, Some r, vf_parentPid v, n, ps, None)"
  using assms by (auto simp: process_ok_def in_progress_def)

lemma procs_copy_child:
  assumes "procs_ok (Some (CopyForkChild c q x), rewind, current, n, ps, active)" "fr_processId r = q"
  shows "procs_ok (None, Some r, q, n, exited c code ps, active)"
proof -
  have "\<forall>e \<in> set (exited c code ps). process_ok None active n e"
    using assms by (intro process_ok_exited [where u = "Some (CopyForkChild c q x)" and a = active]) (auto simp: in_progress_def)
  with assms show ?thesis by (auto simp: distinct_exited)
qed

lemma procs_reap: "procs_ok (u, rewind, current, n, ps, active) \<Longrightarrow> procs_ok (u, rewind, current, n, AList.delete k ps, active)"
  by (auto simp: set_delete split: option.splits unwind.splits)

section \<open>Calls and turns\<close>

text \<open>What a call may do: keep the invariant, also when it ends with a command to run.\<close>

definition exec_only :: "('m wasix \<Rightarrow> bool) \<Rightarrow> wexn \<Rightarrow> 'm wasix \<Rightarrow> bool" where
  "exec_only Q e t \<longleftrightarrow> (case e of ProcExec _ \<Rightarrow> Q t | _ \<Rightarrow> True)"

abbreviation safe :: "('m, 'a) wx \<Rightarrow> 'm wasix \<Rightarrow> bool" where
  "safe m s \<equiv> wp m (\<lambda>_. processes_ok) (exec_only (\<lambda>t. processes_ok t \<and> wx_unwind t = None)) s"

lemma exec_only_simps [simp]:
  "exec_only Q (HostError e) t" "exec_only Q (ModuleError k x c) t" "exec_only Q (StoreError w) t"
  "exec_only Q (ProcExec r) t \<longleftrightarrow> Q t"
  by (simp_all add: exec_only_def)

lemma px_unwind: "px t = px s \<Longrightarrow> wx_unwind t = wx_unwind s"
  by (simp add: px_def)

lemma safe_frames: "frames m \<Longrightarrow> processes_ok s \<Longrightarrow> wx_unwind s = None \<Longrightarrow> safe m s"
  by (rule wp_frames) (auto simp: processes_ok_def exec_only_def dest: px_unwind split: wexn.splits)

lemma wp_fork_tail:
  "(\<And>t. px t = px s \<Longrightarrow> Q x t) \<Longrightarrow> wp (seqM (startAsyncifyUnwind ax) (ret x)) Q (exec_only R) s"
  by (auto simp: wp_simps startAsyncifyUnwind_def requireStackContinuationBounds_def on_module_def split: option.splits
      intro!: wp_on_host)

lemma add_child_ok:
  assumes "processes_ok s" "wx_unwind s = None" "wx_vfork s = None"
    and "\<And>c q. action c q = VforkChild c q p \<or> action c q = CopyForkChild c q p"
  shows "processes_ok (add_child action s)"
  using procs_fork [of "wx_forkRewind s" "wx_current s" "wx_next s" "wx_processes s" "action (wx_next s) (wx_current s)" p] assms
  by (simp add: processes_ok_def px_def add_child_def)

lemma wp_finishForkRewind:
  assumes "processes_ok s" "Q None s" "\<And>x t. processes_ok t \<Longrightarrow> Q (Some x) t"
  shows "wp (finishForkRewind ax p) Q (exec_only R) s"
proof (cases "wx_forkRewind s")
  case None
  with assms(2) show ?thesis by (simp add: finishForkRewind_def wp_simps)
next
  case (Some r)
  with assms(1) show ?thesis
    by (auto simp: finishForkRewind_def wp_simps on_module_def processes_ok_def px_def
        intro!: wp_on_host assms(3))
qed

lemma safe_throwIfAborted:
  "(\<And>h. wp m Q (exec_only R) (s\<lparr>wx_host := h\<rparr>)) \<Longrightarrow> wp (seqM (on_host throwIfAborted) m) Q (exec_only R) s"
  by (auto simp: wp_simps intro!: wp_on_host)

lemma processes_ok_host [simp]: "processes_ok (s\<lparr>wx_host := h\<rparr>) = processes_ok s"
  by (simp add: processes_ok_def)

lemma px_ok: "processes_ok s \<Longrightarrow> px t = px s \<Longrightarrow> processes_ok t"
  by (simp add: processes_ok_def)

lemma wp_fork:
  assumes "processes_ok (add_child action s)"
  shows "wp (seqM (modifyM (add_child action)) (seqM (startAsyncifyUnwind ax) (ret x)))
    (\<lambda>_. processes_ok) (exec_only R) s"
  unfolding wp_seq [of "modifyM f" for f] wp_modify
  by (rule wp_fork_tail) (rule px_ok [OF assms])

lemma safe_begin:
  assumes "processes_ok s" "wx_unwind s = None" "wx_vfork s = None"
  shows "safe (beginVfork ax p) s" "safe (beginCopyFork ax p) s"
  unfolding beginVfork_def beginCopyFork_def by (rule wp_fork, rule add_child_ok [OF assms], simp)+

lemma safe_unsupported: "processes_ok s \<Longrightarrow> wx_unwind s = None \<Longrightarrow> safe (unsupportedProcessCapability name) s"
  unfolding unsupportedProcessCapability_def by (rule safe_frames [OF frames_unsupported])

lemma safe_procFork:
  assumes "processes_ok s" "wx_unwind s = None"
  shows "safe (procFork ax copyMemory p) s"
  unfolding procFork_def
  by (rule safe_throwIfAborted)
    (use assms in \<open>auto simp: wp_with_state Let_def wp_ret wp_bind intro!: wp_finishForkRewind safe_unsupported safe_begin\<close>)

lemma hasActiveVforkChild_iff:
  "hasActiveVforkChild s \<longleftrightarrow> (\<exists>v. wx_vfork s = Some v \<and> wx_current s = vf_childPid v)"
  by (simp add: hasActiveVforkChild_def split: option.splits)

lemma safe_child_exit:
  assumes "processes_ok s" "wx_unwind s = None"
  shows "wp (beginVforkChildExit ax code) (\<lambda>_. processes_ok) (exec_only R) s"
proof (cases "wx_vfork s")
  case None
  with assms show ?thesis by (simp add: beginVforkChildExit_def wp_with_state wp_ret)
next
  case (Some v)
  let ?t = "s\<lparr>wx_processes := exited (vf_childPid v) (js_u32 code) (wx_processes s), wx_unwind := Some (VforkParent (vf_childPid v))\<rparr>"
  have "processes_ok ?t"
    using procs_child_exit [of "wx_forkRewind s" "wx_current s" "wx_next s" "wx_processes s" v] assms Some
    by (simp add: processes_ok_def px_def)
  then have "wp (seqM (startAsyncifyUnwind ax) (ret True)) (\<lambda>_. processes_ok) (exec_only R) ?t"
    by (intro wp_fork_tail) (rule px_ok)
  with assms Some show ?thesis
    by (simp add: beginVforkChildExit_def wp_with_state wp_ret markProcessExited_eq wp_seq [of "modifyM f" for f] wp_modify)
qed

lemma safe_procExit2:
  assumes "processes_ok s" "wx_unwind s = None"
  shows "safe (procExit2 ax code) s"
  unfolding procExit2_def
  by (rule safe_throwIfAborted)
    (use assms in \<open>auto simp: wp_bind wp_ret wp_throw intro!: wp_mono [OF safe_child_exit]\<close>)

lemma suspend_ok:
  assumes "processes_ok s" "wx_unwind s = None" "action = Checkpoint p r \<or> action = Restore snapshot v"
  shows "processes_ok (s\<lparr>wx_unwind := Some action\<rparr>)"
  using procs_suspend [of "wx_forkRewind s" "wx_current s" "wx_next s" "wx_processes s" "wx_vfork s" action] assms
  by (auto simp: processes_ok_def px_def)

lemma wp_suspend:
  assumes "processes_ok s" "wx_unwind s = None" "action = Checkpoint p r \<or> action = Restore snapshot v"
  shows "wp (seqM (modifyM (\<lambda>s. s\<lparr>wx_unwind := Some action\<rparr>)) (seqM (startAsyncifyUnwind ax) (ret x)))
    (\<lambda>_. processes_ok) (exec_only R) s"
  unfolding wp_seq [of "modifyM f" for f] wp_modify
  by (rule wp_fork_tail) (rule px_ok [OF suspend_ok [OF assms]])

lemma ready_px: "processes_ok s \<and> wx_unwind s = None \<Longrightarrow> px t = px s \<Longrightarrow> processes_ok t \<and> wx_unwind t = None"
  by (auto simp: processes_ok_def dest: px_unwind)

lemma safe_bind_frames:
  assumes "frames m" "processes_ok s \<and> wx_unwind s = None" "\<And>x t. processes_ok t \<and> wx_unwind t = None \<Longrightarrow> safe (f x) t"
  shows "safe (bindM m f) s"
  unfolding wp_bind
proof (rule wp_frames [OF assms(1)])
  show "safe (f x) t" if "px t = px s" for x t
    using assms(3) ready_px [OF assms(2) that] by blast
  show "exec_only (\<lambda>t. processes_ok t \<and> wx_unwind t = None) e t" if "px t = px s" for e t
    using ready_px [OF assms(2) that] by (simp add: exec_only_def split: wexn.splits)
qed

lemma safe_seq_frames:
  assumes "frames m" "processes_ok s \<and> wx_unwind s = None" "\<And>t. processes_ok t \<and> wx_unwind t = None \<Longrightarrow> safe n t"
  shows "safe (seqM m n) s"
  unfolding seqM_def by (rule safe_bind_frames [OF assms(1,2)]) (rule assms(3))

lemma safe_ret: "processes_ok s \<and> wx_unwind s = None \<Longrightarrow> safe (ret x) s"
  by (simp add: wp_ret)

lemma safe_frames': "frames m \<Longrightarrow> processes_ok s \<and> wx_unwind s = None \<Longrightarrow> safe m s"
  by (simp add: safe_frames)

lemma wp_begin_suspend:
  assumes "processes_ok s \<and> wx_unwind s = None" "action = Checkpoint p r \<or> action = Restore snapshot v"
  shows "safe (seqM (modifyM (\<lambda>s. s\<lparr>wx_unwind := Some action\<rparr>)) (startAsyncifyUnwind ax)) s"
proof -
  have "wp (seqM (startAsyncifyUnwind ax) (ret ())) (\<lambda>_. processes_ok) (exec_only (\<lambda>t. processes_ok t \<and> wx_unwind t = None))
      (s\<lparr>wx_unwind := Some action\<rparr>)"
    by (rule wp_fork_tail, rule px_ok [OF suspend_ok]) (use assms in auto)
  then show ?thesis by (simp add: wp_seq wp_modify wp_ret)
qed

lemma safe_stackCheckpoint:
  assumes "processes_ok s \<and> wx_unwind s = None"
  shows "safe (stackCheckpoint ax p r) s"
proof -
  have "safe (seqM (beginStackCheckpoint ax (js_u32 p) (js_u32 r)) (ret ERRNO_SUCCESS)) t"
    if "processes_ok t \<and> wx_unwind t = None" for t
    using wp_begin_suspend [OF that] by (simp add: beginStackCheckpoint_def wp_seq wp_ret)
  then show ?thesis unfolding stackCheckpoint_def
    by (auto simp: wp_with_state Let_def assms
        intro!: safe_seq_frames [OF frames_on_host] safe_bind_frames [OF frames_finish_rewind] safe_ret split: if_splits)
qed

lemma safe_stackRestore:
  assumes "processes_ok s \<and> wx_unwind s = None"
  shows "safe (stackRestore ax p v) s"
proof -
  have "safe (beginStackRestore ax q v) t" if "processes_ok t \<and> wx_unwind t = None" for q t
    unfolding beginStackRestore_def
    by (intro safe_bind_frames [OF frames_on_host] that)
      (auto simp: wp_with_state wp_throw intro!: safe_seq_frames [OF frames_record] wp_begin_suspend split: option.splits)
  then show ?thesis unfolding stackRestore_def
    by (auto simp: wp_with_state Let_def assms wp_throw intro!: safe_seq_frames [OF frames_on_host] safe_seq_frames [OF frames_record])
qed

lemma reap_ok: "processes_ok s \<Longrightarrow> processes_ok (s\<lparr>wx_processes := AList.delete k (wx_processes s)\<rparr>)"
  using procs_reap [of "wx_unwind s" "wx_forkRewind s" "wx_current s" "wx_next s" "wx_processes s" "wx_vfork s" k]
  by (simp add: processes_ok_def px_def del: procs_ok.simps)

lemma safe_joined:
  "processes_ok s \<and> wx_unwind s = None \<Longrightarrow> safe (seqM (writeJoinedChild p q child) (ret ERRNO_SUCCESS)) s"
  unfolding writeJoinedChild_def seqM_def [of "seqM _ _"] wp_bind
  by (auto simp: reapProcess_def wp_modify wp_ret reap_ok intro!: safe_seq_frames [OF frames_on_host])

lemma safe_procJoin:
  assumes "processes_ok s \<and> wx_unwind s = None"
  shows "safe (procJoin p flags q) s"
proof -
  have unsupported: "safe (unsupportedProcessCapability name) t" if "processes_ok t \<and> wx_unwind t = None" for name t
    using that by (simp add: safe_unsupported)
  show ?thesis unfolding procJoin_def answer_join_def
    by (auto simp: wp_with_state Let_def assms
        intro!: safe_seq_frames [OF frames_on_host] safe_bind_frames [OF frames_on_host] safe_ret safe_joined unsupported
        split: option.splits)
qed

lemma safe_with_errno: "safe m s \<Longrightarrow> safe (with_errno m) s"
  by (simp add: with_errno_def wp_bind wp_ret)

lemma safe_no_result: "safe m s \<Longrightarrow> safe (no_result m) s"
  by (simp add: no_result_def wp_seq wp_ret)

lemma frames_preview: "frames (preview_import now random c)"
  unfolding preview_import_def networkSocketStub_def by (intro frames_intros)

lemma frames_unsupported_import: "unsupported_import name = Some m \<Longrightarrow> frames m"
  unfolding unsupported_import_def capability_defs unsupportedThreadExitCapability_def
  by (auto split: if_splits intro!: frames_intros)

lemma frames_calls [frames_intros]:
  "frames (procId p)" "frames procSignalsGet" "frames (procSignalsSizesGet p)" "frames (procExec collate n k a l)"
  "frames (procExec2 collate n k a l e m)" "frames (procExec3 collate n k a l e m b x y)" "frames (procParent pid p)"
  "frames procSnapshot" "frames callbackSignal" "frames (threadId p)" "frames (threadParallelism p)" "frames (threadSleep d)"
  "frames (ttyGet p)" "frames (ttySet p)"
  unfolding procId_def procSignalsGet_def procSignalsSizesGet_def procExec_def procExec2_def procExec3_def procParent_def
    procSnapshot_def callbackSignal_def threadId_def threadParallelism_def threadSleep_def ttyGet_def ttySet_def capability_defs
  by (intro frames_intros)+

lemma safe_wasix_import:
  fixes s :: "'m wasix"
  assumes "processes_ok s \<and> wx_unwind s = None"
  shows "safe (wasix_import now random collate ax c) s"
proof (cases c)
  case (Preview w)
  show ?thesis unfolding Preview wasix_import.simps
    by (intro safe_with_errno safe_frames' [OF frames_preview] assms)
next
  case (Unsupported name)
  show ?thesis
  proof (cases "unsupported_import name :: ('m, int) wx option")
    case None
    then show ?thesis by (simp add: Unsupported wp_throw)
  next
    case (Some m)
    then show ?thesis unfolding Unsupported wasix_import.simps option.case
      by (simp only: option.case) (intro safe_with_errno safe_frames' [OF frames_unsupported_import] assms)
  qed
qed (use assms in \<open>auto intro!: safe_with_errno safe_no_result safe_procFork safe_procExit2 safe_procJoin safe_stackCheckpoint
    safe_stackRestore safe_frames frames_calls frames_on_host\<close>)

text \<open>A rewind sets the process whose number it returns.\<close>

lemma wp_beginForkRewind:
  assumes "\<And>t. px t = (wx_unwind s, Some \<lparr>fr_errno = e, fr_pid = pid, fr_processId = q\<rparr>, q, wx_next s, wx_processes s, wx_vfork s) \<Longrightarrow> Q () t"
  shows "wp (beginForkRewind ax record pid e q) Q (\<lambda>_ _. True) s"
  by (auto simp: beginForkRewind_def requireStackContinuationBounds_def place_rewind_stack_def on_module_def wp_simps px_def
      split: option.splits intro!: wp_on_host assms)

lemma wp_beginVforkParentRewind:
  assumes "\<And>v t. wx_vfork s = Some v \<Longrightarrow> vf_childPid v = c \<Longrightarrow>
      px t = (wx_unwind s, Some \<lparr>fr_errno = ERRNO_SUCCESS, fr_pid = c, fr_processId = vf_parentPid v\<rparr>, vf_parentPid v,
        wx_next s, wx_processes s, None) \<Longrightarrow> Q () t"
  shows "wp (beginVforkParentRewind ax c) Q (\<lambda>_ _. True) s"
  using assms by (auto simp: beginVforkParentRewind_def wp_simps split: option.splits intro!: wp_beginForkRewind)

lemma wp_completeActiveVforkChild:
  assumes ok: "processes_ok s \<and> wx_unwind s = None"
  shows "wp (completeActiveVforkChild ax code) (\<lambda>_. processes_ok) (\<lambda>_ _. True) s"
proof (cases "hasActiveVforkChild s")
  case False
  with ok show ?thesis
    by (auto simp: completeActiveVforkChild_def hasActiveVforkChild_def wp_simps split: option.splits)
next
  case True
  then obtain v where v: "wx_vfork s = Some v" "wx_current s = vf_childPid v"
    by (auto simp: hasActiveVforkChild_iff)
  have keys: "distinct (map_keys (wx_processes s))" "\<forall>e \<in> set (wx_processes s). process_ok None (Some v) (wx_next s) e"
    using ok v by (auto simp: processes_ok_def px_def)
  have ok': "procs_ok (None, wx_forkRewind s, wx_current s, wx_next s, exited (vf_childPid v) (js_u32 code) (wx_processes s), Some v)"
    using ok v process_ok_exited [OF keys(2,1), of _ None "Some v"] distinct_exited [OF keys(1)]
    by (auto simp: processes_ok_def px_def)
  show ?thesis unfolding completeActiveVforkChild_def wp_with_state v option.case
    using ok v procs_vfork_parent [OF ok'] exited_in [OF keys(1)]
    by (auto simp: wp_seq wp_modify wp_ret markProcessExited_eq processes_ok_def simp del: procs_ok.simps
        intro!: wp_beginVforkParentRewind)
qed

lemma wp_frames_ok: "frames m \<Longrightarrow> procs_ok (px s) \<Longrightarrow> wp m (\<lambda>_ t. procs_ok (px t)) (\<lambda>_ _. True) s"
  by (rule wp_frames) simp_all

lemma wp_finish_action:
  assumes ok: "procs_ok (Some action, rewind, current, n, ps, active)" and px: "px s = (None, rewind, current, n, ps, active)"
  shows "wp (finish_action collate ax runner action bs) (\<lambda>_ t. procs_ok (px t)) (\<lambda>_ _. True) s"
proof (cases action)
  case (Checkpoint p r)
  have "frames (finish_action collate ax runner action bs)"
    unfolding finish_action_def Checkpoint unwind.case by (intro frames_intros)
  then show ?thesis
    using procs_resume [OF ok] px Checkpoint by (intro wp_frames_ok) (auto simp del: procs_ok.simps)
next
  case (Restore snapshot v)
  have "frames (finish_action collate ax runner action bs)"
    unfolding finish_action_def Restore unwind.case by (intro frames_intros)
  then show ?thesis
    using procs_resume [OF ok] px Restore by (intro wp_frames_ok) (auto simp del: procs_ok.simps)
next
  case (VforkChild c q p)
  show ?thesis
    using procs_vfork_child [OF ok [unfolded VforkChild]] px
    by (auto simp: finish_action_def VforkChild Let_def wp_seq wp_modify px_def simp del: procs_ok.simps
        intro!: wp_beginForkRewind)
next
  case (CopyForkChild c q p)
  have "wp (seqM (markProcessExited c code) (beginForkRewind ax fr c ERRNO_SUCCESS q))
      (\<lambda>_ t. procs_ok (px t)) (\<lambda>_ _. True) t" if "px t = px s" for t code fr
    using procs_copy_child [OF ok [unfolded CopyForkChild]] px that
    by (auto simp: wp_seq wp_modify markProcessExited_eq px_def simp del: procs_ok.simps intro!: wp_beginForkRewind)
  then have "wp (seqM (mergeDiagnostics collate d) (seqM (markProcessExited c code) (beginForkRewind ax fr c ERRNO_SUCCESS q)))
      (\<lambda>_ t. procs_ok (px t)) (\<lambda>_ _. True) t" if "px t = px s" for t code fr d
    unfolding wp_seq [of "mergeDiagnostics _ _"] using that by (intro wp_frames [OF frames_merge]) auto
  then show ?thesis
    by (auto simp: finish_action_def CopyForkChild Let_def wp_with_state wp_bind split: prod.splits
        intro!: wp_frames [OF frames_runner])
next
  case (VforkParent c)
  moreover have "\<forall>p. (c, p) \<in> set ps \<longrightarrow> pr_state p = Exited"
    using ok VforkParent by simp
  ultimately show ?thesis
    using px ok procs_vfork_parent [of "Some action" rewind current n ps]
    by (auto simp: finish_action_def px_def simp del: procs_ok.simps intro!: wp_beginVforkParentRewind)
qed

lemma wp_finishContinuationTurn:
  assumes "processes_ok s"
  shows "wp (finishContinuationTurn collate ax runner) (\<lambda>_ t. processes_ok t) (\<lambda>_ _. True) s"
proof (cases "wx_unwind s")
  case None
  with assms show ?thesis by (simp add: finishContinuationTurn_def wp_with_state wp_ret)
next
  case (Some action)
  let ?s = "s\<lparr>wx_unwind := None\<rparr>"
  have "wp (finish_action collate ax runner action bs) (\<lambda>_ t. processes_ok t) (\<lambda>_ _. True) t" if "px t = px ?s" for bs t
    using wp_finish_action [of action "wx_forkRewind s" "wx_current s" "wx_next s" "wx_processes s" "wx_vfork s" t] assms that Some
    by (simp add: processes_ok_def px_def del: procs_ok.simps)
  then show ?thesis unfolding finishContinuationTurn_def wp_with_state Some option.case
    by (auto simp: wp_seq wp_bind wp_ret wp_modify wp_throw intro!: wp_frames [OF frames_finish])
qed

section \<open>Reachable states\<close>

text \<open>A call of the guest, the end of a turn, a command that the active vfork child has started.\<close>

inductive guest_step :: "embedder \<Rightarrow> (int \<Rightarrow> int) \<Rightarrow> (int \<Rightarrow> int \<Rightarrow> byte list) \<Rightarrow> 'm asyncify \<Rightarrow> 'm fork_runner \<Rightarrow>
    'm wasix \<Rightarrow> 'm wasix \<Rightarrow> bool"
  for em now random ax runner where
  step_call: "wx_unwind s = None \<Longrightarrow> wasix_import now random (em_collate em) ax c s = (Inr r, t) \<Longrightarrow>
     guest_step em now random ax runner s t"
| step_turn: "finishContinuationTurn (em_collate em) ax runner s = (Inr True, t) \<Longrightarrow>
     guest_step em now random ax runner s t"
| step_exec: "wx_unwind s = None \<Longrightarrow> wasix_import now random (em_collate em) ax c s = (Inl (ProcExec request), t) \<Longrightarrow>
     hasActiveVforkChild t \<Longrightarrow> bindM (runProcessExec em request) (completeActiveVforkChild ax) t = (Inr b, u) \<Longrightarrow>
     guest_step em now random ax runner s u"

inductive reached :: "embedder \<Rightarrow> (int \<Rightarrow> int) \<Rightarrow> (int \<Rightarrow> int \<Rightarrow> byte list) \<Rightarrow> 'm asyncify \<Rightarrow> 'm fork_runner \<Rightarrow> 'm wasix \<Rightarrow> bool"
  for em now random ax runner where
  reached_start: "reached em now random ax runner (new_wasix h md cap diagnostics tty env copyFork)"
| reached_step: "reached em now random ax runner s \<Longrightarrow> guest_step em now random ax runner s t \<Longrightarrow>
     reached em now random ax runner t"

lemma wp_Inr: "wp m Q E s \<Longrightarrow> m s = (Inr x, t) \<Longrightarrow> Q x t"
  by (simp add: wp_def)

lemma wp_Inl: "wp m Q E s \<Longrightarrow> m s = (Inl e, t) \<Longrightarrow> E e t"
  by (simp add: wp_def)

lemma guest_step_ok: "guest_step em now random ax runner s t \<Longrightarrow> processes_ok s \<Longrightarrow> processes_ok t"
proof (induction rule: guest_step.induct)
  case (step_call s c r t)
  then show ?case using wp_Inr [OF safe_wasix_import step_call(2)] by simp
next
  case (step_turn s t)
  then show ?case using wp_Inr [OF wp_finishContinuationTurn step_turn(1)] by simp
next
  case (step_exec s c request t b u)
  then have t: "processes_ok t \<and> wx_unwind t = None"
    using wp_Inl [OF safe_wasix_import step_exec(2)] by simp
  have "wp (bindM (runProcessExec em request) (completeActiveVforkChild ax)) (\<lambda>_. processes_ok) (\<lambda>_ _. True) t"
    unfolding wp_bind
    by (rule wp_frames [OF frames_runProcessExec]) (auto intro!: wp_completeActiveVforkChild ready_px [OF t])
  from wp_Inr [OF this step_exec(4)] show ?case .
qed

lemma reached_processes_ok: "reached em now random ax runner s \<Longrightarrow> processes_ok s"
  by (induction rule: reached.induct) (auto intro: processes_ok_new guest_step_ok)

end
