(* ===== verification/Wasix_Properties.thy ===== *)
theory Wasix_Properties imports Wasix_Process begin

text \<open>
  What the process calls of a WASIX guest do, seen by the guest: \<open>proc_join\<close> reports the exit code
  of a child and forgets it, \<open>proc_fork\<close> returns twice, and the numbers a copied child hands out.
\<close>

section \<open>Joining\<close>

lemma exited_child:
  assumes "processes_ok s" "wx_unwind s = None" "(k, p) \<in> set (wx_processes s)" "pr_parentPid p = wx_current s"
  shows "pr_state p = Exited"
  using assms by (cases "pr_state p")
    (auto simp: processes_ok_def px_def process_ok_def in_progress_def split: option.splits if_splits)

lemma find_None: "find P xs = None \<longleftrightarrow> (\<forall>x \<in> set xs. \<not> P x)"
  by (auto simp: find_None_iff)

lemma find_in: "find P xs = Some x \<Longrightarrow> x \<in> set xs \<and> P x"
  by (induction xs) (auto split: if_splits)

lemma findExitedChild_in: "findExitedChild s c = Some p \<Longrightarrow> \<exists>k. (k, p) \<in> set (wx_processes s) \<and> pr_parentPid p = c"
  unfolding findExitedChild_def by (drule find_in) auto

lemma child_found:
  assumes "processes_ok s" "wx_unwind s = None" "hasChildProcess s (wx_current s)"
  shows "findExitedChild s (wx_current s) \<noteq> None"
proof -
  obtain k p where p: "(k, p) \<in> set (wx_processes s)" "pr_parentPid p = wx_current s"
    using assms(3) by (auto simp: hasChildProcess_def list_ex_iff)
  then have "pr_state p = Exited" "p \<in> set (map snd (wx_processes s))"
    using exited_child [OF assms(1,2)] by force+
  with p(2) show ?thesis by (auto simp: findExitedChild_def find_None)
qed

lemma process_in: "processRecord s k = Some p \<Longrightarrow> (js_u32 k, p) \<in> set (wx_processes s)"
  by (simp add: processRecord_def map_of_SomeD)

lemma wp_no_errno:
  assumes "processes_ok s" "wx_unwind s = None"
  shows "wp (procJoin p flags q) (\<lambda>r _. r \<noteq> ERRNO_NOTSUP) (\<lambda>_ _. True) s"
proof -
  have same: "hasChildProcess (s\<lparr>wx_host := h\<rparr>) c = hasChildProcess s c" "findExitedChild (s\<lparr>wx_host := h\<rparr>) c = findExitedChild s c"
    "processRecord (s\<lparr>wx_host := h\<rparr>) k = processRecord s k" for h c k
    by (simp_all add: hasChildProcess_def findExitedChild_def processRecord_def)
  show ?thesis
    using child_found [OF assms] exited_child [OF assms process_in]
    by (auto simp: procJoin_def answer_join_def wp_simps Let_def same writeJoinedChild_def reapProcess_def intro!: wp_on_host split: option.splits)
qed

text \<open>
  In a run that starts with a new process table \<open>proc_join\<close> never has to wait: when the guest may make a call,
  all its children have ended, so the answer \<open>NOTSUP\<close> for a running child is never given. (A copied
  child that has made a vfork is its own running parent, \<open>copied_child_reuses_pid\<close>, and does get it.)
\<close>

theorem join_never_blocks:
  assumes "reached em now random ax runner s" "wx_unwind s = None" "procJoin p flags q s = (Inr r, t)"
  shows "r \<noteq> ERRNO_NOTSUP"
  using wp_Inr [OF wp_no_errno [OF reached_processes_ok [OF assms(1)] assms(2)] assms(3)] .

text \<open>The two records of the answer, as bytes.\<close>

definition option_pid_bytes :: "int \<Rightarrow> int \<Rightarrow> byte list" where
  "option_pid_bytes tag pid = le_bytes 1 tag @ [0, 0, 0] @ le_bytes 4 (js_u32 pid)"

definition join_status_bytes :: "int \<Rightarrow> int \<Rightarrow> byte list" where
  "join_status_bytes tag code = le_bytes 1 tag @ [0] @ le_bytes 2 code @ [0, 0]"

lemma length_answers [simp]: "length (option_pid_bytes tag pid) = 8" "length (join_status_bytes tag code) = 6"
  by (simp_all add: option_pid_bytes_def join_status_bytes_def)

lemma zero_bytes: "le_bytes 1 0 = [0]" "le_bytes 2 0 = [0, 0]"
  by (simp_all add: numeral_2_eq_2)

lemma store_store: "q = p + int (length xs) \<Longrightarrow> mem_store (mem_store m p xs) q ys = mem_store m p (xs @ ys)"
  by (simp add: mem_store_append)

lemma writeWasixOptionPid_run:
  assumes "0 \<le> p" "p + 8 \<le> mem_size (memory s)"
  shows "writeWasixOptionPid p tag pid s = (Inr (), s\<lparr>memory := mem_store (memory s) p (option_pid_bytes tag pid)\<rparr>)"
  using assms
  by (simp add: writeWasixOptionPid_def memory_access_defs set_memory_within run_seq zero_bytes store_store option_pid_bytes_def)

lemma join_status_run:
  assumes "0 \<le> p" "p + 6 \<le> mem_size (memory s)"
  shows "writeWasixJoinStatusNothing p s = (Inr (), s\<lparr>memory := mem_store (memory s) p (join_status_bytes 0 0)\<rparr>)"
    "writeWasixJoinStatusExitNormal p code s = (Inr (), s\<lparr>memory := mem_store (memory s) p (join_status_bytes 1 (code AND 0xffff))\<rparr>)"
  using assms
  by (simp_all add: writeWasixJoinStatusNothing_def writeWasixJoinStatusExitNormal_def memory_access_defs set_memory_within
      run_seq zero_bytes store_store join_status_bytes_def)

lemma on_host_run [simp]: "m (wx_host s) = (Inr x, h) \<Longrightarrow> on_host m s = (Inr x, s\<lparr>wx_host := h\<rparr>)"
  by (simp add: on_host_def)

text \<open>The child a call of \<open>proc_join\<close> finds: any that has ended, or the one asked for.\<close>

definition asks_for :: "'m wasix \<Rightarrow> int \<Rightarrow> process \<Rightarrow> bool" where
  "asks_for s p child \<longleftrightarrow> (let m = memory (wx_host s) in
     guest.read_int m p 1 = Some 0 \<and> findExitedChild s (wx_current s) = Some child \<or>
     guest.read_int m p 1 = Some 1 \<and> pr_parentPid child = wx_current s \<and>
       processRecord s (the (guest.read_int m (p + 4) 4)) = Some child)"

definition join_args :: "'m wasix \<Rightarrow> int \<Rightarrow> int \<Rightarrow> int \<Rightarrow> bool" where
  "join_args s p flags q \<longleftrightarrow> \<not> aborted (wx_host s) \<and> js_u32 p + 8 \<le> mem_size (memory (wx_host s)) \<and>
     js_u32 q + 6 \<le> mem_size (memory (wx_host s)) \<and> apart (js_u32 p) 8 (js_u32 q) 6 \<and>
     js_u32 flags AND NOT PROC_JOIN_NON_BLOCKING = 0"

lemma asks_for_child:
  assumes "processes_ok s" "wx_unwind s = None" "asks_for s p child"
  shows "pr_state child = Exited" "map_of (wx_processes s) (pr_pid child) = Some child" "pr_pid child \<noteq> ROOT_PID"
proof -
  have keys: "distinct (map_keys (wx_processes s))"
    and all: "\<And>k p. (k, p) \<in> set (wx_processes s) \<Longrightarrow> pr_pid p = k \<and> (k = ROOT_PID \<longrightarrow> pr_parentPid p = ROOT_PARENT_PID)"
    and current: "1 \<le> wx_current s"
    using assms(1) by (auto simp: processes_ok_def px_def process_ok_def split: option.splits if_splits dest!: bspec)
  obtain k where k: "(k, child) \<in> set (wx_processes s)" "pr_parentPid child = wx_current s"
    using assms(3) unfolding asks_for_def Let_def by (elim disjE conjE) (blast dest: process_in findExitedChild_in)+
  show "pr_state child = Exited" using exited_child [OF assms(1,2) k] .
  show "map_of (wx_processes s) (pr_pid child) = Some child" using map_of_is_SomeI [OF keys k(1)] all [OF k(1)] by simp
  show "pr_pid child \<noteq> ROOT_PID" using k all [OF k(1)] current by auto
qed

lemma processRecord_delete:
  "processRecord (s\<lparr>wx_processes := AList.delete pid ps\<rparr>) k = (if js_u32 k = pid then None else map_of ps (js_u32 k))"
  by (simp add: processRecord_def)

lemma writeJoinedChild_run:
  assumes "0 \<le> p" "p + 8 \<le> mem_size (memory (wx_host s))" "0 \<le> q" "q + 6 \<le> mem_size (memory (wx_host s))"
    and "pr_pid child \<noteq> ROOT_PID"
  shows "writeJoinedChild p q child s = (Inr (), s\<lparr>wx_host := (wx_host s)\<lparr>memory :=
       mem_store (mem_store (memory (wx_host s)) p (option_pid_bytes 1 (pr_pid child))) q
         (join_status_bytes 1 ((case pr_exitCode child of None \<Rightarrow> 0 | Some c \<Rightarrow> c) AND 0xffff))\<rparr>,
       wx_processes := AList.delete (pr_pid child) (wx_processes s)\<rparr>)"
  using assms by (simp add: writeJoinedChild_def run_seq writeWasixOptionPid_run join_status_run reapProcess_def)

lemma canReadWrite_within: "js_u32 p + n \<le> mem_size (memory s) \<Longrightarrow> 0 \<le> n \<Longrightarrow> n \<le> 4096 \<Longrightarrow> canReadWrite s (js_u32 p) n"
  using js_u32_range [of p] by (simp add: canReadWrite_def checkedMemoryRange_def js_u32_id max_safe_integer_def Let_def del: js_u32_range)

lemma join_prefix:
  assumes "join_args s p flags q" "guest.read_int (memory (wx_host s)) (js_u32 p) 1 = Some tag" "tag = 0 \<or> tag = 1"
  obtains k where "guest.read_int (memory (wx_host s)) (js_u32 p + 4) 4 = Some k"
    "procJoin p flags q s = answer_join s (js_u32 p) (js_u32 q) flags tag k
       (s\<lparr>wx_host := (wx_host s)\<lparr>memory := mem_store (mem_store (memory (wx_host s)) (js_u32 p) (option_pid_bytes 0 0))
          (js_u32 q) (join_status_bytes 0 0)\<rparr>\<rparr>)"
proof -
  let ?m = "memory (wx_host s)"
  have in_range: "\<not> aborted (wx_host s)" "js_u32 p + 8 \<le> mem_size ?m" "js_u32 q + 6 \<le> mem_size ?m"
    "js_u32 flags AND NOT PROC_JOIN_NON_BLOCKING = 0" using assms(1) by (simp_all add: join_args_def)
  then obtain k where k: "guest.read_int ?m (js_u32 p + 4) 4 = Some k"
    using guest.read_bounds [of ?m "js_u32 p + 4" 4] by (auto simp: guest.read_int_def)
  have "on_host throwIfAborted s = (Inr (), s)" "on_host (readU8 (js_u32 p)) s = (Inr tag, s)"
    "on_host (readU32 (js_u32 p + 4)) s = (Inr k, s)"
    using in_range k assms(2) by (simp_all add: throwIfAborted_def readU8_def readU32_read get_int_read)
  moreover have "canReadWrite (wx_host s) (js_u32 p) 8" "canReadWrite (wx_host s) (js_u32 q) 6"
    using in_range by (simp_all add: canReadWrite_within)
  ultimately show thesis using assms(3) in_range k
    by (intro that [of k]) (auto simp: procJoin_def run_seq run_bind Let_def writeWasixOptionPid_run join_status_run)
qed

definition exit_code :: "process \<Rightarrow> int" where
  "exit_code p = (case pr_exitCode p of None \<Rightarrow> 0 | Some c \<Rightarrow> c)"

lemma answers_stored:
  assumes "0 \<le> p" "p + 8 \<le> mem_size m" "0 \<le> q" "q + 6 \<le> mem_size m" "apart p 8 q 6" "length xs = 8" "length ys = 6"
  shows "get_bytes (mem_store (mem_store m p xs) q ys) p 8 = Some xs" "get_bytes (mem_store (mem_store m p xs) q ys) q 6 = Some ys"
  using assms mem_load_frame [of p 8 q ys "mem_store m p xs"] mem_load_store [of m p xs] mem_load_store [of "mem_store m p xs" q ys]
  by (simp_all add: get_bytes_def apart_def)

lemma procJoin_run:
  assumes args: "join_args s p flags q" and ok: "processes_ok s" "wx_unwind s = None" and asks: "asks_for s (js_u32 p) child"
  obtains m where "mem_size m = mem_size (memory (wx_host s))"
    "procJoin p flags q s = seqM (writeJoinedChild (js_u32 p) (js_u32 q) child) (ret ERRNO_SUCCESS) (s\<lparr>wx_host := (wx_host s)\<lparr>memory := m\<rparr>\<rparr>)"
proof -
  let ?m = "memory (wx_host s)"
  let ?n = "mem_store (mem_store ?m (js_u32 p) (option_pid_bytes 0 0)) (js_u32 q) (join_status_bytes 0 0)"
  note child = asks_for_child [OF ok asks]
  consider (some_child) "guest.read_int ?m (js_u32 p) 1 = Some 0" "findExitedChild s (wx_current s) = Some child"
    | (this_child) "guest.read_int ?m (js_u32 p) 1 = Some 1" "pr_parentPid child = wx_current s"
      "processRecord s (the (guest.read_int ?m (js_u32 p + 4) 4)) = Some child"
    using asks unfolding asks_for_def Let_def by blast
  then show thesis
  proof cases
    case some_child
    show thesis
      by (rule join_prefix [OF args some_child(1)]) (simp_all add: answer_join_def some_child that [of ?n])
  next
    case this_child
    show thesis
    proof (rule join_prefix [OF args this_child(1)])
      fix k assume k: "guest.read_int ?m (js_u32 p + 4) 4 = Some k"
      have "js_u32 p + 8 \<le> mem_size ?n" using args by (simp add: join_args_def)
      moreover assume "procJoin p flags q s = answer_join s (js_u32 p) (js_u32 q) flags 1 k
            (s\<lparr>wx_host := (wx_host s)\<lparr>memory := ?n\<rparr>\<rparr>)"
      ultimately show thesis
        using this_child(2,3) k child(1)
        by (intro that [of "mem_store ?n (js_u32 p) (option_pid_bytes 1 (pr_pid child))"])
          (simp_all add: answer_join_def run_seq writeWasixOptionPid_run)
    qed simp
  qed
qed

lemma processes_ok_host_table [simp]:
  "processes_ok (wx_processes_update f (wx_host_update g s)) = processes_ok (wx_processes_update f s)"
  by (simp add: processes_ok_def px_def)

text \<open>
  C38: Joining a child reports it once: \<open>proc_join\<close>, for any child that has ended or for the one it names,
  writes the number of the child and its exit code modulo \<open>2 ^ 16\<close> in the layout of the ABI, and takes
  the child, and no other process, out of the table.
\<close>

theorem join_reaps:
  assumes "join_args s p flags q" "processes_ok s" "wx_unwind s = None" "asks_for s (js_u32 p) child"
  shows "\<exists>t. procJoin p flags q s = (Inr ERRNO_SUCCESS, t) \<and>
    get_bytes (memory (wx_host t)) (js_u32 p) 8 = Some (option_pid_bytes 1 (pr_pid child)) \<and>
    get_bytes (memory (wx_host t)) (js_u32 q) 6 = Some (join_status_bytes 1 (exit_code child mod 65536)) \<and>
    wx_processes t = AList.delete (pr_pid child) (wx_processes s) \<and> processes_ok t"
proof -
  obtain m where m: "mem_size m = mem_size (memory (wx_host s))"
    "procJoin p flags q s = seqM (writeJoinedChild (js_u32 p) (js_u32 q) child) (ret ERRNO_SUCCESS) (s\<lparr>wx_host := (wx_host s)\<lparr>memory := m\<rparr>\<rparr>)"
    using procJoin_run [OF assms] by blast
  have code: "exit_code child AND 0xffff = exit_code child mod 65536"
    using take_bit_eq_mask [of 16 "exit_code child"] by (simp add: take_bit_eq_mod mask_eq_exp_minus_1)
  have "js_u32 p + 8 \<le> mem_size m" "js_u32 q + 6 \<le> mem_size m" "apart (js_u32 p) 8 (js_u32 q) 6"
    using assms(1) m(1) by (simp_all add: join_args_def)
  then show ?thesis
    unfolding m(2) using asks_for_child(3) [OF assms(2-4)] reap_ok [OF assms(2), of "pr_pid child"]
    by (simp add: run_seq writeJoinedChild_run answers_stored code [unfolded exit_code_def] exit_code_def)
qed

end
