(* ===== verification/Wasix_Fork.thy ===== *)
theory Wasix_Fork imports Wasix_Properties begin

text \<open>
  Forking: \<open>proc_fork\<close> returns twice, first in the child and, when the child has ended, in the parent.
  Between the calls the guest runs compiled code: it saves its stack into the continuation buffer
  while it unwinds, and restores it while it rewinds. \<open>guest_runs m M\<close> is any such stretch: it leaves
  the instance in the state \<open>m\<close> and the memory with the contents \<open>M\<close>, and makes no call.
\<close>

section \<open>The continuation buffer\<close>

definition bounds_in :: "int \<Rightarrow> stack_bounds \<Rightarrow> bool" where
  "bounds_in n b \<longleftrightarrow> 0 \<le> sb_dataPtr b \<and> sb_dataPtr b + 8 = sb_dataStart b \<and> sb_dataStart b < sb_dataEnd b \<and> sb_dataEnd b \<le> n"

text \<open>
  Whatever a module exports, the buffer the host chooses for its stack lies inside the memory, eight
  bytes for the two pointers followed by room for the stack.
\<close>

theorem stack_bounds_in_memory:
  "case cap_stackBounds (wasixContinuationCapabilities functions low high n) of None \<Rightarrow> True | Some b \<Rightarrow> bounds_in n b"
  by (auto simp: wasixContinuationCapabilities_def Let_def exportedI32Global_def validateAsyncifyStackBounds_def
      fallbackAsyncifyStackBounds_def checkedMemoryRange_def bounds_in_def split: option.splits if_splits)

definition guest_at :: "'m \<Rightarrow> mem \<Rightarrow> 'm wasix \<Rightarrow> 'm wasix" where
  "guest_at m M s = s\<lparr>wx_module := m, wx_host := (wx_host s)\<lparr>memory := M\<rparr>\<rparr>"

definition guest_runs :: "'m \<Rightarrow> mem \<Rightarrow> ('m, unit) wx" where
  "guest_runs m M = modifyM (guest_at m M)"

lemma guest_at_simps [simp]:
  "guest_at m M (guest_at m' M' s) = guest_at m M s" "memory (wx_host (guest_at m M s)) = M" "wx_module (guest_at m M s) = m"
  "wx_caps (guest_at m M s) = wx_caps s" "aborted (wx_host (guest_at m M s)) = aborted (wx_host s)"
  "wx_unwind (guest_at m M s) = wx_unwind s" "wx_forkRewind (guest_at m M s) = wx_forkRewind s"
  "wx_current (guest_at m M s) = wx_current s" "wx_next (guest_at m M s) = wx_next s"
  "wx_processes (guest_at m M s) = wx_processes s" "wx_vfork (guest_at m M s) = wx_vfork s"
  "px (guest_at m M s) = px s"
  by (simp_all add: guest_at_def px_def)

lemma guest_at_update [simp]:
  "wx_unwind_update f (guest_at m M s) = guest_at m M (wx_unwind_update f s)"
  "wx_vfork_update g (guest_at m M s) = guest_at m M (wx_vfork_update g s)"
  "wx_forkRewind_update h (guest_at m M s) = guest_at m M (wx_forkRewind_update h s)"
  "wx_current_update k (guest_at m M s) = guest_at m M (wx_current_update k s)"
  "wx_processes_update ps (guest_at m M s) = guest_at m M (wx_processes_update ps s)"
  by (simp_all add: guest_at_def)

lemma guest_at_same [simp]: "guest_at (wx_module s) (memory (wx_host s)) s = s"
  by (simp add: guest_at_def)

definition can_continue :: "'m wasix \<Rightarrow> stack_bounds \<Rightarrow> bool" where
  "can_continue s b \<longleftrightarrow> \<not> aborted (wx_host s) \<and> cap_asyncifyExports (wx_caps s) \<and> cap_stackBounds (wx_caps s) = Some b \<and>
     bounds_in (mem_size (memory (wx_host s))) b \<and> sb_dataEnd b < 4294967296"

lemma can_continue_guest_at [simp]:
  "mem_size M = mem_size (memory (wx_host s)) \<Longrightarrow> can_continue (guest_at m M s) b = can_continue s b"
  by (simp add: can_continue_def)

lemma add_child_fields [simp]:
  "wx_module (add_child f s) = wx_module s" "wx_host (add_child f s) = wx_host s" "wx_caps (add_child f s) = wx_caps s"
  "wx_current (add_child f s) = wx_current s"
  by (simp_all add: add_child_def)

lemma can_continue_support: "can_continue s b \<Longrightarrow> hasStackContinuationSupport s"
  by (simp add: can_continue_def hasStackContinuationSupport_def)

text \<open>The guest has unwound: asyncify says so, and the end of the saved stack is inside the buffer.\<close>

definition unwound :: "'m asyncify \<Rightarrow> stack_bounds \<Rightarrow> 'm \<Rightarrow> mem \<Rightarrow> bool" where
  "unwound ax b m M \<longleftrightarrow> ax_get_state ax m = ASYNCIFY_STATE_UNWINDING \<and>
     (case guest.read_int M (sb_dataPtr b) 4 of None \<Rightarrow> False | Some e \<Rightarrow> sb_dataStart b \<le> e \<and> e \<le> sb_dataEnd b)"

lemma on_host_write:
  "0 \<le> p \<Longrightarrow> p + 4 \<le> mem_size (memory (wx_host s)) \<Longrightarrow>
   on_host (writeU32 p v) s = (Inr (), guest_at (wx_module s) (mem_store (memory (wx_host s)) p (le_bytes 4 (js_u32 v))) s)"
  by (simp add: guest_at_def writeU32_run)

lemma on_host_set:
  "0 \<le> p \<Longrightarrow> p + int (length bs) \<le> mem_size (memory (wx_host s)) \<Longrightarrow>
   on_host (set_memory p bs) s = (Inr (), guest_at (wx_module s) (mem_store (memory (wx_host s)) p bs) s)"
  by (simp add: guest_at_def set_memory_within)

lemma on_module_run [simp]: "on_module f s = (Inr (), guest_at (f (wx_module s)) (memory (wx_host s)) s)"
  by (simp add: on_module_def guest_at_def)

definition set_pointers :: "stack_bounds \<Rightarrow> int \<Rightarrow> mem \<Rightarrow> mem" where
  "set_pointers b e M =
     mem_store (mem_store M (sb_dataPtr b) (le_bytes 4 (js_u32 e))) (sb_dataPtr b + 4) (le_bytes 4 (js_u32 (sb_dataEnd b)))"

lemma mem_size_set_pointers [simp]: "mem_size (set_pointers b e M) = mem_size M"
  by (simp add: set_pointers_def)

lemma startAsyncifyUnwind_run:
  "can_continue s b \<Longrightarrow> startAsyncifyUnwind ax s =
     (Inr (), guest_at (ax_start_unwind ax (sb_dataPtr b) (wx_module s)) (set_pointers b (sb_dataStart b) (memory (wx_host s))) s)"
  by (simp add: startAsyncifyUnwind_def requireStackContinuationBounds_def run_bind run_seq on_host_write can_continue_def
      bounds_in_def set_pointers_def)

lemma finishAsyncifyUnwind_run:
  assumes "can_continue s b" "unwound ax b (wx_module s) (memory (wx_host s))"
  obtains bs where "sb_dataStart b + int (length bs) \<le> sb_dataEnd b"
    "finishAsyncifyUnwind ax s = (Inr bs, guest_at (ax_stop_unwind ax (wx_module s)) (memory (wx_host s)) s)"
proof -
  obtain e where e: "guest.read_int (memory (wx_host s)) (sb_dataPtr b) 4 = Some e" "sb_dataStart b \<le> e" "e \<le> sb_dataEnd b"
    using assms(2) by (auto simp: unwound_def split: option.splits)
  show thesis
  proof (rule that)
    show "sb_dataStart b + int (length (mem_slice (memory (wx_host s)) (sb_dataStart b) e)) \<le> sb_dataEnd b"
      using e assms(1) by (auto simp: mem_slice_def js_index_def Let_def can_continue_def bounds_in_def)
    show "finishAsyncifyUnwind ax s = (Inr (mem_slice (memory (wx_host s)) (sb_dataStart b) e),
        guest_at (ax_stop_unwind ax (wx_module s)) (memory (wx_host s)) s)"
      using e assms(1)
      by (simp add: finishAsyncifyUnwind_def requireStackContinuationBounds_def run_bind run_seq can_continue_def readU32_read)
  qed
qed

lemma beginForkRewind_run:
  assumes "can_continue s b" "sb_dataStart b + int (length (fk_rewindStack fr)) \<le> sb_dataEnd b"
  shows "beginForkRewind ax fr pid e q s =
     (Inr (), guest_at (ax_start_rewind ax (sb_dataPtr b) (wx_module s))
        (set_pointers b (sb_dataStart b + int (length (fk_rewindStack fr)))
           (mem_store (memory (wx_host s)) (sb_dataStart b) (fk_rewindStack fr)))
        (s\<lparr>wx_forkRewind := Some \<lparr>fr_errno = e, fr_pid = pid, fr_processId = q\<rparr>, wx_current := q\<rparr>))"
  using assms
  by (simp add: beginForkRewind_def place_rewind_stack_def requireStackContinuationBounds_def run_bind run_seq on_host_write
      on_host_set can_continue_def bounds_in_def set_pointers_def)

section \<open>Returning twice\<close>

text \<open>The guest unwinds to \<open>(m\<^sub>1, M\<^sub>1)\<close>, the turn ends, the guest rewinds to \<open>(m\<^sub>2, M\<^sub>2)\<close>.\<close>

definition through_host ::
  "(string \<Rightarrow> string \<Rightarrow> int) \<Rightarrow> 'm asyncify \<Rightarrow> 'm fork_runner \<Rightarrow> 'm \<times> mem \<Rightarrow> 'm \<times> mem \<Rightarrow> ('m, unit) wx" where
  "through_host collate ax runner g1 g2 =
     seqM (guest_runs (fst g1) (snd g1)) (seqM (finishContinuationTurn collate ax runner) (guest_runs (fst g2) (snd g2)))"

definition good_stretch :: "'m asyncify \<Rightarrow> stack_bounds \<Rightarrow> int \<Rightarrow> 'm \<times> mem \<Rightarrow> 'm \<times> mem \<Rightarrow> bool" where
  "good_stretch ax b n g1 g2 \<longleftrightarrow> unwound ax b (fst g1) (snd g1) \<and> mem_size (snd g1) = n \<and> mem_size (snd g2) = n"

lemma can_continue_fields [simp]:
  "can_continue (s\<lparr>wx_unwind := u\<rparr>) b = can_continue s b" "can_continue (s\<lparr>wx_vfork := v\<rparr>) b = can_continue s b"
  "can_continue (s\<lparr>wx_processes := ps\<rparr>) b = can_continue s b" "can_continue (add_child action s) b = can_continue s b"
  "can_continue (s\<lparr>wx_forkRewind := f\<rparr>) b = can_continue s b" "can_continue (s\<lparr>wx_current := q\<rparr>) b = can_continue s b"
  "can_continue (s\<lparr>wx_next := k\<rparr>) b = can_continue s b"
  by (simp_all add: can_continue_def add_child_def)

lemma through_host_run:
  assumes good: "good_stretch ax b n g1 g2" and s: "can_continue s b" "mem_size (memory (wx_host s)) = n" "wx_unwind s = Some action"
  obtains bs where "sb_dataStart b + int (length bs) \<le> sb_dataEnd b"
    "\<forall>t. finish_action collate ax runner action bs
         (guest_at (ax_stop_unwind ax (fst g1)) (snd g1) (s\<lparr>wx_unwind := None\<rparr>)) = (Inr (), t) \<longrightarrow>
       through_host collate ax runner g1 g2 s = (Inr (), guest_at (fst g2) (snd g2) t)"
proof -
  let ?u = "guest_at (fst g1) (snd g1) (s\<lparr>wx_unwind := None\<rparr>)"
  have u: "can_continue ?u b" "unwound ax b (wx_module ?u) (memory (wx_host ?u))"
    using good s by (simp_all add: good_stretch_def)
  obtain bs where bs: "sb_dataStart b + int (length bs) \<le> sb_dataEnd b"
    "finishAsyncifyUnwind ax ?u = (Inr bs, guest_at (ax_stop_unwind ax (wx_module ?u)) (memory (wx_host ?u)) ?u)"
    using finishAsyncifyUnwind_run [OF u] by blast
  show thesis
  proof (rule that [OF bs(1)], intro allI impI)
    fix t assume "finish_action collate ax runner action bs
        (guest_at (ax_stop_unwind ax (fst g1)) (snd g1) (s\<lparr>wx_unwind := None\<rparr>)) = (Inr (), t)"
    with bs(2) good s show "through_host collate ax runner g1 g2 s = (Inr (), guest_at (fst g2) (snd g2) t)"
      by (simp add: through_host_def run_seq run_bind guest_runs_def finishContinuationTurn_def good_stretch_def unwound_def)
  qed
qed

lemma throwIfAborted_run: "can_continue s b \<Longrightarrow> on_host throwIfAborted s = (Inr (), s)"
  by (simp add: can_continue_def throwIfAborted_def)

lemma procFork_begin:
  assumes "can_continue s b" "js_u32 p + 4 \<le> mem_size (memory (wx_host s))" "wx_forkRewind s = None" "wx_vfork s = None"
  shows "procFork ax 0 p s = (Inr ERRNO_SUCCESS,
     guest_at (ax_start_unwind ax (sb_dataPtr b) (wx_module s)) (set_pointers b (sb_dataStart b) (memory (wx_host s)))
       (add_child (\<lambda>c q. VforkChild c q (js_u32 p)) s))"
  using assms throwIfAborted_run [OF assms(1)] can_continue_support [OF assms(1)]
  by (simp add: procFork_def run_seq run_bind Let_def canReadWrite_within finishForkRewind_def js_u32_def [of 0] beginVfork_def
      startAsyncifyUnwind_run [of _ b])

lemma procFork_end:
  assumes "can_continue s b" "js_u32 p + 4 \<le> mem_size (memory (wx_host s))" "wx_forkRewind s = Some r"
  shows "procFork ax copyMemory p s = (Inr (fr_errno r),
     guest_at (ax_stop_rewind ax (wx_module s)) (mem_store (memory (wx_host s)) (js_u32 p) (le_bytes 4 (js_u32 (fr_pid r))))
       (s\<lparr>wx_forkRewind := None, wx_current := fr_processId r\<rparr>))"
  using assms throwIfAborted_run [OF assms(1)]
  by (simp add: procFork_def run_seq run_bind Let_def canReadWrite_within finishForkRewind_def on_host_write)

lemma fork_result_read:
  "js_u32 p + 4 \<le> mem_size M \<Longrightarrow> guest.read_int (mem_store M (js_u32 p) (le_bytes 4 (js_u32 v))) (js_u32 p) 4 = Some (js_u32 v)"
  using guest.read_int_written [of M "js_u32 p" 4 "js_u32 v"]
  by (simp add: guest.write_int_def set_bytes_def js_u32_def)

text \<open>A process that runs as the active vfork child of another.\<close>

definition runs_as_child :: "stack_bounds \<Rightarrow> 'm wasix \<Rightarrow> int \<Rightarrow> int \<Rightarrow> bool" where
  "runs_as_child b s child parent \<longleftrightarrow> wx_current s = child \<and> wx_unwind s = None \<and>
     (\<exists>v. wx_vfork s = Some v \<and> vf_childPid v = child \<and> vf_parentPid v = parent \<and>
       sb_dataStart b + int (length (fk_rewindStack (vf_forkRecord v))) \<le> sb_dataEnd b) \<and>
     (\<exists>p. map_of (wx_processes s) child = Some p \<and> pr_parentPid p = parent \<and> pr_state p = Running)"

lemma vfork_child_first:
  assumes "can_continue s b" "js_u32 p + 4 \<le> mem_size (memory (wx_host s))"
    and "wx_forkRewind s = None" "wx_vfork s = None" "good_stretch ax b (mem_size (memory (wx_host s))) g1 g2"
  shows "\<exists>t. seqM (procFork ax 0 p) (seqM (through_host collate ax runner g1 g2) (procFork ax copyMemory p)) s = (Inr ERRNO_SUCCESS, t) \<and>
    guest.read_int (memory (wx_host t)) (js_u32 p) 4 = Some 0 \<and> runs_as_child b t (wx_next s) (wx_current s) \<and>
    can_continue t b \<and> mem_size (memory (wx_host t)) = mem_size (memory (wx_host s))"
proof -
  let ?n = "mem_size (memory (wx_host s))" and ?c = "wx_next s" and ?q = "wx_current s"
  let ?s1 = "guest_at (ax_start_unwind ax (sb_dataPtr b) (wx_module s)) (set_pointers b (sb_dataStart b) (memory (wx_host s)))
       (add_child (\<lambda>c q. VforkChild c q (js_u32 p)) s)"
  have s1: "can_continue ?s1 b" "mem_size (memory (wx_host ?s1)) = ?n" "wx_unwind ?s1 = Some (VforkChild ?c ?q (js_u32 p))"
    using assms(1) by (simp_all add: add_child_def)
  obtain bs where bs: "sb_dataStart b + int (length bs) \<le> sb_dataEnd b"
    and turn: "\<forall>t. finish_action collate ax runner (VforkChild ?c ?q (js_u32 p)) bs
         (guest_at (ax_stop_unwind ax (fst g1)) (snd g1) (?s1\<lparr>wx_unwind := None\<rparr>)) = (Inr (), t) \<longrightarrow>
       through_host collate ax runner g1 g2 ?s1 = (Inr (), guest_at (fst g2) (snd g2) t)"
    using through_host_run [OF assms(5) s1, of collate runner] by blast
  let ?fr = "\<lparr>fk_childPid = ?c, fk_parentPid = ?q, fk_pidPtr = js_u32 p, fk_rewindStack = bs\<rparr>"
  let ?v = "\<lparr>vf_childPid = ?c, vf_forkRecord = ?fr, vf_parentPid = ?q\<rparr>"
  let ?s2 = "guest_at (ax_stop_unwind ax (fst g1)) (snd g1) (?s1\<lparr>wx_unwind := None, wx_vfork := Some ?v\<rparr>)"
  let ?rewind = "Some \<lparr>fr_errno = ERRNO_SUCCESS, fr_pid = 0, fr_processId = ?c\<rparr>"
  have s2: "can_continue ?s2 b"
    using assms(1,5) by (simp add: good_stretch_def)
  let ?m = "ax_start_rewind ax (sb_dataPtr b) (ax_stop_unwind ax (fst g1))"
  let ?M = "set_pointers b (sb_dataStart b + int (length bs)) (mem_store (snd g1) (sb_dataStart b) bs)"
  have M: "finish_action collate ax runner (VforkChild ?c ?q (js_u32 p)) bs
         (guest_at (ax_stop_unwind ax (fst g1)) (snd g1) (?s1\<lparr>wx_unwind := None\<rparr>)) =
       (Inr (), guest_at ?m ?M (?s2\<lparr>wx_forkRewind := ?rewind, wx_current := ?c\<rparr>))"
    using beginForkRewind_run [OF s2, of ?fr] bs by (simp add: finish_action_def Let_def run_seq)
  let ?s3 = "guest_at (fst g2) (snd g2) (?s2\<lparr>wx_forkRewind := ?rewind, wx_current := ?c\<rparr>)"
  have s3: "can_continue ?s3 b" "js_u32 p + 4 \<le> mem_size (memory (wx_host ?s3))" "wx_forkRewind ?s3 = ?rewind"
    using s2 assms(1,2,5) by (simp_all add: good_stretch_def)
  show ?thesis
    using procFork_begin [OF assms(1-4)] turn [rule_format, OF M] procFork_end [OF s3] fork_result_read [of p "snd g2" 0] s3(2) bs assms(1,5)
    by (simp add: run_seq good_stretch_def runs_as_child_def add_child_def new_process_def js_u32_def [of 0])
qed

lemma procExit2_begin:
  assumes "can_continue s b" "runs_as_child b s child parent"
  shows "procExit2 ax code s = (Inr (),
     guest_at (ax_start_unwind ax (sb_dataPtr b) (wx_module s)) (set_pointers b (sb_dataStart b) (memory (wx_host s)))
       (s\<lparr>wx_processes := exited child (js_u32 code) (wx_processes s), wx_unwind := Some (VforkParent child)\<rparr>))"
  using assms throwIfAborted_run [OF assms(1)]
  by (auto simp: procExit2_def beginVforkChildExit_def run_seq run_bind runs_as_child_def markProcessExited_eq
      startAsyncifyUnwind_run [of _ b])

lemma vfork_parent_resumes:
  assumes "can_continue s b" "js_u32 p + 4 \<le> mem_size (memory (wx_host s))" "runs_as_child b s child parent"
    and "good_stretch ax b (mem_size (memory (wx_host s))) g1 g2"
  shows "\<exists>t c. seqM (procExit2 ax code) (seqM (through_host collate ax runner g1 g2) (procFork ax copyMemory p)) s = (Inr ERRNO_SUCCESS, t) \<and>
    guest.read_int (memory (wx_host t)) (js_u32 p) 4 = Some (js_u32 child) \<and> wx_current t = parent \<and> wx_vfork t = None \<and>
    map_of (wx_processes t) child = Some c \<and> pr_state c = Exited \<and> exit_code c = js_u32 code \<and> pr_parentPid c = parent"
proof -
  obtain v c where v: "wx_vfork s = Some v" "vf_childPid v = child" "vf_parentPid v = parent" "wx_current s = child"
      "sb_dataStart b + int (length (fk_rewindStack (vf_forkRecord v))) \<le> sb_dataEnd b"
    and c: "map_of (wx_processes s) child = Some c" "pr_parentPid c = parent"
    using assms(3) by (auto simp: runs_as_child_def)
  let ?s1 = "guest_at (ax_start_unwind ax (sb_dataPtr b) (wx_module s)) (set_pointers b (sb_dataStart b) (memory (wx_host s)))
       (s\<lparr>wx_processes := exited child (js_u32 code) (wx_processes s), wx_unwind := Some (VforkParent child)\<rparr>)"
  have s1: "can_continue ?s1 b" "mem_size (memory (wx_host ?s1)) = mem_size (memory (wx_host s))" "wx_unwind ?s1 = Some (VforkParent child)"
    using assms(1) by simp_all
  obtain bs where turn: "\<forall>t. finish_action collate ax runner (VforkParent child) bs
         (guest_at (ax_stop_unwind ax (fst g1)) (snd g1) (?s1\<lparr>wx_unwind := None\<rparr>)) = (Inr (), t) \<longrightarrow>
       through_host collate ax runner g1 g2 ?s1 = (Inr (), guest_at (fst g2) (snd g2) t)"
    using through_host_run [OF assms(4) s1, of collate runner] by blast
  let ?stack = "fk_rewindStack (vf_forkRecord v)"
  let ?s2 = "guest_at (ax_stop_unwind ax (fst g1)) (snd g1) (?s1\<lparr>wx_unwind := None, wx_vfork := None\<rparr>)"
  let ?rewind = "Some \<lparr>fr_errno = ERRNO_SUCCESS, fr_pid = child, fr_processId = parent\<rparr>"
  let ?m = "ax_start_rewind ax (sb_dataPtr b) (ax_stop_unwind ax (fst g1))"
  let ?M = "set_pointers b (sb_dataStart b + int (length ?stack)) (mem_store (snd g1) (sb_dataStart b) ?stack)"
  have s2: "can_continue ?s2 b"
    using assms(1,4) by (simp add: good_stretch_def)
  have M: "finish_action collate ax runner (VforkParent child) bs
         (guest_at (ax_stop_unwind ax (fst g1)) (snd g1) (?s1\<lparr>wx_unwind := None\<rparr>)) =
       (Inr (), guest_at ?m ?M (?s2\<lparr>wx_forkRewind := ?rewind, wx_current := parent\<rparr>))"
    using beginForkRewind_run [OF s2 v(5), of ax child ERRNO_SUCCESS parent] v
    by (simp add: finish_action_def beginVforkParentRewind_def run_seq)
  let ?s3 = "guest_at (fst g2) (snd g2) (?s2\<lparr>wx_forkRewind := ?rewind, wx_current := parent\<rparr>)"
  have s3: "can_continue ?s3 b" "js_u32 p + 4 \<le> mem_size (memory (wx_host ?s3))" "wx_forkRewind ?s3 = ?rewind"
    using s2 assms(1,2,4) by (simp_all add: good_stretch_def)
  show ?thesis
    using procExit2_begin [OF assms(1,3)] turn [rule_format, OF M] procFork_end [OF s3] fork_result_read [of p "snd g2" child] s3(2) v c
    by (simp add: run_seq exited_def exit_code_def)
qed

text \<open>
  C36: \<open>proc_fork\<close> without a copy of the memory returns twice. First in the child: the call succeeds, the
  number it writes is 0, and the process that runs is a new one with the number the table had free, a
  child of the caller. Then, from any state in which that child runs, when it ends with \<open>proc_exit2\<close>, in
  the parent: the number written is the child's, no vfork is active, and the child has ended with the
  code it gave, modulo \<open>2 ^ 32\<close>.
\<close>

theorem vfork_returns_twice:
  assumes "can_continue s b" "js_u32 p + 4 \<le> n" "n = mem_size (memory (wx_host s))"
    and "wx_forkRewind s = None" "wx_vfork s = None" "good_stretch ax b n g1 g2" "good_stretch ax b n g3 g4"
  shows "\<exists>t. seqM (procFork ax 0 p) (seqM (through_host collate ax runner g1 g2) (procFork ax copyMemory p)) s = (Inr ERRNO_SUCCESS, t) \<and>
    guest.read_int (memory (wx_host t)) (js_u32 p) 4 = Some 0 \<and> runs_as_child b t (wx_next s) (wx_current s) \<and>
    can_continue t b \<and> mem_size (memory (wx_host t)) = n \<and>
    (\<forall>t'. can_continue t' b \<and> mem_size (memory (wx_host t')) = n \<and> runs_as_child b t' (wx_next s) (wx_current s) \<longrightarrow>
      (\<exists>u c. seqM (procExit2 ax code) (seqM (through_host collate ax runner g3 g4) (procFork ax copyMemory p)) t' = (Inr ERRNO_SUCCESS, u) \<and>
        guest.read_int (memory (wx_host u)) (js_u32 p) 4 = Some (js_u32 (wx_next s)) \<and> wx_current u = wx_current s \<and>
        wx_vfork u = None \<and> map_of (wx_processes u) (wx_next s) = Some c \<and> pr_state c = Exited \<and>
        exit_code c = js_u32 code \<and> pr_parentPid c = wx_current s))"
  using vfork_child_first [of s b p ax g1 g2 collate runner copyMemory] assms
    vfork_parent_resumes [of _ b p "wx_next s" "wx_current s" ax g3 g4 code collate runner copyMemory] by simp

section \<open>Turns\<close>

definition one_turn ::
  "(string \<Rightarrow> string \<Rightarrow> int) \<Rightarrow> 'm asyncify \<Rightarrow> 'm fork_runner \<Rightarrow> ('m, unit) wx \<Rightarrow> ('m, bool) wx" where
  "one_turn collate ax runner start =
     seqM (on_host throwIfAborted) (seqM start (seqM (on_host throwIfAborted) (finishContinuationTurn collate ax runner)))"

inductive turns ::
  "(string \<Rightarrow> string \<Rightarrow> int) \<Rightarrow> 'm asyncify \<Rightarrow> 'm fork_runner \<Rightarrow> ('m, unit) wx \<Rightarrow> nat \<Rightarrow> 'm wasix \<Rightarrow> 'm wasix \<Rightarrow> bool"
  for collate ax runner start where
  turns_0: "turns collate ax runner start 0 s s"
| turns_Suc: "one_turn collate ax runner start s = (Inr True, u) \<Longrightarrow> turns collate ax runner start n u t \<Longrightarrow>
     turns collate ax runner start (Suc n) s t"

inductive_cases turns_0E: "turns collate ax runner start 0 s t"
inductive_cases turns_SucE: "turns collate ax runner start (Suc n) s t"

lemma run_turns_Suc:
  "run_turns (Suc k) collate ax runner start s = (case one_turn collate ax runner start s of
     (Inl e, t) \<Rightarrow> (Inl e, t) | (Inr again, t) \<Rightarrow> if again then run_turns k collate ax runner start t else (Inr (), t))"
  by (simp add: one_turn_def run_seq run_bind split: prod.splits sum.splits)

lemma run_turns_iff:
  "run_turns k collate ax runner start s = (Inr (), u) \<longleftrightarrow>
     (\<exists>n < k. \<exists>t. turns collate ax runner start n s t \<and> one_turn collate ax runner start t = (Inr False, u))"
proof (induction k arbitrary: s)
  case (Suc k)
  have split: "(\<exists>n < Suc k. P n) \<longleftrightarrow> P 0 \<or> (\<exists>n < k. P (Suc n))" for P
    by (metis less_Suc_eq_0_disj)
  show ?case unfolding split run_turns_Suc
    by (auto simp: Suc intro: turns_0 turns_Suc elim!: turns_0E turns_SucE split: prod.splits sum.splits) blast
qed simp

text \<open>
  C39: The run of an entry point ends normally exactly when one of its first 64 turns ends without asking
  for another: every stack checkpoint, every restore and each half of a fork takes one turn.
\<close>

theorem run_within_turns:
  "runWasiEntrypoint collate ax runner start s = (Inr (), u) \<longleftrightarrow>
     (\<exists>n < 64. \<exists>t. turns collate ax runner start n s t \<and> one_turn collate ax runner start t = (Inr False, u))"
  unfolding runWasiEntrypoint_def by (rule run_turns_iff)

section \<open>The child of a copied fork\<close>

text \<open>
  C40: The runtime of a copied child counts its processes from 2 again: when the child is the first of the
  run, and so has the number 2 itself, a vfork in it gives its own number to the new process, which
  takes its place in the table and is its own parent.
\<close>

theorem copied_child_reuses_pid:
  assumes "s = copied_child h md parent fork" "cf_childPid fork = 2"
    and "can_continue s b" "js_u32 p + 4 \<le> mem_size (memory (wx_host s))"
  shows "\<exists>t. procFork ax 0 p s = (Inr ERRNO_SUCCESS, t) \<and> wx_current t = 2 \<and> wx_unwind t = Some (VforkChild 2 2 (js_u32 p)) \<and>
    map_of (wx_processes t) 2 = Some (new_process 2 2)"
  using procFork_begin [OF assms(3,4), of ax] assms(1,2)
  by (auto simp: copied_child_def new_wasix_def add_child_def)

text \<open>A command that such a vfork child starts ends the copied child: its parent does not go on.\<close>

lemma copied_child_exec_ends:
  assumes "runWasiEntrypoint (em_collate em) ax None start t = (Inl (ProcExec request), u)"
    and "beginForkRewind ax (cf_record fork) 0 ERRNO_SUCCESS (cf_childPid fork) s = (Inr (), t)"
    and "runProcessExec em request u = (Inr code, v)"
  shows "fst (run_copied_child em ax start fork s) = Inr (code, resultDiagnostics (em_collate em) v)"
  using assms by (simp add: run_copied_child_def run_seq)

section \<open>Concrete runs\<close>

definition example_asyncify :: "int asyncify" where
  "example_asyncify = \<lparr>ax_get_state = \<lambda>m. m, ax_start_rewind = \<lambda>p m. 2, ax_start_unwind = \<lambda>p m. 1,
     ax_stop_rewind = \<lambda>m. 0, ax_stop_unwind = \<lambda>m. 0\<rparr>"

definition example_bounds :: stack_bounds where
  "example_bounds = \<lparr>sb_dataEnd = 2000, sb_dataPtr = 1000, sb_dataStart = 1008\<rparr>"

definition example_caps :: capabilities where
  "example_caps = wasixContinuationCapabilities ASYNCIFY_EXPORTS (Some 1000) (Some 2000) 65536"

definition example_tty :: tty_state where
  "example_tty = \<lparr>tty_cols = 80, tty_rows = 25, tty_width = 800, tty_height = 600, tty_stdin = False, tty_stdout = False,
     tty_stderr = False, tty_echo = False, tty_lineBuffered = False\<rparr>"

definition example_embedder :: embedder where
  "example_embedder = \<lparr>em_now = \<lambda>n. 0, em_collate = \<lambda>x y. 0, em_run = None, em_message = \<lambda>e. []\<rparr>"

definition example_wasix :: "int wasix" where
  "example_wasix = new_wasix example_host 0 example_caps False example_tty [] True"

definition example_unwound :: mem where
  "example_unwound = set_pointers example_bounds 1008 example_memory"

lemma example_can_continue: "can_continue example_wasix example_bounds"
  by code_simp

lemma read_pointer:
  "0 \<le> sb_dataPtr b \<Longrightarrow> sb_dataPtr b + 8 \<le> mem_size M \<Longrightarrow>
   guest.read_int (set_pointers b e M) (sb_dataPtr b) 4 = Some (js_u32 e)"
  using guest.read_int_written [of M "sb_dataPtr b" 4 "js_u32 e"]
  by (simp add: set_pointers_def read_int_store apart_def guest.write_int_def set_bytes_def js_u32_def)

lemma example_stretch: "good_stretch example_asyncify example_bounds 65536 (1, example_unwound) (2, example_memory)"
proof -
  have "guest.read_int example_unwound 1000 4 = Some 1008"
    using read_pointer [of example_bounds example_memory 1008]
    by (simp add: example_unwound_def example_bounds_def example_memory_def js_u32_def)
  then show ?thesis
    by (simp add: good_stretch_def unwound_def example_asyncify_def example_bounds_def example_unwound_def example_memory_def)
qed

theorem vfork_returns_twice_witness:
  "\<exists>t u c. let turn = through_host (\<lambda>x y. 0) example_asyncify None (1, example_unwound) (2, example_memory);
        fork = procFork example_asyncify 0 600 in
     seqM fork (seqM turn fork) example_wasix = (Inr ERRNO_SUCCESS, t) \<and> wx_current t = 2 \<and>
     seqM (procExit2 example_asyncify 7) (seqM turn fork) t = (Inr ERRNO_SUCCESS, u) \<and> wx_current u = 1 \<and>
     guest.read_int (memory (wx_host u)) 600 4 = Some 2 \<and> map_of (wx_processes u) 2 = Some c \<and> exit_code c = 7"
proof -
  have args: "js_u32 600 + 4 \<le> 65536" "65536 = mem_size (memory (wx_host example_wasix))" "wx_forkRewind example_wasix = None"
    "wx_vfork example_wasix = None" and nums: "wx_next example_wasix = 2" "wx_current example_wasix = 1" "js_u32 600 = 600"
    "js_u32 7 = 7" "js_u32 2 = 2" by code_simp+
  obtain t where t: "seqM (procFork example_asyncify 0 600) (seqM (through_host (\<lambda>x y. 0) example_asyncify None (1, example_unwound)
        (2, example_memory)) (procFork example_asyncify 0 600)) example_wasix = (Inr ERRNO_SUCCESS, t)"
      "runs_as_child example_bounds t 2 1"
    and rest: "\<exists>u c. seqM (procExit2 example_asyncify 7) (seqM (through_host (\<lambda>x y. 0) example_asyncify None (1, example_unwound)
        (2, example_memory)) (procFork example_asyncify 0 600)) t = (Inr ERRNO_SUCCESS, u) \<and>
      guest.read_int (memory (wx_host u)) 600 4 = Some 2 \<and> wx_current u = 1 \<and> map_of (wx_processes u) 2 = Some c \<and> exit_code c = 7"
    using vfork_returns_twice [OF example_can_continue args example_stretch example_stretch, of "\<lambda>x y. 0" None 0 7]
    unfolding nums by blast
  then show ?thesis unfolding Let_def runs_as_child_def by blast
qed

definition example_fork :: "int copy_fork" where
  "example_fork = \<lparr>cf_childPid = 2, cf_globals = 0, cf_memory = example_memory, cf_parentPid = 1,
     cf_record = \<lparr>fk_childPid = 2, fk_parentPid = 1, fk_pidPtr = 600, fk_rewindStack = []\<rparr>\<rparr>"

theorem copied_child_reuses_pid_witness:
  "\<exists>t. procFork example_asyncify 0 600 (copied_child example_host 0 example_wasix example_fork) = (Inr ERRNO_SUCCESS, t) \<and>
     map_of (wx_processes t) 2 = Some (new_process 2 2)"
proof -
  let ?s = "copied_child example_host 0 example_wasix example_fork"
  have "cf_childPid example_fork = 2" "can_continue ?s example_bounds" "js_u32 600 + 4 \<le> mem_size (memory (wx_host ?s))"
    by code_simp+
  from copied_child_reuses_pid [OF refl this] show ?thesis by blast
qed

definition example_joinable :: "int wasix" where
  "example_joinable = example_wasix\<lparr>wx_next := 3, wx_processes :=
     [(1, new_process 0 1), (2, \<lparr>pr_exitCode = Some 7, pr_parentPid = 1, pr_pid = 2, pr_state = Exited\<rparr>)]\<rparr>"

theorem join_reaps_witness:
  "\<exists>t. procJoin 600 0 700 example_joinable = (Inr ERRNO_SUCCESS, t) \<and>
     get_bytes (memory (wx_host t)) 600 8 = Some (option_pid_bytes 1 2) \<and>
     get_bytes (memory (wx_host t)) 700 6 = Some (join_status_bytes 1 7) \<and> map_keys (wx_processes t) = [1]"
proof -
  let ?c = "\<lparr>pr_exitCode = Some 7, pr_parentPid = 1, pr_pid = 2, pr_state = Exited\<rparr>"
  have mem: "memory (wx_host example_joinable) = example_memory" and unwind: "wx_unwind example_joinable = None"
    by (simp_all add: example_joinable_def example_wasix_def new_wasix_def example_host_def)
  have "guest.read_int example_memory 600 1 = Some 0"
    by (simp add: guest.read_int_def get_bytes_def mem_load_def example_memory_def mem_store_def)
  then have "asks_for example_joinable (js_u32 600) ?c"
    unfolding asks_for_def mem
    by (simp add: js_u32_def findExitedChild_def example_joinable_def example_wasix_def new_wasix_def new_process_def)
  moreover have "join_args example_joinable 600 0 700" by code_simp
  moreover have "processes_ok example_joinable"
    by (simp add: processes_ok_def px_def example_joinable_def example_wasix_def new_wasix_def process_ok_def new_process_def)
  ultimately show ?thesis
    using join_reaps [of example_joinable 600 0 700 ?c] unwind
    by (auto simp: js_u32_def exit_code_def example_joinable_def)
qed

theorem join_never_blocks_witness:
  "wx_unwind example_wasix = None \<and> fst (procJoin 600 0 700 example_wasix) \<noteq> Inr ERRNO_NOTSUP"
proof -
  have "reached example_embedder (\<lambda>c. 0) (\<lambda>off n. []) example_asyncify None example_wasix"
    unfolding example_wasix_def by (rule reached_start)
  moreover have unwind: "wx_unwind example_wasix = None" by (simp add: example_wasix_def new_wasix_def)
  ultimately show ?thesis
    using join_never_blocks [of _ _ _ example_asyncify None example_wasix 600 0 700] by (auto simp: prod_eq_iff)
qed

end
