(* ===== verification/Byte_Reader.thy ===== *)
theory Byte_Reader imports Guest_Memory begin

text \<open>
  What the parsers of package files share: results that are an error or a value, and reading byte
  arrays at an offset. \<open>bindR\<close> goes on with the value of a step and stops at its error; \<open>checkR\<close> is an
  \<open>if\<close> that throws. A parser takes the bytes, where to read and where to stop, and returns the offset
  after what it read. The locale \<open>codec\<close> is the contract of a parser with an encoding of what it
  reads; in it, a loop of such parsers reads back a list of encoded values.
\<close>

section \<open>Results\<close>

definition bindR :: "'e + 'a \<Rightarrow> ('a \<Rightarrow> 'e + 'b) \<Rightarrow> 'e + 'b" where
  "bindR m f = (case m of Inl e \<Rightarrow> Inl e | Inr x \<Rightarrow> f x)"

definition checkR :: "bool \<Rightarrow> 'e \<Rightarrow> 'e + 'a \<Rightarrow> 'e + 'a" where
  "checkR ok e m = (if ok then m else Inl e)"

fun mapR :: "('a \<Rightarrow> 'e + 'b) \<Rightarrow> 'a list \<Rightarrow> 'e + 'b list" where
  "mapR f [] = Inr []"
| "mapR f (x # xs) = bindR (f x) (\<lambda>y. bindR (mapR f xs) (\<lambda>ys. Inr (y # ys)))"

lemma bindR_simps [simp]: "bindR (Inl e) f = Inl e" "bindR (Inr x) f = f x"
  by (simp_all add: bindR_def)

lemma bindR_Inr: "bindR m f = Inr y \<longleftrightarrow> (\<exists>x. m = Inr x \<and> f x = Inr y)"
  by (cases m) simp_all

lemma bindR_InrE:
  assumes "bindR m f = Inr y"
  obtains x where "m = Inr x" "f x = Inr y"
  using assms by (auto simp: bindR_Inr)

lemma bindR_cong [fundef_cong]:
  "m = m' \<Longrightarrow> (\<And>x. m' = Inr x \<Longrightarrow> f x = f' x) \<Longrightarrow> bindR m f = bindR m' f'"
  by (cases m') simp_all

lemma checkR_simps [simp]: "ok \<Longrightarrow> checkR ok e m = m" "\<not> ok \<Longrightarrow> checkR ok e m = Inl e"
  by (simp_all add: checkR_def)

lemma checkR_Inr: "checkR ok e m = Inr y \<longleftrightarrow> ok \<and> m = Inr y"
  by (simp add: checkR_def)

lemma checkR_cong [fundef_cong]:
  "ok = ok' \<Longrightarrow> e = e' \<Longrightarrow> (ok' \<Longrightarrow> m = m') \<Longrightarrow> checkR ok e m = checkR ok' e' m'"
  by (simp add: checkR_def)

lemma mapR_Inr: "mapR f xs = Inr ys \<longleftrightarrow> list_all2 (\<lambda>x y. f x = Inr y) xs ys"
proof (induction xs arbitrary: ys)
  case (Cons x xs)
  then show ?case by (cases ys) (auto simp: bindR_Inr)
qed auto

section \<open>Byte arrays\<close>

text \<open>\<open>data[i]\<close>; past the end it is \<open>undefined\<close>, which the bit operations of the code read as 0.\<close>

definition byte_at :: "byte list \<Rightarrow> int \<Rightarrow> byte" where
  "byte_at data i = (if 0 \<le> i \<and> i < int (length data) then data ! nat i else 0)"

lemma byte_at_append [simp]: "byte_at (pre @ b # post) (int (length pre)) = b"
  by (simp add: byte_at_def)

lemma js_slice_inside:
  "0 \<le> a \<Longrightarrow> a \<le> b \<Longrightarrow> b \<le> int (length xs) \<Longrightarrow> js_slice xs a b = take (nat (b - a)) (drop (nat a) xs)"
  by (simp add: js_slice_def js_index_def)

lemma length_slice [simp]:
  "0 \<le> a \<Longrightarrow> a \<le> b \<Longrightarrow> b \<le> int (length xs) \<Longrightarrow> length (js_slice xs a b) = nat (b - a)"
  by (simp add: js_slice_inside)

lemma js_slice_append [simp]:
  "js_slice (pre @ xs @ post) (int (length pre)) (int (length pre) + int (length xs)) = xs"
  by (simp add: js_slice_inside)

lemma js_slice_slice:
  assumes "0 \<le> a" "a \<le> b" "b \<le> int (length xs)" "0 \<le> c" "c \<le> d" "d \<le> b - a"
  shows "js_slice (js_slice xs a b) c d = js_slice xs (a + c) (a + d)"
proof -
  have nats: "min (nat (d - c)) (nat (b - a) - nat c) = nat (d - c)" "nat c + nat a = nat (a + c)"
    "a + d - (a + c) = d - c" "a + d \<le> int (length xs)"
    using assms by linarith+
  have "js_slice (js_slice xs a b) c d = take (nat (d - c)) (drop (nat c) (take (nat (b - a)) (drop (nat a) xs)))"
    using assms by (simp add: js_slice_inside [of c] js_slice_inside [of a])
  also have "\<dots> = take (nat (d - c)) (drop (nat (a + c)) xs)"
    by (simp only: drop_take take_take drop_drop nats)
  also have "\<dots> = js_slice xs (a + c) (a + d)"
    using assms nats by (simp add: js_slice_inside)
  finally show ?thesis .
qed

definition startsWithBytes :: "byte list \<Rightarrow> byte list \<Rightarrow> bool" where
  "startsWithBytes bytes pre \<longleftrightarrow>
     length pre \<le> length bytes \<and> list_all (\<lambda>i. bytes ! i = pre ! i) [0..<length pre]"

section \<open>Text\<close>

definition ascii :: "string \<Rightarrow> bool" where
  "ascii s \<longleftrightarrow> list_all (\<lambda>c. of_char c < (128 :: nat)) s"

lemma utf8_run_ascii: "list_all (\<lambda>n. n < 128) ns \<Longrightarrow> utf8_run Ground ns = ns"
  by (induction ns) (simp_all add: utf8_open [where st = Ground] utf8_start_def)

lemma decodeText_ascii: "ascii s \<Longrightarrow> decodeText (encodeText s) = s"
proof -
  assume "ascii s"
  then have small: "list_all (\<lambda>n. n < (128 :: nat)) (map of_char s)"
    by (simp add: ascii_def list_all_iff)
  then have "take 3 (map of_char s) \<noteq> [239, 187, 191 :: nat]"
    by (cases s) auto
  with small show ?thesis
    by (simp add: decodeText_def Let_def unat_encodeText utf8_run_ascii)
qed

section \<open>Parsers with an encoding\<close>

fun read_many :: "(byte list \<Rightarrow> int \<Rightarrow> int \<Rightarrow> 'e + int \<times> 'a list) \<Rightarrow> byte list \<Rightarrow> int \<Rightarrow> nat \<Rightarrow> int \<Rightarrow>
    'e + int \<times> 'a list" where
  "read_many dec data en 0 cursor = Inr (cursor, [])"
| "read_many dec data en (Suc n) cursor =
     bindR (dec data cursor en) (\<lambda>(c, xs). bindR (read_many dec data en n c) (\<lambda>(c', ys). Inr (c', xs @ ys)))"

locale codec =
  fixes dec :: "byte list \<Rightarrow> int \<Rightarrow> int \<Rightarrow> 'e + int \<times> 'a"
    and enc :: "'b \<Rightarrow> byte list"
    and ok :: "'b \<Rightarrow> bool"
    and view :: "'b \<Rightarrow> 'a"
  assumes dec_enc:
    "ok x \<Longrightarrow> int (length pre + length (enc x)) \<le> en \<Longrightarrow> en \<le> int (length (pre @ enc x @ post)) \<Longrightarrow>
     dec (pre @ enc x @ post) (int (length pre)) en = Inr (int (length pre + length (enc x)), view x)"
begin

lemma dec_at:
  assumes "data = pre @ enc x @ post" "c = int (length pre)" "ok x" "c + int (length (enc x)) \<le> en"
    "en \<le> int (length data)"
  shows "dec data c en = Inr (c + int (length (enc x)), view x)"
  using dec_enc [of x pre en post] assms by simp

end

locale list_codec = codec dec enc ok view
  for dec :: "byte list \<Rightarrow> int \<Rightarrow> int \<Rightarrow> 'e + int \<times> 'a list" and enc :: "'b \<Rightarrow> byte list" and ok view
begin

lemma read_many_enc:
  assumes "list_all ok xs" "data = pre @ concat (map enc xs) @ post" "c = int (length pre)"
    "c + int (length (concat (map enc xs))) \<le> en" "en \<le> int (length data)"
  shows "read_many dec data en (length xs) c =
         Inr (c + int (length (concat (map enc xs))), concat (map view xs))"
  using assms
proof (induction xs arbitrary: pre c)
  case (Cons x xs)
  have "dec data c en = Inr (c + int (length (enc x)), view x)"
    using Cons.prems by (intro dec_at [where pre = pre and post = "concat (map enc xs) @ post"]) simp_all
  moreover have "read_many dec data en (length xs) (c + int (length (enc x))) =
    Inr (c + int (length (enc x)) + int (length (concat (map enc xs))), concat (map view xs))"
    using Cons.prems by (intro Cons.IH [where pre = "pre @ enc x"]) simp_all
  ultimately show ?case by simp
qed simp

end

end
