(* ===== verification/Webc_Volume.thy ===== *)
theory Webc_Volume imports Byte_Reader begin

text \<open>
  The binary layer of \<open>apps/web/src/webc-metadata.js\<close>: the sections of a WebC package, and the volumes
  (directory trees of files) in them. A section or a volume is a view into the bytes of the package,
  and each file of a volume keeps its bytes and its span in the package. A volume header refers to
  its entries by offset; the parser keeps the offsets it has seen, so that it ends on every header.
\<close>

datatype webc_error =
    Truncated | Exceeds_limits | Reference_loop | Bad_directory_length | Bad_file_span string | Bad_tag int
  | Missing_version | Unsupported_version string | Missing_manifest
  | Too_deep | Trailing_data | Bad_simple int | Bad_length int | Bad_value | Bad_key
  | Not_a_map string | No_commands | Missing_string string | Missing_atom string string
  | Missing_volume string | Out_of_fuel

section \<open>Plain objects as tables\<close>

text \<open>
  An object that the code fills by \<open>o[key] = v\<close> with objects as values: its own properties in
  insertion order, and the prototype that the key \<open>__proto__\<close> sets instead of a property.
\<close>

type_synonym 'v js_table = "(string \<times> 'v) list \<times> 'v option"

definition proto_key :: string where "proto_key = ''__proto__''"

definition empty_table :: "'v js_table" where "empty_table = ([], None)"

fun table_set :: "string \<Rightarrow> 'v \<Rightarrow> 'v js_table \<Rightarrow> 'v js_table" where
  "table_set k v (own, p) = (if k = proto_key then (own, Some v) else (AList.update k v own, p))"

definition table_values :: "'v js_table \<Rightarrow> 'v set" where
  "table_values t = snd ` set (fst t) \<union> set_option (snd t)"

lemma table_values_empty [simp]: "table_values empty_table = {}"
  by (simp add: table_values_def empty_table_def)

lemma table_values_setE:
  assumes "w \<in> table_values (table_set k v t)"
  obtains "w = v" | "w \<in> table_values t"
proof -
  have "snd ` set (AList.update k v own) \<subseteq> insert v (snd ` set own)" for own :: "(string \<times> 'a) list"
    by (induction own) auto
  with assms have "w = v \<or> w \<in> table_values t"
    by (cases t) (auto simp: table_values_def split: if_splits)
  then show thesis using that by blast
qed

section \<open>Reading\<close>

definition WEBC_MAGIC :: "byte list" where "WEBC_MAGIC = [0x00, 0x77, 0x65, 0x62, 0x63]"
definition WEBC_HEADER_LENGTH :: int where "WEBC_HEADER_LENGTH = 8"
definition WEBC_V2 :: string where "WEBC_V2 = ''002''"
definition WEBC_V3 :: string where "WEBC_V3 = ''003''"
definition SHA256_BYTES :: int where "SHA256_BYTES = 32"
definition WEBC_V3_TIMESTAMPS_BYTES :: int where "WEBC_V3_TIMESTAMPS_BYTES = 24"

lemmas webc_sizes = WEBC_HEADER_LENGTH_def SHA256_BYTES_def WEBC_V3_TIMESTAMPS_BYTES_def

definition requireAvailable :: "byte list \<Rightarrow> int \<Rightarrow> int \<Rightarrow> webc_error + 'a \<Rightarrow> webc_error + 'a" where
  "requireAvailable bytes offset len m =
     checkR (\<not> (len < 0 \<or> offset + len > int (length bytes))) Truncated m"

definition readByte :: "byte list \<Rightarrow> int \<Rightarrow> webc_error + byte" where
  "readByte bytes offset = requireAvailable bytes offset 1 (Inr (byte_at bytes offset))"

definition uint64BigIntToNumber :: "byte list \<Rightarrow> bool \<Rightarrow> webc_error + int" where
  "uint64BigIntToNumber bytes littleEndian =
     (let value = le_value (if littleEndian then bytes else rev bytes) in
      checkR (\<not> value > max_safe_integer) Exceeds_limits (Inr value))"

definition readUint64Le :: "byte list \<Rightarrow> int \<Rightarrow> webc_error + int" where
  "readUint64Le bytes offset =
     requireAvailable bytes offset 8 (uint64BigIntToNumber (js_slice bytes offset (offset + 8)) True)"

definition hex_digit :: "nat \<Rightarrow> char" where
  "hex_digit n = (if n < 10 then char_of (48 + n) else char_of (87 + n))"

definition bytesToHex :: "byte list \<Rightarrow> string" where
  "bytesToHex bytes = concat (map (\<lambda>b. [hex_digit (unat b div 16), hex_digit (unat b mod 16)]) bytes)"

lemma requireAvailable_Inr:
  "requireAvailable bytes offset len m = Inr y \<longleftrightarrow> 0 \<le> len \<and> offset + len \<le> int (length bytes) \<and> m = Inr y"
  by (auto simp: requireAvailable_def checkR_Inr)

lemma le_value_nonneg [simp]: "0 \<le> le_value bs"
  using le_value_range by blast

lemma readUint64Le_Inr:
  "readUint64Le bytes offset = Inr n \<Longrightarrow> 0 \<le> n \<and> offset + 8 \<le> int (length bytes)"
  by (auto simp: readUint64Le_def requireAvailable_Inr uint64BigIntToNumber_def Let_def checkR_Inr)

section \<open>Volumes\<close>

record span =
  sp_length :: int
  sp_offset :: int

record volume_file =
  vf_byteLength :: int
  vf_bytes :: "byte list"
  vf_checksum :: string
  vf_span :: span

type_synonym files = "volume_file js_table"

definition childPath :: "string \<Rightarrow> string \<Rightarrow> string" where
  "childPath parent name =
     (if parent = [] then name else if parent = ''/'' then ''/'' @ name else parent @ ''/'' @ name)"

text \<open>The options of \<open>parseHeaderEntry\<close>; \<open>seenOffsets\<close> is threaded with the files.\<close>

record header_options =
  ho_data :: "byte list"
  ho_dataOffset :: int
  ho_version :: string

definition file_entry_at :: "header_options \<Rightarrow> byte list \<Rightarrow> int \<Rightarrow> string \<Rightarrow> webc_error + volume_file" where
  "file_entry_at opts header c0 path =
     bindR (readUint64Le header c0) (\<lambda>startOffset.
     bindR (readUint64Le header (c0 + 8)) (\<lambda>endOffset.
     let c = c0 + 16 in
     requireAvailable header c SHA256_BYTES
       (let checksum = bytesToHex (js_slice header c (c + SHA256_BYTES)); c' = c + SHA256_BYTES in
        bindR (if ho_version opts = WEBC_V3
               then requireAvailable header (c' + WEBC_V3_TIMESTAMPS_BYTES) 0 (Inr ()) else Inr ()) (\<lambda>_.
        checkR (\<not> (startOffset > endOffset \<or> endOffset > int (length (ho_data opts)))) (Bad_file_span path)
          (Inr \<lparr>vf_byteLength = endOffset - startOffset,
                vf_bytes = js_slice (ho_data opts) startOffset endOffset,
                vf_checksum = checksum,
                vf_span = \<lparr>sp_length = endOffset - startOffset,
                           sp_offset = ho_dataOffset opts + startOffset\<rparr>\<rparr>)))))"

text \<open>One entry of a directory: the offset and the name of a child, and where the next entry starts.\<close>

definition child_entry :: "string \<Rightarrow> byte list \<Rightarrow> int \<Rightarrow> webc_error + int \<times> string \<times> int" where
  "child_entry version header cursor =
     bindR (readUint64Le header cursor) (\<lambda>childOffset.
     let c = cursor + 8; c = (if version = WEBC_V3 then c + SHA256_BYTES else c) in
     bindR (readUint64Le header c) (\<lambda>nameLength.
     requireAvailable header (c + 8) nameLength
       (Inr (childOffset, decodeText (js_slice header (c + 8) (c + 8 + nameLength)), c + 8 + nameLength))))"

lemma child_entry_moves: "child_entry version header cursor = Inr (o', n, c') \<Longrightarrow> cursor < c'"
  by (auto simp: child_entry_def Let_def bindR_Inr requireAvailable_Inr webc_sizes split: if_splits
      dest!: readUint64Le_Inr)

text \<open>The \<open>while\<close> loop of a directory; \<open>walk\<close> is the recursive call for a child.\<close>

function directory_loop :: "(int \<Rightarrow> string \<Rightarrow> int list \<times> files \<Rightarrow> webc_error + int list \<times> files) \<Rightarrow>
    string \<Rightarrow> byte list \<Rightarrow> string \<Rightarrow> int \<Rightarrow> int \<Rightarrow> int list \<times> files \<Rightarrow> webc_error + int list \<times> files" where
  "directory_loop walk version header path entriesEnd cursor st =
     (if cursor < entriesEnd then
        bindR (child_entry version header cursor) (\<lambda>(childOffset, name, c').
        bindR (walk childOffset (childPath path name) st) (\<lambda>st'.
        directory_loop walk version header path entriesEnd c' st'))
      else checkR (cursor = entriesEnd) Bad_directory_length (Inr st))"
  by pat_completeness auto
termination
  by (relation "measure (\<lambda>(walk, version, header, path, en, c, st). nat (en - c))")
    (auto dest: child_entry_moves)

declare directory_loop.simps [simp del]

text \<open>
  \<open>parseHeaderEntry\<close>. The recursion of the code ends because every entry it enters has a new offset
  in the header; the first argument bounds the nesting, and \<open>parseVolumeHeader_terminates\<close> shows
  that the length of the header is enough.
\<close>

fun parseHeaderEntry :: "nat \<Rightarrow> header_options \<Rightarrow> byte list \<Rightarrow> int \<Rightarrow> string \<Rightarrow> int list \<times> files \<Rightarrow>
    webc_error + int list \<times> files" where
  "parseHeaderEntry 0 opts header offset path st = Inl Out_of_fuel"
| "parseHeaderEntry (Suc depth) opts header offset path (seen, files) =
     checkR (offset \<notin> set seen) Reference_loop
       (let seen = seen @ [offset] in
        requireAvailable header offset 1
          (let tag = uint (byte_at header offset); cursor = offset + 1 in
           if tag = 30 then
             bindR (readUint64Le header cursor) (\<lambda>len.
             let c = cursor + 8; entriesEnd = c + len in
             requireAvailable header c len
               (bindR (if ho_version opts = WEBC_V3
                       then let c = c + (WEBC_V3_TIMESTAMPS_BYTES + SHA256_BYTES) in
                            requireAvailable header c 0 (Inr c)
                       else Inr c) (\<lambda>c.
                directory_loop (\<lambda>o' p st. parseHeaderEntry depth opts header o' p st)
                  (ho_version opts) header path entriesEnd c (seen, files))))
           else if tag = 31 then
             bindR (file_entry_at opts header cursor path) (\<lambda>f. Inr (seen, table_set path f files))
           else Inl (Bad_tag tag)))"

definition parseVolumeHeader :: "byte list \<Rightarrow> string \<Rightarrow> header_options \<Rightarrow> webc_error + files" where
  "parseVolumeHeader header pathPrefix opts =
     bindR (parseHeaderEntry (Suc (length header)) opts header 0 pathPrefix ([], empty_table))
       (\<lambda>(seen, files). Inr files)"

section \<open>Sections\<close>

record section_view =
  se_hash :: "byte list option"
  se_length :: int
  se_payload :: "byte list"
  se_payloadOffset :: int
  se_sectionOffset :: int
  se_tag :: int

record volume =
  vo_dataSpan :: span
  vo_files :: files
  vo_hash :: "string option"
  vo_headerSpan :: span
  vo_name :: string
  vo_payloadSpan :: span

record atom_artifacts =
  aa_files :: files
  aa_hash :: "string option"
  aa_payloadSpan :: "span option"

record sections =
  ss_atoms :: "atom_artifacts option"
  ss_manifest :: "section_view option"
  ss_volumes :: "volume js_table"

definition spanOf :: "int \<Rightarrow> int \<Rightarrow> span" where
  "spanOf offset len = \<lparr>sp_length = len, sp_offset = offset\<rparr>"

definition sectionHashHex :: "section_view \<Rightarrow> string option" where
  "sectionHashHex sec = map_option bytesToHex (se_hash sec)"

definition parseVolumePayload :: "section_view \<Rightarrow> string \<Rightarrow> string \<Rightarrow> string \<Rightarrow> webc_error + volume" where
  "parseVolumePayload sec name pathPrefix version =
     (let payload = se_payload sec in
      bindR (readUint64Le payload 0) (\<lambda>headerLength.
      requireAvailable payload 8 headerLength
        (let header = js_slice payload 8 (8 + headerLength); o1 = 8 + headerLength in
         bindR (readUint64Le payload o1) (\<lambda>dataLength.
         requireAvailable payload (o1 + 8) dataLength
           (let data = js_slice payload (o1 + 8) (o1 + 8 + dataLength);
                dataOffset = se_payloadOffset sec + (o1 + 8) in
            bindR (parseVolumeHeader header pathPrefix
                     \<lparr>ho_data = data, ho_dataOffset = dataOffset, ho_version = version\<rparr>) (\<lambda>files.
            Inr \<lparr>vo_dataSpan = spanOf dataOffset dataLength, vo_files = files, vo_hash = sectionHashHex sec,
                 vo_headerSpan = spanOf (se_payloadOffset sec + 8) headerLength, vo_name = name,
                 vo_payloadSpan = spanOf (se_payloadOffset sec) (se_length sec)\<rparr>))))))"

definition parseAtomsSection :: "section_view \<Rightarrow> string \<Rightarrow> webc_error + atom_artifacts" where
  "parseAtomsSection sec version =
     bindR (parseVolumePayload sec ''atoms'' [] version) (\<lambda>volume.
     Inr \<lparr>aa_files = vo_files volume, aa_hash = sectionHashHex sec,
          aa_payloadSpan = Some (spanOf (se_payloadOffset sec) (se_length sec))\<rparr>)"

definition parseVolumeSection :: "section_view \<Rightarrow> string \<Rightarrow> webc_error + volume" where
  "parseVolumeSection sec version =
     (let payload = se_payload sec in
      bindR (readUint64Le payload 0) (\<lambda>nameLength.
      requireAvailable payload 8 nameLength
        (let name = decodeText (js_slice payload 8 (8 + nameLength)); offset = 8 + nameLength in
         parseVolumePayload
           (sec\<lparr>se_payload := js_slice payload offset (int (length payload)),
                se_payloadOffset := se_payloadOffset sec + offset, se_length := se_length sec - offset\<rparr>)
           name ''/'' version)))"

text \<open>One round of the loop of \<open>readWebcSections\<close>: the view of the section that starts at an offset.\<close>

definition section_at :: "byte list \<Rightarrow> string \<Rightarrow> int \<Rightarrow> webc_error + section_view" where
  "section_at data version sectionOffset =
     bindR (readByte data sectionOffset) (\<lambda>b.
     let tag = uint b; o1 = sectionOffset + 1 in
     bindR (if version = WEBC_V3 \<and> tag \<noteq> 2
            then requireAvailable data o1 32 (Inr (Some (js_slice data o1 (o1 + 32)), o1 + 32))
            else Inr (None, o1)) (\<lambda>(hash, o2).
     bindR (readUint64Le data o2) (\<lambda>len.
     requireAvailable data (o2 + 8) len
       (Inr \<lparr>se_hash = hash, se_length = len, se_payload = js_slice data (o2 + 8) (o2 + 8 + len),
             se_payloadOffset = o2 + 8, se_sectionOffset = sectionOffset, se_tag = tag\<rparr>))))"

definition add_section :: "string \<Rightarrow> section_view \<Rightarrow> sections \<Rightarrow> webc_error + sections" where
  "add_section version sec ss =
     (if se_tag sec = 1 then Inr (ss\<lparr>ss_manifest := Some sec\<rparr>)
      else if se_tag sec = 3 then
        bindR (parseAtomsSection sec version) (\<lambda>a. Inr (ss\<lparr>ss_atoms := Some a\<rparr>))
      else if se_tag sec = 4 then
        bindR (parseVolumeSection sec version) (\<lambda>v. Inr (ss\<lparr>ss_volumes := table_set (vo_name v) v (ss_volumes ss)\<rparr>))
      else Inr ss)"

lemma section_at_Inr:
  assumes "section_at data version offset = Inr sec" "0 \<le> offset"
  shows "offset < se_payloadOffset sec \<and> 0 \<le> se_length sec \<and>
         se_payloadOffset sec + se_length sec \<le> int (length data) \<and>
         se_payload sec = js_slice data (se_payloadOffset sec) (se_payloadOffset sec + se_length sec)"
  using assms
  by (auto simp: section_at_def Let_def bindR_Inr requireAvailable_Inr readByte_def split: if_splits
      dest!: readUint64Le_Inr)

function sections_loop :: "byte list \<Rightarrow> string \<Rightarrow> int \<Rightarrow> sections \<Rightarrow> webc_error + sections" where
  "sections_loop data version offset ss =
     (if 0 \<le> offset \<and> offset < int (length data) then
        bindR (section_at data version offset) (\<lambda>sec.
        bindR (add_section version sec ss) (\<lambda>ss'.
        sections_loop data version (se_payloadOffset sec + se_length sec) ss'))
      else Inr ss)"
  by pat_completeness auto
termination
  by (relation "measure (\<lambda>(data, version, offset, ss). nat (int (length data) - offset))")
    (auto dest: section_at_Inr)

declare sections_loop.simps [simp del]

definition readWebcSections :: "byte list \<Rightarrow> string \<Rightarrow> webc_error + sections" where
  "readWebcSections data version =
     sections_loop data version WEBC_HEADER_LENGTH
       \<lparr>ss_atoms = None, ss_manifest = None, ss_volumes = empty_table\<rparr>"

definition detectWebcVersion :: "byte list \<Rightarrow> string option" where
  "detectWebcVersion data =
     (if startsWithBytes data WEBC_MAGIC \<and> WEBC_HEADER_LENGTH \<le> int (length data)
      then Some (decodeText (js_slice data 5 8)) else None)"

section \<open>The walk of a header\<close>

text \<open>\<open>ends E I r\<close>: the result \<open>r\<close> is an error of the kind \<open>E\<close> or a value with \<open>I\<close>.\<close>

definition ends :: "('e \<Rightarrow> bool) \<Rightarrow> ('a \<Rightarrow> bool) \<Rightarrow> 'e + 'a \<Rightarrow> bool" where
  "ends E I r = (case r of Inl e \<Rightarrow> E e | Inr x \<Rightarrow> I x)"

lemma ends_simps [simp]: "ends E I (Inl e) = E e" "ends E I (Inr x) = I x"
  by (simp_all add: ends_def)

lemma ends_bindR: "ends E J m \<Longrightarrow> (\<And>x. J x \<Longrightarrow> ends E I (f x)) \<Longrightarrow> ends E I (bindR m f)"
  by (cases m) simp_all

lemma ends_checkR: "(\<not> ok \<Longrightarrow> E e) \<Longrightarrow> (ok \<Longrightarrow> ends E I m) \<Longrightarrow> ends E I (checkR ok e m)"
  by (cases ok) simp_all

lemma ends_if: "(c \<Longrightarrow> ends E I m) \<Longrightarrow> (\<not> c \<Longrightarrow> ends E I n) \<Longrightarrow> ends E I (if c then m else n)"
  by simp

lemma ends_available:
  "E Truncated \<Longrightarrow> (0 \<le> len \<Longrightarrow> offset + len \<le> int (length bytes) \<Longrightarrow> ends E I m) \<Longrightarrow>
   ends E I (requireAvailable bytes offset len m)"
  unfolding requireAvailable_def by (rule ends_checkR) auto

lemma ends_uint64:
  "E Truncated \<Longrightarrow> E Exceeds_limits \<Longrightarrow> ends E (\<lambda>n. 0 \<le> n) (readUint64Le bytes offset)"
  unfolding readUint64Le_def uint64BigIntToNumber_def Let_def
  by (intro ends_available ends_checkR) simp_all

definition reader_errors :: "(webc_error \<Rightarrow> bool) \<Rightarrow> bool" where
  "reader_errors E \<longleftrightarrow> E Truncated \<and> E Exceeds_limits \<and> E Reference_loop \<and> E Bad_directory_length \<and>
     (\<forall>path. E (Bad_file_span path)) \<and> (\<forall>tag. E (Bad_tag tag))"

lemma ends_child_entry:
  "reader_errors E \<Longrightarrow> ends E (\<lambda>(o', n, c). 0 \<le> o') (child_entry version header cursor)"
  unfolding child_entry_def Let_def reader_errors_def
  by (intro ends_bindR [where J = "\<lambda>n. 0 \<le> n"] ends_available ends_uint64) simp_all

lemma ends_directory_loop:
  assumes "reader_errors E" "\<And>o' p s. 0 \<le> o' \<Longrightarrow> I s \<Longrightarrow> ends E I (walk o' p s)" "I st"
  shows "ends E I (directory_loop walk version header path en c st)"
  using assms
proof (induction walk version header path en c st rule: directory_loop.induct)
  case (1 w v h p e c st)
  note entry = ends_child_entry [OF "1.prems"(1), of v h c]
  show ?case
  proof (cases "c < e")
    case True
    show ?thesis
    proof (cases "child_entry v h c")
      case (Inl err)
      with True entry show ?thesis by (subst directory_loop.simps) simp
    next
      case (Inr child)
      obtain o' n c' where child: "child = (o', n, c')" by (cases child)
      with entry Inr have walked: "ends E I (w o' (childPath p n) st)" using "1.prems" by simp
      show ?thesis
      proof (cases "w o' (childPath p n) st")
        case (Inl err)
        with True child \<open>child_entry v h c = Inr child\<close> walked show ?thesis
          by (subst directory_loop.simps) simp
      next
        case step: (Inr st')
        with walked have "ends E I (directory_loop w v h p e c' st')"
          using True Inr child step "1.prems" by (intro "1.IH") auto
        with True child Inr step show ?thesis by (subst directory_loop.simps) simp
      qed
    qed
  next
    case False
    then show ?thesis
      using "1.prems" by (subst directory_loop.simps) (simp add: checkR_def reader_errors_def)
  qed
qed

lemma ends_file_entry:
  "reader_errors E \<Longrightarrow>
   ends E (\<lambda>f. \<exists>a b. f = \<lparr>vf_byteLength = b - a, vf_bytes = js_slice (ho_data opts) a b, vf_checksum = vf_checksum f,
       vf_span = \<lparr>sp_length = b - a, sp_offset = ho_dataOffset opts + a\<rparr>\<rparr> \<and> 0 \<le> a \<and> a \<le> b \<and> b \<le> int (length (ho_data opts)))
     (file_entry_at opts header c path)"
  unfolding file_entry_at_def Let_def reader_errors_def
  by (intro ends_bindR [where J = "\<lambda>n. 0 \<le> n"] ends_bindR [where J = "\<lambda>_. True"] ends_available ends_uint64 ends_checkR)
    (auto simp: requireAvailable_def checkR_def)

text \<open>
  A walk keeps any property of the files that single file entries have, ends without \<open>Out_of_fuel\<close>
  when it has more levels than there are unseen offsets, and only adds to the seen offsets.
\<close>

definition fits :: "byte list \<Rightarrow> int list \<Rightarrow> bool" where
  "fits header seen \<longleftrightarrow> distinct seen \<and> set seen \<subseteq> {0..<int (length header)}"

lemma fits_length: "fits header seen \<Longrightarrow> length seen \<le> length header"
  using card_mono [of "{0..<int (length header)}" "set seen"] by (simp add: fits_def distinct_card)

lemma parseHeaderEntry_ends:
  assumes errors: "reader_errors E"
    and entry: "\<And>c p. ends E P (file_entry_at opts header c p)"
  shows "fits header seen \<Longrightarrow> length header < depth + length seen \<Longrightarrow> 0 \<le> offset \<Longrightarrow>
    \<forall>f\<in>table_values files. P f \<Longrightarrow>
    ends E (\<lambda>(seen', files'). fits header seen' \<and> length seen \<le> length seen' \<and> (\<forall>f\<in>table_values files'. P f))
      (parseHeaderEntry depth opts header offset path (seen, files))"
proof (induction depth arbitrary: offset path seen files)
  case 0
  then show ?case using fits_length [of header seen] by simp
next
  case (Suc depth)
  let ?I = "\<lambda>(seen', files'). fits header seen' \<and> Suc (length seen) \<le> length seen' \<and> (\<forall>f\<in>table_values files'. P f)"
  let ?J = "\<lambda>(seen', files'). fits header seen' \<and> length seen \<le> length seen' \<and> (\<forall>f\<in>table_values files'. P f)"
  have sub: "ends E ?I (parseHeaderEntry depth opts header o' p st)" if "0 \<le> o'" "?I st" for o' p st
    using Suc.IH [of "fst st" o' "snd st" p] Suc.prems(2) that
    by (cases "parseHeaderEntry depth opts header o' p st") auto
  have weaken: "ends E ?I r \<Longrightarrow> ends E ?J r" for r by (cases r) auto
  have seen: "fits header (seen @ [offset])" if "offset \<notin> set seen" "offset + 1 \<le> int (length header)"
    using Suc.prems that by (auto simp: fits_def)
  have loop: "ends E ?J (directory_loop (\<lambda>o' p st. parseHeaderEntry depth opts header o' p st)
      (ho_version opts) header path en c (seen @ [offset], files))"
    if "offset \<notin> set seen" "offset + 1 \<le> int (length header)" for en c
    using seen [OF that] sub Suc.prems(4)
    by (intro weaken ends_directory_loop [OF errors]) auto
  have files: "ends E ?J (Inr (seen @ [offset], table_set path f files))"
    if "offset \<notin> set seen" "offset + 1 \<le> int (length header)" "P f" for f
    using seen [OF that(1,2)] that(3) Suc.prems(4) by (auto elim!: table_values_setE)
  note es = errors [unfolded reader_errors_def]
  have dir: "ends E ?J
      (bindR (readUint64Le header (offset + 1)) (\<lambda>len.
       requireAvailable header (offset + 1 + 8) len
         (bindR (if ho_version opts = WEBC_V3
                 then requireAvailable header (offset + 1 + 8 + (WEBC_V3_TIMESTAMPS_BYTES + SHA256_BYTES)) 0
                        (Inr (offset + 1 + 8 + (WEBC_V3_TIMESTAMPS_BYTES + SHA256_BYTES)))
                 else Inr (offset + 1 + 8))
           (\<lambda>c. directory_loop (\<lambda>o' p st. parseHeaderEntry depth opts header o' p st)
                 (ho_version opts) header path (offset + 1 + 8 + len) c (seen @ [offset], files)))))"
    if "offset \<notin> set seen" "offset + 1 \<le> int (length header)"
    by (intro ends_bindR [OF ends_uint64] ends_available ends_bindR [where J = "\<lambda>_. True"] loop that)
      (use es in \<open>simp_all add: requireAvailable_def checkR_def\<close>)
  show ?case
    unfolding parseHeaderEntry.simps Let_def
    by (intro ends_checkR ends_available ends_if dir ends_bindR [OF entry] files)
      (use es Suc.prems(1) in simp_all)
qed

lemma parseVolumeHeader_ends:
  assumes "reader_errors E" "\<And>c p. ends E P (file_entry_at opts header c p)"
  shows "ends E (\<lambda>files. \<forall>f\<in>table_values files. P f) (parseVolumeHeader header root opts)"
  unfolding parseVolumeHeader_def
  by (rule ends_bindR [OF parseHeaderEntry_ends [OF assms]]) (auto simp: fits_def)

text \<open>
  C23: the walk of a volume header ends on every byte sequence: the recursion of the code never goes
  deeper than the header has bytes, because each entry it enters is at an offset not seen before.
\<close>

theorem parseVolumeHeader_terminates: "parseVolumeHeader header root opts \<noteq> Inl Out_of_fuel"
proof -
  have no_fuel: "reader_errors (\<lambda>e. e \<noteq> Out_of_fuel)" by (simp add: reader_errors_def)
  from parseVolumeHeader_ends [OF this ends_file_entry [OF this], of opts header root] show ?thesis
    by (cases "parseVolumeHeader header root opts") auto
qed

section \<open>Files are slices of the package\<close>

definition file_in :: "byte list \<Rightarrow> volume_file \<Rightarrow> bool" where
  "file_in data f \<longleftrightarrow>
     0 \<le> sp_offset (vf_span f) \<and> 0 \<le> sp_length (vf_span f) \<and>
     sp_offset (vf_span f) + sp_length (vf_span f) \<le> int (length data) \<and>
     vf_byteLength f = sp_length (vf_span f) \<and>
     vf_bytes f = js_slice data (sp_offset (vf_span f)) (sp_offset (vf_span f) + sp_length (vf_span f))"

definition view_in :: "byte list \<Rightarrow> section_view \<Rightarrow> bool" where
  "view_in data sec \<longleftrightarrow>
     0 \<le> se_payloadOffset sec \<and> 0 \<le> se_length sec \<and>
     se_payloadOffset sec + se_length sec \<le> int (length data) \<and>
     se_payload sec = js_slice data (se_payloadOffset sec) (se_payloadOffset sec + se_length sec)"

definition sections_in :: "byte list \<Rightarrow> sections \<Rightarrow> bool" where
  "sections_in data ss \<longleftrightarrow>
     (\<forall>a. ss_atoms ss = Some a \<longrightarrow> (\<forall>f\<in>table_values (aa_files a). file_in data f)) \<and>
     (\<forall>m. ss_manifest ss = Some m \<longrightarrow> view_in data m) \<and>
     (\<forall>v\<in>table_values (ss_volumes ss). \<forall>f\<in>table_values (vo_files v). file_in data f)"

lemma volume_header_files:
  assumes "parseVolumeHeader header root opts = Inr files" "f \<in> table_values files"
    and "ho_data opts = js_slice data (ho_dataOffset opts) (ho_dataOffset opts + n)"
    and "0 \<le> ho_dataOffset opts" "0 \<le> n" "ho_dataOffset opts + n \<le> int (length data)"
  shows "file_in data f"
proof -
  have "reader_errors (\<lambda>e. True)" by (simp add: reader_errors_def)
  from parseVolumeHeader_ends [OF this ends_file_entry [OF this], of opts header root] assms(1,2)
  obtain a b where f: "f = \<lparr>vf_byteLength = b - a, vf_bytes = js_slice (ho_data opts) a b,
      vf_checksum = vf_checksum f, vf_span = \<lparr>sp_length = b - a, sp_offset = ho_dataOffset opts + a\<rparr>\<rparr>"
    and ab: "0 \<le> a" "a \<le> b" "b \<le> int (length (ho_data opts))" by auto
  have "b \<le> n" using ab assms(3-6) by simp
  then show ?thesis
    using ab assms(3-6) by (subst f) (simp add: file_in_def js_slice_slice algebra_simps)
qed

lemma volume_payload_files:
  assumes "parseVolumePayload sec name root version = Inr v" "view_in data sec" "f \<in> table_values (vo_files v)"
  shows "file_in data f"
proof -
  let ?p = "se_payload sec"
  obtain h d files where parts: "readUint64Le ?p 0 = Inr h" "8 + h \<le> int (length ?p)"
      "readUint64Le ?p (8 + h) = Inr d" "8 + h + 8 + d \<le> int (length ?p)"
      "parseVolumeHeader (js_slice ?p 8 (8 + h)) root
        \<lparr>ho_data = js_slice ?p (8 + h + 8) (8 + h + 8 + d), ho_dataOffset = se_payloadOffset sec + (8 + h + 8),
         ho_version = version\<rparr> = Inr files" "vo_files v = files"
    using assms(1) by (auto simp: parseVolumePayload_def Let_def bindR_Inr requireAvailable_Inr)
  have pos: "0 \<le> h" "0 \<le> d" using parts(1,3) by (auto dest: readUint64Le_Inr)
  have "length ?p = nat (se_length sec)" using assms(2) by (simp add: view_in_def)
  then show ?thesis
    using parts pos assms(2,3)
    by (intro volume_header_files [OF parts(5), where n = d]) (auto simp: view_in_def js_slice_slice algebra_simps)
qed

lemma section_at_view: "section_at data version offset = Inr sec \<Longrightarrow> 0 \<le> offset \<Longrightarrow> view_in data sec"
  using section_at_Inr [of data version offset sec] by (auto simp: view_in_def)

lemma volume_section_files:
  assumes "parseVolumeSection sec version = Inr v" "view_in data sec" "f \<in> table_values (vo_files v)"
  shows "file_in data f"
proof -
  let ?p = "se_payload sec"
  obtain n where n: "readUint64Le ?p 0 = Inr n" "8 + n \<le> int (length ?p)"
    and v: "parseVolumePayload (sec\<lparr>se_payload := js_slice ?p (8 + n) (int (length ?p)),
        se_payloadOffset := se_payloadOffset sec + (8 + n), se_length := se_length sec - (8 + n)\<rparr>)
        (decodeText (js_slice ?p 8 (8 + n))) ''/'' version = Inr v"
    using assms(1) by (auto simp: parseVolumeSection_def Let_def bindR_Inr requireAvailable_Inr)
  have "0 \<le> n" using n by (auto dest: readUint64Le_Inr)
  moreover have "int (length ?p) = se_length sec" using assms(2) by (simp add: view_in_def)
  ultimately have "view_in data (sec\<lparr>se_payload := js_slice ?p (8 + n) (int (length ?p)),
      se_payloadOffset := se_payloadOffset sec + (8 + n), se_length := se_length sec - (8 + n)\<rparr>)"
    using assms(2) n by (simp add: view_in_def js_slice_slice algebra_simps)
  from volume_payload_files [OF v this assms(3)] show ?thesis .
qed

lemma add_section_in:
  assumes "add_section version sec ss = Inr ss'" "view_in data sec" "sections_in data ss"
  shows "sections_in data ss'"
proof -
  have atoms: "\<forall>f\<in>table_values (vo_files v). file_in data f" if "parseVolumePayload sec ''atoms'' [] version = Inr v" for v
    using volume_payload_files [OF that assms(2)] by blast
  have vol: "\<forall>f\<in>table_values (vo_files v). file_in data f" if "parseVolumeSection sec version = Inr v" for v
    using volume_section_files [OF that assms(2)] by blast
  from assms(1) consider "se_tag sec = 1" "ss' = ss\<lparr>ss_manifest := Some sec\<rparr>"
    | v where "parseVolumePayload sec ''atoms'' [] version = Inr v"
        "ss' = ss\<lparr>ss_atoms := Some \<lparr>aa_files = vo_files v, aa_hash = sectionHashHex sec,
           aa_payloadSpan = Some (spanOf (se_payloadOffset sec) (se_length sec))\<rparr>\<rparr>"
    | v where "parseVolumeSection sec version = Inr v" "ss' = ss\<lparr>ss_volumes := table_set (vo_name v) v (ss_volumes ss)\<rparr>"
    | "ss' = ss"
    by (auto simp: add_section_def bindR_Inr parseAtomsSection_def split: if_splits)
  then show ?thesis
    using assms(2,3) atoms vol
    by cases (auto simp: sections_in_def simp del: table_set.simps elim!: table_values_setE)
qed

lemma sections_loop_in:
  "sections_loop data version offset ss = Inr ss' \<Longrightarrow> sections_in data ss \<Longrightarrow> sections_in data ss'"
proof (induction data version offset ss rule: sections_loop.induct)
  case (1 data version offset ss)
  from "1.prems"(1) consider "ss' = ss"
    | sec ss1 where "0 \<le> offset" "offset < int (length data)" "section_at data version offset = Inr sec"
        "add_section version sec ss = Inr ss1"
        "sections_loop data version (se_payloadOffset sec + se_length sec) ss1 = Inr ss'"
    by (subst (asm) sections_loop.simps) (auto simp: bindR_Inr split: if_splits)
  then show ?case
  proof cases
    case 2
    then show ?thesis
      using "1.IH" [of sec ss1] "1.prems"(2) section_at_view add_section_in by blast
  qed (use "1.prems" in simp)
qed

theorem sections_in_package: "readWebcSections data version = Inr ss \<Longrightarrow> sections_in data ss"
  unfolding readWebcSections_def
  by (erule sections_loop_in) (simp add: sections_in_def)

end
