(* ===== verification/Webc_Cbor.thy ===== *)
theory Webc_Cbor imports Webc_Volume begin

text \<open>
  \<open>CborReader\<close> of \<open>apps/web/src/webc-metadata.js\<close>, which reads the manifest of a package, and the
  JavaScript values it builds. A map becomes an object: a key that is not text becomes
  \<open>String(key)\<close>, and the key \<open>__proto__\<close> sets the prototype of the object, as an assignment in
  JavaScript does. Proved: a value of text, integers, bytes, arrays and maps comes back from its
  encoding, and the reader ends on every input.
\<close>

section \<open>JavaScript values\<close>

text \<open>Numbers: \<open>Finite m e\<close> is \<open>m * 2 ^ e\<close>; the sign of a zero is not kept.\<close>

datatype js_number = Finite int int | Infinite bool | Not_a_number

datatype 'a js_proto = Object_prototype | Null_prototype | Prototype 'a

datatype js_value =
    Undefined
  | Null
  | Boolean bool
  | Number js_number
  | Text string
  | Bytes "byte list"
  | Array "js_value list"
  | Object "(string \<times> js_value) list" "js_value js_proto"

abbreviation "Integer n \<equiv> Number (Finite n 0)"

text \<open>
  Assigning to \<open>__proto__\<close> finds the setter of \<open>Object.prototype\<close>, unless a prototype on the way has
  an own property of that name or the chain ends before; then it makes an own property.
\<close>

fun setter_on :: "js_value \<Rightarrow> bool" where
  "setter_on (Object props p) \<longleftrightarrow>
     map_of props proto_key = None \<and>
     (case p of Object_prototype \<Rightarrow> True | Null_prototype \<Rightarrow> False | Prototype q \<Rightarrow> setter_on q)"
| "setter_on v \<longleftrightarrow> True"

definition finds_setter :: "js_value js_proto \<Rightarrow> bool" where
  "finds_setter p \<longleftrightarrow>
     (case p of Object_prototype \<Rightarrow> True | Null_prototype \<Rightarrow> False | Prototype q \<Rightarrow> setter_on q)"

fun new_prototype :: "js_value \<Rightarrow> js_value js_proto \<Rightarrow> js_value js_proto" where
  "new_prototype Null p = Null_prototype"
| "new_prototype (Object props q) p = Prototype (Object props q)"
| "new_prototype (Array vs) p = Prototype (Array vs)"
| "new_prototype (Bytes bs) p = Prototype (Bytes bs)"
| "new_prototype v p = p"

type_synonym js_object = "(string \<times> js_value) list \<times> js_value js_proto"

fun object_set :: "js_object \<Rightarrow> string \<times> js_value \<Rightarrow> js_object" where
  "object_set (props, p) (k, v) =
     (if k = proto_key \<and> map_of props k = None \<and> finds_setter p then (props, new_prototype v p)
      else (AList.update k v props, p))"

section \<open>The reader\<close>

text \<open>The reader is the bytes and an offset, which every method returns moved.\<close>

definition MAX_CBOR_DEPTH :: nat where "MAX_CBOR_DEPTH = 128"

definition cbor_byte :: "byte list \<Rightarrow> int \<Rightarrow> webc_error + int \<times> int" where
  "cbor_byte bytes offset = requireAvailable bytes offset 1 (Inr (offset + 1, uint (byte_at bytes offset)))"

definition cbor_bytes :: "byte list \<Rightarrow> int \<Rightarrow> int \<Rightarrow> webc_error + int \<times> byte list" where
  "cbor_bytes bytes offset len =
     requireAvailable bytes offset len (Inr (offset + len, js_slice bytes offset (offset + len)))"

definition be_value :: "byte list \<Rightarrow> int" where
  "be_value bs = le_value (rev bs)"

definition cbor_uint :: "byte list \<Rightarrow> int \<Rightarrow> int \<Rightarrow> webc_error + int \<times> int" where
  "cbor_uint bytes offset len =
     bindR (cbor_bytes bytes offset len) (\<lambda>(o', bs). Inr (o', be_value bs))"

definition readArgument :: "byte list \<Rightarrow> int \<Rightarrow> int \<Rightarrow> webc_error + int \<times> int" where
  "readArgument bytes offset additional =
     (if additional < 24 then Inr (offset, additional)
      else if additional = 24 then cbor_byte bytes offset
      else if additional = 25 then cbor_uint bytes offset 2
      else if additional = 26 then cbor_uint bytes offset 4
      else if additional = 27 then
        bindR (cbor_bytes bytes offset 8) (\<lambda>(o', bs).
        bindR (uint64BigIntToNumber bs False) (\<lambda>n. Inr (o', n)))
      else Inl (Bad_length additional))"

definition decodeFloat16 :: "int \<Rightarrow> js_number" where
  "decodeFloat16 n =
     (let sign = (if n div 32768 = 0 then 1 else - 1); exponent = n div 1024 mod 32; fraction = n mod 1024 in
      if exponent = 31 then (if fraction = 0 then Infinite (sign < 0) else Not_a_number)
      else if exponent = 0 then Finite (sign * fraction) (- 24)
      else Finite (sign * (1024 + fraction)) (exponent - 25))"

text \<open>\<open>getFloat32\<close> and \<open>getFloat64\<close>: IEEE 754 with \<open>eb\<close> bits of exponent and \<open>fb\<close> of fraction.\<close>

definition ieee_value :: "nat \<Rightarrow> nat \<Rightarrow> int \<Rightarrow> js_number" where
  "ieee_value eb fb n =
     (let sign = (if n div 2 ^ (eb + fb) = 0 then 1 else - 1); exponent = n div 2 ^ fb mod 2 ^ eb;
          fraction = n mod 2 ^ fb; bias = 2 ^ (eb - 1) - 1 in
      if exponent = 2 ^ eb - 1 then (if fraction = 0 then Infinite (sign < 0) else Not_a_number)
      else if exponent = 0 then Finite (sign * fraction) (1 - bias - int fb)
      else Finite (sign * (2 ^ fb + fraction)) (exponent - bias - int fb))"

definition readSimple :: "byte list \<Rightarrow> int \<Rightarrow> int \<Rightarrow> webc_error + int \<times> js_value" where
  "readSimple bytes offset additional =
     (if additional = 20 then Inr (offset, Boolean False)
      else if additional = 21 then Inr (offset, Boolean True)
      else if additional = 22 then Inr (offset, Null)
      else if additional = 23 then Inr (offset, Undefined)
      else if additional = 24 then bindR (cbor_byte bytes offset) (\<lambda>(o', n). Inr (o', Integer n))
      else if additional = 25 then
        bindR (cbor_uint bytes offset 2) (\<lambda>(o', n). Inr (o', Number (decodeFloat16 n)))
      else if additional = 26 then
        bindR (cbor_uint bytes offset 4) (\<lambda>(o', n). Inr (o', Number (ieee_value 8 23 n)))
      else if additional = 27 then
        bindR (cbor_uint bytes offset 8) (\<lambda>(o', n). Inr (o', Number (ieee_value 11 52 n)))
      else Inl (Bad_simple additional))"

text \<open>The loops of \<open>readArray\<close> and \<open>readMap\<close>: \<open>n\<close> items, one after the other.\<close>

fun read_items :: "(int \<Rightarrow> webc_error + int \<times> 'a) \<Rightarrow> nat \<Rightarrow> int \<Rightarrow> webc_error + int \<times> 'a list" where
  "read_items rd 0 offset = Inr (offset, [])"
| "read_items rd (Suc n) offset =
     bindR (rd offset) (\<lambda>(o', x). bindR (read_items rd n o') (\<lambda>(o'', xs). Inr (o'', x # xs)))"

text \<open>
  \<open>readPair\<close> is one round of \<open>readMap\<close>; \<open>key_text\<close> is \<open>String\<close> on a key that is not text, which
  throws on an object that cannot be converted.
\<close>

definition readPair :: "(js_value \<Rightarrow> string option) \<Rightarrow> (int \<Rightarrow> webc_error + int \<times> js_value) \<Rightarrow> int \<Rightarrow>
    webc_error + int \<times> string \<times> js_value" where
  "readPair key_text rd offset =
     bindR (rd offset) (\<lambda>(o1, key).
     bindR (case key of Text s \<Rightarrow> Inr s
            | _ \<Rightarrow> (case key_text key of Some s \<Rightarrow> Inr s | None \<Rightarrow> Inl Bad_key)) (\<lambda>k.
     bindR (rd o1) (\<lambda>(o2, v). Inr (o2, k, v))))"

text \<open>\<open>readValue\<close>; the first argument is how many more levels \<open>MAX_CBOR_DEPTH\<close> leaves.\<close>

fun readValue :: "(js_value \<Rightarrow> string option) \<Rightarrow> byte list \<Rightarrow> nat \<Rightarrow> int \<Rightarrow> webc_error + int \<times> js_value" where
  "readValue key_text bytes 0 offset = Inl Too_deep"
| "readValue key_text bytes (Suc levels) offset =
     bindR (cbor_byte bytes offset) (\<lambda>(o0, initial).
     let major = initial div 32; additional = initial mod 32;
         argument = readArgument bytes o0 additional in
     if major = 0 then bindR argument (\<lambda>(o1, n). Inr (o1, Integer n))
     else if major = 1 then bindR argument (\<lambda>(o1, n). Inr (o1, Integer (- 1 - n)))
     else if major = 2 then
       bindR argument (\<lambda>(o1, n). bindR (cbor_bytes bytes o1 n) (\<lambda>(o2, bs). Inr (o2, Bytes bs)))
     else if major = 3 then
       bindR argument (\<lambda>(o1, n). bindR (cbor_bytes bytes o1 n) (\<lambda>(o2, bs). Inr (o2, Text (decodeText bs))))
     else if major = 4 then
       bindR argument (\<lambda>(o1, n).
       bindR (read_items (readValue key_text bytes levels) (nat n) o1) (\<lambda>(o2, xs). Inr (o2, Array xs)))
     else if major = 5 then
       bindR argument (\<lambda>(o1, n).
       bindR (read_items (readPair key_text (readValue key_text bytes levels)) (nat n) o1) (\<lambda>(o2, kvs).
       case foldl object_set ([], Object_prototype) kvs of (props, p) \<Rightarrow> Inr (o2, Object props p)))
     else if major = 6 then
       bindR argument (\<lambda>(o1, n).
       bindR (readValue key_text bytes levels o1) (\<lambda>(o2, v).
       Inr (o2, Object [(''tag'', Integer n), (''value'', v)] Object_prototype)))
     else readSimple bytes o0 additional)"

definition decodeCbor :: "(js_value \<Rightarrow> string option) \<Rightarrow> byte list \<Rightarrow> webc_error + js_value" where
  "decodeCbor key_text bytes =
     bindR (readValue key_text bytes (Suc MAX_CBOR_DEPTH) 0) (\<lambda>(offset, value).
     checkR (offset = int (length bytes)) Trailing_data (Inr value))"

section \<open>Round trip\<close>

definition be_bytes :: "nat \<Rightarrow> int \<Rightarrow> byte list" where
  "be_bytes n v = rev (le_bytes n v)"

definition cbor_head :: "int \<Rightarrow> int \<Rightarrow> byte list" where
  "cbor_head major n =
     (if n < 24 then [word_of_int (major * 32 + n)]
      else if n < 256 then word_of_int (major * 32 + 24) # be_bytes 1 n
      else if n < 65536 then word_of_int (major * 32 + 25) # be_bytes 2 n
      else if n < 4294967296 then word_of_int (major * 32 + 26) # be_bytes 4 n
      else word_of_int (major * 32 + 27) # be_bytes 8 n)"

definition text_bytes :: "string \<Rightarrow> byte list" where
  "text_bytes s = cbor_head 3 (int (length s)) @ encodeText s"

fun encodeCbor :: "js_value \<Rightarrow> byte list" where
  "encodeCbor (Number (Finite n e)) = (if 0 \<le> n then cbor_head 0 n else cbor_head 1 (- 1 - n))"
| "encodeCbor (Text s) = text_bytes s"
| "encodeCbor (Bytes bs) = cbor_head 2 (int (length bs)) @ bs"
| "encodeCbor (Array vs) = cbor_head 4 (int (length vs)) @ concat (map encodeCbor vs)"
| "encodeCbor (Object props p) =
     cbor_head 5 (int (length props)) @ concat (map (\<lambda>(k, v). text_bytes k @ encodeCbor v) props)"
| "encodeCbor (Boolean b) = [if b then 0xf5 else 0xf4]"
| "encodeCbor Null = [0xf6]"
| "encodeCbor _ = [0xf7]"

text \<open>The values that have an encoding: \<open>l\<close> levels, safe integers, plain objects.\<close>

definition short :: "'a list \<Rightarrow> bool" where
  "short xs \<longleftrightarrow> int (length xs) \<le> max_safe_integer"

definition text_ok :: "string \<Rightarrow> bool" where
  "text_ok s \<longleftrightarrow> short s \<and> decodeText (encodeText s) = s"

fun encodable :: "nat \<Rightarrow> js_value \<Rightarrow> bool" where
  "encodable 0 v \<longleftrightarrow> False"
| "encodable (Suc l) (Number (Finite n e)) \<longleftrightarrow> e = 0 \<and> - max_safe_integer - 1 \<le> n \<and> n \<le> max_safe_integer"
| "encodable (Suc l) (Number x) \<longleftrightarrow> False"
| "encodable (Suc l) (Text s) \<longleftrightarrow> text_ok s"
| "encodable (Suc l) (Bytes bs) \<longleftrightarrow> short bs"
| "encodable (Suc l) (Array vs) \<longleftrightarrow> short vs \<and> list_all (encodable l) vs"
| "encodable (Suc l) (Object props p) \<longleftrightarrow>
     p = Object_prototype \<and> short props \<and> distinct (map fst props) \<and> proto_key \<notin> fst ` set props \<and>
     l \<noteq> 0 \<and> list_all (\<lambda>(k, v). text_ok k \<and> encodable l v) props"
| "encodable (Suc l) v \<longleftrightarrow> True"

lemma be_value_be_bytes: "be_value (be_bytes n v) = v mod 256 ^ n"
  by (simp add: be_value_def be_bytes_def le_value_le_bytes)

lemma length_be_bytes [simp]: "length (be_bytes n v) = n"
  by (simp add: be_bytes_def)

lemma cbor_bytes_at:
  assumes "data = pre @ bs @ post" "c = int (length pre)" "n = int (length bs)"
  shows "cbor_bytes data c n = Inr (c + n, bs)"
  using assms by (simp add: cbor_bytes_def requireAvailable_def)

lemma cbor_byte_at:
  assumes "data = pre @ b # post" "c = int (length pre)"
  shows "cbor_byte data c = Inr (c + 1, uint b)"
  using assms by (simp add: cbor_byte_def requireAvailable_def)

lemma head_byte:
  assumes "0 \<le> major" "major < 8" "0 \<le> a" "a < 32"
  shows "uint (word_of_int (major * 32 + a) :: byte) div 32 = major"
    "uint (word_of_int (major * 32 + a) :: byte) mod 32 = a"
proof -
  have "uint (word_of_int (major * 32 + a) :: byte) = major * 32 + a"
    using assms by (simp only: uint_word_of_int) simp
  then show "uint (word_of_int (major * 32 + a) :: byte) div 32 = major"
    "uint (word_of_int (major * 32 + a) :: byte) mod 32 = a"
    using assms by simp_all
qed

text \<open>What follows the first byte of a head.\<close>

lemma read_uint:
  assumes "data = pre @ be_bytes k n @ post" "c = int (length pre)" "0 \<le> n" "n < 256 ^ k"
  shows "cbor_uint data c (int k) = Inr (c + int k, n)"
  using assms
  by (simp add: cbor_uint_def cbor_bytes_at [where pre = pre and bs = "be_bytes k n" and post = post]
      be_value_be_bytes)

lemma argument_read:
  assumes "0 \<le> n" "n \<le> max_safe_integer"
  obtains a bs where "\<And>major. cbor_head major n = word_of_int (major * 32 + a) # bs" "0 \<le> a" "a < 32"
    "\<And>data pre post. data = pre @ bs @ post \<Longrightarrow>
       readArgument data (int (length pre)) a = Inr (int (length pre) + int (length bs), n)"
proof -
  consider "n < 24" | "24 \<le> n" "n < 256" | "256 \<le> n" "n < 65536" | "65536 \<le> n" "n < 4294967296"
    | "4294967296 \<le> n" by linarith
  then show thesis
  proof cases
    case 1
    show thesis
      by (rule that [of n "[]"]) (use 1 assms in \<open>simp_all add: cbor_head_def readArgument_def\<close>)
  next
    case 2
    have byte: "be_bytes 1 n = [word_of_int n]" "uint (word_of_int n :: byte) = n"
      using 2 by (simp_all add: be_bytes_def uint_word_of_int)
    show thesis
      by (rule that [of 24 "be_bytes 1 n"])
        (use 2 byte in \<open>simp_all add: cbor_head_def readArgument_def cbor_byte_at\<close>)
  next
    case 3
    show thesis
      by (rule that [of 25 "be_bytes 2 n"])
        (use 3 read_uint [of _ _ 2 n] in \<open>simp_all add: cbor_head_def readArgument_def\<close>)
  next
    case 4
    show thesis
      by (rule that [of 26 "be_bytes 4 n"])
        (use 4 read_uint [of _ _ 4 n] in \<open>simp_all add: cbor_head_def readArgument_def\<close>)
  next
    case 5
    have small: "n < 256 ^ 8" using assms by (simp add: max_safe_integer_def)
    show thesis
    proof (rule that [of 27 "be_bytes 8 n"])
      fix data pre post :: "byte list"
      assume "data = pre @ be_bytes 8 n @ post"
      then have "cbor_bytes data (int (length pre)) 8 = Inr (int (length pre) + 8, be_bytes 8 n)"
        by (intro cbor_bytes_at) simp_all
      then show "readArgument data (int (length pre)) 27 =
          Inr (int (length pre) + int (length (be_bytes 8 n)), n)"
        using assms small be_value_be_bytes [of 8 n]
        by (simp add: readArgument_def uint64BigIntToNumber_def be_value_def Let_def)
    qed (use 5 in \<open>simp_all add: cbor_head_def\<close>)
  qed
qed

lemma cbor_head_read:
  assumes "data = pre @ cbor_head major n @ post" "c = int (length pre)"
    and "0 \<le> major" "major < 8" "0 \<le> n" "n \<le> max_safe_integer"
  obtains b where "cbor_byte data c = Inr (c + 1, b)" "b div 32 = major"
    "readArgument data (c + 1) (b mod 32) = Inr (c + int (length (cbor_head major n)), n)"
proof -
  obtain a bs where head: "cbor_head major n = word_of_int (major * 32 + a) # bs" "0 \<le> a" "a < 32"
    and arg: "\<And>data pre post. data = pre @ bs @ post \<Longrightarrow>
       readArgument data (int (length pre)) a = Inr (int (length pre) + int (length bs), n)"
    using argument_read [OF assms(5,6)] by metis
  note bits = head_byte [OF assms(3,4) head(2,3)]
  show thesis
  proof (rule that)
    show "cbor_byte data c = Inr (c + 1, uint (word_of_int (major * 32 + a) :: byte))"
      using assms(1,2) head(1) by (intro cbor_byte_at) simp_all
    show "readArgument data (c + 1) (uint (word_of_int (major * 32 + a) :: byte) mod 32) =
        Inr (c + int (length (cbor_head major n)), n)"
      using arg [of data "pre @ [word_of_int (major * 32 + a)]" post] assms(1,2) head(1) bits
      by (simp add: ac_simps)
  qed (rule bits(1))
qed

lemma read_items_enc:
  assumes "\<And>x pre post. x \<in> set xs \<Longrightarrow> data = pre @ enc x @ post \<Longrightarrow>
      rd (int (length pre)) = Inr (int (length pre) + int (length (enc x)), x)"
    and "data = pre @ concat (map enc xs) @ post"
  shows "read_items rd (length xs) (int (length pre)) =
         Inr (int (length pre) + int (length (concat (map enc xs))), xs)"
  using assms
proof (induction xs arbitrary: pre)
  case (Cons x xs)
  have "rd (int (length pre)) = Inr (int (length pre) + int (length (enc x)), x)"
    using Cons.prems(2) by (intro Cons.prems(1) [where post = "concat (map enc xs) @ post"]) simp_all
  moreover have "read_items rd (length xs) (int (length (pre @ enc x))) =
      Inr (int (length (pre @ enc x)) + int (length (concat (map enc xs))), xs)"
  proof (rule Cons.IH)
    show "data = (pre @ enc x) @ concat (map enc xs) @ post" using Cons.prems(2) by simp
  next
    fix y p q
    assume "y \<in> set xs" "data = p @ enc y @ q"
    then show "rd (int (length p)) = Inr (int (length p) + int (length (enc y)), y)"
      by (intro Cons.prems(1)) simp_all
  qed
  ultimately show ?case by simp
qed simp

lemma object_set_fresh:
  assumes "distinct (map fst (props @ kvs))" "proto_key \<notin> fst ` set kvs"
  shows "foldl object_set (props, p) kvs = (props @ kvs, p)"
  using assms
proof (induction kvs arbitrary: props)
  case (Cons kv kvs)
  obtain k v where kv: "kv = (k, v)" by (cases kv)
  with Cons.prems have "k \<notin> fst ` set props" "k \<noteq> proto_key" by auto
  then have "object_set (props, p) kv = (props @ [kv], p)"
    by (simp add: kv update_new)
  then show ?case using Cons by simp
qed simp

lemma read_text:
  assumes "data = pre @ text_bytes s @ post" "text_ok s"
  shows "readValue key_text data (Suc l) (int (length pre)) =
         Inr (int (length pre) + int (length (text_bytes s)), Text s)"
proof -
  let ?head = "cbor_head 3 (int (length s))"
  have data: "data = pre @ ?head @ (encodeText s @ post)" "data = (pre @ ?head) @ encodeText s @ post"
    using assms(1) by (simp_all add: text_bytes_def)
  obtain b where b: "cbor_byte data (int (length pre)) = Inr (int (length pre) + 1, b)" "b div 32 = 3"
    "readArgument data (int (length pre) + 1) (b mod 32) = Inr (int (length pre) + int (length ?head), int (length s))"
    by (rule cbor_head_read [OF data(1) refl]) (use assms(2) in \<open>simp_all add: text_ok_def short_def\<close>)
  have "cbor_bytes data (int (length pre) + int (length ?head)) (int (length s)) =
      Inr (int (length pre) + int (length ?head) + int (length s), encodeText s)"
    by (rule cbor_bytes_at [OF data(2)]) simp_all
  with b assms(2) show ?thesis
    by (simp add: text_bytes_def text_ok_def)
qed

lemma read_encoded:
  "encodable l v \<Longrightarrow> data = pre @ encodeCbor v @ post \<Longrightarrow>
   readValue key_text data l (int (length pre)) = Inr (int (length pre) + int (length (encodeCbor v)), v)"
proof (induction l arbitrary: v pre post)
  case (Suc l)
  have head: "\<exists>b. cbor_byte data (int (length pre)) = Inr (int (length pre) + 1, b) \<and> b div 32 = major \<and>
      readArgument data (int (length pre) + 1) (b mod 32) = Inr (int (length pre) + int (length (cbor_head major n)), n)"
    if "data = pre @ cbor_head major n @ rest" "0 \<le> major" "major < 8" "0 \<le> n" "n \<le> max_safe_integer" for major n rest
    using cbor_head_read [OF that(1) refl that(2-5)] by metis
  have simple: "cbor_byte data (int (length pre)) = Inr (int (length pre) + 1, uint b)" if "encodeCbor v = [b]" for b
    using Suc.prems(2) that by (intro cbor_byte_at) simp_all
  show ?case
  proof (cases v)
    case (Number x)
    with Suc.prems(1) obtain n where x: "v = Integer n" "- max_safe_integer - 1 \<le> n" "n \<le> max_safe_integer"
      by (cases x) auto
    then show ?thesis
      using head [of "if 0 \<le> n then 0 else 1" "if 0 \<le> n then n else - 1 - n" post] Suc.prems(2)
      by (auto split: if_splits)
  next
    case (Text s)
    then show ?thesis using Suc.prems read_text by simp
  next
    case (Bytes bs)
    let ?head = "cbor_head 2 (int (length bs))"
    have "cbor_bytes data (int (length pre) + int (length ?head)) (int (length bs)) =
        Inr (int (length pre) + int (length ?head) + int (length bs), bs)"
      using Suc.prems(2) Bytes by (intro cbor_bytes_at [where pre = "pre @ ?head"]) simp_all
    with Bytes Suc.prems head [of 2 "int (length bs)" "bs @ post"] show ?thesis
      by (auto simp: short_def)
  next
    case (Array vs)
    let ?head = "cbor_head 4 (int (length vs))"
    have "read_items (readValue key_text data l) (length vs) (int (length (pre @ ?head))) =
        Inr (int (length (pre @ ?head)) + int (length (concat (map encodeCbor vs))), vs)"
      using Suc.prems Array by (intro read_items_enc [where post = post] Suc.IH) (auto simp: list_all_iff)
    with Array Suc.prems head [of 4 "int (length vs)" "concat (map encodeCbor vs) @ post"] show ?thesis
      by (auto simp: short_def)
  next
    case (Object props p)
    let ?head = "cbor_head 5 (int (length props))" and ?enc = "\<lambda>(k, v). text_bytes k @ encodeCbor v"
    have pair: "readPair key_text (readValue key_text data l) (int (length q)) =
        Inr (int (length q) + int (length (?enc kv)), kv)"
      if kv: "kv \<in> set props" "data = q @ ?enc kv @ r" for kv q r
    proof -
      obtain k w where kw: "kv = (k, w)" by (cases kv)
      with kv Suc.prems(1) Object obtain m where m: "l = Suc m" "text_ok k" "encodable l w"
        by (cases l) (auto simp: list_all_iff)
      have "readValue key_text data l (int (length q)) = Inr (int (length q) + int (length (text_bytes k)), Text k)"
        using kv kw m by (simp add: read_text [where post = "encodeCbor w @ r"] del: readValue.simps)
      moreover have "readValue key_text data l (int (length (q @ text_bytes k))) =
          Inr (int (length (q @ text_bytes k)) + int (length (encodeCbor w)), w)"
        using kv kw m by (intro Suc.IH [where post = r]) simp_all
      ultimately show ?thesis by (simp add: readPair_def kw)
    qed
    have "read_items (readPair key_text (readValue key_text data l)) (length props) (int (length (pre @ ?head))) =
        Inr (int (length (pre @ ?head)) + int (length (concat (map ?enc props))), props)"
      using Suc.prems Object by (intro read_items_enc [where post = post] pair) simp_all
    moreover have "foldl object_set ([], Object_prototype) props = ([] @ props, Object_prototype)"
      using Suc.prems(1) Object by (intro object_set_fresh) simp_all
    ultimately show ?thesis
      using Object Suc.prems head [of 5 "int (length props)" "concat (map ?enc props) @ post"]
      by (auto simp: short_def)
  qed (use Suc.prems simple in \<open>auto simp: readSimple_def\<close>)
qed simp

text \<open>
  C16: a manifest of text, integers, bytes, booleans, arrays and maps with text keys comes back from
  its CBOR encoding, in the order of its keys, up to 129 levels deep.
\<close>

theorem cbor_roundtrip:
  assumes "encodable (Suc MAX_CBOR_DEPTH) v"
  shows "decodeCbor key_text (encodeCbor v) = Inr v"
  using read_encoded [OF assms, of "encodeCbor v" "[]" "[]" key_text]
  by (simp add: decodeCbor_def del: readValue.simps)

end
