(* ===== verification/Webc_Manifest.thy ===== *)
theory Webc_Manifest imports Webc_Cbor Workspace_Store begin

text \<open>
  \<open>normalizeWebcManifest\<close> and \<open>extractWebcPackageMetadata\<close> of \<open>apps/web/src/webc-metadata.js\<close>: what
  the browser keeps of the manifest of a package, and the checks that its commands and mounts refer
  to atoms and volumes of the package. Proved of every package that is accepted: each file is the
  slice of the package that its span names, the default command is a command, and each command runs
  an atom that is in the package, or one named as a property that every object inherits.
\<close>

section \<open>Properties of values\<close>

text \<open>\<open>v.name\<close> for the names of a manifest, none of which arrays or built-in prototypes have.\<close>

fun js_get :: "js_value \<Rightarrow> string \<Rightarrow> js_value" where
  "js_get (Object props p) k =
     (case map_of props k of Some v \<Rightarrow> v
      | None \<Rightarrow> (case p of Prototype q \<Rightarrow> js_get q k | _ \<Rightarrow> Undefined))"
| "js_get v k = Undefined"

text \<open>\<open>field(value, ...names)\<close>: the first of the names that is an own property.\<close>

fun own_field :: "js_value \<Rightarrow> string list \<Rightarrow> js_value" where
  "own_field v [] = Undefined"
| "own_field v (k # ks) =
     (case v of
        Object props p \<Rightarrow> (case map_of props k of Some w \<Rightarrow> w | None \<Rightarrow> own_field v ks)
      | _ \<Rightarrow> Undefined)"

definition objectValue :: "js_value \<Rightarrow> string \<Rightarrow> webc_error + js_value" where
  "objectValue v message =
     (case v of Object props p \<Rightarrow> Inr v | Bytes bs \<Rightarrow> Inr v | _ \<Rightarrow> Inl (Not_a_map message))"

definition optionalObject :: "js_value \<Rightarrow> webc_error + js_value option" where
  "optionalObject v =
     (if v = Undefined \<or> v = Null then Inr None
      else bindR (objectValue v ''WebC manifest field must be a map'') (\<lambda>o'. Inr (Some o')))"

definition optionalString :: "js_value \<Rightarrow> string option" where
  "optionalString v = (case v of Text s \<Rightarrow> if js_trim s \<noteq> [] then Some (js_trim s) else None | _ \<Rightarrow> None)"

fun optionalStringList :: "js_value \<Rightarrow> string list" where
  "optionalStringList (Array vs) = concat (map (\<lambda>v. case v of Text s \<Rightarrow> [s] | _ \<Rightarrow> []) vs)"
| "optionalStringList v = []"

text \<open>\<open>a ?? b\<close>, \<open>o?.name\<close> and \<open>o ?? {}\<close>.\<close>

definition or_else :: "'a option \<Rightarrow> 'a option \<Rightarrow> 'a option" where
  "or_else a b = (case a of Some x \<Rightarrow> Some x | None \<Rightarrow> b)"

definition get_opt :: "js_value option \<Rightarrow> string \<Rightarrow> js_value" where
  "get_opt o' k = (case o' of Some v \<Rightarrow> js_get v k | None \<Rightarrow> Undefined)"

definition field_opt :: "js_value option \<Rightarrow> string list \<Rightarrow> js_value" where
  "field_opt o' ks = (case o' of Some v \<Rightarrow> own_field v ks | None \<Rightarrow> Undefined)"

definition or_empty :: "js_value option \<Rightarrow> js_value" where
  "or_empty o' = (case o' of Some v \<Rightarrow> v | None \<Rightarrow> Object [] Object_prototype)"

section \<open>The order of keys\<close>

text \<open>\<open>Object.keys\<close>: array indices first, in numeric order, then the other keys as inserted.\<close>

fun digits_value :: "nat \<Rightarrow> string \<Rightarrow> nat option" where
  "digits_value n [] = Some n"
| "digits_value n (c # cs) =
     (if 48 \<le> (of_char c :: nat) \<and> of_char c \<le> (57 :: nat) then digits_value (10 * n + (of_char c - 48)) cs else None)"

definition array_index :: "string \<Rightarrow> nat option" where
  "array_index k =
     (case k of [] \<Rightarrow> None
      | c # cs \<Rightarrow>
          if c = CHR ''0'' \<and> cs \<noteq> [] then None
          else (case digits_value 0 k of Some n \<Rightarrow> if n < 4294967295 then Some n else None | None \<Rightarrow> None))"

definition own_keys :: "(string \<times> 'v) list \<Rightarrow> string list" where
  "own_keys props =
     (let ks = map fst props in
      sort_key (\<lambda>k. case array_index k of Some n \<Rightarrow> n | None \<Rightarrow> 0) [k \<leftarrow> ks. array_index k \<noteq> None] @
      [k \<leftarrow> ks. array_index k = None])"

text \<open>\<open>Object.entries\<close> of an object that is not an array; those of a byte array are its indices.\<close>

fun decimal :: "nat \<Rightarrow> string" where
  "decimal n = (if n < 10 then [char_of (48 + n)] else decimal (n div 10) @ [char_of (48 + n mod 10)])"

declare decimal.simps [simp del]

definition own_entries :: "js_value \<Rightarrow> (string \<times> js_value) list" where
  "own_entries v =
     (case v of
        Object props p \<Rightarrow> map (\<lambda>k. (k, the (map_of props k))) (own_keys props)
      | Bytes bs \<Rightarrow> map (\<lambda>i. (decimal i, Integer (uint (bs ! i)))) [0..<length bs]
      | _ \<Rightarrow> [])"

section \<open>The manifest\<close>

record command_metadata =
  cm_annotations :: js_value
  cm_atom :: "string option"
  cm_cwd :: "string option"
  cm_dependency :: "string option"
  cm_env :: "string list"
  cm_execName :: "string option"
  cm_mainArgs :: "string list"
  cm_runner :: "string option"

record atom_metadata =
  am_annotations :: js_value
  am_kind :: "string option"
  am_signature :: "string option"

record package_info =
  pi_description :: "string option"
  pi_homepage :: "string option"
  pi_license :: "string option"
  pi_name :: "string option"
  pi_private :: bool
  pi_repository :: "string option"
  pi_version :: "string option"

record fs_mapping =
  fm_from :: "string option"
  fm_hostPath :: "string option"
  fm_mountPath :: string
  fm_volumeName :: string

record webc_metadata =
  wm_atoms :: "atom_metadata js_table"
  wm_commandMetadata :: "command_metadata js_table"
  wm_commands :: "string list"
  wm_defaultCommand :: string
  wm_filesystem :: "fs_mapping list"
  wm_manifest :: js_value
  wm_package :: package_info
  wm_version :: string

definition command_of :: "string \<Rightarrow> js_value \<Rightarrow> webc_error + command_metadata" where
  "command_of name value =
     bindR (objectValue value (''WebC command '' @ name @ '' must be a map'')) (\<lambda>command.
     bindR (optionalObject (js_get command ''annotations'')) (\<lambda>ann.
     let annotations = or_empty ann in
     bindR (optionalObject (js_get annotations ''atom'')) (\<lambda>atom.
     bindR (optionalObject (js_get annotations ''wasi'')) (\<lambda>wasi.
     Inr \<lparr>cm_annotations = annotations,
          cm_atom = or_else (optionalString (get_opt atom ''name'')) (optionalString (get_opt wasi ''atom'')),
          cm_cwd = optionalString (field_opt wasi [''cwd'']),
          cm_dependency = or_else (optionalString (get_opt atom ''dependency''))
                            (optionalString (field_opt wasi [''package''])),
          cm_env = optionalStringList (field_opt wasi [''env'']),
          cm_execName = or_else (optionalString (field_opt wasi [''exec_name'', ''exec-name'']))
                          (optionalString (field_opt wasi [''execName''])),
          cm_mainArgs = optionalStringList (field_opt wasi [''main_args'', ''main-args'']),
          cm_runner = optionalString (js_get command ''runner'')\<rparr>))))"

fun fill_table :: "(string \<Rightarrow> js_value \<Rightarrow> webc_error + 'v) \<Rightarrow> (string \<times> js_value) list \<Rightarrow> 'v js_table \<Rightarrow>
    webc_error + 'v js_table" where
  "fill_table f [] t = Inr t"
| "fill_table f ((k, v) # kvs) t = bindR (f k v) (\<lambda>x. fill_table f kvs (table_set k x t))"

definition normalizeCommandMetadata :: "js_value \<Rightarrow> webc_error + command_metadata js_table" where
  "normalizeCommandMetadata commandMap = fill_table command_of (own_entries commandMap) empty_table"

definition atom_of :: "string \<Rightarrow> js_value \<Rightarrow> webc_error + atom_metadata" where
  "atom_of name value =
     bindR (objectValue value (''WebC atom '' @ name @ '' must be a map'')) (\<lambda>atom.
     bindR (optionalObject (js_get atom ''annotations'')) (\<lambda>ann.
     Inr \<lparr>am_annotations = or_empty ann, am_kind = optionalString (js_get atom ''kind''),
          am_signature = optionalString (js_get atom ''signature'')\<rparr>))"

definition normalizeAtoms :: "js_value \<Rightarrow> webc_error + atom_metadata js_table" where
  "normalizeAtoms value =
     bindR (optionalObject value) (\<lambda>atoms. fill_table atom_of (own_entries (or_empty atoms)) empty_table)"

definition normalizePackageAnnotations :: "js_value \<Rightarrow> webc_error + package_info" where
  "normalizePackageAnnotations annotations =
     bindR (optionalObject (js_get annotations ''wapm'')) (\<lambda>o'.
     let wapm = or_empty o' in
     Inr \<lparr>pi_description = optionalString (js_get wapm ''description''),
          pi_homepage = optionalString (js_get wapm ''homepage''),
          pi_license = optionalString (js_get wapm ''license''),
          pi_name = optionalString (js_get wapm ''name''),
          pi_private = (js_get wapm ''private'' = Boolean True),
          pi_repository = optionalString (js_get wapm ''repository''),
          pi_version = optionalString (js_get wapm ''version'')\<rparr>)"

definition required :: "string option \<Rightarrow> string \<Rightarrow> webc_error + string" where
  "required value message = (case value of Some s \<Rightarrow> Inr s | None \<Rightarrow> Inl (Missing_string message))"

definition mapping_of :: "js_value \<Rightarrow> webc_error + fs_mapping" where
  "mapping_of item =
     bindR (objectValue item ''WebC filesystem mapping must be a map'') (\<lambda>mapping.
     bindR (required (optionalString (own_field mapping [''mount_path'', ''mount-path'']))
              ''WebC filesystem mapping mount_path is required'') (\<lambda>mountPath.
     bindR (required (optionalString (own_field mapping [''volume_name'', ''volume-name'']))
              ''WebC filesystem mapping volume_name is required'') (\<lambda>volumeName.
     Inr \<lparr>fm_from = optionalString (js_get mapping ''from''),
          fm_hostPath = or_else (optionalString (own_field mapping [''host_path'', ''host-path'', ''original_path'']))
                          (optionalString (own_field mapping [''original-path''])),
          fm_mountPath = mountPath, fm_volumeName = volumeName\<rparr>)))"

definition normalizeFilesystemMappings :: "js_value \<Rightarrow> webc_error + fs_mapping list" where
  "normalizeFilesystemMappings value = (case value of Array vs \<Rightarrow> mapR mapping_of vs | _ \<Rightarrow> Inr [])"

definition default_command :: "string list \<Rightarrow> string option \<Rightarrow> string" where
  "default_command commands entrypoint =
     (case entrypoint of Some e \<Rightarrow> if e \<in> set commands then e else hd commands | None \<Rightarrow> hd commands)"

definition normalizeWebcManifest :: "js_value \<Rightarrow> string \<Rightarrow> webc_error + webc_metadata" where
  "normalizeWebcManifest manifest version =
     bindR (objectValue manifest ''WebC manifest must be a map'') (\<lambda>root.
     bindR (objectValue (js_get root ''commands'') ''WebC manifest commands must be a map'') (\<lambda>commandMap.
     let commands = map fst (own_entries commandMap) in
     checkR (commands \<noteq> []) No_commands
       (let defaultCommand = default_command commands (optionalString (js_get root ''entrypoint'')) in
        bindR (optionalObject (js_get root ''package'')) (\<lambda>p.
        let packageAnnotations = or_empty p in
        bindR (normalizePackageAnnotations packageAnnotations) (\<lambda>packageInfo.
        bindR (normalizeFilesystemMappings (js_get packageAnnotations ''fs'')) (\<lambda>filesystem.
        bindR (normalizeAtoms (js_get root ''atoms'')) (\<lambda>atoms.
        bindR (normalizeCommandMetadata commandMap) (\<lambda>commandMetadata.
        Inr \<lparr>wm_atoms = atoms, wm_commandMetadata = commandMetadata, wm_commands = commands,
             wm_defaultCommand = defaultCommand, wm_filesystem = filesystem, wm_manifest = root,
             wm_package = packageInfo, wm_version = version\<rparr>)))))))) "

section \<open>References\<close>

text \<open>
  \<open>table[key]\<close> is truthy: an own property (they are all objects), a truthy property of the prototype
  that \<open>__proto__\<close> has set (\<open>field\<close> tells its own ones), or a property of \<open>Object.prototype\<close>.
\<close>

definition object_prototype_names :: "string list" where
  "object_prototype_names =
     [''constructor'', ''__defineGetter__'', ''__defineSetter__'', ''hasOwnProperty'', ''__lookupGetter__'',
      ''__lookupSetter__'', ''isPrototypeOf'', ''propertyIsEnumerable'', ''toString'', ''valueOf'',
      ''__proto__'', ''toLocaleString'']"

definition table_truthy :: "('v \<Rightarrow> string \<Rightarrow> bool option) \<Rightarrow> 'v js_table \<Rightarrow> string \<Rightarrow> bool" where
  "table_truthy fld t k \<longleftrightarrow>
     (case map_of (fst t) k of Some v \<Rightarrow> True
      | None \<Rightarrow> (case (case snd t of Some v \<Rightarrow> fld v k | None \<Rightarrow> None) of
          Some b \<Rightarrow> b | None \<Rightarrow> k \<in> set object_prototype_names))"

definition file_field :: "volume_file \<Rightarrow> string \<Rightarrow> bool option" where
  "file_field f k =
     (if k = ''byteLength'' then Some (vf_byteLength f \<noteq> 0)
      else if k = ''checksumSha256'' then Some (vf_checksum f \<noteq> [])
      else if k \<in> {''bytes'', ''span''} then Some True else None)"

definition volume_field :: "volume \<Rightarrow> string \<Rightarrow> bool option" where
  "volume_field v k =
     (if k = ''hash'' then Some (vo_hash v \<noteq> None \<and> vo_hash v \<noteq> Some [])
      else if k = ''name'' then Some (vo_name v \<noteq> [])
      else if k \<in> {''dataSpan'', ''files'', ''headerSpan'', ''payloadSpan''} then Some True else None)"

definition emptyAtomArtifacts :: atom_artifacts where
  "emptyAtomArtifacts = \<lparr>aa_files = empty_table, aa_hash = None, aa_payloadSpan = None\<rparr>"

fun validateReferencedAtoms :: "(string \<times> command_metadata) list \<Rightarrow> atom_artifacts \<Rightarrow> webc_error + unit" where
  "validateReferencedAtoms [] atoms = Inr ()"
| "validateReferencedAtoms ((name, c) # cs) atoms =
     (case cm_atom c of
        Some a \<Rightarrow>
          checkR (table_truthy file_field (aa_files atoms) a) (Missing_atom name a) (validateReferencedAtoms cs atoms)
      | None \<Rightarrow> validateReferencedAtoms cs atoms)"

fun validateReferencedVolumes :: "fs_mapping list \<Rightarrow> volume js_table \<Rightarrow> webc_error + unit" where
  "validateReferencedVolumes [] volumes = Inr ()"
| "validateReferencedVolumes (m # ms) volumes =
     (if fm_from m \<noteq> None then validateReferencedVolumes ms volumes
      else checkR (table_truthy volume_field volumes (fm_volumeName m)) (Missing_volume (fm_volumeName m))
             (validateReferencedVolumes ms volumes))"

record webc_artifacts =
  wa_atoms :: atom_artifacts
  wa_volumes :: "volume js_table"

definition extractWebcArtifacts :: "sections \<Rightarrow> webc_metadata \<Rightarrow> webc_error + webc_artifacts" where
  "extractWebcArtifacts ss metadata =
     (let artifacts = \<lparr>wa_atoms = (case ss_atoms ss of Some a \<Rightarrow> a | None \<Rightarrow> emptyAtomArtifacts),
                       wa_volumes = ss_volumes ss\<rparr> in
      bindR (validateReferencedAtoms (fst (wm_commandMetadata metadata)) (wa_atoms artifacts)) (\<lambda>_.
      bindR (validateReferencedVolumes (wm_filesystem metadata) (wa_volumes artifacts)) (\<lambda>_.
      Inr artifacts)))"

definition extractWebcPackageMetadata :: "(js_value \<Rightarrow> string option) \<Rightarrow> byte list \<Rightarrow>
    webc_error + webc_metadata \<times> webc_artifacts" where
  "extractWebcPackageMetadata key_text data =
     (case detectWebcVersion data of
        None \<Rightarrow> Inl Missing_version
      | Some version \<Rightarrow>
          if version = [] then Inl Missing_version
          else checkR (version \<in> {WEBC_V2, WEBC_V3}) (Unsupported_version version)
            (bindR (readWebcSections data version) (\<lambda>ss.
             case ss_manifest ss of
               None \<Rightarrow> Inl Missing_manifest
             | Some sec \<Rightarrow>
                 bindR (decodeCbor key_text (se_payload sec)) (\<lambda>manifest.
                 bindR (normalizeWebcManifest manifest version) (\<lambda>metadata.
                 bindR (extractWebcArtifacts ss metadata) (\<lambda>artifacts. Inr (metadata, artifacts)))))))"

section \<open>Accepted packages\<close>

lemma detectWebcVersion_long:
  "detectWebcVersion data = Some version \<Longrightarrow> 8 \<le> length data"
  by (auto simp: detectWebcVersion_def webc_sizes split: if_splits)

lemma extracted_parts:
  assumes "extractWebcPackageMetadata key_text data = Inr (metadata, artifacts)"
  obtains version ss sec manifest where "readWebcSections data version = Inr ss"
    "ss_manifest ss = Some sec" "decodeCbor key_text (se_payload sec) = Inr manifest"
    "normalizeWebcManifest manifest version = Inr metadata"
    "extractWebcArtifacts ss metadata = Inr artifacts"
  using assms
  by (auto simp: extractWebcPackageMetadata_def checkR_Inr bindR_Inr
      split: option.splits if_splits)

definition artifact_files :: "webc_artifacts \<Rightarrow> volume_file set" where
  "artifact_files a =
     table_values (aa_files (wa_atoms a)) \<union> (\<Union>v\<in>table_values (wa_volumes a). table_values (vo_files v))"

lemma artifact_files_in:
  assumes "extractWebcPackageMetadata key_text data = Inr (metadata, artifacts)" "f \<in> artifact_files artifacts"
  shows "file_in data f"
proof -
  obtain version ss where ss: "readWebcSections data version = Inr ss"
    "extractWebcArtifacts ss metadata = Inr artifacts"
    using extracted_parts [OF assms(1)] by metis
  have artifacts: "artifacts = \<lparr>wa_atoms = (case ss_atoms ss of Some a \<Rightarrow> a | None \<Rightarrow> emptyAtomArtifacts),
      wa_volumes = ss_volumes ss\<rparr>"
    using ss(2) by (auto simp: extractWebcArtifacts_def bindR_Inr)
  from sections_in_package [OF ss(1)] assms(2) show ?thesis
    by (auto simp: artifact_files_def artifacts sections_in_def emptyAtomArtifacts_def split: option.splits)
qed

text \<open>
  C9: whatever package the parser accepts, the bytes it gives an atom or a file of a volume are the
  slice of the package that its span names, and the span lies in the package.
\<close>

theorem package_files_are_slices:
  assumes "extractWebcPackageMetadata key_text data = Inr (metadata, artifacts)" "f \<in> artifact_files artifacts"
  shows "file_in data f"
  using assms by (rule artifact_files_in)

lemma fill_table_keys:
  assumes "fill_table f kvs t = Inr t'" "k \<noteq> proto_key" "k \<in> fst ` set kvs \<or> map_of (fst t) k \<noteq> None"
  shows "map_of (fst t') k \<noteq> None"
  using assms
proof (induction f kvs t rule: fill_table.induct)
  case (2 f k' v kvs t)
  then obtain x where x: "f k' v = Inr x" "fill_table f kvs (table_set k' x t) = Inr t'"
    by (auto simp: bindR_Inr)
  show ?case
    by (rule "2.IH" [OF x(1) x(2) "2.prems"(2)])
      (use "2.prems" in \<open>cases t; auto\<close>)
qed simp

lemma normalized_commands:
  assumes "normalizeWebcManifest manifest version = Inr m"
  shows "wm_defaultCommand m \<in> set (wm_commands m)"
    "\<And>n. n \<in> set (wm_commands m) \<Longrightarrow> n \<noteq> proto_key \<Longrightarrow> map_of (fst (wm_commandMetadata m)) n \<noteq> None"
proof -
  obtain commandMap e where cm: "map fst (own_entries commandMap) = wm_commands m" "wm_commands m \<noteq> []"
    "normalizeCommandMetadata commandMap = Inr (wm_commandMetadata m)"
    and dc: "wm_defaultCommand m = default_command (wm_commands m) e"
    using assms by (auto simp: normalizeWebcManifest_def bindR_Inr checkR_Inr Let_def)
  from cm(2) dc show "wm_defaultCommand m \<in> set (wm_commands m)" by (auto simp: default_command_def split: option.splits)
  show "map_of (fst (wm_commandMetadata m)) n \<noteq> None" if "n \<in> set (wm_commands m)" "n \<noteq> proto_key" for n
  proof (rule fill_table_keys [OF cm(3) [unfolded normalizeCommandMetadata_def] that(2)])
    from that(1) have "n \<in> set (map fst (own_entries commandMap))" by (simp only: cm(1))
    then show "n \<in> fst ` set (own_entries commandMap) \<or> map_of (fst empty_table) n \<noteq> None" by simp
  qed
qed

lemma referenced_atoms:
  "validateReferencedAtoms cs atoms = Inr () \<Longrightarrow> (n, c) \<in> set cs \<Longrightarrow> cm_atom c = Some a \<Longrightarrow>
   table_truthy file_field (aa_files atoms) a"
  by (induction cs atoms rule: validateReferencedAtoms.induct) (auto simp: checkR_Inr split: option.splits)

lemma referenced_volumes:
  "validateReferencedVolumes ms volumes = Inr () \<Longrightarrow> m \<in> set ms \<Longrightarrow> fm_from m = None \<Longrightarrow>
   table_truthy volume_field volumes (fm_volumeName m)"
  by (induction ms volumes rule: validateReferencedVolumes.induct) (auto simp: checkR_Inr split: if_splits)

text \<open>
  C22: in an accepted package the default command is one of the commands, each command has its
  metadata, and the atom a command runs is a file of the atoms section, unless its name is one that
  every object inherits or an entry of the section is named \<open>__proto__\<close>.
\<close>

theorem accepted_commands:
  assumes "extractWebcPackageMetadata key_text data = Inr (metadata, artifacts)"
  shows "wm_defaultCommand metadata \<in> set (wm_commands metadata) \<and>
    (\<forall>n\<in>set (wm_commands metadata) - {proto_key}. \<exists>c. map_of (fst (wm_commandMetadata metadata)) n = Some c \<and>
      (\<forall>a. cm_atom c = Some a \<longrightarrow>
        (\<exists>f. map_of (fst (aa_files (wa_atoms artifacts))) a = Some f) \<or>
        a \<in> set object_prototype_names \<or> snd (aa_files (wa_atoms artifacts)) \<noteq> None))"
proof -
  obtain ss manifest version where "normalizeWebcManifest manifest version = Inr metadata"
    and x: "extractWebcArtifacts ss metadata = Inr artifacts"
    using extracted_parts [OF assms] by metis
  note names = normalized_commands [OF this(1)]
  have "validateReferencedAtoms (fst (wm_commandMetadata metadata)) (wa_atoms artifacts) = Inr ()"
    using x by (auto simp: extractWebcArtifacts_def bindR_Inr)
  from referenced_atoms [OF this] names show ?thesis
    by (fastforce simp: table_truthy_def dest: map_of_SomeD split: option.splits)
qed

section \<open>A package\<close>

definition volume_bytes :: "byte list \<Rightarrow> byte list \<Rightarrow> byte list" where
  "volume_bytes header data =
     le_bytes 8 (int (length header)) @ header @ le_bytes 8 (int (length data)) @ data"

definition webc_section :: "byte \<Rightarrow> byte list \<Rightarrow> byte list" where
  "webc_section tag payload = tag # le_bytes 8 (int (length payload)) @ payload"

definition file_header :: "int \<Rightarrow> int \<Rightarrow> byte list" where
  "file_header st en = 31 # le_bytes 8 st @ le_bytes 8 en @ replicate 32 0"

definition example_manifest :: "string \<Rightarrow> string \<Rightarrow> js_value" where
  "example_manifest cmd atom =
     Object [(''commands'', Object [(cmd, Object [(''annotations'',
       Object [(''atom'', Object [(''name'', Text atom)] Object_prototype)] Object_prototype)] Object_prototype)]
       Object_prototype)] Object_prototype"

definition example_package :: "string \<Rightarrow> string \<Rightarrow> byte list" where
  "example_package cmd atom =
     WEBC_MAGIC @ encodeText ''002'' @
     webc_section 1 (encodeCbor (example_manifest cmd atom)) @
     webc_section 3 (volume_bytes
       (30 # le_bytes 8 17 @ le_bytes 8 26 @ le_bytes 8 1 @ encodeText ''a'' @ file_header 1 5) [9, 0, 0x61, 0x73, 0x6d, 9])"

abbreviation (input) no_text :: "js_value \<Rightarrow> string option" where "no_text \<equiv> \<lambda>_. None"

lemma example_files:
  "case extractWebcPackageMetadata no_text (example_package ''ls'' ''a'') of
     Inr (m, a) \<Rightarrow> map vf_bytes (map snd (fst (aa_files (wa_atoms a)))) = [[0, 0x61, 0x73, 0x6d]] | Inl e \<Rightarrow> False"
  by code_simp

lemma example_accepted:
  obtains m a where "extractWebcPackageMetadata no_text (example_package ''ls'' ''a'') = Inr (m, a)"
  using example_files
  by (cases "extractWebcPackageMetadata no_text (example_package ''ls'' ''a'')") auto

theorem package_files_are_slices_witness:
  "case extractWebcPackageMetadata no_text (example_package ''ls'' ''a'') of
     Inr (m, a) \<Rightarrow> \<forall>f\<in>artifact_files a. file_in (example_package ''ls'' ''a'') f | Inl e \<Rightarrow> False"
proof -
  obtain m a where ex: "extractWebcPackageMetadata no_text (example_package ''ls'' ''a'') = Inr (m, a)"
    by (rule example_accepted)
  then show ?thesis using package_files_are_slices [OF ex] by simp
qed

theorem accepted_commands_witness:
  "case extractWebcPackageMetadata no_text (example_package ''ls'' ''a'') of
     Inr (m, a) \<Rightarrow> wm_defaultCommand m \<in> set (wm_commands m) | Inl e \<Rightarrow> False"
proof -
  obtain m a where ex: "extractWebcPackageMetadata no_text (example_package ''ls'' ''a'') = Inr (m, a)"
    by (rule example_accepted)
  then show ?thesis using accepted_commands [OF ex] by simp
qed

text \<open>
  A command that names an atom the package does not have is accepted when the name is that of a
  method every object has: the check looks the name up in a plain object.
\<close>

theorem inherited_atom_accepted:
  "case extractWebcPackageMetadata no_text (example_package ''ls'' ''toString'') of
     Inr (m, a) \<Rightarrow>
       map_option cm_atom (map_of (fst (wm_commandMetadata m)) ''ls'') = Some (Some ''toString'') \<and>
       map_of (fst (aa_files (wa_atoms a))) ''toString'' = None
   | Inl e \<Rightarrow> False"
  by code_simp

lemma missing_atom_refused:
  "extractWebcPackageMetadata no_text (example_package ''ls'' ''b'') = Inl (Missing_atom ''ls'' ''b'')"
  by code_simp

theorem cbor_roundtrip_witness:
  "decodeCbor no_text (encodeCbor (example_manifest ''ls'' ''a'')) = Inr (example_manifest ''ls'' ''a'')"
proof (rule cbor_roundtrip)
  have "text_ok s" if "ascii s" "length s < 100" for s
    using that by (simp add: text_ok_def decodeText_ascii short_def max_safe_integer_def)
  then show "encodable (Suc MAX_CBOR_DEPTH) (example_manifest ''ls'' ''a'')"
    by (simp add: example_manifest_def MAX_CBOR_DEPTH_def ascii_def short_def max_safe_integer_def
        proto_key_def numeral_eq_Suc)
qed

end
