(* ===== verification/Package_Loader.thy ===== *)
theory Package_Loader imports Webc_Manifest begin

text \<open>
  \<open>apps/web/src/package-loader.js\<close>: a package is bytes, from memory or from a response read in
  chunks; its format, its digest and its metadata make the package record, and the record, the bytes
  and the atoms go to a cache whose keys are made of the digest. The digest is an argument
  (\<open>crypto.subtle\<close>); the cache is \<open>MemoryPackageCache\<close>. Proved: after a load the cache holds, under
  the key the metadata names, the bytes of each atom; the keys of different atoms differ; reading a
  response does not depend on how it is cut into chunks.
\<close>

datatype loader_error =
    Invalid_package string | Package_too_large | Transport string | Metadata_error webc_error | Thrown webc_error

definition DEFAULT_PACKAGE_BYTES_LIMIT :: int where "DEFAULT_PACKAGE_BYTES_LIMIT = 134217728"

section \<open>Keys\<close>

definition nonEmptyString :: "string \<Rightarrow> string \<Rightarrow> loader_error + string" where
  "nonEmptyString value message =
     (let text = js_trim value in checkR (text \<noteq> []) (Invalid_package message) (Inr text))"

abbreviation (input) "field_message \<equiv> ''browser package fields must be non-empty strings''"

definition hex_char :: "char \<Rightarrow> bool" where
  "hex_char c \<longleftrightarrow> c \<in> set ''0123456789abcdef''"

definition lower_char :: "char \<Rightarrow> char" where
  "lower_char c = (let n = of_char c :: nat in if 65 \<le> n \<and> n \<le> 90 then char_of (n + 32) else c)"

definition normalizeSha256 :: "string \<Rightarrow> loader_error + string" where
  "normalizeSha256 value =
     (let text = map lower_char value in
      checkR (length text = 64 \<and> list_all hex_char text)
        (Invalid_package ''browser package sha256 must be a 64-character hex digest'') (Inr text))"

definition verifyExpectedSha256 :: "string option \<Rightarrow> string \<Rightarrow> loader_error + unit" where
  "verifyExpectedSha256 expected actual =
     (case expected of
        None \<Rightarrow> Inr ()
      | Some e \<Rightarrow> bindR (normalizeSha256 e) (\<lambda>n.
          checkR (n = actual) (Invalid_package (''browser package sha256 mismatch: expected '' @ n @ '', got '' @ actual))
            (Inr ())))"

record cache_keys =
  ck_modulePath :: string
  ck_packagePath :: string
  ck_moduleArtifactsPrefix :: string
  ck_packageBytes :: string

definition packageCacheKeys :: "string \<Rightarrow> string \<Rightarrow> loader_error + cache_keys" where
  "packageCacheKeys format digest =
     bindR (nonEmptyString format ''package cache format is required'') (\<lambda>format.
     bindR (normalizeSha256 digest) (\<lambda>sha256.
     let extension = (if format = ''webc'' then ''webc'' else ''wasm'') in
     Inr \<lparr>ck_modulePath = ''wasm-host/v1/modules/sha256/'' @ sha256 @ ''/'',
          ck_packagePath = ''wasm-host/v1/packages/sha256/'' @ sha256 @ ''.'' @ extension,
          ck_moduleArtifactsPrefix = ''indexeddb://wasm-host/module-artifacts/'' @ format @ ''/'' @ sha256 @ ''/'',
          ck_packageBytes = ''indexeddb://wasm-host/package-by-sha256/'' @ format @ ''/'' @ sha256\<rparr>))"

text \<open>
  \<open>encodeURIComponent\<close> on the bytes of a text, and the further characters the code escapes: what
  stays is letters, digits and \<open>- _ . ~\<close>.
\<close>

definition uri_mark :: "char \<Rightarrow> bool" where
  "uri_mark c \<longleftrightarrow> c \<in> set ''-_.!~*()'' \<or> c = CHR 0x27"

definition alphanumeric :: "char \<Rightarrow> bool" where
  "alphanumeric c \<longleftrightarrow> (let n = of_char c :: nat in
     48 \<le> n \<and> n \<le> 57 \<or> 65 \<le> n \<and> n \<le> 90 \<or> 97 \<le> n \<and> n \<le> 122)"

definition upper_hex :: "nat \<Rightarrow> char" where
  "upper_hex n = (if n < 10 then char_of (48 + n) else char_of (55 + n))"

definition percent :: "char \<Rightarrow> string" where
  "percent c = [CHR ''%'', upper_hex (of_char c div 16), upper_hex (of_char c mod 16)]"

definition encodeURIComponent :: "string \<Rightarrow> string" where
  "encodeURIComponent s = concat (map (\<lambda>c. if alphanumeric c \<or> uri_mark c then [c] else percent c) s)"

definition encodeArtifactSegment :: "string \<Rightarrow> string" where
  "encodeArtifactSegment value =
     concat (map (\<lambda>c. if c \<in> set ''!()*'' \<or> c = CHR 0x27 then percent c else [c]) (encodeURIComponent value))"

section \<open>Metadata\<close>

record artifact =
  ar_byteLength :: int
  ar_cacheKey :: "string option"
  ar_checksum :: string
  ar_name :: string
  ar_span :: span

record volume_summary =
  vs_dataSpan :: span
  vs_files :: "artifact js_table"
  vs_hash :: "string option"
  vs_headerSpan :: span
  vs_name :: string
  vs_payloadSpan :: span

record artifact_summary =
  as_atoms :: "artifact js_table"
  as_volumes :: "volume_summary js_table"

text \<open>\<open>Object.entries\<close> of a table.\<close>

definition table_entries :: "'v js_table \<Rightarrow> (string \<times> 'v) list" where
  "table_entries t = map (\<lambda>k. (k, the (map_of (fst t) k))) (own_keys (fst t))"

text \<open>\<open>o[key]\<close>: the own property, and under \<open>__proto__\<close> the prototype that was set.\<close>

definition table_get :: "'v js_table \<Rightarrow> string \<Rightarrow> 'v option" where
  "table_get t k = (case map_of (fst t) k of Some v \<Rightarrow> Some v | None \<Rightarrow> if k = proto_key then snd t else None)"

definition table_of :: "(string \<times> 'v) list \<Rightarrow> 'v js_table" where
  "table_of kvs = fold (\<lambda>(k, v). table_set k v) kvs empty_table"

definition atom_summary :: "cache_keys \<Rightarrow> string \<times> volume_file \<Rightarrow> artifact" where
  "atom_summary keys = (\<lambda>(name, atom).
     \<lparr>ar_byteLength = vf_byteLength atom,
      ar_cacheKey = Some (ck_moduleArtifactsPrefix keys @ ''atoms/'' @ encodeArtifactSegment name),
      ar_checksum = vf_checksum atom, ar_name = name, ar_span = vf_span atom\<rparr>)"

definition file_summary :: "string \<times> volume_file \<Rightarrow> artifact" where
  "file_summary = (\<lambda>(path, f).
     \<lparr>ar_byteLength = vf_byteLength f, ar_cacheKey = None, ar_checksum = vf_checksum f, ar_name = path,
      ar_span = vf_span f\<rparr>)"

definition volume_summary_of :: "string \<times> volume \<Rightarrow> volume_summary" where
  "volume_summary_of = (\<lambda>(name, v).
     \<lparr>vs_dataSpan = vo_dataSpan v,
      vs_files = table_of (map (\<lambda>e. (fst e, file_summary e)) (table_entries (vo_files v))),
      vs_hash = vo_hash v, vs_headerSpan = vo_headerSpan v, vs_name = name, vs_payloadSpan = vo_payloadSpan v\<rparr>)"

definition normalizeWebcModuleArtifacts :: "webc_artifacts option \<Rightarrow> cache_keys \<Rightarrow>
    (artifact \<times> byte list) list option \<times> artifact_summary option" where
  "normalizeWebcModuleArtifacts artifacts keys =
     (case artifacts of
        None \<Rightarrow> (None, None)
      | Some a \<Rightarrow>
          let atoms = table_entries (aa_files (wa_atoms a)) in
          (Some (map (\<lambda>e. (atom_summary keys e, vf_bytes (snd e))) atoms),
           Some \<lparr>as_atoms = table_of (map (\<lambda>e. (fst e, atom_summary keys e)) atoms),
                 as_volumes = table_of (map (\<lambda>e. (fst e, volume_summary_of e)) (table_entries (wa_volumes a)))\<rparr>))"

record package_source =
  so_kind :: string
  so_label :: string

record source_input =
  si_kind :: "string option"
  si_label :: "string option"

text \<open>The fields of the input that are read, and the parts of \<open>input.metadata\<close> that replace others.\<close>

record load_input =
  li_bytes :: "byte list"
  li_id :: "string option"
  li_packageId :: "string option"
  li_commands :: "string list option"
  li_command :: "string option"
  li_defaultCommand :: "string option"
  li_entrypoint :: "string option"
  li_executorType :: "string option"
  li_commandPackageType :: "string option"
  li_artifactKind :: "string option"
  li_expectedSha256 :: "string option"
  li_source :: "source_input option"
  li_commandMetadata :: "command_metadata js_table option"
  li_filesystem :: "fs_mapping list option"
  li_webcArtifacts :: "artifact_summary option"

record package_metadata =
  pm_discovered :: "webc_metadata option"
  pm_commandMetadata :: "command_metadata js_table option"
  pm_filesystem :: "fs_mapping list option"
  pm_webcArtifacts :: "artifact_summary option"

record package_record =
  pr_bytes :: "byte list"
  pr_artifactKind :: string
  pr_cacheKeys :: cache_keys
  pr_commands :: "string list"
  pr_contentSha256 :: string
  pr_defaultCommand :: string
  pr_entrypoint :: string
  pr_executorType :: string
  pr_format :: string
  pr_id :: string
  pr_metadata :: package_metadata
  pr_moduleArtifacts :: "(artifact \<times> byte list) list option"
  pr_source :: package_source

definition normalizeSource :: "source_input option \<Rightarrow> loader_error + package_source" where
  "normalizeSource src =
     (case src of
        None \<Rightarrow> Inr \<lparr>so_kind = ''bytes'', so_label = ''explicit-bytes''\<rparr>
      | Some s \<Rightarrow>
          bindR (nonEmptyString (case si_kind s of Some k \<Rightarrow> k | None \<Rightarrow> ''bytes'') field_message) (\<lambda>kind.
          bindR (nonEmptyString (case or_else (si_label s) (si_kind s) of Some l \<Rightarrow> l | None \<Rightarrow> ''explicit-bytes'')
            field_message) (\<lambda>label. Inr \<lparr>so_kind = kind, so_label = label\<rparr>)))"

definition WASM_FILE_MAGIC :: "byte list" where "WASM_FILE_MAGIC = [0x00, 0x61, 0x73, 0x6d]"

definition detectPackageFormat :: "byte list \<Rightarrow> loader_error + string" where
  "detectPackageFormat data =
     (if startsWithBytes data WEBC_MAGIC then Inr ''webc''
      else if startsWithBytes data WASM_FILE_MAGIC then Inr ''wasm''
      else Inl (Invalid_package ''invalid browser package bytes: expected WebC or Wasm magic''))"

definition normalizeArtifactKind :: "string option \<Rightarrow> string \<Rightarrow> loader_error + string" where
  "normalizeArtifactKind value format =
     bindR (nonEmptyString (case value of Some k \<Rightarrow> k
              | None \<Rightarrow> if format = ''webc'' then ''webc-package'' else ''wasi-module'') field_message) (\<lambda>normalized.
     checkR (normalized \<in> set (if format = ''webc'' then [''webc-package''] else [''wasi-module'', ''codex-browser'']))
       (Invalid_package (''browser package artifactKind '' @ normalized @ '' does not match '' @ format @ '' bytes''))
       (Inr normalized))"

definition normalizeCommandName :: "string \<Rightarrow> loader_error + string" where
  "normalizeCommandName value =
     bindR (nonEmptyString value field_message) (\<lambda>command.
     checkR (CHR 0x00 \<notin> set command \<and> CHR ''/'' \<notin> set command)
       (Invalid_package ''browser package command names must not contain NUL or /'') (Inr command))"

definition normalizeCommands :: "load_input \<Rightarrow> webc_metadata option \<Rightarrow> loader_error + string list" where
  "normalizeCommands input discovered =
     (case or_else (or_else (li_commands input)
              (case li_command input of Some c \<Rightarrow> if c \<noteq> [] then Some [c] else None | None \<Rightarrow> None))
            (map_option wm_commands discovered) of
        Some (c # cs) \<Rightarrow> mapR normalizeCommandName (c # cs)
      | _ \<Rightarrow> Inl (Invalid_package ''browser package commands must be a non-empty array''))"

definition normalizeDefaultCommand :: "load_input \<Rightarrow> string list \<Rightarrow> webc_metadata option \<Rightarrow> loader_error + string" where
  "normalizeDefaultCommand input commands discovered =
     bindR (nonEmptyString
       (case or_else (li_defaultCommand input) (map_option wm_defaultCommand discovered) of
          Some c \<Rightarrow> c | None \<Rightarrow> hd commands) field_message) (\<lambda>normalized.
     checkR (normalized \<in> set commands)
       (Invalid_package ''browser package default command must be listed in commands'') (Inr normalized))"

definition hasExplicitCommands :: "load_input \<Rightarrow> bool" where
  "hasExplicitCommands input \<longleftrightarrow>
     li_commands input \<noteq> None \<or> li_command input \<noteq> None \<or> li_defaultCommand input \<noteq> None"

definition canUseExplicitWebcMetadataFallback :: "webc_error \<Rightarrow> bool" where
  "canUseExplicitWebcMetadataFallback e \<longleftrightarrow>
     (case e of Missing_version \<Rightarrow> True | Unsupported_version v \<Rightarrow> True | Missing_manifest \<Rightarrow> True
        | Truncated \<Rightarrow> True | _ \<Rightarrow> False)"

text \<open>\<open>Bad_key\<close> is an exception of the language, which is thrown on; the others are refused packages.\<close>

definition discoverWebcMetadata :: "(js_value \<Rightarrow> string option) \<Rightarrow> byte list \<Rightarrow> load_input \<Rightarrow>
    loader_error + (webc_metadata \<times> webc_artifacts) option" where
  "discoverWebcMetadata key_text bytes input =
     (case extractWebcPackageMetadata key_text bytes of
        Inr found \<Rightarrow> Inr (Some found)
      | Inl e \<Rightarrow>
          if hasExplicitCommands input \<and> canUseExplicitWebcMetadataFallback e then Inr None
          else Inl (if e = Bad_key then Thrown e else Metadata_error e))"

definition raw_kind :: string where "raw_kind = ''wasi-module''"
definition codex_kind :: string where "codex_kind = ''codex-browser''"

text \<open>The fields of the context are computed before the call: kind and source may refuse first.\<close>

definition normalizePackageMetadata :: "load_input \<Rightarrow> byte list \<Rightarrow> cache_keys \<Rightarrow> (webc_metadata \<times> webc_artifacts) option \<Rightarrow>
    string \<Rightarrow> string \<Rightarrow> string \<Rightarrow> package_source \<Rightarrow> loader_error + package_record" where
  "normalizePackageMetadata input bytes keys found artifactKind format sha256 src =
     (let discovered = map_option fst found in
      bindR (nonEmptyString
        (case or_else (or_else (li_id input) (li_packageId input))
                (case discovered of Some d \<Rightarrow> pi_name (wm_package d) | None \<Rightarrow> None) of
           Some i \<Rightarrow> i | None \<Rightarrow> ''default'') field_message) (\<lambda>i.
      bindR (normalizeCommands input discovered) (\<lambda>commands.
      bindR (normalizeDefaultCommand input commands discovered) (\<lambda>defaultCommand.
      let (entries, summary) = normalizeWebcModuleArtifacts (map_option snd found) keys;
          discoveredEntrypoint = (case discovered of
              Some d \<Rightarrow> if wm_defaultCommand d \<in> set commands then Some (wm_defaultCommand d) else None | None \<Rightarrow> None) in
      bindR (nonEmptyString
        (case li_entrypoint input of Some e \<Rightarrow> e
         | None \<Rightarrow>
             if artifactKind = raw_kind then ''_start''
             else if artifactKind = codex_kind then ''codex_build_request''
             else (case discoveredEntrypoint of Some e \<Rightarrow> e | None \<Rightarrow> defaultCommand)) field_message) (\<lambda>entrypoint.
      bindR (nonEmptyString
        (if artifactKind = raw_kind then raw_kind
         else case or_else (li_executorType input) (li_commandPackageType input) of
                Some t \<Rightarrow> t | None \<Rightarrow> artifactKind) field_message) (\<lambda>executorType.
      Inr \<lparr>pr_bytes = bytes, pr_artifactKind = artifactKind, pr_cacheKeys = keys, pr_commands = commands,
           pr_contentSha256 = sha256, pr_defaultCommand = defaultCommand, pr_entrypoint = entrypoint,
           pr_executorType = executorType, pr_format = format, pr_id = i,
           pr_metadata =
             \<lparr>pm_discovered = discovered,
              pm_commandMetadata = or_else (li_commandMetadata input) (map_option wm_commandMetadata discovered),
              pm_filesystem = or_else (li_filesystem input) (map_option wm_filesystem discovered),
              pm_webcArtifacts = or_else (li_webcArtifacts input) summary\<rparr>,
           pr_moduleArtifacts = entries, pr_source = src\<rparr>))))))"

section \<open>The cache\<close>

text \<open>
  \<open>MemoryPackageCache\<close>: three maps. \<open>packageSummary\<close> is the record without bytes and module
  artifacts; the bytes are found under the key that the record names.
\<close>

record package_cache =
  pc_packages :: "(string \<times> package_record) list"
  pc_packageBytes :: "(string \<times> byte list) list"
  pc_moduleArtifacts :: "(string \<times> byte list) list"

definition packageSummary :: "package_record \<Rightarrow> package_record" where
  "packageSummary r = r\<lparr>pr_bytes := [], pr_moduleArtifacts := None\<rparr>"

definition putPackage :: "package_record \<Rightarrow> package_cache \<Rightarrow> package_cache" where
  "putPackage r c = c\<lparr>pc_packages := AList.update (pr_id r) (packageSummary r) (pc_packages c),
     pc_packageBytes := AList.update (ck_packageBytes (pr_cacheKeys r)) (pr_bytes r) (pc_packageBytes c)\<rparr>"

definition getPackage :: "package_cache \<Rightarrow> string \<Rightarrow> package_record option" where
  "getPackage c i = map_of (pc_packages c) i"

definition getPackageBytes :: "package_cache \<Rightarrow> string \<Rightarrow> byte list option" where
  "getPackageBytes c key = (if key \<noteq> [] then map_of (pc_packageBytes c) key else None)"

definition putModuleArtifact :: "string \<Rightarrow> byte list \<Rightarrow> package_cache \<Rightarrow> package_cache" where
  "putModuleArtifact key value c = c\<lparr>pc_moduleArtifacts := AList.update key value (pc_moduleArtifacts c)\<rparr>"

definition getModuleArtifact :: "package_cache \<Rightarrow> string \<Rightarrow> byte list option" where
  "getModuleArtifact c key = map_of (pc_moduleArtifacts c) key"

definition putModuleArtifacts :: "(artifact \<times> byte list) list option \<Rightarrow> package_cache \<Rightarrow> package_cache" where
  "putModuleArtifacts entries c =
     (case entries of None \<Rightarrow> c
      | Some es \<Rightarrow> fold (\<lambda>(a, bs). putModuleArtifact (case ar_cacheKey a of Some k \<Rightarrow> k | None \<Rightarrow> ''undefined'') bs) es c)"

section \<open>Loading\<close>

definition validatePackageBytesLimit :: "int option \<Rightarrow> int \<Rightarrow> loader_error + unit" where
  "validatePackageBytesLimit byteLength limit =
     (case byteLength of None \<Rightarrow> Inl Package_too_large
      | Some n \<Rightarrow> checkR (\<not> n > limit) Package_too_large (Inr ()))"

definition package_record_of :: "(js_value \<Rightarrow> string option) \<Rightarrow> (byte list \<Rightarrow> string) \<Rightarrow> int \<Rightarrow> load_input \<Rightarrow>
    loader_error + package_record" where
  "package_record_of key_text digest limit input =
     (let bytes = li_bytes input in
      bindR (validatePackageBytesLimit (Some (int (length bytes))) limit) (\<lambda>_.
      bindR (detectPackageFormat bytes) (\<lambda>format.
      let sha256 = digest bytes in
      bindR (verifyExpectedSha256 (li_expectedSha256 input) sha256) (\<lambda>_.
      bindR (packageCacheKeys format sha256) (\<lambda>keys.
      bindR (if format = ''webc'' then discoverWebcMetadata key_text bytes input else Inr None) (\<lambda>found.
      bindR (normalizeArtifactKind
        (case li_artifactKind input of Some k \<Rightarrow> Some k
         | None \<Rightarrow> if li_executorType input = Some codex_kind then Some codex_kind else None) format) (\<lambda>kind.
      bindR (normalizeSource (li_source input)) (\<lambda>src.
      normalizePackageMetadata input bytes keys found kind format sha256 src))))))))"

definition loadBytes :: "(js_value \<Rightarrow> string option) \<Rightarrow> (byte list \<Rightarrow> string) \<Rightarrow> int \<Rightarrow> load_input \<Rightarrow> package_cache \<Rightarrow>
    (loader_error + package_record) \<times> package_cache" where
  "loadBytes key_text digest limit input c =
     (case package_record_of key_text digest limit input of
        Inl e \<Rightarrow> (Inl e, c)
      | Inr r \<Rightarrow> (Inr r, putModuleArtifacts (pr_moduleArtifacts r) (putPackage r c)))"

text \<open>
  The response of a fetch: a status that is \<open>ok\<close> or not, the \<open>content-length\<close> (\<open>Some None\<close>: not a
  number), and a body that is a stream of chunks or one buffer.
\<close>

datatype response_body = Stream "byte list list" | Buffer "byte list"

record fetch_response =
  fr_ok :: bool
  fr_contentLength :: "int option option"
  fr_body :: response_body

fun read_chunks :: "int \<Rightarrow> byte list list \<Rightarrow> byte list list \<Rightarrow> int \<Rightarrow> loader_error + byte list list" where
  "read_chunks limit [] chunks seen = Inr chunks"
| "read_chunks limit (value # rest) chunks seen =
     (let seen = seen + int (length value) in
      bindR (validatePackageBytesLimit (Some seen) limit) (\<lambda>_.
      read_chunks limit rest (if value \<noteq> [] then chunks @ [value] else chunks) seen))"

definition readResponseBodyBytes :: "byte list list \<Rightarrow> int \<Rightarrow> loader_error + byte list" where
  "readResponseBodyBytes body limit = bindR (read_chunks limit body [] 0) (\<lambda>chunks. Inr (concat chunks))"

definition responseBytes :: "fetch_response \<Rightarrow> int \<Rightarrow> loader_error + byte list" where
  "responseBytes response limit =
     bindR (case fr_contentLength response of Some n \<Rightarrow> validatePackageBytesLimit n limit | None \<Rightarrow> Inr ()) (\<lambda>_.
     case fr_body response of
       Stream chunks \<Rightarrow> readResponseBodyBytes chunks limit
     | Buffer bytes \<Rightarrow> bindR (validatePackageBytesLimit (Some (int (length bytes))) limit) (\<lambda>_. Inr bytes))"

definition loadUrl :: "(js_value \<Rightarrow> string option) \<Rightarrow> (byte list \<Rightarrow> string) \<Rightarrow> int \<Rightarrow> (string \<Rightarrow> fetch_response option) \<Rightarrow>
    (string \<Rightarrow> string) \<Rightarrow> string option \<Rightarrow> load_input \<Rightarrow> package_cache \<Rightarrow>
    (loader_error + package_record) \<times> package_cache" where
  "loadUrl key_text digest limit fetch label url input c =
     (case bindR (nonEmptyString (case url of Some u \<Rightarrow> u | None \<Rightarrow> []) ''browser package URL is required'') (\<lambda>url.
           case fetch url of
             None \<Rightarrow> Inl (Transport ''fetch'')
           | Some response \<Rightarrow>
               checkR (fr_ok response) (Transport ''browser package fetch failed'')
                 (bindR (responseBytes response limit) (\<lambda>bytes. Inr (url, bytes)))) of
        Inl e \<Rightarrow> (Inl e, c)
      | Inr (url, bytes) \<Rightarrow>
          loadBytes key_text digest limit
            (input\<lparr>li_bytes := bytes, li_source := Some \<lparr>si_kind = Some ''url'', si_label = Some (label url)\<rparr>\<rparr>) c)"

section \<open>Chunks\<close>

lemma read_chunks_eq:
  assumes "0 \<le> limit" "seen \<le> limit"
  shows "read_chunks limit body chunks seen =
    (if seen + int (length (concat body)) \<le> limit then Inr (chunks @ filter (\<lambda>v. v \<noteq> []) body)
     else Inl Package_too_large)"
  using assms(2)
proof (induction body arbitrary: chunks seen)
  case (Cons v body)
  then show ?case
    by (cases "seen + int (length v) \<le> limit") (auto simp: validatePackageBytesLimit_def Let_def)
qed simp

lemma concat_filter_nonempty: "concat (filter (\<lambda>v. v \<noteq> []) vs) = concat vs"
  by (induction vs) auto

text \<open>
  However a response is cut into chunks, the loader gets all of its bytes in order, or refuses it
  when they are more than the limit.
\<close>

theorem response_chunks:
  assumes "0 \<le> limit"
  shows "readResponseBodyBytes body limit =
    (if int (length (concat body)) \<le> limit then Inr (concat body) else Inl Package_too_large)"
  using read_chunks_eq [of limit 0 body "[]"] assms
  by (simp add: readResponseBodyBytes_def concat_filter_nonempty)

theorem response_chunks_witness:
  "readResponseBodyBytes [[1, 2], [], [3]] 3 = Inr [1, 2, 3] \<and> readResponseBodyBytes [[1, 2], [3]] 2 = Inl Package_too_large"
  by (simp add: response_chunks)

section \<open>Cache keys\<close>

definition escape :: "char \<Rightarrow> string" where
  "escape c = (if alphanumeric c \<or> c \<in> set ''-_.~'' then [c] else percent c)"

definition hex_digit_value :: "char \<Rightarrow> nat" where
  "hex_digit_value c = (let n = of_char c in if n < 58 then n - 48 else n - 55)"

fun unescape :: "string \<Rightarrow> string" where
  "unescape (c # a # b # cs) =
     (if c = CHR ''%'' then char_of (hex_digit_value a * 16 + hex_digit_value b) # unescape cs
      else c # unescape (a # b # cs))"
| "unescape cs = cs"

lemma char_div [simp]: "(of_char c :: nat) div 16 < 16"
  using of_char_less [of c] by linarith

lemma alphanumeric_marks:
  "alphanumeric c \<Longrightarrow> c \<notin> set ''-_.~!()*%/'' \<and> c \<noteq> CHR 0x27"
  by (auto simp: alphanumeric_def)

lemma upper_hex_plain: "n < 16 \<Longrightarrow> alphanumeric (upper_hex n)"
  by (auto simp: alphanumeric_def upper_hex_def Let_def)

lemma encodeArtifactSegment_escape: "encodeArtifactSegment s = concat (map escape s)"
proof -
  have one: "concat (map (\<lambda>c. if c \<in> set ''!()*'' \<or> c = CHR 0x27 then percent c else [c])
      (if alphanumeric c \<or> uri_mark c then [c] else percent c)) = escape c" for c
    using alphanumeric_marks [of c] alphanumeric_marks [OF upper_hex_plain, of "of_char c div 16"]
      alphanumeric_marks [OF upper_hex_plain, of "of_char c mod 16"]
    by (auto simp: escape_def uri_mark_def percent_def)
  show ?thesis
    by (induction s) (simp_all only: encodeArtifactSegment_def encodeURIComponent_def list.map concat.simps
        map_append concat_append one)
qed

lemma hex_digits_value [simp]: "n < 16 \<Longrightarrow> hex_digit_value (upper_hex n) = n"
  by (auto simp: hex_digit_value_def upper_hex_def Let_def)

lemma char_of_digits [simp]:
  "char_of (hex_digit_value (upper_hex (of_char c div 16)) * 16 + hex_digit_value (upper_hex (of_char c mod 16))) = c"
  by (simp del: mod_mult_self3)

lemma unescape_plain: "c \<noteq> CHR ''%'' \<Longrightarrow> unescape (c # cs) = c # unescape cs"
  by (cases cs rule: unescape.cases) auto

lemma unescape_escape: "unescape (concat (map escape s)) = s"
proof (induction s)
  case (Cons c s)
  have "unescape (escape c @ cs) = c # unescape cs" for cs
    using alphanumeric_marks [of c]
    by (auto simp: escape_def percent_def unescape_plain simp del: hex_digits_value)
  with Cons show ?case by simp
qed simp

lemma encodeArtifactSegment_inj: "encodeArtifactSegment a = encodeArtifactSegment b \<longleftrightarrow> a = b"
  by (metis encodeArtifactSegment_escape unescape_escape)

lemma encodeArtifactSegment_no_slash: "CHR ''/'' \<notin> set (encodeArtifactSegment s)"
proof -
  have "CHR ''/'' \<notin> set (escape c)" for c
    using alphanumeric_marks [of c] alphanumeric_marks [OF upper_hex_plain, of "of_char c div 16"]
      alphanumeric_marks [OF upper_hex_plain, of "of_char c mod 16"]
    by (auto simp: escape_def percent_def)
  then show ?thesis by (simp add: encodeArtifactSegment_escape)
qed

section \<open>What a load leaves in the cache\<close>

lemma fold_put_lookup:
  assumes "(k, v) \<in> set kvs" "\<And>v'. (k, v') \<in> set kvs \<Longrightarrow> v' = v"
  shows "map_of (fold (\<lambda>(k, v). AList.update k v) kvs m) k = Some v"
  using assms
proof (induction kvs arbitrary: m rule: rev_induct)
  case (snoc kv kvs)
  obtain j w where kv: "kv = (j, w)" by (cases kv)
  show ?case
  proof (cases "j = k")
    case True
    then have "w = v" using snoc.prems(2) [of w] by (simp add: kv)
    with True show ?thesis by (simp add: kv)
  next
    case False
    have "map_of (fold (\<lambda>(k, v). AList.update k v) kvs m) k = Some v"
    proof (rule snoc.IH)
      show "(k, v) \<in> set kvs" using snoc.prems(1) False by (simp add: kv)
      show "u = v" if "(k, u) \<in> set kvs" for u using that by (intro snoc.prems(2)) simp
    qed
    with False show ?thesis by (simp add: kv)
  qed
qed simp

lemma table_set_lookup:
  "map_of (fst (table_set k v t)) j = (if k = proto_key then map_of (fst t) j else ((map_of (fst t))(k \<mapsto> v)) j)"
  by (cases t) simp

lemma table_of_snoc: "table_of (kvs @ [kv]) = table_set (fst kv) (snd kv) (table_of kvs)"
  by (simp add: table_of_def split_beta)

lemma table_set_get: "table_get (table_set k v t) j = (if k = j \<and> (k = proto_key \<longrightarrow> map_of (fst t) k = None) then Some v else table_get t j)"
  by (cases t) (auto simp: table_get_def split: option.splits)

lemma table_get_own: "map_of (fst t) k = Some v \<Longrightarrow> table_get t k = Some v"
  by (simp add: table_get_def)

lemma table_of_lookup:
  "table_get (table_of kvs) k = Some v \<Longrightarrow> (k, v) \<in> set kvs"
proof (induction kvs rule: rev_induct)
  case (snoc kv kvs)
  then show ?case
    by (cases kv) (auto simp: table_of_snoc table_set_get split: if_splits)
qed (simp add: table_of_def empty_table_def table_get_def split: if_splits)

lemma module_artifacts_fold:
  "pc_moduleArtifacts (fold (\<lambda>(a, bs). putModuleArtifact (f a) bs) es c) =
   fold (\<lambda>(k, v). AList.update k v) (map (\<lambda>(a, bs). (f a, bs)) es) (pc_moduleArtifacts c)"
  by (induction es arbitrary: c) (auto simp: putModuleArtifact_def)

lemma own_keys_set: "set (own_keys props) = fst ` set props"
  by (auto simp: own_keys_def Let_def)

lemma table_entries_in:
  "(k, v) \<in> set (table_entries t) \<longleftrightarrow> map_of (fst t) k = Some v"
proof -
  have "k \<in> fst ` set (fst t) \<longleftrightarrow> map_of (fst t) k \<noteq> None"
    by (simp add: map_of_eq_None_iff)
  then show ?thesis
    by (auto simp: table_entries_def own_keys_set dest: map_of_is_SomeI split: option.splits)
qed

text \<open>The record keeps what was found in the bytes.\<close>

lemma package_record_parts:
  assumes "package_record_of key_text digest limit input = Inr r" "li_webcArtifacts input = None"
    and "pm_webcArtifacts (pr_metadata r) = Some summary"
  obtains metadata artifacts where
    "extractWebcPackageMetadata key_text (li_bytes input) = Inr (metadata, artifacts)"
    "normalizeWebcModuleArtifacts (Some artifacts) (pr_cacheKeys r) = (pr_moduleArtifacts r, Some summary)"
proof -
  from assms(1) obtain keys found kind format sha256 src where
    norm: "normalizePackageMetadata input (li_bytes input) keys found kind format sha256 src = Inr r"
    and found: "found = None \<or> discoverWebcMetadata key_text (li_bytes input) input = Inr found"
    unfolding package_record_of_def Let_def
    by (auto simp: bindR_Inr split: if_splits)
  from norm have parts: "pr_cacheKeys r = keys"
      "pm_webcArtifacts (pr_metadata r) = or_else (li_webcArtifacts input) (snd (normalizeWebcModuleArtifacts (map_option snd found) keys))"
      "pr_moduleArtifacts r = fst (normalizeWebcModuleArtifacts (map_option snd found) keys)"
    unfolding normalizePackageMetadata_def Let_def
    by (auto simp: bindR_Inr split_beta)
  obtain metadata artifacts where some: "found = Some (metadata, artifacts)"
    using parts(2) assms(2,3) by (cases found) (auto simp: or_else_def normalizeWebcModuleArtifacts_def)
  show thesis
  proof (rule that)
    show "extractWebcPackageMetadata key_text (li_bytes input) = Inr (metadata, artifacts)"
      using found some by (auto simp: discoverWebcMetadata_def split: sum.splits if_splits)
    show "normalizeWebcModuleArtifacts (Some artifacts) (pr_cacheKeys r) = (pr_moduleArtifacts r, Some summary)"
      using parts some assms(2,3) by (simp add: or_else_def prod_eq_iff)
  qed
qed

lemma cached_atom:
  assumes "loadBytes key_text digest limit input c = (Inr r, c')" "li_webcArtifacts input = None"
    and "pm_webcArtifacts (pr_metadata r) = Some summary" "table_get (as_atoms summary) name = Some atom"
  obtains key f where "ar_cacheKey atom = Some key" "getModuleArtifact c' key = Some (vf_bytes f)"
    "ar_span atom = vf_span f" "file_in (li_bytes input) f"
proof -
  from assms(1) have r: "package_record_of key_text digest limit input = Inr r"
    and c': "c' = putModuleArtifacts (pr_moduleArtifacts r) (putPackage r c)"
    by (auto simp: loadBytes_def split: sum.splits)
  obtain metadata artifacts where x: "extractWebcPackageMetadata key_text (li_bytes input) = Inr (metadata, artifacts)"
    "normalizeWebcModuleArtifacts (Some artifacts) (pr_cacheKeys r) = (pr_moduleArtifacts r, Some summary)"
    by (rule package_record_parts [OF r assms(2,3)])
  let ?atoms = "table_entries (aa_files (wa_atoms artifacts))" and ?keys = "pr_cacheKeys r"
  have entries: "pr_moduleArtifacts r = Some (map (\<lambda>e. (atom_summary ?keys e, vf_bytes (snd e))) ?atoms)"
    and summary: "as_atoms summary = table_of (map (\<lambda>e. (fst e, atom_summary ?keys e)) ?atoms)"
    using x(2) by (auto simp: normalizeWebcModuleArtifacts_def Let_def)
  from assms(4) obtain f where f: "(name, f) \<in> set ?atoms" "atom = atom_summary ?keys (name, f)"
    by (auto simp: summary dest!: table_of_lookup)
  let ?key = "\<lambda>n. ck_moduleArtifactsPrefix ?keys @ ''atoms/'' @ encodeArtifactSegment n"
  have own: "map_of (fst (aa_files (wa_atoms artifacts))) name = Some f"
    using f(1) by (simp add: table_entries_in)
  have keyed: "map (\<lambda>(a, bs). (case ar_cacheKey a of Some k \<Rightarrow> k | None \<Rightarrow> ''undefined'', bs))
      (map (\<lambda>e. (atom_summary ?keys e, vf_bytes (snd e))) ?atoms) = map (\<lambda>(n, f). (?key n, vf_bytes f)) ?atoms"
    by (simp add: atom_summary_def split_beta)
  have "map_of (pc_moduleArtifacts c') (?key name) = Some (vf_bytes f)"
    unfolding c' entries putModuleArtifacts_def option.case module_artifacts_fold keyed
  proof (rule fold_put_lookup)
    show "(?key name, vf_bytes f) \<in> set (map (\<lambda>(n, f). (?key n, vf_bytes f)) ?atoms)"
      using f(1) by force
    show "bs = vf_bytes f" if "(?key name, bs) \<in> set (map (\<lambda>(n, f). (?key n, vf_bytes f)) ?atoms)" for bs
      using that own by (auto simp: encodeArtifactSegment_inj table_entries_in)
  qed
  moreover have "f \<in> artifact_files artifacts"
  proof -
    have "f \<in> snd ` set (fst (aa_files (wa_atoms artifacts)))" using map_of_SomeD [OF own] by force
    then show ?thesis by (simp add: artifact_files_def table_values_def)
  qed
  ultimately show thesis
    using artifact_files_in [OF x(1)]
    by (intro that [of "?key name" f]) (simp_all add: f(2) atom_summary_def getModuleArtifact_def)
qed

text \<open>
  C21: after a WebC package is loaded, the cache holds under the key that the metadata names for an
  atom exactly the bytes of the package that the atom's span names.
\<close>

theorem loaded_atoms_cached:
  assumes "loadBytes key_text digest limit input c = (Inr r, c')" "li_webcArtifacts input = None"
    and "pm_webcArtifacts (pr_metadata r) = Some summary" "map_of (fst (as_atoms summary)) name = Some atom"
  shows "\<exists>key. ar_cacheKey atom = Some key \<and> getModuleArtifact c' key =
    Some (js_slice (li_bytes input) (sp_offset (ar_span atom)) (sp_offset (ar_span atom) + sp_length (ar_span atom)))"
  using cached_atom [OF assms(1-3) table_get_own [OF assms(4)]] by (metis file_in_def)

definition example_input :: "byte list \<Rightarrow> load_input" where
  "example_input bytes =
     \<lparr>li_bytes = bytes, li_id = None, li_packageId = None, li_commands = None, li_command = None,
      li_defaultCommand = None, li_entrypoint = None, li_executorType = None, li_commandPackageType = None,
      li_artifactKind = None, li_expectedSha256 = None, li_source = None, li_commandMetadata = None,
      li_filesystem = None, li_webcArtifacts = None\<rparr>"

abbreviation (input) empty_cache :: package_cache where
  "empty_cache \<equiv> \<lparr>pc_packages = [], pc_packageBytes = [], pc_moduleArtifacts = []\<rparr>"

abbreviation (input) no_digest :: "byte list \<Rightarrow> string" where
  "no_digest \<equiv> \<lambda>bytes. replicate 64 (CHR ''0'')"

abbreviation (input) load_example :: "string \<Rightarrow> (loader_error + package_record) \<times> package_cache" where
  "load_example cmd \<equiv> loadBytes no_text no_digest DEFAULT_PACKAGE_BYTES_LIMIT
     (example_input (example_package cmd ''a'')) empty_cache"

definition atom_in :: "package_record \<Rightarrow> string \<Rightarrow> artifact option" where
  "atom_in r name = (case pm_webcArtifacts (pr_metadata r) of Some s \<Rightarrow> map_of (fst (as_atoms s)) name | None \<Rightarrow> None)"

lemma example_loaded:
  "case load_example ''ls'' of
     (Inr r, c) \<Rightarrow> pr_defaultCommand r = ''ls'' \<and> pr_entrypoint r = ''ls'' \<and> atom_in r ''a'' \<noteq> None
   | (Inl e, c) \<Rightarrow> False"
  by code_simp

theorem loaded_atoms_cached_witness:
  "case load_example ''ls'' of
     (Inr r, c) \<Rightarrow> \<exists>atom key. atom_in r ''a'' = Some atom \<and> ar_cacheKey atom = Some key \<and> getModuleArtifact c key \<noteq> None
   | (Inl e, c) \<Rightarrow> False"
proof -
  obtain r c atom where x: "load_example ''ls'' = (Inr r, c)" "atom_in r ''a'' = Some atom"
    using example_loaded by (auto split: prod.splits sum.splits)
  then obtain summary where "pm_webcArtifacts (pr_metadata r) = Some summary" "map_of (fst (as_atoms summary)) ''a'' = Some atom"
    by (auto simp: atom_in_def split: option.splits)
  from loaded_atoms_cached [OF x(1) _ this] x show ?thesis by (auto simp: example_input_def)
qed

text \<open>
  The loader trims the names of the commands but not the keys of their metadata: a command whose
  name in the manifest has a space is listed under a name that has no metadata.
\<close>

theorem trimmed_command_loses_metadata:
  "case load_example '' ls'' of
     (Inr r, c) \<Rightarrow> pr_commands r = [''ls''] \<and>
       map_option (\<lambda>t. map_of (fst t) ''ls'' = None) (pm_commandMetadata (pr_metadata r)) = Some True
   | (Inl e, c) \<Rightarrow> False"
  by code_simp

end
