(* ===== verification/Wasm_Imports.thy ===== *)
theory Wasm_Imports imports Byte_Reader begin

text \<open>
  What the host reads of a WebAssembly module before it compiles it (\<open>wasi-module.js\<close>,
  \<open>importedMemoryImports\<close> and the functions below it): the sections of the binary, the import section
  entry by entry, and the memory the module imports. Proved: the imports of an encoded module are
  read back, whatever other sections it has, and the memory type agrees with the limits it was
  given; the numbers are LEB128 with at most five bytes.
\<close>

datatype wasm_error =
    Bad_magic | Bad_varuint32 | Truncated_import | Unsupported_kind int | Memory64 | Multiple_memories

record memory_import =
  mi_module :: string
  mi_name :: string
  mi_initial :: int
  mi_maximum :: "int option"
  mi_shared :: bool

record wasm_limits =
  wl_flags :: int
  wl_initial :: int
  wl_maximum :: "int option"
  wl_shared :: bool

definition WASM_MAGIC :: "byte list" where
  "WASM_MAGIC = [0x00, 0x61, 0x73, 0x6d]"

definition WASM_IMPORT_SECTION_ID :: int where "WASM_IMPORT_SECTION_ID = 2"
definition WASM_IMPORT_KIND_FUNCTION :: int where "WASM_IMPORT_KIND_FUNCTION = 0"
definition WASM_IMPORT_KIND_TABLE :: int where "WASM_IMPORT_KIND_TABLE = 1"
definition WASM_IMPORT_KIND_MEMORY :: int where "WASM_IMPORT_KIND_MEMORY = 2"
definition WASM_IMPORT_KIND_GLOBAL :: int where "WASM_IMPORT_KIND_GLOBAL = 3"
definition WASM_IMPORT_KIND_TAG :: int where "WASM_IMPORT_KIND_TAG = 4"

lemmas wasm_constants = WASM_IMPORT_SECTION_ID_def WASM_IMPORT_KIND_FUNCTION_def
  WASM_IMPORT_KIND_TABLE_def WASM_IMPORT_KIND_MEMORY_def WASM_IMPORT_KIND_GLOBAL_def
  WASM_IMPORT_KIND_TAG_def

section \<open>The reader\<close>

definition requireWasmRange :: "byte list \<Rightarrow> int \<Rightarrow> int \<Rightarrow> int \<Rightarrow> wasm_error + 'a \<Rightarrow> wasm_error + 'a" where
  "requireWasmRange data offset len en m =
     checkR (\<not> (offset < 0 \<or> len < 0 \<or> offset + len > en \<or> en > int (length data))) Truncated_import m"

unbundle bit_operations_syntax

text \<open>The loop of \<open>readWasmVarUint32\<close>: \<open>result\<close> is the 32-bit integer of the bit operations.\<close>

function varuint32_from :: "byte list \<Rightarrow> int \<Rightarrow> int \<Rightarrow> nat \<Rightarrow> 32 word \<Rightarrow> wasm_error + int \<times> int" where
  "varuint32_from data sectionEnd cursor shift result =
     (if cursor < sectionEnd then
        let b = byte_at data cursor; result = result OR push_bit shift (ucast (b AND 0x7f)) in
        if b AND 0x80 = 0 then Inr (cursor + 1, uint result)
        else if 35 \<le> shift + 7 then Inl Bad_varuint32
        else varuint32_from data sectionEnd (cursor + 1) (shift + 7) result
      else Inl Bad_varuint32)"
  by pat_completeness auto
termination by (relation "measure (\<lambda>(data, en, c, shift, r). nat (en - c))") auto

declare varuint32_from.simps [simp del]

definition readWasmVarUint32 :: "byte list \<Rightarrow> int \<Rightarrow> int \<Rightarrow> wasm_error + int \<times> int" where
  "readWasmVarUint32 data offset sectionEnd = varuint32_from data sectionEnd offset 0 0"

definition readWasmName :: "byte list \<Rightarrow> int \<Rightarrow> int \<Rightarrow> wasm_error + int \<times> string" where
  "readWasmName data offset sectionEnd =
     bindR (readWasmVarUint32 data offset sectionEnd) (\<lambda>(o', len).
     requireWasmRange data o' len sectionEnd
       (Inr (o' + len, decodeText (js_slice data o' (o' + len)))))"

definition WASM_LIMITS_HAS_MAXIMUM :: "32 word" where "WASM_LIMITS_HAS_MAXIMUM = 1"
definition WASM_LIMITS_SHARED :: "32 word" where "WASM_LIMITS_SHARED = 2"
definition WASM_LIMITS_MEMORY64 :: "32 word" where "WASM_LIMITS_MEMORY64 = 4"

definition has_flag :: "int \<Rightarrow> 32 word \<Rightarrow> bool" where
  "has_flag flags flag \<longleftrightarrow> word_of_int flags AND flag \<noteq> 0"

definition readWasmLimits :: "byte list \<Rightarrow> int \<Rightarrow> int \<Rightarrow> wasm_error + int \<times> wasm_limits" where
  "readWasmLimits data offset sectionEnd =
     bindR (readWasmVarUint32 data offset sectionEnd) (\<lambda>(o1, flags).
     bindR (readWasmVarUint32 data o1 sectionEnd) (\<lambda>(o2, initial).
     let limits = \<lambda>maximum. \<lparr>wl_flags = flags, wl_initial = initial, wl_maximum = maximum,
                             wl_shared = has_flag flags WASM_LIMITS_SHARED\<rparr> in
     if has_flag flags WASM_LIMITS_HAS_MAXIMUM
     then bindR (readWasmVarUint32 data o2 sectionEnd) (\<lambda>(o3, maximum). Inr (o3, limits (Some maximum)))
     else Inr (o2, limits None)))"

definition readWasmMemoryType :: "byte list \<Rightarrow> int \<Rightarrow> int \<Rightarrow> wasm_error + int \<times> wasm_limits" where
  "readWasmMemoryType data offset sectionEnd =
     bindR (readWasmLimits data offset sectionEnd) (\<lambda>(o', limits).
     checkR (\<not> has_flag (wl_flags limits) WASM_LIMITS_MEMORY64) Memory64 (Inr (o', limits)))"

definition skipWasmImportDescriptor :: "byte list \<Rightarrow> int \<Rightarrow> int \<Rightarrow> int \<Rightarrow> wasm_error + int" where
  "skipWasmImportDescriptor data offset sectionEnd kind =
     (if kind = WASM_IMPORT_KIND_FUNCTION then
        bindR (readWasmVarUint32 data offset sectionEnd) (\<lambda>(o', _). Inr o')
      else if kind = WASM_IMPORT_KIND_TAG then
        bindR (readWasmVarUint32 data offset sectionEnd) (\<lambda>(o1, _).
        bindR (readWasmVarUint32 data o1 sectionEnd) (\<lambda>(o2, _). Inr o2))
      else if kind = WASM_IMPORT_KIND_TABLE then
        requireWasmRange data offset 1 sectionEnd
          (bindR (readWasmLimits data (offset + 1) sectionEnd) (\<lambda>(o', _). Inr o'))
      else if kind = WASM_IMPORT_KIND_GLOBAL then
        requireWasmRange data offset 2 sectionEnd (Inr (offset + 2))
      else Inl (Unsupported_kind kind))"

text \<open>One round of the loop of \<open>parseWasmImportSection\<close>, with what it pushes.\<close>

definition import_entry :: "byte list \<Rightarrow> int \<Rightarrow> int \<Rightarrow> wasm_error + int \<times> memory_import list" where
  "import_entry data cursor sectionEnd =
     bindR (readWasmName data cursor sectionEnd) (\<lambda>(c1, moduleName).
     bindR (readWasmName data c1 sectionEnd) (\<lambda>(c2, importName).
     requireWasmRange data c2 1 sectionEnd
       (let kind = uint (byte_at data c2) in
        if kind = WASM_IMPORT_KIND_MEMORY then
          bindR (readWasmMemoryType data (c2 + 1) sectionEnd) (\<lambda>(c3, limits).
          Inr (c3, [\<lparr>mi_module = moduleName, mi_name = importName, mi_initial = wl_initial limits,
                     mi_maximum = wl_maximum limits, mi_shared = wl_shared limits\<rparr>]))
        else bindR (skipWasmImportDescriptor data (c2 + 1) sectionEnd kind) (\<lambda>c3. Inr (c3, [])))))"

text \<open>The count is read up to the end of the file, the entries up to the end of the section.\<close>

definition parseWasmImportSection :: "byte list \<Rightarrow> int \<Rightarrow> int \<Rightarrow> wasm_error + memory_import list" where
  "parseWasmImportSection data offset sectionEnd =
     bindR (readWasmVarUint32 data offset (int (length data))) (\<lambda>(cursor, count).
     bindR (read_many import_entry data sectionEnd (nat count) cursor) (\<lambda>(_, imports). Inr imports))"

text \<open>Every section but the import section is skipped.\<close>

definition read_section :: "byte list \<Rightarrow> int \<Rightarrow> wasm_error + int \<times> memory_import list" where
  "read_section data offset =
     (let sectionId = uint (byte_at data offset) in
      bindR (readWasmVarUint32 data (offset + 1) (int (length data))) (\<lambda>(o', len).
      requireWasmRange data o' len (int (length data))
        (if sectionId = WASM_IMPORT_SECTION_ID
         then bindR (parseWasmImportSection data o' (o' + len)) (\<lambda>imports. Inr (o' + len, imports))
         else Inr (o' + len, []))))"

lemma varuint32_from_moves: "varuint32_from data en c s r = Inr (c', v) \<Longrightarrow> c < c'"
proof (induction data en c s r rule: varuint32_from.induct)
  case (1 data en c s r)
  then show ?case
    by (subst (asm) varuint32_from.simps) (force simp: Let_def split: if_splits)
qed

lemma readWasmVarUint32_moves: "readWasmVarUint32 data c en = Inr (c', v) \<Longrightarrow> c < c'"
  by (simp add: readWasmVarUint32_def varuint32_from_moves)

lemma read_section_moves: "read_section data c = Inr (c', xs) \<Longrightarrow> c < c'"
  by (auto simp: read_section_def Let_def bindR_Inr requireWasmRange_def checkR_Inr
      dest!: readWasmVarUint32_moves split: if_splits)

function sections_from :: "byte list \<Rightarrow> int \<Rightarrow> wasm_error + memory_import list" where
  "sections_from data offset =
     (if offset < int (length data) then
        bindR (read_section data offset) (\<lambda>(o', imports).
        bindR (sections_from data o') (\<lambda>later. Inr (imports @ later)))
      else Inr [])"
  by pat_completeness auto
termination
  by (relation "measure (\<lambda>(data, o'). nat (int (length data) - o'))")
    (auto dest: read_section_moves)

declare sections_from.simps [simp del]

definition validateWasmMagic :: "byte list \<Rightarrow> wasm_error + 'a \<Rightarrow> wasm_error + 'a" where
  "validateWasmMagic bytes m = checkR (startsWithBytes bytes WASM_MAGIC) Bad_magic m"

definition importedMemoryImports :: "byte list \<Rightarrow> wasm_error + memory_import list" where
  "importedMemoryImports data =
     validateWasmMagic data (sections_from data (int (length WASM_MAGIC) + 4))"

definition importedMemoryImport :: "byte list \<Rightarrow> wasm_error + memory_import option" where
  "importedMemoryImport bytes =
     bindR (importedMemoryImports bytes) (\<lambda>imports.
       case imports of [] \<Rightarrow> Inr None | [x] \<Rightarrow> Inr (Some x) | _ \<Rightarrow> Inl Multiple_memories)"

section \<open>LEB128\<close>

fun leb128 :: "nat \<Rightarrow> byte list" where
  "leb128 n = (if n < 128 then [word_of_nat n] else word_of_nat (128 + n mod 128) # leb128 (n div 128))"

declare leb128.simps [simp del]

lemma leb128_small: "n < 128 \<Longrightarrow> leb128 n = [word_of_nat n]"
  by (simp add: leb128.simps)

lemma leb128_big: "128 \<le> n \<Longrightarrow> leb128 n = word_of_nat (128 + n mod 128) # leb128 (n div 128)"
  by (subst leb128.simps) simp

lemma low_bits: "m < 128 \<Longrightarrow> (word_of_nat m :: byte) AND 0x7f = word_of_nat m"
  "m < 128 \<Longrightarrow> (word_of_nat (128 + m) :: byte) AND 0x7f = word_of_nat m"
proof -
  have mask: "b AND 0x7f = take_bit 7 b" for b :: byte
    by (simp add: take_bit_eq_mask mask_eq_exp_minus_1)
  show "m < 128 \<Longrightarrow> (word_of_nat m :: byte) AND 0x7f = word_of_nat m"
    "m < 128 \<Longrightarrow> (word_of_nat (128 + m) :: byte) AND 0x7f = word_of_nat m"
    unfolding mask take_bit_of_nat by (simp_all add: take_bit_eq_mod)
qed

lemma high_bit: "m < 128 \<Longrightarrow> (word_of_nat m :: byte) AND 0x80 = 0"
  "m < 128 \<Longrightarrow> (word_of_nat (128 + m) :: byte) AND 0x80 \<noteq> 0"
proof -
  have bit: "(word_of_nat k :: byte) AND 0x80 = 0 \<longleftrightarrow> even (k div 128)" for k
    using and_exp_eq_0_iff_not_bit [of "word_of_nat k :: byte" 7]
    by (simp add: bit_of_nat_iff bit_iff_odd [of k])
  show "m < 128 \<Longrightarrow> (word_of_nat m :: byte) AND 0x80 = 0"
    "m < 128 \<Longrightarrow> (word_of_nat (128 + m) :: byte) AND 0x80 \<noteq> 0"
    unfolding bit using div_add_self1 [of 128 m] by simp_all
qed

text \<open>The bits read so far lie below the bits still to come.\<close>

lemma or_shifted:
  assumes "r < 2 ^ s" "m < 128"
  shows "(word_of_nat r :: 32 word) OR push_bit s (ucast (word_of_nat m :: byte)) =
         word_of_nat (r + m * 2 ^ s)"
proof -
  have "\<not> bit r n" if "s \<le> n" for n
    using assms(1) that by (metis bit_take_bit_iff leD take_bit_nat_eq_self_iff)
  then have "word_of_nat r AND push_bit s (word_of_nat m) = (0 :: 32 word)"
    by (auto simp: bit_eq_iff bit_and_iff bit_push_bit_iff bit_of_nat_iff)
  moreover have "ucast (word_of_nat m :: byte) = (word_of_nat m :: 32 word)"
    using assms(2) by (simp add: word_unat_eq_iff unat_of_nat unsigned_ucast_eq take_bit_eq_mod)
  ultimately show ?thesis
    by (simp add: disjunctive_add_eq_or [symmetric] push_bit_eq_mult)
qed

lemma varuint32_last:
  assumes "c < en" "byte_at data c = word_of_nat m" "m < 128" "r < 2 ^ s" "r + m * 2 ^ s < 2 ^ 32"
  shows "varuint32_from data en c s (word_of_nat r) = Inr (c + 1, int (r + m * 2 ^ s))"
proof -
  have "uint (word_of_nat (r + m * 2 ^ s) :: 32 word) = int (r + m * 2 ^ s)"
    using assms(5) by (simp only: uint_nat unat_of_nat) simp
  then show ?thesis
    using assms(1-4)
    by (subst varuint32_from.simps) (simp only: Let_def low_bits high_bit or_shifted if_True refl)
qed

lemma varuint32_more:
  assumes "c < en" "byte_at data c = word_of_nat (128 + m)" "m < 128" "r < 2 ^ s" "s < 28"
  shows "varuint32_from data en c s (word_of_nat r) =
         varuint32_from data en (c + 1) (s + 7) (word_of_nat (r + m * 2 ^ s))"
  using assms
  by (subst varuint32_from.simps)
    (simp only: Let_def low_bits high_bit or_shifted if_True if_False refl, simp)

lemma varuint32_from_leb128:
  assumes "r < 2 ^ s" "r + n * 2 ^ s < 2 ^ 32" "data = pre @ leb128 n @ post" "c = int (length pre)"
    and "c + int (length (leb128 n)) \<le> en"
  shows "varuint32_from data en c s (word_of_nat r) =
         Inr (c + int (length (leb128 n)), int (r + n * 2 ^ s))"
  using assms
proof (induction n arbitrary: r s pre c rule: leb128.induct)
  case (1 n)
  show ?case
  proof (cases "n < 128")
    case True
    with "1.prems" show ?thesis by (simp add: leb128_small varuint32_last)
  next
    case False
    define m q where mq: "m = n mod 128" "q = n div 128"
    with False have big: "n = m + 128 * q" "m < 128" "1 \<le> q" "leb128 n = word_of_nat (128 + m) # leb128 q"
      by (simp_all add: leb128_big)
    have val: "r + m * 2 ^ s + q * 2 ^ (s + 7) = r + n * 2 ^ s"
      by (simp add: big(1) power_add algebra_simps)
    have "(2::nat) ^ (s + 7) \<le> q * 2 ^ (s + 7)" using big(3) by simp
    with val "1.prems"(2) have "(2::nat) ^ (s + 7) < 2 ^ 32" by linarith
    then have s: "s + 7 < 32" by (simp only: power_strict_increasing_iff)
    have "m * 2 ^ s \<le> 127 * 2 ^ s" using big(2) by simp
    moreover have "(2::nat) ^ (s + 7) = 127 * 2 ^ s + 2 ^ s" by (simp add: power_add)
    ultimately have low: "r + m * 2 ^ s < 2 ^ (s + 7)" using "1.prems"(1) by linarith
    have "varuint32_from data en c s (word_of_nat r) =
        varuint32_from data en (c + 1) (s + 7) (word_of_nat (r + m * 2 ^ s))"
      using "1.prems" big s by (intro varuint32_more) simp_all
    also have "\<dots> = Inr (c + 1 + int (length (leb128 q)), int (r + m * 2 ^ s + q * 2 ^ (s + 7)))"
      using "1.prems" big val
      by (intro "1.IH" [OF False, folded mq, where pre = "pre @ [word_of_nat (128 + m)]"] low) simp_all
    finally show ?thesis by (simp add: val big(4))
  qed
qed

abbreviation u32 :: "nat \<Rightarrow> bool" where "u32 n \<equiv> n < 4294967296"

interpretation leb: codec readWasmVarUint32 leb128 u32 int
proof
  fix x and pre post :: "byte list" and en :: int
  assume "u32 x" "int (length pre + length (leb128 x)) \<le> en"
  then have "varuint32_from (pre @ leb128 x @ post) en (int (length pre)) 0 (word_of_nat 0) =
      Inr (int (length pre) + int (length (leb128 x)), int (0 + x * 2 ^ 0))"
    by (intro varuint32_from_leb128) simp_all
  then show "readWasmVarUint32 (pre @ leb128 x @ post) (int (length pre)) en =
      Inr (int (length pre + length (leb128 x)), int x)"
    by (simp add: readWasmVarUint32_def)
qed

section \<open>Encoded imports\<close>

text \<open>Text as a module has it: it decodes to itself.\<close>

definition wasm_name :: "string \<Rightarrow> bool" where
  "wasm_name s \<longleftrightarrow> u32 (length s) \<and> decodeText (encodeText s) = s"

definition name_bytes :: "string \<Rightarrow> byte list" where
  "name_bytes s = leb128 (length s) @ encodeText s"

interpretation name: codec readWasmName name_bytes wasm_name "\<lambda>s. s"
proof
  fix x pre post and en :: int
  assume ok: "wasm_name x" and en: "int (length pre + length (name_bytes x)) \<le> en"
    "en \<le> int (length (pre @ name_bytes x @ post))"
  let ?data = "(pre @ leb128 (length x)) @ encodeText x @ post"
  have "readWasmVarUint32 ?data (int (length pre)) en =
      Inr (int (length pre) + int (length (leb128 (length x))), int (length x))"
    using ok en
    by (intro leb.dec_at [where pre = pre and post = "encodeText x @ post"])
      (simp_all add: wasm_name_def name_bytes_def)
  moreover have "js_slice ?data (int (length (pre @ leb128 (length x))))
      (int (length (pre @ leb128 (length x))) + int (length (encodeText x))) = encodeText x"
    by (rule js_slice_append)
  ultimately show "readWasmName (pre @ name_bytes x @ post) (int (length pre)) en =
      Inr (int (length pre + length (name_bytes x)), x)"
    using ok en by (simp add: readWasmName_def name_bytes_def wasm_name_def requireWasmRange_def)
qed

datatype wasm_desc =
    Func_desc nat
  | Table_desc byte nat "nat option" nat
  | Memory_desc nat "nat option" nat
  | Global_desc byte byte
  | Tag_desc nat nat

text \<open>The flags of limits: bit 0 says that there is a maximum; of a memory, bit 2 is clear.\<close>

definition limits_ok :: "nat \<Rightarrow> nat option \<Rightarrow> nat \<Rightarrow> bool" where
  "limits_ok initial maximum flags \<longleftrightarrow>
     u32 initial \<and> u32 flags \<and> (odd flags \<longleftrightarrow> maximum \<noteq> None) \<and> pred_option u32 maximum"

definition limits_bytes :: "nat \<Rightarrow> nat option \<Rightarrow> nat \<Rightarrow> byte list" where
  "limits_bytes initial maximum flags =
     leb128 flags @ leb128 initial @ (case maximum of None \<Rightarrow> [] | Some m \<Rightarrow> leb128 m)"

lemma has_flag_bits [simp]:
  "u32 n \<Longrightarrow> has_flag (int n) WASM_LIMITS_HAS_MAXIMUM \<longleftrightarrow> odd n"
  "u32 n \<Longrightarrow> has_flag (int n) WASM_LIMITS_SHARED \<longleftrightarrow> odd (n div 2)"
  "u32 n \<Longrightarrow> has_flag (int n) WASM_LIMITS_MEMORY64 \<longleftrightarrow> odd (n div 4)"
proof -
  have flag: "has_flag (int n) (2 ^ k) \<longleftrightarrow> odd (n div 2 ^ k)" if "k < 32" for k
    using that by (simp add: has_flag_def and_exp_eq_0_iff_not_bit bit_of_nat_iff bit_iff_odd [of n])
  show "u32 n \<Longrightarrow> has_flag (int n) WASM_LIMITS_HAS_MAXIMUM \<longleftrightarrow> odd n"
    "u32 n \<Longrightarrow> has_flag (int n) WASM_LIMITS_SHARED \<longleftrightarrow> odd (n div 2)"
    "u32 n \<Longrightarrow> has_flag (int n) WASM_LIMITS_MEMORY64 \<longleftrightarrow> odd (n div 4)"
    using flag [of 0] flag [of 1] flag [of 2]
    by (simp_all add: WASM_LIMITS_HAS_MAXIMUM_def WASM_LIMITS_SHARED_def WASM_LIMITS_MEMORY64_def)
qed

definition limits_view :: "nat \<Rightarrow> nat option \<Rightarrow> nat \<Rightarrow> wasm_limits" where
  "limits_view initial maximum flags =
     \<lparr>wl_flags = int flags, wl_initial = int initial, wl_maximum = map_option int maximum,
      wl_shared = odd (flags div 2)\<rparr>"

interpretation limits: codec readWasmLimits "\<lambda>(i, m, f). limits_bytes i m f"
  "\<lambda>(i, m, f). limits_ok i m f" "\<lambda>(i, m, f). limits_view i m f"
proof
  fix x pre post and en :: int
  assume ok: "case x of (i, m, f) \<Rightarrow> limits_ok i m f"
    and en: "int (length pre + length (case x of (i, m, f) \<Rightarrow> limits_bytes i m f)) \<le> en"
      "en \<le> int (length (pre @ (case x of (i, m, f) \<Rightarrow> limits_bytes i m f) @ post))"
  obtain i m f where x: "x = (i, m, f)" by (cases x)
  let ?max = "case m of None \<Rightarrow> [] | Some k \<Rightarrow> leb128 k"
  let ?data = "pre @ leb128 f @ leb128 i @ ?max @ post"
  have 1: "readWasmVarUint32 ?data (int (length pre)) en =
      Inr (int (length pre) + int (length (leb128 f)), int f)"
    using ok en x by (intro leb.dec_at) (simp_all add: limits_ok_def limits_bytes_def)
  have 2: "readWasmVarUint32 ?data (int (length pre) + int (length (leb128 f))) en =
      Inr (int (length pre) + int (length (leb128 f)) + int (length (leb128 i)), int i)"
    using ok en x by (intro leb.dec_at [where pre = "pre @ leb128 f"]) (simp_all add: limits_ok_def limits_bytes_def)
  have 3: "readWasmVarUint32 ?data (int (length pre) + int (length (leb128 f)) + int (length (leb128 i))) en =
      Inr (int (length pre) + int (length (leb128 f)) + int (length (leb128 i)) + int (length (leb128 k)), int k)"
    if "m = Some k" for k
    using ok en x that
    by (intro leb.dec_at [where pre = "pre @ leb128 f @ leb128 i"]) (simp_all add: limits_ok_def limits_bytes_def)
  show "readWasmLimits (pre @ (case x of (i, m, f) \<Rightarrow> limits_bytes i m f) @ post) (int (length pre)) en =
      Inr (int (length pre + length (case x of (i, m, f) \<Rightarrow> limits_bytes i m f)),
           case x of (i, m, f) \<Rightarrow> limits_view i m f)"
    using ok x 1 2 3
    by (cases m) (auto simp: readWasmLimits_def limits_bytes_def limits_ok_def limits_view_def)
qed

fun desc_ok :: "wasm_desc \<Rightarrow> bool" where
  "desc_ok (Func_desc t) \<longleftrightarrow> u32 t"
| "desc_ok (Table_desc e i m f) \<longleftrightarrow> limits_ok i m f"
| "desc_ok (Memory_desc i m f) \<longleftrightarrow> limits_ok i m f \<and> even (f div 4)"
| "desc_ok (Global_desc t k) \<longleftrightarrow> True"
| "desc_ok (Tag_desc a t) \<longleftrightarrow> u32 a \<and> u32 t"

fun desc_bytes :: "wasm_desc \<Rightarrow> byte list" where
  "desc_bytes (Func_desc t) = 0 # leb128 t"
| "desc_bytes (Table_desc e i m f) = 1 # e # limits_bytes i m f"
| "desc_bytes (Memory_desc i m f) = 2 # limits_bytes i m f"
| "desc_bytes (Global_desc t k) = [3, t, k]"
| "desc_bytes (Tag_desc a t) = 4 # leb128 a @ leb128 t"

type_synonym wasm_import = "string \<times> string \<times> wasm_desc"

fun import_ok :: "wasm_import \<Rightarrow> bool" where
  "import_ok (m, n, d) \<longleftrightarrow> wasm_name m \<and> wasm_name n \<and> desc_ok d"

fun import_bytes :: "wasm_import \<Rightarrow> byte list" where
  "import_bytes (m, n, d) = name_bytes m @ name_bytes n @ desc_bytes d"

fun memory_of :: "wasm_import \<Rightarrow> memory_import list" where
  "memory_of (m, n, Memory_desc i mx f) =
     [\<lparr>mi_module = m, mi_name = n, mi_initial = int i, mi_maximum = map_option int mx,
       mi_shared = odd (f div 2)\<rparr>]"
| "memory_of _ = []"

lemma skip_desc:
  assumes "desc_ok d" "\<And>i m f. d \<noteq> Memory_desc i m f" "data = pre @ desc_bytes d @ post"
    and "int (length (pre @ desc_bytes d)) \<le> en" "en \<le> int (length data)"
  shows "skipWasmImportDescriptor data (int (length pre) + 1) en (uint (byte_at data (int (length pre)))) =
         Inr (int (length pre) + int (length (desc_bytes d)))"
proof (cases d)
  case (Func_desc t)
  have "readWasmVarUint32 data (int (length pre) + 1) en =
      Inr (int (length pre) + 1 + int (length (leb128 t)), int t)"
    using assms Func_desc by (intro leb.dec_at [where pre = "pre @ [0]"]) simp_all
  with assms Func_desc show ?thesis by (simp add: skipWasmImportDescriptor_def wasm_constants)
next
  case (Table_desc e i m f)
  have "readWasmLimits data (int (length pre) + 1 + 1) en =
      Inr (int (length pre) + 1 + 1 + int (length (case (i, m, f) of (i, m, f) \<Rightarrow> limits_bytes i m f)),
           case (i, m, f) of (i, m, f) \<Rightarrow> limits_view i m f)"
    using assms Table_desc by (intro limits.dec_at [where pre = "pre @ [1, e]"]) simp_all
  with assms Table_desc show ?thesis
    by (simp add: skipWasmImportDescriptor_def wasm_constants requireWasmRange_def)
next
  case (Global_desc t k)
  with assms show ?thesis
    by (simp add: skipWasmImportDescriptor_def wasm_constants requireWasmRange_def)
next
  case (Tag_desc a t)
  have "readWasmVarUint32 data (int (length pre) + 1) en =
      Inr (int (length pre) + 1 + int (length (leb128 a)), int a)"
    using assms Tag_desc by (intro leb.dec_at [where pre = "pre @ [4]"]) simp_all
  moreover have "readWasmVarUint32 data (int (length pre) + 1 + int (length (leb128 a))) en =
      Inr (int (length pre) + 1 + int (length (leb128 a)) + int (length (leb128 t)), int t)"
    using assms Tag_desc by (intro leb.dec_at [where pre = "pre @ 4 # leb128 a"]) simp_all
  ultimately show ?thesis
    using assms Tag_desc by (simp add: skipWasmImportDescriptor_def wasm_constants)
qed (use assms in simp)

lemma memory_desc:
  assumes "desc_ok (Memory_desc i m f)" "data = pre @ desc_bytes (Memory_desc i m f) @ post"
    and "int (length (pre @ desc_bytes (Memory_desc i m f))) \<le> en" "en \<le> int (length data)"
  shows "readWasmMemoryType data (int (length pre) + 1) en =
         Inr (int (length pre) + int (length (desc_bytes (Memory_desc i m f))), limits_view i m f)"
proof -
  have "readWasmLimits data (int (length pre) + 1) en =
      Inr (int (length pre) + 1 + int (length (case (i, m, f) of (i, m, f) \<Rightarrow> limits_bytes i m f)),
           case (i, m, f) of (i, m, f) \<Rightarrow> limits_view i m f)"
    using assms by (intro limits.dec_at [where pre = "pre @ [2]"]) simp_all
  with assms show ?thesis
    by (simp add: readWasmMemoryType_def limits_view_def limits_ok_def)
qed

lemma desc_kind:
  "byte_at (pre @ desc_bytes d @ post) (int (length pre)) = byte_of_kind \<Longrightarrow>
   uint byte_of_kind = WASM_IMPORT_KIND_MEMORY \<longleftrightarrow> (\<exists>i m f. d = Memory_desc i m f)"
  by (cases d) (auto simp: wasm_constants)

interpretation entry: list_codec import_entry import_bytes import_ok memory_of
proof unfold_locales
  fix x and pre post :: "byte list" and en :: int
  assume ok: "import_ok x" and en: "int (length pre + length (import_bytes x)) \<le> en"
    "en \<le> int (length (pre @ import_bytes x @ post))"
  obtain m n d where x: "x = (m, n, d)" by (cases x)
  let ?data = "pre @ import_bytes x @ post"
  define c where "c = int (length (pre @ name_bytes m @ name_bytes n))"
  have 1: "readWasmName ?data (int (length pre)) en =
      Inr (int (length pre) + int (length (name_bytes m)), m)"
    using ok en x by (intro name.dec_at [where post = "name_bytes n @ desc_bytes d @ post"]) simp_all
  have 2: "readWasmName ?data (int (length pre) + int (length (name_bytes m))) en = Inr (c, n)"
    using ok en x name.dec_at [where pre = "pre @ name_bytes m" and post = "desc_bytes d @ post"
        and x = n and data = ?data and en = en]
    by (simp add: c_def)
  have data: "?data = (pre @ name_bytes m @ name_bytes n) @ desc_bytes d @ post"
    and dlen: "int (length ((pre @ name_bytes m @ name_bytes n) @ desc_bytes d)) \<le> en"
    using x en by simp_all
  have room: "requireWasmRange ?data c 1 en r = r" for r :: "wasm_error + 'z"
    using x en by (cases d) (simp_all add: requireWasmRange_def c_def)
  have kind: "uint (byte_at ?data c) = WASM_IMPORT_KIND_MEMORY \<longleftrightarrow> (\<exists>i m f. d = Memory_desc i m f)"
    unfolding data c_def by (rule desc_kind [OF refl])
  show "import_entry ?data (int (length pre)) en =
      Inr (int (length pre + length (import_bytes x)), memory_of x)"
  proof (cases "\<exists>i m f. d = Memory_desc i m f")
    case True
    then obtain i mx f where d: "d = Memory_desc i mx f" by blast
    have "readWasmMemoryType ?data (c + 1) en =
        Inr (c + int (length (desc_bytes d)), limits_view i mx f)"
      using ok dlen en unfolding data c_def x d by (intro memory_desc [where post = post]) simp_all
    moreover have "uint (byte_at ?data c) = WASM_IMPORT_KIND_MEMORY" using kind True by simp
    ultimately have "import_entry ?data (int (length pre)) en =
        Inr (c + int (length (desc_bytes d)), memory_of (m, n, d))"
      using 1 2 by (simp add: import_entry_def room limits_view_def d)
    then show ?thesis by (simp add: x c_def)
  next
    case False
    then have "skipWasmImportDescriptor ?data (c + 1) en (uint (byte_at ?data c)) =
        Inr (c + int (length (desc_bytes d)))"
      using ok dlen en x unfolding data c_def by (intro skip_desc [where post = post]) auto
    moreover have "memory_of (m, n, d) = []" using False by (cases d) simp_all
    ultimately have "import_entry ?data (int (length pre)) en =
        Inr (c + int (length (desc_bytes d)), memory_of (m, n, d))"
      using 1 2 kind False by (simp add: import_entry_def room)
    then show ?thesis by (simp add: x c_def)
  qed
qed

section \<open>Encoded modules\<close>

datatype wasm_section = Import_section "wasm_import list" | Other_section byte "byte list"

fun section_payload :: "wasm_section \<Rightarrow> byte list" where
  "section_payload (Import_section is) = leb128 (length is) @ concat (map import_bytes is)"
| "section_payload (Other_section i bs) = bs"

fun section_id :: "wasm_section \<Rightarrow> byte" where
  "section_id (Import_section is) = 2"
| "section_id (Other_section i bs) = i"

fun section_ok :: "wasm_section \<Rightarrow> bool" where
  "section_ok (Import_section is) \<longleftrightarrow>
     list_all import_ok is \<and> u32 (length is) \<and> u32 (length (section_payload (Import_section is)))"
| "section_ok (Other_section i bs) \<longleftrightarrow> i \<noteq> 2 \<and> u32 (length bs)"

fun section_memories :: "wasm_section \<Rightarrow> memory_import list" where
  "section_memories (Import_section is) = concat (map memory_of is)"
| "section_memories (Other_section i bs) = []"

definition section_bytes :: "wasm_section \<Rightarrow> byte list" where
  "section_bytes x = section_id x # leb128 (length (section_payload x)) @ section_payload x"

definition module_bytes :: "byte list \<Rightarrow> wasm_section list \<Rightarrow> byte list" where
  "module_bytes version ss = WASM_MAGIC @ version @ concat (map section_bytes ss)"

lemma parse_import_section:
  assumes "section_ok (Import_section is)" "data = pre @ section_payload (Import_section is) @ post"
    and "c = int (length pre)" "en = c + int (length (section_payload (Import_section is)))"
  shows "parseWasmImportSection data c en = Inr (concat (map memory_of is))"
proof -
  have "readWasmVarUint32 data c (int (length data)) =
      Inr (c + int (length (leb128 (length is))), int (length is))"
    using assms by (intro leb.dec_at [where post = "concat (map import_bytes is) @ post"]) simp_all
  moreover have "read_many import_entry data en (length is) (c + int (length (leb128 (length is)))) =
      Inr (c + int (length (leb128 (length is))) + int (length (concat (map import_bytes is))),
           concat (map memory_of is))"
    using assms by (intro entry.read_many_enc [where pre = "pre @ leb128 (length is)" and post = post]) simp_all
  ultimately show ?thesis by (simp add: parseWasmImportSection_def)
qed

lemma uint_is_import [simp]: "uint (b :: byte) = 2 \<longleftrightarrow> b = 2"
  by (simp add: word_uint_eq_iff)

lemma read_section_encoded:
  assumes "section_ok x" "data = pre @ section_bytes x @ post"
  shows "read_section data (int (length pre)) =
         Inr (int (length pre) + int (length (section_bytes x)), section_memories x)"
proof -
  let ?len = "leb128 (length (section_payload x))"
  have short: "u32 (length (section_payload x))" using assms(1) by (cases x) simp_all
  have 1: "readWasmVarUint32 data (int (length pre) + 1) (int (length data)) =
      Inr (int (length pre) + 1 + int (length ?len), int (length (section_payload x)))"
    using assms short
    by (intro leb.dec_at [where pre = "pre @ [section_id x]" and post = "section_payload x @ post"])
      (simp_all add: section_bytes_def)
  have 2: "byte_at data (int (length pre)) = section_id x"
    using assms(2) by (simp add: section_bytes_def)
  have 3: "parseWasmImportSection data (int (length pre) + 1 + int (length ?len))
      (int (length pre) + 1 + int (length ?len) + int (length (section_payload x))) = Inr (concat (map memory_of is))"
    if "x = Import_section is" for "is"
    using assms that
    by (intro parse_import_section [where pre = "pre @ section_id x # ?len" and post = post])
      (simp_all add: section_bytes_def)
  show ?thesis
    using 1 2 3 assms
    by (cases x) (auto simp: read_section_def section_bytes_def requireWasmRange_def wasm_constants)
qed

lemma sections_encoded:
  assumes "list_all section_ok ss" "data = pre @ concat (map section_bytes ss)"
  shows "sections_from data (int (length pre)) = Inr (concat (map section_memories ss))"
  using assms
proof (induction ss arbitrary: pre)
  case Nil
  then show ?case by (subst sections_from.simps) simp
next
  case (Cons x ss)
  have "read_section data (int (length pre)) =
      Inr (int (length pre) + int (length (section_bytes x)), section_memories x)"
    using Cons.prems by (intro read_section_encoded [where post = "concat (map section_bytes ss)"]) simp_all
  moreover have "sections_from data (int (length (pre @ section_bytes x))) =
      Inr (concat (map section_memories ss))"
    using Cons.prems by (intro Cons.IH) simp_all
  moreover have "int (length pre) < int (length data)"
    using Cons.prems by (simp add: section_bytes_def)
  ultimately show ?case by (subst sections_from.simps) simp
qed

text \<open>
  C15: the host finds in an encoded module exactly the memories it imports, in their order, with
  their limits and whether they are shared: all other imports (functions, tables, globals, tags) and
  all other sections are skipped, whatever they hold.
\<close>

theorem memory_imports_found:
  assumes "list_all section_ok ss" "length version = 4"
  shows "importedMemoryImports (module_bytes version ss) = Inr (concat (map section_memories ss))"
  using assms sections_encoded [of ss "module_bytes version ss" "WASM_MAGIC @ version"]
  by (simp add: importedMemoryImports_def validateWasmMagic_def startsWithBytes_def module_bytes_def
      WASM_MAGIC_def nth_append list_all_iff)

definition example_sections :: "wasm_section list" where
  "example_sections =
     [Other_section 1 [1, 0x60, 0, 0],
      Import_section
        [(''env'', ''memory'', Memory_desc 17 (Some 16384) 3), (''w'', ''fd_write'', Func_desc 5),
         (''env'', ''t'', Table_desc 0x70 1 None 0)],
      Other_section 3 [1, 0]]"

theorem memory_imports_found_witness:
  "importedMemoryImports (module_bytes [1, 0, 0, 0] example_sections) = Inr
     [\<lparr>mi_module = ''env'', mi_name = ''memory'', mi_initial = 17, mi_maximum = Some 16384, mi_shared = True\<rparr>]"
proof -
  have "wasm_name n" if "ascii n" "length n < 10" for n
    using that by (simp add: wasm_name_def decodeText_ascii)
  then have "list_all section_ok example_sections"
    by (simp add: example_sections_def limits_ok_def name_bytes_def limits_bytes_def leb128.simps ascii_def)
  from memory_imports_found [OF this, of "[1, 0, 0, 0]"] show ?thesis
    by (simp add: example_sections_def)
qed

text \<open>More than four bytes: the bits of a fifth byte beyond the 32nd are dropped, not refused.\<close>

lemma long_varuint32:
  "readWasmVarUint32 [0x82, 0x80, 0x80, 0x80, 0x70] 0 5 = Inr (5, 2)"
  "readWasmVarUint32 [0x82, 0x80, 0x80, 0x80, 0x80, 0x00] 0 6 = Inl Bad_varuint32"
  "readWasmVarUint32 [0x82, 0x80] 0 2 = Inl Bad_varuint32"
  by code_simp+

lemma varuint32_from_range:
  "varuint32_from data en c s r = Inr (c', v) \<Longrightarrow> c' \<le> en \<and> 0 \<le> v \<and> v < 4294967296"
proof (induction data en c s r rule: varuint32_from.induct)
  case (1 data en c s r)
  define b where "b = byte_at data c"
  define w where "w = r OR push_bit s (ucast (b AND 0x7f))"
  have "0 \<le> uint w \<and> uint w < 4294967296" using uint_lt2p [of w] by simp
  with "1.prems" "1.IH" [OF _ b_def w_def] show ?case
    by (subst (asm) varuint32_from.simps)
      (simp only: Let_def b_def [symmetric] w_def [symmetric], auto split: if_splits)
qed

lemma readWasmVarUint32_range:
  "readWasmVarUint32 data c en = Inr (c', v) \<Longrightarrow> c < c' \<and> c' \<le> en \<and> 0 \<le> v \<and> v < 4294967296"
  by (metis readWasmVarUint32_moves readWasmVarUint32_def varuint32_from_range)

section \<open>The memory of a run\<close>

text \<open>
  \<open>createImportedMemory\<close>: what is passed to \<open>new WebAssembly.Memory\<close>, which the engine may refuse
  (\<open>create\<close> is the constructor). Without an import, the module has to export its memory.
\<close>

record memory_descriptor =
  md_initial :: int
  md_maximum :: "int option"
  md_shared :: bool

datatype memory_error = Import_error wasm_error | Unsupported_memory string string | No_maximum | Not_created | No_export

definition createImportedMemory :: "(memory_descriptor \<Rightarrow> 'm option) \<Rightarrow> byte list \<Rightarrow>
    memory_error + (memory_import \<times> 'm) option" where
  "createImportedMemory create bytes =
     (case importedMemoryImport bytes of
        Inl e \<Rightarrow> Inl (Import_error e)
      | Inr None \<Rightarrow> Inr None
      | Inr (Some mi) \<Rightarrow>
          checkR (mi_module mi = ''env'' \<and> mi_name mi = ''memory'') (Unsupported_memory (mi_module mi) (mi_name mi))
            (checkR (\<not> (mi_shared mi \<and> mi_maximum mi = None)) No_maximum
              (case create \<lparr>md_initial = mi_initial mi, md_maximum = mi_maximum mi, md_shared = mi_shared mi\<rparr> of
                 None \<Rightarrow> Inl Not_created | Some m \<Rightarrow> Inr (Some (mi, m)))))"

text \<open>\<open>importObject[module] ??= {}; importObject[module][name] = memory\<close>.\<close>

definition attachImportedMemory ::
    "(string \<times> (string \<times> 'v) list) list \<Rightarrow> memory_import \<Rightarrow> 'v \<Rightarrow> (string \<times> (string \<times> 'v) list) list" where
  "attachImportedMemory imports mi v =
     (let ns = (case map_of imports (mi_module mi) of Some ns \<Rightarrow> ns | None \<Rightarrow> []) in
      AList.update (mi_module mi) (AList.update (mi_name mi) v ns) imports)"

text \<open>
  \<open>copyMemorySnapshotTo\<close>: the memory grows to the pages of the snapshot (\<open>grow\<close> is
  \<open>WebAssembly.Memory.grow\<close>, which adds zero pages or throws), then its bytes are the snapshot's.
\<close>

datatype snapshot_error = Could_not_grow | Exceeds_memory

definition page_size :: nat where "page_size = 65536"

definition copyMemorySnapshotTo :: "(byte list \<Rightarrow> nat \<Rightarrow> byte list option) \<Rightarrow> byte list \<Rightarrow> byte list \<Rightarrow>
    snapshot_error + byte list" where
  "copyMemorySnapshotTo grow buffer source =
     (let required = (length source + (page_size - 1)) div page_size; current = length buffer div page_size in
      bindR (if current < required
             then (case grow buffer (required - current) of None \<Rightarrow> Inl Could_not_grow | Some b \<Rightarrow> Inr b)
             else Inr buffer) (\<lambda>target.
      checkR (\<not> length target < length source) Exceeds_memory
        (Inr (source @ drop (length source) target))))"

text \<open>A memory is created only for an import of \<open>env.memory\<close>, with the limits of the module.\<close>

lemma createImportedMemory_Some:
  assumes "createImportedMemory create bytes = Inr (Some (mi, m))"
  shows "importedMemoryImports bytes = Inr [mi]" "mi_module mi = ''env''" "mi_name mi = ''memory''"
    "mi_shared mi \<longrightarrow> mi_maximum mi \<noteq> None"
    "create \<lparr>md_initial = mi_initial mi, md_maximum = mi_maximum mi, md_shared = mi_shared mi\<rparr> = Some m"
  using assms
  by (auto simp: createImportedMemory_def importedMemoryImport_def checkR_Inr bindR_Inr
      split: sum.splits option.splits list.splits)

lemma copied_snapshot:
  assumes "copyMemorySnapshotTo grow buffer source = Inr target"
  shows "take (length source) target = source"
  using assms by (auto simp: copyMemorySnapshotTo_def bindR_Inr checkR_Inr Let_def)

lemma attached_memory_found:
  "map_of (attachImportedMemory imports mi v) (mi_module mi) = Some ns \<Longrightarrow> map_of ns (mi_name mi) = Some v"
  by (auto simp: attachImportedMemory_def Let_def)

end
