(* ===== verification/Webc_Wasix.thy ===== *)
theory Webc_Wasix imports Package_Loader Wasm_Imports Workspace_Mount begin

text \<open>
  \<open>apps/web/src/webc-wasix.js\<close>, which runs a command of a loaded WebC package: it takes the module of
  the command's atom from the cache, lays the files of the mounted volumes and a shim for each
  command of the catalogue under the package root, and gives all of it to the raw WASI executor as
  a package of its own (\<open>loadRawWasiModulePackage\<close> of \<open>wasi-module.js\<close>, the second part of this
  theory). Proved: each file of a mounted volume reaches the package root as the slice of the
  package it was, under a canonical path below the mount path of its mapping.
\<close>

datatype raw_error = Raw_invalid string | Raw_magic wasm_error

datatype wasix_error =
    Command_not_found | Runner_unsupported | Atom_metadata_missing | Atom_artifact_missing
  | Atom_cache_missing | Package_bytes_missing | Span_invalid | Raw_error raw_error | Aborted_command

section \<open>Paths\<close>

definition trimSlashes :: "string \<Rightarrow> string" where
  "trimSlashes value =
     rev (dropWhile (\<lambda>c. c = CHR ''/'') (rev (dropWhile (\<lambda>c. c = CHR ''/'') value)))"

definition stripPathPrefix :: "string \<Rightarrow> string \<Rightarrow> string" where
  "stripPathPrefix path pre =
     (if pre = [] then path
      else if path = pre then []
      else if prefix (pre @ ''/'') path then drop (length pre + 1) path else path)"

fun join_segments :: "string list \<Rightarrow> string list option" where
  "join_segments [] = Some []"
| "join_segments (s # ss) =
     (if s = [] \<or> s = ''.'' then join_segments ss
      else if s = ''..'' \<or> CHR 0x00 \<in> set s then None
      else map_option ((#) s) (join_segments ss))"

definition joinPackageRootPath :: "string \<Rightarrow> string \<Rightarrow> string option" where
  "joinPackageRootPath mountPath path =
     (let joined = js_join ''/'' (filter (\<lambda>s. s \<noteq> []) [mountPath, path]) in
      map_option (js_join ''/'') (join_segments (js_split (CHR ''/'') joined)))"

definition mountedPackageRootPath :: "string \<Rightarrow> fs_mapping \<Rightarrow> string \<Rightarrow> wasix_error + string" where
  "mountedPackageRootPath filePath mapping volumeName =
     (let path = trimSlashes filePath;
          path = stripPathPrefix path (trimSlashes volumeName);
          path = stripPathPrefix path (trimSlashes (case fm_hostPath mapping of Some h \<Rightarrow> h | None \<Rightarrow> [])) in
      case joinPackageRootPath (trimSlashes (fm_mountPath mapping)) path of
        Some p \<Rightarrow> if p \<noteq> [] then Inr p else Inl Span_invalid
      | None \<Rightarrow> Inl Span_invalid)"

definition bytesFromSpan :: "byte list \<Rightarrow> span \<Rightarrow> wasix_error + byte list" where
  "bytesFromSpan packageBytes sp =
     (let offset = sp_offset sp; len = sp_length sp; en = offset + len in
      if \<bar>offset\<bar> > max_safe_integer \<or> \<bar>len\<bar> > max_safe_integer \<or> offset < 0 \<or> len < 0 \<or> en > int (length packageBytes)
      then Inl Span_invalid
      else Inr (js_slice packageBytes offset en))"

section \<open>Root files\<close>

definition COMMAND_SHIM_BYTES :: "byte list" where
  "COMMAND_SHIM_BYTES = encodeText (''# wasm-host packaged command'' @ [CHR 0x0A])"

text \<open>A mount whose volume name is one that every object inherits finds a function: it has no files.\<close>

definition volume_at :: "artifact_summary \<Rightarrow> string \<Rightarrow> volume_summary option option" where
  "volume_at s n =
     (case map_of (fst (as_volumes s)) n of
        Some v \<Rightarrow> Some (Some v)
      | None \<Rightarrow> if n \<in> set object_prototype_names then Some None else None)"

definition webcVolumeMounts :: "package_metadata \<Rightarrow> (fs_mapping \<times> volume_summary option) list" where
  "webcVolumeMounts m =
     concat (map (\<lambda>mapping.
       if fm_from mapping \<noteq> None then []
       else (case pm_webcArtifacts m of
               None \<Rightarrow> []
             | Some s \<Rightarrow> (case volume_at s (fm_volumeName mapping) of Some v \<Rightarrow> [(mapping, v)] | None \<Rightarrow> [])))
       (case pm_filesystem m of Some ms \<Rightarrow> ms | None \<Rightarrow> []))"

definition root_file :: "byte list \<Rightarrow> fs_mapping \<Rightarrow> volume_summary \<Rightarrow> artifact \<Rightarrow> wasix_error + package_file" where
  "root_file packageBytes mapping v f =
     bindR (bytesFromSpan packageBytes (ar_span f)) (\<lambda>bytes.
     bindR (mountedPackageRootPath (ar_name f) mapping (vs_name v)) (\<lambda>path.
     Inr \<lparr>pf_bytes = bytes, pf_path = path\<rparr>))"

definition mount_root_files :: "byte list \<Rightarrow> fs_mapping \<times> volume_summary option \<Rightarrow> wasix_error + package_file list" where
  "mount_root_files packageBytes m =
     (case snd m of
        None \<Rightarrow> Inr []
      | Some v \<Rightarrow> mapR (\<lambda>e. root_file packageBytes (fst m) v (snd e)) (table_entries (vs_files v)))"

definition readPackageBytes :: "byte list option \<Rightarrow> package_cache \<Rightarrow> cache_keys \<Rightarrow> wasix_error + byte list" where
  "readPackageBytes bytes cache keys =
     (case or_else bytes (getPackageBytes cache (ck_packageBytes keys)) of
        Some bs \<Rightarrow> Inr bs | None \<Rightarrow> Inl Package_bytes_missing)"

definition readWebcRootFiles :: "byte list option \<Rightarrow> package_cache \<Rightarrow> cache_keys \<Rightarrow> package_metadata \<Rightarrow>
    wasix_error + package_file list" where
  "readWebcRootFiles bytes cache keys m =
     (let mounts = webcVolumeMounts m in
      if mounts = [] then Inr []
      else bindR (readPackageBytes bytes cache keys) (\<lambda>packageBytes.
           bindR (mapR (mount_root_files packageBytes) mounts) (\<lambda>files. Inr (concat files))))"

definition catalogCommandRootPath :: "string option \<Rightarrow> string option" where
  "catalogCommandRootPath pathValue =
     (case pathValue of
        Some p \<Rightarrow> if prefix ''/'' p then joinPackageRootPath [] (trimSlashes p) else None
      | None \<Rightarrow> None)"

fun catalog_files :: "string option list \<Rightarrow> string list \<Rightarrow> package_file list" where
  "catalog_files [] seen = []"
| "catalog_files (entry # entries) seen =
     (case catalogCommandRootPath entry of
        Some path \<Rightarrow>
          if path = [] \<or> path \<in> set seen then catalog_files entries seen
          else \<lparr>pf_bytes = COMMAND_SHIM_BYTES, pf_path = path\<rparr> # catalog_files entries (path # seen)
      | None \<Rightarrow> catalog_files entries seen)"

definition catalogCommandRootFiles :: "string option list \<Rightarrow> package_file list" where
  "catalogCommandRootFiles catalog = catalog_files catalog []"

fun merge_fallback :: "package_file list \<Rightarrow> string list \<Rightarrow> package_file list" where
  "merge_fallback [] paths = []"
| "merge_fallback (f # fs) paths =
     (if pf_path f \<in> set paths then merge_fallback fs paths
      else f # merge_fallback fs (pf_path f # paths))"

definition mergeRootFiles :: "package_file list \<Rightarrow> package_file list \<Rightarrow> package_file list" where
  "mergeRootFiles primaryFiles fallbackFiles =
     primaryFiles @ merge_fallback fallbackFiles (map pf_path primaryFiles)"

section \<open>Arguments and environment\<close>

definition commandBasename :: "string \<Rightarrow> string" where
  "commandBasename value =
     (let text = js_trim value; parts = filter (\<lambda>p. p \<noteq> []) (js_split (CHR ''/'') text) in
      if parts \<noteq> [] then last parts else text)"

definition stripWasixExecArgv0 :: "string list \<Rightarrow> string \<Rightarrow> string \<Rightarrow> string list" where
  "stripWasixExecArgv0 args commandName execName =
     (case args of
        a # rest \<Rightarrow>
          if commandBasename a = commandBasename commandName \<or> commandBasename a = commandBasename execName
          then rest else args
      | [] \<Rightarrow> [])"

text \<open>\<open>env[key] = value\<close> with text as value: the key \<open>__proto__\<close> is ignored.\<close>

definition env_set :: "string \<Rightarrow> string \<Rightarrow> (string \<times> string) list \<Rightarrow> (string \<times> string) list" where
  "env_set k v env = (if k = proto_key then env else AList.update k v env)"

definition metadata_env :: "string \<Rightarrow> (string \<times> string) list \<Rightarrow> (string \<times> string) list" where
  "metadata_env entry env =
     (if CHR ''='' \<notin> set entry then env_set entry [] env
      else env_set (takeWhile (\<lambda>c. c \<noteq> CHR ''='') entry) (drop 1 (dropWhile (\<lambda>c. c \<noteq> CHR ''='') entry)) env)"

definition mergeWebcEnv :: "string list \<Rightarrow> (string \<times> string) list \<Rightarrow> (string \<times> string) list" where
  "mergeWebcEnv metadataEnv requestEnv =
     fold (\<lambda>(k, v). env_set k v)
       (map (\<lambda>k. (k, the (map_of requestEnv k))) (own_keys requestEnv)) (fold metadata_env metadataEnv [])"

section \<open>The package of the raw executor\<close>

definition raw_string :: "string \<Rightarrow> raw_error + string" where
  "raw_string value =
     (let text = js_trim value in
      checkR (text \<noteq> []) (Raw_invalid ''raw WASI module fields are required'') (Inr text))"

definition raw_sha256 :: "string \<Rightarrow> raw_error + string" where
  "raw_sha256 value =
     (let text = map lower_char value in
      checkR (length text = 64 \<and> list_all hex_char text)
        (Raw_invalid ''raw WASI module sha256 must be a 64-character hex digest'') (Inr text))"

definition raw_verify_sha256 :: "string option \<Rightarrow> string \<Rightarrow> raw_error + unit" where
  "raw_verify_sha256 expected actual =
     (case expected of
        None \<Rightarrow> Inr ()
      | Some e \<Rightarrow> bindR (raw_sha256 e) (\<lambda>n.
          checkR (n = actual) (Raw_invalid (''raw WASI module sha256 mismatch: expected '' @ n @ '', got '' @ actual))
            (Inr ())))"

definition raw_command_name :: "string \<Rightarrow> raw_error + string" where
  "raw_command_name value =
     bindR (raw_string value) (\<lambda>command.
     checkR (CHR 0x00 \<notin> set command \<and> CHR ''/'' \<notin> set command)
       (Raw_invalid ''raw WASI module command names must not contain NUL or /'') (Inr command))"

record raw_input =
  ri_bytes :: "byte list"
  ri_commands :: "string list option"
  ri_command :: "string option"
  ri_defaultCommand :: "string option"
  ri_entrypoint :: "string option"
  ri_id :: "string option"
  ri_expectedSha256 :: "string option"
  ri_files :: "package_file list"
  ri_rootFiles :: "package_file list"

record raw_package =
  rp_bytes :: "byte list"
  rp_commands :: "string list"
  rp_defaultCommand :: string
  rp_entrypoint :: string
  rp_files :: "package_file list"
  rp_id :: string
  rp_rootFiles :: "package_file list"
  rp_sha256 :: string

definition raw_commands :: "raw_input \<Rightarrow> raw_error + string list" where
  "raw_commands input =
     (case or_else (ri_commands input)
              (case ri_command input of Some c \<Rightarrow> if c \<noteq> [] then Some [c] else None | None \<Rightarrow> None) of
        Some (c # cs) \<Rightarrow> mapR raw_command_name (c # cs)
      | _ \<Rightarrow> Inl (Raw_invalid ''raw WASI module commands must be a non-empty array''))"

definition raw_default_command :: "raw_input \<Rightarrow> string list \<Rightarrow> raw_error + string" where
  "raw_default_command input commands =
     bindR (raw_string (case ri_defaultCommand input of Some c \<Rightarrow> c | None \<Rightarrow> hd commands)) (\<lambda>normalized.
     checkR (normalized \<in> set commands)
       (Raw_invalid ''raw WASI module default command must be listed in commands'') (Inr normalized))"

definition wasi_file :: "package_file \<Rightarrow> raw_error + package_file" where
  "wasi_file entry =
     (case normalizePackageFilePath (pf_path entry) of
        Some path \<Rightarrow>
          if path \<noteq> [] then Inr \<lparr>pf_bytes = pf_bytes entry, pf_path = path\<rparr>
          else Inl (Raw_invalid ''raw WASI module file paths must be relative to /workspace'')
      | None \<Rightarrow> Inl (Raw_invalid ''raw WASI module file paths must be relative to /workspace''))"

definition normalizeWasiFiles :: "package_file list \<Rightarrow> raw_error + package_file list" where
  "normalizeWasiFiles entries = mapR wasi_file entries"

definition loadRawWasiModulePackage :: "(byte list \<Rightarrow> string) \<Rightarrow> raw_input \<Rightarrow> raw_error + raw_package" where
  "loadRawWasiModulePackage digest input =
     (let bytes = ri_bytes input; sha256 = digest bytes in
      checkR (startsWithBytes bytes WASM_MAGIC) (Raw_magic Bad_magic)
        (bindR (raw_verify_sha256 (ri_expectedSha256 input) sha256) (\<lambda>_.
         bindR (raw_commands input) (\<lambda>commands.
         bindR (raw_default_command input commands) (\<lambda>defaultCommand.
         bindR (raw_string (case ri_entrypoint input of Some e \<Rightarrow> e | None \<Rightarrow> ''_start'')) (\<lambda>entrypoint.
         bindR (raw_string (case ri_id input of Some i \<Rightarrow> i | None \<Rightarrow> ''default'')) (\<lambda>i.
         bindR (normalizeWasiFiles (ri_files input)) (\<lambda>files.
         bindR (normalizeWasiFiles (ri_rootFiles input)) (\<lambda>rootFiles.
         Inr \<lparr>rp_bytes = bytes, rp_commands = commands, rp_defaultCommand = defaultCommand,
              rp_entrypoint = entrypoint, rp_files = files, rp_id = i, rp_rootFiles = rootFiles,
              rp_sha256 = sha256\<rparr>)))))))))"

section \<open>Running a command\<close>

record webc_request =
  wq_packageId :: string
  wq_commands :: "string list"
  wq_bytes :: "byte list option"
  wq_cacheKeys :: cache_keys
  wq_metadata :: package_metadata
  wq_command :: string
  wq_args :: "string list"
  wq_cwd :: "string option"
  wq_env :: "(string \<times> string) list"
  wq_catalog :: "string option list"
  wq_execArgv0 :: bool
  wq_aborted :: bool

record raw_run =
  rr_args :: "string list"
  rr_command :: string
  rr_cwd :: "string option"
  rr_env :: "(string \<times> string) list"
  rr_package :: raw_package

definition isWasiRunner :: "string option \<Rightarrow> bool" where
  "isWasiRunner runner \<longleftrightarrow> (case runner of None \<Rightarrow> True | Some v \<Rightarrow> v = ''wasi'' \<or> suffix ''/wasi'' v)"

text \<open>
  The metadata of a command is an object. Under \<open>__proto__\<close> it is the prototype, if one was set;
  the one every object has declares no atom, with the same error. The object that such a prototype has under
  the name \<open>annotations\<close>, which a command of that name would find, is not modelled.
\<close>

definition webcCommandMetadata :: "webc_request \<Rightarrow> wasix_error + command_metadata" where
  "webcCommandMetadata q =
     (case (case pm_commandMetadata (wq_metadata q) of
              Some t \<Rightarrow> table_get t (wq_command q) | None \<Rightarrow> None) of
        Some c \<Rightarrow> Inr c | None \<Rightarrow> Inl Atom_metadata_missing)"

text \<open>The artifact of an atom needs a cache key, which is not the empty text.\<close>

definition webcAtomArtifact :: "webc_request \<Rightarrow> string \<Rightarrow> wasix_error + string" where
  "webcAtomArtifact q name =
     (case (case pm_webcArtifacts (wq_metadata q) of Some s \<Rightarrow> table_get (as_atoms s) name | None \<Rightarrow> None) of
        Some atom \<Rightarrow> (case ar_cacheKey atom of
            Some key \<Rightarrow> if key \<noteq> [] then Inr key else Inl Atom_artifact_missing
          | None \<Rightarrow> Inl Atom_artifact_missing)
      | None \<Rightarrow> Inl Atom_artifact_missing)"

definition readAtomBytes :: "package_cache \<Rightarrow> string \<Rightarrow> wasix_error + byte list" where
  "readAtomBytes cache key =
     (case getModuleArtifact cache key of Some bs \<Rightarrow> Inr bs | None \<Rightarrow> Inl Atom_cache_missing)"

definition raw_errors :: "raw_error + 'a \<Rightarrow> wasix_error + 'a" where
  "raw_errors m = (case m of Inl e \<Rightarrow> Inl (Raw_error e) | Inr x \<Rightarrow> Inr x)"

definition webc_run :: "(byte list \<Rightarrow> string) \<Rightarrow> package_cache \<Rightarrow> webc_request \<Rightarrow> wasix_error + raw_run" where
  "webc_run digest cache q =
     checkR (wq_command q \<in> set (wq_commands q)) Command_not_found
       (checkR (\<not> wq_aborted q) Aborted_command
         (bindR (webcCommandMetadata q) (\<lambda>command.
          checkR (isWasiRunner (cm_runner command)) Runner_unsupported
            (case cm_atom command of
               None \<Rightarrow> Inl Atom_metadata_missing
             | Some atomName \<Rightarrow>
                 bindR (webcAtomArtifact q atomName) (\<lambda>key.
                 bindR (readAtomBytes cache key) (\<lambda>atomBytes.
                 bindR (readWebcRootFiles (wq_bytes q) cache (wq_cacheKeys q) (wq_metadata q)) (\<lambda>primary.
                 let rootFiles = mergeRootFiles primary (catalogCommandRootFiles (wq_catalog q));
                     execName = (case cm_execName command of Some n \<Rightarrow> n | None \<Rightarrow> wq_command q) in
                 checkR (execName \<noteq> []) Atom_metadata_missing
                   (let args = (if wq_execArgv0 q then stripWasixExecArgv0 (wq_args q) (wq_command q) execName
                                else wq_args q) in
                    bindR (raw_errors (loadRawWasiModulePackage digest
                        \<lparr>ri_bytes = atomBytes, ri_commands = None, ri_command = Some execName,
                         ri_defaultCommand = None, ri_entrypoint = None,
                         ri_id = Some (wq_packageId q @ '':'' @ wq_command q), ri_expectedSha256 = None,
                         ri_files = [], ri_rootFiles = rootFiles\<rparr>)) (\<lambda>package.
                    Inr \<lparr>rr_args = cm_mainArgs command @ args, rr_command = execName,
                         rr_cwd = or_else (cm_cwd command) (wq_cwd q),
                         rr_env = mergeWebcEnv (cm_env command) (wq_env q), rr_package = package\<rparr>)))))))))"

section \<open>Mounted files\<close>

text \<open>The segments of a mount path that name something.\<close>

definition proper_segments :: "string \<Rightarrow> string list" where
  "proper_segments path = filter (\<lambda>s. s \<noteq> [] \<and> s \<noteq> ''.'') (js_split (CHR ''/'') path)"

lemma join_segments_Some:
  "join_segments ss = Some ps \<Longrightarrow> (\<And>s. s \<in> set ss \<Longrightarrow> CHR ''/'' \<notin> set s) \<Longrightarrow>
   ps = filter (\<lambda>s. s \<noteq> [] \<and> s \<noteq> ''.'') ss \<and> list_all seg_ok ps"
  by (induction ss arbitrary: ps) (auto simp: seg_ok_def split: if_splits)

lemma joined_segments:
  assumes "joinPackageRootPath mountPath path = Some p"
  shows "canonical p" "segs p = proper_segments mountPath @ proper_segments path"
proof -
  let ?joined = "js_join ''/'' (filter (\<lambda>s. s \<noteq> []) [mountPath, path])"
  obtain ps where ps: "join_segments (js_split (CHR ''/'') ?joined) = Some ps" "p = unsegs ps"
    using assms by (auto simp: joinPackageRootPath_def unsegs_def Let_def)
  have "ps = filter (\<lambda>s. s \<noteq> [] \<and> s \<noteq> ''.'') (js_split (CHR ''/'') ?joined) \<and> list_all seg_ok ps"
    by (rule join_segments_Some [OF ps(1)]) (erule js_split_no_sep)
  then have "ps = proper_segments ?joined" "list_all seg_ok ps" unfolding proper_segments_def by blast+
  moreover have "proper_segments ?joined = proper_segments mountPath @ proper_segments path"
    by (simp add: proper_segments_def js_split_append2)
  ultimately show "canonical p" "segs p = proper_segments mountPath @ proper_segments path"
    using ps(2) by simp_all
qed

lemma mounted_path:
  assumes "mountedPackageRootPath filePath mapping volumeName = Inr p"
  shows "canonical p" "p \<noteq> []" "prefix (proper_segments (trimSlashes (fm_mountPath mapping))) (segs p)"
  using assms joined_segments
  by (fastforce simp: mountedPackageRootPath_def Let_def split: option.splits if_splits)+

text \<open>
  C10: wherever a package file lies in its volume, whatever the names in the package are, it is mounted
  under a canonical path (no empty, \<open>.\<close> or \<open>..\<close> segment, no NUL) below the mount path of its mapping.
\<close>

theorem mounted_path_confined:
  assumes "mountedPackageRootPath filePath mapping volumeName = Inr p"
  shows "canonical p \<and> p \<noteq> [] \<and> prefix (proper_segments (trimSlashes (fm_mountPath mapping))) (segs p)"
  using mounted_path [OF assms] by blast

definition example_mapping :: fs_mapping where
  "example_mapping = \<lparr>fm_from = None, fm_hostPath = Some ''/pkg'', fm_mountPath = ''/usr//lib/'', fm_volumeName = ''bin''\<rparr>"

lemma example_mounted:
  "mountedPackageRootPath ''/bin/pkg/x/./y'' example_mapping ''bin'' = Inr ''usr/lib/x/y''"
  "mountedPackageRootPath ''/x/../../y'' example_mapping ''bin'' = Inl Span_invalid"
  by code_simp+

theorem mounted_path_confined_witness:
  "canonical ''usr/lib/x/y'' \<and> prefix [''usr'', ''lib''] (segs ''usr/lib/x/y'')"
proof -
  have "proper_segments (trimSlashes (fm_mountPath example_mapping)) = [''usr'', ''lib'']" by code_simp
  with mounted_path_confined [OF example_mounted(1)] show ?thesis by simp
qed

text \<open>Two files of a volume may get one path: the name of the volume is stripped from either.\<close>

lemma volume_name_is_ambiguous:
  "mountedPackageRootPath ''/bin/ls'' example_mapping ''bin'' = mountedPackageRootPath ''/ls'' example_mapping ''bin''"
  by code_simp

section \<open>From the package to the run\<close>

lemma bytesFromSpan_file:
  assumes "file_in data f" "int (length data) \<le> max_safe_integer"
  shows "bytesFromSpan data (vf_span f) = Inr (vf_bytes f)"
  using assms by (auto simp: bytesFromSpan_def file_in_def Let_def)

text \<open>
  The executor reads back, from the bytes of the package and the span in the metadata, exactly
  the bytes the parser gave each file: no span of an accepted package is refused later.
\<close>

theorem spans_read_back:
  assumes "extractWebcPackageMetadata key_text data = Inr (metadata, artifacts)"
    and "f \<in> artifact_files artifacts" "int (length data) \<le> max_safe_integer"
  shows "bytesFromSpan data (vf_span f) = Inr (vf_bytes f)"
  using bytesFromSpan_file [OF artifact_files_in [OF assms(1,2)] assms(3)] .

theorem spans_read_back_witness:
  "case extractWebcPackageMetadata no_text (example_package ''ls'' ''a'') of
     Inr (m, a) \<Rightarrow> \<forall>f\<in>artifact_files a. bytesFromSpan (example_package ''ls'' ''a'') (vf_span f) = Inr (vf_bytes f)
   | Inl e \<Rightarrow> False"
proof -
  obtain m a where ex: "extractWebcPackageMetadata no_text (example_package ''ls'' ''a'') = Inr (m, a)"
    by (rule example_accepted)
  have "int (length (example_package ''ls'' ''a'')) \<le> max_safe_integer" by code_simp
  then show ?thesis using spans_read_back [OF ex] by (simp add: ex)
qed

definition slice_of :: "byte list \<Rightarrow> byte list \<Rightarrow> bool" where
  "slice_of data bs \<longleftrightarrow> (\<exists>a b. 0 \<le> a \<and> a \<le> b \<and> b \<le> int (length data) \<and> bs = js_slice data a b)"

definition root_file_ok :: "byte list \<Rightarrow> package_file \<Rightarrow> bool" where
  "root_file_ok data f \<longleftrightarrow>
     canonical (pf_path f) \<and> pf_path f \<noteq> [] \<and> (slice_of data (pf_bytes f) \<or> pf_bytes f = COMMAND_SHIM_BYTES)"

lemma bytesFromSpan_slice: "bytesFromSpan data sp = Inr bs \<Longrightarrow> slice_of data bs"
  unfolding slice_of_def bytesFromSpan_def Let_def
  by (rule exI [of _ "sp_offset sp"], rule exI [of _ "sp_offset sp + sp_length sp"]) (auto split: if_splits)

lemma root_file_slice: "root_file data mapping v e = Inr f \<Longrightarrow> root_file_ok data f"
  by (auto simp: root_file_def root_file_ok_def bindR_Inr dest: bytesFromSpan_slice mounted_path)

lemma mapR_all: "mapR f xs = Inr ys \<Longrightarrow> (\<And>x y. f x = Inr y \<Longrightarrow> P y) \<Longrightarrow> list_all P ys"
  by (induction xs arbitrary: ys) (auto simp: bindR_Inr)

lemma mount_root_files_ok: "mount_root_files data m = Inr fs \<Longrightarrow> list_all (root_file_ok data) fs"
  by (auto simp: mount_root_files_def split: option.splits intro: mapR_all root_file_slice)

lemma readWebcRootFiles_ok:
  assumes "readWebcRootFiles bytes cache keys m = Inr fs"
    and "\<And>data'. readPackageBytes bytes cache keys = Inr data' \<Longrightarrow> data' = data"
  shows "list_all (root_file_ok data) fs"
proof -
  from assms(1) consider "fs = []"
    | data' fss where "readPackageBytes bytes cache keys = Inr data'"
        "mapR (mount_root_files data') (webcVolumeMounts m) = Inr fss" "fs = concat fss"
    by (auto simp: readWebcRootFiles_def Let_def bindR_Inr split: if_splits)
  then show ?thesis
  proof cases
    case 2
    then have "list_all (list_all (root_file_ok data)) fss"
      using assms(2) by (intro mapR_all [OF 2(2)]) (auto dest: mount_root_files_ok)
    with 2 show ?thesis by (auto simp: list_all_iff)
  qed simp
qed

lemma catalog_files_ok: "list_all (root_file_ok data) (catalog_files entries seen)"
  by (induction entries arbitrary: seen)
    (auto simp: root_file_ok_def catalogCommandRootPath_def split: option.splits if_splits dest: joined_segments)

lemma merge_fallback_subset: "set (merge_fallback fs paths) \<subseteq> set fs"
  by (induction fs arbitrary: paths) auto

lemma wasi_files_ok:
  assumes "normalizeWasiFiles fs = Inr gs" "list_all (root_file_ok data) fs"
  shows "list_all (root_file_ok data) gs"
proof -
  have "list_all2 (\<lambda>f g. wasi_file f = Inr g) fs gs"
    using assms(1) by (simp add: normalizeWasiFiles_def mapR_Inr)
  then show ?thesis
    using assms(2)
    by (induction rule: list_all2_induct)
      (auto simp: wasi_file_def root_file_ok_def normalizePackageFilePath_def Let_def
        dest: normalizeRelativeWasiPath_ok split: option.splits if_splits)
qed

lemma loaded_package_bytes:
  assumes "loadBytes key_text digest limit input c = (Inr r, c')"
    and "readPackageBytes None c' (pr_cacheKeys r) = Inr data"
  shows "data = li_bytes input"
proof -
  have r: "package_record_of key_text digest limit input = Inr r"
    and c': "c' = putModuleArtifacts (pr_moduleArtifacts r) (putPackage r c)"
    using assms(1) by (auto simp: loadBytes_def split: sum.splits)
  have modules: "pc_packageBytes (fold (\<lambda>(a, bs). putModuleArtifact (g a) bs) es d) = pc_packageBytes d" for g es d
    by (induction es arbitrary: d) (auto simp: putModuleArtifact_def)
  have "pr_bytes r = li_bytes input"
    using r unfolding package_record_of_def normalizePackageMetadata_def Let_def
    by (auto simp: bindR_Inr split_beta)
  moreover have "map_of (pc_packageBytes c') (ck_packageBytes (pr_cacheKeys r)) = Some (pr_bytes r)"
    by (simp add: c' putModuleArtifacts_def modules putPackage_def split: option.split)
  ultimately show ?thesis
    using assms(2) by (auto simp: readPackageBytes_def or_else_def getPackageBytes_def split: option.splits if_splits)
qed

lemma slice_of_file: "file_in data f \<Longrightarrow> slice_of data (vf_bytes f)"
  unfolding slice_of_def file_in_def
  by (rule exI [of _ "sp_offset (vf_span f)"], rule exI [of _ "sp_offset (vf_span f) + sp_length (vf_span f)"]) auto

lemma raw_package_parts:
  "loadRawWasiModulePackage digest input = Inr p \<Longrightarrow>
   rp_bytes p = ri_bytes input \<and> normalizeWasiFiles (ri_rootFiles input) = Inr (rp_rootFiles p)"
  by (auto simp: loadRawWasiModulePackage_def Let_def bindR_Inr checkR_Inr)

lemma webc_run_parts:
  assumes "webc_run digest cache q = Inr run"
  obtains command atomName key primary where "webcCommandMetadata q = Inr command" "cm_atom command = Some atomName"
    "webcAtomArtifact q atomName = Inr key" "getModuleArtifact cache key = Some (rp_bytes (rr_package run))"
    "readWebcRootFiles (wq_bytes q) cache (wq_cacheKeys q) (wq_metadata q) = Inr primary"
    "normalizeWasiFiles (mergeRootFiles primary (catalogCommandRootFiles (wq_catalog q))) = Inr (rp_rootFiles (rr_package run))"
proof -
  from assms obtain command atomName key bytes primary package raw where
    "webcCommandMetadata q = Inr command" "cm_atom command = Some atomName" "webcAtomArtifact q atomName = Inr key"
    "readAtomBytes cache key = Inr bytes"
    "readWebcRootFiles (wq_bytes q) cache (wq_cacheKeys q) (wq_metadata q) = Inr primary"
    "raw_errors (loadRawWasiModulePackage digest raw) = Inr package" "ri_bytes raw = bytes"
    "ri_rootFiles raw = mergeRootFiles primary (catalogCommandRootFiles (wq_catalog q))" "rr_package run = package"
    unfolding webc_run_def Let_def by (auto simp: checkR_Inr bindR_Inr split: option.splits)
  then show thesis
    using that raw_package_parts [of digest raw package]
    by (auto simp: raw_errors_def readAtomBytes_def split: sum.splits option.splits)
qed

text \<open>
  C8: a command of a loaded package runs a module whose bytes are a slice of the package, with root
  files that are slices of the package or the shim, all under canonical paths.
\<close>

theorem run_made_of_package:
  assumes "loadBytes key_text digest limit input c = (Inr r, c')" "li_webcArtifacts input = None"
    and "wq_metadata q = pr_metadata r" "wq_cacheKeys q = pr_cacheKeys r" "wq_bytes q = None"
    and "webc_run digest c' q = Inr run"
  shows "slice_of (li_bytes input) (rp_bytes (rr_package run)) \<and>
    list_all (root_file_ok (li_bytes input)) (rp_rootFiles (rr_package run))"
proof -
  obtain atomName key primary where a: "webcAtomArtifact q atomName = Inr key"
      "getModuleArtifact c' key = Some (rp_bytes (rr_package run))"
    and p: "readWebcRootFiles (wq_bytes q) c' (wq_cacheKeys q) (wq_metadata q) = Inr primary"
    and f: "normalizeWasiFiles (mergeRootFiles primary (catalogCommandRootFiles (wq_catalog q))) = Inr (rp_rootFiles (rr_package run))"
    by (rule webc_run_parts [OF assms(6)]) metis
  obtain s atom where s: "pm_webcArtifacts (pr_metadata r) = Some s" "table_get (as_atoms s) atomName = Some atom"
    "ar_cacheKey atom = Some key"
    using a(1) assms(3) by (auto simp: webcAtomArtifact_def split: option.splits if_splits)
  have "slice_of (li_bytes input) (rp_bytes (rr_package run))"
    by (rule cached_atom [OF assms(1,2) s(1,2)]) (use a(2) s(3) in \<open>auto dest!: slice_of_file\<close>)
  moreover have "list_all (root_file_ok (li_bytes input)) primary"
    using p loaded_package_bytes [OF assms(1)] assms(4,5) by (auto intro: readWebcRootFiles_ok)
  then have "list_all (root_file_ok (li_bytes input)) (mergeRootFiles primary (catalogCommandRootFiles (wq_catalog q)))"
    using merge_fallback_subset [of "catalogCommandRootFiles (wq_catalog q)" "map pf_path primary"]
      catalog_files_ok [of "li_bytes input" "wq_catalog q" "[]"]
    by (auto simp: mergeRootFiles_def catalogCommandRootFiles_def list_all_iff)
  ultimately show ?thesis using wasi_files_ok [OF f] by blast
qed

definition example_request :: "package_record \<Rightarrow> webc_request" where
  "example_request r =
     \<lparr>wq_packageId = pr_id r, wq_commands = pr_commands r, wq_bytes = None, wq_cacheKeys = pr_cacheKeys r,
      wq_metadata = pr_metadata r, wq_command = ''ls'', wq_args = [''/bin/ls'', ''-l''], wq_cwd = None, wq_env = [],
      wq_catalog = [Some ''/bin/ls'', None, Some ''/bin//ls'', Some ''bin''], wq_execArgv0 = True, wq_aborted = False\<rparr>"

lemma example_run:
  "case load_example ''ls'' of
     (Inr r, c) \<Rightarrow> (case webc_run no_digest c (example_request r) of
        Inr run \<Rightarrow> rr_args run = [''-l''] \<and> map pf_path (rp_rootFiles (rr_package run)) = [''bin/ls'']
      | Inl e \<Rightarrow> False)
   | (Inl e, c) \<Rightarrow> False"
  by code_simp

theorem run_made_of_package_witness:
  "case load_example ''ls'' of
     (Inr r, c) \<Rightarrow> (case webc_run no_digest c (example_request r) of
        Inr run \<Rightarrow> slice_of (example_package ''ls'' ''a'') (rp_bytes (rr_package run))
      | Inl e \<Rightarrow> False)
   | (Inl e, c) \<Rightarrow> False"
proof -
  obtain r c run where x: "load_example ''ls'' = (Inr r, c)" "webc_run no_digest c (example_request r) = Inr run"
    using example_run by (auto split: prod.splits sum.splits)
  from run_made_of_package [OF x(1) _ _ _ _ x(2)]
  have "slice_of (example_package ''ls'' ''a'') (rp_bytes (rr_package run))"
    by (simp add: example_input_def example_request_def)
  with x show ?thesis by simp
qed

text \<open>A command whose \<open>exec_name\<close> is a path is refused by the loader of the raw executor.\<close>

lemma exec_name_path_refused:
  "CHR ''/'' \<in> set name \<Longrightarrow> js_trim name = name \<Longrightarrow>
   raw_command_name name = Inl (Raw_invalid ''raw WASI module command names must not contain NUL or /'')"
  by (cases name) (simp_all add: raw_command_name_def raw_string_def Let_def checkR_def)

end
