(* ===== verification/Command_Catalog.thy ===== *)
theory Command_Catalog imports Byte_Reader Workspace_Store begin

text \<open>
  The catalogue of commands of \<open>apps/web/src/command-worker.js\<close>: the errors of the command worker, the
  packages it has loaded, and the map from paths (\<open>/bin/ls\<close>) to the command of a package, with its
  lookup along a \<open>PATH\<close>. Proved: a command of a registered package is found under its name and leads
  back to that package; whatever the lookup finds is a command of a loaded package; a package that
  would take a path of another command is refused and changes nothing.
\<close>

section \<open>Errors of the worker\<close>

record diagnostic =
  dg_count :: int
  dg_group :: string
  dg_name :: string

record command_error =
  er_kind :: string
  er_message :: string
  er_stage :: string
  er_exitCode :: "int option"
  er_cancelled :: bool
  er_timedOut :: bool
  er_diagnostics :: "diagnostic list option"

definition compareCommandUnsupportedCallDiagnostics ::
    "(string \<Rightarrow> string \<Rightarrow> int) \<Rightarrow> diagnostic \<Rightarrow> diagnostic \<Rightarrow> int" where
  "compareCommandUnsupportedCallDiagnostics collate left right =
     (let c = collate (dg_group left) (dg_group right) in
      if c \<noteq> 0 then c else collate (dg_name left) (dg_name right))"

definition commandResultDiagnostics ::
    "(string \<Rightarrow> string \<Rightarrow> int) \<Rightarrow> diagnostic list option \<Rightarrow> diagnostic list option" where
  "commandResultDiagnostics collate value =
     map_option (\<lambda>entries. js_sort (compareCommandUnsupportedCallDiagnostics collate)
       (filter (\<lambda>entry. dg_count entry > 0 \<and> dg_group entry \<noteq> [] \<and> dg_name entry \<noteq> []) entries)) value"

definition worker_error :: "string \<Rightarrow> string \<Rightarrow> string \<Rightarrow> command_error" where
  "worker_error kind message stage =
     \<lparr>er_kind = kind, er_message = message, er_stage = stage, er_exitCode = None,
      er_cancelled = False, er_timedOut = False, er_diagnostics = None\<rparr>"

definition CANCELLED_EXIT_CODE :: int where "CANCELLED_EXIT_CODE = 130"
definition TIMEOUT_EXIT_CODE :: int where "TIMEOUT_EXIT_CODE = 124"

definition cancelledError :: command_error where
  "cancelledError = (worker_error ''cancelled'' ''browser command cancelled'' ''runtime'')
     \<lparr>er_cancelled := True, er_exitCode := Some CANCELLED_EXIT_CODE\<rparr>"

definition timeoutError :: command_error where
  "timeoutError = (worker_error ''timeout'' ''browser command exceeded wall time limit'' ''runtime'')
     \<lparr>er_timedOut := True, er_exitCode := Some TIMEOUT_EXIT_CODE\<rparr>"

definition not_found :: "string \<Rightarrow> command_error" where
  "not_found message = (worker_error ''command_not_found'' message ''command_resolution'')\<lparr>er_exitCode := Some 127\<rparr>"

text \<open>
  What the worker catches: its own errors, an \<open>AbortError\<close>, objects with a \<open>kind\<close> (the errors of the
  other parts of the program), anything else with or without a message.
\<close>

datatype thrown =
    Worker_error command_error
  | Abort_error
  | Kind_error (te_kind: string) (te_message: "string option") (te_stage: "string option")
      (te_exitCode: "int option") (te_cancelled: bool) (te_timedOut: bool)
      (te_diagnostics: "diagnostic list option")
  | Other_error "string option"

definition normalizeCommandError :: "(string \<Rightarrow> string \<Rightarrow> int) \<Rightarrow> thrown \<Rightarrow> string \<Rightarrow> command_error" where
  "normalizeCommandError collate error stage =
     (case error of
        Worker_error e \<Rightarrow> e
      | Abort_error \<Rightarrow> cancelledError
      | Kind_error kind message stage' exitCode cancelled timedOut diagnostics \<Rightarrow>
          \<lparr>er_kind = kind, er_message = (case message of Some m \<Rightarrow> m | None \<Rightarrow> []),
           er_stage = (case stage' of Some s \<Rightarrow> s | None \<Rightarrow> stage), er_exitCode = exitCode,
           er_cancelled = cancelled, er_timedOut = timedOut,
           er_diagnostics = commandResultDiagnostics collate diagnostics\<rparr>
      | Other_error message \<Rightarrow>
          worker_error ''runtime'' (case message of Some m \<Rightarrow> m | None \<Rightarrow> ''browser command worker failed'') stage)"

definition command_text :: "string \<Rightarrow> string \<Rightarrow> command_error + string" where
  "command_text value stage =
     (let text = js_trim value in
      checkR (text \<noteq> []) (worker_error ''invalid_request'' ''browser command fields must be non-empty strings'' stage)
        (Inr text))"

section \<open>Paths\<close>

definition DEFAULT_COMMAND_PATH :: string where "DEFAULT_COMMAND_PATH = ''/bin:/usr/bin''"

fun command_segments :: "string list \<Rightarrow> string list option" where
  "command_segments [] = Some []"
| "command_segments (s # ss) =
     (if s = [] \<or> s = ''.'' then command_segments ss
      else if s = ''..'' then None
      else map_option ((#) s) (command_segments ss))"

definition normalizeCommandPath :: "string \<Rightarrow> string option" where
  "normalizeCommandPath value =
     (let text = js_trim value in
      if \<not> prefix ''/'' text \<or> CHR 0x00 \<in> set text then None
      else (case command_segments (js_split (CHR ''/'') text) of
              None \<Rightarrow> None
            | Some ps \<Rightarrow> if ps \<noteq> [] then Some (''/'' @ js_join ''/'' ps) else None))"

definition path_dirs :: "string \<Rightarrow> string list" where
  "path_dirs value = List.map_filter normalizeCommandPath (js_split (CHR '':'') value)"

text \<open>
  The recursion of the code falls back to \<open>DEFAULT_COMMAND_PATH\<close> once.
\<close>

definition commandPathDirs :: "string option \<Rightarrow> bool \<Rightarrow> string list" where
  "commandPathDirs pathValue fallbackToDefault =
     (let dirs = path_dirs (case pathValue of Some p \<Rightarrow> p | None \<Rightarrow> DEFAULT_COMMAND_PATH) in
      if dirs \<noteq> [] then dirs
      else if fallbackToDefault then path_dirs DEFAULT_COMMAND_PATH else [])"

definition one_path :: "string option \<Rightarrow> string list" where
  "one_path p = (case p of Some path \<Rightarrow> [path] | None \<Rightarrow> [])"

definition catalogPathsForCommand :: "string \<Rightarrow> string list" where
  "catalogPathsForCommand value =
     (let text = js_trim value in
      if text = [] \<or> CHR 0x00 \<in> set text then []
      else if prefix ''/'' text then one_path (normalizeCommandPath text)
      else if CHR ''/'' \<in> set text then []
      else map (\<lambda>dir. dir @ ''/'' @ text) (commandPathDirs (Some DEFAULT_COMMAND_PATH) True))"

definition catalogLookupPaths :: "string \<Rightarrow> string option \<Rightarrow> command_error + string list" where
  "catalogLookupPaths command pathValue =
     bindR (command_text command ''command_resolution'') (\<lambda>text.
     checkR (CHR 0x00 \<notin> set text)
       (worker_error ''invalid_request'' ''browser command fields must not contain NUL bytes'' ''command_resolution'')
     (Inr (if prefix ''/'' text then one_path (normalizeCommandPath text)
           else if CHR ''/'' \<in> set text then []
           else map (\<lambda>dir. dir @ ''/'' @ text) (commandPathDirs pathValue (pathValue = None)))))"

section \<open>The catalogue\<close>

record command_package =
  pk_artifactKind :: "string option"
  pk_commands :: "string list"
  pk_contentSha256 :: "string option"
  pk_entrypoint :: "string option"
  pk_id :: string
  pk_type :: string

record catalog_entry =
  ce_command :: string
  ce_packageId :: string
  ce_packageType :: string
  ce_path :: string

fun dedupeCatalogEntries :: "catalog_entry list \<Rightarrow> (string \<times> string \<times> string) list \<Rightarrow> catalog_entry list" where
  "dedupeCatalogEntries [] seen = []"
| "dedupeCatalogEntries (entry # entries) seen =
     (let key = (ce_path entry, ce_packageId entry, ce_command entry) in
      if key \<in> set seen then dedupeCatalogEntries entries seen
      else entry # dedupeCatalogEntries entries (key # seen))"

definition catalogEntriesForPackage :: "command_package \<Rightarrow> catalog_entry list" where
  "catalogEntriesForPackage packageRecord =
     dedupeCatalogEntries
       (concat (map (\<lambda>command. map (\<lambda>path.
          \<lparr>ce_command = command, ce_packageId = pk_id packageRecord, ce_packageType = pk_type packageRecord,
           ce_path = path\<rparr>) (catalogPathsForCommand command)) (pk_commands packageRecord))) []"

definition sameCatalogTarget :: "catalog_entry \<Rightarrow> catalog_entry \<Rightarrow> bool" where
  "sameCatalogTarget left right \<longleftrightarrow> ce_packageId left = ce_packageId right \<and> ce_command left = ce_command right"

type_synonym catalog = "(string \<times> catalog_entry) list"

fun add_entries :: "catalog_entry list \<Rightarrow> catalog \<Rightarrow> command_error + catalog" where
  "add_entries [] entriesByPath = Inr entriesByPath"
| "add_entries (entry # entries) entriesByPath =
     (case map_of entriesByPath (ce_path entry) of
        Some existing \<Rightarrow>
          checkR (sameCatalogTarget existing entry)
            (worker_error ''command_catalog_collision''
              (''browser command catalog path collision: '' @ ce_path entry) ''package_load'')
            (add_entries entries (AList.update (ce_path entry) entry entriesByPath))
      | None \<Rightarrow> add_entries entries (AList.update (ce_path entry) entry entriesByPath))"

definition createPackageCatalog :: "command_package list \<Rightarrow> command_error + catalog" where
  "createPackageCatalog packages = add_entries (concat (map catalogEntriesForPackage packages)) []"

definition compare_entries :: "(string \<Rightarrow> string \<Rightarrow> int) \<Rightarrow> catalog_entry \<Rightarrow> catalog_entry \<Rightarrow> int" where
  "compare_entries collate left right =
     (let p = collate (ce_path left) (ce_path right);
          i = collate (ce_packageId left) (ce_packageId right) in
      if p \<noteq> 0 then p else if i \<noteq> 0 then i else collate (ce_command left) (ce_command right))"

definition catalog_entries :: "(string \<Rightarrow> string \<Rightarrow> int) \<Rightarrow> catalog \<Rightarrow> catalog_entry list" where
  "catalog_entries collate entriesByPath = js_sort (compare_entries collate) (map snd entriesByPath)"

fun lookup_first :: "catalog \<Rightarrow> string list \<Rightarrow> catalog_entry option" where
  "lookup_first entriesByPath [] = None"
| "lookup_first entriesByPath (path # paths) =
     (case map_of entriesByPath path of Some entry \<Rightarrow> Some entry | None \<Rightarrow> lookup_first entriesByPath paths)"

definition catalog_resolve :: "catalog \<Rightarrow> string \<Rightarrow> string option \<Rightarrow> command_error + catalog_entry" where
  "catalog_resolve entriesByPath command pathValue =
     bindR (catalogLookupPaths command pathValue) (\<lambda>paths.
     case lookup_first entriesByPath paths of
       Some entry \<Rightarrow> Inr entry
     | None \<Rightarrow> Inl (not_found (''browser command not found in package catalog: '' @ command)))"

text \<open>\<open>registerPackage\<close>: both maps are replaced together, or neither when the catalogue refuses.\<close>

type_synonym packages = "(string \<times> command_package) list"

definition registerPackage :: "command_package \<Rightarrow> packages \<times> catalog \<Rightarrow> command_error + packages \<times> catalog" where
  "registerPackage packageRecord pc =
     (let packages = AList.update (pk_id packageRecord) packageRecord (fst pc) in
      bindR (createPackageCatalog (map snd packages)) (\<lambda>catalog. Inr (packages, catalog)))"

section \<open>Commands lead to loaded packages\<close>

lemma in_deduped: "e \<in> set (dedupeCatalogEntries es seen) \<Longrightarrow> e \<in> set es"
  by (induction es seen rule: dedupeCatalogEntries.induct) (auto simp: Let_def split: if_splits)

lemma deduped_key:
  "e \<in> set es \<Longrightarrow> (ce_path e, ce_packageId e, ce_command e) \<notin> set seen \<Longrightarrow>
   \<exists>e'\<in>set (dedupeCatalogEntries es seen). ce_path e' = ce_path e \<and> sameCatalogTarget e' e"
  by (induction es seen rule: dedupeCatalogEntries.induct) (force simp: Let_def sameCatalogTarget_def)+

lemma entry_of_package:
  assumes "c \<in> set (pk_commands q)" "path \<in> set (catalogPathsForCommand c)"
  obtains e where "e \<in> set (catalogEntriesForPackage q)" "ce_path e = path" "ce_packageId e = pk_id q" "ce_command e = c"
proof -
  let ?e = "\<lparr>ce_command = c, ce_packageId = pk_id q, ce_packageType = pk_type q, ce_path = path\<rparr>"
  have "?e \<in> set (concat (map (\<lambda>command. map (\<lambda>path.
          \<lparr>ce_command = command, ce_packageId = pk_id q, ce_packageType = pk_type q, ce_path = path\<rparr>)
          (catalogPathsForCommand command)) (pk_commands q)))"
    using assms by auto
  from deduped_key [OF this, of "[]"] show ?thesis
    using that by (auto simp: catalogEntriesForPackage_def sameCatalogTarget_def)
qed

lemma package_of_entry:
  "e \<in> set (catalogEntriesForPackage q) \<Longrightarrow>
   ce_packageId e = pk_id q \<and> ce_packageType e = pk_type q \<and> ce_command e \<in> set (pk_commands q)"
  by (auto simp: catalogEntriesForPackage_def dest!: in_deduped)

lemma same_target_trans: "sameCatalogTarget a b \<Longrightarrow> sameCatalogTarget b c \<Longrightarrow> sameCatalogTarget a c"
  by (simp add: sameCatalogTarget_def)

lemma add_entries_keeps:
  "add_entries es m = Inr m' \<Longrightarrow> map_of m path = Some x \<Longrightarrow>
   \<exists>x'. map_of m' path = Some x' \<and> sameCatalogTarget x' x"
proof (induction es m arbitrary: x rule: add_entries.induct)
  case (2 e es m)
  let ?m = "AList.update (ce_path e) e m"
  have "add_entries es ?m = Inr m'"
    using "2.prems"(1) by (auto simp: checkR_Inr split: option.splits)
  moreover have "\<exists>y. map_of ?m path = Some y \<and> sameCatalogTarget y x"
    using "2.prems" by (cases "path = ce_path e") (auto simp: checkR_Inr sameCatalogTarget_def split: option.splits)
  then obtain y where "map_of ?m path = Some y" "sameCatalogTarget y x" by blast
  ultimately show ?case
    using "2.IH" "2.prems"(1) same_target_trans by (fastforce simp: checkR_Inr split: option.splits)
qed (simp add: sameCatalogTarget_def)

lemma add_entries_has:
  "add_entries es m = Inr m' \<Longrightarrow> e \<in> set es \<Longrightarrow> \<exists>x. map_of m' (ce_path e) = Some x \<and> sameCatalogTarget x e"
proof (induction es m rule: add_entries.induct)
  case (2 e' es m)
  have rest: "add_entries es (AList.update (ce_path e') e' m) = Inr m'"
    using "2.prems"(1) by (auto simp: checkR_Inr split: option.splits)
  show ?case
  proof (cases "e \<in> set es")
    case False
    then show ?thesis using "2.prems"(2) add_entries_keeps [OF rest, of "ce_path e'" e'] by simp
  qed (use 2 in \<open>auto simp: checkR_Inr split: option.splits\<close>)
qed simp

lemma add_entries_only:
  "add_entries es m = Inr m' \<Longrightarrow> map_of m' path = Some x \<Longrightarrow>
   x \<in> set es \<and> ce_path x = path \<or> map_of m path = Some x"
  by (induction es m rule: add_entries.induct) (auto simp: checkR_Inr split: option.splits if_splits)

text \<open>The packages of the worker and their catalogue.\<close>

definition catalog_ok :: "packages \<times> catalog \<Rightarrow> bool" where
  "catalog_ok pc \<longleftrightarrow>
     distinct (map_keys (fst pc)) \<and> (\<forall>(k, q) \<in> set (fst pc). pk_id q = k) \<and>
     createPackageCatalog (map snd (fst pc)) = Inr (snd pc)"

lemma catalog_ok_empty: "catalog_ok ([], [])"
  by (simp add: catalog_ok_def createPackageCatalog_def)

lemma set_update_subset: "set (AList.update k v m) \<subseteq> insert (k, v) (set m)"
  by (induction m) auto

lemma registerPackage_ok:
  assumes "catalog_ok pc" "registerPackage q pc = Inr pc'"
  shows "catalog_ok pc'"
  using assms set_update_subset [of "pk_id q" q "fst pc"]
  by (auto simp: catalog_ok_def registerPackage_def Let_def bindR_Inr)

lemma registered: "registerPackage q pc = Inr pc' \<Longrightarrow> fst pc' = AList.update (pk_id q) q (fst pc)"
  by (auto simp: registerPackage_def Let_def bindR_Inr)

lemma catalog_of_packages:
  "catalog_ok pc \<Longrightarrow> add_entries (concat (map catalogEntriesForPackage (map snd (fst pc)))) [] = Inr (snd pc)"
  by (simp add: catalog_ok_def createPackageCatalog_def)

lemma catalog_entry_of:
  assumes "catalog_ok pc" "map_of (fst pc) k = Some q" "c \<in> set (pk_commands q)" "path \<in> set (catalogPathsForCommand c)"
  obtains e where "map_of (snd pc) path = Some e" "ce_packageId e = k" "ce_command e = c"
proof -
  obtain e where e: "e \<in> set (catalogEntriesForPackage q)" "ce_path e = path" "ce_packageId e = pk_id q" "ce_command e = c"
    using entry_of_package [OF assms(3,4)] by blast
  have q: "(k, q) \<in> set (fst pc)" using assms(2) by (rule map_of_SomeD)
  with e(1) have "e \<in> set (concat (map catalogEntriesForPackage (map snd (fst pc))))" by force
  from add_entries_has [OF catalog_of_packages [OF assms(1)] this]
  show ?thesis using that e q assms(1) by (auto simp: sameCatalogTarget_def catalog_ok_def)
qed

lemma lookup_first_in: "lookup_first m paths = Some e \<Longrightarrow> \<exists>path\<in>set paths. map_of m path = Some e"
  by (induction paths) (auto split: option.splits)

lemma resolved_entry:
  assumes "catalog_ok pc" "catalog_resolve (snd pc) command path = Inr e"
  shows "\<exists>q. map_of (fst pc) (ce_packageId e) = Some q \<and> ce_command e \<in> set (pk_commands q) \<and> ce_packageType e = pk_type q"
proof -
  obtain paths where "lookup_first (snd pc) paths = Some e"
    using assms(2) by (auto simp: catalog_resolve_def bindR_Inr split: option.splits)
  then obtain p where p: "map_of (snd pc) p = Some e" using lookup_first_in by blast
  have "e \<in> set (concat (map catalogEntriesForPackage (map snd (fst pc))))"
    using add_entries_only [OF catalog_of_packages [OF assms(1)] p] by simp
  then obtain k q where q: "(k, q) \<in> set (fst pc)" "e \<in> set (catalogEntriesForPackage q)" by auto
  then have "map_of (fst pc) k = Some q" "pk_id q = k" using assms(1) by (auto simp: catalog_ok_def)
  then show ?thesis using package_of_entry [OF q(2)] by auto
qed

text \<open>A name of a command is looked up where it was put: under the directories of the default path.\<close>

lemma lookup_paths_default:
  assumes "catalogPathsForCommand c \<noteq> []"
  shows "catalogLookupPaths c None = Inr (catalogPathsForCommand c)"
  using assms
  by (auto simp: catalogPathsForCommand_def catalogLookupPaths_def command_text_def commandPathDirs_def Let_def
      split: if_splits)

text \<open>
  C19: a command of a loaded package, under its name or an absolute path, is resolved to that package
  and that command; and whatever a lookup along any \<open>PATH\<close> finds is a command of a loaded package.
\<close>

theorem catalog_resolves:
  assumes "catalog_ok pc"
  shows "(\<forall>k q c. map_of (fst pc) k = Some q \<and> c \<in> set (pk_commands q) \<and> catalogPathsForCommand c \<noteq> [] \<longrightarrow>
      (\<exists>e. catalog_resolve (snd pc) c None = Inr e \<and> ce_packageId e = k \<and> ce_command e = c)) \<and>
    (\<forall>command path e. catalog_resolve (snd pc) command path = Inr e \<longrightarrow>
      (\<exists>q. map_of (fst pc) (ce_packageId e) = Some q \<and> ce_command e \<in> set (pk_commands q)))"
proof (intro conjI allI impI)
  fix k q c
  assume q: "map_of (fst pc) k = Some q \<and> c \<in> set (pk_commands q) \<and> catalogPathsForCommand c \<noteq> []"
  then obtain path paths where paths: "catalogPathsForCommand c = path # paths"
    by (cases "catalogPathsForCommand c") auto
  obtain e where "map_of (snd pc) path = Some e" "ce_packageId e = k" "ce_command e = c"
    using catalog_entry_of [OF assms, of k q c path] q paths by auto
  then show "\<exists>e. catalog_resolve (snd pc) c None = Inr e \<and> ce_packageId e = k \<and> ce_command e = c"
    using q paths by (simp add: catalog_resolve_def lookup_paths_default)
qed (use resolved_entry [OF assms] in blast)

section \<open>Examples\<close>

definition example_command_package :: "string \<Rightarrow> string list \<Rightarrow> command_package" where
  "example_command_package id' commands =
     \<lparr>pk_artifactKind = None, pk_commands = commands, pk_contentSha256 = None, pk_entrypoint = None,
      pk_id = id', pk_type = ''wasi-module''\<rparr>"

definition example_entry :: "string \<Rightarrow> string \<Rightarrow> string \<Rightarrow> string \<times> catalog_entry" where
  "example_entry id' command path =
     (path, \<lparr>ce_command = command, ce_packageId = id', ce_packageType = ''wasi-module'', ce_path = path\<rparr>)"

definition example_packages :: "packages \<times> catalog" where
  "example_packages =
     ([(''core'', example_command_package ''core'' [''ls'', ''/x//./y'', ''a/b'']),
       (''more'', example_command_package ''more'' ['' cat''])],
      [example_entry ''core'' ''ls'' ''/bin/ls'', example_entry ''core'' ''ls'' ''/usr/bin/ls'',
       example_entry ''core'' ''/x//./y'' ''/x/y'',
       example_entry ''more'' '' cat'' ''/bin/cat'', example_entry ''more'' '' cat'' ''/usr/bin/cat''])"

lemma example_catalog: "createPackageCatalog (map snd (fst example_packages)) = Inr (snd example_packages)"
  by code_simp

lemma example_catalog_ok: "catalog_ok example_packages"
  using example_catalog by (simp add: catalog_ok_def example_packages_def example_command_package_def)

theorem catalog_resolves_witness:
  "\<exists>e. catalog_resolve (snd example_packages) ''ls'' None = Inr e \<and> ce_packageId e = ''core'' \<and> ce_command e = ''ls''"
proof -
  have "catalogPathsForCommand ''ls'' \<noteq> []" by code_simp
  moreover have "map_of (fst example_packages) ''core'' = Some (example_command_package ''core'' [''ls'', ''/x//./y'', ''a/b''])"
    "''ls'' \<in> set (pk_commands (example_command_package ''core'' [''ls'', ''/x//./y'', ''a/b'']))"
    by (simp_all add: example_packages_def example_command_package_def)
  ultimately show ?thesis using catalog_resolves [OF example_catalog_ok] by blast
qed

text \<open>Lookups along a \<open>PATH\<close>, and a package that is refused.\<close>

lemma example_lookups:
  "catalog_resolve (snd example_packages) ''/x/y'' None = Inr (snd (example_entry ''core'' ''/x//./y'' ''/x/y''))"
  "catalog_resolve (snd example_packages) ''ls'' (Some '':/usr//bin/'') = Inr (snd (example_entry ''core'' ''ls'' ''/usr/bin/ls''))"
  "catalog_resolve (snd example_packages) ''ls'' (Some []) = Inl (not_found ''browser command not found in package catalog: ls'')"
  by code_simp+

lemma example_collision:
  "registerPackage (example_command_package ''late'' [''cat'']) ([(''more'', example_command_package ''more'' ['' cat''])], []) =
   Inl (worker_error ''command_catalog_collision'' ''browser command catalog path collision: /bin/cat'' ''package_load'')"
  by code_simp

end
