(* ===== verification/Command_Stdin.thy ===== *)
theory Command_Stdin imports Command_Catalog Base64 begin

text \<open>
  The standard input of a command in \<open>apps/web/src/command-worker.js\<close>: how a message becomes bytes, and
  \<open>CommandInputStream\<close>, the queue between the messages of the client and the reads of the command.
  A read returns a promise, which here is a number; what it is settled with is kept in \<open>is_settled\<close>.
  Proved: whatever the order of pushes and reads, the n-th read gets the n-th chunk that was
  accepted, later reads get the end or the error, and no read is settled twice.
\<close>

section \<open>Bytes of a message\<close>

datatype chunk_value = Chunk_bytes "byte list" | Chunk_text string | Chunk_other

definition toUint8Array :: "chunk_value \<Rightarrow> string \<Rightarrow> command_error + byte list" where
  "toUint8Array value message =
     (case value of
        Chunk_bytes bytes \<Rightarrow> Inr bytes
      | Chunk_text text \<Rightarrow> Inr (encodeText text)
      | Chunk_other \<Rightarrow> Inl (worker_error ''invalid_request'' message ''startup''))"

abbreviation (input) "chunk_message \<equiv> ''command stdin chunks must be bytes''"

definition isValidBase64 :: "string \<Rightarrow> bool" where
  "isValidBase64 value \<longleftrightarrow>
     length value mod 4 = 0 \<and>
     dropWhile (\<lambda>c. b64_value c \<noteq> None) value \<in> {[], ''='', ''==''}"

definition stdin_base64ToBytes :: "chunk_value \<Rightarrow> command_error + byte list" where
  "stdin_base64ToBytes value =
     (let invalid = Inl (worker_error ''invalid_request'' ''invalid browser command stdin base64'' ''startup'') in
      case value of
        Chunk_text text \<Rightarrow>
          if isValidBase64 text then (case base64ToBytes text of Some bytes \<Rightarrow> Inr bytes | None \<Rightarrow> invalid) else invalid
      | _ \<Rightarrow> invalid)"

text \<open>The fields of a run that hold its first input; a list field may hold something that is no array.\<close>

record stdin_fields =
  sf_stdin :: "chunk_value option"
  sf_stdinBase64 :: "chunk_value option"
  sf_stdinChunks :: "chunk_value list option option"
  sf_stdinChunksBase64 :: "chunk_value list option option"

definition present :: "bool list \<Rightarrow> nat" where
  "present given = length (filter id given)"

definition initialStdinChunks :: "stdin_fields \<Rightarrow> command_error + byte list list" where
  "initialStdinChunks run =
     checkR (present [sf_stdin run \<noteq> None, sf_stdinBase64 run \<noteq> None, sf_stdinChunks run \<noteq> None,
                      sf_stdinChunksBase64 run \<noteq> None] \<le> 1)
       (worker_error ''invalid_request'' ''browser command run must include at most one stdin field'' ''startup'')
     (case sf_stdin run of
        Some chunk \<Rightarrow> bindR (toUint8Array chunk chunk_message) (\<lambda>bytes. Inr [bytes])
      | None \<Rightarrow>
     (case sf_stdinBase64 run of
        Some chunk \<Rightarrow> bindR (stdin_base64ToBytes chunk) (\<lambda>bytes. Inr [bytes])
      | None \<Rightarrow>
     (case sf_stdinChunks run of
        Some (Some chunks) \<Rightarrow> mapR (\<lambda>chunk. toUint8Array chunk chunk_message) chunks
      | _ \<Rightarrow>
     (case sf_stdinChunksBase64 run of
        Some (Some chunks) \<Rightarrow> mapR stdin_base64ToBytes chunks
      | _ \<Rightarrow> Inr []))))"

record stdin_message =
  sm_chunk :: "chunk_value option"
  sm_chunkBase64 :: "chunk_value option"

definition stdinChunkFromMessage :: "stdin_message \<Rightarrow> command_error + byte list" where
  "stdinChunkFromMessage message =
     (case (sm_chunk message, sm_chunkBase64 message) of
        (Some chunk, None) \<Rightarrow> toUint8Array chunk chunk_message
      | (None, Some chunk) \<Rightarrow> stdin_base64ToBytes chunk
      | _ \<Rightarrow> Inl (worker_error ''invalid_request''
               ''browser command stdin messages must include exactly one chunk'' ''stdio''))"

section \<open>The stream\<close>

datatype read_result = Read_chunk "byte list" | Read_end | Read_failed command_error

record input_stream =
  is_chunks :: "byte list list"
  is_waiters :: "nat list"
  is_closed :: bool
  is_error :: "command_error option"
  is_reads :: nat
  is_settled :: "(nat \<times> read_result) list"

definition new_stream :: input_stream where
  "new_stream = \<lparr>is_chunks = [], is_waiters = [], is_closed = False, is_error = None, is_reads = 0, is_settled = []\<rparr>"

definition settle_waiters :: "read_result \<Rightarrow> input_stream \<Rightarrow> input_stream" where
  "settle_waiters r s = s\<lparr>is_waiters := [], is_settled := is_settled s @ map (\<lambda>w. (w, r)) (is_waiters s)\<rparr>"

definition already_closed :: command_error where
  "already_closed = worker_error ''invalid_request'' ''browser command stdin is already closed'' ''stdio''"

definition stream_push :: "byte list \<Rightarrow> input_stream \<Rightarrow> (command_error + unit) \<times> input_stream" where
  "stream_push bytes s =
     (if is_closed s then (Inl already_closed, s)
      else case is_error s of
        Some e \<Rightarrow> (Inl e, s)
      | None \<Rightarrow>
          if bytes = [] then (Inr (), s)
          else (case is_waiters s of
                  w # ws \<Rightarrow> (Inr (), s\<lparr>is_waiters := ws, is_settled := is_settled s @ [(w, Read_chunk bytes)]\<rparr>)
                | [] \<Rightarrow> (Inr (), s\<lparr>is_chunks := is_chunks s @ [bytes]\<rparr>)))"

definition stream_end :: "input_stream \<Rightarrow> (command_error + unit) \<times> input_stream" where
  "stream_end s =
     (if is_closed s then (Inl already_closed, s)
      else (Inr (), settle_waiters Read_end (s\<lparr>is_closed := True\<rparr>)))"

definition stream_fail :: "command_error \<Rightarrow> input_stream \<Rightarrow> input_stream" where
  "stream_fail e s =
     (if is_error s \<noteq> None then s else settle_waiters (Read_failed e) (s\<lparr>is_error := Some e\<rparr>))"

definition readChunk :: "input_stream \<Rightarrow> input_stream" where
  "readChunk s =
     (let n = is_reads s; s = s\<lparr>is_reads := n + 1\<rparr>;
          answer = (\<lambda>r s. s\<lparr>is_settled := is_settled s @ [(n, r)]\<rparr>) in
      case is_chunks s of
        bytes # rest \<Rightarrow> answer (Read_chunk bytes) (s\<lparr>is_chunks := rest\<rparr>)
      | [] \<Rightarrow>
          (case is_error s of
             Some e \<Rightarrow> answer (Read_failed e) s
           | None \<Rightarrow> if is_closed s then answer Read_end s else s\<lparr>is_waiters := is_waiters s @ [n]\<rparr>))"

fun enqueueInitialStdin :: "byte list list \<Rightarrow> input_stream \<Rightarrow> (command_error + unit) \<times> input_stream" where
  "enqueueInitialStdin [] s = (Inr (), s)"
| "enqueueInitialStdin (chunk # chunks) s =
     (case stream_push chunk s of
        (Inl e, s') \<Rightarrow> (Inl e, s')
      | (Inr _, s') \<Rightarrow> enqueueInitialStdin chunks s')"

section \<open>Any sequence of operations\<close>

datatype stream_op = Push_chunk "byte list" | End_input | Fail_input command_error | Read_input

primrec stream_step :: "stream_op \<Rightarrow> input_stream \<Rightarrow> (command_error + unit) \<times> input_stream" where
  "stream_step (Push_chunk bytes) s = stream_push bytes s"
| "stream_step End_input s = stream_end s"
| "stream_step (Fail_input e) s = (Inr (), stream_fail e s)"
| "stream_step Read_input s = (Inr (), readChunk s)"

text \<open>The chunks a step adds to the input: those of a push that did not throw, unless empty.\<close>

definition accepted :: "stream_op \<Rightarrow> input_stream \<Rightarrow> byte list list" where
  "accepted op s =
     (case (op, fst (stream_step op s)) of
        (Push_chunk bytes, Inr _) \<Rightarrow> if bytes \<noteq> [] then [bytes] else []
      | _ \<Rightarrow> [])"

fun run_stream :: "stream_op list \<Rightarrow> input_stream \<times> byte list list \<Rightarrow> input_stream \<times> byte list list" where
  "run_stream [] sa = sa"
| "run_stream (op # ops) (s, acc) = run_stream ops (snd (stream_step op s), acc @ accepted op s)"

text \<open>
  What the state is after chunks \<open>acc\<close> have been accepted: the queue is what the reads have not taken,
  the reads beyond it wait or have been told the end.
\<close>

definition stream_ok :: "input_stream \<Rightarrow> byte list list \<Rightarrow> bool" where
  "stream_ok s acc \<longleftrightarrow>
     is_chunks s = drop (is_reads s) acc \<and>
     is_waiters s = (if is_closed s \<or> is_error s \<noteq> None then [] else [length acc..<is_reads s]) \<and>
     distinct (map fst (is_settled s)) \<and>
     (\<forall>i r. (i, r) \<in> set (is_settled s) \<longrightarrow>
        i < is_reads s \<and> (if i < length acc then r = Read_chunk (acc ! i) else (\<forall>b. r \<noteq> Read_chunk b))) \<and>
     fst ` set (is_settled s) = {..<is_reads s} - set (is_waiters s)"

lemma new_stream_ok: "stream_ok new_stream []"
  by (auto simp: stream_ok_def new_stream_def)

lemma settled_read:
  "stream_ok s acc \<Longrightarrow> (i, r) \<in> set (is_settled s) \<Longrightarrow>
   i < is_reads s \<and> (if i < length acc then r = Read_chunk (acc ! i) else (\<forall>b. r \<noteq> Read_chunk b))"
  by (simp add: stream_ok_def)

lemma stream_push_ok:
  assumes "stream_ok s acc"
  shows "stream_ok (snd (stream_push bytes s)) (acc @ accepted (Push_chunk bytes) s)"
proof (cases "is_closed s \<or> is_error s \<noteq> None \<or> bytes = []")
  case True
  then show ?thesis using assms by (auto simp: stream_push_def accepted_def split: option.splits)
next
  case False
  note open' = this
  show ?thesis
  proof (cases "is_waiters s")
    case Nil
    then have "[length acc..<is_reads s] = []" using assms open' by (simp add: stream_ok_def)
    then have early: "is_reads s \<le> length acc" by auto
    have "i < length acc" if "(i, r) \<in> set (is_settled s)" for i r
      using settled_read [OF assms that] early by simp
    note early = early this
    from early show ?thesis
      using assms open' Nil
      by (auto simp: stream_ok_def stream_push_def accepted_def nth_append less_Suc_eq split: if_splits dest: early(2))
  next
    case (Cons w ws)
    moreover have "is_waiters s = [length acc..<is_reads s]" using assms open' by (simp add: stream_ok_def)
    ultimately have "[length acc..<is_reads s] = w # ws" by simp
    then have w: "w = length acc" "length acc < is_reads s" "ws = [Suc (length acc)..<is_reads s]"
      by (auto simp: upt_eq_Cons_conv)
    then have eq: "stream_push bytes s = (Inr (), s\<lparr>is_waiters := [Suc (length acc)..<is_reads s],
        is_settled := is_settled s @ [(length acc, Read_chunk bytes)]\<rparr>)"
      using Cons open' by (simp add: stream_push_def)
    then have acc: "accepted (Push_chunk bytes) s = [bytes]" using open' by (simp add: accepted_def)
    have s: "is_chunks s = []" "\<not> is_closed s" "is_error s = None" "distinct (map fst (is_settled s))"
      "fst ` set (is_settled s) = {..<is_reads s} - {length acc..<is_reads s}"
      using assms open' w(2) by (simp_all add: stream_ok_def)
    then have "length acc \<notin> fst ` set (is_settled s)" using w(2) by simp
    then have "(length acc, r) \<notin> set (is_settled s)" for r by force
    with s w(2) settled_read [OF assms] show ?thesis
      unfolding eq acc stream_ok_def by (auto simp: nth_append less_Suc_eq)
  qed
qed

lemma settle_waiters_ok:
  assumes "stream_ok s acc" "\<And>b. r \<noteq> Read_chunk b" "c \<or> e \<noteq> None"
  shows "stream_ok (settle_waiters r (s\<lparr>is_closed := c, is_error := e\<rparr>)) acc"
proof (cases "is_closed s \<or> is_error s \<noteq> None")
  case True
  then show ?thesis using assms by (auto simp: stream_ok_def settle_waiters_def)
next
  case False
  then have w: "is_waiters s = [length acc..<is_reads s]" using assms(1) by (simp add: stream_ok_def)
  have "map fst (map (\<lambda>w. (w, r)) [length acc..<is_reads s]) = [length acc..<is_reads s]" by (simp add: o_def)
  moreover have "fst ` set (is_settled s) = {..<is_reads s} - set [length acc..<is_reads s]"
    using assms(1) w by (simp add: stream_ok_def)
  ultimately show ?thesis
    using assms False w unfolding stream_ok_def settle_waiters_def by (auto simp: image_Un image_image)
qed

lemma stream_end_ok: "stream_ok s acc \<Longrightarrow> stream_ok (snd (stream_end s)) acc"
  unfolding stream_end_def by (auto intro!: settle_waiters_ok [where e = "is_error s", of s acc Read_end True, simplified])

lemma stream_fail_ok: "stream_ok s acc \<Longrightarrow> stream_ok (stream_fail e s) acc"
  unfolding stream_fail_def
  by (auto intro!: settle_waiters_ok [where c = "is_closed s", of s acc "Read_failed e" "Some e", simplified])

lemma readChunk_ok:
  assumes "stream_ok s acc"
  shows "stream_ok (readChunk s) acc"
proof (cases "is_chunks s")
  case (Cons b bs)
  then have drop: "drop (is_reads s) acc = b # bs" using assms by (simp add: stream_ok_def)
  then have "is_reads s < length acc" by (metis drop_all list.discI not_le)
  with drop have "is_reads s < length acc" "b = acc ! is_reads s" "bs = drop (Suc (is_reads s)) acc"
    by (simp_all flip: Cons_nth_drop_Suc)
  then have eq: "readChunk s = s\<lparr>is_reads := Suc (is_reads s), is_chunks := drop (Suc (is_reads s)) acc,
      is_settled := is_settled s @ [(is_reads s, Read_chunk (acc ! is_reads s))]\<rparr>"
    using Cons by (simp add: readChunk_def Let_def)
  have "is_waiters s = []" "distinct (map fst (is_settled s))" "fst ` set (is_settled s) = {..<is_reads s}"
    using assms \<open>is_reads s < length acc\<close> by (auto simp: stream_ok_def split: if_splits)
  moreover have "if is_closed s \<or> is_error s \<noteq> None then True else [length acc..<Suc (is_reads s)] = []"
    using \<open>is_reads s < length acc\<close> by simp
  ultimately show ?thesis
    using settled_read [OF assms] \<open>is_reads s < length acc\<close> unfolding eq stream_ok_def
    by (auto simp: lessThan_Suc less_Suc_eq)
next
  case Nil
  then have "length acc \<le> is_reads s" using assms by (auto simp: stream_ok_def)
  moreover have "i < Suc (is_reads s)" if "(i, r) \<in> set (is_settled s)" for i r
    using settled_read [OF assms that] by simp
  ultimately show ?thesis using assms Nil
    by (auto simp: stream_ok_def readChunk_def Let_def lessThan_Suc split: option.splits)
qed

lemma stream_step_ok: "stream_ok s acc \<Longrightarrow> stream_ok (snd (stream_step op s)) (acc @ accepted op s)"
proof (cases op)
  case (Push_chunk bytes)
  moreover assume "stream_ok s acc"
  ultimately show ?thesis by (simp add: stream_push_ok)
qed (simp_all add: stream_end_ok stream_fail_ok readChunk_ok accepted_def split: sum.splits)

lemma run_stream_ok: "stream_ok s acc \<Longrightarrow> run_stream ops (s, acc) = (s', acc') \<Longrightarrow> stream_ok s' acc'"
proof (induction ops arbitrary: s acc)
  case (Cons op ops)
  then show ?case using stream_step_ok [of s acc op] by (auto simp del: stream_step.simps)
qed simp

text \<open>
  C17: however a client's messages and the reads of a command interleave, the n-th read gets the n-th
  chunk the stream accepted; a read beyond these waits while the stream is open, and otherwise gets
  its end or its error; no read is answered twice.
\<close>

theorem stdin_delivers:
  assumes "run_stream ops (new_stream, []) = (s, acc)" "i < is_reads s"
  shows "distinct (map fst (is_settled s)) \<and>
    (case map_of (is_settled s) i of
       Some (Read_chunk bytes) \<Rightarrow> i < length acc \<and> bytes = acc ! i
     | Some r \<Rightarrow> length acc \<le> i
     | None \<Rightarrow> length acc \<le> i \<and> \<not> is_closed s \<and> is_error s = None)"
proof -
  have ok: "stream_ok s acc" by (rule run_stream_ok [OF new_stream_ok assms(1)])
  show ?thesis
  proof (cases "map_of (is_settled s) i")
    case None
    then have "i \<notin> fst ` set (is_settled s)" by (simp add: map_of_eq_None_iff)
    then show ?thesis using ok assms(2) None by (auto simp: stream_ok_def split: if_splits)
  next
    case (Some r)
    then have "(i, r) \<in> set (is_settled s)" by (rule map_of_SomeD)
    from settled_read [OF ok this] have "if i < length acc then r = Read_chunk (acc ! i) else (\<forall>b. r \<noteq> Read_chunk b)"
      by simp
    moreover have "distinct (map fst (is_settled s))" using ok by (simp add: stream_ok_def)
    ultimately show ?thesis using Some by (auto split: read_result.splits if_splits)
  qed
qed

definition example_stream_ops :: "stream_op list" where
  "example_stream_ops =
     [Read_input, Push_chunk [], Push_chunk [1], Push_chunk [2, 3], Read_input, Read_input, End_input, Push_chunk [4], Read_input]"

theorem stdin_delivers_witness:
  "case run_stream example_stream_ops (new_stream, []) of
     (s, acc) \<Rightarrow> acc = [[1], [2, 3]] \<and> is_reads s = 4 \<and> map_of (is_settled s) 1 = Some (Read_chunk [2, 3]) \<and>
       distinct (map fst (is_settled s))"
proof -
  obtain s acc where run: "run_stream example_stream_ops (new_stream, []) = (s, acc)" by fastforce
  have "case run_stream example_stream_ops (new_stream, []) of
     (s, acc) \<Rightarrow> acc = [[1], [2, 3]] \<and> is_reads s = 4 \<and> map_of (is_settled s) 1 = Some (Read_chunk [2, 3])"
    by code_simp
  moreover from this have "1 < is_reads s" by (simp add: run)
  ultimately show ?thesis using stdin_delivers [OF run, of 1] by (simp add: run)
qed

section \<open>The text of an input\<close>

text \<open>
  \<open>readCommandInputText\<close> on an input that has ended: the reads up to the end, joined and decoded. An
  input that fails throws its error.
\<close>

fun read_to_end :: "nat \<Rightarrow> input_stream \<Rightarrow> byte list list \<Rightarrow> (command_error + byte list list) option" where
  "read_to_end 0 s chunks = None"
| "read_to_end (Suc n) s chunks =
     (let s' = readChunk s in
      case map_of (is_settled s') (is_reads s) of
        Some (Read_chunk bytes) \<Rightarrow> read_to_end n s' (chunks @ [bytes])
      | Some Read_end \<Rightarrow> Some (Inr chunks)
      | Some (Read_failed e) \<Rightarrow> Some (Inl e)
      | None \<Rightarrow> None)"

definition readCommandInputText :: "nat \<Rightarrow> input_stream \<Rightarrow> (command_error + string) option" where
  "readCommandInputText n s =
     map_option (\<lambda>r. bindR r (\<lambda>chunks. Inr (decodeText (concat chunks)))) (read_to_end n s [])"

lemma read_to_end_ended:
  "stream_ok s acc \<Longrightarrow> is_closed s \<Longrightarrow> is_error s = None \<Longrightarrow> length (is_chunks s) < n \<Longrightarrow>
   read_to_end n s chunks = Some (Inr (chunks @ is_chunks s))"
proof (induction n arbitrary: s chunks)
  case (Suc n)
  have fresh: "map_of (is_settled s) (is_reads s) = None"
    using Suc.prems(1) by (auto simp: map_of_eq_None_iff stream_ok_def)
  show ?case
  proof (cases "is_chunks s")
    case Nil
    then show ?thesis using Suc.prems fresh by (simp add: readChunk_def Let_def map_add_def)
  next
    case (Cons b bs)
    have "read_to_end n (readChunk s) (chunks @ [b]) = Some (Inr ((chunks @ [b]) @ is_chunks (readChunk s)))"
      by (rule Suc.IH) (use Suc.prems Cons in \<open>auto simp: readChunk_ok\<close>, auto simp: readChunk_def Let_def)
    then show ?thesis using Cons fresh by (simp add: readChunk_def Let_def map_add_def)
  qed
qed simp

text \<open>An initial input is read back as the text of its chunks.\<close>

lemma initial_input:
  "is_closed s = False \<Longrightarrow> is_error s = None \<Longrightarrow> is_waiters s = [] \<Longrightarrow>
   enqueueInitialStdin chunks s = (Inr (), s\<lparr>is_chunks := is_chunks s @ filter (\<lambda>b. b \<noteq> []) chunks\<rparr>)"
proof (induction chunks arbitrary: s)
  case (Cons b chunks)
  then show ?case by (cases "b = []") (simp_all add: stream_push_def)
qed simp

lemma initial_text:
  assumes "length chunks < n"
  shows "readCommandInputText n (snd (stream_end (snd (enqueueInitialStdin chunks new_stream)))) =
    Some (Inr (decodeText (concat chunks)))"
proof -
  let ?acc = "filter (\<lambda>b. b \<noteq> []) chunks"
  have s: "snd (stream_end (snd (enqueueInitialStdin chunks new_stream))) = new_stream\<lparr>is_chunks := ?acc, is_closed := True\<rparr>"
    by (simp add: initial_input new_stream_def stream_end_def settle_waiters_def)
  have "length ?acc < n" using assms length_filter_le [of "\<lambda>b. b \<noteq> []" chunks] by (rule order.strict_trans1 [rotated])
  then have "read_to_end n (new_stream\<lparr>is_chunks := ?acc, is_closed := True\<rparr>) [] = Some (Inr ([] @ ?acc))"
    by (subst read_to_end_ended [where acc = ?acc]) (simp_all add: stream_ok_def new_stream_def)
  moreover have "concat ?acc = concat chunks" by (induction chunks) auto
  ultimately show ?thesis by (simp add: readCommandInputText_def s)
qed

end
