(* ===== verification/Command_Run.thy ===== *)
theory Command_Run imports Command_Stdin Webc_Manifest begin

text \<open>
  What the command worker (\<open>apps/web/src/command-worker.js\<close>) makes of the messages of its clients: a run
  request, the request of a child command, a package given without bytes, terminal sizes; and the
  results and errors it posts. A field of a message is \<open>None\<close> when it is absent; texts and numbers are
  taken as \<open>String\<close> and \<open>Number\<close> have made them; a list or an object field is \<open>Some None\<close> when it is
  present and holds something else. Proved: what a request that is accepted looks like.
\<close>

section \<open>Numbers\<close>

text \<open>\<open>Number.isSafeInteger\<close>, with the integer.\<close>

definition js_integer :: "js_number \<Rightarrow> int option" where
  "js_integer v =
     (case v of
        Finite m e \<Rightarrow>
          if 0 \<le> e then Some (m * 2 ^ nat e)
          else if m mod 2 ^ nat (- e) = 0 then Some (m div 2 ^ nat (- e)) else None
      | _ \<Rightarrow> None)"

definition safe_integer :: "js_number \<Rightarrow> int option" where
  "safe_integer v =
     (case js_integer v of Some n \<Rightarrow> if \<bar>n\<bar> \<le> max_safe_integer then Some n else None | None \<Rightarrow> None)"

definition normalizeTimeout :: "js_number option \<Rightarrow> command_error + js_number option" where
  "normalizeTimeout value =
     (case value of
        None \<Rightarrow> Inr None
      | Some timeout \<Rightarrow>
          checkR (case timeout of Finite m e \<Rightarrow> m > 0 | _ \<Rightarrow> False)
            (worker_error ''invalid_request'' ''browser command timeoutMs must be positive'' ''startup'')
            (Inr (Some timeout)))"

definition terminalSizeValue :: "js_number \<Rightarrow> string \<Rightarrow> command_error + int" where
  "terminalSizeValue value field =
     (let bad = Inl (worker_error ''invalid_request''
                  (''browser terminal '' @ field @ '' must be a positive integer'') ''stdio'') in
      case safe_integer value of Some n \<Rightarrow> if n > 0 then Inr n else bad | None \<Rightarrow> bad)"

section \<open>Requests\<close>

record terminal_fields =
  tf_columns :: "js_number option"
  tf_cols :: "js_number option"
  tf_rows :: "js_number option"

record terminal_size =
  ts_columns :: "int option"
  ts_rows :: "int option"

definition map_option_R :: "('a \<Rightarrow> 'e + 'b) \<Rightarrow> 'a option \<Rightarrow> 'e + 'b option" where
  "map_option_R f v = (case v of None \<Rightarrow> Inr None | Some x \<Rightarrow> bindR (f x) (\<lambda>y. Inr (Some y)))"

definition normalizeInitialTerminal :: "terminal_fields option option \<Rightarrow> command_error + terminal_size" where
  "normalizeInitialTerminal value =
     (case value of
        None \<Rightarrow> Inr \<lparr>ts_columns = None, ts_rows = None\<rparr>
      | Some None \<Rightarrow>
          Inl (worker_error ''invalid_request'' ''browser command terminal must be an object'' ''startup'')
      | Some (Some t) \<Rightarrow>
          bindR (map_option_R (\<lambda>v. terminalSizeValue v ''columns'') (or_else (tf_columns t) (tf_cols t))) (\<lambda>columns.
          bindR (map_option_R (\<lambda>v. terminalSizeValue v ''rows'') (tf_rows t)) (\<lambda>rows.
          Inr \<lparr>ts_columns = columns, ts_rows = rows\<rparr>)))"

text \<open>\<open>Number(undefined)\<close> is \<open>NaN\<close>: a resize message must have both sizes.\<close>

definition terminalResizeFromMessage :: "terminal_fields \<Rightarrow> command_error + int \<times> int" where
  "terminalResizeFromMessage message =
     (let number = (\<lambda>v. case v of Some n \<Rightarrow> n | None \<Rightarrow> Not_a_number) in
      bindR (terminalSizeValue (number (or_else (tf_columns message) (tf_cols message))) ''columns'') (\<lambda>columns.
      bindR (terminalSizeValue (number (tf_rows message)) ''rows'') (\<lambda>rows.
      Inr (columns, rows))))"

definition normalizeStringList :: "string list option \<Rightarrow> string \<Rightarrow> command_error + string list" where
  "normalizeStringList value stage =
     (case value of
        Some xs \<Rightarrow> Inr xs
      | None \<Rightarrow> Inl (worker_error ''invalid_request'' ''browser command lists must be arrays of strings'' stage))"

definition normalizeEnv :: "(string \<times> string) list option \<Rightarrow> command_error + (string \<times> string) list" where
  "normalizeEnv value =
     (case value of
        Some entries \<Rightarrow> Inr entries
      | None \<Rightarrow> Inl (worker_error ''invalid_request'' ''browser command env must be an object'' ''startup''))"

text \<open>\<open>diagnostics\<close>: the flag \<open>unsupportedWasixCalls\<close> of an object, nothing when absent.\<close>

definition normalizeRunDiagnostics :: "bool option option \<Rightarrow> command_error + bool option" where
  "normalizeRunDiagnostics value =
     (case value of
        None \<Rightarrow> Inr None
      | Some (Some flag) \<Rightarrow> Inr (Some flag)
      | Some None \<Rightarrow>
          Inl (worker_error ''invalid_request'' ''browser command diagnostics must be an object'' ''startup''))"

definition normalizeChildOutputMode :: "string option \<Rightarrow> string \<Rightarrow> command_error + string" where
  "normalizeChildOutputMode value stream =
     (let mode = js_trim (case value of Some v \<Rightarrow> v | None \<Rightarrow> ''pipe'') in
      if mode = ''pipe'' \<or> mode = ''inherit'' then Inr mode
      else Inl (worker_error ''invalid_request''
             (''browser child command '' @ stream @ '' mode must be pipe or inherit'') ''startup''))"

datatype package_field = No_package | Null_package | Package string

definition DEFAULT_PACKAGE_ID :: string where "DEFAULT_PACKAGE_ID = ''default''"

definition package_of_field :: "package_field \<Rightarrow> command_error + string option" where
  "package_of_field value =
     (case value of
        Null_package \<Rightarrow> Inr None
      | Package id' \<Rightarrow> bindR (command_text id' ''startup'') (\<lambda>t. Inr (Some t))
      | No_package \<Rightarrow> bindR (command_text DEFAULT_PACKAGE_ID ''startup'') (\<lambda>t. Inr (Some t)))"

record run_fields =
  rf_args :: "string list option option"
  rf_command :: "string option"
  rf_cwd :: "string option"
  rf_diagnostics :: "bool option option"
  rf_env :: "(string \<times> string) list option option"
  rf_httpTransport :: "string option"
  rf_id :: "string option"
  rf_packageId :: package_field
  rf_stderr :: "string option"
  rf_stdin :: stdin_fields
  rf_stdinOpen :: "bool option"
  rf_stdout :: "string option"
  rf_terminal :: "terminal_fields option option"
  rf_timeoutMs :: "js_number option"
  rf_wasixExecArgv0 :: bool
  rf_workspaceSnapshot :: "snapshot option"

record command_run =
  cr_args :: "string list"
  cr_command :: string
  cr_cwd :: string
  cr_diagnostics :: "bool option"
  cr_env :: "(string \<times> string) list"
  cr_httpTransport :: "string option"
  cr_id :: string
  cr_initialStdin :: "byte list list"
  cr_packageId :: "string option"
  cr_stdinOpen :: bool
  cr_terminal :: terminal_size
  cr_timeoutMs :: "js_number option"

abbreviation (input) some_text :: "string option \<Rightarrow> string" where
  "some_text v \<equiv> (case v of Some t \<Rightarrow> t | None \<Rightarrow> [])"

definition field_or :: "'a option \<Rightarrow> 'a \<Rightarrow> 'a" where
  "field_or v d = (case v of Some x \<Rightarrow> x | None \<Rightarrow> d)"

text \<open>A message holds the run in \<open>run\<close>, or is the run; a few fields may stand beside \<open>run\<close>.\<close>

type_synonym run_message = "run_fields option \<times> run_fields"

definition message_run :: "run_message \<Rightarrow> run_fields" where
  "message_run message = field_or (fst message) (snd message)"

definition normalizeRunMessage :: "run_message \<Rightarrow> command_error + command_run" where
  "normalizeRunMessage message =
     (let run = message_run message; outer = snd message in
      bindR (command_text (some_text (or_else (rf_id run) (rf_id outer))) ''startup'') (\<lambda>id'.
      bindR (normalizeStringList (field_or (rf_args run) (Some [])) ''startup'') (\<lambda>args.
      bindR (command_text (some_text (rf_command run)) ''startup'') (\<lambda>command.
      bindR (command_text (field_or (rf_cwd run) ''/workspace'') ''startup'') (\<lambda>cwd.
      bindR (normalizeRunDiagnostics (or_else (rf_diagnostics run) (rf_diagnostics outer))) (\<lambda>diagnostics.
      bindR (normalizeEnv (field_or (rf_env run) (Some []))) (\<lambda>env.
      bindR (initialStdinChunks (rf_stdin run)) (\<lambda>chunks.
      bindR (package_of_field (rf_packageId run)) (\<lambda>packageId.
      bindR (normalizeInitialTerminal (or_else (rf_terminal run) (rf_terminal outer))) (\<lambda>terminal.
      bindR (normalizeTimeout (or_else (rf_timeoutMs run) (rf_timeoutMs outer))) (\<lambda>timeoutMs.
      Inr \<lparr>cr_args = args, cr_command = command, cr_cwd = cwd, cr_diagnostics = diagnostics, cr_env = env,
           cr_httpTransport = or_else (rf_httpTransport run) (rf_httpTransport outer), cr_id = id',
           cr_initialStdin = chunks, cr_packageId = packageId, cr_stdinOpen = (rf_stdinOpen run = Some True),
           cr_terminal = terminal, cr_timeoutMs = timeoutMs\<rparr>)))))))))))"

text \<open>The request of a child command takes what it leaves out from the run of its parent; the diagnostics of
  a parent without the flag are an object too, so the child gets the flag with \<open>False\<close>.\<close>

record child_run =
  ch_args :: "string list"
  ch_command :: string
  ch_cwd :: string
  ch_diagnostics :: "bool option"
  ch_env :: "(string \<times> string) list"
  ch_httpTransport :: "string option"
  ch_initialStdin :: "byte list list"
  ch_packageId :: "string option"
  ch_stderr :: string
  ch_stdout :: string
  ch_timeoutMs :: "js_number option"
  ch_wasixExecArgv0 :: bool
  ch_workspaceSnapshot :: "snapshot option"

record parent_run =
  pa_cwd :: string
  pa_diagnostics :: "bool option"
  pa_env :: "(string \<times> string) list"
  pa_httpTransport :: "string option"

definition parent_of_run :: "command_run \<Rightarrow> parent_run" where
  "parent_of_run run = \<lparr>pa_cwd = cr_cwd run, pa_diagnostics = cr_diagnostics run, pa_env = cr_env run,
     pa_httpTransport = cr_httpTransport run\<rparr>"

definition parent_of_child :: "child_run \<Rightarrow> parent_run" where
  "parent_of_child run = \<lparr>pa_cwd = ch_cwd run, pa_diagnostics = ch_diagnostics run, pa_env = ch_env run,
     pa_httpTransport = ch_httpTransport run\<rparr>"

definition normalizeChildCommandRequest :: "run_message \<Rightarrow> parent_run \<Rightarrow> command_error + child_run" where
  "normalizeChildCommandRequest message parentRun =
     (let run = message_run message in
      bindR (normalizeStringList (field_or (rf_args run) (Some [])) ''startup'') (\<lambda>args.
      bindR (command_text (some_text (rf_command run)) ''startup'') (\<lambda>command.
      bindR (command_text (field_or (rf_cwd run) (pa_cwd parentRun)) ''startup'') (\<lambda>cwd.
      bindR (normalizeRunDiagnostics (or_else (rf_diagnostics run) (Some (Some (pa_diagnostics parentRun = Some True))))) (\<lambda>diagnostics.
      bindR (normalizeEnv (field_or (rf_env run) (Some (pa_env parentRun)))) (\<lambda>env.
      bindR (initialStdinChunks (rf_stdin run)) (\<lambda>chunks.
      bindR (package_of_field (rf_packageId run)) (\<lambda>packageId.
      bindR (normalizeChildOutputMode (rf_stderr run) ''stderr'') (\<lambda>stderr.
      bindR (normalizeChildOutputMode (rf_stdout run) ''stdout'') (\<lambda>stdout.
      bindR (normalizeTimeout (rf_timeoutMs run)) (\<lambda>timeoutMs.
      Inr \<lparr>ch_args = args, ch_command = command, ch_cwd = cwd, ch_diagnostics = diagnostics, ch_env = env,
           ch_httpTransport = or_else (rf_httpTransport run) (pa_httpTransport parentRun),
           ch_initialStdin = chunks, ch_packageId = packageId, ch_stderr = stderr, ch_stdout = stdout,
           ch_timeoutMs = timeoutMs, ch_wasixExecArgv0 = rf_wasixExecArgv0 run,
           ch_workspaceSnapshot = rf_workspaceSnapshot run\<rparr>)))))))))))"

section \<open>Packages without bytes\<close>

record package_fields =
  pf_artifactKind :: "string option"
  pf_command :: "string option"
  pf_commands :: "string list option option"
  pf_contentSha256 :: "string option"
  pf_entrypoint :: "string option"
  pf_id :: "string option"
  pf_packageId :: "string option"
  pf_type :: "string option"

definition normalizePackage :: "package_fields option \<Rightarrow> command_error + command_package" where
  "normalizePackage value =
     (case value of
        None \<Rightarrow>
          Inl (worker_error ''invalid_request'' ''browser command package must be an object'' ''package_load'')
      | Some v \<Rightarrow>
          bindR (command_text (field_or (or_else (pf_id v) (pf_packageId v)) DEFAULT_PACKAGE_ID) ''package_load'') (\<lambda>id'.
          bindR (command_text (some_text (pf_type v)) ''package_load'') (\<lambda>type'.
          bindR (normalizeStringList (field_or (pf_commands v) (Some [field_or (pf_command v) type'])) ''package_load'') (\<lambda>commands.
          Inr \<lparr>pk_artifactKind = pf_artifactKind v, pk_commands = commands, pk_contentSha256 = pf_contentSha256 v,
               pk_entrypoint = or_else (pf_entrypoint v) (case commands of c # _ \<Rightarrow> Some c | [] \<Rightarrow> None),
               pk_id = id', pk_type = type'\<rparr>))))"

definition packageLoadKey :: "string option \<Rightarrow> string option \<Rightarrow> string" where
  "packageLoadKey id' packageId = field_or (or_else id' packageId) DEFAULT_PACKAGE_ID"

section \<open>Results\<close>

record command_result =
  rs_cancelled :: bool
  rs_exitCode :: "int option"
  rs_failureStage :: "string option"
  rs_stderrBytes :: int
  rs_stdoutBytes :: int
  rs_timedOut :: bool
  rs_diagnostics :: "diagnostic list option"

record error_payload =
  ep_kind :: string
  ep_message :: string
  ep_stage :: string
  ep_diagnostics :: "diagnostic list option"

text \<open>What an executor returns; \<open>None\<close> is \<open>undefined\<close>.\<close>

record executor_result =
  xr_exitCode :: "int option"
  xr_diagnostics :: "diagnostic list option"
  xr_workspaceSnapshot :: "snapshot option"

definition result_exit_code :: "executor_result option \<Rightarrow> int" where
  "result_exit_code result = (case result of Some r \<Rightarrow> field_or (xr_exitCode r) 0 | None \<Rightarrow> 0)"

definition result_diagnostics :: "executor_result option \<Rightarrow> diagnostic list option" where
  "result_diagnostics result = (case result of Some r \<Rightarrow> xr_diagnostics r | None \<Rightarrow> None)"

definition result_snapshot :: "executor_result option \<Rightarrow> snapshot option" where
  "result_snapshot result = (case result of Some r \<Rightarrow> xr_workspaceSnapshot r | None \<Rightarrow> None)"

definition completeResult :: "(string \<Rightarrow> string \<Rightarrow> int) \<Rightarrow> int \<times> int \<Rightarrow> executor_result option \<Rightarrow> command_result" where
  "completeResult collate written result =
     \<lparr>rs_cancelled = False, rs_exitCode = Some (result_exit_code result), rs_failureStage = None,
      rs_stderrBytes = snd written, rs_stdoutBytes = fst written, rs_timedOut = False,
      rs_diagnostics = commandResultDiagnostics collate (result_diagnostics result)\<rparr>"

definition errorResult :: "(string \<Rightarrow> string \<Rightarrow> int) \<Rightarrow> (int \<times> int) option \<Rightarrow> command_error \<Rightarrow> command_result" where
  "errorResult collate written e =
     \<lparr>rs_cancelled = er_cancelled e, rs_exitCode = er_exitCode e, rs_failureStage = Some (er_stage e),
      rs_stderrBytes = (case written of Some w \<Rightarrow> snd w | None \<Rightarrow> 0),
      rs_stdoutBytes = (case written of Some w \<Rightarrow> fst w | None \<Rightarrow> 0), rs_timedOut = er_timedOut e,
      rs_diagnostics = commandResultDiagnostics collate (er_diagnostics e)\<rparr>"

definition commandErrorPayload :: "(string \<Rightarrow> string \<Rightarrow> int) \<Rightarrow> command_error \<Rightarrow> error_payload" where
  "commandErrorPayload collate e =
     \<lparr>ep_kind = er_kind e, ep_message = er_message e, ep_stage = er_stage e,
      ep_diagnostics = commandResultDiagnostics collate (er_diagnostics e)\<rparr>"

record stdin_error_fields =
  se_kind :: "string option"
  se_message :: "string option"

definition errorFromStdinMessage :: "stdin_error_fields \<Rightarrow> command_error" where
  "errorFromStdinMessage e =
     (let text = (\<lambda>v d. case v of Some t \<Rightarrow> if t \<noteq> [] then t else d | None \<Rightarrow> d) in
      worker_error (text (se_kind e) ''transport'') (text (se_message e) ''browser command stdin producer failed'') ''stdio'')"

end
