(* ===== verification/Command_Worker.thy ===== *)
theory Command_Worker imports Command_Run begin

text \<open>
  \<open>BrowserCommandWorkerRuntime\<close> of \<open>apps/web/src/command-worker.js\<close>: a worker that loads packages and
  runs one command at a time for a client that sends messages. The functions of the runtime are
  asynchronous, so the model is a machine whose steps are the pieces between two \<open>await\<close>s: a message
  of the client, the settling of a load, of an executor or of the workspace store, a timer, or the
  continuation of a run. What the loaders, the executors and the store answer is in the events. Each
  posted message is kept with the run that posted it (a mark for the proofs, not part of the message).
  An executor writes and reads only until it settles.
\<close>

section \<open>State\<close>

datatype worker_post =
    Post_loaded string command_package
  | Post_catalog "string option" string "catalog_entry list"
  | Post_started string string string "string list" string
  | Post_output bool string "byte list"
  | Post_close bool string
  | Post_complete string command_result
  | Post_error "string option" error_payload command_result

record active_run =
  ar_id :: string
  ar_abortError :: "command_error option"
  ar_aborted :: "command_error option"
  ar_stderrBytes :: int
  ar_stderrClosed :: bool
  ar_stdin :: input_stream
  ar_terminal :: terminal_size
  ar_stdoutBytes :: int
  ar_stdoutClosed :: bool
  ar_timeout :: bool

definition createActiveRun :: "string \<Rightarrow> terminal_size \<Rightarrow> active_run" where
  "createActiveRun id' terminal =
     \<lparr>ar_id = id', ar_abortError = None, ar_aborted = None, ar_stderrBytes = 0, ar_stderrClosed = False,
      ar_stdin = new_stream, ar_terminal = terminal, ar_stdoutBytes = 0, ar_stdoutClosed = False,
      ar_timeout = False\<rparr>"

text \<open>How far \<open>runCommand\<close> has come: the \<open>await\<close> it is at. \<open>Resolving\<close> has the answer of \<open>packageForRun\<close>.\<close>

datatype run_stage =
    Resolving "thrown + string \<times> command_package"
  | Waiting_load nat
  | Exporting string command_package string
  | Executing bool
  | Importing "executor_result option"
  | Finished

datatype executor_state = Not_called | Running | Returned "thrown + executor_result option"

record executor_request =
  xq_args :: "string list"
  xq_command :: string
  xq_commandCatalog :: "catalog_entry list"
  xq_cwd :: string
  xq_diagnostics :: "bool option"
  xq_env :: "(string \<times> string) list"
  xq_httpTransportName :: string
  xq_package :: command_package
  xq_workspaceSnapshot :: "snapshot option"
  xq_workspaceStore :: bool

record run_task =
  rt_active :: active_run
  rt_run :: command_run
  rt_stage :: run_stage
  rt_executor :: executor_state
  rt_request :: "executor_request option"

record load_task =
  lo_key :: string
  lo_messageId :: "string option"
  lo_packageId :: "string option"
  lo_result :: "(thrown + command_package) option"

record worker =
  wk_packages :: packages
  wk_catalog :: catalog
  wk_packageLoads :: "(string \<times> nat) list"
  wk_loads :: "load_task list"
  wk_runs :: "run_task list"
  wk_activeRun :: "nat option"
  wk_listening :: bool
  wk_posts :: "(nat option \<times> worker_post) list"

text \<open>What the constructor is given: the executors, the HTTP transports, whether there is a store.\<close>

record worker_env =
  we_collate :: "string \<Rightarrow> string \<Rightarrow> int"
  we_executors :: "string list"
  we_httpTransports :: "string list"
  we_defaultHttpTransport :: string
  we_hasStore :: bool

definition new_worker :: worker where
  "new_worker =
     \<lparr>wk_packages = [], wk_catalog = [], wk_packageLoads = [], wk_loads = [], wk_runs = [],
      wk_activeRun = None, wk_listening = True, wk_posts = []\<rparr>"

definition post :: "nat option \<Rightarrow> worker_post \<Rightarrow> worker \<Rightarrow> worker" where
  "post i m s = s\<lparr>wk_posts := wk_posts s @ [(i, m)]\<rparr>"

definition update_run :: "nat \<Rightarrow> (run_task \<Rightarrow> run_task) \<Rightarrow> worker \<Rightarrow> worker" where
  "update_run i f s = s\<lparr>wk_runs := (wk_runs s)[i := f (wk_runs s ! i)]\<rparr>"

definition update_active :: "nat \<Rightarrow> (active_run \<Rightarrow> active_run) \<Rightarrow> worker \<Rightarrow> worker" where
  "update_active i f = update_run i (\<lambda>t. t\<lparr>rt_active := f (rt_active t)\<rparr>)"

definition goto_stage :: "nat \<Rightarrow> run_stage \<Rightarrow> worker \<Rightarrow> worker" where
  "goto_stage i st = update_run i (\<lambda>t. t\<lparr>rt_stage := st\<rparr>)"

abbreviation run_at :: "worker \<Rightarrow> nat \<Rightarrow> run_task" where "run_at s i \<equiv> wk_runs s ! i"
abbreviation active_at :: "worker \<Rightarrow> nat \<Rightarrow> active_run" where "active_at s i \<equiv> rt_active (wk_runs s ! i)"

section \<open>Errors and the end of a run\<close>

definition postCommandError :: "worker_env \<Rightarrow> string option \<Rightarrow> thrown \<Rightarrow> worker \<Rightarrow> worker" where
  "postCommandError env id' e =
     (let n = normalizeCommandError (we_collate env) e ''runtime'' in
      post None (Post_error id' (commandErrorPayload (we_collate env) n) (errorResult (we_collate env) None n)))"

definition abortRun :: "nat \<Rightarrow> command_error \<Rightarrow> worker \<Rightarrow> worker" where
  "abortRun i e =
     update_active i (\<lambda>a. a\<lparr>ar_abortError := Some e,
       ar_aborted := (case ar_aborted a of Some r \<Rightarrow> Some r | None \<Rightarrow> Some e),
       ar_stdin := stream_fail e (ar_stdin a)\<rparr>)"

definition normalizeRunError :: "worker_env \<Rightarrow> active_run \<Rightarrow> thrown \<Rightarrow> command_error" where
  "normalizeRunError env a e =
     (case (ar_aborted a, ar_abortError a) of
        (Some _, Some abortError) \<Rightarrow> abortError
      | _ \<Rightarrow> normalizeCommandError (we_collate env) e ''runtime'')"

text \<open>The stream with flag \<open>True\<close> is \<open>stdout\<close>.\<close>

definition postOutputStreamClose :: "nat \<Rightarrow> worker \<Rightarrow> worker" where
  "postOutputStreamClose i s =
     (let id' = ar_id (active_at s i);
          s1 = (if ar_stdoutClosed (active_at s i) then s
                else post (Some i) (Post_close True id') (update_active i (\<lambda>a. a\<lparr>ar_stdoutClosed := True\<rparr>) s)) in
      if ar_stderrClosed (active_at s1 i) then s1
      else post (Some i) (Post_close False id') (update_active i (\<lambda>a. a\<lparr>ar_stderrClosed := True\<rparr>) s1))"

definition written :: "active_run \<Rightarrow> int \<times> int" where
  "written a = (ar_stdoutBytes a, ar_stderrBytes a)"

definition end_run :: "nat \<Rightarrow> worker \<Rightarrow> worker" where
  "end_run i s =
     (let s = update_active i (\<lambda>a. a\<lparr>ar_timeout := False\<rparr>) (goto_stage i Finished s) in
      if wk_activeRun s = Some i then s\<lparr>wk_activeRun := None\<rparr> else s)"

definition fail_run :: "worker_env \<Rightarrow> nat \<Rightarrow> thrown \<Rightarrow> worker \<Rightarrow> worker" where
  "fail_run env i e s =
     (let n = normalizeRunError env (active_at s i) e;
          s = postOutputStreamClose i s;
          a = active_at s i in
      end_run i (post (Some i) (Post_error (Some (ar_id a)) (commandErrorPayload (we_collate env) n)
        (errorResult (we_collate env) (Some (written a)) n)) s))"

definition complete_run :: "worker_env \<Rightarrow> nat \<Rightarrow> executor_result option \<Rightarrow> worker \<Rightarrow> worker" where
  "complete_run env i result s =
     (let s = postOutputStreamClose i s;
          a = active_at s i in
      end_run i (post (Some i) (Post_complete (ar_id a) (completeResult (we_collate env) (written a) result)) s))"

section \<open>Loading packages\<close>

record load_message =
  lm_id :: "string option"
  lm_packageId :: "string option"
  lm_package :: "(string option \<times> string option) option"

definition loadPackage :: "worker_env \<Rightarrow> load_message \<Rightarrow> worker \<Rightarrow> worker" where
  "loadPackage env message s =
     (let value = field_or (lm_package message) (lm_id message, lm_packageId message);
          packageId = packageLoadKey (fst value) (snd value) in
      if map_has (wk_packageLoads s) packageId
      then postCommandError env (Some (field_or (lm_id message) packageId))
             (Worker_error (worker_error ''invalid_request''
               (''browser command package is already loading: '' @ packageId) ''package_load'')) s
      else s\<lparr>wk_packageLoads := AList.update packageId (length (wk_loads s)) (wk_packageLoads s),
             wk_loads := wk_loads s @ [\<lparr>lo_key = packageId, lo_messageId = lm_id message,
               lo_packageId = (case lm_package message of Some (id', _) \<Rightarrow> id' | None \<Rightarrow> None), lo_result = None\<rparr>]\<rparr>)"

definition load_settled :: "worker_env \<Rightarrow> nat \<Rightarrow> thrown + command_package \<Rightarrow> worker \<Rightarrow> worker" where
  "load_settled env k result s =
     (let task = wk_loads s ! k;
          s = s\<lparr>wk_loads := (wk_loads s)[k := task\<lparr>lo_result := Some result\<rparr>]\<rparr>;
          mine = (map_of (wk_packageLoads s) (lo_key task) = Some k);
          failed = (\<lambda>e. postCommandError env (or_else (lo_messageId task) (lo_packageId task)) e s);
          s' = (case result of
                  Inl e \<Rightarrow> failed e
                | Inr p \<Rightarrow>
                    if \<not> mine then s
                    else (case registerPackage p (wk_packages s, wk_catalog s) of
                            Inl e \<Rightarrow> failed (Worker_error e)
                          | Inr (packages, catalog) \<Rightarrow>
                              post None (Post_loaded (field_or (lo_messageId task) (pk_id p)) p)
                                (s\<lparr>wk_packages := packages, wk_catalog := catalog\<rparr>))) in
      if mine then s'\<lparr>wk_packageLoads := AList.delete (lo_key task) (wk_packageLoads s')\<rparr> else s')"

section \<open>Running a command\<close>

definition not_loaded :: "string \<Rightarrow> thrown" where
  "not_loaded id' = Worker_error (worker_error ''invalid_request''
     (''browser command package is not loaded: '' @ id') ''package_load'')"

definition loaded_package :: "worker \<Rightarrow> string \<Rightarrow> string \<Rightarrow> thrown + string \<times> command_package" where
  "loaded_package s command id' =
     (case map_of (wk_packages s) id' of Some p \<Rightarrow> Inr (command, p) | None \<Rightarrow> Inl (not_loaded id'))"

definition packageForRun :: "worker \<Rightarrow> string option \<Rightarrow> string \<Rightarrow> (string \<times> string) list \<Rightarrow> run_stage" where
  "packageForRun s packageId command env =
     (case packageId of
        None \<Rightarrow>
          Resolving (case catalog_resolve (wk_catalog s) command (map_of env ''PATH'') of
                       Inl e \<Rightarrow> Inl (Worker_error e)
                     | Inr entry \<Rightarrow> loaded_package s (ce_command entry) (ce_packageId entry))
      | Some id' \<Rightarrow>
          (case map_of (wk_packageLoads s) id' of
             Some k \<Rightarrow> Waiting_load k
           | None \<Rightarrow> Resolving (loaded_package s command id')))"

text \<open>The tables of executors and transports are plain objects: a name that every object inherits is found.\<close>

definition resolveExecutor :: "worker_env \<Rightarrow> string \<Rightarrow> command_error + unit" where
  "resolveExecutor env type' =
     checkR (type' \<in> set (we_executors env) \<or> type' \<in> set object_prototype_names)
       (worker_error ''unsupported_package'' (''unsupported browser package type: '' @ type') ''package_load'') (Inr ())"

definition resolveHttpTransport :: "worker_env \<Rightarrow> string option \<Rightarrow> command_error + string" where
  "resolveHttpTransport env name =
     (let transportName = field_or name (we_defaultHttpTransport env) in
      checkR (transportName \<in> set (we_httpTransports env) \<or> transportName \<in> set object_prototype_names)
        (worker_error ''invalid_request'' (''unknown HTTP bridge transport: '' @ transportName) ''startup'')
        (Inr transportName))"

definition isWorkspaceSnapshotPackageType :: "string \<Rightarrow> bool" where
  "isWorkspaceSnapshotPackageType type' \<longleftrightarrow> type' = ''webc-package'' \<or> type' = ''webc-wasix''"

definition workspaceStoreForPackage :: "worker_env \<Rightarrow> command_package \<Rightarrow> bool" where
  "workspaceStoreForPackage env p \<longleftrightarrow>
     (pk_type p = ''codex-browser'' \<or> pk_type p = ''browser-tool-fixture'') \<and> we_hasStore env"

definition workspaceSnapshotStoreForPackage :: "worker_env \<Rightarrow> command_package \<Rightarrow> bool" where
  "workspaceSnapshotStoreForPackage env p \<longleftrightarrow> isWorkspaceSnapshotPackageType (pk_type p) \<and> we_hasStore env"

definition call_executor :: "worker_env \<Rightarrow> nat \<Rightarrow> string \<Rightarrow> command_package \<Rightarrow> string \<Rightarrow> bool \<Rightarrow> snapshot option \<Rightarrow>
    worker \<Rightarrow> worker" where
  "call_executor env i command p http store sn s =
     update_run i (\<lambda>t. t\<lparr>rt_stage := Executing store, rt_executor := Running,
       rt_request := Some \<lparr>xq_args = cr_args (rt_run t), xq_command = command,
         xq_commandCatalog = catalog_entries (we_collate env) (wk_catalog s), xq_cwd = cr_cwd (rt_run t),
         xq_diagnostics = cr_diagnostics (rt_run t), xq_env = cr_env (rt_run t), xq_httpTransportName = http,
         xq_package = p, xq_workspaceSnapshot = sn, xq_workspaceStore = workspaceStoreForPackage env p\<rparr>\<rparr>) s"

definition start_run :: "worker_env \<Rightarrow> nat \<Rightarrow> string \<times> command_package \<Rightarrow> worker \<Rightarrow> worker" where
  "start_run env i resolution s =
     (let command = fst resolution; p = snd resolution; run = rt_run (run_at s i) in
      case bindR (resolveExecutor env (pk_type p)) (\<lambda>_. resolveHttpTransport env (cr_httpTransport run)) of
        Inl e \<Rightarrow> fail_run env i (Worker_error e) s
      | Inr http \<Rightarrow>
          (let s = post (Some i) (Post_started (cr_id run) (pk_id p) command (cr_args run) (cr_cwd run)) s in
           if workspaceSnapshotStoreForPackage env p then goto_stage i (Exporting command p http) s
           else call_executor env i command p http False None s))"

definition throw_reason :: "active_run \<Rightarrow> thrown" where
  "throw_reason a = Worker_error (field_or (ar_aborted a) cancelledError)"

text \<open>The continuation of a run that waits for its package or its executor, either raced with the abort signal.\<close>

definition resume :: "worker_env \<Rightarrow> nat \<Rightarrow> worker \<Rightarrow> worker" where
  "resume env i s =
     (let t = run_at s i; aborted = (ar_aborted (rt_active t) \<noteq> None);
          fail = (\<lambda>e. fail_run env i e s) in
      case rt_stage t of
        Resolving r \<Rightarrow>
          if aborted then fail (throw_reason (rt_active t))
          else (case r of Inl e \<Rightarrow> fail e | Inr resolution \<Rightarrow> start_run env i resolution s)
      | Waiting_load k \<Rightarrow>
          if aborted then fail (throw_reason (rt_active t))
          else (case lo_result (wk_loads s ! k) of
                  None \<Rightarrow> s
                | Some (Inl e) \<Rightarrow> fail e
                | Some (Inr _) \<Rightarrow>
                    (case loaded_package s (cr_command (rt_run t)) (some_text (cr_packageId (rt_run t))) of
                       Inl e \<Rightarrow> fail e
                     | Inr resolution \<Rightarrow> start_run env i resolution s))
      | Executing store \<Rightarrow>
          if aborted then fail (throw_reason (rt_active t))
          else (case rt_executor t of
                  Returned (Inl e) \<Rightarrow> fail e
                | Returned (Inr result) \<Rightarrow>
                    if store \<and> result_snapshot result \<noteq> None then goto_stage i (Importing result) s
                    else complete_run env i result s
                | _ \<Rightarrow> s)
      | _ \<Rightarrow> s)"

definition exported :: "worker_env \<Rightarrow> nat \<Rightarrow> thrown + snapshot \<Rightarrow> worker \<Rightarrow> worker" where
  "exported env i result s =
     (case rt_stage (run_at s i) of
        Exporting command p http \<Rightarrow>
          (case result of
             Inl e \<Rightarrow> fail_run env i e s
           | Inr sn \<Rightarrow> call_executor env i command p http True (Some sn) s)
      | _ \<Rightarrow> s)"

definition imported :: "worker_env \<Rightarrow> nat \<Rightarrow> thrown + unit \<Rightarrow> worker \<Rightarrow> worker" where
  "imported env i result s =
     (case rt_stage (run_at s i) of
        Importing r \<Rightarrow> (case result of Inl e \<Rightarrow> fail_run env i e s | Inr _ \<Rightarrow> complete_run env i r s)
      | _ \<Rightarrow> s)"

text \<open>\<open>CommandOutputWriter.write\<close>: after an abort it throws, and the executor keeps the error.\<close>

definition output_write :: "nat \<Rightarrow> bool \<Rightarrow> chunk_value \<Rightarrow> worker \<Rightarrow> (command_error + unit) \<times> worker" where
  "output_write i out chunk s =
     (case ar_aborted (active_at s i) of
        Some e \<Rightarrow> (Inl e, s)
      | None \<Rightarrow>
          (case toUint8Array chunk ''command output chunks must be bytes'' of
             Inl e \<Rightarrow> (Inl e, s)
           | Inr bytes \<Rightarrow>
               (Inr (), post (Some i) (Post_output out (ar_id (active_at s i)) bytes)
                 (update_active i (\<lambda>a. if out then a\<lparr>ar_stdoutBytes := ar_stdoutBytes a + int (length bytes)\<rparr>
                    else a\<lparr>ar_stderrBytes := ar_stderrBytes a + int (length bytes)\<rparr>) s))))"

definition runCommand :: "worker_env \<Rightarrow> run_message \<Rightarrow> worker \<Rightarrow> worker" where
  "runCommand env message s =
     (case normalizeRunMessage message of
        Inl e \<Rightarrow> postCommandError env (or_else (rf_id (snd message)) (rf_id (message_run message))) (Worker_error e) s
      | Inr run \<Rightarrow>
          if wk_activeRun s \<noteq> None
          then postCommandError env (Some (cr_id run)) (Worker_error (worker_error ''invalid_request''
                 ''another browser command is already running'' ''startup'')) s
          else (let a = createActiveRun (cr_id run) (cr_terminal run);
                    stdin = snd (enqueueInitialStdin (cr_initialStdin run) (ar_stdin a));
                    stdin = (if cr_stdinOpen run then stdin else snd (stream_end stdin));
                    a = a\<lparr>ar_stdin := stdin, ar_timeout := (cr_timeoutMs run \<noteq> None)\<rparr>;
                    st = packageForRun s (cr_packageId run) (cr_command run) (cr_env run) in
                s\<lparr>wk_activeRun := Some (length (wk_runs s)),
                  wk_runs := wk_runs s @ [\<lparr>rt_active = a, rt_run = run, rt_stage = st,
                    rt_executor = Not_called, rt_request = None\<rparr>]\<rparr>))"

section \<open>Messages about a run\<close>

definition cancel :: "string option \<Rightarrow> worker \<Rightarrow> worker" where
  "cancel id' s =
     (case wk_activeRun s of
        Some i \<Rightarrow> if Some (ar_id (active_at s i)) = id' then abortRun i cancelledError s else s
      | None \<Rightarrow> s)"

text \<open>
  \<open>activeRunForStdin\<close> and \<open>activeRunForTerminal\<close>: the active run, if the message is for it. A message
  without an id when no run is active is dropped without an error, because both are \<open>undefined\<close>.
\<close>

definition activeRunFor :: "worker_env \<Rightarrow> string \<Rightarrow> string option \<Rightarrow> worker \<Rightarrow> nat option \<times> worker" where
  "activeRunFor env what id' s =
     (if map_option (\<lambda>i. ar_id (active_at s i)) (wk_activeRun s) = id' then (wk_activeRun s, s)
      else (None, postCommandError env id' (Worker_error (worker_error ''invalid_request''
              (''unknown browser command '' @ what @ '' stream'') ''stdio'')) s))"

definition failStdin :: "nat \<Rightarrow> command_error \<Rightarrow> worker \<Rightarrow> worker" where
  "failStdin i e s =
     abortRun i e (update_active i (\<lambda>a. a\<lparr>ar_stdin := stream_fail e (ar_stdin a)\<rparr>) s)"

definition stdin_action :: "worker_env \<Rightarrow> string option \<Rightarrow> (input_stream \<Rightarrow> (command_error + unit) \<times> input_stream) \<Rightarrow>
    worker \<Rightarrow> worker" where
  "stdin_action env id' act s =
     (case activeRunFor env ''stdin'' id' s of
        (None, s) \<Rightarrow> s
      | (Some i, s) \<Rightarrow>
          (case act (ar_stdin (active_at s i)) of
             (Inl e, stdin) \<Rightarrow> failStdin i e (update_active i (\<lambda>a. a\<lparr>ar_stdin := stdin\<rparr>) s)
           | (Inr _, stdin) \<Rightarrow> update_active i (\<lambda>a. a\<lparr>ar_stdin := stdin\<rparr>) s))"

definition handleStdinChunk :: "worker_env \<Rightarrow> string option \<Rightarrow> stdin_message \<Rightarrow> worker \<Rightarrow> worker" where
  "handleStdinChunk env id' message =
     stdin_action env id' (\<lambda>stdin. case stdinChunkFromMessage message of
       Inl e \<Rightarrow> (Inl e, stdin) | Inr bytes \<Rightarrow> stream_push bytes stdin)"

definition handleStdinEnd :: "worker_env \<Rightarrow> string option \<Rightarrow> worker \<Rightarrow> worker" where
  "handleStdinEnd env id' = stdin_action env id' stream_end"

definition handleStdinError :: "worker_env \<Rightarrow> string option \<Rightarrow> stdin_error_fields \<Rightarrow> worker \<Rightarrow> worker" where
  "handleStdinError env id' e =
     stdin_action env id' (\<lambda>stdin. (Inl (errorFromStdinMessage e), stdin))"

definition handleTerminalResize :: "worker_env \<Rightarrow> string option \<Rightarrow> terminal_fields \<Rightarrow> worker \<Rightarrow> worker" where
  "handleTerminalResize env id' message s =
     (case activeRunFor env ''terminal'' id' s of
        (None, s) \<Rightarrow> s
      | (Some i, s) \<Rightarrow>
          (case terminalResizeFromMessage message of
             Inl e \<Rightarrow> postCommandError env id' (Worker_error e) s
           | Inr (columns, rows) \<Rightarrow>
               update_active i (\<lambda>a. a\<lparr>ar_terminal := \<lparr>ts_columns = Some columns, ts_rows = Some rows\<rparr>\<rparr>) s))"

definition postCommandCatalog :: "worker_env \<Rightarrow> string option \<Rightarrow> worker \<Rightarrow> worker" where
  "postCommandCatalog env id' s =
     post None (Post_catalog id' DEFAULT_COMMAND_PATH (catalog_entries (we_collate env) (wk_catalog s))) s"

datatype client_message =
    Cmd_load load_message
  | Cmd_run run_message
  | Cmd_catalog "string option"
  | Cmd_stdin "string option" stdin_message
  | Cmd_stdin_end "string option"
  | Cmd_stdin_error "string option" stdin_error_fields
  | Cmd_resize "string option" terminal_fields
  | Cmd_cancel "string option"

primrec handleMessage :: "worker_env \<Rightarrow> client_message \<Rightarrow> worker \<Rightarrow> worker" where
  "handleMessage env (Cmd_load message) = loadPackage env message"
| "handleMessage env (Cmd_run message) = runCommand env message"
| "handleMessage env (Cmd_catalog id') = postCommandCatalog env id'"
| "handleMessage env (Cmd_stdin id' message) = handleStdinChunk env id' message"
| "handleMessage env (Cmd_stdin_end id') = handleStdinEnd env id'"
| "handleMessage env (Cmd_stdin_error id' e) = handleStdinError env id' e"
| "handleMessage env (Cmd_resize id' message) = handleTerminalResize env id' message"
| "handleMessage env (Cmd_cancel id') = cancel id'"

definition start :: "worker \<Rightarrow> worker" where
  "start s = s\<lparr>wk_listening := True\<rparr>"

definition stop :: "worker \<Rightarrow> worker" where
  "stop s =
     (let s = s\<lparr>wk_listening := False\<rparr> in
      case wk_activeRun s of
        None \<Rightarrow> s
      | Some i \<Rightarrow>
          (update_active i (\<lambda>a. a\<lparr>ar_stdin := stream_fail cancelledError (ar_stdin a)\<rparr>) (abortRun i cancelledError s))
            \<lparr>wk_activeRun := None\<rparr>)"

section \<open>The machine\<close>

datatype worker_event =
    Client client_message
  | Load_settled nat "thrown + command_package"
  | Resume nat
  | Exported nat "thrown + snapshot"
  | Imported nat "thrown + unit"
  | Executor_writes nat bool chunk_value
  | Executor_reads nat
  | Executor_settles nat "thrown + executor_result option"
  | Timer nat
  | Start
  | Stop

text \<open>When an event can happen; otherwise it changes nothing.\<close>

definition executor_runs :: "worker \<Rightarrow> nat \<Rightarrow> bool" where
  "executor_runs s i \<longleftrightarrow> i < length (wk_runs s) \<and> rt_executor (run_at s i) = Running"

primrec enabled :: "worker_event \<Rightarrow> worker \<Rightarrow> bool" where
  "enabled (Client m) s \<longleftrightarrow> wk_listening s"
| "enabled (Load_settled k r) s \<longleftrightarrow> k < length (wk_loads s) \<and> lo_result (wk_loads s ! k) = None"
| "enabled (Resume i) s \<longleftrightarrow> i < length (wk_runs s)"
| "enabled (Exported i r) s \<longleftrightarrow> i < length (wk_runs s)"
| "enabled (Imported i r) s \<longleftrightarrow> i < length (wk_runs s)"
| "enabled (Executor_writes i out chunk) s \<longleftrightarrow> executor_runs s i"
| "enabled (Executor_reads i) s \<longleftrightarrow> executor_runs s i"
| "enabled (Executor_settles i r) s \<longleftrightarrow> executor_runs s i"
| "enabled (Timer i) s \<longleftrightarrow> i < length (wk_runs s) \<and> ar_timeout (active_at s i)"
| "enabled Start s \<longleftrightarrow> True"
| "enabled Stop s \<longleftrightarrow> True"

primrec perform :: "worker_env \<Rightarrow> worker_event \<Rightarrow> worker \<Rightarrow> worker" where
  "perform env (Client m) s = handleMessage env m s"
| "perform env (Load_settled k r) s = load_settled env k r s"
| "perform env (Resume i) s = resume env i s"
| "perform env (Exported i r) s = exported env i r s"
| "perform env (Imported i r) s = imported env i r s"
| "perform env (Executor_writes i out chunk) s = snd (output_write i out chunk s)"
| "perform env (Executor_reads i) s = update_active i (\<lambda>a. a\<lparr>ar_stdin := readChunk (ar_stdin a)\<rparr>) s"
| "perform env (Executor_settles i r) s = update_run i (\<lambda>t. t\<lparr>rt_executor := Returned r\<rparr>) s"
| "perform env (Timer i) s = abortRun i timeoutError (update_active i (\<lambda>a. a\<lparr>ar_timeout := False\<rparr>) s)"
| "perform env Start s = start s"
| "perform env Stop s = stop s"

definition worker_step :: "worker_env \<Rightarrow> worker_event \<Rightarrow> worker \<Rightarrow> worker" where
  "worker_step env ev s = (if enabled ev s then perform env ev s else s)"

definition run_worker :: "worker_env \<Rightarrow> worker_event list \<Rightarrow> worker \<Rightarrow> worker" where
  "run_worker env evs s = fold (worker_step env) evs s"

end
