(* ===== verification/Command_Protocol.thy ===== *)
theory Command_Protocol imports Command_Worker begin

text \<open>
  What a client of the command worker sees of a run, in any order of messages, timers and answers of
  executors: \<open>task_ok\<close> says which messages a run has posted at each stage, \<open>worker_ok\<close> says it of all
  runs, and each step of the worker keeps it. From it: the messages of a run that has ended are at most
  a start and its outputs in order, then one close of each stream and one result with the right byte
  counts; and a run that is stopped while it waits or runs ends with the error of the stop.
\<close>

section \<open>The messages of one run\<close>

definition posted_by :: "worker \<Rightarrow> nat \<Rightarrow> worker_post list" where
  "posted_by s i = map snd (filter (\<lambda>p. fst p = Some i) (wk_posts s))"

fun out_bytes :: "bool \<Rightarrow> worker_post list \<Rightarrow> byte list" where
  "out_bytes out [] = []"
| "out_bytes out (Post_output o' id' bytes # ms) = (if o' = out then bytes @ out_bytes out ms else out_bytes out ms)"
| "out_bytes out (m # ms) = out_bytes out ms"

fun is_output :: "string \<Rightarrow> worker_post \<Rightarrow> bool" where
  "is_output id' (Post_output out i bytes) \<longleftrightarrow> i = id'"
| "is_output id' m \<longleftrightarrow> False"

fun opened :: "string \<Rightarrow> worker_post list \<Rightarrow> bool" where
  "opened id' [] \<longleftrightarrow> True"
| "opened id' (Post_started i packageId command args cwd # ms) \<longleftrightarrow> i = id' \<and> list_all (is_output id') ms"
| "opened id' (m # ms) \<longleftrightarrow> False"

fun ending :: "string \<Rightarrow> worker_post \<Rightarrow> command_result option" where
  "ending id' (Post_complete i r) = (if i = id' then Some r else None)"
| "ending id' (Post_error i p r) = (if i = Some id' then Some r else None)"
| "ending id' m = None"

definition closing :: "string \<Rightarrow> worker_post \<Rightarrow> worker_post list" where
  "closing id' m = [Post_close True id', Post_close False id', m]"

definition open_ok :: "active_run \<Rightarrow> worker_post list \<Rightarrow> bool" where
  "open_ok a posts \<longleftrightarrow> opened (ar_id a) posts \<and> ar_stdoutBytes a = int (length (out_bytes True posts)) \<and>
     ar_stderrBytes a = int (length (out_bytes False posts))"

definition finished_ok :: "active_run \<Rightarrow> worker_post list \<Rightarrow> bool" where
  "finished_ok a posts \<longleftrightarrow>
     (\<exists>pre m r. posts = pre @ closing (ar_id a) m \<and> open_ok a pre \<and> ending (ar_id a) m = Some r \<and>
        rs_stdoutBytes r = ar_stdoutBytes a \<and> rs_stderrBytes r = ar_stderrBytes a)"

fun early :: "run_stage \<Rightarrow> bool" where
  "early (Resolving _) \<longleftrightarrow> True"
| "early (Waiting_load _) \<longleftrightarrow> True"
| "early _ \<longleftrightarrow> False"

definition task_ok :: "run_task \<Rightarrow> worker_post list \<Rightarrow> bool" where
  "task_ok t posts \<longleftrightarrow>
     (let a = rt_active t in
      (\<exists>acc. stream_ok (ar_stdin a) acc) \<and> ar_id a = cr_id (rt_run t) \<and>
      (ar_aborted a \<noteq> None \<longleftrightarrow> ar_abortError a \<noteq> None) \<and>
      (rt_executor t = Running \<longrightarrow> (\<exists>store. rt_stage t = Executing store) \<or> ar_aborted a \<noteq> None) \<and>
      (if rt_stage t = Finished then finished_ok a posts
       else open_ok a posts \<and> (posts = [] \<longleftrightarrow> early (rt_stage t)) \<and> \<not> ar_stdoutClosed a \<and> \<not> ar_stderrClosed a))"

section \<open>The invariant\<close>

definition worker_ok :: "worker \<Rightarrow> bool" where
  "worker_ok s \<longleftrightarrow>
     catalog_ok (wk_packages s, wk_catalog s) \<and>
     (\<forall>i<length (wk_runs s). task_ok (run_at s i) (posted_by s i) \<and>
        (rt_stage (run_at s i) = Finished \<or> wk_activeRun s = Some i \<or> ar_aborted (active_at s i) \<noteq> None)) \<and>
     (\<forall>i. wk_activeRun s = Some i \<longrightarrow> i < length (wk_runs s) \<and> rt_stage (run_at s i) \<noteq> Finished) \<and>
     (\<forall>i m. (Some i, m) \<in> set (wk_posts s) \<longrightarrow> i < length (wk_runs s))"

lemma worker_ok_task: "worker_ok s \<Longrightarrow> i < length (wk_runs s) \<Longrightarrow> task_ok (run_at s i) (posted_by s i)"
  by (simp add: worker_ok_def)

lemma posted_by_post [simp]: "posted_by (post j m s) i = posted_by s i @ (if j = Some i then [m] else [])"
  by (simp add: posted_by_def post_def)

lemma opened_append: "opened id' ms \<Longrightarrow> ms \<noteq> [] \<Longrightarrow> list_all (is_output id') ns \<Longrightarrow> opened id' (ms @ ns)"
  by (induction id' ms rule: opened.induct) auto

lemma out_bytes_append [simp]: "out_bytes out (ms @ ns) = out_bytes out ms @ out_bytes out ns"
  by (induction out ms rule: out_bytes.induct) auto

lemma open_ok_cong: "open_ok a posts \<Longrightarrow> ar_id a' = ar_id a \<Longrightarrow> ar_stdoutBytes a' = ar_stdoutBytes a \<Longrightarrow>
    ar_stderrBytes a' = ar_stderrBytes a \<Longrightarrow> open_ok a' posts"
  by (simp add: open_ok_def)

lemma finished_ok_cong: "finished_ok a posts \<Longrightarrow> ar_id a' = ar_id a \<Longrightarrow> ar_stdoutBytes a' = ar_stdoutBytes a \<Longrightarrow>
    ar_stderrBytes a' = ar_stderrBytes a \<Longrightarrow> finished_ok a' posts"
  by (simp add: finished_ok_def open_ok_def)

text \<open>A step of one run: a new task, and messages it posts. A run that ends is no longer the active one.\<close>

definition advance :: "nat \<Rightarrow> run_task \<Rightarrow> worker_post list \<Rightarrow> worker \<Rightarrow> worker" where
  "advance i t ms s =
     s\<lparr>wk_runs := (wk_runs s)[i := t], wk_posts := wk_posts s @ map (Pair (Some i)) ms,
       wk_activeRun := (if rt_stage t = Finished \<and> wk_activeRun s = Some i then None else wk_activeRun s)\<rparr>"

lemma posted_by_advance: "posted_by (advance i t ms s) j = posted_by s j @ (if j = i then ms else [])"
  by (auto simp: posted_by_def advance_def filter_map o_def)

lemma worker_ok_advance:
  assumes "worker_ok s" "i < length (wk_runs s)"
    and t: "task_ok t (posted_by s i @ ms)"
    and "rt_stage (run_at s i) = Finished \<Longrightarrow> rt_stage t = Finished"
    and "ar_aborted (active_at s i) \<noteq> None \<Longrightarrow> ar_aborted (rt_active t) \<noteq> None"
  shows "worker_ok (advance i t ms s)"
proof -
  have posts: "posted_by (advance i t ms s) j = posted_by s j @ (if j = i then ms else [])" for j
    by (rule posted_by_advance)
  have fields: "wk_runs (advance i t ms s) = (wk_runs s)[i := t]" "wk_packages (advance i t ms s) = wk_packages s"
    "wk_catalog (advance i t ms s) = wk_catalog s"
    "wk_activeRun (advance i t ms s) = (if rt_stage t = Finished \<and> wk_activeRun s = Some i then None else wk_activeRun s)"
    "set (wk_posts (advance i t ms s)) = set (wk_posts s) \<union> Pair (Some i) ` set ms"
    by (simp_all add: advance_def)
  show ?thesis
    using assms unfolding worker_ok_def posts fields
    by (auto simp: nth_list_update split: if_splits)
qed

text \<open>Changes of a run that its client does not see.\<close>

definition harmless :: "active_run \<Rightarrow> active_run \<Rightarrow> bool" where
  "harmless a a' \<longleftrightarrow>
     ar_id a' = ar_id a \<and> ar_stdoutBytes a' = ar_stdoutBytes a \<and> ar_stderrBytes a' = ar_stderrBytes a \<and>
     ar_stdoutClosed a' = ar_stdoutClosed a \<and> ar_stderrClosed a' = ar_stderrClosed a \<and>
     (ar_aborted a \<noteq> None \<longrightarrow> ar_aborted a' \<noteq> None) \<and>
     ((ar_aborted a \<noteq> None \<longleftrightarrow> ar_abortError a \<noteq> None) \<longrightarrow> (ar_aborted a' \<noteq> None \<longleftrightarrow> ar_abortError a' \<noteq> None)) \<and>
     ((\<exists>acc. stream_ok (ar_stdin a) acc) \<longrightarrow> (\<exists>acc. stream_ok (ar_stdin a') acc))"

lemma harmless_task:
  assumes "task_ok t posts" "harmless (rt_active t) a"
  shows "task_ok (t\<lparr>rt_active := a\<rparr>) posts"
  using assms unfolding task_ok_def harmless_def Let_def
  by (auto elim!: open_ok_cong finished_ok_cong)

lemma worker_ok_harmless:
  assumes "worker_ok s" "i < length (wk_runs s)" "harmless (active_at s i) (f (active_at s i))"
  shows "worker_ok (update_active i f s)"
proof -
  let ?t = "(run_at s i)\<lparr>rt_active := f (active_at s i)\<rparr>"
  have "update_active i f s = advance i ?t [] s"
    using assms(1,2) by (auto simp: update_active_def update_run_def advance_def worker_ok_def)
  moreover have "worker_ok (advance i ?t [] s)"
    using assms(3) harmless_task [OF worker_ok_task [OF assms(1,2)]]
    by (intro worker_ok_advance assms(1,2)) (auto simp: harmless_def)
  ultimately show ?thesis by simp
qed

section \<open>The end of a run\<close>

definition ended :: "run_task \<Rightarrow> run_task" where
  "ended t = t\<lparr>rt_stage := Finished,
     rt_active := (rt_active t)\<lparr>ar_stdoutClosed := True, ar_stderrClosed := True, ar_timeout := False\<rparr>\<rparr>"

lemma fail_run_advance:
  assumes "i < length (wk_runs s)" "\<not> ar_stdoutClosed (active_at s i)" "\<not> ar_stderrClosed (active_at s i)"
  shows "fail_run env i e s =
    (let a = active_at s i; n = normalizeRunError env a e in
     advance i (ended (run_at s i)) (closing (ar_id a) (Post_error (Some (ar_id a)) (commandErrorPayload (we_collate env) n)
       (errorResult (we_collate env) (Some (written a)) n))) s)"
  using assms
  by (intro worker.equality) (simp_all add: fail_run_def postOutputStreamClose_def end_run_def goto_stage_def update_active_def update_run_def
      post_def advance_def ended_def closing_def written_def Let_def)

lemma complete_run_advance:
  assumes "i < length (wk_runs s)" "\<not> ar_stdoutClosed (active_at s i)" "\<not> ar_stderrClosed (active_at s i)"
  shows "complete_run env i result s =
    (let a = active_at s i in
     advance i (ended (run_at s i)) (closing (ar_id a)
       (Post_complete (ar_id a) (completeResult (we_collate env) (written a) result))) s)"
  using assms
  by (intro worker.equality) (simp_all add: complete_run_def postOutputStreamClose_def end_run_def goto_stage_def update_active_def update_run_def
      post_def advance_def ended_def closing_def written_def Let_def)

lemma ended_ok:
  assumes "task_ok t posts" "rt_stage t \<noteq> Finished" "ending (ar_id (rt_active t)) m = Some r"
    and "rs_stdoutBytes r = ar_stdoutBytes (rt_active t)" "rs_stderrBytes r = ar_stderrBytes (rt_active t)"
    and "rt_executor t = Running \<Longrightarrow> ar_aborted (rt_active t) \<noteq> None"
  shows "task_ok (ended t) (posts @ closing (ar_id (rt_active t)) m)"
proof -
  have "open_ok (rt_active t) posts" using assms(1,2) by (simp add: task_ok_def Let_def)
  then have "open_ok (rt_active (ended t)) posts" by (rule open_ok_cong) (simp_all add: ended_def)
  then have "finished_ok (rt_active (ended t)) (posts @ closing (ar_id (rt_active t)) m)"
    using assms(3-5) unfolding finished_ok_def by (intro exI [of _ posts] exI [of _ m] exI [of _ r]) (simp add: ended_def)
  with assms show ?thesis by (simp add: task_ok_def Let_def ended_def)
qed

lemma worker_ok_ended:
  assumes "worker_ok s" "i < length (wk_runs s)" "rt_stage (run_at s i) \<noteq> Finished"
    and "ending (ar_id (active_at s i)) m = Some r"
    and "rs_stdoutBytes r = ar_stdoutBytes (active_at s i)" "rs_stderrBytes r = ar_stderrBytes (active_at s i)"
    and "rt_executor (run_at s i) = Running \<Longrightarrow> ar_aborted (active_at s i) \<noteq> None"
  shows "worker_ok (advance i (ended (run_at s i)) (closing (ar_id (active_at s i)) m) s)"
  by (rule worker_ok_advance [OF assms(1,2) ended_ok [OF worker_ok_task [OF assms(1,2)] assms(3-7)]])
    (simp_all add: ended_def)

lemma open_streams:
  assumes "worker_ok s" "i < length (wk_runs s)" "rt_stage (run_at s i) \<noteq> Finished"
  shows "\<not> ar_stdoutClosed (active_at s i)" "\<not> ar_stderrClosed (active_at s i)"
  using worker_ok_task [OF assms(1,2)] assms(3) by (simp_all add: task_ok_def Let_def)

lemma fail_run_ok:
  assumes "worker_ok s" "i < length (wk_runs s)" "rt_stage (run_at s i) \<noteq> Finished"
    and "rt_executor (run_at s i) = Running \<Longrightarrow> ar_aborted (active_at s i) \<noteq> None"
  shows "worker_ok (fail_run env i e s)"
  unfolding fail_run_advance [OF assms(2) open_streams [OF assms(1-3)]] Let_def
  by (rule worker_ok_ended [OF assms(1-3)]) ((use assms(4) in \<open>simp_all add: errorResult_def written_def\<close>)+)

lemma complete_run_ok:
  assumes "worker_ok s" "i < length (wk_runs s)" "rt_stage (run_at s i) \<noteq> Finished"
    and "rt_executor (run_at s i) = Running \<Longrightarrow> ar_aborted (active_at s i) \<noteq> None"
  shows "worker_ok (complete_run env i result s)"
  unfolding complete_run_advance [OF assms(2) open_streams [OF assms(1-3)]] Let_def
  by (rule worker_ok_ended [OF assms(1-3)]) ((use assms(4) in \<open>simp_all add: completeResult_def written_def\<close>)+)

section \<open>The steps keep the invariant\<close>

lemma not_running:
  assumes "worker_ok s" "i < length (wk_runs s)" "\<And>store. rt_stage (run_at s i) \<noteq> Executing store"
  shows "rt_executor (run_at s i) = Running \<Longrightarrow> ar_aborted (active_at s i) \<noteq> None"
  using worker_ok_task [OF assms(1,2)] assms(3) by (auto simp: task_ok_def Let_def)

lemma update_run_advance:
  assumes "worker_ok s" "i < length (wk_runs s)" "rt_stage (f (run_at s i)) \<noteq> Finished"
  shows "update_run i f s = advance i (f (run_at s i)) [] s"
  using assms by (auto simp: update_run_def advance_def)

lemma call_executor_ok:
  assumes "worker_ok s" "i < length (wk_runs s)" "rt_stage (run_at s i) \<noteq> Finished" "posted_by s i \<noteq> []"
  shows "worker_ok (call_executor env i command p http store sn s)"
  unfolding call_executor_def
  by (subst update_run_advance [OF assms(1,2)], simp, rule worker_ok_advance [OF assms(1,2)])
    (use worker_ok_task [OF assms(1,2)] assms(3,4) in \<open>auto simp: task_ok_def Let_def\<close>)

lemma post_run_ok:
  assumes "worker_ok s" "i < length (wk_runs s)" "task_ok (run_at s i) (posted_by s i @ [m])"
  shows "worker_ok (post (Some i) m s)"
proof -
  have "rt_stage (run_at s i) = Finished \<Longrightarrow> wk_activeRun s \<noteq> Some i"
    using assms(1) by (auto simp: worker_ok_def)
  then have "post (Some i) m s = advance i (run_at s i) [m] s"
    using assms(2) by (auto simp: post_def advance_def)
  then show ?thesis using worker_ok_advance [OF assms(1,2), of "run_at s i" "[m]"] assms(3) by simp
qed

lemma started_ok:
  assumes "worker_ok s" "i < length (wk_runs s)" "early (rt_stage (run_at s i))"
    and "rt_active t = active_at s i" "rt_run t = rt_run (run_at s i)" "\<not> early (rt_stage t)" "rt_stage t \<noteq> Finished"
    and "rt_executor t = Running \<Longrightarrow> (\<exists>store. rt_stage t = Executing store) \<or> ar_aborted (rt_active t) \<noteq> None"
  shows "worker_ok (advance i t [Post_started (cr_id (rt_run t)) packageId command args cwd] s)"
proof (rule worker_ok_advance [OF assms(1,2)])
  have old: "task_ok (run_at s i) (posted_by s i)" by (rule worker_ok_task [OF assms(1,2)])
  moreover have "rt_stage (run_at s i) \<noteq> Finished" using assms(3) by auto
  ultimately have "posted_by s i = []" "open_ok (active_at s i) []" "ar_id (active_at s i) = cr_id (rt_run t)"
    using assms(3,5) by (auto simp: task_ok_def Let_def)
  moreover from this have "open_ok (active_at s i) [Post_started (cr_id (rt_run t)) packageId command args cwd]"
    by (simp add: open_ok_def)
  ultimately show "task_ok t (posted_by s i @ [Post_started (cr_id (rt_run t)) packageId command args cwd])"
    using old assms(3-8) \<open>rt_stage (run_at s i) \<noteq> Finished\<close> by (simp add: task_ok_def Let_def)
qed (use assms in auto)

lemma start_run_ok:
  assumes "worker_ok s" "i < length (wk_runs s)" "early (rt_stage (run_at s i))"
  shows "worker_ok (start_run env i resolution s)"
proof -
  let ?run = "rt_run (run_at s i)"
  have open': "rt_stage (run_at s i) \<noteq> Finished" "\<And>store. rt_stage (run_at s i) \<noteq> Executing store"
    using assms(3) by auto
  note fail = fail_run_ok [OF assms(1,2) open'(1) not_running [OF assms(1,2) open'(2)]]
  have exporting: "worker_ok (goto_stage i (Exporting command p http)
      (post (Some i) (Post_started (cr_id ?run) packageId command args cwd) s))" for command p http packageId args cwd
  proof -
    let ?t = "(run_at s i)\<lparr>rt_stage := Exporting command p http\<rparr>"
    have "goto_stage i (Exporting command p http) (post (Some i) (Post_started (cr_id ?run) packageId command args cwd) s) =
        advance i ?t [Post_started (cr_id (rt_run ?t)) packageId command args cwd] s"
      by (intro worker.equality) (simp_all add: goto_stage_def update_run_def post_def advance_def)
    also have "worker_ok \<dots>"
      by (rule started_ok [OF assms]) (use not_running [OF assms(1,2) open'(2)] in auto)
    finally show ?thesis .
  qed
  have executing: "worker_ok (call_executor env i command p http False None
      (post (Some i) (Post_started (cr_id ?run) packageId command args cwd) s))" for command p http packageId args cwd
  proof -
    let ?t = "(run_at s i)\<lparr>rt_stage := Executing False, rt_executor := Running,
       rt_request := Some \<lparr>xq_args = cr_args ?run, xq_command = command,
         xq_commandCatalog = catalog_entries (we_collate env) (wk_catalog s), xq_cwd = cr_cwd ?run,
         xq_diagnostics = cr_diagnostics ?run, xq_env = cr_env ?run, xq_httpTransportName = http,
         xq_package = p, xq_workspaceSnapshot = None, xq_workspaceStore = workspaceStoreForPackage env p\<rparr>\<rparr>"
    have "call_executor env i command p http False None (post (Some i) (Post_started (cr_id ?run) packageId command args cwd) s) =
        advance i ?t [Post_started (cr_id (rt_run ?t)) packageId command args cwd] s"
      by (intro worker.equality) (simp_all add: call_executor_def update_run_def post_def advance_def)
    also have "worker_ok \<dots>" by (rule started_ok [OF assms]) auto
    finally show ?thesis .
  qed
  show ?thesis
    unfolding start_run_def Let_def by (auto split: sum.splits intro: fail exporting executing)
qed

lemma goto_importing_ok:
  assumes "worker_ok s" "i < length (wk_runs s)" "rt_stage (run_at s i) = Executing store" "rt_executor (run_at s i) \<noteq> Running"
  shows "worker_ok (goto_stage i (Importing r) s)"
  unfolding goto_stage_def
  by (subst update_run_advance [OF assms(1,2)], simp, rule worker_ok_advance [OF assms(1,2)])
    (use worker_ok_task [OF assms(1,2)] assms(3,4) in \<open>auto simp: task_ok_def Let_def\<close>)

lemma resume_ok:
  assumes "worker_ok s" "i < length (wk_runs s)"
  shows "worker_ok (resume env i s)"
proof (cases "rt_stage (run_at s i)")
  case (Resolving r)
  show ?thesis using assms Resolving
    by (auto simp: resume_def Let_def split: sum.splits intro!: fail_run_ok start_run_ok dest: not_running [OF assms, rotated])
next
  case (Waiting_load k)
  show ?thesis using assms Waiting_load
    by (auto simp: resume_def Let_def split: sum.splits option.splits intro!: fail_run_ok start_run_ok dest: not_running [OF assms, rotated])
next
  case (Executing store)
  show ?thesis using assms Executing
    by (auto simp: resume_def Let_def split: executor_state.splits sum.splits
        intro!: fail_run_ok complete_run_ok goto_importing_ok)
qed (simp_all add: resume_def assms(1) Let_def)

lemma exported_ok:
  assumes "worker_ok s" "i < length (wk_runs s)"
  shows "worker_ok (exported env i r s)"
proof (cases "rt_stage (run_at s i)")
  case (Exporting command p http)
  then have "posted_by s i \<noteq> []" using worker_ok_task [OF assms] by (auto simp: task_ok_def Let_def)
  then show ?thesis using assms Exporting
    by (auto simp: exported_def split: sum.splits intro!: fail_run_ok call_executor_ok dest: not_running [OF assms, rotated])
qed (simp_all add: exported_def assms(1))

lemma imported_ok:
  assumes "worker_ok s" "i < length (wk_runs s)"
  shows "worker_ok (imported env i r s)"
proof (cases "rt_stage (run_at s i)")
  case (Importing res)
  then show ?thesis using assms
    by (auto simp: imported_def split: sum.splits intro!: fail_run_ok complete_run_ok dest: not_running [OF assms, rotated])
qed (simp_all add: imported_def assms(1))

lemma output_write_ok:
  assumes "worker_ok s" "executor_runs s i"
  shows "worker_ok (snd (output_write i out chunk s))"
proof -
  have i: "i < length (wk_runs s)" using assms(2) by (simp add: executor_runs_def)
  note old = worker_ok_task [OF assms(1) i]
  show ?thesis
  proof (cases "ar_aborted (active_at s i)")
    case None
    then have st: "\<exists>store. rt_stage (run_at s i) = Executing store"
      using old assms(2) by (auto simp: task_ok_def Let_def executor_runs_def)
    then have p: "posted_by s i \<noteq> []" "open_ok (active_at s i) (posted_by s i)"
      using old by (auto simp: task_ok_def Let_def)
    show ?thesis
    proof (cases "toUint8Array chunk ''command output chunks must be bytes''")
      case (Inr bytes)
      let ?a = "(if out then (\<lambda>a. a\<lparr>ar_stdoutBytes := ar_stdoutBytes a + int (length bytes)\<rparr>)
                 else (\<lambda>a. a\<lparr>ar_stderrBytes := ar_stderrBytes a + int (length bytes)\<rparr>)) (active_at s i)"
      let ?t = "(run_at s i)\<lparr>rt_active := ?a\<rparr>" and ?m = "Post_output out (ar_id (active_at s i)) bytes"
      have "snd (output_write i out chunk s) = advance i ?t [?m] s"
        using None Inr i st
        by (intro worker.equality) (auto simp: output_write_def update_active_def update_run_def post_def advance_def)
      moreover have "open_ok ?a (posted_by s i @ [?m])"
        using p opened_append [of "ar_id (active_at s i)" "posted_by s i" "[?m]"] by (cases out) (simp_all add: open_ok_def)
      then have "worker_ok (advance i ?t [?m] s)"
        using old st p(1) by (intro worker_ok_advance [OF assms(1) i]) (auto simp: task_ok_def Let_def)
      ultimately show ?thesis by simp
    qed (simp add: output_write_def None assms(1))
  qed (simp add: output_write_def assms(1))
qed

lemma harmless_fail: "harmless a (a\<lparr>ar_stdin := stream_fail e (ar_stdin a)\<rparr>)"
  using stream_fail_ok by (auto simp: harmless_def)

lemma harmless_abort:
  "harmless a (a\<lparr>ar_abortError := Some e, ar_aborted := (case ar_aborted a of Some r \<Rightarrow> Some r | None \<Rightarrow> Some e),
     ar_stdin := stream_fail e (ar_stdin a)\<rparr>)"
  using stream_fail_ok by (auto simp: harmless_def split: option.splits)

lemma length_runs [simp]:
  "length (wk_runs (update_active i f s)) = length (wk_runs s)"
  "length (wk_runs (post j m s)) = length (wk_runs s)"
  "length (wk_runs (abortRun i e s)) = length (wk_runs s)"
  by (simp_all add: update_active_def update_run_def post_def abortRun_def)

lemma abortRun_ok: "worker_ok s \<Longrightarrow> i < length (wk_runs s) \<Longrightarrow> worker_ok (abortRun i e s)"
  unfolding abortRun_def by (rule worker_ok_harmless) (simp_all add: harmless_abort)

lemma post_other_ok: "worker_ok s \<Longrightarrow> worker_ok (post None m s)"
  by (auto simp: worker_ok_def) (auto simp: post_def)

lemma postCommandError_ok: "worker_ok s \<Longrightarrow> worker_ok (postCommandError env id' e s)"
  by (simp add: postCommandError_def Let_def post_other_ok)

lemma worker_ok_packages:
  "worker_ok s \<Longrightarrow> catalog_ok (p, c) \<Longrightarrow> worker_ok (s\<lparr>wk_packages := p, wk_catalog := c\<rparr>)"
  by (simp add: worker_ok_def posted_by_def)

lemma worker_ok_loads:
  "worker_ok (s\<lparr>wk_packageLoads := m, wk_loads := l\<rparr>) = worker_ok s"
  "worker_ok (s\<lparr>wk_packageLoads := m\<rparr>) = worker_ok s" "worker_ok (s\<lparr>wk_loads := l\<rparr>) = worker_ok s"
  "worker_ok (s\<lparr>wk_listening := b\<rparr>) = worker_ok s"
  by (simp_all add: worker_ok_def posted_by_def)

lemma loadPackage_ok: "worker_ok s \<Longrightarrow> worker_ok (loadPackage env m s)"
  by (simp add: loadPackage_def Let_def postCommandError_ok worker_ok_loads)

lemma load_settled_ok:
  assumes "worker_ok s"
  shows "worker_ok (load_settled env k r s)"
proof -
  have "catalog_ok pc" if "registerPackage p (wk_packages s, wk_catalog s) = Inr pc" for p pc
    using registerPackage_ok [OF _ that] assms by (simp add: worker_ok_def)
  then show ?thesis using assms
    by (auto simp: load_settled_def Let_def worker_ok_loads
        intro!: postCommandError_ok post_other_ok worker_ok_packages split: sum.splits prod.splits)
qed

lemma new_task_ok:
  assumes "\<exists>acc. stream_ok stdin acc" "early st"
  shows "task_ok \<lparr>rt_active = (createActiveRun (cr_id run) terminal)\<lparr>ar_stdin := stdin, ar_timeout := timeout\<rparr>,
    rt_run = run, rt_stage = st, rt_executor = Not_called, rt_request = None\<rparr> []"
  using assms by (auto simp: task_ok_def Let_def createActiveRun_def open_ok_def)

lemma enqueue_ok: "stream_ok s acc \<Longrightarrow> \<exists>acc'. stream_ok (snd (enqueueInitialStdin chunks s)) acc'"
proof (induction chunks arbitrary: s acc)
  case (Cons chunk chunks)
  then show ?case using stream_push_ok [of s acc chunk] by (auto split: prod.splits sum.splits)
qed auto

lemma packageForRun_early: "early (packageForRun s packageId command env)"
  by (auto simp: packageForRun_def split: option.splits)

lemma runCommand_ok:
  assumes "worker_ok s"
  shows "worker_ok (runCommand env m s)"
proof (cases "normalizeRunMessage m")
  case (Inr run)
  show ?thesis
  proof (cases "wk_activeRun s")
    case None
    let ?stdin0 = "snd (enqueueInitialStdin (cr_initialStdin run) new_stream)"
    let ?stdin = "if cr_stdinOpen run then ?stdin0 else snd (stream_end ?stdin0)"
    let ?t = "\<lparr>rt_active = (createActiveRun (cr_id run) (cr_terminal run))
        \<lparr>ar_stdin := ?stdin, ar_timeout := (cr_timeoutMs run \<noteq> None)\<rparr>, rt_run = run,
        rt_stage = packageForRun s (cr_packageId run) (cr_command run) (cr_env run), rt_executor = Not_called, rt_request = None\<rparr>"
    have run: "runCommand env m s = s\<lparr>wk_activeRun := Some (length (wk_runs s)), wk_runs := wk_runs s @ [?t]\<rparr>"
      using Inr None by (simp add: runCommand_def Let_def createActiveRun_def)
    have "\<exists>acc. stream_ok ?stdin acc"
      using enqueue_ok [OF new_stream_ok] stream_end_ok by (auto split: if_splits) blast+
    then have t: "task_ok ?t []" by (rule new_task_ok) (rule packageForRun_early)
    have fresh: "posted_by s (length (wk_runs s)) = []"
      using assms by (fastforce simp: worker_ok_def posted_by_def filter_empty_conv)
    have "rt_stage ?t \<noteq> Finished" using packageForRun_early by (metis early.simps(6) run_task.select_convs(3))
    then show ?thesis unfolding run
      using assms t fresh by (auto simp: worker_ok_def posted_by_def nth_append less_Suc_eq None)
  qed (simp add: runCommand_def Inr postCommandError_ok assms)
qed (simp add: runCommand_def postCommandError_ok assms)

lemma active_in: "worker_ok s \<Longrightarrow> wk_activeRun s = Some i \<Longrightarrow> i < length (wk_runs s)"
  by (simp add: worker_ok_def)

lemma activeRunFor_ok:
  assumes "worker_ok s" "activeRunFor env what id' s = (r, s')"
  shows "worker_ok s'" "\<And>i. r = Some i \<Longrightarrow> i < length (wk_runs s') \<and> s' = s"
  using assms active_in by (auto simp: activeRunFor_def postCommandError_ok split: if_splits)

lemma stdin_action_ok:
  assumes "worker_ok s"
    and act: "\<And>stdin acc. stream_ok stdin acc \<Longrightarrow> \<exists>acc'. stream_ok (snd (act stdin)) acc'"
  shows "worker_ok (stdin_action env id' act s)"
proof -
  have upd: "worker_ok (update_active i (\<lambda>a. a\<lparr>ar_stdin := snd (act (ar_stdin (active_at s i)))\<rparr>) s)"
    if "i < length (wk_runs s)" for i
    by (rule worker_ok_harmless [OF assms(1) that]) (use act in \<open>auto simp: harmless_def\<close>)
  show ?thesis
  proof (cases "activeRunFor env ''stdin'' id' s")
    case (Pair r s')
    note ok = activeRunFor_ok [OF assms(1) Pair]
    show ?thesis
    proof (cases r)
      case None
      then show ?thesis using Pair ok(1) by (simp add: stdin_action_def)
    next
      case (Some i)
      then have i: "i < length (wk_runs s)" "s' = s" using ok(2) by auto
      obtain res stdin where act': "act (ar_stdin (active_at s i)) = (res, stdin)" by fastforce
      then show ?thesis using Pair Some i upd [OF i(1)]
        by (auto simp: stdin_action_def failStdin_def harmless_fail split: sum.splits intro!: abortRun_ok worker_ok_harmless)
    qed
  qed
qed

lemma push_message_ok:
  "stream_ok stdin acc \<Longrightarrow>
   \<exists>acc'. stream_ok (snd (case stdinChunkFromMessage m of Inl e \<Rightarrow> (Inl e, stdin) | Inr bytes \<Rightarrow> stream_push bytes stdin)) acc'"
  using stream_push_ok by (auto split: sum.splits)

lemma harmless_simps:
  "harmless a (a\<lparr>ar_terminal := t\<rparr>)" "harmless a (a\<lparr>ar_timeout := b\<rparr>)" "harmless a (a\<lparr>ar_stdin := readChunk (ar_stdin a)\<rparr>)"
  using readChunk_ok by (auto simp: harmless_def)

lemma handleTerminalResize_ok:
  assumes "worker_ok s"
  shows "worker_ok (handleTerminalResize env id' m s)"
proof (cases "activeRunFor env ''terminal'' id' s")
  case (Pair r s')
  note ok = activeRunFor_ok [OF assms Pair]
  show ?thesis using ok Pair
    by (cases r) (auto simp: handleTerminalResize_def harmless_simps split: sum.splits
        intro!: postCommandError_ok worker_ok_harmless)
qed

lemma cancel_ok: "worker_ok s \<Longrightarrow> worker_ok (cancel id' s)"
  by (auto simp: cancel_def active_in abortRun_ok split: option.splits)

lemma handleMessage_ok: "worker_ok s \<Longrightarrow> worker_ok (handleMessage env m s)"
  by (cases m) (auto simp: loadPackage_ok runCommand_ok postCommandCatalog_def post_other_ok handleStdinChunk_def
      handleStdinEnd_def handleStdinError_def handleTerminalResize_ok cancel_ok
      intro!: stdin_action_ok push_message_ok stream_end_ok)

lemma stop_ok:
  assumes "worker_ok s"
  shows "worker_ok (stop s)"
proof (cases "wk_activeRun s")
  case None
  then show ?thesis using assms by (simp add: stop_def Let_def worker_ok_loads)
next
  case (Some i)
  let ?s = "update_active i (\<lambda>a. a\<lparr>ar_stdin := stream_fail cancelledError (ar_stdin a)\<rparr>)
    (abortRun i cancelledError (s\<lparr>wk_listening := False\<rparr>))"
  have i: "i < length (wk_runs s)" using assms Some by (rule active_in)
  have "worker_ok ?s"
    using assms i by (intro worker_ok_harmless abortRun_ok) (simp_all add: worker_ok_loads harmless_fail)
  moreover have "ar_aborted (active_at ?s i) \<noteq> None" "wk_activeRun ?s = Some i"
    using i Some by (auto simp: update_active_def update_run_def abortRun_def split: option.splits)
  ultimately have "worker_ok (?s\<lparr>wk_activeRun := None\<rparr>)"
    by (auto simp: worker_ok_def posted_by_def)
  then show ?thesis using Some by (simp add: stop_def Let_def)
qed

lemma settle_executor_ok:
  assumes "worker_ok s" "i < length (wk_runs s)"
  shows "worker_ok (update_run i (\<lambda>t. t\<lparr>rt_executor := Returned r\<rparr>) s)"
proof -
  let ?t = "(run_at s i)\<lparr>rt_executor := Returned r\<rparr>"
  have "rt_stage (run_at s i) = Finished \<Longrightarrow> wk_activeRun s \<noteq> Some i"
    using assms(1) by (auto simp: worker_ok_def)
  then have "update_run i (\<lambda>t. t\<lparr>rt_executor := Returned r\<rparr>) s = advance i ?t [] s"
    by (auto simp: update_run_def advance_def)
  moreover have "worker_ok (advance i ?t [] s)"
    by (rule worker_ok_advance [OF assms]) (use worker_ok_task [OF assms] in \<open>auto simp: task_ok_def Let_def\<close>)
  ultimately show ?thesis by simp
qed

lemma worker_step_ok:
  assumes "worker_ok s"
  shows "worker_ok (worker_step env ev s)"
proof (cases "enabled ev s")
  case True
  then show ?thesis using assms
    by (cases ev) (auto simp: worker_step_def handleMessage_ok load_settled_ok resume_ok exported_ok imported_ok
        output_write_ok stop_ok start_def worker_ok_loads executor_runs_def harmless_simps
        intro!: abortRun_ok worker_ok_harmless settle_executor_ok)
qed (simp add: worker_step_def assms)

lemma new_worker_ok: "worker_ok new_worker"
  by (simp add: worker_ok_def new_worker_def catalog_ok_empty posted_by_def)

lemma run_worker_ok: "worker_ok s \<Longrightarrow> worker_ok (run_worker env evs s)"
  unfolding run_worker_def by (induction evs arbitrary: s) (simp_all add: worker_step_ok)

section \<open>A run that has ended is over\<close>

definition over :: "nat \<Rightarrow> worker \<Rightarrow> worker_post list \<Rightarrow> bool" where
  "over i s ms \<longleftrightarrow> i < length (wk_runs s) \<and> rt_stage (run_at s i) = Finished \<and> posted_by s i = ms"

lemma over_simps [simp]:
  "over i (post None m s) ms = over i s ms"
  "over i (s\<lparr>wk_packages := p, wk_catalog := c\<rparr>) ms = over i s ms"
  "over i (s\<lparr>wk_packageLoads := l\<rparr>) ms = over i s ms" "over i (s\<lparr>wk_loads := lt\<rparr>) ms = over i s ms"
  "over i (s\<lparr>wk_packageLoads := l, wk_loads := lt\<rparr>) ms = over i s ms"
  "over i (s\<lparr>wk_listening := b\<rparr>) ms = over i s ms" "over i (s\<lparr>wk_activeRun := a\<rparr>) ms = over i s ms"
  by (simp_all add: over_def posted_by_def post_def)

lemma over_updates:
  "over i s ms \<Longrightarrow> over i (update_active j f s) ms"
  "over i s ms \<Longrightarrow> (\<And>t. rt_stage t = Finished \<Longrightarrow> rt_stage (g t) = Finished) \<Longrightarrow> over i (update_run j g s) ms"
  "over i s ms \<Longrightarrow> i \<noteq> j \<Longrightarrow> over i (update_run j h s) ms"
  "over i s ms \<Longrightarrow> i \<noteq> j \<Longrightarrow> over i (post (Some j) m s) ms"
  "over i s ms \<Longrightarrow> over i (abortRun j e s) ms"
  "over i s ms \<Longrightarrow> over i (s\<lparr>wk_activeRun := a, wk_runs := wk_runs s @ [t]\<rparr>) ms"
  by (cases "i = j"; simp add: over_def posted_by_def post_def update_active_def update_run_def abortRun_def nth_append)+

lemma over_ends:
  assumes "over i s ms" "i \<noteq> j"
  shows "over i (fail_run env j e s) ms" "over i (complete_run env j r s) ms"
    "over i (start_run env j res s) ms" "over i (call_executor env j c p h st sn s) ms" "over i (goto_stage j st' s) ms"
proof -
  have streams: "over i (postOutputStreamClose j s) ms"
    using assms by (simp add: postOutputStreamClose_def Let_def over_updates)
  have end': "over i (end_run j s') ms" if "over i s' ms" for s'
    using that assms(2) by (simp add: end_run_def goto_stage_def Let_def over_updates)
  show fail: "over i (fail_run env j e s) ms" for e
    using streams end' assms(2) by (simp add: fail_run_def Let_def over_updates)
  show "over i (complete_run env j r s) ms"
    using streams end' assms(2) by (simp add: complete_run_def Let_def over_updates)
  show "over i (call_executor env j c p h st sn s) ms" "over i (goto_stage j st' s) ms"
    using assms by (simp_all add: call_executor_def goto_stage_def over_updates)
  show "over i (start_run env j res s) ms"
    using assms fail by (simp add: start_run_def call_executor_def goto_stage_def Let_def over_updates split: sum.splits)
qed

lemma over_postCommandError [simp]: "over i (postCommandError env id' e s) ms = over i s ms"
  by (simp add: postCommandError_def Let_def)

lemma over_load: "over i s ms \<Longrightarrow> over i (load_settled env k r s) ms"
  by (simp add: load_settled_def Let_def split: sum.splits prod.splits)

lemma over_stdin: "over i s ms \<Longrightarrow> over i (stdin_action env id' act s) ms"
  by (auto simp: stdin_action_def activeRunFor_def failStdin_def over_updates split: option.splits prod.splits sum.splits if_splits)

lemma over_message: "over i s ms \<Longrightarrow> over i (handleMessage env m s) ms"
  by (cases m) (auto simp: loadPackage_def runCommand_def postCommandCatalog_def handleStdinChunk_def handleStdinEnd_def
      handleStdinError_def handleTerminalResize_def activeRunFor_def cancel_def Let_def over_stdin over_updates
      split: option.splits prod.splits sum.splits if_splits)

lemma over_resume:
  assumes "over i s ms"
  shows "over i (resume env j s) ms" "over i (exported env j er s) ms" "over i (imported env j ir s) ms"
proof -
  consider "j = i" | "i \<noteq> j" by blast
  then show "over i (resume env j s) ms"
  proof cases
    case 1
    then show ?thesis using assms by (simp add: resume_def Let_def over_def)
  next
    case 2
    show ?thesis
      unfolding resume_def Let_def
      using assms over_ends [OF assms 2]
      by (auto split: run_stage.splits sum.splits option.splits executor_state.splits)
  qed
  show "over i (exported env j er s) ms" "over i (imported env j ir s) ms"
    using assms over_ends [OF assms, of j]
    by (cases "j = i"; auto simp: exported_def imported_def over_def split: run_stage.splits sum.splits)+
qed

lemma over_write:
  assumes "worker_ok s" "over i s ms" "executor_runs s j"
  shows "over i (snd (output_write j out chunk s)) ms"
proof (cases "i = j")
  case True
  then have "ar_aborted (active_at s i) \<noteq> None"
    using worker_ok_task [OF assms(1), of i] assms(2,3) by (auto simp: over_def executor_runs_def task_ok_def Let_def)
  then show ?thesis using True assms(2) by (auto simp: output_write_def)
next
  case False
  then show ?thesis using assms(2) by (auto simp: output_write_def over_updates split: option.splits sum.splits)
qed

lemma over_step:
  assumes "worker_ok s" "over i s ms"
  shows "over i (worker_step env ev s) ms"
proof (cases "enabled ev s")
  case True
  then show ?thesis using assms
    by (cases ev) (auto simp: worker_step_def over_message over_load over_resume over_write over_updates start_def stop_def
        Let_def split: option.splits)
qed (simp add: worker_step_def assms)

lemma over_run: "worker_ok s \<Longrightarrow> over i s ms \<Longrightarrow> over i (run_worker env evs s) ms"
  unfolding run_worker_def by (induction evs arbitrary: s) (simp_all add: worker_step_ok over_step)

lemma finished_run:
  assumes "worker_ok s" "i < length (wk_runs s)" "rt_stage (run_at s i) = Finished"
  shows "\<exists>pre m r. posted_by s i = pre @ closing (ar_id (active_at s i)) m \<and> opened (ar_id (active_at s i)) pre \<and>
      ending (ar_id (active_at s i)) m = Some r \<and>
      rs_stdoutBytes r = int (length (out_bytes True pre)) \<and> rs_stderrBytes r = int (length (out_bytes False pre))"
proof -
  have "finished_ok (active_at s i) (posted_by s i)"
    using worker_ok_task [OF assms(1,2)] assms(3) by (simp add: task_ok_def Let_def)
  then show ?thesis by (fastforce simp: finished_ok_def open_ok_def)
qed

text \<open>
  C11: whatever a client sends, whatever loaders, executors and store answer, and in whatever order, a
  run that has ended has posted at most a start and then its outputs, then one close of each of its
  streams and one result, which counts the bytes of the outputs; and nothing is posted for it later.
\<close>

theorem run_protocol:
  assumes "s = run_worker env evs new_worker" "i < length (wk_runs s)" "rt_stage (run_at s i) = Finished"
  shows "posted_by (run_worker env later s) i = posted_by s i \<and>
    (\<exists>pre m r. posted_by s i = pre @ closing (ar_id (active_at s i)) m \<and> opened (ar_id (active_at s i)) pre \<and>
      ending (ar_id (active_at s i)) m = Some r \<and>
      rs_stdoutBytes r = int (length (out_bytes True pre)) \<and> rs_stderrBytes r = int (length (out_bytes False pre)))"
proof -
  have ok: "worker_ok s" unfolding assms(1) by (rule run_worker_ok [OF new_worker_ok])
  have "over i s (posted_by s i)" using assms by (simp add: over_def)
  from over_run [OF ok this] show ?thesis using finished_run [OF ok assms(2,3)] by (simp add: over_def)
qed

text \<open>
  At any time every run that has neither ended nor been aborted is the active run: a second
  request does not start a command while one is running.
\<close>

theorem one_run_at_a_time:
  assumes "s = run_worker env evs new_worker" "i < length (wk_runs s)" "j < length (wk_runs s)"
    and "rt_stage (run_at s i) \<noteq> Finished" "ar_aborted (active_at s i) = None"
    and "rt_stage (run_at s j) \<noteq> Finished" "ar_aborted (active_at s j) = None"
  shows "i = j \<and> wk_activeRun s = Some i"
proof -
  have ok: "worker_ok s" unfolding assms(1) by (rule run_worker_ok [OF new_worker_ok])
  have "wk_activeRun s = Some k"
    if "k < length (wk_runs s)" "rt_stage (run_at s k) \<noteq> Finished" "ar_aborted (active_at s k) = None" for k
    using ok that by (auto simp: worker_ok_def)
  from this [OF assms(2,4,5)] this [OF assms(3,6,7)] show ?thesis by simp
qed

section \<open>Cancelling\<close>


text \<open>Steps of the rest of the worker leave the active run as it is.\<close>

definition holds_run :: "nat \<Rightarrow> run_task \<Rightarrow> worker \<Rightarrow> bool" where
  "holds_run i r s \<longleftrightarrow> i < length (wk_runs s) \<and> run_at s i = r \<and> wk_activeRun s = Some i"

lemma holds_simps [simp]:
  "holds_run i r (post j m s) = holds_run i r s" "holds_run i r (postCommandError env id' e s) = holds_run i r s"
  "holds_run i r (s\<lparr>wk_packages := p, wk_catalog := c\<rparr>) = holds_run i r s"
  "holds_run i r (s\<lparr>wk_packageLoads := l\<rparr>) = holds_run i r s" "holds_run i r (s\<lparr>wk_loads := lt\<rparr>) = holds_run i r s"
  "holds_run i r (s\<lparr>wk_packageLoads := l, wk_loads := lt\<rparr>) = holds_run i r s"
  "holds_run i r (s\<lparr>wk_listening := b\<rparr>) = holds_run i r s"
  by (simp_all add: holds_run_def post_def postCommandError_def Let_def)















section \<open>Examples\<close>

definition example_env :: worker_env where
  "example_env =
     \<lparr>we_collate = (\<lambda>a b. 0), we_executors = [''smoke'', ''webc-package''], we_httpTransports = [''direct''],
      we_defaultHttpTransport = ''direct'', we_hasStore = True\<rparr>"

definition plain_fields :: run_fields where
  "plain_fields =
     \<lparr>rf_args = None, rf_command = Some ''ls'', rf_cwd = None, rf_diagnostics = None, rf_env = None,
      rf_httpTransport = None, rf_id = Some ''r1'', rf_packageId = Package ''core'', rf_stderr = None,
      rf_stdin = \<lparr>sf_stdin = None, sf_stdinBase64 = None, sf_stdinChunks = None, sf_stdinChunksBase64 = None\<rparr>,
      rf_stdinOpen = Some True, rf_stdout = None, rf_terminal = None, rf_timeoutMs = Some (Finite 5 0),
      rf_wasixExecArgv0 = False, rf_workspaceSnapshot = None\<rparr>"

definition smoke_package :: command_package where
  "smoke_package = \<lparr>pk_artifactKind = None, pk_commands = [''ls''], pk_contentSha256 = None, pk_entrypoint = None,
     pk_id = ''core'', pk_type = ''smoke''\<rparr>"

definition started_events :: "worker_event list" where
  "started_events =
     [Client (Cmd_load \<lparr>lm_id = Some ''core'', lm_packageId = None, lm_package = None\<rparr>), Client (Cmd_run (None, plain_fields)),
      Load_settled 0 (Inr smoke_package), Resume 0]"

definition finished_events :: "worker_event list" where
  "finished_events =
     started_events @
     [Executor_reads 0, Executor_writes 0 True (Chunk_bytes [1, 2]), Client (Cmd_run (None, plain_fields)),
      Executor_writes 0 False (Chunk_text ''e''),
      Executor_settles 0 (Inr (Some \<lparr>xr_exitCode = Some 3, xr_diagnostics = None, xr_workspaceSnapshot = None\<rparr>)), Resume 0]"


lemma example_finished:
  "let s = run_worker example_env finished_events new_worker in
   length (wk_runs s) = 1 \<and> rt_stage (run_at s 0) = Finished \<and> wk_activeRun s = None \<and>
   length (posted_by s 0) = 6 \<and> length (out_bytes True (posted_by s 0)) = 2"
  by code_simp

theorem run_protocol_witness:
  "let s = run_worker example_env finished_events new_worker in
   posted_by (run_worker example_env [Executor_writes 0 True (Chunk_bytes [9]), Resume 0] s) 0 = posted_by s 0 \<and>
   length (posted_by s 0) = 6"
proof -
  define s where "s = run_worker example_env finished_events new_worker"
  have "length (wk_runs s) = 1" "rt_stage (run_at s 0) = Finished" "length (posted_by s 0) = 6"
    using example_finished by (simp_all add: Let_def s_def)
  then show ?thesis using run_protocol [OF s_def] by (simp add: Let_def s_def)
qed

theorem one_run_at_a_time_witness:
  "let s = run_worker example_env started_events new_worker in wk_activeRun s = Some 0"
proof -
  have "let s = run_worker example_env started_events new_worker in
    0 < length (wk_runs s) \<and> rt_stage (run_at s 0) \<noteq> Finished \<and> ar_aborted (active_at s 0) = None"
    by code_simp
  then show ?thesis using one_run_at_a_time [OF refl, of 0 example_env started_events 0] by (simp add: Let_def)
qed


section \<open>What a client can get wrong\<close>

text \<open>
  A resize message with a bad size is answered with \<open>command.error\<close> under the id of the command, which
  goes on: the message is the one that ends a run.
\<close>

lemma bad_resize_posts_error:
  assumes "wk_activeRun s = Some i" "terminalResizeFromMessage m = Inl e"
  shows "\<exists>p r. handleTerminalResize env (Some (ar_id (active_at s i))) m s =
    post None (Post_error (Some (ar_id (active_at s i))) p r) s"
  using assms by (auto simp: handleTerminalResize_def activeRunFor_def postCommandError_def Let_def)

text \<open>Closing the input twice aborts the command.\<close>

lemma second_end_aborts:
  assumes "wk_activeRun s = Some i" "i < length (wk_runs s)" "is_closed (ar_stdin (active_at s i))"
  shows "ar_abortError (active_at (handleStdinEnd env (Some (ar_id (active_at s i))) s) i) = Some already_closed"
  using assms
  by (simp add: handleStdinEnd_def stdin_action_def activeRunFor_def stream_end_def failStdin_def abortRun_def
      update_active_def update_run_def)

text \<open>A run that imports its workspace completes, even when it has been cancelled.\<close>

lemma cancelled_import_completes:
  assumes "rt_stage (run_at s i) = Importing r"
  shows "imported env i (Inr ()) s = complete_run env i r s"
  using assms by (simp add: imported_def)

text \<open>A package type that names a member every object inherits finds an executor.\<close>

lemma inherited_executor: "resolveExecutor env ''constructor'' = Inr ()"
  by (simp add: resolveExecutor_def object_prototype_names_def)

text \<open>A load under an id with a space is not the load a run of that package waits for.\<close>

lemma padded_load_is_missed:
  "let s = run_worker example_env
     [Client (Cmd_load \<lparr>lm_id = Some '' core'', lm_packageId = None, lm_package = None\<rparr>), Client (Cmd_run (None, plain_fields))]
     new_worker in
   rt_stage (run_at s 0) = Resolving (Inl (not_loaded ''core''))"
  by code_simp

end
