(* ===== verification/Command_Children.thy ===== *)
theory Command_Children imports Command_Protocol begin

text \<open>
  Child commands of \<open>apps/web/src/command-worker.js\<close>: \<open>runChildCommand\<close>, which an executor calls to run
  another command inside its own run, and \<open>ChildCommandOutputWriter\<close>, which keeps the output of a child
  or hands it to the writer of its parent. What loaders, executors and store answer are arguments.
  Proved: however deep children are nested, a stream arrives whole at the first writer that pipes it,
  from the child upwards, or at the run when none does, each byte once, in order, and counted, while
  no writer is aborted.
\<close>

section \<open>The output of a child\<close>

record child_output =
  co_aborted :: "command_error option"
  co_stderr :: string
  co_stderrByteLength :: int
  co_stderrChunks :: "byte list list"
  co_stdout :: string
  co_stdoutByteLength :: int
  co_stdoutChunks :: "byte list list"

definition new_child_output :: "string \<Rightarrow> string \<Rightarrow> command_error option \<Rightarrow> child_output" where
  "new_child_output stdout stderr aborted =
     \<lparr>co_aborted = aborted, co_stderr = stderr, co_stderrByteLength = 0, co_stderrChunks = [],
      co_stdout = stdout, co_stdoutByteLength = 0, co_stdoutChunks = []\<rparr>"

definition count_output :: "bool \<Rightarrow> byte list \<Rightarrow> child_output \<Rightarrow> child_output" where
  "count_output out bytes w =
     (if out then w\<lparr>co_stdoutByteLength := co_stdoutByteLength w + int (length bytes)\<rparr>
      else w\<lparr>co_stderrByteLength := co_stderrByteLength w + int (length bytes)\<rparr>)"

definition keep_output :: "bool \<Rightarrow> byte list \<Rightarrow> child_output \<Rightarrow> child_output" where
  "keep_output out bytes w =
     (if out then w\<lparr>co_stdoutChunks := co_stdoutChunks w @ [bytes]\<rparr>
      else w\<lparr>co_stderrChunks := co_stderrChunks w @ [bytes]\<rparr>)"

text \<open>
  \<open>write\<close> of a child and, when the stream is inherited, of the writers above it. The list is the child
  and its ancestors; what leaves the list is written by the run itself (\<open>output_write\<close>).
\<close>

fun child_write :: "bool \<Rightarrow> chunk_value \<Rightarrow> child_output list \<Rightarrow> (command_error + unit) \<times> child_output list \<times> byte list option" where
  "child_write out chunk [] =
     (case toUint8Array chunk ''command output chunks must be bytes'' of
        Inl e \<Rightarrow> (Inl e, [], None)
      | Inr bytes \<Rightarrow> (Inr (), [], Some bytes))"
| "child_write out chunk (w # ws) =
     (case co_aborted w of
        Some e \<Rightarrow> (Inl e, w # ws, None)
      | None \<Rightarrow>
          (case toUint8Array chunk ''command output chunks must be bytes'' of
             Inl e \<Rightarrow> (Inl e, w # ws, None)
           | Inr bytes \<Rightarrow>
               (let w = count_output out bytes w in
                if (if out then co_stdout w else co_stderr w) = ''inherit''
                then (case child_write out (Chunk_bytes bytes) ws of (r, ws, up) \<Rightarrow> (r, w # ws, up))
                else (Inr (), keep_output out bytes w # ws, None))))"

text \<open>All writes of an executor; what reaches the run.\<close>

fun child_writes :: "(bool \<times> chunk_value) list \<Rightarrow> child_output list \<Rightarrow> child_output list \<times> (bool \<times> byte list) list" where
  "child_writes [] ws = (ws, [])"
| "child_writes ((out, chunk) # cs) ws =
     (case child_write out chunk ws of
        (r, ws, up) \<Rightarrow>
          (case child_writes cs ws of
             (ws, ups) \<Rightarrow> (ws, (case up of Some bytes \<Rightarrow> [(out, bytes)] | None \<Rightarrow> []) @ ups)))"

definition stdoutBytes :: "child_output \<Rightarrow> byte list" where "stdoutBytes w = concat (co_stdoutChunks w)"
definition stderrBytes :: "child_output \<Rightarrow> byte list" where "stderrBytes w = concat (co_stderrChunks w)"

section \<open>Running a child\<close>

record child_result =
  cx_command :: string
  cx_exitCode :: int
  cx_packageId :: string
  cx_stderr :: "byte list"
  cx_stderrBytes :: int
  cx_stdout :: "byte list"
  cx_stdoutBytes :: int
  cx_diagnostics :: "diagnostic list option"
  cx_workspaceSnapshot :: "snapshot option"

text \<open>
  The answers a child gets: how the load it may wait for ended, the snapshot of the store, what its
  executor writes and returns, how the store took the new snapshot. \<open>ca_signal k\<close> is the reason of
  the abort signal of the child at its k-th look: before it waits for the package, after that, while
  the executor runs, and after it.
\<close>

record child_answers =
  ca_loaded :: "thrown + unit"
  ca_exported :: "thrown + snapshot"
  ca_writes :: "(bool \<times> chunk_value) list"
  ca_result :: "thrown + executor_result option"
  ca_imported :: "thrown + unit"
  ca_signal :: "nat \<Rightarrow> command_error option"

definition not_aborted :: "command_error option \<Rightarrow> thrown + 'a \<Rightarrow> thrown + 'a" where
  "not_aborted signal m = (case signal of Some e \<Rightarrow> Inl (Worker_error e) | None \<Rightarrow> m)"

definition child_package :: "worker \<Rightarrow> child_run \<Rightarrow> child_answers \<Rightarrow> thrown + string \<times> command_package" where
  "child_package s run answers =
     (case packageForRun s (ch_packageId run) (ch_command run) (ch_env run) of
        Resolving r \<Rightarrow> r
      | _ \<Rightarrow> bindR (ca_loaded answers) (\<lambda>_. loaded_package s (ch_command run) (some_text (ch_packageId run))))"

definition lift_error :: "command_error + 'a \<Rightarrow> thrown + 'a" where
  "lift_error m = (case m of Inl e \<Rightarrow> Inl (Worker_error e) | Inr x \<Rightarrow> Inr x)"

text \<open>
  The result of the child, the writers after it and what its output gave the run, and the snapshot it
  put into the store.
\<close>

definition child_outcome :: "worker_env \<Rightarrow> worker \<Rightarrow> child_run \<Rightarrow> child_answers \<Rightarrow> child_output \<Rightarrow> thrown + child_result \<times> snapshot option" where
  "child_outcome env s run answers w =
     bindR (not_aborted (ca_signal answers 0) (child_package s run answers)) (\<lambda>(command, p).
     not_aborted (ca_signal answers 1)
    (bindR (lift_error (resolveExecutor env (pk_type p))) (\<lambda>_.
     bindR (lift_error (resolveHttpTransport env (ch_httpTransport run))) (\<lambda>_.
     let store = workspaceSnapshotStoreForPackage env p in
     bindR (if ch_workspaceSnapshot run = None \<and> store then bindR (ca_exported answers) (\<lambda>_. Inr ()) else Inr ()) (\<lambda>_.
     bindR (not_aborted (ca_signal answers 2) (ca_result answers)) (\<lambda>result.
     not_aborted (ca_signal answers 3)
    (let imports = (store \<and> ch_workspaceSnapshot run = None \<and> result_snapshot result \<noteq> None) in
     bindR (if imports then ca_imported answers else Inr ()) (\<lambda>_.
     Inr (\<lparr>cx_command = command, cx_exitCode = result_exit_code result, cx_packageId = pk_id p,
           cx_stderr = stderrBytes w, cx_stderrBytes = co_stderrByteLength w,
           cx_stdout = stdoutBytes w, cx_stdoutBytes = co_stdoutByteLength w,
           cx_diagnostics = commandResultDiagnostics (we_collate env) (result_diagnostics result),
           cx_workspaceSnapshot = result_snapshot result\<rparr>,
          if imports then result_snapshot result else None)))))))))"

definition runChildCommand :: "worker_env \<Rightarrow> worker \<Rightarrow> run_message \<Rightarrow> parent_run \<Rightarrow> child_output list \<Rightarrow> child_answers \<Rightarrow>
    (thrown + child_result \<times> snapshot option) \<times> child_output list \<times> (bool \<times> byte list) list" where
  "runChildCommand env s message parentRun parents answers =
     (case normalizeChildCommandRequest message parentRun of
        Inl e \<Rightarrow> (Inl (Worker_error e), parents, [])
      | Inr run \<Rightarrow>
          (case child_writes (ca_writes answers) (new_child_output (ch_stdout run) (ch_stderr run) (ca_signal answers 2) # parents) of
             (w # parents, ups) \<Rightarrow> (child_outcome env s run answers w, parents, ups)
           | ([], ups) \<Rightarrow> (Inl (Other_error None), parents, ups)))"

section \<open>Every byte arrives once\<close>

definition bytes_of :: "bool \<Rightarrow> (bool \<times> byte list) list \<Rightarrow> byte list" where
  "bytes_of out cs = concat (map snd (filter (\<lambda>c. fst c = out) cs))"

text \<open>What a stack of writers keeps of a stream: the chunks of the first writer that pipes it.\<close>

definition mode :: "bool \<Rightarrow> child_output \<Rightarrow> string" where
  "mode out w = (if out then co_stdout w else co_stderr w)"

definition kept :: "bool \<Rightarrow> child_output \<Rightarrow> byte list" where
  "kept out w = (if out then stdoutBytes w else stderrBytes w)"

definition counted :: "bool \<Rightarrow> child_output \<Rightarrow> int" where
  "counted out w = (if out then co_stdoutByteLength w else co_stderrByteLength w)"

lemma writer_fields [simp]:
  "mode o' (count_output out bytes w) = mode o' w" "mode o' (keep_output out bytes w) = mode o' w"
  "co_aborted (count_output out bytes w) = co_aborted w" "co_aborted (keep_output out bytes w) = co_aborted w"
  "kept o' (count_output out bytes w) = kept o' w" "counted o' (keep_output out bytes w) = counted o' w"
  "kept o' (keep_output out bytes w) = kept o' w @ (if o' = out then bytes else [])"
  "counted o' (count_output out bytes w) = counted o' w + (if o' = out then int (length bytes) else 0)"
  by (auto simp: mode_def kept_def counted_def count_output_def keep_output_def stdoutBytes_def stderrBytes_def)

lemma child_write_mode: "(if out then co_stdout w else co_stderr w) = mode out w"
  by (simp add: mode_def)

definition goes_up :: "bool \<Rightarrow> child_output list \<Rightarrow> bool" where
  "goes_up out ws \<longleftrightarrow> list_all (\<lambda>w. mode out w = ''inherit'') ws"

lemma goes_up_map: "goes_up out ws = list_all (\<lambda>m. m = ''inherit'') (map (mode out) ws)"
  by (simp add: goes_up_def list_all_iff)

text \<open>
  What a stack of writers has after \<open>bytes\<close> were written to a stream of the first: each writer up to the
  first that pipes the stream counts them, that one keeps them, the ones behind it see nothing.
\<close>

fun taken :: "bool \<Rightarrow> byte list \<Rightarrow> child_output list \<Rightarrow> child_output list" where
  "taken out bytes [] = []"
| "taken out bytes (w # ws) =
     (if mode out w = ''inherit'' then count_output out bytes w # taken out bytes ws
      else keep_output out bytes (count_output out bytes w) # ws)"

text \<open>The bytes of a chunk; one that is neither bytes nor text has none, and writing it is an error.\<close>

definition chunk_bytes :: "chunk_value \<Rightarrow> byte list" where
  "chunk_bytes chunk = (case toUint8Array chunk ''command output chunks must be bytes'' of Inr bytes \<Rightarrow> bytes | Inl _ \<Rightarrow> [])"

lemma child_write_taken:
  assumes "list_all (\<lambda>w. co_aborted w = None) ws" "toUint8Array chunk ''command output chunks must be bytes'' = Inr bytes"
  shows "child_write out chunk ws = (Inr (), taken out bytes ws, if goes_up out ws then Some bytes else None)"
proof -
  have "child_write out (Chunk_bytes bytes) ws = (Inr (), taken out bytes ws, if goes_up out ws then Some bytes else None)"
    using assms(1) by (induction ws) (simp_all add: toUint8Array_def child_write_mode Let_def goes_up_def)
  moreover have "child_write out chunk ws = child_write out (Chunk_bytes bytes) ws"
    using assms(2) by (cases ws) (simp_all add: toUint8Array_def split: option.split)
  ultimately show ?thesis by simp
qed

lemma child_write_bad:
  "list_all (\<lambda>w. co_aborted w = None) ws \<Longrightarrow> toUint8Array chunk ''command output chunks must be bytes'' = Inl e \<Longrightarrow>
   child_write out chunk ws = (Inl e, ws, None)"
  by (cases ws) simp_all

lemma taken_frame [simp]:
  "map (mode o') (taken out bytes ws) = map (mode o') ws" "length (taken out bytes ws) = length ws"
  "list_all (\<lambda>w. co_aborted w = None) (taken out bytes ws) = list_all (\<lambda>w. co_aborted w = None) ws"
  by (induction out bytes ws rule: taken.induct) auto

lemma goes_up_taken [simp]: "goes_up o' (take i (taken out bytes ws)) = goes_up o' (take i ws)"
  by (simp add: goes_up_map flip: take_map)

lemma taken_nth:
  "i < length ws \<Longrightarrow>
   mode o' (taken out bytes ws ! i) = mode o' (ws ! i) \<and>
   counted o' (taken out bytes ws ! i) = counted o' (ws ! i) + (if o' = out \<and> goes_up out (take i ws) then int (length bytes) else 0) \<and>
   kept o' (taken out bytes ws ! i) = kept o' (ws ! i) @
     (if o' = out \<and> goes_up out (take i ws) \<and> mode out (ws ! i) \<noteq> ''inherit'' then bytes else [])"
  by (induction out bytes ws arbitrary: i rule: taken.induct) (auto simp: goes_up_def nth_Cons split: nat.split)

text \<open>
  C20: When a child writes chunks while no writer above it has been aborted, each stream arrives whole, in
  order, at one place: at the first writer, from the child upwards, that pipes the stream, which keeps
  it for the result of its command, or at the run when all of them inherit it. The writers up to that
  place count every byte; the writers behind it, and the other chunks they keep, are untouched.
\<close>

theorem child_output_arrives:
  assumes "child_writes chunks ws = (ws', ups)" "list_all (\<lambda>w. co_aborted w = None) ws"
  defines "cs \<equiv> map (\<lambda>(o', chunk). (o', chunk_bytes chunk)) chunks"
  shows "length ws' = length ws \<and> bytes_of out ups = (if goes_up out ws then bytes_of out cs else []) \<and>
    (\<forall>i<length ws.
       counted out (ws' ! i) = counted out (ws ! i) + (if goes_up out (take i ws) then int (length (bytes_of out cs)) else 0) \<and>
       kept out (ws' ! i) = kept out (ws ! i) @
         (if goes_up out (take i ws) \<and> mode out (ws ! i) \<noteq> ''inherit'' then bytes_of out cs else []))"
  using assms(1,2) unfolding cs_def
proof (induction chunks arbitrary: ws ups)
  case Nil
  then show ?case by (simp add: bytes_of_def)
next
  case (Cons c cs)
  obtain o' chunk where c: "c = (o', chunk)" by fastforce
  show ?case
  proof (cases "toUint8Array chunk ''command output chunks must be bytes''")
    case (Inl e)
    then show ?thesis
      using Cons.IH [of ws ups] Cons.prems by (simp add: c child_write_bad bytes_of_def chunk_bytes_def split: prod.splits)
  next
    case (Inr bytes)
    obtain ups' where rest: "child_writes cs (taken o' bytes ws) = (ws', ups')"
        "ups = (if goes_up o' ws then [(o', bytes)] else []) @ ups'"
      using Cons.prems Inr by (auto simp: c child_write_taken split: prod.splits)
    have up: "goes_up out (taken o' bytes ws) = goes_up out ws"
      using goes_up_taken [of out "length ws" o' bytes ws] by simp
    have "chunk_bytes chunk = bytes" using Inr by (simp add: chunk_bytes_def)
    then show ?thesis
      using Cons.IH [OF rest(1)] Cons.prems(2) taken_nth [of _ ws out o' bytes] rest(2)
      by (auto simp: c bytes_of_def up)
  qed
qed

theorem child_output_arrives_witness:
  "case child_writes [(True, Chunk_bytes [1, 2]), (False, Chunk_bytes [7]), (True, Chunk_bytes [3])]
      [new_child_output ''inherit'' ''inherit'' None, new_child_output ''pipe'' ''inherit'' None] of
     (ws, ups) \<Rightarrow> length ws = 2 \<and> kept True (ws ! 0) = [] \<and> kept True (ws ! 1) = [1, 2, 3] \<and> counted True (ws ! 0) = 3 \<and>
       bytes_of False ups = [7] \<and> bytes_of True ups = []"
proof -
  let ?cs = "[(True, Chunk_bytes [1, 2]), (False, Chunk_bytes [7]), (True, Chunk_bytes [3])]"
  let ?ws = "[new_child_output ''inherit'' ''inherit'' None, new_child_output ''pipe'' ''inherit'' None]"
  obtain ws' ups where run: "child_writes ?cs ?ws = (ws', ups)" by fastforce
  have "list_all (\<lambda>w. co_aborted w = None) ?ws" by (simp add: new_child_output_def)
  note arrives = child_output_arrives [OF run this]
  have start: "counted True (new_child_output o' e None) = 0" "kept True (new_child_output o' e None) = []"
    "mode True (new_child_output o' e None) = o'" "mode False (new_child_output o' e None) = e" for o' e
    by (simp_all add: new_child_output_def counted_def kept_def mode_def stdoutBytes_def)
  have "ws' ! 0 = ws' ! 0 \<and> kept True (ws' ! 0) = [] \<and> counted True (ws' ! 0) = 3" "kept True (ws' ! 1) = [1, 2, 3]"
    using arrives [of True] by (simp_all add: start goes_up_def bytes_of_def chunk_bytes_def toUint8Array_def)
  then show ?thesis
    using arrives [of True] arrives [of False] unfolding run by (simp add: start goes_up_def bytes_of_def chunk_bytes_def toUint8Array_def)
qed

end
