(* ===== verification/Terminal_Session.thy ===== *)
theory Terminal_Session imports Command_Protocol begin

text \<open>
  \<open>BrowserTerminalSession\<close> of \<open>apps/web/src/terminal.js\<close>: the client of the command worker behind a
  terminal. It sends one run at a time through a port, turns the messages that come back into calls
  of a sink, and settles the promise of the run. The messages it sends and receives are those of the
  worker's model. Proved: for a run that has ended in the worker, the sink is shown exactly the bytes
  of its outputs in order, each stream is closed once, and one exit comes last; a session whose port
  throws is stuck.
\<close>

section \<open>The session\<close>

datatype sink_event =
    Started_event
  | Output_event bool "byte list"
  | Close_event bool
  | Complete_event command_result
  | Error_event error_payload command_result

datatype sink_call =
    Sink_event "string option" sink_event
  | Sink_stream bool "byte list"
  | Sink_write bool "byte list"
  | Sink_close_stream bool
  | Sink_close bool
  | Sink_exit command_result "error_payload option"

text \<open>\<open>se_portTakes\<close>: whether the port has a \<open>postMessage\<close> that does not throw.\<close>

record session =
  se_id :: "string option"
  se_listening :: bool
  se_stdoutClosed :: bool
  se_stderrClosed :: bool
  se_completion :: bool
  se_settled :: "(command_error + command_result) list"
  se_portTakes :: bool
  se_sent :: "client_message list"
  se_sink :: "sink_call list"

definition new_session :: "bool \<Rightarrow> session" where
  "new_session takes =
     \<lparr>se_id = None, se_listening = False, se_stdoutClosed = False, se_stderrClosed = False, se_completion = False,
      se_settled = [], se_portTakes = takes, se_sent = [], se_sink = []\<rparr>"

definition session_error :: "string \<Rightarrow> string \<Rightarrow> command_error" where
  "session_error kind message = worker_error kind message ''terminal''"

definition postMessageToPort :: "client_message \<Rightarrow> session \<Rightarrow> (command_error + unit) \<times> session" where
  "postMessageToPort m s =
     (if se_portTakes s then (Inr (), s\<lparr>se_sent := se_sent s @ [m]\<rparr>)
      else (Inl (session_error ''transport'' ''browser terminal port does not support postMessage''), s))"

section \<open>Requests\<close>

definition terminal_size_value :: "js_number \<Rightarrow> command_error + int" where
  "terminal_size_value value =
     (let bad = Inl (session_error ''invalid_request'' ''browser terminal size must be a positive integer'') in
      case safe_integer value of Some n \<Rightarrow> if n > 0 then Inr n else bad | None \<Rightarrow> bad)"

definition DEFAULT_COLUMNS :: int where "DEFAULT_COLUMNS = 80"
definition DEFAULT_ROWS :: int where "DEFAULT_ROWS = 24"

definition normalizeTerminalSize :: "terminal_fields \<Rightarrow> command_error + int \<times> int" where
  "normalizeTerminalSize value =
     bindR (terminal_size_value (field_or (or_else (tf_columns value) (tf_cols value)) (Finite DEFAULT_COLUMNS 0))) (\<lambda>columns.
     bindR (terminal_size_value (field_or (tf_rows value) (Finite DEFAULT_ROWS 0))) (\<lambda>rows.
     Inr (columns, rows)))"

definition size_fields :: "int \<times> int \<Rightarrow> terminal_fields" where
  "size_fields size' = \<lparr>tf_columns = Some (Finite (fst size') 0), tf_cols = None, tf_rows = Some (Finite (snd size') 0)\<rparr>"

definition no_terminal :: terminal_fields where
  "no_terminal = \<lparr>tf_columns = None, tf_cols = None, tf_rows = None\<rparr>"

text \<open>\<open>normalizeRunMessage\<close>: the message is the run itself, with the fields it lacks filled in.\<close>

definition session_run_message :: "run_message \<Rightarrow> command_error + string \<times> run_fields" where
  "session_run_message value =
     (let run = message_run value;
          id' = js_trim (some_text (or_else (rf_id run) (rf_id (snd value)))) in
      checkR (id' \<noteq> []) (session_error ''invalid_request'' ''run id is required'')
      (let message = run\<lparr>rf_cwd := Some (field_or (rf_cwd run) ''/workspace''), rf_id := Some id',
             rf_stdinOpen := Some (field_or (rf_stdinOpen run) True)\<rparr> in
       case or_else (rf_terminal run) (rf_terminal (snd value)) of
         None \<Rightarrow> Inr (id', message)
       | Some terminal \<Rightarrow>
           bindR (normalizeTerminalSize (field_or terminal no_terminal)) (\<lambda>size'.
           Inr (id', message\<lparr>rf_terminal := Some (Some (size_fields size'))\<rparr>))))"

definition session_start :: "run_message \<Rightarrow> session \<Rightarrow> (command_error + unit) \<times> session" where
  "session_start run s =
     (if se_completion s
      then (Inl (session_error ''invalid_state'' ''browser terminal session is already running''), s)
      else
        (case session_run_message run of
           Inl e \<Rightarrow> (Inl e, s)
         | Inr (id', message) \<Rightarrow>
             postMessageToPort (Cmd_run (None, message))
               (s\<lparr>se_id := Some id', se_stdoutClosed := False, se_stderrClosed := False, se_listening := True,
                  se_completion := True\<rparr>)))"

definition session_load :: "load_message \<Rightarrow> session \<Rightarrow> (command_error + unit) \<times> session" where
  "session_load m = postMessageToPort (Cmd_load m)"

definition postForActiveRun :: "(string option \<Rightarrow> client_message) \<Rightarrow> session \<Rightarrow> (command_error + unit) \<times> session" where
  "postForActiveRun m s =
     (case se_id s of
        None \<Rightarrow> (Inl (session_error ''invalid_state'' ''browser terminal session has not started''), s)
      | Some id' \<Rightarrow> postMessageToPort (m (Some id')) s)"

abbreviation (input) "terminal_chunks \<equiv> ''browser terminal chunks must be bytes or strings''"

definition terminal_bytes :: "chunk_value \<Rightarrow> command_error + byte list" where
  "terminal_bytes value =
     (case toUint8Array value terminal_chunks of
        Inl e \<Rightarrow> Inl (session_error ''invalid_request'' terminal_chunks) | Inr bytes \<Rightarrow> Inr bytes)"

definition writeStdin :: "chunk_value \<Rightarrow> session \<Rightarrow> (command_error + unit) \<times> session" where
  "writeStdin chunk s =
     (case terminal_bytes chunk of
        Inl e \<Rightarrow> (Inl e, s)
      | Inr bytes \<Rightarrow> postForActiveRun (\<lambda>id'. Cmd_stdin id' \<lparr>sm_chunk = Some (Chunk_bytes bytes), sm_chunkBase64 = None\<rparr>) s)"

definition closeStdin :: "session \<Rightarrow> (command_error + unit) \<times> session" where
  "closeStdin = postForActiveRun Cmd_stdin_end"

definition errorStdin :: "stdin_error_fields \<Rightarrow> session \<Rightarrow> (command_error + unit) \<times> session" where
  "errorStdin e = postForActiveRun (\<lambda>id'. Cmd_stdin_error id'
     \<lparr>se_kind = Some (field_or (se_kind e) ''transport''),
      se_message = Some (field_or (se_message e) ''browser terminal stdin failed'')\<rparr>)"

definition session_resize :: "terminal_fields \<Rightarrow> session \<Rightarrow> (command_error + unit) \<times> session" where
  "session_resize size' s =
     (case normalizeTerminalSize size' of
        Inl e \<Rightarrow> (Inl e, s)
      | Inr dimensions \<Rightarrow> postForActiveRun (\<lambda>id'. Cmd_resize id' (size_fields dimensions)) s)"

definition session_cancel :: "session \<Rightarrow> (command_error + unit) \<times> session" where
  "session_cancel = postForActiveRun Cmd_cancel"

section \<open>Messages from the worker\<close>

definition sink :: "sink_call list \<Rightarrow> session \<Rightarrow> session" where
  "sink calls s = s\<lparr>se_sink := se_sink s @ calls\<rparr>"

definition emit :: "sink_event \<Rightarrow> session \<Rightarrow> session" where
  "emit e s = sink [Sink_event (se_id s) e] s"

definition writeOutput :: "bool \<Rightarrow> byte list \<Rightarrow> session \<Rightarrow> session" where
  "writeOutput out bytes s = sink [Sink_stream out bytes, Sink_write out bytes] (emit (Output_event out bytes) s)"

definition closeOutput :: "bool \<Rightarrow> session \<Rightarrow> session" where
  "closeOutput out s =
     (if (if out then se_stdoutClosed s else se_stderrClosed s) then s
      else sink [Sink_close_stream out, Sink_close out]
        (emit (Close_event out) (if out then s\<lparr>se_stdoutClosed := True\<rparr> else s\<lparr>se_stderrClosed := True\<rparr>)))"

definition terminalErrorFromMessage :: "error_payload \<Rightarrow> command_error" where
  "terminalErrorFromMessage p = worker_error (ep_kind p) (ep_message p) (ep_stage p)"

text \<open>A promise is settled once: \<open>resolve\<close> and \<open>reject\<close> are called only while the completion is there.\<close>

definition finish :: "error_payload option \<Rightarrow> command_result \<Rightarrow> session \<Rightarrow> session" where
  "finish failed result s =
     (let s = closeOutput False (closeOutput True s);
          s = emit (case failed of Some p \<Rightarrow> Error_event p result | None \<Rightarrow> Complete_event result) s;
          s = sink [Sink_exit result failed] s;
          outcome = (case failed of Some p \<Rightarrow> Inl (terminalErrorFromMessage p) | None \<Rightarrow> Inr result) in
      s\<lparr>se_listening := False, se_settled := (if se_completion s then se_settled s @ [outcome] else se_settled s),
        se_completion := False, se_id := None\<rparr>)"

fun post_id :: "worker_post \<Rightarrow> string option" where
  "post_id (Post_loaded i p) = Some i"
| "post_id (Post_catalog i path entries) = i"
| "post_id (Post_started i packageId command args cwd) = Some i"
| "post_id (Post_output out i bytes) = Some i"
| "post_id (Post_close out i) = Some i"
| "post_id (Post_complete i r) = Some i"
| "post_id (Post_error i p r) = i"

text \<open>
  \<open>handleMessage\<close>. A message without an id does not match a session without one: the one id is
  \<open>undefined\<close>, the other \<open>null\<close>, but for a catalogue, which has no case in the switch.
\<close>

definition session_message :: "worker_post \<Rightarrow> session \<Rightarrow> session" where
  "session_message m s =
     (if \<not> se_listening s \<or> post_id m = None \<or> post_id m \<noteq> se_id s then s
      else (case m of
              Post_started i packageId command args cwd \<Rightarrow> emit Started_event s
            | Post_output out i bytes \<Rightarrow> writeOutput out bytes s
            | Post_close out i \<Rightarrow> closeOutput out s
            | Post_complete i r \<Rightarrow> finish None r s
            | Post_error i p r \<Rightarrow> finish (Some p) r s
            | _ \<Rightarrow> s))"

definition session_messages :: "worker_post list \<Rightarrow> session \<Rightarrow> session" where
  "session_messages ms s = fold session_message ms s"

section \<open>What the sink is shown\<close>

fun shown :: "bool \<Rightarrow> sink_call list \<Rightarrow> byte list" where
  "shown out [] = []"
| "shown out (Sink_write o' bytes # calls) = (if o' = out then bytes @ shown out calls else shown out calls)"
| "shown out (c # calls) = shown out calls"

fun ends_output :: "sink_call \<Rightarrow> bool" where
  "ends_output (Sink_close out) \<longleftrightarrow> True"
| "ends_output (Sink_exit r e) \<longleftrightarrow> True"
| "ends_output c \<longleftrightarrow> False"

lemma shown_append [simp]: "shown out (cs @ ds) = shown out cs @ shown out ds"
  by (induction out cs rule: shown.induct) auto

definition running :: "string \<Rightarrow> session \<Rightarrow> bool" where
  "running id' s \<longleftrightarrow> se_id s = Some id' \<and> se_listening s \<and> se_completion s \<and> \<not> se_stdoutClosed s \<and> \<not> se_stderrClosed s"

lemma session_start_running:
  "session_start run s = (Inr (), s') \<Longrightarrow> \<exists>id'. running id' s' \<and> se_sink s' = se_sink s \<and> se_settled s' = se_settled s"
  by (auto simp: session_start_def postMessageToPort_def running_def split: if_splits sum.splits)

lemma outputs_shown:
  assumes "running id' s" "list_all (is_output id') ms"
  shows "\<exists>calls. session_messages ms s = sink calls s \<and> shown out calls = out_bytes out ms \<and> \<not> list_ex ends_output calls"
  using assms
proof (induction ms arbitrary: s)
  case (Cons m ms)
  then obtain o' bytes where m: "m = Post_output o' id' bytes" by (cases m) auto
  let ?c = "[Sink_event (se_id s) (Output_event o' bytes), Sink_stream o' bytes, Sink_write o' bytes]"
  have step: "session_message m s = sink ?c s"
    using Cons.prems(1) by (simp add: m session_message_def running_def writeOutput_def emit_def sink_def)
  have "running id' (sink ?c s)" using Cons.prems(1) by (simp add: running_def sink_def)
  from Cons.IH [OF this] Cons.prems(2) obtain calls where
    "session_messages ms (sink ?c s) = sink calls (sink ?c s)" "shown out calls = out_bytes out ms"
    "\<not> list_ex ends_output calls" by auto
  then have "session_messages (m # ms) s = sink (?c @ calls) s" "shown out (?c @ calls) = out_bytes out (m # ms)"
    "\<not> list_ex ends_output (?c @ calls)"
    using step by (simp_all add: session_messages_def sink_def m)
  then show ?case by blast
qed (auto simp: session_messages_def sink_def intro: exI [of _ "[]"])

definition outcome_of :: "worker_post \<Rightarrow> command_result \<Rightarrow> command_error + command_result" where
  "outcome_of m r = (case m of Post_error i p r' \<Rightarrow> Inl (terminalErrorFromMessage p) | _ \<Rightarrow> Inr r)"

lemma no_endings: "\<not> list_ex ends_output calls \<Longrightarrow> filter ends_output calls = []"
  by (simp add: list_ex_iff filter_empty_conv)

lemma closed_and_ended:
  assumes "running id' s" "ending id' m = Some r"
  shows "\<exists>calls failed. session_messages (closing id' m) s =
      s\<lparr>se_id := None, se_listening := False, se_stdoutClosed := True, se_stderrClosed := True, se_completion := False,
        se_settled := se_settled s @ [outcome_of m r], se_sink := se_sink s @ calls @ [Sink_exit r failed]\<rparr> \<and>
    shown out calls = [] \<and> filter ends_output calls = [Sink_close True, Sink_close False]"
proof -
  have "\<exists>failed. m = (case failed of Some p \<Rightarrow> Post_error (Some id') p r | None \<Rightarrow> Post_complete id' r)"
    using assms(2)
    by (cases m) (auto split: if_splits intro: exI [of _ None] exI [of _ "Some (x :: error_payload)" for x])
  then obtain failed where m: "m = (case failed of Some p \<Rightarrow> Post_error (Some id') p r | None \<Rightarrow> Post_complete id' r)"
    by blast
  let ?closes = "[Sink_event (Some id') (Close_event True), Sink_close_stream True, Sink_close True,
    Sink_event (Some id') (Close_event False), Sink_close_stream False, Sink_close False]"
  let ?calls = "?closes @ [Sink_event (Some id') (case failed of Some p \<Rightarrow> Error_event p r | None \<Rightarrow> Complete_event r)]"
  let ?s = "s\<lparr>se_stdoutClosed := True, se_stderrClosed := True, se_sink := se_sink s @ ?closes\<rparr>"
  have "session_messages (closing id' m) s = finish failed r ?s"
    using assms(1)
    by (cases failed) (simp_all add: m session_messages_def closing_def session_message_def running_def closeOutput_def
        emit_def sink_def)
  also have "\<dots> = s\<lparr>se_id := None, se_listening := False, se_stdoutClosed := True, se_stderrClosed := True, se_completion := False,
        se_settled := se_settled s @ [outcome_of m r], se_sink := se_sink s @ ?calls @ [Sink_exit r failed]\<rparr>"
    using assms(1)
    by (intro session.equality; cases failed)
      (simp_all add: m finish_def closeOutput_def emit_def sink_def running_def outcome_of_def Let_def)
  finally show ?thesis by (intro exI [of _ ?calls] exI [of _ failed]) simp
qed

lemma opening_shown:
  assumes "running id' s" "opened id' pre"
  shows "\<exists>calls. session_messages pre s = sink calls s \<and> shown out calls = out_bytes out pre \<and> \<not> list_ex ends_output calls"
proof (cases pre)
  case Nil
  then show ?thesis by (auto simp: session_messages_def sink_def intro: exI [of _ "[]"])
next
  case (Cons m ms)
  then have m: "\<exists>packageId command args cwd. m = Post_started id' packageId command args cwd" "list_all (is_output id') ms"
    using assms(2) by (cases m; auto)+
  let ?c = "[Sink_event (se_id s) Started_event]"
  have step: "session_message m s = sink ?c s"
    using assms(1) m(1) by (auto simp: session_message_def running_def emit_def sink_def)
  have "running id' (sink ?c s)" using assms(1) by (simp add: running_def sink_def)
  from outputs_shown [OF this m(2)] obtain calls where
    "session_messages ms (sink ?c s) = sink calls (sink ?c s)" "shown out calls = out_bytes out ms" "\<not> list_ex ends_output calls"
    by blast
  then have "session_messages pre s = sink (?c @ calls) s \<and> shown out (?c @ calls) = out_bytes out pre \<and>
      \<not> list_ex ends_output (?c @ calls)"
    using step m(1) Cons by (auto simp: session_messages_def sink_def)
  then show ?thesis by blast
qed

lemma session_messages_append: "session_messages (ms @ ns) s = session_messages ns (session_messages ms s)"
  by (simp add: session_messages_def)

text \<open>
  C12: when a session has started a run and the worker has ended it, the messages of the run show the
  sink exactly the bytes the command wrote to each stream, close each stream once, and then exit once
  with the result; the promise of the run is settled once, and the session is ready for another run.
\<close>

theorem session_shows_run:
  assumes "w = run_worker env evs new_worker" "i < length (wk_runs w)" "rt_stage (run_at w i) = Finished"
    and "running (ar_id (active_at w i)) s"
  shows "\<exists>calls r failed outcome. session_messages (posted_by w i) s =
      s\<lparr>se_id := None, se_listening := False, se_stdoutClosed := True, se_stderrClosed := True, se_completion := False,
        se_settled := se_settled s @ [outcome], se_sink := se_sink s @ calls @ [Sink_exit r failed]\<rparr> \<and>
    shown out calls = out_bytes out (posted_by w i) \<and> filter ends_output calls = [Sink_close True, Sink_close False] \<and>
    rs_stdoutBytes r = int (length (out_bytes True (posted_by w i))) \<and>
    rs_stderrBytes r = int (length (out_bytes False (posted_by w i)))"
proof -
  let ?id = "ar_id (active_at w i)"
  have "worker_ok w" unfolding assms(1) by (rule run_worker_ok [OF new_worker_ok])
  then obtain pre m r where posts: "posted_by w i = pre @ closing ?id m" "opened ?id pre" "ending ?id m = Some r"
      "rs_stdoutBytes r = int (length (out_bytes True pre))" "rs_stderrBytes r = int (length (out_bytes False pre))"
    using finished_run assms(2,3) by metis
  obtain calls where c: "session_messages pre s = sink calls s" "shown out calls = out_bytes out pre" "\<not> list_ex ends_output calls"
    using opening_shown [OF assms(4) posts(2)] by blast
  have "running ?id (sink calls s)" using assms(4) by (simp add: running_def sink_def)
  from closed_and_ended [OF this posts(3), of out] obtain calls' failed where
    e: "session_messages (closing ?id m) (sink calls s) =
      (sink calls s)\<lparr>se_id := None, se_listening := False, se_stdoutClosed := True, se_stderrClosed := True,
        se_completion := False, se_settled := se_settled (sink calls s) @ [outcome_of m r],
        se_sink := se_sink (sink calls s) @ calls' @ [Sink_exit r failed]\<rparr>"
      "shown out calls' = []" "filter ends_output calls' = [Sink_close True, Sink_close False]"
    by blast
  have "out_bytes o' (closing ?id m) = []" for o'
    using posts(3) by (cases m) (auto simp: closing_def)
  then show ?thesis
    unfolding posts(1) session_messages_append c(1) e(1)
    by (intro exI [of _ "calls @ calls'"] exI [of _ r] exI [of _ failed] exI [of _ "outcome_of m r"])
      (simp add: sink_def c(2) e(2,3) no_endings [OF c(3)] posts(4,5))
qed

definition example_session :: session where
  "example_session = snd (session_start (None, plain_fields) (new_session True))"

lemma example_session_running: "running ''r1'' example_session \<and> length (se_sent example_session) = 1"
  unfolding running_def by code_simp

theorem session_shows_run_witness:
  "let s = session_messages (posted_by (run_worker example_env finished_events new_worker) 0) example_session in
   shown True (se_sink s) = [1, 2] \<and> length (filter ends_output (se_sink s)) = 3 \<and> length (se_settled s) = 1"
proof -
  define w where "w = run_worker example_env finished_events new_worker"
  have w: "0 < length (wk_runs w)" "rt_stage (run_at w 0) = Finished" "ar_id (active_at w 0) = ''r1''"
      "out_bytes True (posted_by w 0) = [1, 2]"
    unfolding w_def by code_simp+
  have s: "running (ar_id (active_at w 0)) example_session" "se_sink example_session = []" "se_settled example_session = []"
    using example_session_running w(3) by (simp_all add: example_session_def session_start_def new_session_def
      postMessageToPort_def split: sum.split prod.split) 
  show ?thesis
    using session_shows_run [OF w_def w(1,2) s(1), of True] w(4) s(2,3) by (fastforce simp: Let_def w_def)
qed

section \<open>Where a session gets stuck or ends too early\<close>

text \<open>A port that throws leaves the session with a promise that nothing settles: it cannot start again.\<close>

lemma failed_start_sticks:
  assumes "session_start run s = (Inl e, s')" "\<not> se_completion s" "session_run_message run = Inr m"
  shows "fst (session_start run' s') = Inl (session_error ''invalid_state'' ''browser terminal session is already running'')"
  using assms by (auto simp: session_start_def postMessageToPort_def split: prod.splits if_splits)

text \<open>
  Any error message under the id of the run ends the session, also the answer of the worker to a bad
  message about a run that goes on (\<open>bad_resize_posts_error\<close>).
\<close>

lemma stray_error_ends_session:
  assumes "running id' s"
  shows "se_id (session_message (Post_error (Some id') p r) s) = None"
  using assms by (simp add: session_message_def running_def finish_def emit_def sink_def Let_def)

text \<open>The sizes a session sends are ones the worker takes.\<close>

lemma session_size_accepted:
  assumes "normalizeTerminalSize v = Inr d"
  shows "terminalResizeFromMessage (size_fields d) = Inr d"
  using assms
  by (auto simp: normalizeTerminalSize_def bindR_Inr terminal_size_value_def terminalResizeFromMessage_def size_fields_def
      terminalSizeValue_def safe_integer_def js_integer_def or_else_def Let_def split: option.splits if_splits)

end
