(* ===== verification/Json_Rpc.thy ===== *)
theory Json_Rpc imports Command_Run begin

text \<open>
  The JSON-RPC client of \<open>apps/web/src/app-server-transport.js\<close> and the loopback socket it talks
  through. Calls of the client, events of the socket and timers come in any order; a promise is a
  number, and what it is settled with is kept in \<open>rp_settled\<close>. A frame is the value \<open>JSON.parse\<close>
  gives, or malformed. Listeners are told in \<open>rp_events\<close> and do not call back. Proved: no promise is
  settled twice; a response settles the request whose number it has and no other; a close leaves no
  request and no waiter pending.
\<close>

section \<open>JSON\<close>

definition int_text :: "int \<Rightarrow> string" where
  "int_text n = (if n < 0 then ''-'' @ decimal (nat (- n)) else decimal (nat n))"

definition json_char :: "char \<Rightarrow> string" where
  "json_char c =
     (let n = of_char c :: nat; hex = (\<lambda>d. if d < 10 then char_of (48 + d) else char_of (87 + d)) in
      if c = CHR 0x22 then [CHR 0x5C, CHR 0x22] else if c = CHR 0x5C then [CHR 0x5C, CHR 0x5C]
      else if n = 8 then [CHR 0x5C, CHR ''b''] else if n = 9 then [CHR 0x5C, CHR ''t'']
      else if n = 10 then [CHR 0x5C, CHR ''n''] else if n = 12 then [CHR 0x5C, CHR ''f'']
      else if n = 13 then [CHR 0x5C, CHR ''r'']
      else if n < 32 then [CHR 0x5C, CHR ''u'', CHR ''0'', CHR ''0'', hex (n div 16), hex (n mod 16)]
      else [c])"

definition json_string :: "string \<Rightarrow> string" where
  "json_string s = [CHR 0x22] @ concat (map json_char s) @ [CHR 0x22]"

text \<open>
  \<open>JSON.stringify\<close>; \<open>None\<close> is \<open>undefined\<close>. The text of a number that is no safe integer is the
  argument \<open>number_text\<close>.
\<close>

fun json_text :: "(js_number \<Rightarrow> string) \<Rightarrow> js_value \<Rightarrow> string option" where
  "json_text number_text Undefined = None"
| "json_text number_text Null = Some ''null''"
| "json_text number_text (Boolean b) = Some (if b then ''true'' else ''false'')"
| "json_text number_text (Number v) =
     (case v of
        Finite m e \<Rightarrow> (case safe_integer v of Some n \<Rightarrow> Some (int_text n) | None \<Rightarrow> Some (number_text v))
      | _ \<Rightarrow> Some ''null'')"
| "json_text number_text (Text s) = Some (json_string s)"
| "json_text number_text (Bytes bs) =
     Some (''{'' @ js_join '','' (map (\<lambda>i. json_string (int_text (int i)) @ '':'' @ int_text (uint (bs ! i))) [0..<length bs]) @ ''}'')"
| "json_text number_text (Array vs) =
     Some (''['' @ js_join '','' (map (\<lambda>v. case json_text number_text v of Some t \<Rightarrow> t | None \<Rightarrow> ''null'') vs) @ '']'')"
| "json_text number_text (Object props p) =
     Some (''{'' @ js_join '','' (concat (map (\<lambda>(k, v). case json_text number_text v of
        Some t \<Rightarrow> [json_string k @ '':'' @ t] | None \<Rightarrow> []) props)) @ ''}'')"

definition requestKey :: "(js_number \<Rightarrow> string) \<Rightarrow> js_value \<Rightarrow> string option" where
  "requestKey number_text id' = json_text number_text id'"

section \<open>The loopback socket\<close>

datatype ready_state = Connecting | Open | Closing | Closed

record rpc_error =
  re_code :: string
  re_message :: string

definition transport_error :: "string \<Rightarrow> string \<Rightarrow> rpc_error" where
  "transport_error code message = \<lparr>re_code = code, re_message = message\<rparr>"

record socket =
  so_readyState :: ready_state
  so_queue :: "string list"
  so_busy :: bool
  so_closeTask :: "(int \<times> string) option"

definition socket_send :: "string \<Rightarrow> socket \<Rightarrow> (rpc_error + unit) \<times> socket" where
  "socket_send text s =
     (if so_readyState s \<noteq> Open
      then (Inl (transport_error ''closed'' ''browser app-server loopback socket is not open''), s)
      else (Inr (), s\<lparr>so_queue := so_queue s @ [text]\<rparr>))"

definition socket_close :: "int \<Rightarrow> string \<Rightarrow> socket \<Rightarrow> socket" where
  "socket_close code reason s =
     (if so_readyState s = Closing \<or> so_readyState s = Closed then s
      else s\<lparr>so_readyState := Closing, so_closeTask := Some (code, reason)\<rparr>)"

section \<open>The client\<close>

datatype outcome = Resolved js_value | Rejected_rpc js_value | Rejected rpc_error

datatype rpc_event =
    Notification_event js_value
  | Unmatched_event js_value
  | Rpc_error_event rpc_error
  | Rpc_close_event int string

record waiter =
  wt_promise :: nat
  wt_method :: string
  wt_predicate :: "js_value \<Rightarrow> bool"
  wt_timer :: bool

record rpc =
  rp_socket :: socket
  rp_closed :: bool
  rp_notifications :: "js_value list"
  rp_waiters :: "waiter list"
  rp_pending :: "(string \<times> nat) list"
  rp_requestId :: int
  rp_promises :: nat
  rp_settled :: "(nat \<times> outcome) list"
  rp_events :: "rpc_event list"

definition new_rpc :: "int \<Rightarrow> rpc" where
  "new_rpc initialRequestId =
     \<lparr>rp_socket = \<lparr>so_readyState = Open, so_queue = [], so_busy = False, so_closeTask = None\<rparr>, rp_closed = False,
      rp_notifications = [], rp_waiters = [], rp_pending = [], rp_requestId = initialRequestId, rp_promises = 0,
      rp_settled = [], rp_events = []\<rparr>"

definition rpc_emit :: "rpc_event \<Rightarrow> rpc \<Rightarrow> rpc" where
  "rpc_emit e c = c\<lparr>rp_events := rp_events c @ [e]\<rparr>"

definition jsonRpcMessage :: "js_value \<Rightarrow> js_value \<Rightarrow> js_value \<Rightarrow> rpc_error + js_value" where
  "jsonRpcMessage method params id' =
     (case method of
        Text m \<Rightarrow>
          if m = [] then Inl (transport_error ''invalid_request'' ''JSON-RPC method must be a non-empty string'')
          else Inr (Object ([(''jsonrpc'', Text ''2.0''), (''method'', Text m)] @
                 (if id' \<noteq> Undefined then [(''id'', id')] else []) @
                 (if params \<noteq> Undefined then [(''params'', params)] else [])) Object_prototype)
      | _ \<Rightarrow> Inl (transport_error ''invalid_request'' ''JSON-RPC method must be a non-empty string''))"

definition client_closed :: rpc_error where
  "client_closed = transport_error ''closed'' ''browser app-server JSON-RPC client is closed''"

definition client_was_closed :: rpc_error where
  "client_was_closed = transport_error ''closed'' ''browser app-server JSON-RPC client closed''"

definition assertOpen :: "rpc \<Rightarrow> rpc_error + unit" where
  "assertOpen c = checkR (\<not> (rp_closed c \<or> so_readyState (rp_socket c) \<noteq> Open)) client_closed (Inr ())"

definition on_socket :: "(socket \<Rightarrow> (rpc_error + unit) \<times> socket) \<Rightarrow> rpc \<Rightarrow> (rpc_error + unit) \<times> rpc" where
  "on_socket f c = (case f (rp_socket c) of (r, s) \<Rightarrow> (r, c\<lparr>rp_socket := s\<rparr>))"

definition key_of :: "(js_number \<Rightarrow> string) \<Rightarrow> js_value \<Rightarrow> string" where
  "key_of number_text id' = (case requestKey number_text id' of Some k \<Rightarrow> k | None \<Rightarrow> ''undefined'')"

text \<open>\<open>request\<close> returns the number of its promise, or throws; the request number is used up either way.\<close>

definition rpc_request :: "(js_number \<Rightarrow> string) \<Rightarrow> js_value \<Rightarrow> js_value \<Rightarrow> rpc \<Rightarrow> (rpc_error + nat) \<times> rpc" where
  "rpc_request number_text method params c =
     (case assertOpen c of
        Inl e \<Rightarrow> (Inl e, c)
      | Inr _ \<Rightarrow>
          (let id' = Integer (rp_requestId c); c = c\<lparr>rp_requestId := rp_requestId c + 1\<rparr> in
           case jsonRpcMessage method params id' of
             Inl e \<Rightarrow> (Inl e, c)
           | Inr message \<Rightarrow>
               (let n = rp_promises c; key = key_of number_text id';
                    c = c\<lparr>rp_promises := n + 1, rp_pending := AList.update key n (rp_pending c)\<rparr> in
                case on_socket (socket_send (case json_text number_text message of Some t \<Rightarrow> t | None \<Rightarrow> [])) c of
                  (Inr _, c) \<Rightarrow> (Inr n, c)
                | (Inl e, c) \<Rightarrow> (Inl e, c\<lparr>rp_pending := AList.delete key (rp_pending c)\<rparr>))))"

definition rpc_notify :: "(js_number \<Rightarrow> string) \<Rightarrow> js_value \<Rightarrow> js_value \<Rightarrow> rpc \<Rightarrow> (rpc_error + unit) \<times> rpc" where
  "rpc_notify number_text method params c =
     (case assertOpen c of
        Inl e \<Rightarrow> (Inl e, c)
      | Inr _ \<Rightarrow>
          (case jsonRpcMessage method params Undefined of
             Inl e \<Rightarrow> (Inl e, c)
           | Inr message \<Rightarrow> on_socket (socket_send (case json_text number_text message of Some t \<Rightarrow> t | None \<Rightarrow> [])) c))"

definition settle :: "nat list \<Rightarrow> outcome \<Rightarrow> rpc \<Rightarrow> rpc" where
  "settle ns r c = c\<lparr>rp_settled := rp_settled c @ map (\<lambda>n. (n, r)) ns\<rparr>"

definition has_method :: "string \<Rightarrow> js_value \<Rightarrow> bool" where
  "has_method m v \<longleftrightarrow> js_get v ''method'' = Text m"

definition waitForNotification :: "string \<Rightarrow> (js_value \<Rightarrow> bool) \<Rightarrow> bool \<Rightarrow> bool \<Rightarrow> rpc \<Rightarrow> nat \<times> rpc" where
  "waitForNotification method predicate replay timed c =
     (let n = rp_promises c; c = c\<lparr>rp_promises := n + 1\<rparr> in
      case (if replay then find (\<lambda>v. has_method method v \<and> predicate v) (rp_notifications c) else None) of
        Some v \<Rightarrow> (n, settle [n] (Resolved v) c)
      | None \<Rightarrow>
          (n, c\<lparr>rp_waiters := rp_waiters c @
            [\<lparr>wt_promise = n, wt_method = method, wt_predicate = predicate, wt_timer = timed\<rparr>]\<rparr>))"

definition waiter_timeout :: "nat \<Rightarrow> rpc \<Rightarrow> rpc" where
  "waiter_timeout n c =
     (case find (\<lambda>w. wt_promise w = n \<and> wt_timer w) (rp_waiters c) of
        None \<Rightarrow> c
      | Some w \<Rightarrow>
          settle [n] (Rejected (transport_error ''timeout'' (''browser app-server notification timed out: '' @ wt_method w)))
            (c\<lparr>rp_waiters := filter (\<lambda>v. wt_promise v \<noteq> n) (rp_waiters c)\<rparr>))"

definition rejectPending :: "rpc_error \<Rightarrow> rpc \<Rightarrow> rpc" where
  "rejectPending e c =
     (settle (map snd (rp_pending c) @ map wt_promise (rp_waiters c)) (Rejected e) c)
       \<lparr>rp_pending := [], rp_waiters := []\<rparr>"

definition rpc_close :: "int \<Rightarrow> string \<Rightarrow> rpc \<Rightarrow> rpc" where
  "rpc_close code reason c =
     (if rp_closed c then c
      else (let c = rejectPending client_was_closed (c\<lparr>rp_closed := True\<rparr>) in
            c\<lparr>rp_socket := socket_close code reason (rp_socket c)\<rparr>))"

section \<open>Events of the socket\<close>

definition handleResponse :: "(js_number \<Rightarrow> string) \<Rightarrow> js_value \<Rightarrow> rpc \<Rightarrow> rpc" where
  "handleResponse number_text message c =
     (let key = key_of number_text (js_get message ''id'') in
      case map_of (rp_pending c) key of
        None \<Rightarrow>
          rpc_emit (Rpc_error_event (transport_error ''unknown_response'' ''browser app-server emitted a response for an unknown request id''))
            (rpc_emit (Unmatched_event message) c)
      | Some n \<Rightarrow>
          settle [n] (if js_get message ''error'' \<noteq> Undefined then Rejected_rpc (js_get message ''error'')
                      else Resolved (js_get message ''result''))
            (c\<lparr>rp_pending := AList.delete key (rp_pending c)\<rparr>))"

definition resolveNotificationWaiters :: "js_value \<Rightarrow> rpc \<Rightarrow> rpc" where
  "resolveNotificationWaiters message c =
     (let matches = (\<lambda>w. has_method (wt_method w) message \<and> wt_predicate w message) in
      settle (map wt_promise (filter matches (rp_waiters c))) (Resolved message)
        (c\<lparr>rp_waiters := filter (\<lambda>w. \<not> matches w) (rp_waiters c)\<rparr>))"

datatype frame = Malformed | Frame js_value

definition malformed :: "string \<Rightarrow> rpc \<Rightarrow> rpc" where
  "malformed what = rpc_emit (Rpc_error_event (transport_error ''malformed_frame'' (''browser app-server emitted '' @ what)))"

definition handleSocketMessage :: "(js_number \<Rightarrow> string) \<Rightarrow> frame \<Rightarrow> rpc \<Rightarrow> rpc" where
  "handleSocketMessage number_text f c =
     (case f of
        Malformed \<Rightarrow> malformed ''a malformed JSON frame'' c
      | Frame message \<Rightarrow>
          (case message of
             Object props p \<Rightarrow>
               if map_of props ''id'' \<noteq> None then handleResponse number_text message c
               else (case js_get message ''method'' of
                       Text m \<Rightarrow>
                         resolveNotificationWaiters message
                           (rpc_emit (Notification_event message) (c\<lparr>rp_notifications := rp_notifications c @ [message]\<rparr>))
                     | _ \<Rightarrow> malformed ''an unknown frame'' c)
           | _ \<Rightarrow> malformed ''a non-object frame'' c))"

definition handleSocketClose :: "int \<Rightarrow> string \<Rightarrow> rpc \<Rightarrow> rpc" where
  "handleSocketClose code reason c =
     rpc_emit (Rpc_close_event code reason) (rejectPending client_was_closed (c\<lparr>rp_closed := True\<rparr>))"

definition handleSocketError :: "rpc_error \<Rightarrow> rpc \<Rightarrow> rpc" where
  "handleSocketError e c = rpc_emit (Rpc_error_event e) (rejectPending e c)"

text \<open>
  The messages sent are dispatched one after another: a message is given to the runtime, and the next
  one waits until the runtime has answered with frames or failed. A message that comes up after the
  socket has closed is dropped, and so are the frames that come after it has.
\<close>

definition socket_dispatch :: "rpc \<Rightarrow> rpc" where
  "socket_dispatch c =
     (let s = rp_socket c in
      if so_busy s then c
      else (case so_queue s of
              [] \<Rightarrow> c
            | _ # rest \<Rightarrow> c\<lparr>rp_socket := s\<lparr>so_queue := rest, so_busy := so_readyState s = Open\<rparr>\<rparr>))"

definition socket_answer :: "(js_number \<Rightarrow> string) \<Rightarrow> rpc_error + frame list \<Rightarrow> rpc \<Rightarrow> rpc" where
  "socket_answer number_text answer c =
     (let s = rp_socket c; c' = c\<lparr>rp_socket := s\<lparr>so_busy := False\<rparr>\<rparr> in
      if \<not> so_busy s then c
      else (case answer of
              Inl e \<Rightarrow> handleSocketError e c'
            | Inr frames \<Rightarrow> if so_readyState s = Open then fold (handleSocketMessage number_text) frames c' else c'))"

definition socket_close_task :: "rpc \<Rightarrow> rpc" where
  "socket_close_task c =
     (case so_closeTask (rp_socket c) of
        None \<Rightarrow> c
      | Some (code, reason) \<Rightarrow>
          (let c' = c\<lparr>rp_socket := (rp_socket c)\<lparr>so_closeTask := None\<rparr>\<rparr> in
           if so_readyState (rp_socket c) = Closed then c'
           else handleSocketClose code reason (c'\<lparr>rp_socket := (rp_socket c')\<lparr>so_readyState := Closed\<rparr>\<rparr>)))"

section \<open>Any sequence of events\<close>

datatype rpc_step =
    Request js_value js_value
  | Notify js_value js_value
  | Wait string "js_value \<Rightarrow> bool" bool bool
  | Wait_timeout nat
  | Close_client int string
  | Close_socket int string
  | Dispatch
  | Answer "rpc_error + frame list"
  | Close_task

primrec rpc_perform :: "(js_number \<Rightarrow> string) \<Rightarrow> rpc_step \<Rightarrow> rpc \<Rightarrow> rpc" where
  "rpc_perform nt (Request method params) c = snd (rpc_request nt method params c)"
| "rpc_perform nt (Notify method params) c = snd (rpc_notify nt method params c)"
| "rpc_perform nt (Wait method predicate replay timed) c = snd (waitForNotification method predicate replay timed c)"
| "rpc_perform nt (Wait_timeout n) c = waiter_timeout n c"
| "rpc_perform nt (Close_client code reason) c = rpc_close code reason c"
| "rpc_perform nt (Close_socket code reason) c = c\<lparr>rp_socket := socket_close code reason (rp_socket c)\<rparr>"
| "rpc_perform nt Dispatch c = socket_dispatch c"
| "rpc_perform nt (Answer answer) c = socket_answer nt answer c"
| "rpc_perform nt Close_task c = socket_close_task c"

definition rpc_run :: "(js_number \<Rightarrow> string) \<Rightarrow> rpc_step list \<Rightarrow> rpc \<Rightarrow> rpc" where
  "rpc_run nt steps c = fold (rpc_perform nt) steps c"

section \<open>Listeners\<close>

text \<open>
  The listener tables of the socket and of the client: a listener is a number, \<open>None\<close> stands for
  \<open>null\<close>; with each goes its \<open>once\<close>. \<open>emitEvent\<close> calls the property listener first; the listeners
  called are returned in order.
\<close>

type_synonym listener_table = "(string \<times> (nat \<times> bool) list) list"

definition listeners_of :: "listener_table \<Rightarrow> string \<Rightarrow> (nat \<times> bool) list" where
  "listeners_of t ty = (case map_of t ty of Some ls \<Rightarrow> ls | None \<Rightarrow> [])"

definition addEventListener :: "string \<Rightarrow> nat option \<Rightarrow> bool \<Rightarrow> listener_table \<Rightarrow> listener_table" where
  "addEventListener ty listener once t =
     (case listener of
        None \<Rightarrow> t
      | Some l \<Rightarrow> AList.update ty (listeners_of t ty @ [(l, once)]) t)"

definition removeEventListener :: "string \<Rightarrow> nat option \<Rightarrow> listener_table \<Rightarrow> listener_table" where
  "removeEventListener ty listener t =
     (case map_of t ty of
        None \<Rightarrow> t
      | Some ls \<Rightarrow> AList.update ty (filter (\<lambda>r. Some (fst r) \<noteq> listener) ls) t)"

definition emitEvent :: "string \<Rightarrow> nat option \<Rightarrow> listener_table \<Rightarrow> nat list \<times> listener_table" where
  "emitEvent ty property t =
     (let called = (case property of Some l \<Rightarrow> [l] | None \<Rightarrow> []) in
      case map_of t ty of
        None \<Rightarrow> (called, t)
      | Some ls \<Rightarrow> (called @ map fst ls, AList.update ty (filter (\<lambda>r. \<not> snd r) ls) t))"

lemma listeners_of_update [simp]:
  "listeners_of (AList.update ty ls t) ty' = (if ty' = ty then ls else listeners_of t ty')"
  by (simp add: listeners_of_def update_conv)

lemma emitEvent_calls: "fst (emitEvent ty None t) = map fst (listeners_of t ty)"
  by (simp add: emitEvent_def listeners_of_def split: option.split)

text \<open>A listener added with \<open>once\<close> hears the next event of its type, and none after it.\<close>

lemma once_heard_once:
  assumes "\<forall>r \<in> set (listeners_of t ty). fst r \<noteq> l"
  defines "t1 \<equiv> addEventListener ty (Some l) True t"
  shows "l \<in> set (fst (emitEvent ty None t1)) \<and> l \<notin> set (fst (emitEvent ty None (snd (emitEvent ty None t1))))"
proof -
  have "map_of t1 ty = Some (listeners_of t ty @ [(l, True)])" by (simp add: t1_def addEventListener_def update_conv)
  then show ?thesis using assms(1)
    by (cases "map_of t ty") (auto simp: emitEvent_calls emitEvent_def Let_def listeners_of_def update_conv)
qed

lemma removed_hears_nothing: "l \<notin> set (fst (emitEvent ty None (removeEventListener ty (Some l) t)))"
  by (auto simp: emitEvent_calls removeEventListener_def listeners_of_def update_conv split: option.split)

section \<open>Request numbers\<close>

lemma decimal_inverse: "fold (\<lambda>d m. 10 * m + (of_char d - 48)) (decimal n) 0 = n"
proof (induction n rule: decimal.induct)
  case (1 n)
  show ?case
  proof (cases "n < 10")
    case True
    then show ?thesis by (simp add: decimal.simps [of n])
  next
    case False
    have "48 + n mod 10 < 256" using mod_less_divisor [of 10 n] by linarith
    then show ?thesis using 1 [OF False] False by (simp add: decimal.simps [of n])
  qed
qed

lemma decimal_inject [simp]: "decimal m = decimal n \<longleftrightarrow> m = n"
  by (metis decimal_inverse)

lemma int_text_inject: "0 \<le> m \<Longrightarrow> 0 \<le> n \<Longrightarrow> int_text m = int_text n \<longleftrightarrow> m = n"
  by (auto simp: int_text_def)

lemma key_of_Integer [simp]: "\<bar>n\<bar> \<le> max_safe_integer \<Longrightarrow> key_of nt (Integer n) = int_text n"
  by (simp add: key_of_def requestKey_def safe_integer_def js_integer_def)

section \<open>Every promise is accounted for\<close>

definition promises_of :: "rpc \<Rightarrow> nat multiset" where
  "promises_of c = mset (map fst (rp_settled c)) + mset (map snd (rp_pending c)) + mset (map wt_promise (rp_waiters c))"

definition rpc_ok :: "rpc \<Rightarrow> bool" where
  "rpc_ok c \<longleftrightarrow>
     promises_of c = mset [0..<rp_promises c] \<and> distinct (map fst (rp_pending c)) \<and>
     (\<forall>k \<in> fst ` set (rp_pending c). \<exists>n. 1 \<le> n \<and> n < rp_requestId c \<and> k = int_text n)"

lemma rpc_ok_cong:
  "\<lbrakk>rpc_ok c; promises_of c' = promises_of c; rp_promises c' = rp_promises c; rp_requestId c \<le> rp_requestId c';
    distinct (map fst (rp_pending c)) \<longrightarrow> distinct (map fst (rp_pending c'));
    fst ` set (rp_pending c') \<subseteq> fst ` set (rp_pending c)\<rbrakk> \<Longrightarrow> rpc_ok c'"
  unfolding rpc_ok_def by (metis (no_types, lifting) order_less_le_trans subsetD)

lemma mset_filter_parts: "mset (map f (filter P xs)) + mset (map f (filter (\<lambda>x. \<not> P x) xs)) = mset (map f xs)"
  by (induction xs) auto

lemma mset_delete:
  "\<lbrakk>map_of al k = Some n; distinct (map fst al)\<rbrakk> \<Longrightarrow>
   mset (map snd al) = add_mset n (mset (map snd (AList.delete k al)))"
proof (induction al)
  case (Cons x al)
  then show ?case
    by (cases x) (auto simp: AList.delete_id image_iff split: if_splits)
qed simp

lemma rpc_emit_ok [simp]: "rpc_ok (rpc_emit e c) = rpc_ok c"
  by (simp add: rpc_ok_def rpc_emit_def promises_of_def)

lemma socket_ok [simp]: "rpc_ok (rp_socket_update f c) = rpc_ok c"
  by (simp add: rpc_ok_def promises_of_def)

lemma notifications_ok [simp]: "rpc_ok (rp_notifications_update f c) = rpc_ok c"
  by (simp add: rpc_ok_def promises_of_def)

lemma closed_ok [simp]: "rpc_ok (rp_closed_update f c) = rpc_ok c"
  by (simp add: rpc_ok_def promises_of_def)

lemma rejectPending_ok: "rpc_ok c \<Longrightarrow> rpc_ok (rejectPending e c)"
  by (erule rpc_ok_cong) (simp_all add: rejectPending_def settle_def promises_of_def comp_def)

lemma resolveNotificationWaiters_ok: "rpc_ok c \<Longrightarrow> rpc_ok (resolveNotificationWaiters m c)"
  using mset_filter_parts [of wt_promise "\<lambda>w. has_method (wt_method w) m \<and> wt_predicate w m" "rp_waiters c"]
  by (elim rpc_ok_cong) (simp_all add: resolveNotificationWaiters_def Let_def settle_def promises_of_def comp_def)

lemma handleResponse_ok: "rpc_ok c \<Longrightarrow> rpc_ok (handleResponse nt m c)"
proof (cases "map_of (rp_pending c) (key_of nt (js_get m ''id''))")
  case (Some n)
  assume ok: "rpc_ok c"
  then have "distinct (map fst (rp_pending c))" by (simp add: rpc_ok_def)
  from mset_delete [OF Some this] show ?thesis using Some
    by (intro rpc_ok_cong [OF ok])
      (auto simp: handleResponse_def settle_def promises_of_def distinct_delete delete_keys distinct_removeAll)
qed (simp add: handleResponse_def)

lemma handleSocketMessage_ok: "rpc_ok c \<Longrightarrow> rpc_ok (handleSocketMessage nt f c)"
  by (simp add: handleSocketMessage_def malformed_def handleResponse_ok resolveNotificationWaiters_ok
      split: frame.split js_value.split)

lemma frames_ok: "rpc_ok c \<Longrightarrow> rpc_ok (fold (handleSocketMessage nt) fs c)"
  by (induction fs arbitrary: c) (simp_all add: handleSocketMessage_ok)

lemma mset_filter_eq:
  "mset (map f (filter (\<lambda>x. f x = a) xs)) = replicate_mset (count (mset (map f xs)) a) a"
  by (induction xs) auto

lemma waiting_once:
  assumes "rpc_ok c" "w \<in> set (rp_waiters c)"
  shows "count (mset (map wt_promise (rp_waiters c))) (wt_promise w) = 1"
proof -
  have "count (promises_of c) (wt_promise w) \<le> 1"
    using assms(1) distinct_count_atmost_1 [of "[0..<rp_promises c]"] by (simp add: rpc_ok_def del: mset_upt)
  moreover have "wt_promise w \<in># mset (map wt_promise (rp_waiters c))" using assms(2) by auto
  ultimately show ?thesis
    unfolding promises_of_def count_union by (metis One_nat_def add_leE count_greater_zero_iff le_antisym less_eq_Suc_le)
qed

lemma waiter_timeout_ok:
  assumes ok: "rpc_ok c"
  shows "rpc_ok (waiter_timeout n c)"
proof (cases "find (\<lambda>w. wt_promise w = n \<and> wt_timer w) (rp_waiters c)")
  case (Some w)
  then have w: "w \<in> set (rp_waiters c)" "wt_promise w = n" by (auto simp: find_Some_iff)
  have "mset (map wt_promise (filter (\<lambda>v. wt_promise v = n) (rp_waiters c))) = {#n#}"
    unfolding mset_filter_eq using waiting_once [OF ok w(1)] w(2) by simp
  with mset_filter_parts [of wt_promise "\<lambda>v. wt_promise v = n" "rp_waiters c"]
  have "add_mset n (mset (map wt_promise (filter (\<lambda>v. wt_promise v \<noteq> n) (rp_waiters c)))) =
        mset (map wt_promise (rp_waiters c))" by simp
  then show ?thesis using Some
    by (intro rpc_ok_cong [OF ok]) (simp_all add: waiter_timeout_def settle_def promises_of_def)
qed (simp add: waiter_timeout_def ok)

lemma waitForNotification_ok: "rpc_ok c \<Longrightarrow> rpc_ok (snd (waitForNotification m p r t c))"
  by (auto simp: waitForNotification_def Let_def settle_def rpc_ok_def promises_of_def add_ac simp del: mset_upt
      split: option.split)

lemma close_ok: "rpc_ok c \<Longrightarrow> rpc_ok (rpc_close code reason c)"
  by (simp add: rpc_close_def Let_def rejectPending_ok)

lemma dispatch_ok: "rpc_ok c \<Longrightarrow> rpc_ok (socket_dispatch c)"
  by (simp add: socket_dispatch_def Let_def split: list.split)

lemma answer_ok: "rpc_ok c \<Longrightarrow> rpc_ok (socket_answer nt a c)"
  by (simp add: socket_answer_def Let_def handleSocketError_def rejectPending_ok frames_ok split: sum.split)

lemma close_task_ok: "rpc_ok c \<Longrightarrow> rpc_ok (socket_close_task c)"
  by (simp add: socket_close_task_def Let_def handleSocketClose_def rejectPending_ok split: option.split prod.split)

lemma notify_ok: "rpc_ok c \<Longrightarrow> rpc_ok (snd (rpc_notify nt m p c))"
  by (simp add: rpc_notify_def on_socket_def split: sum.split prod.split)

lemma request_Open:
  "fst (rpc_request nt m p c) = Inr n \<Longrightarrow> so_readyState (rp_socket c) = Open"
  by (auto simp: rpc_request_def assertOpen_def checkR_def split: sum.splits if_splits)

lemma request_parts:
  "rpc_request nt m p c =
     (case assertOpen c of
        Inl e \<Rightarrow> (Inl e, c)
      | Inr _ \<Rightarrow>
          case jsonRpcMessage m p (Integer (rp_requestId c)) of
            Inl e \<Rightarrow> (Inl e, c\<lparr>rp_requestId := rp_requestId c + 1\<rparr>)
          | Inr message \<Rightarrow>
              (Inr (rp_promises c),
               c\<lparr>rp_requestId := rp_requestId c + 1, rp_promises := rp_promises c + 1,
                 rp_pending := AList.update (key_of nt (Integer (rp_requestId c))) (rp_promises c) (rp_pending c),
                 rp_socket := (rp_socket c)\<lparr>so_queue := so_queue (rp_socket c) @
                   [case json_text nt message of Some t \<Rightarrow> t | None \<Rightarrow> []]\<rparr>\<rparr>))"
  by (auto simp: rpc_request_def Let_def on_socket_def socket_send_def assertOpen_def checkR_def split: sum.split)

lemma request_ok:
  assumes ok: "rpc_ok c" and id: "1 \<le> rp_requestId c" "rp_requestId c \<le> max_safe_integer"
  shows "rpc_ok (snd (rpc_request nt m p c))"
proof -
  have key: "key_of nt (Integer (rp_requestId c)) = int_text (rp_requestId c)" using id by simp
  have "int_text (rp_requestId c) \<notin> fst ` set (rp_pending c)"
  proof
    assume "int_text (rp_requestId c) \<in> fst ` set (rp_pending c)"
    then obtain n where "1 \<le> n" "n < rp_requestId c" "int_text (rp_requestId c) = int_text n"
      using ok unfolding rpc_ok_def by blast
    then show False using int_text_inject id by auto
  qed
  note new = update_new [OF this]
  have "\<lbrakk>1 \<le> n; n < rp_requestId c\<rbrakk> \<Longrightarrow> n < rp_requestId c + 1" for n by simp
  then have "rpc_ok (c\<lparr>rp_requestId := rp_requestId c + 1\<rparr>)" by (intro rpc_ok_cong [OF ok]) (simp_all add: promises_of_def)
  moreover have "rpc_ok (c\<lparr>rp_requestId := rp_requestId c + 1, rp_promises := rp_promises c + 1,
      rp_pending := AList.update (key_of nt (Integer (rp_requestId c))) (rp_promises c) (rp_pending c), rp_socket := s\<rparr>)" for s
    using ok id \<open>_ \<notin> _\<close> unfolding rpc_ok_def promises_of_def key new
    by (simp add: add_ac) (metis add.commute less_add_one order_less_trans zless_add1_eq)
  ultimately show ?thesis using ok by (simp add: request_parts split: sum.split)
qed

lemma perform_ok:
  "\<lbrakk>rpc_ok c; 1 \<le> rp_requestId c; rp_requestId c \<le> max_safe_integer\<rbrakk> \<Longrightarrow> rpc_ok (rpc_perform nt s c)"
  by (cases s) (simp_all add: request_ok notify_ok waitForNotification_ok waiter_timeout_ok close_ok dispatch_ok
      answer_ok close_task_ok)

section \<open>Request numbers only grow\<close>

lemma requestId_kept [simp]:
  "rp_requestId (rpc_emit e c) = rp_requestId c"
  "rp_requestId (settle ns r c) = rp_requestId c"
  "rp_requestId (rejectPending x c) = rp_requestId c"
  "rp_requestId (malformed w c) = rp_requestId c"
  "rp_requestId (handleResponse nt m c) = rp_requestId c"
  "rp_requestId (resolveNotificationWaiters m c) = rp_requestId c"
  by (simp_all add: rpc_emit_def settle_def rejectPending_def malformed_def handleResponse_def Let_def
      resolveNotificationWaiters_def split: option.split)

lemma message_requestId [simp]: "rp_requestId (handleSocketMessage nt f c) = rp_requestId c"
  by (simp add: handleSocketMessage_def split: frame.split js_value.split)

lemma frames_requestId [simp]: "rp_requestId (fold (handleSocketMessage nt) fs c) = rp_requestId c"
  by (induction fs arbitrary: c) simp_all

lemma perform_requestId:
  "rp_requestId c \<le> rp_requestId (rpc_perform nt s c) \<and> rp_requestId (rpc_perform nt s c) \<le> rp_requestId c + 1"
  by (cases s)
    (simp_all add: request_parts rpc_notify_def on_socket_def waitForNotification_def Let_def waiter_timeout_def
      rpc_close_def socket_dispatch_def socket_answer_def handleSocketError_def socket_close_task_def handleSocketClose_def
      split: sum.split prod.split option.split list.split)

lemma run_ok:
  "\<lbrakk>rpc_ok c; 1 \<le> rp_requestId c; rp_requestId c + int (length steps) \<le> max_safe_integer + 1\<rbrakk> \<Longrightarrow>
   rpc_ok (rpc_run nt steps c)"
proof (induction steps arbitrary: c)
  case (Cons s steps)
  then show ?case using perform_requestId [of c nt s] Cons.IH [of "rpc_perform nt s c"] perform_ok [of c nt s]
    by (simp add: rpc_run_def)
qed (simp add: rpc_run_def)

section \<open>Properties\<close>

text \<open>
  C37: Whatever calls, answers, closes and timeouts come in whatever order, each promise the client has given
  out is settled once, or is the one of a pending request or a waiter: no promise is settled twice, none
  is both settled and pending, and none is lost. The runs are those whose request numbers stay safe
  integers. Closing a client that is not closed then leaves no request and no waiter: every promise has been settled.
\<close>

theorem promises_accounted:
  fixes nt steps first code reason
  defines "c \<equiv> rpc_run nt steps (new_rpc first)"
  assumes "1 \<le> first" "first + int (length steps) \<le> max_safe_integer + 1"
  shows "mset (map fst (rp_settled c)) + mset (map snd (rp_pending c)) + mset (map wt_promise (rp_waiters c)) =
           mset [0..<rp_promises c] \<and>
         (rp_closed c \<or> mset (map fst (rp_settled (rpc_close code reason c))) = mset [0..<rp_promises c])"
proof -
  have "rpc_ok (new_rpc first)" by (simp add: rpc_ok_def promises_of_def new_rpc_def)
  with assms have "rpc_ok c" unfolding c_def by (intro run_ok) (simp_all add: new_rpc_def)
  then have "promises_of c = mset [0..<rp_promises c]" by (simp add: rpc_ok_def)
  then show ?thesis
    by (simp add: promises_of_def rpc_close_def rejectPending_def settle_def multiset.map_comp comp_def add_ac
        del: mset_upt)
qed

lemma promises_accounted_witness:
  "let c = rpc_run (\<lambda>_. []) [Request (Text ''initialize'') Undefined, Wait ''turn/completed'' (\<lambda>_. True) True True,
         Request (Text ''turn/start'') Null, Dispatch, Answer (Inr [Frame (Object [(''id'', Integer 1)] Object_prototype)])]
         (new_rpc 1) in
   map fst (rp_settled c) = [0] \<and> rp_pending c = [(''2'', 2)] \<and> map wt_promise (rp_waiters c) = [1] \<and>
   mset (map fst (rp_settled (rpc_close 1000 [] c))) = mset [0..<3]"
proof -
  let ?c = "rpc_run (\<lambda>_. []) [Request (Text ''initialize'') Undefined, Wait ''turn/completed'' (\<lambda>_. True) True True,
         Request (Text ''turn/start'') Null, Dispatch, Answer (Inr [Frame (Object [(''id'', Integer 1)] Object_prototype)])]
         (new_rpc 1)"
  have c: "map fst (rp_settled ?c) = [0]" "rp_pending ?c = [(''2'', 2)]" "map wt_promise (rp_waiters ?c) = [1]"
    "rp_promises ?c = 3" "\<not> rp_closed ?c"
    by code_simp+
  from c promises_accounted [where first = 1 and steps = "[Request (Text ''initialize'') Undefined, Wait ''turn/completed'' (\<lambda>_. True) True True,
         Request (Text ''turn/start'') Null, Dispatch, Answer (Inr [Frame (Object [(''id'', Integer 1)] Object_prototype)])]"
         and nt = "\<lambda>_. []" and code = 1000 and reason = "[]"] show ?thesis
    by (simp add: max_safe_integer_def Let_def del: mset_upt)
qed

text \<open>
  A response that carries the number of a pending request settles that request alone, with the response's
  error or its result; the other requests and the waiters stay as they are.
\<close>

theorem response_settles_request:
  fixes c n q props p nt
  assumes "map_of (rp_pending c) (int_text n) = Some q" "\<bar>n\<bar> \<le> max_safe_integer"
    and "map_of props ''id'' = Some (Integer n)"
  defines "message \<equiv> Object props p" and "c' \<equiv> handleSocketMessage nt (Frame (Object props p)) c"
  shows "rp_settled c' = rp_settled c @ [(q, if js_get message ''error'' \<noteq> Undefined
             then Rejected_rpc (js_get message ''error'') else Resolved (js_get message ''result''))] \<and>
         map_of (rp_pending c') = (map_of (rp_pending c))(int_text n := None) \<and> rp_waiters c' = rp_waiters c"
proof -
  have "js_get (Object props p) ''id'' = Integer n" using assms(3) by simp
  with assms(1-3) show ?thesis
    by (simp add: c'_def message_def handleSocketMessage_def handleResponse_def settle_def delete_conv)
qed

lemma response_settles_request_witness:
  "rp_settled (handleSocketMessage (\<lambda>_. []) (Frame (Object [(''id'', Integer 7), (''result'', Boolean True)] Object_prototype))
     ((new_rpc 8)\<lparr>rp_pending := [(''7'', 0)]\<rparr>)) = [(0, Resolved (Boolean True))]"
proof -
  have "int_text 7 = ''7''" by code_simp
  moreover have "js_get (Object [(''id'', Integer 7), (''result'', Boolean True)] Object_prototype) ''error'' = Undefined"
    "js_get (Object [(''id'', Integer 7), (''result'', Boolean True)] Object_prototype) ''result'' = Boolean True"
    by code_simp+
  ultimately show ?thesis
    using response_settles_request [where nt = "\<lambda>_. []" and c = "(new_rpc 8)\<lparr>rp_pending := [(''7'', 0)]\<rparr>"
        and n = 7 and q = 0 and p = Object_prototype and props = "[(''id'', Integer 7), (''result'', Boolean True)]"]
    by (simp add: max_safe_integer_def new_rpc_def)
qed

text \<open>
  A frame with an \<open>id\<close> is taken for a response even when it has a \<open>method\<close>: a request of the server
  resolves the client's request of the same number, and is not answered.
\<close>

lemma server_request_resolves_client_request:
  "rp_settled (rpc_run (\<lambda>_. []) [Request (Text ''turn/start'') Undefined, Dispatch,
       Answer (Inr [Frame (Object [(''id'', Integer 1), (''method'', Text ''item/commandExecution/requestApproval'')]
         Object_prototype)])] (new_rpc 1)) = [(0, Resolved Undefined)]"
  by code_simp

text \<open>A wait is not refused once the client is closed; without a timer nothing ends it.\<close>

lemma wait_after_close_hangs:
  "let c = rpc_run nt [Close_client 1000 [], Close_task, Wait m p True False, Wait_timeout 0] (new_rpc 1) in
   rp_closed c \<and> map wt_promise (rp_waiters c) = [0] \<and> rp_settled c = []"
  by (simp add: rpc_run_def new_rpc_def rpc_close_def rejectPending_def settle_def socket_close_def socket_close_task_def
      handleSocketClose_def rpc_emit_def waitForNotification_def waiter_timeout_def Let_def)

end
