(* ===== verification/Spec2Isabelle.thy ===== *)
theory Spec2Isabelle imports Fd_Properties Workspace_Db Wasix_Fork Webc_Wasix Command_Children Terminal_Session Json_Rpc begin

text \<open>
  A model of the browser WASI host of wasm-host: \<open>apps/web/src/wasi-module.js\<close>, the runtime that
  serves the WASI preview1 imports (and the descriptor and path imports of WASIX) of a WebAssembly
  guest from a virtual file system, \<open>workspace.js\<close>, the store that keeps the files of a workspace
  between runs, and \<open>webc-metadata.js\<close>, \<open>package-loader.js\<close> and \<open>webc-wasix.js\<close>, which take a WebC
  package apart, keep its parts in a cache and turn a command of it into a run, \<open>command-worker.js\<close>, the
  worker that serves such runs to a client, \<open>terminal.js\<close>, a client, and \<open>app-server-transport.js\<close>, a
  JSON-RPC client.

  The program's parts. \<open>WasiPreview1Runtime\<close> keeps the guest's memory, the abort signal, the
  arguments and environment, a working directory, three trees (the workspace that outlives the run,
  a scratch tree, the read-only package root), the table of open descriptors with their flags, the
  standard streams and the pipes. The guest calls one import at a time; an import reads its
  arguments and path strings from the guest's memory, works on the trees and the table, writes its
  results back and returns an error number, or throws. \<open>WasixRuntime\<close> (line 5017) adds calls on the
  same state: processes that fork by unwinding and rewinding the guest's stack, commands run by the
  embedder, a terminal. \<open>MemoryBrowserWorkspaceStore\<close> (\<open>workspace.js\<close>) keeps two maps from paths to records,
  of files and of directories, and moves them in and out as snapshots; the workspace tree of a run is
  filled from such a snapshot. A package comes as bytes: a raw WebAssembly
  module, or a WebC container with sections, volumes of files and a CBOR manifest. \<open>extractWebcPackageMetadata\<close>
  reads a container, \<open>BrowserPackageLoader\<close> puts the package and its atoms into a cache under keys made
  from the hash of the bytes, and \<open>webc-wasix.js\<close> finds the atom of a command and mounts the files of
  the volumes below the root of the run; \<open>loadRawWasiModulePackage\<close> (\<open>wasi-module.js\<close>) checks the request
  on the executor's side, and the import section of the module says which memory the host must make.
  \<open>BrowserCommandWorkerRuntime\<close> keeps the loaded packages with a catalogue of their commands and one active
  run: it waits for the package, calls its executor, posts its output, feeds it input and stops it on a
  message or a timer. \<open>BrowserTerminalSession\<close> sends a run to such a worker and shows what comes back.
  \<open>BrowserCodexAppServerJsonRpcClient\<close> sends numbered requests through a loopback socket to a runtime in
  the same page, and settles a promise per request and per awaited notification.

  The theories, in the order the code is layered:
  \<^item> \<open>Js_Prelude\<close>, \<open>Host_Monad\<close>: what the code uses of JavaScript (maps, strings, \<open>>>> 0\<close>) and a
    state and exception monad with its rules; the locale \<open>machine\<close> of a client that makes calls.
  \<^item> \<open>Wasi_Abi\<close>: error numbers, rights and flags, and the pure checks on guest arguments.
  \<^item> \<open>Wasi_Path\<close>: guest paths to mount-relative paths; no guest path leaves its mount.
  \<^item> \<open>Utf8\<close>, \<open>Guest_Memory\<close>: \<open>TextDecoder\<close>, and the linear memory (locale \<open>byte_store\<close>).
  \<^item> \<open>Wasi_Tree\<close>: the flat trees: status, listing, \<open>fd_readdir\<close> pages, renaming of a subtree.
  \<^item> \<open>Runtime_State\<close>: the record \<open>runtime\<close>, one field per field of the class, and its readers.
  \<^item> \<open>Fd_Table\<close>, \<open>Fd_IO\<close>, \<open>Path_Open\<close>, \<open>Path_Ops\<close>, \<open>Poll\<close>: one definition per handler, under
    the name it has in the code, with every check and early return in the code's order.
  \<^item> \<open>Tree_Parents\<close>: what one change may do to a tree (\<open>tree_kept\<close>): it stays well formed, and no
    entry loses its parent directory.
  \<^item> \<open>Host_Steps\<close>, \<open>Host_Calls\<close>, \<open>Host_Invariants\<close>: the abstract machine: each handler refines a
    run of elementary changes (\<open>evolves\<close>), and each invariant is checked on these changes once.
  \<^item> \<open>Wasi_Calls\<close>: the import object as one dispatcher over a datatype of calls, and the
    interpretations of \<open>machine\<close> on it, one per invariant.
  \<^item> \<open>Fd_Properties\<close>: what the descriptor calls do, seen by a guest that reads its memory: transfers,
    pipes, seeking, sizing, and the pages of \<open>fd_readdir\<close>.
  \<^item> \<open>Base64\<close>, \<open>Workspace_Store\<close>: the workspace store and its invariant \<open>store_ok\<close>;
    \<open>Workspace_Spec\<close>: the file system it implements (\<open>ws_abs\<close>, \<open>spec_step\<close>) and the refinement, one
    lemma per method; \<open>Workspace_Snapshots\<close>: export and import; \<open>Workspace_Db\<close>: the store on IndexedDB, its methods
    cut at their \<open>await\<close>s and interleaved; \<open>Workspace_Mount\<close>: from a snapshot of the store to the
    workspace tree of a run, and back.
  \<^item> \<open>Wasix_State\<close>: the record \<open>wasix\<close> around \<open>runtime\<close>: processes, snapshots, pending unwinding, and the
    turns of \<open>runWasiEntrypoint\<close>; \<open>Wasix_Calls\<close>: the handlers of \<open>WasixRuntime\<close> and its import object;
    \<open>Wasix_Run\<close>: the loop of \<open>runRawWasiModule\<close>, \<open>runProcessExec\<close>, the child of a copied fork;
    \<open>Wasix_Process\<close>: the steps of a guest (\<open>guest_step\<close>) and the invariant of its process table;
    \<open>Wasix_Properties\<close>, \<open>Wasix_Fork\<close>: joining, and forks that return twice.
  \<^item> \<open>Byte_Reader\<close>: readers of bytes (locales \<open>codec\<close>, \<open>list_codec\<close>: what is encoded is read back and
    the offset moves past it); \<open>Wasm_Imports\<close>: the import section of a module, and the memories the host
    makes for it; \<open>Webc_Volume\<close>, \<open>Webc_Cbor\<close>, \<open>Webc_Manifest\<close>: sections and volumes, CBOR values, and the
    manifest of a WebC container, from bytes to checked metadata; \<open>Package_Loader\<close>: keys, cache and
    loading; \<open>Webc_Wasix\<close>: from the metadata to the request of a run and the executor that serves it.
  \<^item> \<open>Command_Catalog\<close>: packages and the lookup of commands along a path; \<open>Command_Stdin\<close>: the queue of
    input chunks; \<open>Command_Run\<close>: requests and results; \<open>Command_Worker\<close>: the worker as a machine whose steps
    are the pieces of its functions between two \<open>await\<close>s; \<open>Command_Protocol\<close>: its invariant \<open>worker_ok\<close>, kept by
    every step, and what a client sees of a run; \<open>Command_Children\<close>: commands started by a command;
    \<open>Terminal_Session\<close>: the client, on the messages of the worker.
  \<^item> \<open>Json_Rpc\<close>: the JSON-RPC client and its socket as a machine of calls, frames, closes and timeouts; each
    promise is settled once or still awaited.
  The properties about whole runs of a guest are in this theory, those of one component beside it.

  Objects and numbers. A JavaScript object that is shared or compared by identity (a file record, a
  pipe, an offset cell) is a reference into a store of the runtime. Guest integers are the signed
  values the engine passes, as \<open>int\<close>; \<open>js_u32\<close> is \<open>>>> 0\<close>; 64-bit results are written modulo
  \<open>2 ^ 64\<close> by \<open>le_bytes\<close>; bytes are \<open>8 word\<close>.

  Bounds and fuel. \<open>pollOneoff\<close>, the iovec loops and \<open>randomGet\<close> recurse on a count of the call,
  which the loop of the code decrements too. \<open>first_free_fd\<close> is the unbounded search of the code; it
  ends because the numbers in use are finitely many. \<open>run_turns\<close> has the 64 turns of the code;
  \<open>run_rounds\<close>, whose loop has no bound in the code, returns \<open>None\<close> when it needs more rounds than given.
  \<open>parseHeaderEntry\<close> recurses on a depth, one more than the header has bytes, which
  \<open>parseVolumeHeader_terminates\<close> shows to be enough; \<open>readValue\<close> has the levels that \<open>MAX_CBOR_DEPTH\<close> allows.

  Conditions. A statement about what a store keeps holds for the stores its hypotheses name. A snapshot
  restores a store whose names survive trimming (\<open>stable_store\<close>), and a run is saved when the names of its
  entries are storable and have their parents (\<open>mount_ok\<close>); the lemmas \<open>trimmed_name_breaks_snapshot\<close> and
  \<open>backslash_breaks_snapshot\<close> show that the code needs both. A written record is durable when no other
  method is under way; \<open>overlapping_writes_lose_one\<close> is what happens otherwise. A run that has been aborted
  ends with the error of the abort if it waits for its package or its executor, not while its workspace is
  being imported (\<open>cancelled_import_completes\<close>).

  Not modelled: running WebAssembly (the engine) and the JavaScript promises around it: what compiled code
  does between two calls is an arbitrary change of the memory and the instance, and the asyncify exports
  are arguments (\<open>'m asyncify\<close>); what a parent sees of the workspace maps after a copied child has renamed
  a directory of it, because that call replaces the map objects the two share; threads and futexes, which
  the host only refuses; reading of stdin while the guest is blocked (a \<open>SharedArrayBuffer\<close> handshake); the
  cache of packages on IndexedDB; the limits of the engine on recursion and memory; the other source
  files (\<open>http.js\<close>, the rest of the application server and the user interface). In a package, the object under
  the name \<open>annotations\<close> of a prototype that \<open>__proto__\<close> has set is not looked up (\<open>webcCommandMetadata\<close>). The clock
  and the random source are arguments of the calls that use them, as are the SHA-256 of a package
  (\<open>digest\<close>) and the text of a CBOR key that is no string (\<open>key_text\<close>, which is \<open>String(key)\<close>).
\<close>

section \<open>The host behind any sequence of calls\<close>

abbreviation (input) no_clock :: "int \<Rightarrow> int" where "no_clock \<equiv> \<lambda>c. 0"
abbreviation (input) no_random :: "int \<Rightarrow> int \<Rightarrow> byte list" where "no_random \<equiv> \<lambda>off n. replicate (nat n) 0"

lemma example_isolated: "isolated example_host"
  by (auto simp: isolated_def readonly_record_def mutable_record_def example_host_def descr_defs)

lemma example_table: "table_ok example_host"
  by (auto simp: table_ok_def fd_table_ok_def example_host_def open_ends_def descr_defs fd_number_def
      descr_refs_def pipe_end_def isDynamicFileFdNumber_def isStdioFd_def)

text \<open>
  C1: whatever the guest calls, in any order and with any arguments, the files of the package root
  and of a read-only workspace keep their records: no byte of them changes.
\<close>

theorem readonly_files_never_change:
  assumes "isolated s" "readonly_record s r"
  shows "recs (run_calls (wasi_import now random) cs s) r = recs s r"
  using evolves_isolated(2) [OF run_calls_evolves assms] .

theorem readonly_files_never_change_witness:
  "recs (run_calls (wasi_import no_clock no_random)
     [Fd_pwrite 6 0 1 0 100, Fd_filestat_set_size 6 0, Path_unlink_file 5 100 1, Fd_dup 6 500] example_host) 2 =
   recs example_host 2"
  by (rule readonly_files_never_change [OF example_isolated])
    (simp add: readonly_record_def example_host_def)

text \<open>
  Whatever the guest calls, the package tree, the arguments and environment, the standard input, the
  abort signal and the write permission of the workspace stay as they were, and a clean workspace
  that the guest may not write stays clean.
\<close>

theorem host_frame: "fixed_parts s (run_calls (wasi_import now random) cs s)"
  by (rule evolves_fixed [OF run_calls_evolves])

text \<open>
  C4: The descriptor table stays consistent under any sequence of calls: numbers in use are below
  \<open>nextFileFd\<close>, all references are allocated, and the reader and writer counts of a pipe are the
  numbers of its open ends.
\<close>

theorem table_kept:
  assumes "table_ok s"
  shows "table_ok (run_calls (wasi_import now random) cs s)"
  using assms by (rule tables.run_calls_inv)

theorem table_kept_witness:
  "table_ok (run_calls (wasi_import no_clock no_random)
     [Fd_pipe 500 504, Fd_dup2 6 9 0 508, Fd_renumber 9 1, Fd_close 6] example_host)"
  by (rule table_kept [OF example_table])

text \<open>
  C5: No sequence of calls gives a descriptor rights beyond those of its mount and kind.
\<close>

theorem rights_kept:
  assumes "rights_ok s"
  shows "rights_ok (run_calls (wasi_import now random) cs s)"
  using assms by (rule rights.run_calls_inv)

theorem rights_kept_witness:
  "rights_ok (run_calls (wasi_import no_clock no_random)
     [Fd_fdstat_set_rights 7 0 0, Path_open 4 0 100 1 1 0 0 0 500] example_host)"
  by (rule rights_kept) code_simp

text \<open>
  C6: No sequence of calls fills a pipe past the limit of the host.
\<close>

theorem pipes_kept_bounded:
  assumes "pipes_bounded s"
  shows "pipes_bounded (run_calls (wasi_import now random) cs s)"
  using assms by (rule bounds.run_calls_inv)

theorem pipes_kept_bounded_witness:
  "pipes_bounded (run_calls (wasi_import no_clock no_random) [Fd_pipe 500 504, Fd_write 9 0 1 508] example_host)"
  by (rule pipes_kept_bounded) (simp add: pipes_bounded_def example_host_def)

primrec keeps_roots :: "(int \<Rightarrow> int) \<Rightarrow> (int \<Rightarrow> int \<Rightarrow> byte list) \<Rightarrow> wasi_call list \<Rightarrow> runtime \<Rightarrow> bool" where
  "keeps_roots now random [] s \<longleftrightarrow> True"
| "keeps_roots now random (c # cs) s \<longleftrightarrow>
     \<not> moves_root s c \<and> keeps_roots now random cs (snd (wasi_import now random c s))"

text \<open>No tree whose entries all have their parent directory loses that.\<close>

definition parents_kept :: "runtime \<Rightarrow> runtime \<Rightarrow> bool" where
  "parents_kept s t \<longleftrightarrow>
     (parents_ok (ws_files s) (ws_dirs s) \<longrightarrow> parents_ok (ws_files t) (ws_dirs t)) \<and>
     (parents_ok (sc_files s) (sc_dirs s) \<longrightarrow> parents_ok (sc_files t) (sc_dirs t))"

text \<open>
  C3: Whatever the guest calls, the workspace and scratch trees stay well formed (canonical paths, a root,
  no path both a file and a directory, no entry below a file), and a tree in which every file and directory
  has its parent directory stays such a tree, as long as no call renames a scratch directory onto its own
  root and no call removes the workspace root.
\<close>

theorem trees_kept:
  assumes "trees_ok s" "keeps_roots now random cs s"
  shows "trees_ok (run_calls (wasi_import now random) cs s) \<and> parents_kept s (run_calls (wasi_import now random) cs s)"
  using assms
proof (induction cs arbitrary: s)
  case (Cons c cs)
  let ?t = "snd (wasi_import now random c s)"
  have ev: "evolves True s ?t"
    using wasi_import_evolves [of True s c now random] Cons.prems by (simp add: evolving_at_def trees_ok_def)
  have "trees_ok ?t \<and> parents_kept s ?t"
    by (rule evolves_inv [where P = "\<lambda>t. trees_ok t \<and> parents_kept s t", OF ev])
      (use Cons.prems rt_step_trees_ok rt_step_parents in \<open>auto simp: parents_kept_def\<close>)
  then show ?case using Cons.IH [of ?t] Cons.prems(2) by (auto simp: parents_kept_def)
qed (simp add: parents_kept_def)

theorem trees_kept_witness:
  "let t = run_calls (wasi_import no_clock no_random)
     [Path_create_directory 3 100 1, Path_rename 4 100 1 4 400 4, Chdir 300 10] example_host
   in trees_ok t \<and> parents_ok (ws_files t) (ws_dirs t) \<and> parents_ok (sc_files t) (sc_dirs t)"
proof -
  have "trees_ok example_host" "parents_ok (ws_files example_host) (ws_dirs example_host)"
    "parents_ok (sc_files example_host) (sc_dirs example_host)" by code_simp+
  moreover have "keeps_roots no_clock no_random
     [Path_create_directory 3 100 1, Path_rename 4 100 1 4 400 4, Chdir 300 10] example_host"
    by (simp only: keeps_roots.simps wasi_import.simps moves_root_def wasi_call.case) code_simp
  ultimately show ?thesis
    using trees_kept [of example_host no_clock no_random "[Path_create_directory 3 100 1, Path_rename 4 100 1 4 400 4, Chdir 300 10]"]
    by (simp add: parents_kept_def Let_def)
qed

lemma moved_files_keys: "fst ` set (moved_files src tgt files) = moved_path src tgt ` fst ` set files"
proof -
  have "fst ` set (foldl (\<lambda>acc (path, file). AList.update (moved_path src tgt path) file acc) acc xs) =
      fst ` set acc \<union> moved_path src tgt ` fst ` set xs" for acc xs :: file_map
  proof (induction xs arbitrary: acc)
    case (Cons x xs)
    show ?case using Cons.IH [of "AList.update (moved_path src tgt (fst x)) (snd x) acc"]
      by (simp add: case_prod_beta keys_update)
  qed simp
  from this [of "[]" files] show ?thesis by (simp add: moved_files_def)
qed

lemma not_canonical_slash: "\<not> canonical (''/'' @ x)"
  using canonical_hd [of "''/'' @ x"] by auto

lemma workspace_passes:
  "fst (renameWorkspacePath oldFd oldPtr oldLen newFd newPtr newLen s) = Inr None \<Longrightarrow>
   renameWorkspacePath oldFd oldPtr oldLen newFd newPtr newLen s = (Inr None, s)"
  by (auto simp: renameWorkspacePath_def Let_def run_seq run_bind markWorkspaceDirty_def
      split: if_splits sum.splits option.splits)

text \<open>
  C31: \<open>pathRename\<close> lets a guest with the right to rename move any directory of the scratch tree that holds
  a file onto the root of that tree: the call succeeds, and each file of the directory ends at a path with a
  leading slash, which is not canonical, so that no lookup reaches it. (\<open>renameWorkspacePath\<close> has handed the
  call on, because neither path is in the workspace.)
\<close>

theorem scratch_root_rename_breaks_tree:
  assumes "trees_ok s" "\<not> aborted s" "fst (renameWorkspacePath oldFd oldPtr oldLen newFd newPtr newLen s) = Inr None"
    and "scratchBasePathForRight s oldFd RIGHT_PATH_RENAME_SOURCE = Inr oldBase"
    and "scratchBasePathForRight s newFd RIGHT_PATH_RENAME_TARGET = Inr newBase"
    and "resolveMountedPath oldBase (readString s oldPtr oldLen) TMP_PREOPEN_PATH False False = Inr d"
    and "resolveMountedPath newBase (readString s newPtr newLen) TMP_PREOPEN_PATH False False = Inr []"
    and "canonical d" "d \<noteq> []" "d @ ''/'' @ x \<in> fst ` set (sc_files s)"
  shows "\<exists>t. pathRename oldFd oldPtr oldLen newFd newPtr newLen s = (Inr ERRNO_SUCCESS, t) \<and>
    ''/'' @ x \<in> fst ` set (sc_files t) \<and> \<not> canonical (''/'' @ x) \<and> \<not> trees_ok t"
proof -
  have tree: "tree_ok (sc_files s) (sc_dirs s)" "[] \<in> set (sc_dirs s)" using assms(1) by (simp_all add: trees_ok_def)
  have kids: "pathHasChildren (sc_files s) (sc_dirs s) d"
    using assms(10) unfolding pathHasChildren_iff by (intro bexI [of _ "d @ ''/'' @ x"]) simp_all
  have "d \<notin> fst ` set (sc_files s)" "[] \<notin> fst ` set (sc_files s)"
    using tree_okD(7) [OF tree(1)] kids tree_okD(3) [OF tree(1)] by blast+
  then have check: "rename_check (sc_files s) (sc_dirs s) d [] = Inr None"
    using kids tree no_children_of_root [OF tree(1)] by (simp add: rename_check_def tree_kind_def map_has_iff)
  define t where "t = renameScratchDirectory d [] s"
  have "pathRename oldFd oldPtr oldLen newFd newPtr newLen s = (Inr ERRNO_SUCCESS, t)"
    using assms check workspace_passes [OF assms(3)] by (simp add: pathRename_def renameScratchPath_def throwIfAborted_def run_seq run_bind t_def)
  moreover have "moved_path d [] (d @ ''/'' @ x) = ''/'' @ x"
    by (simp add: moved_path_def at_or_below_def replacePathPrefix_def)
  then have "''/'' @ x \<in> fst ` set (sc_files t)"
    using assms(10) by (force simp: t_def renameScratchDirectory_def map_descrs_def Let_def moved_files_keys image_iff)
  moreover from this have "\<not> trees_ok t"
    using not_canonical_slash tree_okD(4) unfolding trees_ok_def by blast
  ultimately show ?thesis using not_canonical_slash by blast
qed

theorem scratch_root_rename_breaks_tree_witness:
  "\<exists>t. pathRename 4 100 1 4 200 1 example_host = (Inr ERRNO_SUCCESS, t) \<and> ''/x'' \<in> fst ` set (sc_files t)"
proof -
  have "trees_ok example_host" "\<not> aborted example_host"
    "scratchBasePathForRight example_host 4 RIGHT_PATH_RENAME_SOURCE = Inr []"
    "scratchBasePathForRight example_host 4 RIGHT_PATH_RENAME_TARGET = Inr []"
    "resolveMountedPath [] (readString example_host 100 1) TMP_PREOPEN_PATH False False = Inr ''a''"
    "resolveMountedPath [] (readString example_host 200 1) TMP_PREOPEN_PATH False False = Inr []"
    "canonical ''a''" by code_simp+
  moreover have "fst (renameWorkspacePath 4 100 1 4 200 1 example_host) = Inr None"
    by code_simp
  ultimately show ?thesis
    using scratch_root_rename_breaks_tree [of example_host 4 100 1 4 200 1 "[]" "[]" "''a''" "''x''"]
    by (auto simp: example_host_def)
qed

text \<open>
  \<open>pathRemoveDirectory\<close> with an absolute path, through a descriptor of another directory, removes
  the root of the workspace.
\<close>

theorem workspace_root_removed:
  "let (result, t) = pathRemoveDirectory 7 300 10 example_host in
   result = Inr ERRNO_SUCCESS \<and> [] \<in> set (ws_dirs example_host) \<and> [] \<notin> set (ws_dirs t)"
  by code_simp

text \<open>
  C27: Once the abort signal is set, every call but \<open>proc_exit\<close> leaves the state as it is, and either
  throws the abort error or refuses an argument it looked at first.
\<close>

theorem aborted_host_refuses:
  assumes "aborted s" "\<forall>code. c \<noteq> Proc_exit code"
  shows "wasi_import now random c s = (Inl AbortError, s) \<or> wasi_import now random c s = (Inr ERRNO_INVAL, s)"
  using aborted_call [OF assms(1)] assms(2) by (simp add: refuses_def)

theorem aborted_host_refuses_witness:
  "(let s = example_host \<lparr>aborted := True\<rparr> in
    wasi_import no_clock no_random (Fd_close 6) s = (Inl AbortError, s) \<or>
    wasi_import no_clock no_random (Fd_close 6) s = (Inr ERRNO_INVAL, s))"
  unfolding Let_def by (rule aborted_host_refuses) simp_all
end
